(* ===== verification/Prelude.thy ===== *)
theory Prelude
  imports Complex_Main "HOL-Library.AList"
begin

text \<open>
  What every component shares: the JavaScript run-time library the source uses (\<open>Map\<close> with
  its insertion order, stable sorting by a comparator, thrown errors as values, log lines as
  recorded effects), and the generic lemmas about them.

  A \<open>Map\<close> is an association list with distinct keys. \<open>jm_set\<close> keeps the position of a
  key that is already there and appends a new one, as \<open>Map.prototype.set\<close> and object spread
  do; iterating the map is reading the list from the left.
\<close>

section \<open>Errors and log lines\<close>

text \<open>The classes of error the source raises; the text is the message the class is built with.\<close>

datatype js_error =
    TypeError string
  | RangeError string
  | PlainError string
  | AggregateError "js_error list" string

text \<open>A fallible computation is \<^theory_text>\<open>js_error + 'a\<close>; \<open>ebind\<close> stops at the first error.\<close>

definition ebind :: "'e + 'a \<Rightarrow> ('a \<Rightarrow> 'e + 'b) \<Rightarrow> 'e + 'b" where
  "ebind x f = (case x of Inl e \<Rightarrow> Inl e | Inr a \<Rightarrow> f a)"

lemma ebind_simps [simp]:
  "ebind (Inl e) f = Inl e"
  "ebind (Inr a) f = f a"
  by (simp_all add: ebind_def)

lemma ebind_eq_InrE:
  assumes "ebind x f = Inr b"
  obtains a where "x = Inr a" and "f a = Inr b"
  using assms by (cases x) auto

datatype log_line =
    LDebug string
  | LInfo string
  | LWarn string
  | LError string

section \<open>Clock readings\<close>

text \<open>
  A clock reading is a finite JavaScript number of milliseconds. The model keeps it as a rational:
  the readings are whole numbers and restored ones finite, and their sums and differences stay far
  inside the range in which a double is exact.
\<close>

type_synonym millis = rat

section \<open>Insertion-ordered maps\<close>

type_synonym ('k, 'v) jsmap = "('k \<times> 'v) list"

definition jm_get :: "('k, 'v) jsmap \<Rightarrow> 'k \<Rightarrow> 'v option" where
  "jm_get m k = map_of m k"

definition jm_set :: "'k \<Rightarrow> 'v \<Rightarrow> ('k, 'v) jsmap \<Rightarrow> ('k, 'v) jsmap" where
  "jm_set k v m = AList.update k v m"

definition jm_delete :: "'k \<Rightarrow> ('k, 'v) jsmap \<Rightarrow> ('k, 'v) jsmap" where
  "jm_delete k m = AList.delete k m"

definition jm_has :: "('k, 'v) jsmap \<Rightarrow> 'k \<Rightarrow> bool" where
  "jm_has m k = (jm_get m k \<noteq> None)"

definition jm_keys :: "('k, 'v) jsmap \<Rightarrow> 'k list" where
  "jm_keys m = map fst m"

definition jm_wf :: "('k, 'v) jsmap \<Rightarrow> bool" where
  "jm_wf m = distinct (map fst m)"

text \<open>
  The interface the components rely on. Everything about reading a map after it was written is
  proved from these laws alone.
\<close>

locale ordered_map =
  fixes get :: "'m \<Rightarrow> 'k \<Rightarrow> 'v option"
    and put :: "'k \<Rightarrow> 'v \<Rightarrow> 'm \<Rightarrow> 'm"
    and del :: "'k \<Rightarrow> 'm \<Rightarrow> 'm"
    and keys :: "'m \<Rightarrow> 'k list"
    and wf :: "'m \<Rightarrow> bool"
  assumes get_put: "get (put k v m) j = (if j = k then Some v else get m j)"
    and get_del: "get (del k m) j = (if j = k then None else get m j)"
    and keys_get: "set (keys m) = {k. get m k \<noteq> None}"
    and keys_put: "keys (put k v m) = (if get m k = None then keys m @ [k] else keys m)"
    and keys_del: "keys (del k m) = filter (\<lambda>j. j \<noteq> k) (keys m)"
    and wf_keys: "wf m = distinct (keys m)"
begin

lemma in_keys_iff: "k \<in> set (keys m) \<longleftrightarrow> (\<exists>v. get m k = Some v)"
  by (simp add: keys_get)

lemma wf_put: "wf m \<Longrightarrow> wf (put k v m)"
  by (auto simp: wf_keys keys_put in_keys_iff)

lemma wf_del: "wf m \<Longrightarrow> wf (del k m)"
  by (simp add: wf_keys keys_del)

lemma get_put_put: "get (put k v (put k w m)) j = get (put k v m) j"
  by (simp add: get_put)

lemma get_put_swap: "j \<noteq> k \<Longrightarrow> get (put j v (put k w m)) i = get (put k w (put j v m)) i"
  by (simp add: get_put)

lemma get_fold_put:
  "get (fold (\<lambda>k. put k v) ks m) j = (if j \<in> set ks then Some v else get m j)"
  by (induction ks arbitrary: m) (auto simp: get_put)

lemma get_fold_del:
  "get (fold del ks m) j = (if j \<in> set ks then None else get m j)"
  by (induction ks arbitrary: m) (auto simp: get_del)

lemma wf_fold_put: "wf m \<Longrightarrow> wf (fold (\<lambda>k. put k v) ks m)"
  by (induction ks arbitrary: m) (auto intro: wf_put)

lemma wf_fold_del: "wf m \<Longrightarrow> wf (fold del ks m)"
  by (induction ks arbitrary: m) (auto intro: wf_del)

end

lemma keys_alist_update:
  "map fst (AList.update k v m) = (if map_of m k = None then map fst m @ [k] else map fst m)"
proof -
  have "map_of m k = None \<longleftrightarrow> k \<notin> set (map fst m)"
    by (simp add: map_of_eq_None_iff)
  then show ?thesis by (simp add: AList.update_keys)
qed

lemma keys_alist_delete: "map fst (AList.delete k m) = filter (\<lambda>j. j \<noteq> k) (map fst m)"
  by (induction m) auto

interpretation jm: ordered_map jm_get jm_set jm_delete jm_keys jm_wf
proof
  fix k j :: 'a and v :: 'b and m :: "('a, 'b) jsmap"
  show "jm_get (jm_set k v m) j = (if j = k then Some v else jm_get m j)"
    by (simp add: jm_get_def jm_set_def update_conv')
  show "jm_get (jm_delete k m) j = (if j = k then None else jm_get m j)"
    by (simp add: jm_get_def jm_delete_def delete_conv')
  show "set (jm_keys m) = {k. jm_get m k \<noteq> None}"
    by (force simp: jm_get_def jm_keys_def map_of_eq_None_iff)
  show "jm_keys (jm_set k v m) = (if jm_get m k = None then jm_keys m @ [k] else jm_keys m)"
    by (simp add: jm_get_def jm_set_def jm_keys_def keys_alist_update)
  show "jm_keys (jm_delete k m) = filter (\<lambda>j. j \<noteq> k) (jm_keys m)"
    by (simp add: jm_keys_def jm_delete_def keys_alist_delete)
  show "jm_wf m = distinct (jm_keys m)"
    by (simp add: jm_wf_def jm_keys_def)
qed

lemmas jm_simps [simp] = jm.get_put jm.get_del

lemma jm_wf_empty [simp, intro]: "jm_wf []"
  by (simp add: jm_wf_def)

lemma jm_get_empty [simp]: "jm_get [] k = None"
  by (simp add: jm_get_def)

lemma jm_has_iff: "jm_has m k \<longleftrightarrow> k \<in> set (jm_keys m)"
  by (auto simp: jm_has_def jm.in_keys_iff)

lemmas jm_wfs [intro] = jm.wf_put jm.wf_del jm.wf_fold_put jm.wf_fold_del

lemma jm_get_entry: "jm_wf m \<Longrightarrow> (k, v) \<in> set m \<longleftrightarrow> jm_get m k = Some v"
  by (simp add: jm_wf_def jm_get_def map_of_eq_Some_iff)

text \<open>The elements of \<open>new Set(xs)\<close>, in the order of their first occurrence.\<close>

definition js_set :: "'a list \<Rightarrow> 'a list" where
  "js_set xs = rev (remdups (rev xs))"

lemma js_set_simps [simp]: "set (js_set xs) = set xs" "distinct (js_set xs)"
  by (simp_all add: js_set_def)

section \<open>Sorting by a comparator\<close>

text \<open>
  \<open>Array.prototype.sort\<close> is stable and its order is the comparator's. The comparator is
  given as its \<open>\<le>\<close>: \<open>leq x y\<close> holds when the comparison of \<open>x\<close> with \<open>y\<close> is
  not positive.
\<close>

fun insort_by :: "('a \<Rightarrow> 'a \<Rightarrow> bool) \<Rightarrow> 'a \<Rightarrow> 'a list \<Rightarrow> 'a list" where
  "insort_by leq x [] = [x]"
| "insort_by leq x (y # ys) = (if leq x y then x # y # ys else y # insort_by leq x ys)"

definition sort_by :: "('a \<Rightarrow> 'a \<Rightarrow> bool) \<Rightarrow> 'a list \<Rightarrow> 'a list" where
  "sort_by leq xs = foldr (insort_by leq) xs []"

lemma set_insort_by [simp]: "set (insort_by leq x ys) = insert x (set ys)"
  by (induction ys) auto

lemma set_sort_by [simp]: "set (sort_by leq xs) = set xs"
  by (induction xs) (auto simp: sort_by_def)

lemma length_insort_by [simp]: "length (insort_by leq x ys) = Suc (length ys)"
  by (induction ys) auto

lemma length_sort_by [simp]: "length (sort_by leq xs) = length xs"
  by (induction xs) (auto simp: sort_by_def)

lemma distinct_insort_by: "distinct (insort_by leq x ys) \<longleftrightarrow> x \<notin> set ys \<and> distinct ys"
  by (induction ys) auto

lemma distinct_sort_by [simp]: "distinct (sort_by leq xs) = distinct xs"
proof (induction xs)
  case (Cons x xs)
  have "sort_by leq (x # xs) = insort_by leq x (sort_by leq xs)"
    by (simp add: sort_by_def)
  with Cons show ?case by (simp add: distinct_insort_by)
qed (simp add: sort_by_def)

lemma sort_by_Nil_iff [simp]: "sort_by leq xs = [] \<longleftrightarrow> xs = []"
  using length_sort_by [of leq xs] by (metis length_0_conv)

lemma sorted_insort_by:
  assumes "\<And>x y. leq x y \<or> leq y x" and "\<And>x y z. leq x y \<Longrightarrow> leq y z \<Longrightarrow> leq x z"
    and "sorted_wrt leq ys"
  shows "sorted_wrt leq (insort_by leq x ys)"
  using assms(3)
proof (induction ys)
  case (Cons y ys)
  show ?case
  proof (cases "leq x y")
    case True
    then show ?thesis using Cons.prems assms(2) [OF True] by auto
  next
    case False
    then have "leq y x" using assms(1) by blast
    then show ?thesis using False Cons by simp
  qed
qed simp

lemma sorted_sort_by:
  assumes "\<And>x y. leq x y \<or> leq y x" and "\<And>x y z. leq x y \<Longrightarrow> leq y z \<Longrightarrow> leq x z"
  shows "sorted_wrt leq (sort_by leq xs)"
  unfolding sort_by_def by (induction xs) (auto intro!: sorted_insort_by assms(1) intro: assms(2))

section \<open>Numbers of a bounded size\<close>

text \<open>
  Counting in a double: \<open>n + 1\<close> is exact below \<open>2 ^ 53\<close>, and \<open>2 ^ 53 + 1\<close> rounds
  back to \<open>2 ^ 53\<close>.
\<close>

definition js_count_limit :: nat where
  "js_count_limit = 2 ^ 53"

definition js_incr :: "nat \<Rightarrow> nat" where
  "js_incr n = (if int n < 2 ^ 53 then Suc n else n)"

lemma js_incr_limit: "js_incr n = (if n < js_count_limit then Suc n else n)"
proof -
  have "int n < 2 ^ 53 \<longleftrightarrow> n < 2 ^ 53"
    by (metis of_nat_less_iff of_nat_numeral of_nat_power)
  then show ?thesis by (simp add: js_incr_def js_count_limit_def)
qed

lemma js_incr_le: "n \<le> js_count_limit \<Longrightarrow> js_incr n = min js_count_limit (Suc n)"
  by (simp add: js_incr_limit)

lemma js_incr_bound: "n \<le> js_count_limit \<Longrightarrow> js_incr n \<le> js_count_limit"
  by (simp add: js_incr_limit)

lemma js_incr_ge [simp]: "n \<le> js_incr n"
  by (simp add: js_incr_limit)

section \<open>State kept per key\<close>

text \<open>
  The interface of a component that keeps one independent state per key, a device in most of them:
  an operation changes the keys it targets, and what it makes of a key depends on that key alone.
\<close>

locale keyed_state =
  fixes view :: "'s \<Rightarrow> 'k \<Rightarrow> 'v"
    and step :: "'op \<Rightarrow> 's \<Rightarrow> 's"
    and targets :: "'op \<Rightarrow> 'k \<Rightarrow> bool"
  assumes frame: "\<not> targets op k \<Longrightarrow> view (step op s) k = view s k"
    and local_effect: "view s k = view s' k \<Longrightarrow> view (step op s) k = view (step op s') k"
begin

lemma frame_run: "\<forall>op \<in> set ops. \<not> targets op k \<Longrightarrow> view (fold step ops s) k = view s k"
  by (induction ops arbitrary: s) (simp_all add: frame)

lemma local_run: "view s k = view s' k \<Longrightarrow> view (fold step ops s) k = view (fold step ops s') k"
proof (induction ops arbitrary: s s')
  case (Cons op ops)
  show ?case using Cons.IH [OF local_effect [OF Cons.prems]] by simp
qed simp

lemma projection:
  "view (fold step ops s) k = view (fold step (filter (\<lambda>op. targets op k) ops) s) k"
proof (induction ops arbitrary: s)
  case (Cons op ops)
  show ?case
  proof (cases "targets op k")
    case False
    then have "view (fold step ops (step op s)) k = view (fold step ops s) k"
      by (intro local_run frame)
    with False Cons show ?thesis by simp
  qed (simp add: Cons)
qed simp

end

end
