(* ===== verification/JsValue.thy ===== *)
theory JsValue
  imports Prelude
begin

text \<open>
  JavaScript values as \<open>JSON.parse\<close> returns them: the numbers of a double (with the negative
  zero, the infinities and not-a-number kept apart), and the six kinds of parsed JSON. A vendor
  value that the source types \<open>unknown\<close> is a value of type \<open>json option\<close>, \<open>None\<close> being
  \<open>undefined\<close>, the answer of reading a key the object does not have.
\<close>

section \<open>Numbers\<close>

text \<open>
  A finite double is the rational it denotes. Two values are equal in HOL exactly when
  \<open>Object.is\<close> answers true: \<open>NaN\<close> is itself, and \<open>-0\<close> is not \<open>0\<close>.
\<close>

datatype jsnum = Fin rat | NegZero | PosInf | NegInf | NaN

text \<open>The number a value denotes in comparisons and arithmetic, when it is a finite one.\<close>

fun finite_of :: "jsnum \<Rightarrow> rat option" where
  "finite_of (Fin r) = Some r"
| "finite_of NegZero = Some 0"
| "finite_of PosInf = None"
| "finite_of NegInf = None"
| "finite_of NaN = None"

definition num_isFinite :: "jsnum \<Rightarrow> bool" where
  "num_isFinite n = (finite_of n \<noteq> None)"

definition num_isInteger :: "jsnum \<Rightarrow> bool" where
  "num_isInteger n = (case finite_of n of Some r \<Rightarrow> of_int \<lfloor>r\<rfloor> = r | None \<Rightarrow> False)"

text \<open>\<open><=\<close> and \<open><\<close> of JavaScript: false whenever a side is \<open>NaN\<close>.\<close>

fun num_le :: "jsnum \<Rightarrow> jsnum \<Rightarrow> bool" where
  "num_le NaN _ = False"
| "num_le _ NaN = False"
| "num_le NegInf _ = True"
| "num_le _ PosInf = True"
| "num_le PosInf _ = False"
| "num_le _ NegInf = False"
| "num_le a b = (the (finite_of a) \<le> the (finite_of b))"

definition num_lt :: "jsnum \<Rightarrow> jsnum \<Rightarrow> bool" where
  "num_lt a b = (num_le a b \<and> \<not> num_le b a)"

text \<open>
  \<open>SameValueZero\<close>, the equality of \<open>Set.has\<close> and \<open>Map.get\<close>: \<open>-0\<close> finds \<open>0\<close>.
\<close>

definition same_value_zero :: "jsnum \<Rightarrow> jsnum \<Rightarrow> bool" where
  "same_value_zero a b = (a = b \<or> (a \<in> {Fin 0, NegZero} \<and> b \<in> {Fin 0, NegZero}))"

lemma num_le_finite [simp]:
  "finite_of a = Some x \<Longrightarrow> finite_of b = Some y \<Longrightarrow> num_le a b = (x \<le> y)"
  by (cases a; cases b) auto

lemma num_lt_finite [simp]:
  "finite_of a = Some x \<Longrightarrow> finite_of b = Some y \<Longrightarrow> num_lt a b = (x < y)"
  by (auto simp: num_lt_def)

lemma num_lt_irrefl [simp]: "\<not> num_lt a a"
  by (simp add: num_lt_def)

lemma num_lt_NaN [simp]: "\<not> num_lt NaN a" "\<not> num_lt a NaN"
  by (cases a; simp add: num_lt_def)+

lemma num_le_trans: "num_le a b \<Longrightarrow> num_le b c \<Longrightarrow> num_le a c"
  by (cases a; cases b; cases c) auto

lemma num_lt_trans: "num_lt a b \<Longrightarrow> num_lt b c \<Longrightarrow> num_lt a c"
  unfolding num_lt_def by (meson num_le_trans)

text \<open>A result of this magnitude or more rounds to an infinity.\<close>

definition double_overflow :: rat where
  "double_overflow = 2 ^ 1024 - 2 ^ 970"

section \<open>Parsed JSON\<close>

datatype json =
    JNull
  | JBool bool
  | JNum jsnum
  | JStr string
  | JArr "json list"
  | JObj "(string \<times> json) list"

type_synonym jobj = "(string \<times> json) list"

definition isRecord :: "json option \<Rightarrow> bool" where
  "isRecord v = (case v of Some (JObj _) \<Rightarrow> True | _ \<Rightarrow> False)"

text \<open>Reading a key of a value that \<open>isRecord\<close> admitted; any other value has no keys.\<close>

definition fields_of :: "json option \<Rightarrow> jobj" where
  "fields_of v = (case v of Some (JObj m) \<Rightarrow> m | _ \<Rightarrow> [])"

definition prop_of :: "json option \<Rightarrow> string \<Rightarrow> json option" where
  "prop_of v k = jm_get (fields_of v) k"

definition is_bool :: "json option \<Rightarrow> bool" where
  "is_bool v = (case v of Some (JBool _) \<Rightarrow> True | _ \<Rightarrow> False)"

definition is_num :: "json option \<Rightarrow> bool" where
  "is_num v = (case v of Some (JNum _) \<Rightarrow> True | _ \<Rightarrow> False)"

definition is_str :: "json option \<Rightarrow> bool" where
  "is_str v = (case v of Some (JStr _) \<Rightarrow> True | _ \<Rightarrow> False)"

lemma isRecordE:
  assumes "isRecord v" obtains m where "v = Some (JObj m)"
  using assms by (auto simp: isRecord_def split: option.splits json.splits)

lemma is_boolE: assumes "is_bool v" obtains b where "v = Some (JBool b)"
  using assms by (auto simp: is_bool_def split: option.splits json.splits)

lemma is_numE: assumes "is_num v" obtains n where "v = Some (JNum n)"
  using assms by (auto simp: is_num_def split: option.splits json.splits)

lemma is_strE: assumes "is_str v" obtains s where "v = Some (JStr s)"
  using assms by (auto simp: is_str_def split: option.splits json.splits)

lemma json_guard_simps [simp]:
  "isRecord (Some (JObj m))" "\<not> isRecord None" "\<not> isRecord (Some JNull)"
  "\<not> isRecord (Some (JBool b))" "\<not> isRecord (Some (JNum n))" "\<not> isRecord (Some (JStr s))"
  "\<not> isRecord (Some (JArr a))"
  "is_bool (Some (JBool b))" "\<not> is_bool None" "is_num (Some (JNum n))" "\<not> is_num None"
  "is_str (Some (JStr s))" "\<not> is_str None"
  "fields_of (Some (JObj m)) = m" "fields_of None = []"
  "prop_of (Some (JObj m)) k = jm_get m k" "prop_of None k = None"
  by (simp_all add: isRecord_def is_bool_def is_num_def is_str_def fields_of_def prop_of_def)

text \<open>Object spread, \<open>{ ...base, ...patch }\<close>.\<close>

definition spread :: "jobj \<Rightarrow> jobj \<Rightarrow> jobj" where
  "spread base patch = fold (\<lambda>(k, v). jm_set k v) patch base"

lemma jm_get_spread:
  "jm_wf patch \<Longrightarrow>
    jm_get (spread base patch) k = (case jm_get patch k of None \<Rightarrow> jm_get base k | Some v \<Rightarrow> Some v)"
proof (induction patch arbitrary: base)
  case (Cons f patch)
  obtain j v where f: "f = (j, v)" by force
  have wf: "jm_wf patch" and new: "jm_get patch j = None"
    using Cons.prems by (auto simp: f jm_wf_def jm_get_def map_of_eq_None_iff)
  have "jm_get (f # patch) k = (if k = j then Some v else jm_get patch k)"
    by (simp add: f jm_get_def)
  with Cons.IH [OF wf] new show ?case
    by (simp add: f spread_def split: option.splits)
qed (simp add: spread_def)

lemma jm_wf_spread [intro]: "jm_wf base \<Longrightarrow> jm_wf (spread base patch)"
  by (induction patch arbitrary: base) (auto simp: spread_def intro: jm.wf_put)

lemma spread_Nil [simp]: "spread base [] = base"
  by (simp add: spread_def)

section \<open>Equality by shape\<close>

text \<open>
  \<open>isDeepStrictEqual\<close> on parsed JSON: primitives by \<open>Object.is\<close>, arrays element by element,
  objects by their keys whatever the order of them.
\<close>

lemma json_size_field: "(k, v) \<in> set m \<Longrightarrow> size v < size (JObj m)"
  by (induction m) auto

lemma json_size_item: "v \<in> set xs \<Longrightarrow> size v < size (JArr xs)"
  by (induction xs) auto

function deep_eq :: "json \<Rightarrow> json \<Rightarrow> bool" where
  "deep_eq JNull w = (w = JNull)"
| "deep_eq (JBool b) w = (w = JBool b)"
| "deep_eq (JNum n) w = (w = JNum n)"
| "deep_eq (JStr s) w = (w = JStr s)"
| "deep_eq (JArr xs) w = (case w of JArr ys \<Rightarrow> list_all2 deep_eq xs ys | _ \<Rightarrow> False)"
| "deep_eq (JObj m) w = (case w of
      JObj n \<Rightarrow> length m = length n
        \<and> (\<forall>(k, v) \<in> set m. case jm_get n k of None \<Rightarrow> False | Some u \<Rightarrow> deep_eq v u)
    | _ \<Rightarrow> False)"
  by pat_completeness auto
termination
  by (relation "measure (size \<circ> fst)") (auto dest: json_size_field json_size_item)

definition isSameValue :: "json option \<Rightarrow> json option \<Rightarrow> bool" where
  "isSameValue a b = (case (a, b) of
      (None, None) \<Rightarrow> True
    | (Some x, Some y) \<Rightarrow> x = y \<or> deep_eq x y
    | _ \<Rightarrow> False)"

text \<open>Parsed JSON has no duplicate keys, at any depth.\<close>

function json_wf :: "json \<Rightarrow> bool" where
  "json_wf JNull = True"
| "json_wf (JBool _) = True"
| "json_wf (JNum _) = True"
| "json_wf (JStr _) = True"
| "json_wf (JArr xs) = (\<forall>x \<in> set xs. json_wf x)"
| "json_wf (JObj m) = (jm_wf m \<and> (\<forall>(k, v) \<in> set m. json_wf v))"
  by pat_completeness auto
termination
  by (relation "measure size") (auto dest: json_size_field json_size_item)

lemma isSameValue_refl [simp]: "isSameValue a a"
  by (simp add: isSameValue_def split: option.splits)

lemma isSameValue_None [simp]: "isSameValue None b = (b = None)" "isSameValue a None = (a = None)"
  by (auto simp: isSameValue_def split: option.splits)

lemma isSameValue_scalar:
  "isSameValue (Some (JBool b)) w = (w = Some (JBool b))"
  "isSameValue (Some (JNum n)) w = (w = Some (JNum n))"
  "isSameValue (Some (JStr s)) w = (w = Some (JStr s))"
  by (auto simp: isSameValue_def split: option.splits)

end
