(* ===== verification/WireTypes.thy ===== *)
theory WireTypes
  imports JsValue
begin

text \<open>
  The cloud wire records of \<open>src/src/cloud/types.ts\<close>: the guards that narrow an untrusted
  answer, and the copy of one wire record into the plugin's device record. A guard is a Boolean
  function of the parsed value, as in the source; the theorems relate each to the record that the
  code then reads from the value.
\<close>

section \<open>Records\<close>

record apiConnectivity =
  ac_connected :: bool
  ac_timestamp :: jsnum

record apiDevice =
  ad_deviceId :: string
  ad_deviceTypeId :: string
  ad_name :: string
  ad_serialNumber :: string
  ad_connectivity :: apiConnectivity
  ad_data :: jobj

record awsCredentials =
  aws_AccessKeyId :: string
  aws_SecretAccessKey :: string
  aws_SessionToken :: string
  aws_Expiration :: string

record awsCredentialsResponse =
  acr_endpoint :: string
  acr_clientId :: string
  acr_credentials :: awsCredentials

section \<open>Guards\<close>

definition WIRE_DEVICE_STRING_FIELDS :: "string list" where
  "WIRE_DEVICE_STRING_FIELDS = [''deviceId'', ''deviceTypeId'', ''name'']"

definition CREDENTIAL_STRING_FIELDS :: "string list" where
  "CREDENTIAL_STRING_FIELDS = [''AccessKeyId'', ''SecretAccessKey'', ''SessionToken'', ''Expiration'']"

definition CREDENTIALS_RESPONSE_STRING_FIELDS :: "string list" where
  "CREDENTIALS_RESPONSE_STRING_FIELDS = [''endpoint'', ''clientId'']"

definition hasStringFields :: "json option \<Rightarrow> string list \<Rightarrow> bool" where
  "hasStringFields v names = (\<forall>n \<in> set names. is_str (prop_of v n))"

definition isApiConnectivity :: "json option \<Rightarrow> bool" where
  "isApiConnectivity v =
    (isRecord v \<and> is_bool (prop_of v ''connected'') \<and> is_num (prop_of v ''timestamp''))"

definition isAwsCredentials :: "json option \<Rightarrow> bool" where
  "isAwsCredentials v = (isRecord v \<and> hasStringFields v CREDENTIAL_STRING_FIELDS)"

definition isWireDeviceAttributes :: "json option \<Rightarrow> bool" where
  "isWireDeviceAttributes v = (isRecord v \<and> is_str (prop_of v ''serialNumber''))"

definition isWireDevice :: "json option \<Rightarrow> bool" where
  "isWireDevice v =
    (isRecord v \<and>
     hasStringFields v WIRE_DEVICE_STRING_FIELDS \<and>
     isWireDeviceAttributes (prop_of v ''attributes'') \<and>
     isApiConnectivity (prop_of v ''connectivity'') \<and>
     isRecord (prop_of v ''data''))"

definition isWireDeviceListResponse :: "json option \<Rightarrow> bool" where
  "isWireDeviceListResponse v =
    (isRecord v \<and>
     (case prop_of v ''devices'' of
        Some (JArr ds) \<Rightarrow> (\<forall>d \<in> set ds. isWireDevice (Some d))
      | _ \<Rightarrow> False))"

definition isWireDeviceResponse :: "json option \<Rightarrow> bool" where
  "isWireDeviceResponse v = (isRecord v \<and> isWireDevice (prop_of v ''device''))"

definition isAwsCredentialsResponse :: "json option \<Rightarrow> bool" where
  "isAwsCredentialsResponse v =
    (isRecord v \<and> hasStringFields v CREDENTIALS_RESPONSE_STRING_FIELDS \<and>
     isAwsCredentials (prop_of v ''credentials''))"

definition isCommandResult :: "json option \<Rightarrow> bool" where
  "isCommandResult v = (isRecord v \<and> is_bool (prop_of v ''success''))"

section \<open>Reading the narrowed values\<close>

definition str_of :: "json option \<Rightarrow> string option" where
  "str_of v = (case v of Some (JStr s) \<Rightarrow> Some s | _ \<Rightarrow> None)"

definition num_of :: "json option \<Rightarrow> jsnum option" where
  "num_of v = (case v of Some (JNum n) \<Rightarrow> Some n | _ \<Rightarrow> None)"

definition bool_of :: "json option \<Rightarrow> bool option" where
  "bool_of v = (case v of Some (JBool b) \<Rightarrow> Some b | _ \<Rightarrow> None)"

definition obj_of :: "json option \<Rightarrow> jobj option" where
  "obj_of v = (case v of Some (JObj m) \<Rightarrow> Some m | _ \<Rightarrow> None)"

lemma reader_guards:
  "is_str v \<longleftrightarrow> (\<exists>s. str_of v = Some s)"
  "is_num v \<longleftrightarrow> (\<exists>n. num_of v = Some n)"
  "is_bool v \<longleftrightarrow> (\<exists>b. bool_of v = Some b)"
  "isRecord v \<longleftrightarrow> (\<exists>m. obj_of v = Some m)"
  by (auto simp: is_str_def is_num_def is_bool_def isRecord_def str_of_def num_of_def bool_of_def
      obj_of_def split: option.splits json.splits)

definition toApiConnectivity :: "json option \<Rightarrow> apiConnectivity option" where
  "toApiConnectivity v = (case (bool_of (prop_of v ''connected''), num_of (prop_of v ''timestamp'')) of
      (Some c, Some t) \<Rightarrow> Some \<lparr>ac_connected = c, ac_timestamp = t\<rparr>
    | _ \<Rightarrow> None)"

text \<open>
  \<open>toApiDevice\<close> is only called on a value that the guard admitted; on any other value a field
  it reads is missing, and the answer is \<open>None\<close>.
\<close>

definition toApiDevice :: "json option \<Rightarrow> apiDevice option" where
  "toApiDevice v =
    (case (str_of (prop_of v ''deviceId''), str_of (prop_of v ''deviceTypeId''),
           str_of (prop_of v ''name''),
           str_of (prop_of (prop_of v ''attributes'') ''serialNumber''),
           toApiConnectivity (prop_of v ''connectivity''),
           obj_of (prop_of v ''data'')) of
       (Some i, Some t, Some n, Some s, Some c, Some d) \<Rightarrow>
         Some \<lparr>ad_deviceId = i, ad_deviceTypeId = t, ad_name = n, ad_serialNumber = s,
               ad_connectivity = c, ad_data = d\<rparr>
     | _ \<Rightarrow> None)"

lemma prop_of_no_record: "prop_of v k = Some x \<Longrightarrow> isRecord v"
  by (auto simp: prop_of_def fields_of_def isRecord_def jm_get_def split: option.splits json.splits)

lemma reader_record:
  "str_of (prop_of v k) = Some s \<Longrightarrow> isRecord v" "bool_of (prop_of v k) = Some b \<Longrightarrow> isRecord v"
  by (auto simp: str_of_def bool_of_def intro: prop_of_no_record split: option.splits json.splits)

lemma connectivity_guard: "isApiConnectivity v \<longleftrightarrow> (\<exists>c. toApiConnectivity v = Some c)"
  by (auto simp: isApiConnectivity_def toApiConnectivity_def reader_guards(2,3)
      intro: reader_record split: option.splits)

lemma wire_device_guard_iff: "isWireDevice v \<longleftrightarrow> (\<exists>d. toApiDevice v = Some d)"
proof
  assume "isWireDevice v"
  then have "isApiConnectivity (prop_of v ''connectivity'')"
    and s: "is_str (prop_of v ''deviceId'')" "is_str (prop_of v ''deviceTypeId'')"
      "is_str (prop_of v ''name'')" "is_str (prop_of (prop_of v ''attributes'') ''serialNumber'')"
    and "isRecord (prop_of v ''data'')"
    by (auto simp: isWireDevice_def hasStringFields_def WIRE_DEVICE_STRING_FIELDS_def
        isWireDeviceAttributes_def)
  then show "\<exists>d. toApiDevice v = Some d"
    by (auto simp: toApiDevice_def connectivity_guard reader_guards(1,4))
next
  assume "\<exists>d. toApiDevice v = Some d"
  then have "\<exists>c. toApiConnectivity (prop_of v ''connectivity'') = Some c"
    and "is_str (prop_of v ''deviceId'')" "is_str (prop_of v ''deviceTypeId'')"
      "is_str (prop_of v ''name'')" "is_str (prop_of (prop_of v ''attributes'') ''serialNumber'')"
    and "isRecord (prop_of v ''data'')"
    by (auto simp: toApiDevice_def reader_guards(1,4) split: option.splits)
  then show "isWireDevice v"
    by (auto simp: isWireDevice_def hasStringFields_def WIRE_DEVICE_STRING_FIELDS_def
        isWireDeviceAttributes_def connectivity_guard reader_guards(1) intro: reader_record)
qed

section \<open>Route answers\<close>

text \<open>What the device routes hand on: every record of the list, or the one record.\<close>

definition devices_of_list_response :: "json option \<Rightarrow> apiDevice list option" where
  "devices_of_list_response v = (case prop_of v ''devices'' of
      Some (JArr ds) \<Rightarrow> those (map (\<lambda>d. toApiDevice (Some d)) ds)
    | _ \<Rightarrow> None)"

lemma those_all_Some: "(\<forall>x \<in> set xs. \<exists>y. f x = Some y) \<longleftrightarrow> (\<exists>ys. those (map f xs) = Some ys)"
  by (induction xs) (auto split: option.splits)

text \<open>
  The guard of the list route admits an answer exactly when it is an object whose
  \<open>devices\<close> is an array and the copy of every one of its records finds all six fields
  it reads with their types: no field of an admitted answer can be missing, and no readable
  answer is refused.
\<close>

theorem device_list_guard_exact:
  "isWireDeviceListResponse v \<longleftrightarrow> (\<exists>ds. devices_of_list_response v = Some ds)"
  by (auto simp: isWireDeviceListResponse_def devices_of_list_response_def wire_device_guard_iff
      those_all_Some intro: prop_of_no_record split: option.splits json.splits)

end
