(* ===== verification/DeviceModel.thy ===== *)
theory DeviceModel
  imports WireTypes
begin

text \<open>
  The vocabulary of one device: its canonical snapshot (\<open>src/src/device/state.ts\<close>), the trust
  scopes and the reasons to distrust one (\<open>src/src/device/health.ts\<close>), and the contract of a
  device family with the decoded state it returns (\<open>src/src/device/family.ts\<close>). The order of the
  scopes is the order in which the accessory lists them.
\<close>

section \<open>Trust\<close>

datatype MonitoringPath = ShadowAndPoll | PollOnly | Unavailable

datatype TrustScope =
    WaterScope | PumpScope | PowerScope | BatteryScope | FaultScope
  | ConnectivityScope | SelfTestScope | AlarmMuteScope

datatype DistrustReason = Stale | Unreachable | Invalid | ControllerLinkLost

text \<open>One scope the plugin cannot vouch for, why, and when it last could.\<close>

record untrustedScope =
  us_scope :: TrustScope
  us_reason :: DistrustReason
  us_lastTrustedAt :: "millis option"

text \<open>The name a scope has in the source, which is also its key in a decoded state.\<close>

fun scope_name :: "TrustScope \<Rightarrow> string" where
  "scope_name WaterScope = ''water''"
| "scope_name PumpScope = ''pump''"
| "scope_name PowerScope = ''power''"
| "scope_name BatteryScope = ''battery''"
| "scope_name FaultScope = ''fault''"
| "scope_name ConnectivityScope = ''connectivity''"
| "scope_name SelfTestScope = ''self-test''"
| "scope_name AlarmMuteScope = ''alarm-mute''"

lemma scope_name_inject: "scope_name a = scope_name b \<longleftrightarrow> a = b"
  by (cases a; cases b) simp_all

text \<open>Trust scopes are listed, iterated and compared in one fixed order.\<close>

fun scope_rank :: "TrustScope \<Rightarrow> nat" where
  "scope_rank WaterScope = 0"
| "scope_rank PumpScope = 1"
| "scope_rank PowerScope = 2"
| "scope_rank BatteryScope = 3"
| "scope_rank FaultScope = 4"
| "scope_rank ConnectivityScope = 5"
| "scope_rank SelfTestScope = 6"
| "scope_rank AlarmMuteScope = 7"

lemma scope_rank_inject: "scope_rank a = scope_rank b \<Longrightarrow> a = b"
  by (cases a; cases b) simp_all

instantiation TrustScope :: linorder
begin

definition less_eq_TrustScope :: "TrustScope \<Rightarrow> TrustScope \<Rightarrow> bool" where
  "less_eq_TrustScope a b = (scope_rank a \<le> scope_rank b)"

definition less_TrustScope :: "TrustScope \<Rightarrow> TrustScope \<Rightarrow> bool" where
  "less_TrustScope a b = (scope_rank a < scope_rank b)"

instance
  by standard (auto simp: less_eq_TrustScope_def less_TrustScope_def intro: scope_rank_inject)

end

section \<open>Snapshots\<close>

record deviceIdentity =
  di_deviceId :: string
  di_deviceTypeId :: string
  di_name :: string
  di_serialNumber :: string

text \<open>
  The shadow version is kept as the rational it denotes: \<open>toReportedPatch\<close> admits only a finite
  number as a version. \<open>data\<close> and \<open>metadata\<close> stay opaque.
\<close>

record deviceSnapshot =
  ds_identity :: deviceIdentity
  ds_connectivity :: apiConnectivity
  ds_data :: jobj
  ds_metadata :: jobj
  ds_shadowVersion :: "rat option"
  ds_deviceTimestamp :: "jsnum option"
  ds_receivedAt :: millis

section \<open>The family contract\<close>

datatype DeviceCapability = SelfTest | AlarmMute

datatype FieldViolationReason = Missing | WrongType | OutOfDomain

datatype FieldScope = TScope TrustScope | MetadataScope

record fieldViolation =
  fv_field :: string
  fv_reason :: FieldViolationReason
  fv_scope :: FieldScope

datatype FamilyValidation = Valid | Rejected "fieldViolation list"

record familyCommand =
  fc_desiredData :: jobj

record waterState =
  levelCode :: jsnum
  levelPercent :: nat
  flooded :: bool

record pumpState =
  primaryRunning :: bool
  backupRunning :: bool
  backupActivatedAt :: "jsnum option"

record powerState =
  mainsPresent :: bool

record batteryState =
  charging :: bool
  voltageLow :: bool
  healthCode :: jsnum
  protectionHoursCode :: jsnum
  batteryPercent :: nat
  low :: bool

record faultState =
  primaryPumpFault :: bool
  backupPumpFault :: bool
  backupPumpFuseBlown :: bool
  waterSensorFault :: bool
  controllerLinkPresent :: bool

record selfTestState =
  testRunning :: bool
  testedAt :: "jsnum option"

record alarmMuteState =
  muted :: bool

record connectivityState =
  reportedOffline :: bool

record deviceMetadataState =
  mcuFirmwareVersion :: "string option"
  wifiFirmwareVersion :: "string option"
  mcuTargetVersion :: "string option"
  wifiSignalDbm :: "jsnum option"

record scopedDomainState =
  sd_water :: "waterState option"
  sd_pump :: "pumpState option"
  sd_power :: "powerState option"
  sd_battery :: "batteryState option"
  sd_fault :: "faultState option"
  sd_connectivity :: "connectivityState option"
  sd_selfTest :: "selfTestState option"
  sd_alarmMute :: "alarmMuteState option"
  sd_metadata :: "deviceMetadataState option"

text \<open>One family adapter. \<open>decode\<close> is fallible: its guards throw \<open>TypeError\<close>.\<close>

record deviceFamily =
  fam_deviceTypeId :: string
  fam_displayName :: string
  fam_implemented :: bool
  fam_validate :: "deviceSnapshot \<Rightarrow> FamilyValidation"
  fam_decode :: "deviceSnapshot \<Rightarrow> js_error + scopedDomainState"
  fam_capabilities :: "scopedDomainState \<Rightarrow> DeviceCapability list"
  fam_command :: "DeviceCapability \<Rightarrow> bool \<Rightarrow> familyCommand"

text \<open>Whether a decoded state carries the group of one trust scope.\<close>

fun scope_decoded :: "scopedDomainState \<Rightarrow> TrustScope \<Rightarrow> bool" where
  "scope_decoded d WaterScope = (sd_water d \<noteq> None)"
| "scope_decoded d PumpScope = (sd_pump d \<noteq> None)"
| "scope_decoded d PowerScope = (sd_power d \<noteq> None)"
| "scope_decoded d BatteryScope = (sd_battery d \<noteq> None)"
| "scope_decoded d FaultScope = (sd_fault d \<noteq> None)"
| "scope_decoded d ConnectivityScope = (sd_connectivity d \<noteq> None)"
| "scope_decoded d SelfTestScope = (sd_selfTest d \<noteq> None)"
| "scope_decoded d AlarmMuteScope = (sd_alarmMute d \<noteq> None)"

text \<open>The scopes a list of violations names.\<close>

definition violated_scopes :: "FamilyValidation \<Rightarrow> TrustScope set" where
  "violated_scopes v = (case v of
      Valid \<Rightarrow> {}
    | Rejected vs \<Rightarrow> {s. \<exists>x \<in> set vs. fv_scope x = TScope s})"

section \<open>A decoded state as the object it is\<close>

text \<open>
  The rows of the service catalogue receive the decoded state as \<open>unknown\<close> and read it by
  key. A member that is \<open>undefined\<close> reads like one that is not there.
\<close>

definition opt_field :: "string \<Rightarrow> json option \<Rightarrow> jobj" where
  "opt_field k v = (case v of None \<Rightarrow> [] | Some x \<Rightarrow> [(k, x)])"

fun scope_object :: "scopedDomainState \<Rightarrow> TrustScope \<Rightarrow> json option" where
  "scope_object d WaterScope = map_option (\<lambda>w. JObj [(''levelCode'', JNum (levelCode w)),
     (''levelPercent'', JNum (Fin (of_nat (levelPercent w)))), (''flooded'', JBool (flooded w))]) (sd_water d)"
| "scope_object d PumpScope = map_option (\<lambda>p. JObj ([(''primaryRunning'', JBool (primaryRunning p)),
     (''backupRunning'', JBool (backupRunning p))]
     @ opt_field ''backupActivatedAt'' (map_option JNum (backupActivatedAt p)))) (sd_pump d)"
| "scope_object d PowerScope = map_option (\<lambda>p. JObj [(''mainsPresent'', JBool (mainsPresent p))]) (sd_power d)"
| "scope_object d BatteryScope = map_option (\<lambda>b. JObj [(''charging'', JBool (charging b)),
     (''voltageLow'', JBool (voltageLow b)), (''healthCode'', JNum (healthCode b)),
     (''protectionHoursCode'', JNum (protectionHoursCode b)),
     (''levelPercent'', JNum (Fin (of_nat (batteryPercent b)))), (''low'', JBool (low b))]) (sd_battery d)"
| "scope_object d FaultScope = map_option (\<lambda>f. JObj [(''primaryPumpFault'', JBool (primaryPumpFault f)),
     (''backupPumpFault'', JBool (backupPumpFault f)), (''backupPumpFuseBlown'', JBool (backupPumpFuseBlown f)),
     (''waterSensorFault'', JBool (waterSensorFault f)),
     (''controllerLinkPresent'', JBool (controllerLinkPresent f))]) (sd_fault d)"
| "scope_object d ConnectivityScope = map_option (\<lambda>c. JObj [(''reportedOffline'', JBool (reportedOffline c))])
     (sd_connectivity d)"
| "scope_object d SelfTestScope = map_option (\<lambda>t. JObj ([(''running'', JBool (testRunning t))]
     @ opt_field ''testedAt'' (map_option JNum (testedAt t)))) (sd_selfTest d)"
| "scope_object d AlarmMuteScope = map_option (\<lambda>m. JObj [(''muted'', JBool (muted m))]) (sd_alarmMute d)"

definition ALL_SCOPES :: "TrustScope list" where
  "ALL_SCOPES = [WaterScope, PumpScope, PowerScope, BatteryScope, FaultScope, ConnectivityScope,
     SelfTestScope, AlarmMuteScope]"

definition domainObject :: "scopedDomainState \<Rightarrow> json" where
  "domainObject d = JObj (concat (map (\<lambda>sc. opt_field (scope_name sc) (scope_object d sc)) ALL_SCOPES))"

lemma jm_get_opt_fields:
  "jm_get (concat (map (\<lambda>x. opt_field (scope_name x) (f x)) xs)) (scope_name sc) =
    (if sc \<in> set xs then f sc else None)"
proof (induction xs)
  case (Cons x xs)
  then show ?case
    by (cases "f x") (auto simp: opt_field_def jm_get_def scope_name_inject)
qed simp

lemma domainObject_get: "prop_of (Some (domainObject d)) (scope_name sc) = scope_object d sc"
proof -
  have "sc \<in> set ALL_SCOPES" by (cases sc) (simp_all add: ALL_SCOPES_def)
  then show ?thesis by (simp add: domainObject_def jm_get_opt_fields)
qed

section \<open>What the accessory relies on\<close>

text \<open>
  The promise of a family to its consumers: \<open>decode\<close> returns on every snapshot, valid or not, and
  it carries the group of a scope exactly when \<open>validate\<close> charged no violation to that scope.
\<close>

locale device_family =
  fixes fvalidate :: "deviceSnapshot \<Rightarrow> FamilyValidation"
    and fdecode :: "deviceSnapshot \<Rightarrow> js_error + scopedDomainState"
  assumes decode_returns: "\<exists>d. fdecode s = Inr d"
    and decode_scopes:
      "fdecode s = Inr d \<Longrightarrow> scope_decoded d sc \<longleftrightarrow> sc \<notin> violated_scopes (fvalidate s)"
begin

lemma decode_never_throws: "fdecode s \<noteq> Inl e"
  using decode_returns [of s] by auto

lemma valid_decodes_all: "fvalidate s = Valid \<Longrightarrow> fdecode s = Inr d \<Longrightarrow> scope_decoded d sc"
  by (simp add: decode_scopes violated_scopes_def)

lemma undecoded_was_rejected:
  assumes "fdecode s = Inr d" and "\<not> scope_decoded d sc"
  obtains vs v where "fvalidate s = Rejected vs" "v \<in> set vs" "fv_scope v = TScope sc"
  using assms decode_scopes [of s d sc]
  by (auto simp: violated_scopes_def split: FamilyValidation.splits)

end

end
