(* ===== verification/WaterLevel.thy ===== *)
theory WaterLevel
  imports JsValue
begin

text \<open>
  The provisional water-level ladder and the flood threshold of
  \<open>src/src/device/waterLevel.ts\<close>. A \<open>Map\<close> with number keys is searched with
  \<open>SameValueZero\<close>. The texts of the thrown errors stop before the number the source appends.
\<close>

definition num_set_has :: "jsnum list \<Rightarrow> jsnum \<Rightarrow> bool" where
  "num_set_has s n = (\<exists>x \<in> set s. same_value_zero x n)"

fun num_map_get :: "(jsnum \<times> 'v) list \<Rightarrow> jsnum \<Rightarrow> 'v option" where
  "num_map_get [] n = None"
| "num_map_get ((k, v) # m) n = (if same_value_zero k n then Some v else num_map_get m n)"

lemma num_map_get_iff: "(\<exists>v. num_map_get m n = Some v) \<longleftrightarrow> num_set_has (map fst m) n"
  by (induction m) (auto simp: num_set_has_def)

definition PROVISIONAL_WATER_LEVEL_PERCENTAGES :: "(jsnum \<times> nat) list" where
  "PROVISIONAL_WATER_LEVEL_PERCENTAGES =
    [(Fin 0, 0), (Fin 1, 20), (Fin 3, 40), (Fin 7, 60), (Fin 15, 80), (Fin 31, 100)]"

definition PROVISIONAL_FLOOD_WATER_LEVEL_CODE :: jsnum where
  "PROVISIONAL_FLOOD_WATER_LEVEL_CODE = Fin 31"

definition waterLevelPercentage :: "jsnum \<Rightarrow> js_error + nat" where
  "waterLevelPercentage code =
    (case num_map_get PROVISIONAL_WATER_LEVEL_PERCENTAGES code of
       None \<Rightarrow> Inl (TypeError ''waterLevelPercentage() has no level for water_level'')
     | Some percentage \<Rightarrow> Inr percentage)"

definition isPitFlooded :: "jsnum \<Rightarrow> bool" where
  "isPitFlooded code = num_le PROVISIONAL_FLOOD_WATER_LEVEL_CODE code"

text \<open>The codes with a rung, with the percentage and the flood verdict of each.\<close>

lemma waterLevelPercentage_Inr:
  assumes "waterLevelPercentage code = Inr p"
  shows "(code, p) \<in> {(Fin 0, 0), (NegZero, 0), (Fin 1, 20), (Fin 3, 40), (Fin 7, 60), (Fin 15, 80),
    (Fin 31, 100)}"
  using assms
  by (auto simp: waterLevelPercentage_def PROVISIONAL_WATER_LEVEL_PERCENTAGES_def
      same_value_zero_def split: if_splits)

lemma waterLevelPercentage_total:
  "num_set_has (map fst PROVISIONAL_WATER_LEVEL_PERCENTAGES) code \<Longrightarrow>
    \<exists>p. waterLevelPercentage code = Inr p"
  using num_map_get_iff [of PROVISIONAL_WATER_LEVEL_PERCENTAGES code]
  by (auto simp: waterLevelPercentage_def)

text \<open>
  The ladder is monotone and the flood verdict is exactly its top rung: a code publishes a
  percentage only if it is one of the ladder's own, a higher code never publishes a lower
  percentage, and a published code floods the pit if and only if it publishes 100 percent.
\<close>

theorem water_ladder_monotone:
  assumes "waterLevelPercentage a = Inr p" and "waterLevelPercentage b = Inr q"
  shows "p \<le> 100 \<and> (num_le a b \<longleftrightarrow> p \<le> q) \<and> (isPitFlooded a \<longleftrightarrow> p = 100)
    \<and> finite_of a \<in> {Some 0, Some 1, Some 3, Some 7, Some 15, Some 31}"
  using waterLevelPercentage_Inr [OF assms(1)] waterLevelPercentage_Inr [OF assms(2)]
  by (auto simp: isPitFlooded_def PROVISIONAL_FLOOD_WATER_LEVEL_CODE_def)

theorem water_ladder_monotone_witness:
  "num_le (Fin 31) (Fin 15) \<longleftrightarrow> (100::nat) \<le> 80"
proof -
  have "waterLevelPercentage (Fin 31) = Inr 100" "waterLevelPercentage (Fin 15) = Inr 80"
    by (simp_all add: waterLevelPercentage_def PROVISIONAL_WATER_LEVEL_PERCENTAGES_def
        same_value_zero_def)
  from water_ladder_monotone [OF this] show ?thesis by blast
qed

end
