(* ===== verification/Gemini.thy ===== *)
theory Gemini
  imports DeviceModel WaterLevel
begin

text \<open>
  The Gemini adapter of \<open>src/src/device/gemini.ts\<close>: its table of field checks, the verdict
  \<open>validate\<close> on a snapshot, the strict decoders of the scopes and \<open>decode\<close>, which runs
  them only for a scope whose own fields all passed. The decoders throw, as in the source; that no
  throw is reachable from \<open>decode\<close> is proved.
\<close>

section \<open>Value domains\<close>

definition WATER_LEVEL_VALUES :: "jsnum list" where
  "WATER_LEVEL_VALUES = map Fin [0, 1, 3, 7, 15, 31]"

definition BATTERY_HEALTH_VALUES :: "jsnum list" where
  "BATTERY_HEALTH_VALUES = map Fin [1, 2, 4, 8, 16, 32]"

definition PROTECTION_HOURS_PERCENTAGES :: "(jsnum \<times> nat) list" where
  "PROTECTION_HOURS_PERCENTAGES = [(Fin 1, 25), (Fin 2, 50), (Fin 4, 75), (Fin 8, 100)]"

definition HOURS_OF_PROTECTION_VALUES :: "jsnum list" where
  "HOURS_OF_PROTECTION_VALUES = map fst PROTECTION_HOURS_PERCENTAGES"

definition LOW_BATTERY_HEALTH_VALUES :: "jsnum list" where
  "LOW_BATTERY_HEALTH_VALUES = map Fin [1, 2, 32]"

section \<open>Field checks\<close>

type_synonym fieldFault = "string \<times> FieldViolationReason"

type_synonym fieldCheck = "jobj \<Rightarrow> fieldFault option"

definition requiredBoolean :: "string \<Rightarrow> fieldCheck" where
  "requiredBoolean field data =
    (if \<not> jm_has data field then Some (field, Missing)
     else if is_bool (jm_get data field) then None else Some (field, WrongType))"

definition requiredEnum :: "string \<Rightarrow> jsnum list \<Rightarrow> fieldCheck" where
  "requiredEnum field legalValues data =
    (if \<not> jm_has data field then Some (field, Missing)
     else case jm_get data field of
         Some (JNum value) \<Rightarrow>
           if num_set_has legalValues value then None else Some (field, OutOfDomain)
       | _ \<Rightarrow> Some (field, WrongType))"

definition optionalNumber :: "string \<Rightarrow> fieldCheck" where
  "optionalNumber field data =
    (if \<not> jm_has data field then None
     else if is_num (jm_get data field) then None else Some (field, WrongType))"

definition optionalString :: "string \<Rightarrow> fieldCheck" where
  "optionalString field data =
    (if \<not> jm_has data field then None
     else if is_str (jm_get data field) then None else Some (field, WrongType))"

type_synonym telemetryCheck = "FieldScope \<times> fieldCheck"

definition TELEMETRY_CHECKS :: "telemetryCheck list" where
  "TELEMETRY_CHECKS =
    [(TScope WaterScope, requiredEnum ''water_level'' WATER_LEVEL_VALUES),
     (TScope PumpScope, requiredBoolean ''primary_pump_running''),
     (TScope FaultScope, requiredBoolean ''primary_pump_fault''),
     (TScope PumpScope, requiredBoolean ''backup_pump_running''),
     (TScope FaultScope, requiredBoolean ''backup_pump_fault''),
     (TScope FaultScope, requiredBoolean ''backup_pump_fuse_blown''),
     (TScope PumpScope, optionalNumber ''backup_pump_timestamp''),
     (TScope PowerScope, requiredBoolean ''ac_power''),
     (TScope BatteryScope, requiredBoolean ''battery_charging''),
     (TScope BatteryScope, requiredBoolean ''battery_voltage_low''),
     (TScope BatteryScope, requiredEnum ''battery_health'' BATTERY_HEALTH_VALUES),
     (TScope BatteryScope, requiredEnum ''hours_of_protection'' HOURS_OF_PROTECTION_VALUES),
     (TScope FaultScope, requiredBoolean ''water_sensor_fault''),
     (TScope FaultScope, requiredBoolean ''serial_communications''),
     (TScope AlarmMuteScope, requiredBoolean ''alarm_audio_muted''),
     (TScope SelfTestScope, requiredBoolean ''test_running''),
     (TScope SelfTestScope, optionalNumber ''test_timestamp''),
     (TScope ConnectivityScope, requiredBoolean ''offline'')]"

definition METADATA_CHECKS :: "telemetryCheck list" where
  "METADATA_CHECKS =
    [(MetadataScope, optionalNumber ''wifi_signal_dbm''),
     (MetadataScope, optionalString ''mcu_firmware_version''),
     (MetadataScope, optionalString ''wifi_firmware_version''),
     (MetadataScope, optionalString ''mcu_target_version'')]"

fun violationsOf :: "telemetryCheck list \<Rightarrow> jobj \<Rightarrow> fieldViolation list" where
  "violationsOf [] data = []"
| "violationsOf ((scope, check) # checks) data =
    (case check data of
       None \<Rightarrow> violationsOf checks data
     | Some (f, r) \<Rightarrow>
         \<lparr>fv_field = f, fv_reason = r, fv_scope = scope\<rparr> # violationsOf checks data)"

definition validate :: "deviceSnapshot \<Rightarrow> FamilyValidation" where
  "validate snapshot =
    (let violations = violationsOf TELEMETRY_CHECKS (ds_data snapshot)
                      @ violationsOf METADATA_CHECKS (ds_metadata snapshot)
     in if violations = [] then Valid else Rejected violations)"

section \<open>Strict readers\<close>

definition booleanField :: "jobj \<Rightarrow> string \<Rightarrow> js_error + bool" where
  "booleanField data field = (case jm_get data field of
      Some (JBool value) \<Rightarrow> Inr value
    | _ \<Rightarrow> Inl (TypeError (''decode() expected '' @ field
              @ '' to be a boolean; validate() must reject this snapshot first'')))"

definition numberField :: "jobj \<Rightarrow> string \<Rightarrow> js_error + jsnum" where
  "numberField data field = (case jm_get data field of
      Some (JNum value) \<Rightarrow> Inr value
    | _ \<Rightarrow> Inl (TypeError (''decode() expected '' @ field
              @ '' to be a number; validate() must reject this snapshot first'')))"

definition optionalNumberField :: "jobj \<Rightarrow> string \<Rightarrow> js_error + jsnum option" where
  "optionalNumberField data field =
    (if jm_has data field then ebind (numberField data field) (\<lambda>n. Inr (Some n)) else Inr None)"

definition optionalStringField :: "jobj \<Rightarrow> string \<Rightarrow> js_error + string option" where
  "optionalStringField data field =
    (if \<not> jm_has data field then Inr None
     else case jm_get data field of
         Some (JStr value) \<Rightarrow> Inr (Some value)
       | _ \<Rightarrow> Inl (TypeError (''decode() expected '' @ field
              @ '' to be a string; validate() must reject this snapshot first'')))"

definition protectionHoursPercentage :: "jsnum \<Rightarrow> js_error + nat" where
  "protectionHoursPercentage code = (case num_map_get PROTECTION_HOURS_PERCENTAGES code of
      None \<Rightarrow> Inl (TypeError ''decode() has no protection band for hours_of_protection'')
    | Some percentage \<Rightarrow> Inr percentage)"

section \<open>Decoders\<close>

definition decodeWater :: "jobj \<Rightarrow> js_error + waterState" where
  "decodeWater data =
    ebind (numberField data ''water_level'') (\<lambda>code.
    ebind (waterLevelPercentage code) (\<lambda>percent.
    Inr \<lparr>levelCode = code, levelPercent = percent, flooded = isPitFlooded code\<rparr>))"

definition decodePump :: "jobj \<Rightarrow> js_error + pumpState" where
  "decodePump data =
    ebind (booleanField data ''primary_pump_running'') (\<lambda>p.
    ebind (booleanField data ''backup_pump_running'') (\<lambda>b.
    ebind (optionalNumberField data ''backup_pump_timestamp'') (\<lambda>t.
    Inr \<lparr>primaryRunning = p, backupRunning = b, backupActivatedAt = t\<rparr>)))"

definition decodePower :: "jobj \<Rightarrow> js_error + powerState" where
  "decodePower data = ebind (booleanField data ''ac_power'') (\<lambda>m. Inr \<lparr>mainsPresent = m\<rparr>)"

definition decodeBattery :: "jobj \<Rightarrow> js_error + batteryState" where
  "decodeBattery data =
    ebind (numberField data ''battery_health'') (\<lambda>health.
    ebind (numberField data ''hours_of_protection'') (\<lambda>hours.
    ebind (booleanField data ''battery_voltage_low'') (\<lambda>vlow.
    ebind (booleanField data ''battery_charging'') (\<lambda>ch.
    ebind (protectionHoursPercentage hours) (\<lambda>percent.
    Inr \<lparr>charging = ch, voltageLow = vlow, healthCode = health, protectionHoursCode = hours,
         batteryPercent = percent,
         low = (vlow \<or> num_set_has LOW_BATTERY_HEALTH_VALUES health)\<rparr>)))))"

definition decodeFault :: "jobj \<Rightarrow> js_error + faultState" where
  "decodeFault data =
    ebind (booleanField data ''primary_pump_fault'') (\<lambda>p.
    ebind (booleanField data ''backup_pump_fault'') (\<lambda>b.
    ebind (booleanField data ''backup_pump_fuse_blown'') (\<lambda>f.
    ebind (booleanField data ''water_sensor_fault'') (\<lambda>w.
    ebind (booleanField data ''serial_communications'') (\<lambda>s.
    Inr \<lparr>primaryPumpFault = p, backupPumpFault = b, backupPumpFuseBlown = f, waterSensorFault = w,
         controllerLinkPresent = s\<rparr>)))))"

definition decodeSelfTest :: "jobj \<Rightarrow> js_error + selfTestState" where
  "decodeSelfTest data =
    ebind (booleanField data ''test_running'') (\<lambda>r.
    ebind (optionalNumberField data ''test_timestamp'') (\<lambda>t.
    Inr \<lparr>testRunning = r, testedAt = t\<rparr>))"

definition decodeAlarmMute :: "jobj \<Rightarrow> js_error + alarmMuteState" where
  "decodeAlarmMute data = ebind (booleanField data ''alarm_audio_muted'') (\<lambda>m. Inr \<lparr>muted = m\<rparr>)"

definition decodeConnectivity :: "jobj \<Rightarrow> js_error + connectivityState" where
  "decodeConnectivity data = ebind (booleanField data ''offline'') (\<lambda>b. Inr \<lparr>reportedOffline = b\<rparr>)"

definition decodeMetadata :: "jobj \<Rightarrow> js_error + deviceMetadataState" where
  "decodeMetadata metadata =
    ebind (optionalStringField metadata ''mcu_firmware_version'') (\<lambda>m.
    ebind (optionalStringField metadata ''wifi_firmware_version'') (\<lambda>w.
    ebind (optionalStringField metadata ''mcu_target_version'') (\<lambda>t.
    ebind (optionalNumberField metadata ''wifi_signal_dbm'') (\<lambda>s.
    Inr \<lparr>mcuFirmwareVersion = m, wifiFirmwareVersion = w, mcuTargetVersion = t,
         wifiSignalDbm = s\<rparr>))))"

definition gemini_untrustedScopesOf :: "jobj \<Rightarrow> FieldScope list" where
  "gemini_untrustedScopesOf data = map fv_scope (violationsOf TELEMETRY_CHECKS data)"

definition isMetadataTrustworthy :: "jobj \<Rightarrow> bool" where
  "isMetadataTrustworthy metadata = (violationsOf METADATA_CHECKS metadata = [])"

text \<open>\<open>untrusted ? undefined : decoder(data)\<close>.\<close>

definition unless_untrusted :: "bool \<Rightarrow> js_error + 'a \<Rightarrow> js_error + 'a option" where
  "unless_untrusted untrusted x = (if untrusted then Inr None else ebind x (\<lambda>v. Inr (Some v)))"

definition decode :: "deviceSnapshot \<Rightarrow> js_error + scopedDomainState" where
  "decode snapshot =
    (let data = ds_data snapshot; metadata = ds_metadata snapshot;
         untrusted = gemini_untrustedScopesOf data;
         has = (\<lambda>s. TScope s \<in> set untrusted)
     in ebind (unless_untrusted (has WaterScope) (decodeWater data)) (\<lambda>water.
        ebind (unless_untrusted (has PumpScope) (decodePump data)) (\<lambda>pump.
        ebind (unless_untrusted (has PowerScope) (decodePower data)) (\<lambda>power.
        ebind (unless_untrusted (has BatteryScope) (decodeBattery data)) (\<lambda>battery.
        ebind (unless_untrusted (has FaultScope) (decodeFault data)) (\<lambda>fault.
        ebind (unless_untrusted (has ConnectivityScope) (decodeConnectivity data)) (\<lambda>conn.
        ebind (unless_untrusted (has SelfTestScope) (decodeSelfTest data)) (\<lambda>test.
        ebind (unless_untrusted (has AlarmMuteScope) (decodeAlarmMute data)) (\<lambda>mute.
        ebind (unless_untrusted (\<not> isMetadataTrustworthy metadata) (decodeMetadata metadata)) (\<lambda>meta.
        Inr \<lparr>sd_water = water, sd_pump = pump, sd_power = power, sd_battery = battery,
             sd_fault = fault, sd_connectivity = conn, sd_selfTest = test,
             sd_alarmMute = mute, sd_metadata = meta\<rparr>))))))))))"

definition CAPABILITIES :: "DeviceCapability list" where
  "CAPABILITIES = [SelfTest, AlarmMute]"

definition capabilities :: "scopedDomainState \<Rightarrow> DeviceCapability list" where
  "capabilities _ = CAPABILITIES"

definition gemini_command :: "DeviceCapability \<Rightarrow> bool \<Rightarrow> familyCommand" where
  "gemini_command capability requested = (case capability of
      SelfTest \<Rightarrow> \<lparr>fc_desiredData = [(''test_running'', JBool requested)]\<rparr>
    | AlarmMute \<Rightarrow> \<lparr>fc_desiredData = [(''alarm_audio_muted'', JBool requested)]\<rparr>)"

definition geminiFamily :: deviceFamily where
  "geminiFamily =
    \<lparr>fam_deviceTypeId = ''wayneWaterGemini'', fam_displayName = ''Wayne Water Gemini'',
     fam_implemented = True, fam_validate = validate, fam_decode = decode,
     fam_capabilities = capabilities, fam_command = gemini_command\<rparr>"

section \<open>Checks and readers agree\<close>

lemma requiredBoolean_ok:
  "requiredBoolean f data = None \<longleftrightarrow> (\<exists>b. booleanField data f = Inr b)"
  by (auto simp: requiredBoolean_def booleanField_def jm_has_def is_bool_def
      split: option.splits json.splits)

lemma requiredEnum_ok:
  "requiredEnum f vs data = None \<longleftrightarrow> (\<exists>n. numberField data f = Inr n \<and> num_set_has vs n)"
  by (auto simp: requiredEnum_def numberField_def jm_has_def split: option.splits json.splits)

lemma optionalNumber_ok:
  "optionalNumber f data = None \<longleftrightarrow> (\<exists>n. optionalNumberField data f = Inr n)"
  by (auto simp: optionalNumber_def optionalNumberField_def numberField_def jm_has_def is_num_def
      split: option.splits json.splits)

lemma optionalString_ok:
  "optionalString f data = None \<longleftrightarrow> (\<exists>n. optionalStringField data f = Inr n)"
  by (auto simp: optionalString_def optionalStringField_def jm_has_def is_str_def
      split: option.splits json.splits)

lemmas checks_ok = requiredBoolean_ok requiredEnum_ok optionalNumber_ok optionalString_ok

lemma violated_by_check:
  "(\<exists>v \<in> set (violationsOf cs data). fv_scope v = s)
    \<longleftrightarrow> (\<exists>(t, c) \<in> set cs. t = s \<and> c data \<noteq> None)"
proof (induction cs)
  case (Cons x cs)
  then show ?case by (cases x; cases "snd x data") auto
qed simp

lemma violations_empty: "violationsOf cs data = [] \<longleftrightarrow> (\<forall>(t, c) \<in> set cs. c data = None)"
proof (induction cs)
  case (Cons x cs)
  then show ?case by (cases x; cases "snd x data") auto
qed simp

lemma metadata_violation_scopes:
  "v \<in> set (violationsOf METADATA_CHECKS data) \<Longrightarrow> fv_scope v = MetadataScope"
  using violated_by_check [of METADATA_CHECKS data "fv_scope v"]
  by (auto simp: METADATA_CHECKS_def)

lemma validate_scopes:
  "violated_scopes (validate s) = {sc. TScope sc \<in> set (gemini_untrustedScopesOf (ds_data s))}"
proof -
  have "TScope sc \<noteq> fv_scope v" if "v \<in> set (violationsOf METADATA_CHECKS (ds_metadata s))" for sc v
    using metadata_violation_scopes [OF that] by simp
  then show ?thesis
    by (force simp: validate_def violated_scopes_def gemini_untrustedScopesOf_def Let_def image_iff)
qed

lemma trusted_iff_checks:
  "TScope sc \<notin> set (gemini_untrustedScopesOf data)
    \<longleftrightarrow> (\<forall>(t, c) \<in> set TELEMETRY_CHECKS. t = TScope sc \<longrightarrow> c data = None)"
proof -
  have "TScope sc \<in> set (gemini_untrustedScopesOf data)
    \<longleftrightarrow> (\<exists>v \<in> set (violationsOf TELEMETRY_CHECKS data). fv_scope v = TScope sc)"
    unfolding gemini_untrustedScopesOf_def set_map image_iff by (rule bex_cong [OF refl eq_commute])
  then show ?thesis
    using violated_by_check [of TELEMETRY_CHECKS data "TScope sc"]
    by (simp add: split_beta del: not_None_eq)
qed

section \<open>A trusted scope decodes\<close>

lemma decodeWater_ok:
  assumes "TScope WaterScope \<notin> set (gemini_untrustedScopesOf data)" obtains w where "decodeWater data = Inr w"
proof -
  obtain n where "numberField data ''water_level'' = Inr n" and "num_set_has WATER_LEVEL_VALUES n"
    using assms by (auto simp: trusted_iff_checks TELEMETRY_CHECKS_def checks_ok)
  moreover have "map fst PROVISIONAL_WATER_LEVEL_PERCENTAGES = WATER_LEVEL_VALUES"
    by (simp add: PROVISIONAL_WATER_LEVEL_PERCENTAGES_def WATER_LEVEL_VALUES_def)
  ultimately obtain p where "waterLevelPercentage n = Inr p"
    using waterLevelPercentage_total [of n] by auto
  then show ?thesis
    using \<open>numberField data ''water_level'' = Inr n\<close> that by (simp add: decodeWater_def)
qed

lemma decodeBattery_ok:
  assumes "TScope BatteryScope \<notin> set (gemini_untrustedScopesOf data)"
  obtains b where "decodeBattery data = Inr b"
proof -
  obtain h n v c where "numberField data ''hours_of_protection'' = Inr n"
    and n: "num_set_has HOURS_OF_PROTECTION_VALUES n"
    and "numberField data ''battery_health'' = Inr h"
    and "booleanField data ''battery_voltage_low'' = Inr v"
    and "booleanField data ''battery_charging'' = Inr c"
    using assms by (auto simp: trusted_iff_checks TELEMETRY_CHECKS_def checks_ok)
  moreover obtain p where "protectionHoursPercentage n = Inr p"
    using n num_map_get_iff [of PROTECTION_HOURS_PERCENTAGES n]
    by (auto simp: protectionHoursPercentage_def HOURS_OF_PROTECTION_VALUES_def)
  ultimately show ?thesis
    using that by (simp add: decodeBattery_def)
qed

lemma decode_scope_ok:
  "TScope PumpScope \<notin> set (gemini_untrustedScopesOf data) \<Longrightarrow> \<exists>x. decodePump data = Inr x"
  "TScope PowerScope \<notin> set (gemini_untrustedScopesOf data) \<Longrightarrow> \<exists>y. decodePower data = Inr y"
  "TScope FaultScope \<notin> set (gemini_untrustedScopesOf data) \<Longrightarrow> \<exists>z. decodeFault data = Inr z"
  "TScope ConnectivityScope \<notin> set (gemini_untrustedScopesOf data) \<Longrightarrow> \<exists>u. decodeConnectivity data = Inr u"
  "TScope SelfTestScope \<notin> set (gemini_untrustedScopesOf data) \<Longrightarrow> \<exists>v. decodeSelfTest data = Inr v"
  "TScope AlarmMuteScope \<notin> set (gemini_untrustedScopesOf data) \<Longrightarrow> \<exists>w. decodeAlarmMute data = Inr w"
  by (auto simp: trusted_iff_checks TELEMETRY_CHECKS_def checks_ok decodePump_def decodePower_def
      decodeFault_def decodeConnectivity_def decodeSelfTest_def decodeAlarmMute_def)

lemma decodeMetadata_ok: "isMetadataTrustworthy m \<Longrightarrow> \<exists>x. decodeMetadata m = Inr x"
proof -
  assume "isMetadataTrustworthy m"
  then have "\<forall>(t, c) \<in> set METADATA_CHECKS. c m = None"
    by (simp add: isMetadataTrustworthy_def violations_empty)
  then show ?thesis
    by (auto simp: METADATA_CHECKS_def checks_ok decodeMetadata_def)
qed

text \<open>
  What \<open>decode\<close> returns for one scope: nothing when the scope has a violation, and otherwise what
  the scope's own decoder returned.
\<close>

definition decoded_as :: "bool \<Rightarrow> js_error + 'a \<Rightarrow> 'a option \<Rightarrow> bool" where
  "decoded_as untrusted r v = ((v = None \<longleftrightarrow> untrusted) \<and> (\<forall>x. v = Some x \<longrightarrow> r = Inr x))"

lemma unless_untrusted_Inr:
  assumes "\<not> u \<Longrightarrow> \<exists>x. r = Inr x"
  obtains v where "unless_untrusted u r = Inr v" and "decoded_as u r v"
  using assms by (cases u) (auto simp: unless_untrusted_def decoded_as_def)

lemma decode_spec:
  fixes s defines "u \<equiv> \<lambda>sc. TScope sc \<in> set (gemini_untrustedScopesOf (ds_data s))"
  shows "\<exists>d. decode s = Inr d
    \<and> decoded_as (u WaterScope) (decodeWater (ds_data s)) (sd_water d)
    \<and> decoded_as (u PumpScope) (decodePump (ds_data s)) (sd_pump d)
    \<and> decoded_as (u PowerScope) (decodePower (ds_data s)) (sd_power d)
    \<and> decoded_as (u BatteryScope) (decodeBattery (ds_data s)) (sd_battery d)
    \<and> decoded_as (u FaultScope) (decodeFault (ds_data s)) (sd_fault d)
    \<and> decoded_as (u ConnectivityScope) (decodeConnectivity (ds_data s)) (sd_connectivity d)
    \<and> decoded_as (u SelfTestScope) (decodeSelfTest (ds_data s)) (sd_selfTest d)
    \<and> decoded_as (u AlarmMuteScope) (decodeAlarmMute (ds_data s)) (sd_alarmMute d)
    \<and> decoded_as (\<not> isMetadataTrustworthy (ds_metadata s)) (decodeMetadata (ds_metadata s))
        (sd_metadata d)"
proof -
  have w: "\<not> u WaterScope \<Longrightarrow> \<exists>x. decodeWater (ds_data s) = Inr x"
    using decodeWater_ok unfolding u_def by blast
  have b: "\<not> u BatteryScope \<Longrightarrow> \<exists>x. decodeBattery (ds_data s) = Inr x"
    using decodeBattery_ok unfolding u_def by blast
  have m: "\<not> \<not> isMetadataTrustworthy (ds_metadata s)
    \<Longrightarrow> \<exists>x. decodeMetadata (ds_metadata s) = Inr x"
    using decodeMetadata_ok by blast
  have oks: "\<not> u PumpScope \<Longrightarrow> \<exists>x. decodePump (ds_data s) = Inr x"
    "\<not> u PowerScope \<Longrightarrow> \<exists>x. decodePower (ds_data s) = Inr x"
    "\<not> u FaultScope \<Longrightarrow> \<exists>x. decodeFault (ds_data s) = Inr x"
    "\<not> u ConnectivityScope \<Longrightarrow> \<exists>x. decodeConnectivity (ds_data s) = Inr x"
    "\<not> u SelfTestScope \<Longrightarrow> \<exists>x. decodeSelfTest (ds_data s) = Inr x"
    "\<not> u AlarmMuteScope \<Longrightarrow> \<exists>x. decodeAlarmMute (ds_data s) = Inr x"
    using decode_scope_ok unfolding u_def by blast+
  obtain v1 where 1: "unless_untrusted (u WaterScope) (decodeWater (ds_data s)) = Inr v1"
    "decoded_as (u WaterScope) (decodeWater (ds_data s)) v1" using unless_untrusted_Inr [OF w] .
  obtain v2 where 2: "unless_untrusted (u PumpScope) (decodePump (ds_data s)) = Inr v2"
    "decoded_as (u PumpScope) (decodePump (ds_data s)) v2" using unless_untrusted_Inr [OF oks(1)] .
  obtain v3 where 3: "unless_untrusted (u PowerScope) (decodePower (ds_data s)) = Inr v3"
    "decoded_as (u PowerScope) (decodePower (ds_data s)) v3" using unless_untrusted_Inr [OF oks(2)] .
  obtain v4 where 4: "unless_untrusted (u BatteryScope) (decodeBattery (ds_data s)) = Inr v4"
    "decoded_as (u BatteryScope) (decodeBattery (ds_data s)) v4" using unless_untrusted_Inr [OF b] .
  obtain v5 where 5: "unless_untrusted (u FaultScope) (decodeFault (ds_data s)) = Inr v5"
    "decoded_as (u FaultScope) (decodeFault (ds_data s)) v5" using unless_untrusted_Inr [OF oks(3)] .
  obtain v6 where 6: "unless_untrusted (u ConnectivityScope) (decodeConnectivity (ds_data s)) = Inr v6"
    "decoded_as (u ConnectivityScope) (decodeConnectivity (ds_data s)) v6"
    using unless_untrusted_Inr [OF oks(4)] .
  obtain v7 where 7: "unless_untrusted (u SelfTestScope) (decodeSelfTest (ds_data s)) = Inr v7"
    "decoded_as (u SelfTestScope) (decodeSelfTest (ds_data s)) v7"
    using unless_untrusted_Inr [OF oks(5)] .
  obtain v8 where 8: "unless_untrusted (u AlarmMuteScope) (decodeAlarmMute (ds_data s)) = Inr v8"
    "decoded_as (u AlarmMuteScope) (decodeAlarmMute (ds_data s)) v8"
    using unless_untrusted_Inr [OF oks(6)] .
  obtain v9 where 9: "unless_untrusted (\<not> isMetadataTrustworthy (ds_metadata s))
      (decodeMetadata (ds_metadata s)) = Inr v9"
    "decoded_as (\<not> isMetadataTrustworthy (ds_metadata s)) (decodeMetadata (ds_metadata s)) v9"
    using unless_untrusted_Inr [OF m] .
  let ?d = "\<lparr>sd_water = v1, sd_pump = v2, sd_power = v3, sd_battery = v4, sd_fault = v5,
    sd_connectivity = v6, sd_selfTest = v7, sd_alarmMute = v8, sd_metadata = v9\<rparr>"
  have "decode s = Inr ?d"
    using 1(1) 2(1) 3(1) 4(1) 5(1) 6(1) 7(1) 8(1) 9(1) unfolding u_def
    by (simp add: decode_def Let_def)
  then show ?thesis
    using 1(2) 2(2) 3(2) 4(2) 5(2) 6(2) 7(2) 8(2) 9(2) by (intro exI [of _ ?d]) simp
qed

lemma decode_scopes_lemma:
  assumes "decode s = Inr d"
  shows "scope_decoded d sc \<longleftrightarrow> sc \<notin> violated_scopes (validate s)"
  using decode_spec [of s] assms
  by (cases sc) (auto simp: validate_scopes decoded_as_def)

interpretation gemini: device_family validate decode
proof
  fix s show "\<exists>d. decode s = Inr d" using decode_spec [of s] by blast
next
  fix s d sc assume "decode s = Inr d"
  then show "scope_decoded d sc \<longleftrightarrow> sc \<notin> violated_scopes (validate s)"
    by (rule decode_scopes_lemma)
qed

section \<open>One bad field costs one scope\<close>

text \<open>The telemetry fields each scope is judged on, read off the table of checks.\<close>

fun scope_fields :: "TrustScope \<Rightarrow> string list" where
  "scope_fields WaterScope = [''water_level'']"
| "scope_fields PumpScope =
    [''primary_pump_running'', ''backup_pump_running'', ''backup_pump_timestamp'']"
| "scope_fields PowerScope = [''ac_power'']"
| "scope_fields BatteryScope =
    [''battery_charging'', ''battery_voltage_low'', ''battery_health'', ''hours_of_protection'']"
| "scope_fields FaultScope =
    [''primary_pump_fault'', ''backup_pump_fault'', ''backup_pump_fuse_blown'',
     ''water_sensor_fault'', ''serial_communications'']"
| "scope_fields ConnectivityScope = [''offline'']"
| "scope_fields SelfTestScope = [''test_running'', ''test_timestamp'']"
| "scope_fields AlarmMuteScope = [''alarm_audio_muted'']"

fun same_scope :: "TrustScope \<Rightarrow> scopedDomainState \<Rightarrow> scopedDomainState \<Rightarrow> bool" where
  "same_scope WaterScope d e = (sd_water d = sd_water e)"
| "same_scope PumpScope d e = (sd_pump d = sd_pump e)"
| "same_scope PowerScope d e = (sd_power d = sd_power e)"
| "same_scope BatteryScope d e = (sd_battery d = sd_battery e)"
| "same_scope FaultScope d e = (sd_fault d = sd_fault e)"
| "same_scope ConnectivityScope d e = (sd_connectivity d = sd_connectivity e)"
| "same_scope SelfTestScope d e = (sd_selfTest d = sd_selfTest e)"
| "same_scope AlarmMuteScope d e = (sd_alarmMute d = sd_alarmMute e)"

lemma scope_fields_disjoint:
  "f \<in> set (scope_fields a) \<Longrightarrow> f \<in> set (scope_fields b) \<Longrightarrow> a = b"
  by (cases a; cases b; force)

lemma readers_cong:
  assumes "jm_get a f = jm_get b f"
  shows "booleanField a f = booleanField b f" "numberField a f = numberField b f"
    "optionalNumberField a f = optionalNumberField b f"
  using assms
  by (simp_all add: booleanField_def numberField_def optionalNumberField_def jm_has_def)

lemma untrusted_cong:
  assumes "\<forall>f \<in> set (scope_fields sc). jm_get a f = jm_get b f"
  shows "TScope sc \<in> set (gemini_untrustedScopesOf a) \<longleftrightarrow> TScope sc \<in> set (gemini_untrustedScopesOf b)"
proof -
  have "(\<forall>(t, c) \<in> set TELEMETRY_CHECKS. t = TScope sc \<longrightarrow> c a = None)
    \<longleftrightarrow> (\<forall>(t, c) \<in> set TELEMETRY_CHECKS. t = TScope sc \<longrightarrow> c b = None)"
    using assms by (cases sc)
      (simp_all add: TELEMETRY_CHECKS_def requiredBoolean_def requiredEnum_def optionalNumber_def
        jm_has_def)
  then show ?thesis using trusted_iff_checks by blast
qed

lemma decoders_cong:
  assumes "\<forall>f \<in> set (scope_fields sc). jm_get a f = jm_get b f"
  shows "case sc of
      WaterScope \<Rightarrow> decodeWater a = decodeWater b
    | PumpScope \<Rightarrow> decodePump a = decodePump b
    | PowerScope \<Rightarrow> decodePower a = decodePower b
    | BatteryScope \<Rightarrow> decodeBattery a = decodeBattery b
    | FaultScope \<Rightarrow> decodeFault a = decodeFault b
    | ConnectivityScope \<Rightarrow> decodeConnectivity a = decodeConnectivity b
    | SelfTestScope \<Rightarrow> decodeSelfTest a = decodeSelfTest b
    | AlarmMuteScope \<Rightarrow> decodeAlarmMute a = decodeAlarmMute b"
  using assms
  by (cases sc)
    (simp_all add: decodeWater_def decodePump_def decodePower_def decodeBattery_def decodeFault_def
      decodeConnectivity_def decodeSelfTest_def decodeAlarmMute_def readers_cong [of a _ b])

lemma decoded_as_unique: "decoded_as u r v \<Longrightarrow> decoded_as u r w \<Longrightarrow> v = w"
  by (cases v; cases w) (auto simp: decoded_as_def)

lemma scope_reads_own_fields:
  assumes "decode s = Inr d" and "decode s' = Inr d'"
    and agree: "\<forall>f \<in> set (scope_fields sc). jm_get (ds_data s) f = jm_get (ds_data s') f"
  shows "same_scope sc d d'"
  using decode_spec [of s] decode_spec [of s'] assms(1,2) decoders_cong [OF agree]
    untrusted_cong [OF agree]
  by (cases sc) (auto dest: decoded_as_unique)

lemma owner_of_field: "\<exists>owner. \<forall>sc. sc \<noteq> owner \<longrightarrow> f \<notin> set (scope_fields sc)"
  using scope_fields_disjoint [of f] by metis

text \<open>
  Decoding never throws, whatever the vendor sent, and it is exactly as partial as the verdict:
  a scope is decoded if and only if \<open>validate\<close> charged no violation to it, the metadata if and only
  if their own four fields pass.
\<close>

theorem gemini_decode_total:
  "\<exists>d. decode s = Inr d
    \<and> (\<forall>sc. scope_decoded d sc \<longleftrightarrow> sc \<notin> violated_scopes (validate s))
    \<and> (sd_metadata d = None \<longleftrightarrow> violationsOf METADATA_CHECKS (ds_metadata s) \<noteq> [])"
proof -
  obtain d where d: "decode s = Inr d"
      "decoded_as (\<not> isMetadataTrustworthy (ds_metadata s)) (decodeMetadata (ds_metadata s))
        (sd_metadata d)"
    using decode_spec [of s] by blast
  then show ?thesis
    by (intro exI [of _ d])
      (auto simp: gemini.decode_scopes decoded_as_def isMetadataTrustworthy_def)
qed

text \<open>
  One bad field costs one scope: writing any value to any one telemetry field leaves the decoded
  groups of all scopes but one, and the metadata, exactly as they were.
\<close>

theorem gemini_one_field_one_scope:
  assumes "decode s = Inr d" and "decode (s\<lparr>ds_data := jm_set f v (ds_data s)\<rparr>) = Inr d'"
  shows "(\<exists>owner. \<forall>sc. sc \<noteq> owner \<longrightarrow> same_scope sc d d') \<and> sd_metadata d = sd_metadata d'"
proof
  obtain owner where "\<forall>sc. sc \<noteq> owner \<longrightarrow> f \<notin> set (scope_fields sc)"
    using owner_of_field by blast
  then show "\<exists>owner. \<forall>sc. sc \<noteq> owner \<longrightarrow> same_scope sc d d'"
    using scope_reads_own_fields [OF assms] by (intro exI [of _ owner]) fastforce
  show "sd_metadata d = sd_metadata d'"
    using decode_spec [of s] decode_spec [of "s\<lparr>ds_data := jm_set f v (ds_data s)\<rparr>"] assms
    by (auto dest: decoded_as_unique)
qed

text \<open>A complete valid report: water at the lowest rung, both pumps at rest.\<close>

definition sample_data :: jobj where
  "sample_data =
    [(''water_level'', JNum (Fin 1)), (''primary_pump_running'', JBool False),
     (''primary_pump_fault'', JBool False), (''backup_pump_running'', JBool False),
     (''backup_pump_fault'', JBool False), (''backup_pump_fuse_blown'', JBool False),
     (''ac_power'', JBool True), (''battery_charging'', JBool True),
     (''battery_voltage_low'', JBool False), (''battery_health'', JNum (Fin 8)),
     (''hours_of_protection'', JNum (Fin 4)), (''water_sensor_fault'', JBool False),
     (''serial_communications'', JBool True), (''alarm_audio_muted'', JBool False),
     (''test_running'', JBool False), (''offline'', JBool False)]"

definition sample_snapshot :: deviceSnapshot where
  "sample_snapshot =
    \<lparr>ds_identity = \<lparr>di_deviceId = ''d1'', di_deviceTypeId = ''wayneWaterGemini'', di_name = ''Pump'',
        di_serialNumber = ''S1''\<rparr>,
     ds_connectivity = \<lparr>ac_connected = True, ac_timestamp = Fin 5\<rparr>, ds_data = sample_data,
     ds_metadata = [], ds_shadowVersion = None, ds_deviceTimestamp = None, ds_receivedAt = 7\<rparr>"

definition sample_state :: scopedDomainState where
  "sample_state =
    \<lparr>sd_water = Some \<lparr>levelCode = Fin 1, levelPercent = 20, flooded = False\<rparr>,
     sd_pump = Some \<lparr>primaryRunning = False, backupRunning = False, backupActivatedAt = None\<rparr>,
     sd_power = Some \<lparr>mainsPresent = True\<rparr>,
     sd_battery = Some \<lparr>charging = True, voltageLow = False, healthCode = Fin 8,
        protectionHoursCode = Fin 4, batteryPercent = 75, low = False\<rparr>,
     sd_fault = Some \<lparr>primaryPumpFault = False, backupPumpFault = False,
        backupPumpFuseBlown = False, waterSensorFault = False, controllerLinkPresent = True\<rparr>,
     sd_connectivity = Some \<lparr>reportedOffline = False\<rparr>,
     sd_selfTest = Some \<lparr>testRunning = False, testedAt = None\<rparr>,
     sd_alarmMute = Some \<lparr>muted = False\<rparr>,
     sd_metadata = Some \<lparr>mcuFirmwareVersion = None, wifiFirmwareVersion = None,
        mcuTargetVersion = None, wifiSignalDbm = None\<rparr>\<rparr>"

lemma decode_sample: "decode sample_snapshot = Inr sample_state"
  by code_simp

lemma decode_sample_bad_water:
  "decode (sample_snapshot\<lparr>ds_data := jm_set ''water_level'' (JStr ''full'') (ds_data sample_snapshot)\<rparr>)
    = Inr (sample_state\<lparr>sd_water := None\<rparr>)"
  by code_simp

theorem gemini_one_field_one_scope_witness:
  "(\<exists>owner. \<forall>sc. sc \<noteq> owner \<longrightarrow> same_scope sc sample_state (sample_state\<lparr>sd_water := None\<rparr>))
    \<and> sd_metadata sample_state = sd_metadata (sample_state\<lparr>sd_water := None\<rparr>)"
  using gemini_one_field_one_scope [OF decode_sample decode_sample_bad_water] .

section \<open>Decoded values are the reported ones\<close>

lemma reader_Inr:
  "booleanField data f = Inr b \<longleftrightarrow> jm_get data f = Some (JBool b)"
  "numberField data f = Inr n \<longleftrightarrow> jm_get data f = Some (JNum n)"
  by (auto simp: booleanField_def numberField_def split: option.splits json.splits)

lemma decodeWater_Inr:
  "decodeWater data = Inr w \<Longrightarrow> jm_get data ''water_level'' = Some (JNum (levelCode w))
    \<and> waterLevelPercentage (levelCode w) = Inr (levelPercent w)
    \<and> flooded w = isPitFlooded (levelCode w)"
  by (auto simp: decodeWater_def reader_Inr elim!: ebind_eq_InrE)

lemma decodePump_Inr:
  "decodePump data = Inr p \<Longrightarrow> jm_get data ''primary_pump_running'' = Some (JBool (primaryRunning p))
    \<and> jm_get data ''backup_pump_running'' = Some (JBool (backupRunning p))
    \<and> jm_get data ''backup_pump_timestamp'' = map_option JNum (backupActivatedAt p)"
  by (auto simp: decodePump_def reader_Inr optionalNumberField_def jm_has_def
      elim!: ebind_eq_InrE split: if_splits)

lemma decodeBattery_Inr:
  "decodeBattery data = Inr b \<Longrightarrow> jm_get data ''battery_health'' = Some (JNum (healthCode b))
    \<and> jm_get data ''hours_of_protection'' = Some (JNum (protectionHoursCode b))
    \<and> jm_get data ''battery_charging'' = Some (JBool (charging b))
    \<and> jm_get data ''battery_voltage_low'' = Some (JBool (voltageLow b))
    \<and> (protectionHoursCode b, batteryPercent b) \<in> {(Fin 1, 25), (Fin 2, 50), (Fin 4, 75), (Fin 8, 100)}
    \<and> low b = (voltageLow b \<or> healthCode b \<in> {Fin 1, Fin 2, Fin 32})"
  by (auto simp: decodeBattery_def reader_Inr LOW_BATTERY_HEALTH_VALUES_def num_set_has_def
      same_value_zero_def protectionHoursPercentage_def PROTECTION_HOURS_PERCENTAGES_def
      elim!: ebind_eq_InrE split: option.splits if_splits)

lemma decodeFault_Inr:
  "decodeFault data = Inr f \<Longrightarrow> jm_get data ''primary_pump_fault'' = Some (JBool (primaryPumpFault f))
    \<and> jm_get data ''backup_pump_fault'' = Some (JBool (backupPumpFault f))
    \<and> jm_get data ''backup_pump_fuse_blown'' = Some (JBool (backupPumpFuseBlown f))
    \<and> jm_get data ''water_sensor_fault'' = Some (JBool (waterSensorFault f))
    \<and> jm_get data ''serial_communications'' = Some (JBool (controllerLinkPresent f))"
  by (auto simp: decodeFault_def reader_Inr elim!: ebind_eq_InrE)

lemma decodePower_Inr:
  "decodePower data = Inr p \<Longrightarrow> jm_get data ''ac_power'' = Some (JBool (mainsPresent p))"
  by (auto simp: decodePower_def reader_Inr elim!: ebind_eq_InrE)

lemma decodeConnectivity_Inr:
  "decodeConnectivity data = Inr c \<Longrightarrow> jm_get data ''offline'' = Some (JBool (reportedOffline c))"
  by (auto simp: decodeConnectivity_def reader_Inr elim!: ebind_eq_InrE)

lemma decodeSelfTest_Inr:
  "decodeSelfTest data = Inr v \<Longrightarrow> jm_get data ''test_running'' = Some (JBool (testRunning v))
    \<and> jm_get data ''test_timestamp'' = map_option JNum (testedAt v)"
  by (auto simp: decodeSelfTest_def reader_Inr optionalNumberField_def jm_has_def
      elim!: ebind_eq_InrE split: if_splits)

lemma decodeAlarmMute_Inr:
  "decodeAlarmMute data = Inr m \<Longrightarrow> jm_get data ''alarm_audio_muted'' = Some (JBool (muted m))"
  by (auto simp: decodeAlarmMute_def reader_Inr elim!: ebind_eq_InrE)

lemma optionalStringField_Inr:
  "optionalStringField data f = Inr x \<longleftrightarrow> jm_get data f = map_option JStr x"
  by (cases x) (auto simp: optionalStringField_def jm_has_def split: option.splits json.splits)

lemma optionalNumberField_Inr:
  "optionalNumberField data f = Inr x \<Longrightarrow> jm_get data f = map_option JNum x"
  by (auto simp: optionalNumberField_def jm_has_def reader_Inr elim!: ebind_eq_InrE split: if_splits)

lemma decodeMetadata_Inr:
  "decodeMetadata data = Inr m \<Longrightarrow>
    jm_get data ''mcu_firmware_version'' = map_option JStr (mcuFirmwareVersion m)
    \<and> jm_get data ''wifi_firmware_version'' = map_option JStr (wifiFirmwareVersion m)
    \<and> jm_get data ''mcu_target_version'' = map_option JStr (mcuTargetVersion m)
    \<and> jm_get data ''wifi_signal_dbm'' = map_option JNum (wifiSignalDbm m)"
  by (auto simp: decodeMetadata_def optionalStringField_Inr dest!: optionalNumberField_Inr
      elim!: ebind_eq_InrE)

lemma isPitFlooded_on_ladder:
  "waterLevelPercentage code = Inr p \<Longrightarrow> isPitFlooded code \<longleftrightarrow> code = Fin 31"
  by (drule waterLevelPercentage_Inr)
    (auto simp: isPitFlooded_def PROVISIONAL_FLOOD_WATER_LEVEL_CODE_def)

lemma decodeWater_reported:
  assumes "decodeWater data = Inr w"
  shows "jm_get data ''water_level'' = Some (JNum (levelCode w))
    \<and> (levelCode w, levelPercent w) \<in> {(Fin 0, 0), (NegZero, 0), (Fin 1, 20),
      (Fin 3, 40), (Fin 7, 60), (Fin 15, 80), (Fin 31, 100)}
    \<and> (flooded w \<longleftrightarrow> levelCode w = Fin 31)"
  using decodeWater_Inr [OF assms] waterLevelPercentage_Inr [of "levelCode w" "levelPercent w"]
    isPitFlooded_on_ladder [of "levelCode w"] by blast

lemma decode_scope_values:
  assumes "decode s = Inr d"
  shows "sd_water d = Some w \<Longrightarrow> decodeWater (ds_data s) = Inr w"
    and "sd_pump d = Some p \<Longrightarrow> decodePump (ds_data s) = Inr p"
    and "sd_power d = Some m \<Longrightarrow> decodePower (ds_data s) = Inr m"
    and "sd_battery d = Some b \<Longrightarrow> decodeBattery (ds_data s) = Inr b"
    and "sd_fault d = Some f \<Longrightarrow> decodeFault (ds_data s) = Inr f"
    and "sd_connectivity d = Some c \<Longrightarrow> decodeConnectivity (ds_data s) = Inr c"
    and "sd_selfTest d = Some v \<Longrightarrow> decodeSelfTest (ds_data s) = Inr v"
    and "sd_alarmMute d = Some a \<Longrightarrow> decodeAlarmMute (ds_data s) = Inr a"
    and "sd_metadata d = Some i \<Longrightarrow> decodeMetadata (ds_metadata s) = Inr i"
  using decode_spec [of s] assms unfolding decoded_as_def by simp_all

lemmas decoded_values =
  decode_scope_values(1) [THEN decodeWater_reported] decode_scope_values(2) [THEN decodePump_Inr]
  decode_scope_values(3) [THEN decodePower_Inr] decode_scope_values(4) [THEN decodeBattery_Inr]
  decode_scope_values(5) [THEN decodeFault_Inr] decode_scope_values(6) [THEN decodeConnectivity_Inr]
  decode_scope_values(7) [THEN decodeSelfTest_Inr] decode_scope_values(8) [THEN decodeAlarmMute_Inr]
  decode_scope_values(9) [THEN decodeMetadata_Inr]

text \<open>
  C17. Every decoded value of every group is the one the device reported under that value's own
  field, unconverted: the water code, both running flags and the backup timestamp, mains power, the
  battery's health and protection codes and its charging and low-voltage flags, the five faults, the
  offline, self-test and mute flags and the four metadata fields. What is derived is derived only
  from them: the water percentage is the rung of the code, the pit is flooded exactly for code 31,
  the battery percentage is the band of the protection code, and the battery is low exactly when its
  voltage is or its health code is 1, 2 or 32 (Replace, Poor, NotDetected).
\<close>

theorem gemini_values_reported:
  assumes "decode s = Inr d"
  shows "(\<forall>w. sd_water d = Some w \<longrightarrow>
        jm_get (ds_data s) ''water_level'' = Some (JNum (levelCode w))
        \<and> (levelCode w, levelPercent w) \<in> {(Fin 0, 0), (NegZero, 0), (Fin 1, 20), (Fin 3, 40),
            (Fin 7, 60), (Fin 15, 80), (Fin 31, 100)}
        \<and> (flooded w \<longleftrightarrow> levelCode w = Fin 31))
    \<and> (\<forall>p. sd_pump d = Some p \<longrightarrow>
        jm_get (ds_data s) ''primary_pump_running'' = Some (JBool (primaryRunning p))
        \<and> jm_get (ds_data s) ''backup_pump_running'' = Some (JBool (backupRunning p))
        \<and> jm_get (ds_data s) ''backup_pump_timestamp'' = map_option JNum (backupActivatedAt p))
    \<and> (\<forall>p. sd_power d = Some p \<longrightarrow>
        jm_get (ds_data s) ''ac_power'' = Some (JBool (mainsPresent p)))
    \<and> (\<forall>f. sd_fault d = Some f \<longrightarrow>
        jm_get (ds_data s) ''primary_pump_fault'' = Some (JBool (primaryPumpFault f))
        \<and> jm_get (ds_data s) ''backup_pump_fault'' = Some (JBool (backupPumpFault f))
        \<and> jm_get (ds_data s) ''backup_pump_fuse_blown'' = Some (JBool (backupPumpFuseBlown f))
        \<and> jm_get (ds_data s) ''water_sensor_fault'' = Some (JBool (waterSensorFault f))
        \<and> jm_get (ds_data s) ''serial_communications'' = Some (JBool (controllerLinkPresent f)))
    \<and> (\<forall>b. sd_battery d = Some b \<longrightarrow>
        jm_get (ds_data s) ''battery_health'' = Some (JNum (healthCode b))
        \<and> jm_get (ds_data s) ''hours_of_protection'' = Some (JNum (protectionHoursCode b))
        \<and> jm_get (ds_data s) ''battery_charging'' = Some (JBool (charging b))
        \<and> jm_get (ds_data s) ''battery_voltage_low'' = Some (JBool (voltageLow b))
        \<and> (protectionHoursCode b, batteryPercent b)
            \<in> {(Fin 1, 25), (Fin 2, 50), (Fin 4, 75), (Fin 8, 100)}
        \<and> low b = (voltageLow b \<or> healthCode b \<in> {Fin 1, Fin 2, Fin 32}))
    \<and> (\<forall>c. sd_connectivity d = Some c \<longrightarrow>
        jm_get (ds_data s) ''offline'' = Some (JBool (reportedOffline c)))
    \<and> (\<forall>v. sd_selfTest d = Some v \<longrightarrow>
        jm_get (ds_data s) ''test_running'' = Some (JBool (testRunning v))
        \<and> jm_get (ds_data s) ''test_timestamp'' = map_option JNum (testedAt v))
    \<and> (\<forall>a. sd_alarmMute d = Some a \<longrightarrow>
        jm_get (ds_data s) ''alarm_audio_muted'' = Some (JBool (muted a)))
    \<and> (\<forall>i. sd_metadata d = Some i \<longrightarrow>
        jm_get (ds_metadata s) ''mcu_firmware_version'' = map_option JStr (mcuFirmwareVersion i)
        \<and> jm_get (ds_metadata s) ''wifi_firmware_version'' = map_option JStr (wifiFirmwareVersion i)
        \<and> jm_get (ds_metadata s) ''mcu_target_version'' = map_option JStr (mcuTargetVersion i)
        \<and> jm_get (ds_metadata s) ''wifi_signal_dbm'' = map_option JNum (wifiSignalDbm i))"
  by (intro conjI; intro allI impI; rule decoded_values [OF assms]; assumption)

theorem gemini_values_reported_witness:
  "jm_get (ds_data sample_snapshot) ''water_level'' = Some (JNum (Fin 1))
    \<and> jm_get (ds_data sample_snapshot) ''ac_power'' = Some (JBool True)
    \<and> jm_get (ds_data sample_snapshot) ''battery_voltage_low'' = Some (JBool False)
    \<and> jm_get (ds_data sample_snapshot) ''test_timestamp'' = None"
  using gemini_values_reported [OF decode_sample] by (simp add: sample_state_def)

end
