(* ===== verification/Registry.thy ===== *)
theory Registry
  imports Gemini
begin

text \<open>
  The family registry of \<open>src/src/device/registry.ts\<close> with the HALO identity of
  \<open>src/src/device/halo.ts\<close>: the lookup of an adapter by \<open>deviceTypeId\<close>, and the record of
  which type was last explained for each device.
\<close>

definition HALO_DEVICE_TYPE_ID :: string where
  "HALO_DEVICE_TYPE_ID = ''wayneWaterHalo''"

definition HALO_DISPLAY_NAME :: string where
  "HALO_DISPLAY_NAME = ''Wayne Water HALO''"

datatype FamilyOutcome =
    Implemented deviceFamily
  | Unsupported string string
  | Unknown string

record familyRegistry =
  fr_families :: "(string, deviceFamily) jsmap"
  fr_unsupportedFamilies :: "(string, string) jsmap"
  fr_lastLoggedDeviceTypeId :: "(string, string) jsmap"

definition createFamilyRegistry :: familyRegistry where
  "createFamilyRegistry =
    \<lparr>fr_families = [(fam_deviceTypeId geminiFamily, geminiFamily)],
     fr_unsupportedFamilies = [(HALO_DEVICE_TYPE_ID, HALO_DISPLAY_NAME)],
     fr_lastLoggedDeviceTypeId = []\<rparr>"

definition registry_lookup :: "familyRegistry \<Rightarrow> string \<Rightarrow> FamilyOutcome" where
  "registry_lookup r deviceTypeId =
    (case jm_get (fr_families r) deviceTypeId of
       Some family \<Rightarrow> Implemented family
     | None \<Rightarrow> (case jm_get (fr_unsupportedFamilies r) deviceTypeId of
           Some displayName \<Rightarrow> Unsupported deviceTypeId displayName
         | None \<Rightarrow> Unknown deviceTypeId))"

definition shouldLog :: "string \<Rightarrow> string \<Rightarrow> familyRegistry \<Rightarrow> bool \<times> familyRegistry" where
  "shouldLog deviceId deviceTypeId r =
    (if jm_get (fr_lastLoggedDeviceTypeId r) deviceId = Some deviceTypeId then (False, r)
     else (True, r\<lparr>fr_lastLoggedDeviceTypeId :=
                   jm_set deviceId deviceTypeId (fr_lastLoggedDeviceTypeId r)\<rparr>))"

lemma lookup_created:
  "registry_lookup createFamilyRegistry t =
    (if t = ''wayneWaterGemini'' then Implemented geminiFamily
     else if t = ''wayneWaterHalo'' then Unsupported t ''Wayne Water HALO'' else Unknown t)"
  by (simp add: registry_lookup_def createFamilyRegistry_def geminiFamily_def HALO_DEVICE_TYPE_ID_def
      HALO_DISPLAY_NAME_def jm_get_def)

lemma shouldLog_keeps_lookup [simp]:
  "registry_lookup (snd (shouldLog d t r)) u = registry_lookup r u"
  by (simp add: shouldLog_def registry_lookup_def cong: option.case_cong)

text \<open>A run of explanations, answered one by one.\<close>

fun shouldLog_run :: "(string \<times> string) list \<Rightarrow> familyRegistry \<Rightarrow> bool list \<times> familyRegistry" where
  "shouldLog_run [] r = ([], r)"
| "shouldLog_run ((d, t) # qs) r =
    (let (answer, r') = shouldLog d t r; (answers, r'') = shouldLog_run qs r'
     in (answer # answers, r''))"

lemma shouldLog_other [simp]:
  "d' \<noteq> d \<Longrightarrow> jm_get (fr_lastLoggedDeviceTypeId (snd (shouldLog d' t r))) d
    = jm_get (fr_lastLoggedDeviceTypeId r) d"
  by (simp add: shouldLog_def)

lemma shouldLog_self [simp]:
  "jm_get (fr_lastLoggedDeviceTypeId (snd (shouldLog d t r))) d = Some t"
  by (simp add: shouldLog_def)

lemma shouldLog_run_last:
  "jm_get (fr_lastLoggedDeviceTypeId (snd (shouldLog_run qs r))) d =
    (case filter (\<lambda>q. fst q = d) qs of [] \<Rightarrow> jm_get (fr_lastLoggedDeviceTypeId r) d
     | _ \<Rightarrow> Some (snd (last (filter (\<lambda>q. fst q = d) qs))))"
proof (induction qs arbitrary: r)
  case (Cons q qs)
  obtain d' t where q: "q = (d', t)" by force
  show ?case
    using Cons.IH [of "snd (shouldLog d' t r)"]
    by (cases "d' = d") (auto simp: q Let_def split_beta split: list.splits)
qed simp

text \<open>
  An explanation of a device's type is logged exactly when the device's latest explanation, among
  any earlier ones for this and other devices, named a different type or there was none.
\<close>

theorem registry_explains_changes_only:
  "fst (shouldLog d t (snd (shouldLog_run qs createFamilyRegistry)))
    \<longleftrightarrow> (case filter (\<lambda>q. fst q = d) qs of [] \<Rightarrow> True
         | _ \<Rightarrow> snd (last (filter (\<lambda>q. fst q = d) qs)) \<noteq> t)"
  using shouldLog_run_last [of qs createFamilyRegistry d]
  by (auto simp: shouldLog_def createFamilyRegistry_def split: list.splits)

end
