(* ===== verification/DeviceStore.thy ===== *)
theory DeviceStore
  imports DeviceModel
begin

text \<open>
  The canonical device store of \<open>src/src/device/state.ts\<close>: one immutable snapshot per device,
  written by REST discoveries and by reported shadow patches, the ownership watermark that decides
  which of the two may write telemetry, the silence fences, and the listeners.

  Freezing has no counterpart: a value of HOL is immutable. A listener is named by a number and a
  notification is an output of the operation; a listener that changes the store while it is being
  notified is outside the model. The set of listeners of a device is an object that \<open>subscribe\<close>
  shares with the unsubscribe function it returns, so the sets live in a heap of their own.
\<close>

section \<open>State\<close>

record reportedPatch =
  rp_data :: "jobj option"
  rp_state :: "jobj option"
  rp_version :: "rat option"

type_synonym listener = nat

type_synonym setRef = nat

text \<open>A silence fence holds a version, or none when it was set while no version was held.\<close>

type_synonym silenceFence = "rat option"

record deviceStore =
  st_snapshots :: "(string, deviceSnapshot) jsmap"
  st_listeners :: "(string, setRef) jsmap"
  st_sets :: "(setRef, listener list) jsmap"
  st_nextRef :: setRef
  st_silenceFences :: "(string, silenceFence) jsmap"

datatype storeEvent =
    Notified listener deviceSnapshot "deviceSnapshot option" "string list"
  | StoreLog log_line

datatype releaseReason = Silence | Disconnect

definition createDeviceStateStore :: deviceStore where
  "createDeviceStateStore =
    \<lparr>st_snapshots = [], st_listeners = [], st_sets = [], st_nextRef = 0, st_silenceFences = []\<rparr>"

section \<open>Building the next snapshot\<close>

definition mergeRecord :: "jobj \<Rightarrow> jobj option \<Rightarrow> jobj" where
  "mergeRecord base patch = (case patch of None \<Rightarrow> base | Some p \<Rightarrow> spread base p)"

definition isStalePatch :: "rat option \<Rightarrow> rat option \<Rightarrow> bool" where
  "isStalePatch applied incoming =
    (case (applied, incoming) of (Some a, Some i) \<Rightarrow> i \<le> a | _ \<Rightarrow> False)"

text \<open>\<open>previous?.shadowVersion\<close>.\<close>

definition watermark :: "deviceSnapshot option \<Rightarrow> rat option" where
  "watermark previous = (case previous of None \<Rightarrow> None | Some p \<Rightarrow> ds_shadowVersion p)"

definition pollTelemetry :: "apiDevice \<Rightarrow> deviceSnapshot option \<Rightarrow> jobj" where
  "pollTelemetry device previous =
    (case previous of
       None \<Rightarrow> spread [] (ad_data device)
     | Some p \<Rightarrow> if ds_shadowVersion p = None then spread [] (ad_data device) else ds_data p)"

definition toSnapshot :: "apiDevice \<Rightarrow> deviceSnapshot option \<Rightarrow> millis \<Rightarrow> deviceSnapshot" where
  "toSnapshot device previous receivedAt =
    \<lparr>ds_identity = \<lparr>di_deviceId = ad_deviceId device, di_deviceTypeId = ad_deviceTypeId device,
                    di_name = ad_name device, di_serialNumber = ad_serialNumber device\<rparr>,
     ds_connectivity = ad_connectivity device,
     ds_data = pollTelemetry device previous,
     ds_metadata = (case previous of None \<Rightarrow> [] | Some p \<Rightarrow> ds_metadata p),
     ds_shadowVersion = watermark previous,
     ds_deviceTimestamp = Some (ac_timestamp (ad_connectivity device)),
     ds_receivedAt = receivedAt\<rparr>"

definition hasTelemetryReading :: "reportedPatch \<Rightarrow> bool" where
  "hasTelemetryReading patch = (case rp_data patch of None \<Rightarrow> False | Some d \<Rightarrow> jm_keys d \<noteq> [])"

definition carriesObservation :: "reportedPatch \<Rightarrow> bool" where
  "carriesObservation patch = (hasTelemetryReading patch \<or> rp_state patch \<noteq> None)"

definition isFencedOut :: "silenceFence option \<Rightarrow> reportedPatch \<Rightarrow> bool" where
  "isFencedOut fence patch = (case fence of
      None \<Rightarrow> False
    | Some fenceVersion \<Rightarrow> (case rp_version patch of
          None \<Rightarrow> hasTelemetryReading patch
        | Some v \<Rightarrow> (case fenceVersion of None \<Rightarrow> False | Some f \<Rightarrow> v \<le> f)))"

definition nextShadowVersion :: "deviceSnapshot \<Rightarrow> reportedPatch \<Rightarrow> rat option" where
  "nextShadowVersion previous patch =
    (if \<not> hasTelemetryReading patch \<and> ds_shadowVersion previous = None then None
     else case rp_version patch of Some v \<Rightarrow> Some v | None \<Rightarrow> ds_shadowVersion previous)"

definition nextSnapshot :: "deviceSnapshot \<Rightarrow> reportedPatch \<Rightarrow> millis \<Rightarrow> deviceSnapshot" where
  "nextSnapshot previous patch receivedAt =
    \<lparr>ds_identity = ds_identity previous,
     ds_connectivity = ds_connectivity previous,
     ds_data = mergeRecord (ds_data previous) (rp_data patch),
     ds_metadata = mergeRecord (ds_metadata previous) (rp_state patch),
     ds_shadowVersion = nextShadowVersion previous patch,
     ds_deviceTimestamp = ds_deviceTimestamp previous,
     ds_receivedAt = (if carriesObservation patch then receivedAt else ds_receivedAt previous)\<rparr>"

section \<open>Notification\<close>

text \<open>\<open>leq\<close> is the order of \<open>localeCompare\<close>, which the run-time environment supplies.\<close>

definition changedKeys :: "(string \<Rightarrow> string \<Rightarrow> bool) \<Rightarrow> jobj \<Rightarrow> jobj \<Rightarrow> string list" where
  "changedKeys leq previous next =
    (let keys = jm_keys previous @ filter (\<lambda>k. k \<notin> set (jm_keys previous)) (jm_keys next)
     in sort_by leq (filter (\<lambda>k. \<not> isSameValue (jm_get previous k) (jm_get next k)) keys))"

text \<open>\<open>raises l\<close> tells whether listener \<open>l\<close> throws.\<close>

record storeEnv =
  env_leq :: "string \<Rightarrow> string \<Rightarrow> bool"
  env_raises :: "listener \<Rightarrow> bool"

definition store_notify ::
  "storeEnv \<Rightarrow> listener list \<Rightarrow> deviceSnapshot \<Rightarrow> deviceSnapshot option \<Rightarrow> bool \<Rightarrow> storeEvent list"
where
  "store_notify env ls next previous telemetryObserved =
    (let changed = changedKeys (env_leq env)
                     (case previous of None \<Rightarrow> [] | Some p \<Rightarrow> ds_data p) (ds_data next)
     in if changed = [] \<and> \<not> telemetryObserved then []
        else concat (map (\<lambda>l. Notified l next previous changed
               # (if env_raises env l then [StoreLog (LDebug ''A device snapshot listener failed.'')]
                  else [])) ls))"

definition listeners_of :: "deviceStore \<Rightarrow> string \<Rightarrow> listener list" where
  "listeners_of st deviceId = (case jm_get (st_listeners st) deviceId of
      None \<Rightarrow> []
    | Some r \<Rightarrow> (case jm_get (st_sets st) r of None \<Rightarrow> [] | Some ls \<Rightarrow> ls))"

section \<open>Operations\<close>

definition st_snapshot :: "deviceStore \<Rightarrow> string \<Rightarrow> deviceSnapshot option" where
  "st_snapshot st deviceId = jm_get (st_snapshots st) deviceId"

definition st_deviceIds :: "deviceStore \<Rightarrow> string list" where
  "st_deviceIds st = jm_keys (st_snapshots st)"

definition applyDiscovery ::
  "storeEnv \<Rightarrow> millis \<Rightarrow> apiDevice \<Rightarrow> deviceStore \<Rightarrow> deviceSnapshot \<times> storeEvent list \<times> deviceStore"
where
  "applyDiscovery env now device st =
    (let previous = st_snapshot st (ad_deviceId device);
         snapshot = toSnapshot device previous now
     in (snapshot,
         store_notify env (listeners_of st (ad_deviceId device)) snapshot previous False,
         st\<lparr>st_snapshots := jm_set (ad_deviceId device) snapshot (st_snapshots st)\<rparr>))"

definition applyReportedPatch ::
  "storeEnv \<Rightarrow> millis \<Rightarrow> string \<Rightarrow> reportedPatch \<Rightarrow> deviceStore
    \<Rightarrow> deviceSnapshot option \<times> storeEvent list \<times> deviceStore"
where
  "applyReportedPatch env now deviceId patch st =
    (case st_snapshot st deviceId of
       None \<Rightarrow> (None, [], st)
     | Some previous \<Rightarrow>
         if isFencedOut (jm_get (st_silenceFences st) deviceId) patch
            \<or> isStalePatch (ds_shadowVersion previous) (rp_version patch)
         then (Some previous, [], st)
         else
           let snapshot = nextSnapshot previous patch now;
               fences = (case rp_version patch of
                   Some v \<Rightarrow>
                     if jm_has (st_silenceFences st) deviceId
                     then (if ds_shadowVersion snapshot = None
                           then jm_set deviceId (Some v) (st_silenceFences st)
                           else jm_delete deviceId (st_silenceFences st))
                     else st_silenceFences st
                 | None \<Rightarrow> st_silenceFences st)
           in (Some snapshot,
               store_notify env (listeners_of st deviceId) snapshot (Some previous)
                 (hasTelemetryReading patch),
               st\<lparr>st_snapshots := jm_set deviceId snapshot (st_snapshots st),
                  st_silenceFences := fences\<rparr>))"

definition store_remove :: "string \<Rightarrow> deviceStore \<Rightarrow> deviceStore" where
  "store_remove deviceId st =
    st\<lparr>st_snapshots := jm_delete deviceId (st_snapshots st),
       st_listeners := jm_delete deviceId (st_listeners st),
       st_silenceFences := jm_delete deviceId (st_silenceFences st)\<rparr>"

definition releaseShadowSource :: "string \<Rightarrow> releaseReason \<Rightarrow> deviceStore \<Rightarrow> deviceStore" where
  "releaseShadowSource deviceId reason st =
    (let fences = (if reason = Disconnect then jm_delete deviceId (st_silenceFences st)
                   else st_silenceFences st)
     in case st_snapshot st deviceId of
          None \<Rightarrow> st\<lparr>st_silenceFences := fences\<rparr>
        | Some snapshot \<Rightarrow>
            st\<lparr>st_silenceFences :=
                 (if reason = Silence \<and> \<not> jm_has fences deviceId
                  then jm_set deviceId (ds_shadowVersion snapshot) fences else fences),
               st_snapshots :=
                 jm_set deviceId (snapshot\<lparr>ds_shadowVersion := None\<rparr>) (st_snapshots st)\<rparr>)"

text \<open>
  \<open>subscribe\<close> adds the listener to the device's set, made on first use, and returns the reference
  by which the unsubscribe function reaches that same set later.
\<close>

definition store_subscribe :: "string \<Rightarrow> listener \<Rightarrow> deviceStore \<Rightarrow> setRef \<times> deviceStore" where
  "store_subscribe deviceId l st =
    (let (r, fresh) = (case jm_get (st_listeners st) deviceId of
             Some r \<Rightarrow> (r, False) | None \<Rightarrow> (st_nextRef st, True));
         old = (case jm_get (st_sets st) r of Some ls \<Rightarrow> if fresh then [] else ls | None \<Rightarrow> []);
         ls = (if l \<in> set old then old else old @ [l])
     in (r, st\<lparr>st_listeners := jm_set deviceId r (st_listeners st),
               st_sets := jm_set r ls (st_sets st),
               st_nextRef := (if fresh then Suc (st_nextRef st) else st_nextRef st)\<rparr>))"

definition store_unsubscribe :: "setRef \<Rightarrow> listener \<Rightarrow> deviceStore \<Rightarrow> deviceStore" where
  "store_unsubscribe r l st =
    (case jm_get (st_sets st) r of
       None \<Rightarrow> st
     | Some ls \<Rightarrow> st\<lparr>st_sets := jm_set r (filter (\<lambda>x. x \<noteq> l) ls) (st_sets st)\<rparr>)"

section \<open>Runs of operations\<close>

datatype storeOp =
    OpDiscover millis apiDevice
  | OpPatch millis string reportedPatch
  | OpRemove string
  | OpRelease string releaseReason
  | OpSubscribe string listener
  | OpUnsubscribe setRef listener

fun store_step :: "storeEnv \<Rightarrow> storeOp \<Rightarrow> deviceStore \<Rightarrow> deviceStore" where
  "store_step env (OpDiscover now dev) st = snd (snd (applyDiscovery env now dev st))"
| "store_step env (OpPatch now d p) st = snd (snd (applyReportedPatch env now d p st))"
| "store_step env (OpRemove d) st = store_remove d st"
| "store_step env (OpRelease d r) st = releaseShadowSource d r st"
| "store_step env (OpSubscribe d l) st = snd (store_subscribe d l st)"
| "store_step env (OpUnsubscribe r l) st = store_unsubscribe r l st"

text \<open>The device whose snapshot an operation may change.\<close>

fun op_touches :: "storeOp \<Rightarrow> string \<Rightarrow> bool" where
  "op_touches (OpDiscover now dev) d = (ad_deviceId dev = d)"
| "op_touches (OpPatch now d' p) d = (d' = d)"
| "op_touches (OpRemove d') d = (d' = d)"
| "op_touches (OpRelease d' r) d = (d' = d)"
| "op_touches (OpSubscribe d' l) d = False"
| "op_touches (OpUnsubscribe r l) d = False"

definition device_view :: "deviceStore \<Rightarrow> string \<Rightarrow> deviceSnapshot option \<times> silenceFence option" where
  "device_view st d = (st_snapshot st d, jm_get (st_silenceFences st) d)"

lemma subscribe_view [simp]: "device_view (snd (store_subscribe d' l st)) d = device_view st d"
  by (simp add: store_subscribe_def device_view_def st_snapshot_def Let_def split_beta)

lemma unsubscribe_view [simp]: "device_view (store_unsubscribe r l st) d = device_view st d"
  by (auto simp: store_unsubscribe_def device_view_def st_snapshot_def split: option.splits)

lemma discovery_view:
  "device_view (snd (snd (applyDiscovery env now dev st))) d =
    (if d = ad_deviceId dev
     then (Some (toSnapshot dev (fst (device_view st d)) now), snd (device_view st d))
     else device_view st d)"
  by (simp add: applyDiscovery_def device_view_def st_snapshot_def Let_def)

lemma remove_view: "device_view (store_remove d' st) d = (if d = d' then (None, None) else device_view st d)"
  by (simp add: store_remove_def device_view_def st_snapshot_def)

text \<open>One reported patch, seen from its own device.\<close>

definition patch_view ::
  "millis \<Rightarrow> reportedPatch \<Rightarrow> deviceSnapshot option \<times> silenceFence option
    \<Rightarrow> deviceSnapshot option \<times> silenceFence option" where
  "patch_view now patch v = (case v of
      (None, fence) \<Rightarrow> (None, fence)
    | (Some previous, fence) \<Rightarrow>
        if isFencedOut fence patch \<or> isStalePatch (ds_shadowVersion previous) (rp_version patch)
        then (Some previous, fence)
        else (Some (nextSnapshot previous patch now),
              (case (rp_version patch, fence) of
                 (Some v, Some _) \<Rightarrow>
                   if nextShadowVersion previous patch = None then Some (Some v) else None
               | _ \<Rightarrow> fence)))"

lemma nextSnapshot_version [simp]:
  "ds_shadowVersion (nextSnapshot previous patch now) = nextShadowVersion previous patch"
  by (simp add: nextSnapshot_def)

lemma patch_view:
  "device_view (snd (snd (applyReportedPatch env now d' patch st))) d =
    (if d = d' then patch_view now patch (device_view st d) else device_view st d)"
  by (auto simp: applyReportedPatch_def device_view_def patch_view_def st_snapshot_def Let_def
      jm_has_def split: option.splits)

definition release_view ::
  "releaseReason \<Rightarrow> deviceSnapshot option \<times> silenceFence option
    \<Rightarrow> deviceSnapshot option \<times> silenceFence option" where
  "release_view reason v = (case v of
      (None, fence) \<Rightarrow> (None, if reason = Disconnect then None else fence)
    | (Some s, fence) \<Rightarrow>
        (Some (s\<lparr>ds_shadowVersion := None\<rparr>),
         if reason = Disconnect then None
         else (case fence of None \<Rightarrow> Some (ds_shadowVersion s) | Some f \<Rightarrow> Some f)))"

lemma release_view:
  "device_view (releaseShadowSource d' reason st) d =
    (if d = d' then release_view reason (device_view st d) else device_view st d)"
  by (cases reason)
    (auto simp: releaseShadowSource_def device_view_def release_view_def st_snapshot_def Let_def
      jm_has_def split: option.splits)

interpretation store_keys: keyed_state device_view "store_step env" op_touches
proof
  fix op d and st :: deviceStore assume "\<not> op_touches op d"
  then show "device_view (store_step env op st) d = device_view st d"
    by (cases op) (auto simp: discovery_view patch_view remove_view release_view)
next
  fix op d and st st' :: deviceStore assume "device_view st d = device_view st' d"
  then show "device_view (store_step env op st) d = device_view (store_step env op st') d"
    by (cases op) (auto simp: discovery_view patch_view remove_view release_view)
qed

section \<open>Who owns telemetry\<close>

lemma store_run_Cons: "fold (store_step env) (op # ops) st = fold (store_step env) ops (store_step env op st)"
  by simp

lemma jm_keys_Nil_iff [simp]: "jm_keys d = [] \<longleftrightarrow> d = []"
  by (simp add: jm_keys_def)

lemma no_reading_data: "\<not> hasTelemetryReading p \<Longrightarrow> mergeRecord base (rp_data p) = base"
  by (auto simp: hasTelemetryReading_def mergeRecord_def split: option.splits)

text \<open>The operations that may end or refuse the shadow's ownership of a device.\<close>

fun ends_epoch :: "string \<Rightarrow> storeOp \<Rightarrow> bool" where
  "ends_epoch d (OpRemove d') = (d' = d)"
| "ends_epoch d (OpRelease d' r) = (d' = d)"
| "ends_epoch d _ = False"

lemma version_step:
  assumes "fst (device_view st d) = Some p" and "ds_shadowVersion p = Some v"
    and "\<not> ends_epoch d op"
  shows "\<exists>q w. fst (device_view (store_step env op st) d) = Some q \<and> ds_shadowVersion q = Some w
    \<and> v \<le> w \<and> (v = w \<longrightarrow> (\<forall>now dev. op = OpDiscover now dev \<longrightarrow> ds_data q = ds_data p))"
  using assms
  by (cases op)
    (auto simp: discovery_view patch_view remove_view release_view patch_view_def toSnapshot_def
      pollTelemetry_def watermark_def isStalePatch_def nextShadowVersion_def
      split: option.splits prod.splits)

text \<open>
  C8. Within one ownership epoch of the shadow the watermark never goes back: through any sequence of
  discoveries, patches and subscriptions, of this and of other devices, a device whose telemetry the
  shadow owns keeps a watermark, and it never decreases.
\<close>

theorem watermark_never_goes_back:
  assumes "st_snapshot st d = Some p" and "ds_shadowVersion p = Some v"
    and "\<forall>op \<in> set ops. \<not> ends_epoch d op"
  shows "\<exists>q w. st_snapshot (fold (store_step env) ops st) d = Some q
    \<and> ds_shadowVersion q = Some w \<and> v \<le> w"
  using assms
proof (induction ops arbitrary: st p v)
  case (Cons op ops)
  obtain q w where q: "st_snapshot (store_step env op st) d = Some q" "ds_shadowVersion q = Some w"
    and w: "v \<le> w"
    using version_step [of st d p v op env] Cons.prems by (auto simp: device_view_def)
  from Cons.IH [OF q] Cons.prems(3) w show ?case by force
qed simp

section \<open>Silence\<close>

text \<open>
  An operation that brings no newer reading of \<open>d\<close> than version \<open>v\<close>: a patch of \<open>d\<close> without
  a reading, without a version, or at or below \<open>v\<close>; a poll; another silence release; anything about
  another device.
\<close>

fun no_newer_reading :: "string \<Rightarrow> rat \<Rightarrow> storeOp \<Rightarrow> bool" where
  "no_newer_reading d v (OpPatch now d' p) =
    (d' = d \<longrightarrow> \<not> hasTelemetryReading p \<or> (case rp_version p of None \<Rightarrow> True | Some n \<Rightarrow> n \<le> v))"
| "no_newer_reading d v (OpRemove d') = (d' \<noteq> d)"
| "no_newer_reading d v (OpRelease d' r) = (d' = d \<longrightarrow> r = Silence)"
| "no_newer_reading d v _ = True"

text \<open>The telemetry of the last poll that returned \<open>d\<close>.\<close>

fun poll_data :: "string \<Rightarrow> storeOp \<Rightarrow> jobj \<Rightarrow> jobj" where
  "poll_data d (OpDiscover now dev) base =
    (if ad_deviceId dev = d then spread [] (ad_data dev) else base)"
| "poll_data d _ base = base"

definition silenced :: "string \<Rightarrow> rat \<Rightarrow> jobj \<Rightarrow> deviceStore \<Rightarrow> bool" where
  "silenced d v body st = (\<exists>p f. device_view st d = (Some p, Some (Some f)) \<and> v \<le> f
    \<and> ds_shadowVersion p = None \<and> ds_data p = body)"

lemma silenced_step:
  assumes "silenced d v body st" and "no_newer_reading d v op"
  shows "silenced d v (poll_data d op body) (store_step env op st)"
proof -
  obtain p f where view: "device_view st d = (Some p, Some (Some f))" and f: "v \<le> f"
    and p: "ds_shadowVersion p = None" "ds_data p = body"
    using assms(1) by (auto simp: silenced_def)
  show ?thesis
  proof (cases op)
    case (OpPatch now d' pt)
    show ?thesis
    proof (cases "d' = d \<and> \<not> isFencedOut (Some (Some f)) pt")
      case True
      then have d: "d' = d" and fence: "\<not> isFencedOut (Some (Some f)) pt" by auto
      have quiet: "\<not> hasTelemetryReading pt"
        using assms(2) fence f OpPatch d
        by (auto simp: isFencedOut_def split: option.splits)
      then have "nextShadowVersion p pt = None" "ds_data (nextSnapshot p pt now) = body"
        by (simp_all add: nextShadowVersion_def nextSnapshot_def no_reading_data p)
      then show ?thesis
        using view f p fence d OpPatch
        by (auto simp: silenced_def patch_view patch_view_def isStalePatch_def isFencedOut_def
            split: option.splits)
    next
      case False
      then show ?thesis
        using view f p OpPatch by (auto simp: silenced_def patch_view patch_view_def)
    qed
  qed (use view f p assms(2) in \<open>auto simp: silenced_def discovery_view remove_view release_view
      release_view_def toSnapshot_def pollTelemetry_def watermark_def\<close>)
qed

lemma silenced_run:
  "silenced d v body st \<Longrightarrow> \<forall>op \<in> set ops. no_newer_reading d v op \<Longrightarrow>
    silenced d v (fold (poll_data d) ops body) (fold (store_step env) ops st)"
  by (induction ops arbitrary: st body) (auto intro: silenced_step)

text \<open>
  C16. A silent device's telemetry belongs to the polls: once a device that held shadow version
  \<open>v\<close> is released for silence, then through any sequence of operations that brings no reading newer
  than \<open>v\<close> (replays, versionless documents, metadata, further silent polls), it holds no
  watermark and its telemetry is exactly what the last poll that returned it reported.
\<close>

theorem silence_hands_telemetry_to_polls:
  assumes "st_snapshot st d = Some p" and "ds_shadowVersion p = Some v"
    and "jm_get (st_silenceFences st) d = None"
    and "\<forall>op \<in> set ops. no_newer_reading d v op"
  shows "\<exists>q. st_snapshot (fold (store_step env) ops (releaseShadowSource d Silence st)) d = Some q
    \<and> ds_shadowVersion q = None \<and> ds_data q = fold (poll_data d) ops (ds_data p)"
proof -
  have "device_view st d = (Some p, None)"
    using assms(1,3) by (simp add: device_view_def)
  then have "silenced d v (ds_data p) (releaseShadowSource d Silence st)"
    using assms(2) by (simp add: silenced_def release_view release_view_def)
  from silenced_run [OF this assms(4), of env] show ?thesis
    by (auto simp: silenced_def device_view_def)
qed

text \<open>An operation that could establish ownership of \<open>d\<close>, or drop \<open>d\<close>.\<close>

fun brings_reading :: "string \<Rightarrow> storeOp \<Rightarrow> bool" where
  "brings_reading d (OpPatch now d' p) = (d' = d \<and> hasTelemetryReading p)"
| "brings_reading d _ = False"

fun drops_device :: "string \<Rightarrow> storeOp \<Rightarrow> bool" where
  "drops_device d (OpRemove d') = (d' = d)"
| "drops_device d _ = False"

definition unowned :: "string \<Rightarrow> jobj \<Rightarrow> deviceStore \<Rightarrow> bool" where
  "unowned d body st =
    (\<exists>p. fst (device_view st d) = Some p \<and> ds_shadowVersion p = None \<and> ds_data p = body)"

lemma unowned_step:
  assumes "unowned d body st" and "\<not> brings_reading d op" and "\<not> drops_device d op"
  shows "unowned d (poll_data d op body) (store_step env op st)"
proof -
  obtain p fence where "device_view st d = (Some p, fence)"
    "ds_shadowVersion p = None" "ds_data p = body"
    using assms(1) by (cases "device_view st d") (auto simp: unowned_def)
  then show ?thesis
    using assms(2,3)
    by (cases op)
      (auto simp: unowned_def discovery_view patch_view remove_view release_view patch_view_def
        release_view_def toSnapshot_def pollTelemetry_def watermark_def nextSnapshot_def
        nextShadowVersion_def no_reading_data)
qed

text \<open>
  Only a reading takes telemetry from the polls: a device the shadow does not own stays unowned
  through any sequence of operations in which no patch of that device carries a telemetry reading,
  whatever versions and metadata the patches carry, and its telemetry is then exactly what the last
  poll that returned it reported.
\<close>

theorem only_a_reading_takes_ownership:
  assumes "st_snapshot st d = Some p" and "ds_shadowVersion p = None"
    and "\<forall>op \<in> set ops. \<not> brings_reading d op \<and> \<not> drops_device d op"
  shows "\<exists>q. st_snapshot (fold (store_step env) ops st) d = Some q
    \<and> ds_shadowVersion q = None \<and> ds_data q = fold (poll_data d) ops (ds_data p)"
proof -
  have "unowned d body s \<Longrightarrow> \<forall>op \<in> set ops. \<not> brings_reading d op \<and> \<not> drops_device d op
      \<Longrightarrow> unowned d (fold (poll_data d) ops body) (fold (store_step env) ops s)" for s body
    by (induction ops arbitrary: s body) (auto intro: unowned_step)
  then have "unowned d (fold (poll_data d) ops (ds_data p)) (fold (store_step env) ops st)"
    using assms by (simp add: unowned_def device_view_def)
  then show ?thesis by (auto simp: unowned_def device_view_def)
qed

text \<open>
  A device enters the store through discovery alone, and what a device's entry is depends only on
  the operations of that device: dropping every operation of other devices from a run changes
  nothing, and a run without a discovery of an unknown device leaves it unknown.
\<close>

theorem store_is_per_device:
  "device_view (fold (store_step env) ops st) d
      = device_view (fold (store_step env) (filter (\<lambda>op. op_touches op d) ops) st) d
    \<and> ((\<exists>op \<in> set ops. \<exists>now dev. op = OpDiscover now dev \<and> ad_deviceId dev = d)
      \<or> st_snapshot st d \<noteq> None
      \<or> st_snapshot (fold (store_step env) ops st) d = None)"
proof -
  have "fst (device_view (store_step env op s) d) = None"
    if "fst (device_view s d) = None" "\<nexists>now dev. op = OpDiscover now dev \<and> ad_deviceId dev = d"
    for op s
    using that
    by (cases op) (auto simp: discovery_view patch_view remove_view release_view patch_view_def
        release_view_def split: prod.splits)
  then have "\<forall>op \<in> set ops. \<nexists>now dev. op = OpDiscover now dev \<and> ad_deviceId dev = d
      \<Longrightarrow> fst (device_view s d) = None \<Longrightarrow> fst (device_view (fold (store_step env) ops s) d) = None"
    for s
    by (induction ops arbitrary: s) auto
  then show ?thesis
    using store_keys.projection [of env ops st d] by (fastforce simp: device_view_def)
qed

section \<open>What a patch changes and who is told\<close>

lemma jm_get_None_keys: "jm_get m k = None \<longleftrightarrow> k \<notin> set (jm_keys m)"
  using jm.in_keys_iff [of k m] by auto

lemma set_changedKeys:
  "set (changedKeys leq a b) = {k. \<not> isSameValue (jm_get a k) (jm_get b k)}"
proof -
  have "\<not> isSameValue (jm_get a k) (jm_get b k) \<Longrightarrow> k \<in> set (jm_keys a) \<union> set (jm_keys b)" for k
    using jm_get_None_keys [of a k] jm_get_None_keys [of b k] by auto
  then show ?thesis by (auto simp: changedKeys_def Let_def)
qed

lemma distinct_changedKeys: "jm_wf a \<Longrightarrow> jm_wf b \<Longrightarrow> distinct (changedKeys leq a b)"
  by (auto simp: changedKeys_def Let_def jm.wf_keys)

definition notified :: "storeEvent list \<Rightarrow> listener list" where
  "notified evs = concat (map (\<lambda>e. case e of Notified l n p c \<Rightarrow> [l] | StoreLog x \<Rightarrow> []) evs)"

lemma notified_all:
  "notified (concat (map (\<lambda>l. Notified l n p c # (if r l then [StoreLog x] else [])) ls)) = ls"
  by (induction ls) (auto simp: notified_def)

lemma notified_Nil [simp]: "notified [] = []"
  by (simp add: notified_def)

lemma changedKeys_Nil:
  "changedKeys leq a b = [] \<longleftrightarrow> \<not> (\<exists>k. \<not> isSameValue (jm_get a k) (jm_get b k))"
  unfolding set_empty [symmetric] set_changedKeys by blast

lemma store_notify_notified:
  "notified (store_notify env ls n previous observed) =
    (if (\<exists>k. \<not> isSameValue (jm_get (case previous of None \<Rightarrow> [] | Some p \<Rightarrow> ds_data p) k)
                         (jm_get (ds_data n) k)) \<or> observed then ls else [])"
  by (simp only: store_notify_def Let_def changedKeys_Nil if_distrib [of notified] notified_all
      notified_Nil not_not if_not_P de_Morgan_conj [symmetric] split: if_split) blast

definition accepts :: "deviceStore \<Rightarrow> string \<Rightarrow> reportedPatch \<Rightarrow> bool" where
  "accepts st d patch = (\<exists>p. st_snapshot st d = Some p
    \<and> \<not> isFencedOut (jm_get (st_silenceFences st) d) patch
    \<and> \<not> isStalePatch (ds_shadowVersion p) (rp_version patch))"

lemma refused_patch:
  "\<not> accepts st d patch \<Longrightarrow> applyReportedPatch env now d patch st = (st_snapshot st d, [], st)"
  by (auto simp: applyReportedPatch_def accepts_def split: option.splits)

text \<open>
  An accepted patch merges field by field: a field it carries takes the reported value, every
  other field keeps its own, the receipt time moves exactly when the patch observed something, and
  the listeners, all of them in order and even when some throw, are told exactly when a value moved
  or a reading arrived. A patch that is not accepted changes nothing and tells nobody.
\<close>

theorem reported_patch_merges:
  fixes patch st env now d
  defines "out \<equiv> applyReportedPatch env now d patch st"
  assumes "\<forall>m. rp_data patch = Some m \<longrightarrow> jm_wf m"
  shows "if accepts st d patch
    then (\<exists>p n. st_snapshot st d = Some p \<and> fst out = Some n \<and> st_snapshot (snd (snd out)) d = Some n
      \<and> (\<forall>k. jm_get (ds_data n) k = (case rp_data patch of
            None \<Rightarrow> jm_get (ds_data p) k
          | Some m \<Rightarrow> (case jm_get m k of Some v \<Rightarrow> Some v | None \<Rightarrow> jm_get (ds_data p) k)))
      \<and> ds_receivedAt n = (if carriesObservation patch then now else ds_receivedAt p)
      \<and> notified (fst (snd out)) =
          (if (\<exists>k. \<not> isSameValue (jm_get (ds_data p) k) (jm_get (ds_data n) k))
              \<or> hasTelemetryReading patch
           then listeners_of st d else []))
    else out = (st_snapshot st d, [], st)"
proof (cases "accepts st d patch")
  case True
  then obtain p where p: "st_snapshot st d = Some p"
    "\<not> isFencedOut (jm_get (st_silenceFences st) d) patch"
    "\<not> isStalePatch (ds_shadowVersion p) (rp_version patch)"
    by (auto simp: accepts_def)
  let ?n = "nextSnapshot p patch now"
  have out: "fst out = Some ?n" "st_snapshot (snd (snd out)) d = Some ?n"
    "fst (snd out) = store_notify env (listeners_of st d) ?n (Some p) (hasTelemetryReading patch)"
    using p by (simp_all add: out_def applyReportedPatch_def Let_def st_snapshot_def)
  have merge: "jm_get (ds_data ?n) k = (case rp_data patch of
            None \<Rightarrow> jm_get (ds_data p) k
          | Some m \<Rightarrow> (case jm_get m k of Some v \<Rightarrow> Some v | None \<Rightarrow> jm_get (ds_data p) k))" for k
    using assms(2)
    by (auto simp: nextSnapshot_def mergeRecord_def jm_get_spread split: option.splits)
  have at: "ds_receivedAt ?n = (if carriesObservation patch then now else ds_receivedAt p)"
    by (simp add: nextSnapshot_def)
  show ?thesis
    unfolding if_P [OF True] out(3) store_notify_notified option.case
    using p(1) out(1,2) merge at by (intro exI [of _ p] exI [of _ ?n] conjI allI) blast+
next
  case False
  then show ?thesis using refused_patch [OF False] by (simp add: out_def)
qed

section \<open>An old unsubscribe function\<close>

text \<open>Every device with listeners has a set of its own, made before the next reference.\<close>

definition refs_wf :: "deviceStore \<Rightarrow> bool" where
  "refs_wf st = ((\<forall>d r. jm_get (st_listeners st) d = Some r \<longrightarrow> r < st_nextRef st)
    \<and> (\<forall>d d' r. jm_get (st_listeners st) d = Some r \<longrightarrow> jm_get (st_listeners st) d' = Some r \<longrightarrow> d = d'))"

definition dead_ref :: "setRef \<Rightarrow> deviceStore \<Rightarrow> bool" where
  "dead_ref r st = (r < st_nextRef st \<and> (\<forall>d. jm_get (st_listeners st) d \<noteq> Some r))"

lemma listeners_frame:
  "st_listeners (snd (snd (applyDiscovery env now dev st))) = st_listeners st"
  "st_nextRef (snd (snd (applyDiscovery env now dev st))) = st_nextRef st"
  "st_listeners (snd (snd (applyReportedPatch env now d patch st))) = st_listeners st"
  "st_nextRef (snd (snd (applyReportedPatch env now d patch st))) = st_nextRef st"
  "st_listeners (releaseShadowSource d reason st) = st_listeners st"
  "st_nextRef (releaseShadowSource d reason st) = st_nextRef st"
  "st_listeners (store_unsubscribe r l st) = st_listeners st"
  "st_nextRef (store_unsubscribe r l st) = st_nextRef st"
  "st_listeners (store_remove d st) = jm_delete d (st_listeners st)"
  "st_nextRef (store_remove d st) = st_nextRef st"
  by (simp_all add: applyDiscovery_def applyReportedPatch_def releaseShadowSource_def
      store_unsubscribe_def store_remove_def Let_def split: option.splits)

lemma subscribe_refs:
  "st_listeners (snd (store_subscribe d l st)) = jm_set d (fst (store_subscribe d l st)) (st_listeners st)"
  "st_nextRef (snd (store_subscribe d l st)) =
    (if jm_get (st_listeners st) d = None then Suc (st_nextRef st) else st_nextRef st)"
  "fst (store_subscribe d l st) =
    (case jm_get (st_listeners st) d of Some r \<Rightarrow> r | None \<Rightarrow> st_nextRef st)"
  by (simp_all add: store_subscribe_def Let_def split: option.splits)

lemma refs_wf_step: "refs_wf st \<Longrightarrow> refs_wf (store_step env op st)"
proof (cases op)
  case (OpSubscribe d l)
  assume "refs_wf st"
  then show ?thesis
    unfolding refs_wf_def OpSubscribe store_step.simps subscribe_refs
    by (auto split: option.splits if_splits simp: less_Suc_eq)
qed (auto simp: refs_wf_def listeners_frame split: if_splits)

lemma refs_wf_run: "refs_wf st \<Longrightarrow> refs_wf (fold (store_step env) ops st)"
  by (induction ops arbitrary: st) (auto intro: refs_wf_step)

lemma dead_ref_step: "dead_ref r st \<Longrightarrow> dead_ref r (store_step env op st)"
proof (cases op)
  case (OpSubscribe d l)
  assume "dead_ref r st"
  then show ?thesis
    unfolding dead_ref_def OpSubscribe store_step.simps subscribe_refs
    by (auto split: option.splits)
qed (auto simp: dead_ref_def listeners_frame split: if_splits)

lemma dead_ref_run: "dead_ref r st \<Longrightarrow> dead_ref r (fold (store_step env) ops st)"
  by (induction ops arbitrary: st) (auto intro: dead_ref_step)

lemma dead_ref_harmless:
  "dead_ref r st \<Longrightarrow> listeners_of (store_unsubscribe r l st) d = listeners_of st d"
  by (auto simp: dead_ref_def listeners_of_def store_unsubscribe_def split: option.splits)

lemma refs_wf_created: "refs_wf createDeviceStateStore"
  by (simp add: refs_wf_def createDeviceStateStore_def)

text \<open>
  An unsubscribe function outlives its epoch harmlessly: once the device has been removed, calling
  it, after any further operations and a rediscovery with new subscriptions, changes no device's
  listeners.
\<close>

theorem old_unsubscribe_is_harmless:
  fixes before "after" env d l
  defines "st \<equiv> fold (store_step env) before createDeviceStateStore"
  defines "later \<equiv> fold (store_step env) after (store_remove d (snd (store_subscribe d l st)))"
  shows "listeners_of (store_unsubscribe (fst (store_subscribe d l st)) l later) d' = listeners_of later d'"
proof -
  let ?r = "fst (store_subscribe d l st)" and ?st1 = "snd (store_subscribe d l st)"
  have "refs_wf (store_step env (OpSubscribe d l) st)"
    unfolding st_def by (intro refs_wf_step refs_wf_run refs_wf_created)
  then have wf: "refs_wf ?st1" by simp
  have r: "jm_get (st_listeners ?st1) d = Some ?r"
    by (simp add: subscribe_refs)
  have "dead_ref ?r (store_remove d ?st1)"
    using wf r unfolding dead_ref_def refs_wf_def listeners_frame by auto
  then have "dead_ref ?r later"
    unfolding later_def by (rule dead_ref_run)
  then show ?thesis by (rule dead_ref_harmless)
qed

section \<open>Witnesses\<close>

definition demo_device :: apiDevice where
  "demo_device = \<lparr>ad_deviceId = ''d1'', ad_deviceTypeId = ''wayneWaterGemini'', ad_name = ''Pump'',
     ad_serialNumber = ''S1'', ad_connectivity = \<lparr>ac_connected = True, ac_timestamp = Fin 5\<rparr>,
     ad_data = [(''water_level'', JNum (Fin 1))]\<rparr>"

definition demo_env :: storeEnv where
  "demo_env = \<lparr>env_leq = (\<lambda>a b. True), env_raises = (\<lambda>l. False)\<rparr>"

definition demo_patch :: "rat \<Rightarrow> reportedPatch" where
  "demo_patch v = \<lparr>rp_data = Some [(''water_level'', JNum (Fin 31))], rp_state = None,
     rp_version = Some v\<rparr>"

definition demo_store :: "storeOp list \<Rightarrow> deviceStore" where
  "demo_store ops = fold (store_step demo_env) ops createDeviceStateStore"

definition demo_polled :: deviceStore where
  "demo_polled = demo_store [OpDiscover 1 demo_device]"

definition demo_owned :: deviceStore where
  "demo_owned = demo_store [OpDiscover 1 demo_device, OpPatch 2 ''d1'' (demo_patch 7)]"

lemma demo_owned_snapshot:
  "map_option ds_shadowVersion (st_snapshot demo_owned ''d1'') = Some (Some 7)"
  "jm_get (st_silenceFences demo_owned) ''d1'' = None"
  "map_option ds_shadowVersion (st_snapshot demo_polled ''d1'') = Some None"
  by code_simp+

theorem watermark_never_goes_back_witness:
  "\<exists>q w. st_snapshot (fold (store_step demo_env) [OpPatch 3 ''d1'' (demo_patch 6)] demo_owned) ''d1''
      = Some q \<and> ds_shadowVersion q = Some w \<and> 7 \<le> w"
proof -
  obtain p where p: "st_snapshot demo_owned ''d1'' = Some p" "ds_shadowVersion p = Some 7"
    using demo_owned_snapshot(1) by auto
  show ?thesis
    by (rule watermark_never_goes_back [OF p]) simp
qed

theorem silence_hands_telemetry_to_polls_witness:
  "\<exists>q. st_snapshot (fold (store_step demo_env) [OpPatch 3 ''d1'' (demo_patch 7), OpDiscover 4 demo_device]
        (releaseShadowSource ''d1'' Silence demo_owned)) ''d1'' = Some q
      \<and> ds_shadowVersion q = None \<and> ds_data q = [(''water_level'', JNum (Fin 1))]"
proof -
  obtain p where p: "st_snapshot demo_owned ''d1'' = Some p" "ds_shadowVersion p = Some 7"
    using demo_owned_snapshot(1) by auto
  have ops: "\<forall>op \<in> set [OpPatch 3 ''d1'' (demo_patch 7), OpDiscover 4 demo_device].
    no_newer_reading ''d1'' 7 op"
    by (simp add: demo_patch_def)
  show ?thesis
    using silence_hands_telemetry_to_polls [OF p demo_owned_snapshot(2) ops, of demo_env]
    by (simp add: demo_device_def spread_def jm_set_def)
qed

theorem only_a_reading_takes_ownership_witness:
  "\<exists>q. st_snapshot (fold (store_step demo_env)
        [OpPatch 3 ''d1'' \<lparr>rp_data = Some [], rp_state = Some [], rp_version = Some 9\<rparr>,
         OpDiscover 4 demo_device] demo_polled) ''d1'' = Some q
      \<and> ds_shadowVersion q = None \<and> ds_data q = [(''water_level'', JNum (Fin 1))]"
proof -
  obtain p where p: "st_snapshot demo_polled ''d1'' = Some p" "ds_shadowVersion p = None"
    using demo_owned_snapshot(3) by auto
  have ops: "\<forall>op \<in> set [OpPatch 3 ''d1'' \<lparr>rp_data = Some [], rp_state = Some [], rp_version = Some 9\<rparr>,
      OpDiscover 4 demo_device]. \<not> brings_reading ''d1'' op \<and> \<not> drops_device ''d1'' op"
    by (simp add: hasTelemetryReading_def jm_keys_def)
  show ?thesis
    using only_a_reading_takes_ownership [OF p ops, of demo_env]
    by (simp add: demo_device_def spread_def jm_set_def)
qed

theorem store_is_per_device_witness:
  "st_snapshot (fold (store_step demo_env) [OpPatch 3 ''d2'' (demo_patch 1)] demo_polled) ''d2'' = None"
proof -
  have "st_snapshot demo_polled ''d2'' = None" by code_simp
  then show ?thesis
    using store_is_per_device [of demo_env "[OpPatch 3 ''d2'' (demo_patch 1)]" demo_polled "''d2''"]
    by simp
qed

theorem reported_patch_merges_witness:
  "accepts demo_polled ''d1'' (demo_patch 3)
    \<and> (\<exists>n. fst (applyReportedPatch demo_env 9 ''d1'' (demo_patch 3) demo_polled) = Some n
        \<and> jm_get (ds_data n) ''water_level'' = Some (JNum (Fin 31)))"
proof -
  have acc: "accepts demo_polled ''d1'' (demo_patch 3)"
    using demo_owned_snapshot(3)
    by (auto simp: accepts_def isStalePatch_def isFencedOut_def demo_polled_def demo_store_def
        applyDiscovery_def createDeviceStateStore_def Let_def)
  have "\<forall>m. rp_data (demo_patch 3) = Some m \<longrightarrow> jm_wf m"
    by (simp add: demo_patch_def jm_wf_def)
  from reported_patch_merges [OF this, of demo_polled "''d1''" demo_env 9] acc show ?thesis
    by (auto simp: demo_patch_def jm_get_def)
qed

end
