(* ===== verification/Reconciliation.thy ===== *)
theory Reconciliation
  imports Prelude
begin

text \<open>
  The absence counter of \<open>src/src/accessories/reconciliation.ts\<close>: a device is confirmed absent
  once two consecutive trustworthy inventory responses have omitted it. The state is the map of
  counts; the specification is stated over the history of the operations.
\<close>

section \<open>Operations\<close>

definition CONFIRMATION_THRESHOLD :: nat where
  "CONFIRMATION_THRESHOLD = 2"

type_synonym absenceCounts = "(string, nat) jsmap"

definition nextAbsenceCount :: "nat \<Rightarrow> nat" where
  "nextAbsenceCount previousCount = previousCount + 1"

definition isConfirmedAbsent :: "nat \<Rightarrow> bool" where
  "isConfirmedAbsent count = (CONFIRMATION_THRESHOLD \<le> count)"

text \<open>
  \<open>observe\<close>: every listed device is set to zero first; then every other entry of the map counts one
  more absence, and is reported once its count reaches the threshold.
\<close>

definition observe_counts :: "string list \<Rightarrow> absenceCounts \<Rightarrow> absenceCounts" where
  "observe_counts deviceIds counts =
    map (\<lambda>(d, c). if d \<in> set deviceIds then (d, c) else (d, nextAbsenceCount c))
      (fold (\<lambda>d. jm_set d 0) (js_set deviceIds) counts)"

definition observe ::
  "string list \<Rightarrow> absenceCounts \<Rightarrow> string list \<times> log_line list \<times> absenceCounts" where
  "observe deviceIds counts =
    (let counts' = observe_counts deviceIds counts;
         confirmed = map fst (filter (\<lambda>(d, c). d \<notin> set deviceIds \<and> isConfirmedAbsent c) counts')
     in (confirmed,
         map (\<lambda>d. LDebug (''Device '' @ d
           @ '' confirmed absent from two consecutive trustworthy inventory responses.'')) confirmed,
         counts'))"

definition recon_present :: "string \<Rightarrow> absenceCounts \<Rightarrow> absenceCounts" where
  "recon_present deviceId counts = jm_set deviceId 0 counts"

definition recon_forget :: "string \<Rightarrow> absenceCounts \<Rightarrow> absenceCounts" where
  "recon_forget deviceId counts = jm_delete deviceId counts"

section \<open>Histories\<close>

datatype reconOp = Observe "string list" | Present string | Forget string

fun recon_step :: "reconOp \<Rightarrow> absenceCounts \<Rightarrow> absenceCounts" where
  "recon_step (Observe ids) counts = snd (snd (observe ids counts))"
| "recon_step (Present d) counts = recon_present d counts"
| "recon_step (Forget d) counts = recon_forget d counts"

definition recon_run :: "reconOp list \<Rightarrow> absenceCounts" where
  "recon_run ops = fold recon_step ops []"

text \<open>An operation that records the device as present.\<close>

fun marks_present :: "string \<Rightarrow> reconOp \<Rightarrow> bool" where
  "marks_present d (Observe ids) = (d \<in> set ids)"
| "marks_present d (Present d') = (d' = d)"
| "marks_present d (Forget d') = False"

fun is_response :: "reconOp \<Rightarrow> bool" where
  "is_response (Observe ids) = True"
| "is_response _ = False"

definition still_missing :: "string \<Rightarrow> reconOp list \<Rightarrow> bool" where
  "still_missing d ops = (\<forall>op \<in> set ops. \<not> marks_present d op \<and> op \<noteq> Forget d)"

lemma jm_get_map_entries:
  "jm_get (map (\<lambda>(d, c). (d, f d c)) m) k = map_option (f k) (jm_get m k)"
  by (induction m) (auto simp: jm_get_def)

lemma observe_counts_get:
  "jm_get (observe_counts ids counts) d =
    (if d \<in> set ids then Some 0 else map_option Suc (jm_get counts d))"
proof -
  have "observe_counts ids counts = map (\<lambda>(d, c). (d, if d \<in> set ids then c else Suc c))
      (fold (\<lambda>d. jm_set d 0) (js_set ids) counts)"
    by (simp add: observe_counts_def nextAbsenceCount_def if_distrib cong: if_cong)
  then show ?thesis
    by (simp only: jm_get_map_entries jm.get_fold_put js_set_simps) (auto simp: option.map_ident)
qed

lemma keys_observe_counts: "jm_keys (observe_counts ids counts) = jm_keys (fold (\<lambda>d. jm_set d 0) (js_set ids) counts)"
  by (auto simp: observe_counts_def jm_keys_def split_beta)

lemma jm_wf_keys: "jm_wf m \<longleftrightarrow> distinct (jm_keys m)"
  by (rule jm.wf_keys)

lemma recon_step_wf: "jm_wf counts \<Longrightarrow> jm_wf (recon_step op counts)"
  by (cases op)
    (auto simp: observe_def Let_def recon_present_def recon_forget_def jm_wf_keys [of "observe_counts _ _"]
      keys_observe_counts simp flip: jm_wf_keys)

lemma recon_run_wf: "jm_wf (recon_run ops)"
proof -
  have "jm_wf m \<Longrightarrow> jm_wf (fold recon_step ops m)" for m
    by (induction ops arbitrary: m) (auto intro: recon_step_wf)
  then show ?thesis by (simp add: recon_run_def)
qed

lemma confirmed_iff:
  assumes "jm_wf counts"
  shows "d \<in> set (fst (observe ids counts))
    \<longleftrightarrow> d \<notin> set ids \<and> (\<exists>c. jm_get counts d = Some c \<and> 1 \<le> c)"
proof -
  have "jm_wf (observe_counts ids counts)"
    using recon_step_wf [OF assms, of "Observe ids"] by (simp add: observe_def Let_def)
  then have "(d, c) \<in> set (observe_counts ids counts) \<longleftrightarrow> jm_get (observe_counts ids counts) d = Some c"
    for c by (rule jm_get_entry)
  then show ?thesis
    by (force simp: observe_def Let_def observe_counts_get isConfirmedAbsent_def
        CONFIRMATION_THRESHOLD_def image_iff)
qed

text \<open>The count of a device, read off the history from its end.\<close>

lemma recon_count:
  "jm_get (recon_run ops) d = Some c \<longleftrightarrow>
    (\<exists>pre op post. ops = pre @ op # post \<and> marks_present d op \<and> still_missing d post
      \<and> c = length (filter is_response post))"
proof (induction ops arbitrary: c rule: rev_induct)
  case Nil
  then show ?case by (simp add: recon_run_def)
next
  case (snoc op ops)
  have run: "recon_run (ops @ [op]) = recon_step op (recon_run ops)"
    by (simp add: recon_run_def)
  have split: "(\<exists>pre o' post. ops @ [op] = pre @ o' # post \<and> marks_present d o' \<and> still_missing d post
        \<and> c = length (filter is_response post))
    \<longleftrightarrow> (marks_present d op \<and> c = 0)
      \<or> (\<not> marks_present d op \<and> op \<noteq> Forget d
          \<and> (\<exists>b. jm_get (recon_run ops) d = Some b \<and> c = b + (if is_response op then 1 else 0)))
      \<or> (marks_present d op \<and> c = 0)" (is "?L \<longleftrightarrow> ?R")
  proof
    assume ?L
    then obtain pre o' post where eq: "ops @ [op] = pre @ o' # post" "marks_present d o'"
      "still_missing d post" "c = length (filter is_response post)" by blast
    show ?R
    proof (cases post rule: rev_cases)
      case Nil
      then show ?thesis using eq by simp
    next
      case (snoc post' x)
      then have "ops = pre @ o' # post'" "op = x" using eq(1) by auto
      then show ?thesis using eq snoc unfolding snoc.IH
        by (auto simp: still_missing_def)
    qed
  next
    assume ?R
    then show ?L
    proof (elim disjE conjE exE)
      fix b assume "\<not> marks_present d op" "op \<noteq> Forget d" "jm_get (recon_run ops) d = Some b"
        "c = b + (if is_response op then 1 else 0)"
      then obtain pre o' post where "ops = pre @ o' # post" "marks_present d o'"
        "still_missing d post" "b = length (filter is_response post)"
        unfolding snoc.IH by blast
      then show ?L
        using \<open>\<not> marks_present d op\<close> \<open>op \<noteq> Forget d\<close> \<open>c = b + _\<close>
        by (intro exI [of _ pre] exI [of _ o'] exI [of _ "post @ [op]"]) (auto simp: still_missing_def)
    qed (fastforce simp: still_missing_def)+
  qed
  show ?case
    unfolding run split
    by (cases op) (auto simp: observe_def Let_def observe_counts_get recon_present_def recon_forget_def)
qed

text \<open>
  Removal needs two omissions in a row: an inventory response reports a device as confirmed
  absent exactly when it omits the device, an earlier operation recorded the device as present, and
  since the latest such operation the device was neither seen nor forgotten while at least one
  more response omitted it.
\<close>

theorem absence_needs_two_responses:
  "d \<in> set (fst (observe ids (recon_run ops))) \<longleftrightarrow>
    d \<notin> set ids \<and> (\<exists>pre op post. ops = pre @ op # post \<and> marks_present d op
      \<and> still_missing d post \<and> 1 \<le> length (filter is_response post))"
  unfolding confirmed_iff [OF recon_run_wf] recon_count by blast

end
