(* ===== verification/FailureLog.thy ===== *)
theory FailureLog
  imports Prelude
begin

text \<open>
  The rate-limited failure reports of \<open>src/src/runtime/failureLog.ts\<close>. The state maps each
  failing kind to the monotonic time of the warning it last produced; an operation returns the one
  line it logs, or none.
\<close>

definition FAILURE_REMINDER_MS :: millis where
  "FAILURE_REMINDER_MS = 900000"

type_synonym warnedAt = "(string, millis) jsmap"

definition recordFailure ::
  "millis \<Rightarrow> millis \<Rightarrow> string \<Rightarrow> string \<Rightarrow> warnedAt \<Rightarrow> log_line list \<times> warnedAt" where
  "recordFailure interval now kind reason warned =
    (case jm_get warned kind of
       None \<Rightarrow> ([LWarn reason], jm_set kind now warned)
     | Some lastWarnedAt \<Rightarrow>
         if now - lastWarnedAt \<ge> interval then ([LWarn reason], jm_set kind now warned)
         else ([LDebug reason], warned))"

definition recordSuccess :: "string \<Rightarrow> warnedAt \<Rightarrow> log_line list \<times> warnedAt" where
  "recordSuccess kind warned =
    (if jm_has warned kind then ([LInfo (kind @ '' recovered.'')], jm_delete kind warned)
     else ([], warned))"

definition failure_forget :: "string \<Rightarrow> warnedAt \<Rightarrow> warnedAt" where
  "failure_forget kind warned = jm_delete kind warned"

section \<open>Runs\<close>

datatype failureOp =
    Failure millis string string
  | Success string
  | ForgetKind string

fun failure_step :: "millis \<Rightarrow> failureOp \<Rightarrow> warnedAt \<Rightarrow> log_line list \<times> warnedAt" where
  "failure_step interval (Failure now kind reason) w = recordFailure interval now kind reason w"
| "failure_step interval (Success kind) w = recordSuccess kind w"
| "failure_step interval (ForgetKind kind) w = ([], failure_forget kind w)"

fun op_kind :: "failureOp \<Rightarrow> string" where
  "op_kind (Failure now kind reason) = kind"
| "op_kind (Success kind) = kind"
| "op_kind (ForgetKind kind) = kind"

text \<open>The lines a run logs about one kind.\<close>

fun lines_of :: "millis \<Rightarrow> string \<Rightarrow> failureOp list \<Rightarrow> warnedAt \<Rightarrow> log_line list" where
  "lines_of interval kind [] w = []"
| "lines_of interval kind (op # ops) w =
    (if op_kind op = kind then fst (failure_step interval op w) else [])
    @ lines_of interval kind ops (snd (failure_step interval op w))"

definition failure_run :: "millis \<Rightarrow> failureOp list \<Rightarrow> warnedAt \<Rightarrow> warnedAt" where
  "failure_run interval ops w = fold (\<lambda>op w. snd (failure_step interval op w)) ops w"

interpretation failures: keyed_state jm_get "\<lambda>op w. snd (failure_step interval op w)"
  "\<lambda>op k. op_kind op = k"
proof
  fix op k and w :: warnedAt assume "op_kind op \<noteq> k"
  then show "jm_get (snd (failure_step interval op w)) k = jm_get w k"
    by (cases op) (auto simp: recordFailure_def recordSuccess_def failure_forget_def split: option.splits)
next
  fix op k and w w' :: warnedAt assume "jm_get w k = jm_get w' k"
  then show "jm_get (snd (failure_step interval op w)) k = jm_get (snd (failure_step interval op w')) k"
    by (cases op)
      (auto simp: recordFailure_def recordSuccess_def failure_forget_def jm_has_def split: option.splits)
qed

lemma lines_of_append:
  "lines_of interval kind (xs @ ys) w =
    lines_of interval kind xs w @ lines_of interval kind ys (failure_run interval xs w)"
  by (induction xs arbitrary: w) (simp_all add: failure_run_def)

text \<open>A run of failures of a kind inside one reminder window only writes debug lines.\<close>

fun quiet_op :: "millis \<Rightarrow> millis \<Rightarrow> string \<Rightarrow> failureOp \<Rightarrow> bool" where
  "quiet_op interval t0 kind (Failure now k reason) = (k = kind \<longrightarrow> now < t0 + interval)"
| "quiet_op interval t0 kind (Success k) = (k \<noteq> kind)"
| "quiet_op interval t0 kind (ForgetKind k) = (k \<noteq> kind)"

lemma quiet_step:
  assumes "jm_get w kind = Some t0" and "quiet_op interval t0 kind op"
  shows "jm_get (snd (failure_step interval op w)) kind = Some t0"
    and "op_kind op = kind \<Longrightarrow> \<exists>reason. fst (failure_step interval op w) = [LDebug reason]"
  using assms failures.frame [of op kind interval w]
  by (cases op; auto simp: recordFailure_def split: option.splits)+

lemma quiet_run:
  assumes "jm_get w kind = Some t0" and "\<forall>op \<in> set ops. quiet_op interval t0 kind op"
  shows "jm_get (failure_run interval ops w) kind = Some t0
    \<and> set (lines_of interval kind ops w) \<subseteq> range LDebug"
  using assms
proof (induction ops arbitrary: w)
  case (Cons op ops)
  have q: "quiet_op interval t0 kind op" using Cons.prems(2) by simp
  note step = quiet_step [OF Cons.prems(1) q]
  have "fst (failure_step interval op w) = [LDebug r] \<Longrightarrow> set [LDebug r] \<subseteq> range LDebug" for r
    by simp
  then have "set (if op_kind op = kind then fst (failure_step interval op w) else []) \<subseteq> range LDebug"
    using step(2) by (cases "op_kind op = kind") auto
  then show ?case
    using Cons.IH [OF step(1)] Cons.prems(2) by (simp add: failure_run_def)
qed (simp add: failure_run_def)

text \<open>
  At most one warning per reminder window and exactly one when it is over: after a failure that
  warned at \<open>t0\<close>, any further operations in which the kind only fails, and always before
  \<open>t0 + interval\<close>, write nothing but debug lines about it, whatever other kinds do meanwhile;
  the first failure at or after \<open>t0 + interval\<close> warns; and a recovery says so once.
\<close>

theorem one_warning_per_window:
  assumes "fst (recordFailure interval t0 kind reason w) = [LWarn reason]"
    and "\<forall>op \<in> set ops. quiet_op interval t0 kind op"
  defines "w' \<equiv> failure_run interval ops (snd (recordFailure interval t0 kind reason w))"
  shows "set (lines_of interval kind ops (snd (recordFailure interval t0 kind reason w))) \<subseteq> range LDebug
    \<and> (\<forall>t r. fst (recordFailure interval t kind r w') = (if t0 + interval \<le> t then [LWarn r] else [LDebug r]))
    \<and> fst (recordSuccess kind w') = [LInfo (kind @ '' recovered.'')]
    \<and> fst (recordSuccess kind (snd (recordSuccess kind w'))) = []"
proof -
  have "jm_get (snd (recordFailure interval t0 kind reason w)) kind = Some t0"
    using assms(1) by (auto simp: recordFailure_def split: option.splits if_splits)
  from quiet_run [OF this assms(2)] have "jm_get w' kind = Some t0"
    and lines: "set (lines_of interval kind ops (snd (recordFailure interval t0 kind reason w)))
      \<subseteq> range LDebug"
    by (simp_all add: w'_def)
  then show ?thesis
    by (auto simp: recordFailure_def recordSuccess_def jm_has_def algebra_simps)
qed

theorem one_warning_per_window_witness:
  "set (lines_of 900 ''Poll'' [Failure 10 ''Poll'' ''again'', Failure 2000 ''Shadow'' ''down'']
      (snd (recordFailure 900 5 ''Poll'' ''first'' []))) \<subseteq> range LDebug"
proof -
  have 1: "fst (recordFailure 900 5 ''Poll'' ''first'' []) = [LWarn ''first'']"
    by (simp add: recordFailure_def)
  have 2: "\<forall>op \<in> set [Failure 10 ''Poll'' ''again'', Failure 2000 ''Shadow'' ''down''].
      quiet_op 900 5 ''Poll'' op"
    by simp
  show ?thesis using one_warning_per_window [OF 1 2] by blast
qed

end
