(* ===== verification/RetryPolicy.thy ===== *)
theory RetryPolicy
  imports Prelude
begin

text \<open>
  The reconnect timing of \<open>src/src/runtime/retryPolicy.ts\<close>. The asynchronous wait is split into
  the steps the event loop can take: \<open>schedule\<close> starts a wait, which either elapses and starts the
  caller's work or is aborted by the shutdown signal; the work then ends, with or without an error.
  \<open>pending\<close> is true from the start of the wait to the end of the work.
\<close>

definition MAX_BACKOFF_MS :: nat where
  "MAX_BACKOFF_MS = 30000"

definition FIRST_RETRY_DELAY_MS :: nat where
  "FIRST_RETRY_DELAY_MS = 500"

datatype retryPhase = Idle | Waiting nat | Running

record retryPolicy =
  retry_attempt :: nat
  retry_phase :: retryPhase

definition createRetryPolicy :: retryPolicy where
  "createRetryPolicy = \<lparr>retry_attempt = 0, retry_phase = Idle\<rparr>"

definition retry_pending :: "retryPolicy \<Rightarrow> bool" where
  "retry_pending p = (retry_phase p \<noteq> Idle)"

definition nextDelayMs :: "nat \<Rightarrow> retryPolicy \<Rightarrow> nat \<times> retryPolicy" where
  "nextDelayMs maxDelayMs p =
    (let attempt = retry_attempt p + 1
     in (min maxDelayMs (FIRST_RETRY_DELAY_MS * 2 ^ (attempt - 1)), p\<lparr>retry_attempt := attempt\<rparr>))"

definition retry_reset :: "retryPolicy \<Rightarrow> retryPolicy" where
  "retry_reset p = p\<lparr>retry_attempt := 0\<rparr>"

definition retry_schedule :: "nat \<Rightarrow> retryPolicy \<Rightarrow> retryPolicy" where
  "retry_schedule maxDelayMs p =
    (if retry_pending p then p
     else let (delay, p') = nextDelayMs maxDelayMs p in p'\<lparr>retry_phase := Waiting delay\<rparr>)"

text \<open>The events of one policy, with the wait each start of a wait used.\<close>

datatype retryEvent =
    Schedule
  | Elapsed
  | Aborted
  | Finished bool
  | Reset

inductive retry_step :: "nat \<Rightarrow> retryPolicy \<Rightarrow> retryEvent \<Rightarrow> log_line list \<Rightarrow> retryPolicy \<Rightarrow> bool"
  for maxDelayMs where
  schedule: "retry_step maxDelayMs p Schedule [] (retry_schedule maxDelayMs p)"
| elapsed: "retry_phase p = Waiting d \<Longrightarrow> retry_step maxDelayMs p Elapsed [] (p\<lparr>retry_phase := Running\<rparr>)"
| aborted: "retry_phase p = Waiting d \<Longrightarrow> retry_step maxDelayMs p Aborted [] (p\<lparr>retry_phase := Idle\<rparr>)"
| finished: "retry_phase p = Running \<Longrightarrow>
    retry_step maxDelayMs p (Finished ok)
      (if ok then [] else [LDebug ''A scheduled retry attempt failed.'']) (p\<lparr>retry_phase := Idle\<rparr>)"
| reset: "retry_step maxDelayMs p Reset [] (retry_reset p)"

inductive_cases retry_stepE:
  "retry_step m p Schedule ls q" "retry_step m p Elapsed ls q" "retry_step m p Aborted ls q"
  "retry_step m p (Finished ok) ls q" "retry_step m p Reset ls q"

inductive retry_run :: "nat \<Rightarrow> retryPolicy \<Rightarrow> retryEvent list \<Rightarrow> retryPolicy \<Rightarrow> bool" for maxDelayMs where
  nil: "retry_run maxDelayMs p [] p"
| snoc: "retry_run maxDelayMs p es q \<Longrightarrow> retry_step maxDelayMs q e ls r \<Longrightarrow> retry_run maxDelayMs p (es @ [e]) r"

section \<open>Waits\<close>

text \<open>The delay of the \<open>n\<close>-th wait after a reset, counted from zero.\<close>

definition backoff :: "nat \<Rightarrow> nat \<Rightarrow> nat" where
  "backoff maxDelayMs n = min maxDelayMs (500 * 2 ^ n)"

lemma backoff_mono: "m \<le> n \<Longrightarrow> backoff maxDelayMs m \<le> backoff maxDelayMs n"
proof -
  assume "m \<le> n"
  then have "(2::nat) ^ m \<le> 2 ^ n" by (rule power_increasing) simp
  then show ?thesis by (simp add: backoff_def min.coboundedI2 min_le_iff_disj)
qed

lemma backoff_reaches_cap: "maxDelayMs \<le> 500 * 2 ^ n \<Longrightarrow> backoff maxDelayMs n = maxDelayMs"
  by (simp add: backoff_def)

text \<open>
  The waits that were started since the last reset, and the works that ran, counted on the event
  sequence alone: a \<open>Schedule\<close> counts only while nothing is under way.
\<close>

fun started :: "retryEvent list \<Rightarrow> bool \<times> nat" where
  "started [] = (False, 0)"
| "started (e # earlier) = (let (busy, n) = started earlier in case e of
      Schedule \<Rightarrow> if busy then (busy, n) else (True, Suc n)
    | Elapsed \<Rightarrow> (busy, n)
    | Aborted \<Rightarrow> (False, n)
    | Finished ok \<Rightarrow> (False, n)
    | Reset \<Rightarrow> (busy, 0))"

definition retry_inv :: "nat \<Rightarrow> retryEvent list \<Rightarrow> retryPolicy \<Rightarrow> bool" where
  "retry_inv m es p = (started (rev es) = (retry_pending p, retry_attempt p))"

lemma retry_inv_step:
  assumes "retry_inv m es p" and "retry_step m p e ls q"
  shows "retry_inv m (es @ [e]) q"
  using assms(2,1)
  by cases (auto simp: retry_inv_def retry_schedule_def nextDelayMs_def retry_reset_def retry_pending_def
      Let_def)

lemma retry_inv_run: "retry_run m p es q \<Longrightarrow> p = createRetryPolicy \<Longrightarrow> retry_inv m es q"
proof (induction rule: retry_run.induct)
  case (nil p)
  then show ?case by (simp add: retry_inv_def createRetryPolicy_def retry_pending_def)
qed (auto intro: retry_inv_step)

text \<open>
  One chain of retries with capped exponential waits: in every reachable state, \<open>schedule\<close> starts
  a wait exactly when no wait or work is under way, and the wait is the one of its position since the
  last reset, \<open>min maxDelayMs (500 * 2 ^ n)\<close>; otherwise it changes nothing.
\<close>

theorem retry_waits_are_capped_backoff:
  assumes "retry_run maxDelayMs createRetryPolicy es p"
  shows "let (busy, n) = started (rev es)
    in (busy \<longrightarrow> retry_schedule maxDelayMs p = p)
     \<and> (\<not> busy \<longrightarrow> retry_phase (retry_schedule maxDelayMs p) = Waiting (backoff maxDelayMs n)
          \<and> backoff maxDelayMs n \<le> maxDelayMs \<and> backoff maxDelayMs n \<le> backoff maxDelayMs (Suc n))"
proof -
  have "started (rev es) = (retry_pending p, retry_attempt p)"
    using retry_inv_run [OF assms refl] by (simp add: retry_inv_def)
  moreover have "backoff maxDelayMs n \<le> maxDelayMs" for n
    by (simp add: backoff_def)
  ultimately show ?thesis
    using backoff_mono [of "retry_attempt p" "Suc (retry_attempt p)" maxDelayMs]
    by (auto simp: retry_schedule_def nextDelayMs_def Let_def backoff_def FIRST_RETRY_DELAY_MS_def)
qed

theorem retry_waits_are_capped_backoff_witness:
  "retry_phase (retry_schedule 30000 \<lparr>retry_attempt = 1, retry_phase = Idle\<rparr>) = Waiting 1000"
proof -
  let ?p1 = "retry_schedule 30000 createRetryPolicy"
  have s1: "retry_run 30000 createRetryPolicy [Schedule] ?p1"
    using retry_run.snoc [OF retry_run.nil retry_step.schedule, of 30000 createRetryPolicy] by simp
  have "retry_phase ?p1 = Waiting 500"
    by (simp add: retry_schedule_def nextDelayMs_def createRetryPolicy_def retry_pending_def
        FIRST_RETRY_DELAY_MS_def)
  note s2 = retry_run.snoc [OF s1 retry_step.aborted [OF this]]
  have p2: "?p1\<lparr>retry_phase := Idle\<rparr> = \<lparr>retry_attempt = 1, retry_phase = Idle\<rparr>"
    by (simp add: retry_schedule_def nextDelayMs_def createRetryPolicy_def retry_pending_def)
  show ?thesis
    using retry_waits_are_capped_backoff [OF s2] unfolding p2 by (simp add: backoff_def)
qed

end
