(* ===== verification/ArrivalAnchors.thy ===== *)
theory ArrivalAnchors
  imports JsValue
begin

text \<open>
  The wall-clock arrival anchors of \<open>src/src/runtime/arrivalAnchors.ts\<close>: a map in memory, the
  queue of snapshots whose writes were requested and have not landed yet, and the parsed content of
  the anchor file. The file system is the environment: a requested write lands or fails, in the
  order of the requests, and \<open>restore\<close> meets whatever the file holds.
\<close>

section \<open>State and operations\<close>

record arrivalAnchors =
  aa_anchors :: "(string, millis) jsmap"
  aa_pendingWrites :: "(string, millis) jsmap list"
  aa_file :: "json option"

definition ANCHORS_UNUSABLE :: string where
  "ANCHORS_UNUSABLE =
    ''The stored arrival anchors could not be read; silence is measured from this run alone.''"

definition ANCHORS_NOT_WRITTEN :: string where
  "ANCHORS_NOT_WRITTEN =
    ''The arrival anchors could not be written; a restart will measure silence from this run alone.''"

definition createArrivalAnchors :: "json option \<Rightarrow> arrivalAnchors" where
  "createArrivalAnchors file = \<lparr>aa_anchors = [], aa_pendingWrites = [], aa_file = file\<rparr>"

definition anchor_get :: "arrivalAnchors \<Rightarrow> string \<Rightarrow> millis option" where
  "anchor_get a deviceId = jm_get (aa_anchors a) deviceId"

definition anchor_record :: "string \<Rightarrow> millis \<Rightarrow> arrivalAnchors \<Rightarrow> arrivalAnchors" where
  "anchor_record deviceId instant a = a\<lparr>aa_anchors := jm_set deviceId instant (aa_anchors a)\<rparr>"

definition anchor_forget :: "string \<Rightarrow> arrivalAnchors \<Rightarrow> arrivalAnchors" where
  "anchor_forget deviceId a = a\<lparr>aa_anchors := jm_delete deviceId (aa_anchors a)\<rparr>"

definition isAnchorFile :: "json option \<Rightarrow> bool" where
  "isAnchorFile v =
    (isRecord v \<and> (\<forall>(k, x) \<in> set (fields_of v). case x of JNum n \<Rightarrow> num_isFinite n | _ \<Rightarrow> False))"

text \<open>
  The usable content of the file: \<open>None\<close> for no file, for one that does not parse
  (\<open>parsed = None\<close>) and for one that is not a record of finite numbers; the last two are noted.
\<close>

definition anchor_value :: "json \<Rightarrow> millis" where
  "anchor_value x = (case x of JNum n \<Rightarrow> (case finite_of n of Some r \<Rightarrow> r | None \<Rightarrow> 0) | _ \<Rightarrow> 0)"

definition readAnchorFile ::
  "bool \<Rightarrow> json option \<Rightarrow> (string, millis) jsmap option \<times> log_line list" where
  "readAnchorFile present parsed =
    (if \<not> present then (None, [])
     else if isAnchorFile parsed then (Some (map (\<lambda>(k, x). (k, anchor_value x)) (fields_of parsed)), [])
     else (None, [LDebug ANCHORS_UNUSABLE]))"

definition anchor_restore ::
  "bool \<Rightarrow> json option \<Rightarrow> arrivalAnchors \<Rightarrow> log_line list \<times> arrivalAnchors" where
  "anchor_restore present parsed a =
    (case readAnchorFile present parsed of
       (None, logs) \<Rightarrow> (logs, a)
     | (Some stored, logs) \<Rightarrow>
         (logs, a\<lparr>aa_anchors := fold (\<lambda>(k, v). jm_set k v) stored (aa_anchors a)\<rparr>))"

definition anchor_persist :: "arrivalAnchors \<Rightarrow> arrivalAnchors" where
  "anchor_persist a = a\<lparr>aa_pendingWrites := aa_pendingWrites a @ [aa_anchors a]\<rparr>"

definition anchor_json :: "(string, millis) jsmap \<Rightarrow> json" where
  "anchor_json m = JObj (map (\<lambda>(k, v). (k, JNum (Fin v))) m)"

text \<open>The oldest requested write ends; a failed one leaves the file and is noted.\<close>

definition anchor_written :: "bool \<Rightarrow> arrivalAnchors \<Rightarrow> log_line list \<times> arrivalAnchors" where
  "anchor_written ok a = (case aa_pendingWrites a of
      [] \<Rightarrow> ([], a)
    | w # ws \<Rightarrow>
        if ok then ([], a\<lparr>aa_pendingWrites := ws, aa_file := Some (anchor_json w)\<rparr>)
        else ([LDebug ANCHORS_NOT_WRITTEN], a\<lparr>aa_pendingWrites := ws\<rparr>))"

section \<open>What the silence measurement relies on\<close>

locale anchor_store =
  fixes aget :: "'a \<Rightarrow> string \<Rightarrow> millis option"
    and arecord :: "string \<Rightarrow> millis \<Rightarrow> 'a \<Rightarrow> 'a"
    and aforget :: "string \<Rightarrow> 'a \<Rightarrow> 'a"
  assumes get_record: "aget (arecord d t a) e = (if e = d then Some t else aget a e)"
    and get_forget: "aget (aforget d a) e = (if e = d then None else aget a e)"
begin

text \<open>Seeding an anchor only when there is none, as admission does.\<close>

lemma seed_keeps: "aget a d = Some t \<Longrightarrow>
    aget (if aget a e = None then arecord e u a else a) d = Some t"
  by (auto simp: get_record)

lemma seed_sets: "\<exists>t. aget (if aget a d = None then arecord d u a else a) d = Some t
    \<and> (t = u \<or> aget a d = Some t)"
  by (auto simp: get_record)

lemma latest_record: "aget (fold (\<lambda>(d, t). arecord d t) ws a) d =
    (case filter (\<lambda>w. fst w = d) ws of [] \<Rightarrow> aget a d | xs \<Rightarrow> Some (snd (last xs)))"
proof (induction ws arbitrary: a)
  case (Cons w ws)
  show ?case
    using Cons [of "arecord (fst w) (snd w) a"]
    by (cases w) (auto simp: get_record split: list.splits)
qed simp

end

interpretation anchors: anchor_store anchor_get anchor_record anchor_forget
  by unfold_locales (simp_all add: anchor_get_def anchor_record_def anchor_forget_def)

lemma anchor_get_written [simp]:
  "anchor_get (anchor_persist a) d = anchor_get a d"
  "anchor_get (snd (anchor_written ok a)) d = anchor_get a d"
  by (simp_all add: anchor_get_def anchor_persist_def anchor_written_def split: list.splits)

section \<open>Persistence\<close>

lemma fold_set_get:
  "jm_wf ws \<Longrightarrow> jm_get (fold (\<lambda>(k, v). jm_set k v) ws m) d =
    (case jm_get ws d of None \<Rightarrow> jm_get m d | Some v \<Rightarrow> Some v)"
proof (induction ws arbitrary: m)
  case (Cons w ws)
  obtain k v where w: "w = (k, v)" by force
  have "jm_wf ws" and "jm_get ws k = None"
    using Cons.prems by (auto simp: w jm_wf_def jm_get_def map_of_eq_None_iff)
  moreover have "jm_get (w # ws) d = (if d = k then Some v else jm_get ws d)"
    by (simp add: w jm_get_def)
  ultimately show ?case
    using Cons.IH by (simp add: w split: option.splits)
qed simp

lemma anchor_json_is_file: "isAnchorFile (Some (anchor_json m))"
  by (auto simp: isAnchorFile_def anchor_json_def num_isFinite_def)

lemma read_anchor_json: "readAnchorFile True (Some (anchor_json m)) = (Some m, [])"
  by (simp add: readAnchorFile_def anchor_json_is_file)
    (simp add: anchor_json_def anchor_value_def split_beta comp_def)

fun write_all :: "bool list \<Rightarrow> arrivalAnchors \<Rightarrow> arrivalAnchors" where
  "write_all [] a = a"
| "write_all (ok # oks) a = write_all oks (snd (anchor_written ok a))"

text \<open>
  A restart reads back the anchors of the last write that landed: requests land in their order, so
  once the queue is empty and the last request landed, restoring from the file on a fresh store
  yields the anchors held when that write was requested, for every device and without a note;
  a write that failed leaves an older file. A file with any entry that is not a finite number is
  ignored whole.
\<close>

theorem anchors_survive_restart:
  assumes "jm_wf (aa_anchors a)" and "length oks = length (aa_pendingWrites a)"
  shows "(\<forall>d. anchor_get (snd (anchor_restore True
        (aa_file (write_all (oks @ [True]) (anchor_persist a))) (createArrivalAnchors f))) d
      = anchor_get a d)
    \<and> (\<not> isAnchorFile v \<longrightarrow> snd (anchor_restore True v b) = b)"
proof -
  have "aa_file (write_all (oks @ [True]) (c\<lparr>aa_pendingWrites := ws @ [w]\<rparr>)) = Some (anchor_json w)"
    if "length oks = length ws" for ws w c
    using that
  proof (induction oks arbitrary: ws c)
    case Nil
    then show ?case by (simp add: anchor_written_def)
  next
    case (Cons ok oks)
    then obtain x xs where ws: "ws = x # xs" by (cases ws) auto
    have "snd (anchor_written ok (c\<lparr>aa_pendingWrites := ws @ [w]\<rparr>))
      = (if ok then c\<lparr>aa_file := Some (anchor_json x)\<rparr> else c)\<lparr>aa_pendingWrites := xs @ [w]\<rparr>"
      by (simp add: anchor_written_def ws)
    moreover have "length oks = length xs" using Cons.prems ws by simp
    ultimately show ?case using Cons.IH [of xs] by simp
  qed
  then have "aa_file (write_all (oks @ [True]) (anchor_persist a)) = Some (anchor_json (aa_anchors a))"
    using assms(2) by (simp add: anchor_persist_def)
  then have "anchor_get (snd (anchor_restore True
        (aa_file (write_all (oks @ [True]) (anchor_persist a))) (createArrivalAnchors f))) d
      = anchor_get a d" for d
    using fold_set_get [OF assms(1), of "[]" d]
    by (simp add: anchor_restore_def read_anchor_json createArrivalAnchors_def anchor_get_def
        split: option.splits)
  moreover have "\<not> isAnchorFile v \<longrightarrow> snd (anchor_restore True v b) = b"
    by (simp add: anchor_restore_def readAnchorFile_def)
  ultimately show ?thesis by blast
qed

theorem anchors_survive_restart_witness:
  "anchor_get (snd (anchor_restore True
      (aa_file (write_all [True] (anchor_persist (anchor_record ''d1'' 5 (createArrivalAnchors None)))))
      (createArrivalAnchors None))) ''d1'' = Some 5"
proof -
  have 1: "jm_wf (aa_anchors (anchor_record ''d1'' 5 (createArrivalAnchors None)))"
    by (simp add: anchor_record_def createArrivalAnchors_def jm_wf_def jm_set_def)
  have 2: "length [] = length (aa_pendingWrites (anchor_record ''d1'' 5 (createArrivalAnchors None)))"
    by (simp add: anchor_record_def createArrivalAnchors_def)
  show ?thesis
    using anchors_survive_restart [OF 1 2, of None] by (simp add: anchors.get_record)
qed

end
