(* ===== verification/MonitoringHealth.thy ===== *)
theory MonitoringHealth
  imports ArrivalAnchors
begin

text \<open>
  The monitoring-trust projection of \<open>src/src/runtime/monitoringHealth.ts\<close>: the run of failed
  polls of the account, the monotonic time of the last shadow message of each device, and the silence
  verdict, the larger of the forward-only and the wall-clock elapsed time against two heartbeats.
  The injected anchor store is part of the state an operation returns.
\<close>

section \<open>State and operations\<close>

definition REST_FAILURE_THRESHOLD :: nat where
  "REST_FAILURE_THRESHOLD = 2"

definition HEARTBEAT_INTERVAL_MS :: millis where
  "HEARTBEAT_INTERVAL_MS = 898000"

definition MISSED_HEARTBEATS_BEFORE_SILENT :: millis where
  "MISSED_HEARTBEATS_BEFORE_SILENT = 2"

record transportTrust =
  tt_restDegraded :: bool

record monitoringTrust =
  mt_restDegraded :: bool
  mt_shadowSilent :: bool
  mt_commandTransportReady :: bool
  mt_credentialsRejected :: bool

record monitoringHealth =
  mh_consecutiveRestFailures :: nat
  mh_lastShadowArrival :: "(string, millis) jsmap"
  mh_anchors :: arrivalAnchors

definition createMonitoringHealth :: "arrivalAnchors \<Rightarrow> monitoringHealth" where
  "createMonitoringHealth a =
    \<lparr>mh_consecutiveRestFailures = 0, mh_lastShadowArrival = [], mh_anchors = a\<rparr>"

definition isRestDegraded :: "nat \<Rightarrow> bool" where
  "isRestDegraded consecutiveFailures = (REST_FAILURE_THRESHOLD \<le> consecutiveFailures)"

definition silenceElapsedMs :: "millis \<Rightarrow> millis option \<Rightarrow> millis \<Rightarrow> millis \<Rightarrow> millis" where
  "silenceElapsedMs arrivedAt anchor monotonicNow wallNow =
    (let forwardOnlyElapsedMs = monotonicNow - arrivedAt
     in case anchor of None \<Rightarrow> forwardOnlyElapsedMs
        | Some a \<Rightarrow> max forwardOnlyElapsedMs (wallNow - a))"

definition isShadowSilent :: "millis \<Rightarrow> millis \<Rightarrow> bool" where
  "isShadowSilent lastMessageAt now =
    (HEARTBEAT_INTERVAL_MS * MISSED_HEARTBEATS_BEFORE_SILENT \<le> now - lastMessageAt)"

definition silentDevices :: "millis \<Rightarrow> millis \<Rightarrow> monitoringHealth \<Rightarrow> string list" where
  "silentDevices monotonicNow wallNow h =
    map fst (filter (\<lambda>(deviceId, arrivedAt).
        isShadowSilent
          (monotonicNow
            - silenceElapsedMs arrivedAt (anchor_get (mh_anchors h) deviceId) monotonicNow wallNow)
          monotonicNow)
      (mh_lastShadowArrival h))"

definition recordRestSuccess :: "monitoringHealth \<Rightarrow> monitoringHealth" where
  "recordRestSuccess h = h\<lparr>mh_consecutiveRestFailures := 0\<rparr>"

definition recordRestFailure :: "monitoringHealth \<Rightarrow> monitoringHealth" where
  "recordRestFailure h = h\<lparr>mh_consecutiveRestFailures := mh_consecutiveRestFailures h + 1\<rparr>"

definition recordShadowMessage ::
  "millis \<Rightarrow> millis \<Rightarrow> string \<Rightarrow> monitoringHealth \<Rightarrow> monitoringHealth" where
  "recordShadowMessage monotonicNow wallNow deviceId h =
    h\<lparr>mh_lastShadowArrival := jm_set deviceId monotonicNow (mh_lastShadowArrival h),
      mh_anchors := anchor_record deviceId wallNow (mh_anchors h)\<rparr>"

definition admitDevice :: "millis \<Rightarrow> millis \<Rightarrow> string \<Rightarrow> monitoringHealth \<Rightarrow> monitoringHealth" where
  "admitDevice monotonicNow wallNow deviceId h =
    h\<lparr>mh_lastShadowArrival :=
        (if jm_has (mh_lastShadowArrival h) deviceId then mh_lastShadowArrival h
         else jm_set deviceId monotonicNow (mh_lastShadowArrival h)),
      mh_anchors :=
        (if anchor_get (mh_anchors h) deviceId = None
         then anchor_record deviceId wallNow (mh_anchors h) else mh_anchors h)\<rparr>"

definition forgetDevice :: "string \<Rightarrow> monitoringHealth \<Rightarrow> monitoringHealth" where
  "forgetDevice deviceId h =
    h\<lparr>mh_lastShadowArrival := jm_delete deviceId (mh_lastShadowArrival h)\<rparr>"

definition trustNow :: "monitoringHealth \<Rightarrow> transportTrust" where
  "trustNow h = \<lparr>tt_restDegraded = isRestDegraded (mh_consecutiveRestFailures h)\<rparr>"

section \<open>Runs\<close>

datatype healthOp =
    RestSuccess
  | RestFailure
  | Message millis millis string
  | Admit millis millis string
  | ForgetDevice string
  | DropAnchor string

fun health_step :: "healthOp \<Rightarrow> monitoringHealth \<Rightarrow> monitoringHealth" where
  "health_step RestSuccess h = recordRestSuccess h"
| "health_step RestFailure h = recordRestFailure h"
| "health_step (Message m w d) h = recordShadowMessage m w d h"
| "health_step (Admit m w d) h = admitDevice m w d h"
| "health_step (ForgetDevice d) h = forgetDevice d h"
| "health_step (DropAnchor d) h = h\<lparr>mh_anchors := anchor_forget d (mh_anchors h)\<rparr>"

fun op_about :: "healthOp \<Rightarrow> string \<Rightarrow> bool" where
  "op_about (Message m w d') d = (d' = d)"
| "op_about (Admit m w d') d = (d' = d)"
| "op_about (ForgetDevice d') d = (d' = d)"
| "op_about (DropAnchor d') d = (d' = d)"
| "op_about _ d = False"

definition stamps :: "monitoringHealth \<Rightarrow> string \<Rightarrow> millis option \<times> millis option" where
  "stamps h d = (jm_get (mh_lastShadowArrival h) d, anchor_get (mh_anchors h) d)"

lemma health_stamps:
  "stamps (recordRestSuccess h) d = stamps h d"
  "stamps (recordRestFailure h) d = stamps h d"
  "stamps (recordShadowMessage m w d' h) d = (if d = d' then (Some m, Some w) else stamps h d)"
  "stamps (forgetDevice d' h) d = (if d = d' then (None, snd (stamps h d)) else stamps h d)"
  "stamps (admitDevice m w d' h) d =
    (if d = d' then (Some (case fst (stamps h d) of Some t \<Rightarrow> t | None \<Rightarrow> m),
                     Some (case snd (stamps h d) of Some t \<Rightarrow> t | None \<Rightarrow> w))
     else stamps h d)"
  "stamps (h\<lparr>mh_anchors := anchor_forget d' (mh_anchors h)\<rparr>) d =
    (if d = d' then (fst (stamps h d), None) else stamps h d)"
  by (auto simp: stamps_def recordRestSuccess_def recordRestFailure_def recordShadowMessage_def
      forgetDevice_def admitDevice_def anchors.get_record anchors.get_forget jm_has_def
      split: option.splits)

interpretation health: keyed_state stamps health_step op_about
proof
  fix op d h assume "\<not> op_about op d"
  then show "stamps (health_step op h) d = stamps h d"
    by (cases op) (auto simp: health_stamps)
next
  fix op d h h' assume "stamps h d = stamps h' d"
  then show "stamps (health_step op h) d = stamps (health_step op h') d"
    by (cases op) (auto simp: health_stamps)
qed

definition health_wf :: "monitoringHealth \<Rightarrow> bool" where
  "health_wf h = jm_wf (mh_lastShadowArrival h)"

lemma health_wf_step: "health_wf h \<Longrightarrow> health_wf (health_step op h)"
  by (cases op)
    (auto simp: health_wf_def recordRestSuccess_def recordRestFailure_def recordShadowMessage_def
      forgetDevice_def admitDevice_def)

lemma health_wf_run: "health_wf h \<Longrightarrow> health_wf (fold health_step ops h)"
  by (induction ops arbitrary: h) (auto intro: health_wf_step)

lemma health_wf_created [simp]: "health_wf (createMonitoringHealth a)"
  by (simp add: health_wf_def createMonitoringHealth_def)

section \<open>Silence\<close>

lemma silent_iff:
  assumes "health_wf h"
  shows "d \<in> set (silentDevices m w h) \<longleftrightarrow>
    (case stamps h d of
       (None, anchor) \<Rightarrow> False
     | (Some t, None) \<Rightarrow> 1796000 \<le> m - t
     | (Some t, Some a) \<Rightarrow> 1796000 \<le> m - t \<or> 1796000 \<le> w - a)"
proof -
  have "(d, t) \<in> set (mh_lastShadowArrival h) \<longleftrightarrow> jm_get (mh_lastShadowArrival h) d = Some t" for t
    using assms by (simp add: health_wf_def jm_get_entry)
  then have "d \<in> set (silentDevices m w h) \<longleftrightarrow> (\<exists>t. jm_get (mh_lastShadowArrival h) d = Some t
      \<and> 1796000 \<le> silenceElapsedMs t (anchor_get (mh_anchors h) d) m w)"
    by (force simp: silentDevices_def isShadowSilent_def HEARTBEAT_INTERVAL_MS_def
        MISSED_HEARTBEATS_BEFORE_SILENT_def image_iff)
  then show ?thesis
    by (auto simp: stamps_def silenceElapsedMs_def Let_def max_def split: option.splits)
qed

text \<open>Operations that neither hear nor drop the device: polls, admissions, everything of others.\<close>

fun unheard :: "string \<Rightarrow> healthOp \<Rightarrow> bool" where
  "unheard d (Message m w d') = (d' \<noteq> d)"
| "unheard d (ForgetDevice d') = (d' \<noteq> d)"
| "unheard d (DropAnchor d') = (d' \<noteq> d)"
| "unheard d _ = True"

lemma unheard_run:
  "\<forall>op \<in> set ops. unheard d op \<Longrightarrow> stamps h d = (Some t, Some a)
    \<Longrightarrow> stamps (fold health_step ops h) d = (Some t, Some a)"
proof (induction ops arbitrary: h)
  case (Cons op ops)
  have "unheard d op" using Cons.prems(1) by simp
  then have "stamps (health_step op h) d = (Some t, Some a)"
    using Cons.prems(2) by (cases op) (auto simp: health_stamps)
  with Cons show ?case by simp
qed simp

text \<open>
  Silence is measured from the last message and from nothing else: after a message of a device
  at monotonic time \<open>m0\<close> and wall time \<open>w0\<close>, however many polls succeed or fail, whatever is
  admitted again and whatever other devices say, the device is silent exactly when two heartbeats
  have passed on one of the two clocks. So a wall clock stepped back cannot hide a silence that the
  monotonic clock measured, and a suspended monotonic clock cannot hide one the wall clock measured.
\<close>

theorem silence_since_last_message:
  fixes before ops a d m0 w0
  defines "h \<equiv> fold health_step (before @ Message m0 w0 d # ops) (createMonitoringHealth a)"
  assumes "\<forall>op \<in> set ops. unheard d op"
  shows "d \<in> set (silentDevices m w h) \<longleftrightarrow> 1796000 \<le> m - m0 \<or> 1796000 \<le> w - w0"
proof -
  let ?h0 = "health_step (Message m0 w0 d) (fold health_step before (createMonitoringHealth a))"
  have "stamps ?h0 d = (Some m0, Some w0)"
    by (simp add: health_stamps)
  from unheard_run [OF assms(2) this] have "stamps h d = (Some m0, Some w0)"
    by (simp add: h_def)
  moreover have "health_wf h"
    unfolding h_def by (intro health_wf_run) simp
  ultimately show ?thesis by (simp add: silent_iff)
qed

theorem silence_since_last_message_witness:
  "''d1'' \<in> set (silentDevices 1800000 0 (fold health_step
      ([] @ Message 0 500 ''d1'' # [RestSuccess, Message 900000 600 ''d2'', Admit 950000 700 ''d1''])
      (createMonitoringHealth (createArrivalAnchors None))))"
proof -
  have 1: "\<forall>op \<in> set [RestSuccess, Message 900000 600 ''d2'', Admit 950000 700 ''d1'']. unheard ''d1'' op"
    by simp
  have 2: "1796000 \<le> (1800000::rat) - 0 \<or> 1796000 \<le> (0::rat) - 500" by simp
  show ?thesis using 2 silence_since_last_message [OF 1] by blast
qed

text \<open>
  A restart vouches for nobody: with a restored anchor \<open>a0\<close> of a device, a fresh process that
  admits the device at \<open>(m0, w0)\<close> and hears nothing from it calls it silent as soon as two
  heartbeats have passed since \<open>a0\<close> on the wall clock, however late it was admitted, and a device
  without a restored anchor is measured from its admission.
\<close>

theorem silence_survives_restart:
  fixes ops anchors d m0 w0
  defines "h \<equiv> fold health_step (Admit m0 w0 d # ops) (createMonitoringHealth anchors)"
  assumes "\<forall>op \<in> set ops. unheard d op"
  shows "d \<in> set (silentDevices m w h) \<longleftrightarrow> 1796000 \<le> m - m0
    \<or> 1796000 \<le> w - (case anchor_get anchors d of Some a0 \<Rightarrow> a0 | None \<Rightarrow> w0)"
proof -
  let ?h0 = "health_step (Admit m0 w0 d) (createMonitoringHealth anchors)"
  have "stamps ?h0 d = (Some m0, Some (case anchor_get anchors d of Some a0 \<Rightarrow> a0 | None \<Rightarrow> w0))"
    by (simp add: health_stamps) (simp add: stamps_def createMonitoringHealth_def jm_get_def)
  from unheard_run [OF assms(2) this]
  have "stamps h d = (Some m0, Some (case anchor_get anchors d of Some a0 \<Rightarrow> a0 | None \<Rightarrow> w0))"
    by (simp add: h_def)
  moreover have "health_wf h"
    unfolding h_def by (intro health_wf_run) simp
  ultimately show ?thesis by (simp add: silent_iff)
qed

theorem silence_survives_restart_witness:
  "''d1'' \<in> set (silentDevices 10 2000000 (fold health_step [Admit 5 1999000 ''d1'']
      (createMonitoringHealth (anchor_record ''d1'' 100 (createArrivalAnchors None)))))"
  using silence_survives_restart [of "[]" "''d1''" 10 2000000 5 1999000
      "anchor_record ''d1'' 100 (createArrivalAnchors None)"]
  by (simp add: anchors.get_record)

section \<open>The polling path\<close>

text \<open>The failed polls since the last successful one, counted on the operations alone.\<close>

fun failure_count :: "healthOp list \<Rightarrow> nat" where
  "failure_count [] = 0"
| "failure_count (RestSuccess # earlier) = 0"
| "failure_count (RestFailure # earlier) = Suc (failure_count earlier)"
| "failure_count (_ # earlier) = failure_count earlier"

lemma rest_failures:
  "mh_consecutiveRestFailures (fold health_step ops (createMonitoringHealth a)) = failure_count (rev ops)"
proof (induction ops rule: rev_induct)
  case (snoc op ops)
  then show ?case
    by (cases op) (auto simp: recordRestSuccess_def recordRestFailure_def recordShadowMessage_def
        admitDevice_def forgetDevice_def)
qed (simp add: createMonitoringHealth_def)

text \<open>
  The polling path is degraded exactly while the last two polls failed: shadow messages,
  admissions and removals never clear it, and one successful poll always does.
\<close>

theorem rest_degraded_exactly:
  "tt_restDegraded (trustNow (fold health_step ops (createMonitoringHealth a)))
    \<longleftrightarrow> 2 \<le> failure_count (rev ops)"
  by (simp add: trustNow_def isRestDegraded_def REST_FAILURE_THRESHOLD_def rest_failures)

end
