(* ===== verification/PumpRecords.thy ===== *)
theory PumpRecords
  imports JsValue
begin

text \<open>
  The activation records of \<open>src/src/accessories/pumpRecords.ts\<close>, with the stored shapes of
  \<open>src/src/persistence/accessoryContext.ts\<close>: what is resumed from an accessory's context, the
  reconciliation of one observation, and the write it asks for. \<open>store.persist\<close> may throw; the
  environment's answer is an argument of \<open>observe\<close>, and a throw is part of its result.
\<close>

section \<open>Data\<close>

definition MILLISECONDS_PER_SECOND :: rat where
  "MILLISECONDS_PER_SECOND = 1000"

definition MAX_DATE_MILLISECONDS :: rat where
  "MAX_DATE_MILLISECONDS = 8640000000000000"

record pumpRecordsObservation =
  ob_receivedAt :: millis
  ob_primaryRunning :: "bool option"
  ob_backupRunning :: "bool option"
  ob_backupActivatedAt :: "jsnum option"
  ob_testRunning :: "bool option"
  ob_testedAt :: "jsnum option"

record pumpObservation =
  po_observationStartedAt :: jsnum
  po_activationCount :: nat
  po_lastActivationAt :: "jsnum option"
  po_lastActivationWasTestActivity :: "bool option"

text \<open>\<open>backupEdgeAwaitingTimestamp\<close> is stored as \<open>true\<close> or left out.\<close>

record activationWatermarks =
  aw_backupPumpTimestamp :: "jsnum option"
  aw_testTimestamp :: "jsnum option"
  aw_backupEdgeAwaitingTimestamp :: bool

record storedRecord =
  sr_primaryPump :: pumpObservation
  sr_backupPump :: pumpObservation
  sr_watermarks :: activationWatermarks

record previousDeviceTimes =
  pt_backupActivatedAt :: "jsnum option"
  pt_testedAt :: "jsnum option"

record pumpRecordsContext =
  px_primaryPump :: "json option"
  px_backupPump :: "json option"
  px_watermarks :: "json option"

record pumpRecords =
  pr_record :: "storedRecord option"
  pr_previousPrimaryRunning :: "bool option"
  pr_previousBackupRunning :: "bool option"
  pr_previousDeviceTimes :: previousDeviceTimes
  pr_pendingPersist :: bool

section \<open>Numbers\<close>

text \<open>
  Multiplication by a thousand in doubles. A product of magnitude \<open>2 ^ 1024 - 2 ^ 970\<close> or more
  overflows; the rounding of other inexact products is not modelled.
\<close>

definition millisecondsOf :: "jsnum \<Rightarrow> jsnum" where
  "millisecondsOf n = (case n of
      Fin r \<Rightarrow> (let p = r * MILLISECONDS_PER_SECOND in
        if p \<ge> double_overflow then PosInf else if p \<le> - double_overflow then NegInf else Fin p)
    | _ \<Rightarrow> n)"

text \<open>\<open>!==\<close> on two optional numbers.\<close>

definition num_same :: "jsnum option \<Rightarrow> jsnum option \<Rightarrow> bool" where
  "num_same a b = (case (a, b) of
      (None, None) \<Rightarrow> True
    | (Some x, Some y) \<Rightarrow> num_le x y \<and> num_le y x
    | _ \<Rightarrow> False)"

definition isDateMilliseconds :: "json option \<Rightarrow> bool" where
  "isDateMilliseconds v = (case v of
      Some (JNum n) \<Rightarrow> (case finite_of n of Some r \<Rightarrow> \<bar>r\<bar> \<le> MAX_DATE_MILLISECONDS | None \<Rightarrow> False)
    | _ \<Rightarrow> False)"

definition isDateMillisecondsOrAbsent :: "json option \<Rightarrow> bool" where
  "isDateMillisecondsOrAbsent v = (v = None \<or> isDateMilliseconds v)"

definition isDeviceSecondsOrAbsent :: "json option \<Rightarrow> bool" where
  "isDeviceSecondsOrAbsent v = (case v of
      None \<Rightarrow> True
    | Some (JNum n) \<Rightarrow> isDateMilliseconds (Some (JNum (millisecondsOf n)))
    | _ \<Rightarrow> False)"

definition isSafeCount :: "json option \<Rightarrow> bool" where
  "isSafeCount v = (case v of
      Some (JNum n) \<Rightarrow> num_isInteger n
        \<and> (case finite_of n of Some r \<Rightarrow> 0 \<le> r \<and> r < 2 ^ 53 | None \<Rightarrow> False)
    | _ \<Rightarrow> False)"

text \<open>\<open>typeof value === 'object' && value !== null\<close>: arrays pass.\<close>

definition is_object :: "json option \<Rightarrow> bool" where
  "is_object v = (case v of Some (JObj m) \<Rightarrow> True | Some (JArr xs) \<Rightarrow> True | _ \<Rightarrow> False)"

definition isPumpObservation :: "json option \<Rightarrow> bool" where
  "isPumpObservation v =
    (is_object v \<and>
     isDateMilliseconds (prop_of v ''observationStartedAt'') \<and>
     isSafeCount (prop_of v ''activationCount'') \<and>
     isDateMillisecondsOrAbsent (prop_of v ''lastActivationAt'') \<and>
     (prop_of v ''lastActivationWasTestActivity'' = None
      \<or> is_bool (prop_of v ''lastActivationWasTestActivity'')))"

definition isActivationWatermarks :: "json option \<Rightarrow> bool" where
  "isActivationWatermarks v =
    (is_object v \<and>
     isDeviceSecondsOrAbsent (prop_of v ''backupPumpTimestamp'') \<and>
     isDeviceSecondsOrAbsent (prop_of v ''testTimestamp'') \<and>
     (prop_of v ''backupEdgeAwaitingTimestamp'' = None
      \<or> prop_of v ''backupEdgeAwaitingTimestamp'' = Some (JBool True)))"

section \<open>Reading the stored members\<close>

definition num_at :: "json option \<Rightarrow> string \<Rightarrow> jsnum option" where
  "num_at v k = (case prop_of v k of Some (JNum n) \<Rightarrow> Some n | _ \<Rightarrow> None)"

definition pump_of_json :: "json option \<Rightarrow> pumpObservation" where
  "pump_of_json v =
    \<lparr>po_observationStartedAt = (case num_at v ''observationStartedAt'' of Some n \<Rightarrow> n | None \<Rightarrow> NaN),
     po_activationCount = (case num_at v ''activationCount'' of
         Some n \<Rightarrow> (case finite_of n of Some r \<Rightarrow> nat \<lfloor>r\<rfloor> | None \<Rightarrow> 0) | None \<Rightarrow> 0),
     po_lastActivationAt = num_at v ''lastActivationAt'',
     po_lastActivationWasTestActivity = (case prop_of v ''lastActivationWasTestActivity'' of
         Some (JBool b) \<Rightarrow> Some b | _ \<Rightarrow> None)\<rparr>"

definition watermarks_of_json :: "json option \<Rightarrow> activationWatermarks" where
  "watermarks_of_json v =
    \<lparr>aw_backupPumpTimestamp = num_at v ''backupPumpTimestamp'',
     aw_testTimestamp = num_at v ''testTimestamp'',
     aw_backupEdgeAwaitingTimestamp =
       (prop_of v ''backupEdgeAwaitingTimestamp'' = Some (JBool True))\<rparr>"

definition resumedRecord :: "pumpRecordsContext \<Rightarrow> log_line list \<times> storedRecord option" where
  "resumedRecord c =
    (if px_primaryPump c = None \<and> px_backupPump c = None \<and> px_watermarks c = None then ([], None)
     else if \<not> isPumpObservation (px_primaryPump c) \<or> \<not> isPumpObservation (px_backupPump c)
          \<or> \<not> isActivationWatermarks (px_watermarks c)
     then ([LWarn ''The stored pump observation record could not be read, so observation starts again from now.''],
           None)
     else ([], Some \<lparr>sr_primaryPump = pump_of_json (px_primaryPump c),
                     sr_backupPump = pump_of_json (px_backupPump c),
                     sr_watermarks = watermarks_of_json (px_watermarks c)\<rparr>))"

definition createPumpRecords :: "pumpRecordsContext \<Rightarrow> log_line list \<times> pumpRecords" where
  "createPumpRecords c =
    (let (logs, r) = resumedRecord c
     in (logs, \<lparr>pr_record = r, pr_previousPrimaryRunning = None, pr_previousBackupRunning = None,
               pr_previousDeviceTimes = \<lparr>pt_backupActivatedAt = None, pt_testedAt = None\<rparr>,
               pr_pendingPersist = False\<rparr>))"

section \<open>One observation\<close>

definition watchedAnActivation :: "bool option \<Rightarrow> bool option \<Rightarrow> bool" where
  "watchedAnActivation previousRunning reportedRunning =
    (previousRunning = Some False \<and> reportedRunning = Some True)"

definition rememberedRunning :: "bool option \<Rightarrow> bool option \<Rightarrow> bool option" where
  "rememberedRunning previousRunning reportedRunning =
    (case reportedRunning of Some r \<Rightarrow> Some r | None \<Rightarrow> previousRunning)"

definition evidencesAMissedActivation :: "jsnum option \<Rightarrow> jsnum option \<Rightarrow> bool" where
  "evidencesAMissedActivation mark reportedAt = (case reportedAt of
      None \<Rightarrow> False
    | Some r \<Rightarrow> (case mark of None \<Rightarrow> True | Some w \<Rightarrow> num_lt w r))"

definition classifiedAsTestActivity ::
  "pumpRecordsObservation \<Rightarrow> previousDeviceTimes \<Rightarrow> bool option" where
  "classifiedAsTestActivity ob previous =
    (case (ob_backupActivatedAt ob, ob_testedAt ob) of
       (Some b, Some t) \<Rightarrow>
         if ob_testRunning ob \<noteq> Some False then None
         else if \<not> num_same (pt_backupActivatedAt previous) (Some b)
              \<or> \<not> num_same (pt_testedAt previous) (Some t) then None
         else Some (num_le b t)
     | _ \<Rightarrow> None)"

definition countWatchedActivation :: "millis \<Rightarrow> pumpObservation \<Rightarrow> pumpObservation" where
  "countWatchedActivation receivedAt p =
    p\<lparr>po_activationCount := js_incr (po_activationCount p), po_lastActivationAt := Some (Fin receivedAt)\<rparr>"

definition dropTestActivityLabel :: "pumpObservation \<Rightarrow> pumpObservation" where
  "dropTestActivityLabel p = p\<lparr>po_lastActivationWasTestActivity := None\<rparr>"

definition pump_seed :: "millis \<Rightarrow> storedRecord" where
  "pump_seed receivedAt =
    (let pump = \<lparr>po_observationStartedAt = Fin receivedAt, po_activationCount = 0,
                 po_lastActivationAt = None, po_lastActivationWasTestActivity = None\<rparr>
     in \<lparr>sr_primaryPump = pump, sr_backupPump = pump,
         sr_watermarks = \<lparr>aw_backupPumpTimestamp = None, aw_testTimestamp = None,
                          aw_backupEdgeAwaitingTimestamp = False\<rparr>\<rparr>)"

definition reconcileBackupTimestamp ::
  "jsnum option \<Rightarrow> storedRecord \<Rightarrow> bool \<times> storedRecord" where
  "reconcileBackupTimestamp reportedAt stored =
    (let w = sr_watermarks stored in
     if \<not> evidencesAMissedActivation (aw_backupPumpTimestamp w) reportedAt then (False, stored)
     else
       let seedingTheFirstWatermark = (aw_backupPumpTimestamp w = None);
           w' = w\<lparr>aw_backupPumpTimestamp := reportedAt\<rparr>
       in if seedingTheFirstWatermark \<or> aw_backupEdgeAwaitingTimestamp w
          then (True, stored\<lparr>sr_watermarks := w'\<lparr>aw_backupEdgeAwaitingTimestamp := False\<rparr>\<rparr>)
          else (True, stored\<lparr>sr_watermarks := w',
                  sr_backupPump := dropTestActivityLabel
                    ((sr_backupPump stored)\<lparr>
                      po_activationCount := js_incr (po_activationCount (sr_backupPump stored)),
                      po_lastActivationAt := map_option millisecondsOf reportedAt\<rparr>)\<rparr>))"

definition reconcileClassification ::
  "previousDeviceTimes \<Rightarrow> pumpRecordsObservation \<Rightarrow> storedRecord \<Rightarrow> bool \<times> storedRecord" where
  "reconcileClassification previous ob stored =
    (if aw_backupEdgeAwaitingTimestamp (sr_watermarks stored)
        \<or> po_lastActivationAt (sr_backupPump stored) = None then (False, stored)
     else case classifiedAsTestActivity ob previous of
         None \<Rightarrow> (False, stored)
       | Some classified \<Rightarrow>
           (po_lastActivationWasTestActivity (sr_backupPump stored) \<noteq> Some classified
              \<or> \<not> num_same (aw_testTimestamp (sr_watermarks stored)) (ob_testedAt ob),
            stored\<lparr>sr_backupPump :=
                     (sr_backupPump stored)\<lparr>po_lastActivationWasTestActivity := Some classified\<rparr>,
                   sr_watermarks := (sr_watermarks stored)\<lparr>aw_testTimestamp := ob_testedAt ob\<rparr>\<rparr>))"

definition countPrimaryEdge :: "bool option \<Rightarrow> pumpRecordsObservation \<Rightarrow> storedRecord \<Rightarrow> bool \<times> storedRecord" where
  "countPrimaryEdge previousRunning ob stored =
    (if watchedAnActivation previousRunning (ob_primaryRunning ob)
     then (True, stored\<lparr>sr_primaryPump := countWatchedActivation (ob_receivedAt ob) (sr_primaryPump stored)\<rparr>)
     else (False, stored))"

definition countBackupEdge :: "bool option \<Rightarrow> pumpRecordsObservation \<Rightarrow> storedRecord \<Rightarrow> bool \<times> storedRecord" where
  "countBackupEdge previousRunning ob stored =
    (if watchedAnActivation previousRunning (ob_backupRunning ob)
     then (True, stored\<lparr>sr_backupPump := dropTestActivityLabel
                   (countWatchedActivation (ob_receivedAt ob) (sr_backupPump stored)),
                 sr_watermarks := (sr_watermarks stored)\<lparr>aw_backupEdgeAwaitingTimestamp := True\<rparr>\<rparr>)
     else (False, stored))"

text \<open>The record after one observation, and whether a stored value changed.\<close>

definition reconciled :: "pumpRecordsObservation \<Rightarrow> pumpRecords \<Rightarrow> bool \<times> storedRecord" where
  "reconciled ob s =
    (let (c0, r0) = (case pr_record s of
             None \<Rightarrow> (True, pump_seed (ob_receivedAt ob)) | Some r \<Rightarrow> (False, r));
         (c1, r1) = countPrimaryEdge (pr_previousPrimaryRunning s) ob r0;
         (c2, r2) = reconcileBackupTimestamp (ob_backupActivatedAt ob) r1;
         (c3, r3) = countBackupEdge (pr_previousBackupRunning s) ob r2;
         (c4, r4) = reconcileClassification (pr_previousDeviceTimes s) ob r3
     in (c0 \<or> c1 \<or> c2 \<or> c3 \<or> c4, r4))"

datatype persistOutcome = NotAsked | Persisted | PersistThrew

definition pump_observe ::
  "bool \<Rightarrow> pumpRecordsObservation \<Rightarrow> pumpRecords \<Rightarrow> persistOutcome \<times> pumpRecords" where
  "pump_observe persistOk ob s =
    (let (changed, r) = reconciled ob s;
         pending = (pr_pendingPersist s \<or> changed);
         outcome = (if \<not> pending then NotAsked else if persistOk then Persisted else PersistThrew)
     in (outcome,
         \<lparr>pr_record = Some r,
          pr_previousPrimaryRunning = rememberedRunning (pr_previousPrimaryRunning s) (ob_primaryRunning ob),
          pr_previousBackupRunning = rememberedRunning (pr_previousBackupRunning s) (ob_backupRunning ob),
          pr_previousDeviceTimes = \<lparr>pt_backupActivatedAt = ob_backupActivatedAt ob,
                                    pt_testedAt = ob_testedAt ob\<rparr>,
          pr_pendingPersist = (outcome = PersistThrew)\<rparr>))"

text \<open>Reading a pump's record before anything was observed throws.\<close>

definition recordValues :: "pumpObservation option \<Rightarrow> js_error + pumpObservation" where
  "recordValues p = (case p of
      None \<Rightarrow> Inl (PlainError ''a pump record was read before anything was observed; the accessory observes a snapshot before it publishes one'')
    | Some v \<Rightarrow> Inr v)"

definition primary_values :: "pumpRecords \<Rightarrow> js_error + pumpObservation" where
  "primary_values s = recordValues (map_option sr_primaryPump (pr_record s))"

definition backup_values :: "pumpRecords \<Rightarrow> js_error + pumpObservation" where
  "backup_values s = recordValues (map_option sr_backupPump (pr_record s))"

section \<open>Counting edges\<close>

definition observe_run :: "(bool \<times> pumpRecordsObservation) list \<Rightarrow> pumpRecords \<Rightarrow> pumpRecords" where
  "observe_run os s = fold (\<lambda>(ok, ob) s. snd (pump_observe ok ob s)) os s"

text \<open>The moments at which a sequence of decoded running values goes from \<open>false\<close> to \<open>true\<close>.\<close>

fun rising_edges :: "bool list \<Rightarrow> nat" where
  "rising_edges (a # b # xs) = (if \<not> a \<and> b then 1 else 0) + rising_edges (b # xs)"
| "rising_edges _ = 0"

definition decoded_primary :: "(bool \<times> pumpRecordsObservation) list \<Rightarrow> bool list" where
  "decoded_primary os = List.map_filter (\<lambda>(ok, ob). ob_primaryRunning ob) os"

lemma js_incr_power: "n \<le> js_count_limit \<Longrightarrow> (js_incr ^^ k) n = min js_count_limit (n + k)"
proof (induction k)
  case (Suc k)
  then have "(js_incr ^^ Suc k) n = js_incr (min js_count_limit (n + k))" by simp
  also have "\<dots> = min js_count_limit (n + Suc k)" by (simp add: js_incr_limit)
  finally show ?case .
qed simp

lemma reconcile_primary_frame:
  "sr_primaryPump (snd (reconcileBackupTimestamp t r)) = sr_primaryPump r"
  "sr_primaryPump (snd (countBackupEdge p ob r)) = sr_primaryPump r"
  "sr_primaryPump (snd (reconcileClassification pt ob r)) = sr_primaryPump r"
  by (simp_all add: reconcileBackupTimestamp_def countBackupEdge_def reconcileClassification_def
      Let_def split: option.splits)

definition base_record :: "millis \<Rightarrow> pumpRecords \<Rightarrow> storedRecord" where
  "base_record t s = (case pr_record s of None \<Rightarrow> pump_seed t | Some r \<Rightarrow> r)"

definition start_count :: "pumpRecords \<Rightarrow> nat" where
  "start_count s = (case pr_record s of None \<Rightarrow> 0 | Some r \<Rightarrow> po_activationCount (sr_primaryPump r))"

lemma observe_primary:
  "start_count (snd (pump_observe ok ob s)) =
    (if watchedAnActivation (pr_previousPrimaryRunning s) (ob_primaryRunning ob)
     then js_incr (start_count s) else start_count s)"
  "pr_previousPrimaryRunning (snd (pump_observe ok ob s)) =
    rememberedRunning (pr_previousPrimaryRunning s) (ob_primaryRunning ob)"
  by (auto simp: pump_observe_def reconciled_def start_count_def Let_def split_beta
      reconcile_primary_frame countPrimaryEdge_def countWatchedActivation_def pump_seed_def
      split: option.splits)

lemma observe_run_primary:
  "start_count (observe_run os s) =
    (js_incr ^^ rising_edges ((case pr_previousPrimaryRunning s of None \<Rightarrow> [] | Some b \<Rightarrow> [b])
      @ decoded_primary os)) (start_count s)"
proof (induction os arbitrary: s)
  case Nil
  then show ?case by (simp add: observe_run_def decoded_primary_def split: option.splits)
next
  case (Cons o' os)
  obtain ok ob where o: "o' = (ok, ob)" by force
  have "observe_run (o' # os) s = observe_run os (snd (pump_observe ok ob s))"
    by (simp add: observe_run_def o)
  then show ?case
    using Cons.IH [of "snd (pump_observe ok ob s)"]
    by (auto simp: observe_primary o decoded_primary_def List.map_filter_simps rememberedRunning_def
        watchedAnActivation_def funpow_swap1 split: option.splits)
qed

lemma created_primary:
  "pr_previousPrimaryRunning (snd (createPumpRecords c)) = None"
  "start_count (snd (createPumpRecords c)) \<le> js_count_limit"
proof -
  show "pr_previousPrimaryRunning (snd (createPumpRecords c)) = None"
    by (simp add: createPumpRecords_def split: prod.splits)
  have "nat \<lfloor>r\<rfloor> \<le> js_count_limit" if "0 \<le> r" "r < 2 ^ 53" for r :: rat
    using that by (simp add: js_count_limit_def nat_le_iff floor_le_iff)
  then show "start_count (snd (createPumpRecords c)) \<le> js_count_limit"
    by (auto simp: createPumpRecords_def resumedRecord_def start_count_def pump_of_json_def
        isPumpObservation_def isSafeCount_def num_at_def split: option.splits json.splits prod.splits)
qed

text \<open>
  C18. The primary count is the activations the plugin watched: after any observations the count is
  the one resumed from the stored record, or zero, plus the moments the decoded running value went
  from \<open>false\<close> to \<open>true\<close>, up to the largest count a double can step to. A run already in progress
  at the first observation is not counted, and undecoded values neither count nor hide an edge.
\<close>

theorem primary_count_is_watched_edges:
  "start_count (observe_run os (snd (createPumpRecords c)))
    = min js_count_limit (start_count (snd (createPumpRecords c)) + rising_edges (decoded_primary os))"
  using observe_run_primary [of os "snd (createPumpRecords c)"] created_primary [of c]
  by (simp add: js_incr_power)

section \<open>One physical run, one count\<close>

text \<open>What the backup rules act on: the count, the watermark, the awaiting mark, the last value.\<close>

record backupView =
  bv_count :: nat
  bv_watermark :: "jsnum option"
  bv_awaiting :: bool
  bv_previous :: "bool option"

definition record_view :: "bool option \<Rightarrow> storedRecord \<Rightarrow> backupView" where
  "record_view previous r = \<lparr>bv_count = po_activationCount (sr_backupPump r),
     bv_watermark = aw_backupPumpTimestamp (sr_watermarks r),
     bv_awaiting = aw_backupEdgeAwaitingTimestamp (sr_watermarks r),
     bv_previous = previous\<rparr>"

definition backup_view :: "pumpRecords \<Rightarrow> backupView option" where
  "backup_view s = map_option (record_view (pr_previousBackupRunning s)) (pr_record s)"

definition take_timestamp :: "jsnum option \<Rightarrow> backupView \<Rightarrow> backupView" where
  "take_timestamp t v =
    (if \<not> evidencesAMissedActivation (bv_watermark v) t then v
     else if bv_watermark v = None \<or> bv_awaiting v
          then v\<lparr>bv_watermark := t, bv_awaiting := False\<rparr>
          else v\<lparr>bv_watermark := t, bv_count := js_incr (bv_count v)\<rparr>)"

definition take_running :: "bool option \<Rightarrow> backupView \<Rightarrow> backupView" where
  "take_running b v =
    (if watchedAnActivation (bv_previous v) b
     then v\<lparr>bv_count := js_incr (bv_count v), bv_awaiting := True, bv_previous := Some True\<rparr>
     else v\<lparr>bv_previous := rememberedRunning (bv_previous v) b\<rparr>)"

definition view_step :: "pumpRecordsObservation \<Rightarrow> backupView \<Rightarrow> backupView" where
  "view_step ob v = take_running (ob_backupRunning ob) (take_timestamp (ob_backupActivatedAt ob) v)"

lemma record_view_steps:
  "record_view p (snd (countPrimaryEdge q ob r)) = record_view p r"
  "record_view p (snd (reconcileBackupTimestamp t r)) = take_timestamp t (record_view p r)"
  "record_view (rememberedRunning p (ob_backupRunning ob)) (snd (countBackupEdge p ob r))
    = take_running (ob_backupRunning ob) (record_view p r)"
  "record_view p (snd (reconcileClassification pt ob r)) = record_view p r"
  by (simp_all add: record_view_def countPrimaryEdge_def reconcileBackupTimestamp_def take_timestamp_def
      countBackupEdge_def take_running_def reconcileClassification_def Let_def
      countWatchedActivation_def dropTestActivityLabel_def watchedAnActivation_def
      rememberedRunning_def split: option.splits)

lemma reconciled_record:
  "snd (reconciled ob s) = snd (reconcileClassification (pr_previousDeviceTimes s) ob
    (snd (countBackupEdge (pr_previousBackupRunning s) ob
      (snd (reconcileBackupTimestamp (ob_backupActivatedAt ob)
        (snd (countPrimaryEdge (pr_previousPrimaryRunning s) ob (base_record (ob_receivedAt ob) s))))))))"
  by (simp add: reconciled_def base_record_def Let_def split_beta split: option.splits)

lemma backup_view_step:
  assumes "backup_view s = Some v"
  shows "backup_view (snd (pump_observe ok ob s)) = Some (view_step ob v)"
proof -
  obtain r where r: "pr_record s = Some r" "v = record_view (pr_previousBackupRunning s) r"
    using assms by (auto simp: backup_view_def)
  have "backup_view (snd (pump_observe ok ob s)) =
      Some (record_view (rememberedRunning (pr_previousBackupRunning s) (ob_backupRunning ob))
        (snd (reconciled ob s)))"
    by (simp add: backup_view_def pump_observe_def split_beta)
  then show ?thesis
    unfolding reconciled_record record_view_steps view_step_def r(2)
    by (simp add: base_record_def r(1))
qed

lemma backup_view_run:
  "backup_view s = Some v \<Longrightarrow>
    backup_view (observe_run os s) = Some (fold (\<lambda>(ok, ob). view_step ob) os v)"
proof (induction os arbitrary: s v)
  case (Cons o' os)
  obtain ok ob where o: "o' = (ok, ob)" by force
  show ?case
    using Cons.IH [OF backup_view_step [OF Cons.prems, of ok ob]] by (simp add: observe_run_def o)
qed (simp add: observe_run_def)

text \<open>
  One physical backup run as the polls can show it, against the device time \<open>w\<close> of the run before
  it. A watched run is seen to start, then to run, then to have stopped; its own time \<open>t\<close> shows for
  the first time at any poll after the first, while the pump still runs, when it is seen stopped or
  any number of polls after that, and polls in between may have failed to decode. A missed run
  happened between two observations and shows only as its time. Any number of further polls may
  repeat each state.
\<close>

datatype pumpRun = WatchedRun jsnum | MissedRun jsnum

definition no_advance :: "jsnum \<Rightarrow> pumpRecordsObservation \<Rightarrow> bool" where
  "no_advance w ob = (\<not> evidencesAMissedActivation (Some w) (ob_backupActivatedAt ob))"

definition runs_then_stops :: "pumpRecordsObservation list \<Rightarrow> bool" where
  "runs_then_stops obs = (\<exists>on off. obs = on @ off
     \<and> (\<forall>ob \<in> set on. ob_backupRunning ob \<noteq> Some False)
     \<and> (\<forall>ob \<in> set off. ob_backupRunning ob \<noteq> Some True)
     \<and> (\<exists>ob \<in> set off. ob_backupRunning ob = Some False))"

fun run_shows :: "jsnum \<Rightarrow> pumpRun \<Rightarrow> pumpRecordsObservation list \<Rightarrow> bool" where
  "run_shows w (WatchedRun t) obs = (num_lt w t \<and> (\<exists>edge before stamp after.
      obs = edge # before @ stamp # after
      \<and> ob_backupRunning edge = Some True \<and> no_advance w edge
      \<and> runs_then_stops (before @ stamp # after)
      \<and> (\<forall>ob \<in> set before. no_advance w ob)
      \<and> ob_backupActivatedAt stamp = Some t
      \<and> (\<forall>ob \<in> set after. no_advance t ob)))"
| "run_shows w (MissedRun t) obs = (num_lt w t \<and> (\<exists>stamp after.
      obs = stamp # after
      \<and> (\<forall>ob \<in> set obs. ob_backupRunning ob \<noteq> Some True)
      \<and> ob_backupActivatedAt stamp = Some t
      \<and> (\<forall>ob \<in> set after. no_advance t ob)))"

fun run_time :: "pumpRun \<Rightarrow> jsnum" where
  "run_time (WatchedRun t) = t"
| "run_time (MissedRun t) = t"

fun runs_show :: "jsnum \<Rightarrow> pumpRun list \<Rightarrow> pumpRecordsObservation list \<Rightarrow> bool" where
  "runs_show w [] obs = (obs = [])"
| "runs_show w (run # runs) obs =
    (\<exists>now later. obs = now @ later \<and> run_shows w run now \<and> runs_show (run_time run) runs later)"

definition quiet_view :: "nat \<Rightarrow> jsnum \<Rightarrow> backupView" where
  "quiet_view n w = \<lparr>bv_count = n, bv_watermark = Some w, bv_awaiting = False, bv_previous = Some False\<rparr>"

text \<open>What a sequence of polls without a rising edge leaves as the remembered value.\<close>

fun last_running :: "bool option \<Rightarrow> pumpRecordsObservation list \<Rightarrow> bool option" where
  "last_running p [] = p"
| "last_running p (ob # obs) = last_running (rememberedRunning p (ob_backupRunning ob)) obs"

fun no_edge :: "bool option \<Rightarrow> pumpRecordsObservation list \<Rightarrow> bool" where
  "no_edge p [] = True"
| "no_edge p (ob # obs) = (\<not> watchedAnActivation p (ob_backupRunning ob)
     \<and> no_edge (rememberedRunning p (ob_backupRunning ob)) obs)"

lemma over_append:
  "last_running p (xs @ ys) = last_running (last_running p xs) ys"
  "no_edge p (xs @ ys) \<longleftrightarrow> no_edge p xs \<and> no_edge (last_running p xs) ys"
  by (induction xs arbitrary: p) auto

lemma running_on:
  "\<forall>ob \<in> set obs. ob_backupRunning ob \<noteq> Some False
    \<Longrightarrow> no_edge (Some True) obs \<and> last_running (Some True) obs = Some True"
  by (induction obs) (auto simp: watchedAnActivation_def rememberedRunning_def split: option.splits)

lemma running_off:
  "\<forall>ob \<in> set obs. ob_backupRunning ob \<noteq> Some True
    \<Longrightarrow> no_edge p obs \<and> last_running p obs
      = (if \<exists>ob \<in> set obs. ob_backupRunning ob = Some False then Some False else p)"
proof (induction obs arbitrary: p)
  case (Cons ob obs)
  then show ?case
    using Cons.IH [of "rememberedRunning p (ob_backupRunning ob)"]
    by (cases "ob_backupRunning ob") (auto simp: watchedAnActivation_def rememberedRunning_def)
qed simp

lemma runs_then_stops_view:
  assumes "runs_then_stops obs"
  shows "no_edge (Some True) obs \<and> last_running (Some True) obs = Some False"
  using assms by (auto simp: runs_then_stops_def over_append running_on running_off)

lemma view_still:
  "no_edge p obs \<Longrightarrow> \<forall>ob \<in> set obs. no_advance w ob
    \<Longrightarrow> fold view_step obs \<lparr>bv_count = n, bv_watermark = Some w, bv_awaiting = a, bv_previous = p\<rparr>
      = \<lparr>bv_count = n, bv_watermark = Some w, bv_awaiting = a, bv_previous = last_running p obs\<rparr>"
  by (induction obs arbitrary: p)
    (auto simp: view_step_def take_timestamp_def take_running_def no_advance_def)

lemma view_stamp:
  assumes "\<not> watchedAnActivation p (ob_backupRunning ob)" and "ob_backupActivatedAt ob = Some t"
    and "num_lt w t"
  shows "view_step ob \<lparr>bv_count = n, bv_watermark = Some w, bv_awaiting = a, bv_previous = p\<rparr>
    = \<lparr>bv_count = (if a then n else js_incr n), bv_watermark = Some t, bv_awaiting = False,
       bv_previous = rememberedRunning p (ob_backupRunning ob)\<rparr>"
  using assms
  by (simp add: view_step_def take_timestamp_def take_running_def evidencesAMissedActivation_def)

text \<open>The polls that follow the start of a run, or that find a missed one: one new time, no new edge.\<close>

lemma view_one_stamp:
  assumes "no_edge p (before @ stamp # after)" and "\<forall>ob \<in> set before. no_advance w ob"
    and "ob_backupActivatedAt stamp = Some t" and "num_lt w t" and "\<forall>ob \<in> set after. no_advance t ob"
  shows "fold view_step (before @ stamp # after)
      \<lparr>bv_count = n, bv_watermark = Some w, bv_awaiting = a, bv_previous = p\<rparr>
    = \<lparr>bv_count = (if a then n else js_incr n), bv_watermark = Some t, bv_awaiting = False,
       bv_previous = last_running p (before @ stamp # after)\<rparr>"
  using assms by (simp add: over_append view_still view_stamp)

lemma view_run:
  assumes "run_shows w run obs"
  shows "fold view_step obs (quiet_view n w) = quiet_view (js_incr n) (run_time run)"
proof (cases run)
  case (WatchedRun t)
  then obtain edge before stamp "after" where obs: "obs = edge # before @ stamp # after"
    and edge: "ob_backupRunning edge = Some True" "no_advance w edge"
    and stops: "runs_then_stops (before @ stamp # after)"
    and stamp: "\<forall>ob \<in> set before. no_advance w ob" "ob_backupActivatedAt stamp = Some t"
      "num_lt w t" "\<forall>ob \<in> set after. no_advance t ob"
    using assms by auto
  have "view_step edge (quiet_view n w) = \<lparr>bv_count = js_incr n, bv_watermark = Some w,
      bv_awaiting = True, bv_previous = Some True\<rparr>"
    using edge by (simp add: view_step_def take_timestamp_def take_running_def quiet_view_def
        no_advance_def watchedAnActivation_def)
  then show ?thesis
    using view_one_stamp [OF _ stamp, of "Some True" "js_incr n" True] runs_then_stops_view [OF stops]
    by (simp add: obs WatchedRun quiet_view_def)
next
  case (MissedRun t)
  then obtain stamp "after" where obs: "obs = stamp # after"
    and stamp: "ob_backupActivatedAt stamp = Some t" "num_lt w t" "\<forall>ob \<in> set after. no_advance t ob"
    and off: "\<forall>ob \<in> set (stamp # after). ob_backupRunning ob \<noteq> Some True"
    using assms by auto
  show ?thesis
    using view_one_stamp [OF _ _ stamp, of "Some False" "[]" n False] running_off [OF off, of "Some False"]
    by (simp add: obs MissedRun quiet_view_def split: if_splits)
qed

lemma view_runs:
  "runs_show w runs obs \<Longrightarrow> \<exists>t. fold view_step obs (quiet_view n w)
    = quiet_view ((js_incr ^^ length runs) n) t"
proof (induction runs arbitrary: w obs n)
  case (Cons run runs)
  then obtain now later where obs: "obs = now @ later" and now: "run_shows w run now"
    and later: "runs_show (run_time run) runs later" by auto
  obtain t where "fold view_step later (quiet_view (js_incr n) (run_time run))
      = quiet_view ((js_incr ^^ length runs) (js_incr n)) t"
    using Cons.IH [OF later] by blast
  then show ?case
    by (intro exI [of _ t]) (simp add: obs view_run [OF now] funpow_swap1)
qed auto

text \<open>
  C9. One physical run of the backup pump is one activation: starting from a record with a watermark
  and nothing awaited, for any sequence of runs in which the device publishes the time of each run
  before the next run shows, some watched and some missed between polls, with any number of repeated
  or undecoded polls, the count advances by exactly the number of runs. The device's own time of a
  watched run does not count it again however long after the stop it appears, and a missed run is
  recovered from its time.
\<close>

theorem one_run_one_count:
  assumes "backup_view s = Some (quiet_view n w)" and "n \<le> js_count_limit"
    and "runs_show w runs (map snd os)"
  shows "map_option bv_count (backup_view (observe_run os s))
    = Some (min js_count_limit (n + length runs))"
proof -
  have "fold (\<lambda>(ok, ob). view_step ob) os v = fold view_step (map snd os) v" for v
    by (induction os arbitrary: v) auto
  then show ?thesis
    using view_runs [OF assms(3), of n] backup_view_run [OF assms(1), of os] js_incr_power [OF assms(2)]
    by (auto simp: quiet_view_def)
qed

definition demo_ob :: "bool \<Rightarrow> rat \<Rightarrow> pumpRecordsObservation" where
  "demo_ob running t = \<lparr>ob_receivedAt = 1000 * t, ob_primaryRunning = None,
     ob_backupRunning = Some running, ob_backupActivatedAt = Some (Fin t),
     ob_testRunning = None, ob_testedAt = None\<rparr>"

definition demo_records :: pumpRecords where
  "demo_records = observe_run [(True, demo_ob False 5)]
     (snd (createPumpRecords \<lparr>px_primaryPump = None, px_backupPump = None, px_watermarks = None\<rparr>))"

lemma demo_records_view: "backup_view demo_records = Some (quiet_view 0 (Fin 5))"
  by code_simp

definition demo_run_polls :: "pumpRecordsObservation list" where
  "demo_run_polls = [demo_ob True 5, demo_ob True 5, demo_ob False 5, demo_ob False 8, demo_ob False 9]"

theorem one_run_one_count_witness:
  "map_option bv_count (backup_view (observe_run
      (zip [True, False, True, True, True] demo_run_polls) demo_records)) = Some 2"
proof -
  have w: "run_shows (Fin 5) (WatchedRun (Fin 8))
      [demo_ob True 5, demo_ob True 5, demo_ob False 5, demo_ob False 8]"
    unfolding run_shows.simps runs_then_stops_def
    by (intro conjI exI [of _ "demo_ob True 5"] exI [of _ "[demo_ob True 5, demo_ob False 5]"]
        exI [of _ "demo_ob False 8"] exI [of _ "[]"] exI [of _ "[demo_ob True 5]"]
        exI [of _ "[demo_ob False 5, demo_ob False 8]"])
      (simp_all add: demo_ob_def no_advance_def evidencesAMissedActivation_def)
  moreover have "run_shows (Fin 8) (MissedRun (Fin 9)) [demo_ob False 9]"
    by (simp add: demo_ob_def)
  moreover have "demo_run_polls = [demo_ob True 5, demo_ob True 5, demo_ob False 5, demo_ob False 8]
      @ [demo_ob False 9] @ []" by (simp add: demo_run_polls_def)
  ultimately have "runs_show (Fin 5) [WatchedRun (Fin 8), MissedRun (Fin 9)] demo_run_polls"
    unfolding runs_show.simps run_time.simps by (metis append_Nil2 run_time.simps(1))
  then have runs: "runs_show (Fin 5) [WatchedRun (Fin 8), MissedRun (Fin 9)]
      (map snd (zip [True, False, True, True, True] demo_run_polls))"
    by (simp add: demo_run_polls_def)
  have "min js_count_limit (Suc (Suc 0)) = 2"
    by (simp add: js_count_limit_def)
  then show ?thesis
    using one_run_one_count [OF demo_records_view _ runs] by simp
qed

section \<open>Repeated observations and restarts\<close>

definition numbers_ok :: "pumpRecordsObservation \<Rightarrow> bool" where
  "numbers_ok ob = (ob_backupActivatedAt ob \<noteq> Some NaN \<and> ob_testedAt ob \<noteq> Some NaN)"

lemma num_le_refl: "n \<noteq> NaN \<Longrightarrow> num_le n n"
  by (cases n) auto

lemma num_same_refl: "a \<noteq> Some NaN \<Longrightarrow> num_same a a"
  by (cases a) (auto simp: num_same_def intro: num_le_refl)

lemma no_edge_after: "\<not> watchedAnActivation (rememberedRunning p r) r"
  by (auto simp: watchedAnActivation_def rememberedRunning_def split: option.splits)

lemma remembered_again [simp]: "rememberedRunning (rememberedRunning p r) r = rememberedRunning p r"
  by (simp add: rememberedRunning_def split: option.splits)

text \<open>The state right after an observation: no edge and no new timestamp in seeing it again.\<close>

definition absorbed :: "pumpRecordsObservation \<Rightarrow> pumpRecords \<Rightarrow> bool" where
  "absorbed ob s = (\<exists>r. pr_record s = Some r
    \<and> \<not> watchedAnActivation (pr_previousPrimaryRunning s) (ob_primaryRunning ob)
    \<and> \<not> watchedAnActivation (pr_previousBackupRunning s) (ob_backupRunning ob)
    \<and> rememberedRunning (pr_previousPrimaryRunning s) (ob_primaryRunning ob) = pr_previousPrimaryRunning s
    \<and> rememberedRunning (pr_previousBackupRunning s) (ob_backupRunning ob) = pr_previousBackupRunning s
    \<and> \<not> evidencesAMissedActivation (aw_backupPumpTimestamp (sr_watermarks r)) (ob_backupActivatedAt ob)
    \<and> pr_previousDeviceTimes s = \<lparr>pt_backupActivatedAt = ob_backupActivatedAt ob, pt_testedAt = ob_testedAt ob\<rparr>)"

lemma watermark_after:
  "\<not> evidencesAMissedActivation (aw_backupPumpTimestamp (sr_watermarks (snd (reconcileBackupTimestamp t r)))) t"
  by (auto simp: reconcileBackupTimestamp_def Let_def evidencesAMissedActivation_def split: option.splits)

lemma watermark_frame:
  "aw_backupPumpTimestamp (sr_watermarks (snd (countBackupEdge p ob r))) = aw_backupPumpTimestamp (sr_watermarks r)"
  "aw_backupPumpTimestamp (sr_watermarks (snd (reconcileClassification pt ob r)))
    = aw_backupPumpTimestamp (sr_watermarks r)"
  by (simp_all add: countBackupEdge_def reconcileClassification_def split: option.splits)

lemma observe_absorbs: "absorbed ob (snd (pump_observe ok ob s))"
  using watermark_after
  by (simp add: absorbed_def pump_observe_def split_beta reconciled_record watermark_frame no_edge_after)

lemma absorbed_reconciled:
  assumes "absorbed ob s" and "pr_record s = Some r"
  shows "reconciled ob s = reconcileClassification
    \<lparr>pt_backupActivatedAt = ob_backupActivatedAt ob, pt_testedAt = ob_testedAt ob\<rparr> ob r"
  using assms
  by (auto simp: absorbed_def reconciled_def countPrimaryEdge_def countBackupEdge_def
      reconcileBackupTimestamp_def Let_def split_beta)

lemma classification_idem:
  assumes "numbers_ok ob"
  shows "reconcileClassification pt ob (snd (reconcileClassification pt ob r))
    = (False, snd (reconcileClassification pt ob r))"
proof -
  have "num_same (ob_testedAt ob) (ob_testedAt ob)"
    using assms by (simp add: numbers_ok_def num_same_refl)
  then show ?thesis
    by (auto simp: reconcileClassification_def split: option.splits)
qed

text \<open>
  Seeing the same device state again changes nothing: once an observation has been taken in twice
  and its write went through, taking it in again, any number of times and whatever its receipt time,
  leaves every count, time, label and watermark as they are and asks for no write.
\<close>

theorem repeated_observation_is_idle:
  assumes "numbers_ok ob" and "fst (pump_observe True ob (snd (pump_observe ok ob s))) \<noteq> PersistThrew"
  defines "s2 \<equiv> snd (pump_observe True ob (snd (pump_observe ok ob s)))"
  shows "pump_observe ok' (ob\<lparr>ob_receivedAt := t\<rparr>) s2 = (NotAsked, s2)"
proof -
  let ?s1 = "snd (pump_observe ok ob s)" and ?pt = "\<lparr>pt_backupActivatedAt = ob_backupActivatedAt ob,
    pt_testedAt = ob_testedAt ob\<rparr>" and ?ob = "ob\<lparr>ob_receivedAt := t\<rparr>"
  obtain r1 where r1: "pr_record ?s1 = Some r1"
    using observe_absorbs [of ob ok s] by (auto simp: absorbed_def)
  obtain r2 where r2: "pr_record s2 = Some r2" "r2 = snd (reconcileClassification ?pt ob r1)"
    using absorbed_reconciled [OF observe_absorbs r1] by (simp add: s2_def pump_observe_def split_beta)
  have abs: "absorbed ?ob s2"
    using observe_absorbs [of ob True ?s1] by (simp add: absorbed_def s2_def)
  have cls: "reconcileClassification ?pt ?ob r2 = reconcileClassification ?pt ob r2"
    by (auto simp: reconcileClassification_def classifiedAsTestActivity_def split: option.splits)
  have same: "reconciled ?ob s2 = (False, r2)"
    using absorbed_reconciled [OF abs r2(1)] classification_idem [OF assms(1), of ?pt r1]
    by (simp add: cls flip: r2(2))
  have "\<not> pr_pendingPersist s2"
    using assms(2) by (simp add: s2_def pump_observe_def split_beta)
  then show ?thesis
    using abs r2(1) same by (auto simp: pump_observe_def absorbed_def)
qed

theorem repeated_observation_is_idle_witness:
  "\<exists>s2. pump_observe False ((demo_ob True 6)\<lparr>ob_receivedAt := 99\<rparr>) s2 = (NotAsked, s2)"
proof -
  have 1: "numbers_ok (demo_ob True 6)" by (simp add: numbers_ok_def demo_ob_def)
  have 2: "fst (pump_observe True (demo_ob True 6) (snd (pump_observe False (demo_ob True 6) demo_records)))
    \<noteq> PersistThrew"
    by (simp add: pump_observe_def split_beta)
  show ?thesis using repeated_observation_is_idle [OF 1 2] by blast
qed

text \<open>
  What Homebridge writes for the record: \<open>JSON.stringify\<close> leaves out an undefined member, and writes
  a number that is not finite as \<open>null\<close>.
\<close>

definition num_json :: "jsnum \<Rightarrow> json" where
  "num_json n = (case finite_of n of Some r \<Rightarrow> JNum (Fin r) | None \<Rightarrow> JNull)"

definition member :: "string \<Rightarrow> json option \<Rightarrow> jobj" where
  "member k v = (case v of None \<Rightarrow> [] | Some x \<Rightarrow> [(k, x)])"

definition pump_json :: "pumpObservation \<Rightarrow> json" where
  "pump_json p = JObj
    (member ''observationStartedAt'' (Some (num_json (po_observationStartedAt p)))
     @ member ''activationCount'' (Some (JNum (Fin (of_nat (po_activationCount p)))))
     @ member ''lastActivationAt'' (map_option num_json (po_lastActivationAt p))
     @ member ''lastActivationWasTestActivity'' (map_option JBool (po_lastActivationWasTestActivity p)))"

definition watermarks_json :: "activationWatermarks \<Rightarrow> json" where
  "watermarks_json w = JObj
    (member ''backupPumpTimestamp'' (map_option num_json (aw_backupPumpTimestamp w))
     @ member ''testTimestamp'' (map_option num_json (aw_testTimestamp w))
     @ member ''backupEdgeAwaitingTimestamp''
         (if aw_backupEdgeAwaitingTimestamp w then Some (JBool True) else None))"

definition record_context :: "storedRecord \<Rightarrow> pumpRecordsContext" where
  "record_context r =
    \<lparr>px_primaryPump = Some (pump_json (sr_primaryPump r)),
     px_backupPump = Some (pump_json (sr_backupPump r)),
     px_watermarks = Some (watermarks_json (sr_watermarks r))\<rparr>"

definition date_num :: "jsnum \<Rightarrow> bool" where
  "date_num n = (case n of Fin r \<Rightarrow> \<bar>r\<bar> \<le> MAX_DATE_MILLISECONDS | _ \<Rightarrow> False)"

definition date_seconds :: "jsnum \<Rightarrow> bool" where
  "date_seconds n = (case n of Fin r \<Rightarrow> \<bar>r * 1000\<bar> \<le> MAX_DATE_MILLISECONDS | _ \<Rightarrow> False)"

definition storable_pump :: "pumpObservation \<Rightarrow> bool" where
  "storable_pump p = (date_num (po_observationStartedAt p) \<and> po_activationCount p < 2 ^ 53
    \<and> (\<forall>n. po_lastActivationAt p = Some n \<longrightarrow> date_num n))"

definition storable :: "storedRecord \<Rightarrow> bool" where
  "storable r = (storable_pump (sr_primaryPump r) \<and> storable_pump (sr_backupPump r)
    \<and> (\<forall>n. aw_backupPumpTimestamp (sr_watermarks r) = Some n \<longrightarrow> date_seconds n)
    \<and> (\<forall>n. aw_testTimestamp (sr_watermarks r) = Some n \<longrightarrow> date_seconds n))"

lemma jm_get_member: "jm_get (member k v @ m) j = (if j = k \<and> v \<noteq> None then v else jm_get m j)"
  by (auto simp: member_def jm_get_def split: option.splits)

lemmas jm_get_member1 = jm_get_member [of k v "[]" j, simplified] for k v j

lemma date_num_json: "date_num n \<Longrightarrow> num_json n = JNum n \<and> isDateMilliseconds (Some (JNum n))"
  by (auto simp: date_num_def num_json_def isDateMilliseconds_def split: jsnum.splits)

lemma date_seconds_json: "date_seconds n \<Longrightarrow> num_json n = JNum n \<and> isDeviceSecondsOrAbsent (Some (JNum n))"
proof -
  assume "date_seconds n"
  then obtain r where n: "n = Fin r" and r: "\<bar>r * 1000\<bar> \<le> 8640000000000000"
    by (auto simp: date_seconds_def MAX_DATE_MILLISECONDS_def split: jsnum.splits)
  have "(8640000000000000::rat) < double_overflow"
    by (simp add: double_overflow_def)
  then have "millisecondsOf n = Fin (r * 1000)"
    using r unfolding n by (simp add: millisecondsOf_def MILLISECONDS_PER_SECOND_def Let_def abs_le_iff)
  then show ?thesis
    using r unfolding n
    by (simp add: num_json_def isDeviceSecondsOrAbsent_def isDateMilliseconds_def MAX_DATE_MILLISECONDS_def)
qed

lemma count_json:
  "n < 2 ^ 53 \<Longrightarrow> isSafeCount (Some (JNum (Fin (of_nat n)))) \<and> nat \<lfloor>(of_nat n :: rat)\<rfloor> = n"
proof -
  assume n: "n < 2 ^ 53"
  have "(of_nat n :: rat) < of_nat (2 ^ 53)"
    using n by (simp only: of_nat_less_iff)
  then show ?thesis
    by (simp add: isSafeCount_def num_isInteger_def)
qed

lemma pump_roundtrip:
  assumes "storable_pump p"
  shows "isPumpObservation (Some (pump_json p)) \<and> pump_of_json (Some (pump_json p)) = p"
proof -
  have s: "date_num (po_observationStartedAt p)" "po_activationCount p < 2 ^ 53"
    and l: "\<And>n. po_lastActivationAt p = Some n \<Longrightarrow> date_num n"
    using assms by (auto simp: storable_pump_def)
  let ?v = "Some (pump_json p)"
  have reads: "prop_of ?v ''observationStartedAt'' = Some (JNum (po_observationStartedAt p))"
    "prop_of ?v ''activationCount'' = Some (JNum (Fin (of_nat (po_activationCount p))))"
    "prop_of ?v ''lastActivationAt'' = map_option JNum (po_lastActivationAt p)"
    "prop_of ?v ''lastActivationWasTestActivity'' = map_option JBool (po_lastActivationWasTestActivity p)"
    using date_num_json [OF s(1)] date_num_json [OF l]
    by (auto simp: pump_json_def jm_get_member jm_get_member1)
  have "isPumpObservation ?v"
    using date_num_json [OF s(1)] count_json [OF s(2)] date_num_json [OF l]
    unfolding isPumpObservation_def reads
    by (cases "po_lastActivationAt p"; cases "po_lastActivationWasTestActivity p")
      (simp_all add: is_object_def pump_json_def isDateMillisecondsOrAbsent_def)
  moreover have "pump_of_json ?v = p"
    using count_json [OF s(2)] unfolding pump_of_json_def num_at_def reads
    by (auto split: option.splits)
  ultimately show ?thesis by simp
qed

lemma watermarks_roundtrip:
  assumes "\<And>n. aw_backupPumpTimestamp w = Some n \<Longrightarrow> date_seconds n"
    and "\<And>n. aw_testTimestamp w = Some n \<Longrightarrow> date_seconds n"
  shows "isActivationWatermarks (Some (watermarks_json w)) \<and> watermarks_of_json (Some (watermarks_json w)) = w"
proof -
  let ?v = "Some (watermarks_json w)"
  have reads: "prop_of ?v ''backupPumpTimestamp'' = map_option JNum (aw_backupPumpTimestamp w)"
    "prop_of ?v ''testTimestamp'' = map_option JNum (aw_testTimestamp w)"
    "prop_of ?v ''backupEdgeAwaitingTimestamp'' =
      (if aw_backupEdgeAwaitingTimestamp w then Some (JBool True) else None)"
    using date_seconds_json [OF assms(1)] date_seconds_json [OF assms(2)]
    by (auto simp: watermarks_json_def jm_get_member jm_get_member1)
  have secs: "isDeviceSecondsOrAbsent (map_option JNum (aw_backupPumpTimestamp w))"
    "isDeviceSecondsOrAbsent (map_option JNum (aw_testTimestamp w))"
    using date_seconds_json [OF assms(1)] date_seconds_json [OF assms(2)]
    by (cases "aw_backupPumpTimestamp w"; simp add: isDeviceSecondsOrAbsent_def)
      (use date_seconds_json [OF assms(2)] in
        \<open>cases "aw_testTimestamp w"; simp add: isDeviceSecondsOrAbsent_def\<close>)
  show ?thesis
    using secs unfolding isActivationWatermarks_def watermarks_of_json_def num_at_def reads
    by (auto simp: is_object_def watermarks_json_def split: option.splits)
qed

lemma resumed_context: "storable r \<Longrightarrow> resumedRecord (record_context r) = ([], Some r)"
  using pump_roundtrip [of "sr_primaryPump r"] pump_roundtrip [of "sr_backupPump r"]
    watermarks_roundtrip [of "sr_watermarks r"]
  by (simp add: storable_def resumedRecord_def record_context_def)

text \<open>The file of the accessory beside the records: every write that goes through replaces it.\<close>

definition disk_step ::
  "bool \<times> pumpRecordsObservation \<Rightarrow> pumpRecordsContext \<times> pumpRecords \<Rightarrow> pumpRecordsContext \<times> pumpRecords"
where
  "disk_step o' ds = (case (o', ds) of ((ok, ob), (disk, s)) \<Rightarrow>
     (case pump_observe ok ob s of
        (Persisted, s') \<Rightarrow> (case pr_record s' of Some r \<Rightarrow> record_context r | None \<Rightarrow> disk, s')
      | (_, s') \<Rightarrow> (disk, s')))"

definition no_context :: pumpRecordsContext where
  "no_context = \<lparr>px_primaryPump = None, px_backupPump = None, px_watermarks = None\<rparr>"

definition disk_current :: "pumpRecordsContext \<times> pumpRecords \<Rightarrow> bool" where
  "disk_current ds = (\<not> pr_pendingPersist (snd ds) \<longrightarrow> (case pr_record (snd ds) of
      None \<Rightarrow> True | Some r \<Rightarrow> fst ds = record_context r))"

lemma num_same_json: "num_same a b \<Longrightarrow> map_option num_json a = map_option num_json b"
proof -
  have "num_le x y \<Longrightarrow> num_le y x \<Longrightarrow> num_json x = num_json y" for x y
    by (cases x; cases y) (auto simp: num_json_def)
  then show "num_same a b \<Longrightarrow> map_option num_json a = map_option num_json b"
    by (auto simp: num_same_def split: option.splits)
qed

lemma classification_unchanged:
  "\<not> fst (reconcileClassification pt ob r) \<Longrightarrow>
    record_context (snd (reconcileClassification pt ob r)) = record_context r"
  by (auto simp: reconcileClassification_def record_context_def watermarks_json_def pump_json_def
      split: option.splits dest!: num_same_json)

lemma unchanged_record:
  assumes "\<not> fst (reconciled ob s)"
  obtains r where "pr_record s = Some r" and "record_context (snd (reconciled ob s)) = record_context r"
proof -
  obtain r where r: "pr_record s = Some r"
    using assms by (cases "pr_record s") (auto simp: reconciled_def Let_def split_beta)
  then have "countPrimaryEdge (pr_previousPrimaryRunning s) ob r = (False, r)"
    using assms by (auto simp: reconciled_def Let_def split_beta countPrimaryEdge_def split: if_splits)
  moreover from this have "reconcileBackupTimestamp (ob_backupActivatedAt ob) r = (False, r)"
    using assms r by (auto simp: reconciled_def Let_def split_beta reconcileBackupTimestamp_def split: if_splits)
  moreover from this have "countBackupEdge (pr_previousBackupRunning s) ob r = (False, r)"
    using assms r calculation
    by (auto simp: reconciled_def Let_def split_beta countBackupEdge_def split: if_splits)
  ultimately have "reconciled ob s = (fst (reconcileClassification (pr_previousDeviceTimes s) ob r),
      snd (reconcileClassification (pr_previousDeviceTimes s) ob r))"
    using r by (simp add: reconciled_def split_beta)
  with assms that [OF r] classification_unchanged show ?thesis by simp
qed

lemma disk_current_step: "disk_current ds \<Longrightarrow> disk_current (disk_step o' ds)"
proof -
  assume cur: "disk_current ds"
  obtain ok ob disk s where eq: "o' = (ok, ob)" "ds = (disk, s)" by (metis surj_pair)
  show ?thesis
  proof (cases "pr_pendingPersist s \<or> fst (reconciled ob s)")
    case True
    then show ?thesis
      by (auto simp: eq disk_step_def disk_current_def pump_observe_def split_beta Let_def)
  next
    case False
    then obtain r where "pr_record s = Some r" "record_context (snd (reconciled ob s)) = record_context r"
      using unchanged_record by blast
    then show ?thesis
      using False cur by (simp add: eq disk_step_def disk_current_def pump_observe_def split_beta Let_def)
  qed
qed

text \<open>
  C19. A restart resumes exactly what was observed: on an accessory without a stored record, after any
  observations with any writes failing, whenever the latest owed write went through, the stored
  context resumes the very record held in memory, without a warning, provided its times are
  in the range of a date and its counts are safe integers.
\<close>

theorem restart_resumes_the_record:
  fixes os
  defines "run \<equiv> fold disk_step os (no_context, snd (createPumpRecords no_context))"
  assumes "\<not> pr_pendingPersist (snd run)" and "pr_record (snd run) = Some r" and "storable r"
  shows "createPumpRecords (fst run) = ([], \<lparr>pr_record = Some r, pr_previousPrimaryRunning = None,
      pr_previousBackupRunning = None,
      pr_previousDeviceTimes = \<lparr>pt_backupActivatedAt = None, pt_testedAt = None\<rparr>,
      pr_pendingPersist = False\<rparr>)"
proof -
  have "disk_current ds \<Longrightarrow> disk_current (fold disk_step os ds)" for ds
    using disk_current_step by (induction os arbitrary: ds) simp_all
  moreover have "disk_current (no_context, snd (createPumpRecords no_context))"
    by (simp add: disk_current_def createPumpRecords_def resumedRecord_def no_context_def)
  ultimately have "disk_current run"
    unfolding run_def by blast
  then have "fst run = record_context r"
    using assms(2,3) by (simp add: disk_current_def)
  then show ?thesis
    by (simp add: createPumpRecords_def resumed_context [OF assms(4)])
qed

definition demo_disk :: "pumpRecordsContext \<times> pumpRecords" where
  "demo_disk = fold disk_step [(False, demo_ob False 5), (True, demo_ob True 5)]
     (no_context, snd (createPumpRecords no_context))"

definition demo_resumed :: storedRecord where
  "demo_resumed =
    \<lparr>sr_primaryPump = \<lparr>po_observationStartedAt = Fin 5000, po_activationCount = 0,
        po_lastActivationAt = None, po_lastActivationWasTestActivity = None\<rparr>,
     sr_backupPump = \<lparr>po_observationStartedAt = Fin 5000, po_activationCount = 1,
        po_lastActivationAt = Some (Fin 5000), po_lastActivationWasTestActivity = None\<rparr>,
     sr_watermarks = \<lparr>aw_backupPumpTimestamp = Some (Fin 5), aw_testTimestamp = None,
        aw_backupEdgeAwaitingTimestamp = True\<rparr>\<rparr>"

lemma demo_disk_state: "\<not> pr_pendingPersist (snd demo_disk)" "pr_record (snd demo_disk) = Some demo_resumed"
  by code_simp+

theorem restart_resumes_the_record_witness:
  "pr_record (snd (createPumpRecords (fst demo_disk))) = Some demo_resumed"
proof -
  have "storable demo_resumed"
    by (simp add: storable_def storable_pump_def demo_resumed_def date_num_def date_seconds_def
        MAX_DATE_MILLISECONDS_def)
  from restart_resumes_the_record [OF demo_disk_state [unfolded demo_disk_def] this]
  show ?thesis by (simp add: demo_disk_def)
qed

end
