(* ===== verification/ServiceCatalogue.thy ===== *)
theory ServiceCatalogue
  imports DeviceModel
begin

text \<open>
  The service catalogue of \<open>src/src/accessories/serviceCatalogue.ts\<close>, with the service kinds of
  \<open>src/src/accessories/services.ts\<close>: one row per published service, the two trust rules that gate
  a row, and the projection of a decoded state into characteristic values.

  The constants of the HAP library are constructors. A row's \<open>values\<close> is a function of the
  projection input and of the row's own trust facts, as in the source.
\<close>

section \<open>Kinds, classes, characteristics\<close>

datatype ServiceKind =
    SumpPitFlood | SumpPitLevel | PrimaryPump | PrimaryPumpRunning | BackupPump | SumpMainsPower
  | BackupBattery | SystemSelfTest | AlarmMuteControl
  | BackupPumpRunning | MainsPowerLost | PrimaryPumpFaultKind | BackupPumpFaultKind
  | WaterSensorFaultKind | PumpControllerLinkLost | BasementGuardianOffline

fun slug :: "ServiceKind \<Rightarrow> string" where
  "slug SumpPitFlood = ''sump-pit-flood''"
| "slug SumpPitLevel = ''sump-pit-level''"
| "slug PrimaryPump = ''primary-pump''"
| "slug PrimaryPumpRunning = ''primary-pump-running''"
| "slug BackupPump = ''backup-pump''"
| "slug SumpMainsPower = ''sump-mains-power''"
| "slug BackupBattery = ''backup-battery''"
| "slug SystemSelfTest = ''system-self-test''"
| "slug AlarmMuteControl = ''alarm-mute''"
| "slug BackupPumpRunning = ''backup-pump-running''"
| "slug MainsPowerLost = ''mains-power-lost''"
| "slug PrimaryPumpFaultKind = ''primary-pump-fault''"
| "slug BackupPumpFaultKind = ''backup-pump-fault''"
| "slug WaterSensorFaultKind = ''water-sensor-fault''"
| "slug PumpControllerLinkLost = ''pump-controller-link-lost''"
| "slug BasementGuardianOffline = ''basement-guardian-offline''"

lemma slug_inject: "slug a = slug b \<longleftrightarrow> a = b"
  by (cases a; cases b) simp_all

definition NOTIFICATION_SERVICE_KINDS :: "ServiceKind list" where
  "NOTIFICATION_SERVICE_KINDS =
    [BackupPumpRunning, MainsPowerLost, PrimaryPumpFaultKind, BackupPumpFaultKind,
     WaterSensorFaultKind, PumpControllerLinkLost, BasementGuardianOffline]"

definition isNotificationServiceKind :: "json option \<Rightarrow> bool" where
  "isNotificationServiceKind v = (case v of
      Some (JStr s) \<Rightarrow> s \<in> set (map slug NOTIFICATION_SERVICE_KINDS) | _ \<Rightarrow> False)"

datatype ServiceClass =
    LeakSensor | ContactSensor | Battery | Switch
  | SumpPitService | PumpService | SumpMainsPowerService | BackupBatteryService

datatype Characteristic =
    LeakDetected | WaterLevel | ContactSensorState | StatusFault | StatusLowBattery
  | BatteryLevel | ChargingState | On | StatusActive
  | RawWaterLevelCode | WaterSensorFaultReported | PumpRunning | PumpFault | PumpFuseBlown
  | ObservationStartedAt | ObservedActivationCount | LastObservedActivationAt
  | LastActivationWasTestActivity | MainsPowerPresent | BatteryCharging | BatteryVoltageLow
  | BatteryHealthCode | ProtectionHoursCode | ControllerLinkPresent | ControllerDataLastTrustedAt

datatype CharacteristicValue =
    CONTACT_DETECTED | CONTACT_NOT_DETECTED
  | NO_FAULT | GENERAL_FAULT
  | BATTERY_LEVEL_NORMAL | BATTERY_LEVEL_LOW
  | CHARGING | NOT_CHARGING
  | LEAK_DETECTED | LEAK_NOT_DETECTED
  | VBool bool
  | VNum jsnum
  | VStr string

section \<open>Inputs and rows\<close>

record projectedValue =
  pv_characteristic :: Characteristic
  pv_value :: CharacteristicValue

record pumpRecordProjection =
  prp_observationStartedAt :: string
  prp_activationCount :: nat
  prp_lastActivationAt :: string
  prp_lastActivationWasTestActivity :: "bool option"

record projectionInput =
  pi_decoded :: "json option"
  pi_untrustedScopes :: "untrustedScope list"
  pi_offlineConfirmed :: bool
  pi_controllerDataLastTrustedAt :: string
  pi_pendingControls :: "DeviceCapability list"
  pi_primaryPumpRecord :: "pumpRecordProjection option"
  pi_backupPumpRecord :: "pumpRecordProjection option"

record rowTrust =
  rt_scope :: TrustScope
  rt_toleratedDistrust :: "DistrustReason list"

record serviceRow =
  row_kind :: ServiceKind
  row_displayName :: string
  row_scope :: TrustScope
  row_toleratedDistrust :: "DistrustReason list"
  row_serviceClass :: ServiceClass
  row_readScopes :: "TrustScope list"
  row_alwaysPublish :: bool
  row_values :: "projectionInput \<Rightarrow> rowTrust \<Rightarrow> projectedValue list"

definition row_subtype :: "serviceRow \<Rightarrow> string" where
  "row_subtype row = slug (row_kind row)"

definition row_trust :: "serviceRow \<Rightarrow> rowTrust" where
  "row_trust row = \<lparr>rt_scope = row_scope row, rt_toleratedDistrust = row_toleratedDistrust row\<rparr>"

section \<open>Trust rules\<close>

definition SEEING_LESS_REASONS :: "DistrustReason list" where
  "SEEING_LESS_REASONS = [Unreachable]"

definition isRowTrusted :: "rowTrust \<Rightarrow> untrustedScope list \<Rightarrow> bool" where
  "isRowTrusted row untrustedScopes =
    (\<not> list_ex (\<lambda>u. us_scope u = rt_scope row \<and> us_reason u \<notin> set (rt_toleratedDistrust row))
        untrustedScopes)"

definition isRowPublishable :: "rowTrust \<Rightarrow> untrustedScope list \<Rightarrow> bool" where
  "isRowPublishable row untrustedScopes =
    (\<not> list_ex (\<lambda>u. us_scope u = rt_scope row \<and> us_reason u \<notin> set SEEING_LESS_REASONS
          \<and> us_reason u \<notin> set (rt_toleratedDistrust row))
        untrustedScopes)"

definition isRowFullyTrusted :: "serviceRow \<Rightarrow> untrustedScope list \<Rightarrow> bool" where
  "isRowFullyTrusted row untrustedScopes =
    list_all (\<lambda>sc. isRowTrusted \<lparr>rt_scope = sc, rt_toleratedDistrust = row_toleratedDistrust row\<rparr>
        untrustedScopes) (row_readScopes row)"

section \<open>Reading a decoded state\<close>

definition decodedGroup :: "json option \<Rightarrow> TrustScope \<Rightarrow> json option" where
  "decodedGroup decoded sc =
    (let grp = (if isRecord decoded then prop_of decoded (scope_name sc) else None)
     in if isRecord grp then grp else None)"

definition booleanOf :: "json option \<Rightarrow> string \<Rightarrow> bool option" where
  "booleanOf grp field = (case prop_of grp field of Some (JBool b) \<Rightarrow> Some b | _ \<Rightarrow> None)"

definition numberOf :: "json option \<Rightarrow> string \<Rightarrow> jsnum option" where
  "numberOf grp field = (case prop_of grp field of Some (JNum n) \<Rightarrow> Some n | _ \<Rightarrow> None)"

definition trustedGroup :: "projectionInput \<Rightarrow> rowTrust \<Rightarrow> TrustScope \<Rightarrow> json option" where
  "trustedGroup inp trust sc =
    (if \<not> isRowPublishable \<lparr>rt_scope = sc, rt_toleratedDistrust = rt_toleratedDistrust trust\<rparr>
          (pi_untrustedScopes inp)
     then None else decodedGroup (pi_decoded inp) sc)"

section \<open>Values\<close>

type_synonym candidate = "Characteristic \<times> CharacteristicValue option"

definition published :: "candidate list \<Rightarrow> projectedValue list" where
  "published candidates =
    List.map_filter (\<lambda>(c, v). map_option (\<lambda>x. \<lparr>pv_characteristic = c, pv_value = x\<rparr>) v) candidates"

definition contactState :: "bool option \<Rightarrow> CharacteristicValue option" where
  "contactState activated = map_option (\<lambda>b. if b then CONTACT_NOT_DETECTED else CONTACT_DETECTED) activated"

definition faultState_value :: "bool option \<Rightarrow> CharacteristicValue option" where
  "faultState_value faulted = map_option (\<lambda>b. if b then GENERAL_FAULT else NO_FAULT) faulted"

definition lowBatteryState :: "bool option \<Rightarrow> CharacteristicValue option" where
  "lowBatteryState l = map_option (\<lambda>b. if b then BATTERY_LEVEL_LOW else BATTERY_LEVEL_NORMAL) l"

definition chargingState :: "bool option \<Rightarrow> CharacteristicValue option" where
  "chargingState c = map_option (\<lambda>b. if b then CHARGING else NOT_CHARGING) c"

definition leakState :: "bool option \<Rightarrow> CharacteristicValue option" where
  "leakState f = map_option (\<lambda>b. if b then LEAK_DETECTED else LEAK_NOT_DETECTED) f"

definition inverted :: "bool option \<Rightarrow> bool option" where
  "inverted f = map_option Not f"

definition backupPumpFaulted :: "json option \<Rightarrow> bool option" where
  "backupPumpFaulted fault =
    (case (booleanOf fault ''backupPumpFault'', booleanOf fault ''backupPumpFuseBlown'') of
       (Some f, Some b) \<Rightarrow> Some (f \<or> b) | _ \<Rightarrow> None)"

definition floodValues :: "projectionInput \<Rightarrow> rowTrust \<Rightarrow> projectedValue list" where
  "floodValues inp trust =
    published [(LeakDetected, leakState (booleanOf (trustedGroup inp trust WaterScope) ''flooded''))]"

definition sumpPitLevelValues :: "projectionInput \<Rightarrow> rowTrust \<Rightarrow> projectedValue list" where
  "sumpPitLevelValues inp trust =
    (let water = trustedGroup inp trust WaterScope;
         wsf = booleanOf (trustedGroup inp trust FaultScope) ''waterSensorFault''
     in published
         [(WaterLevel, map_option VNum (numberOf water ''levelPercent'')),
          (RawWaterLevelCode, map_option VNum (numberOf water ''levelCode'')),
          (WaterSensorFaultReported, map_option VBool wsf),
          (StatusFault, faultState_value wsf)])"

record pumpFacts =
  pf_running :: "bool option"
  pf_faulted :: "bool option"
  pf_fuseBlown :: "bool option"
  pf_serviceFaulted :: "bool option"
  pf_record :: "pumpRecordProjection option"
  pf_publishesTestActivity :: bool

definition recordCandidates :: "pumpFacts \<Rightarrow> candidate list" where
  "recordCandidates facts =
    (let record = (if pf_running facts = None then None else pf_record facts);
         classification = (if pf_publishesTestActivity facts
           then Option.bind record prp_lastActivationWasTestActivity else None)
     in [(ObservationStartedAt, map_option (VStr \<circ> prp_observationStartedAt) record),
         (ObservedActivationCount,
            map_option (\<lambda>r. VNum (Fin (of_nat (prp_activationCount r)))) record),
         (LastObservedActivationAt, map_option (VStr \<circ> prp_lastActivationAt) record),
         (LastActivationWasTestActivity, map_option VBool classification)])"

definition pumpValues :: "pumpFacts \<Rightarrow> projectedValue list" where
  "pumpValues facts = published
    ([(PumpRunning, map_option VBool (pf_running facts)),
      (PumpFault, map_option VBool (pf_faulted facts)),
      (PumpFuseBlown, map_option VBool (pf_fuseBlown facts)),
      (StatusFault, faultState_value (pf_serviceFaulted facts))] @ recordCandidates facts)"

definition primaryPumpValues :: "projectionInput \<Rightarrow> rowTrust \<Rightarrow> projectedValue list" where
  "primaryPumpValues inp trust =
    (let faulted = booleanOf (trustedGroup inp trust FaultScope) ''primaryPumpFault''
     in pumpValues
       \<lparr>pf_running = booleanOf (trustedGroup inp trust PumpScope) ''primaryRunning'',
        pf_faulted = faulted, pf_fuseBlown = None, pf_serviceFaulted = faulted,
        pf_record = pi_primaryPumpRecord inp, pf_publishesTestActivity = False\<rparr>)"

definition backupPumpValues :: "projectionInput \<Rightarrow> rowTrust \<Rightarrow> projectedValue list" where
  "backupPumpValues inp trust =
    (let fault = trustedGroup inp trust FaultScope
     in pumpValues
       \<lparr>pf_running = booleanOf (trustedGroup inp trust PumpScope) ''backupRunning'',
        pf_faulted = booleanOf fault ''backupPumpFault'',
        pf_fuseBlown = booleanOf fault ''backupPumpFuseBlown'',
        pf_serviceFaulted = backupPumpFaulted fault,
        pf_record = pi_backupPumpRecord inp, pf_publishesTestActivity = True\<rparr>)"

definition pumpActivityValues :: "projectionInput \<Rightarrow> rowTrust \<Rightarrow> string \<Rightarrow> projectedValue list" where
  "pumpActivityValues inp trust field =
    published [(ContactSensorState, contactState (booleanOf (trustedGroup inp trust PumpScope) field))]"

fun capability_scope :: "DeviceCapability \<Rightarrow> TrustScope" where
  "capability_scope SelfTest = SelfTestScope"
| "capability_scope AlarmMute = AlarmMuteScope"

definition controlValues ::
  "projectionInput \<Rightarrow> rowTrust \<Rightarrow> DeviceCapability \<Rightarrow> string \<Rightarrow> projectedValue list" where
  "controlValues inp trust capability field =
    (let reported = booleanOf (trustedGroup inp trust (capability_scope capability)) field
     in published [(On, if capability \<in> set (pi_pendingControls inp) then None
                        else map_option VBool reported)])"

definition mainsPowerValues :: "projectionInput \<Rightarrow> rowTrust \<Rightarrow> projectedValue list" where
  "mainsPowerValues inp trust = published
    [(MainsPowerPresent, map_option VBool (booleanOf (trustedGroup inp trust PowerScope) ''mainsPresent''))]"

definition mainsPowerLostValues :: "projectionInput \<Rightarrow> rowTrust \<Rightarrow> projectedValue list" where
  "mainsPowerLostValues inp trust =
    (let mp = booleanOf (trustedGroup inp trust PowerScope) ''mainsPresent''
     in published [(ContactSensorState, contactState (inverted mp)),
                   (StatusFault, if mp = None then None else Some NO_FAULT)])"

definition batteryValues :: "projectionInput \<Rightarrow> rowTrust \<Rightarrow> projectedValue list" where
  "batteryValues inp trust =
    (let battery = trustedGroup inp trust BatteryScope
     in published
       [(StatusLowBattery, lowBatteryState (booleanOf battery ''low'')),
        (BatteryLevel, map_option VNum (numberOf battery ''levelPercent'')),
        (ChargingState, chargingState (booleanOf battery ''charging''))])"

definition batteryFactsValues :: "projectionInput \<Rightarrow> rowTrust \<Rightarrow> projectedValue list" where
  "batteryFactsValues inp trust =
    (let battery = trustedGroup inp trust BatteryScope
     in published
       [(BatteryCharging, map_option VBool (booleanOf battery ''charging'')),
        (BatteryVoltageLow, map_option VBool (booleanOf battery ''voltageLow'')),
        (BatteryHealthCode, map_option VNum (numberOf battery ''healthCode'')),
        (ProtectionHoursCode, map_option VNum (numberOf battery ''protectionHoursCode''))])"

definition faultAdapterValues :: "bool option \<Rightarrow> candidate list \<Rightarrow> projectedValue list" where
  "faultAdapterValues faulted extra = published
    ([(ContactSensorState, contactState faulted), (StatusFault, faultState_value faulted)] @ extra)"

definition controllerLinkValues :: "projectionInput \<Rightarrow> rowTrust \<Rightarrow> projectedValue list" where
  "controllerLinkValues inp trust =
    (let lp = booleanOf (trustedGroup inp trust FaultScope) ''controllerLinkPresent''
     in faultAdapterValues (inverted lp)
       [(ControllerLinkPresent, map_option VBool lp),
        (ControllerDataLastTrustedAt,
           if lp = None then None else Some (VStr (pi_controllerDataLastTrustedAt inp)))])"

definition offlineValues :: "projectionInput \<Rightarrow> projectedValue list" where
  "offlineValues inp = published [(ContactSensorState, contactState (Some (pi_offlineConfirmed inp)))]"

section \<open>The catalogue\<close>

definition simple_row ::
  "ServiceKind \<Rightarrow> string \<Rightarrow> TrustScope \<Rightarrow> ServiceClass \<Rightarrow> (projectionInput \<Rightarrow> rowTrust \<Rightarrow> projectedValue list)
    \<Rightarrow> serviceRow" where
  "simple_row kind name sc cls values =
    \<lparr>row_kind = kind, row_displayName = name, row_scope = sc, row_toleratedDistrust = [],
     row_serviceClass = cls, row_readScopes = [sc], row_alwaysPublish = False, row_values = values\<rparr>"

definition waterDefinitions :: "serviceRow list" where
  "waterDefinitions =
    [simple_row SumpPitFlood ''Sump Pit Flood'' WaterScope LeakSensor floodValues,
     (simple_row SumpPitLevel ''Sump Pit Level'' WaterScope SumpPitService sumpPitLevelValues)
       \<lparr>row_readScopes := [WaterScope, FaultScope]\<rparr>]"

definition pumpDefinitions :: "serviceRow list" where
  "pumpDefinitions =
    [(simple_row PrimaryPump ''Primary Pump'' PumpScope PumpService primaryPumpValues)
       \<lparr>row_readScopes := [PumpScope, FaultScope]\<rparr>,
     simple_row PrimaryPumpRunning ''Primary Pump Running'' PumpScope ContactSensor
       (\<lambda>inp trust. pumpActivityValues inp trust ''primaryRunning''),
     (simple_row BackupPump ''Backup Pump'' PumpScope PumpService backupPumpValues)
       \<lparr>row_readScopes := [PumpScope, FaultScope]\<rparr>,
     simple_row BackupPumpRunning ''Backup Pump Running'' PumpScope ContactSensor
       (\<lambda>inp trust. pumpActivityValues inp trust ''backupRunning'')]"

definition powerDefinitions :: "serviceRow list" where
  "powerDefinitions =
    [simple_row SumpMainsPower ''Sump Mains Power'' PowerScope SumpMainsPowerService mainsPowerValues,
     simple_row MainsPowerLost ''Mains Power Lost'' PowerScope ContactSensor mainsPowerLostValues]"

definition batteryDefinitions :: "serviceRow list" where
  "batteryDefinitions =
    [simple_row BackupBattery ''Backup Battery Level'' BatteryScope Battery batteryValues,
     simple_row BackupBattery ''Backup Battery'' BatteryScope BackupBatteryService batteryFactsValues]"

definition faultDefinitions :: "serviceRow list" where
  "faultDefinitions =
    [simple_row PrimaryPumpFaultKind ''Primary Pump Fault'' FaultScope ContactSensor
       (\<lambda>inp trust. faultAdapterValues (booleanOf (trustedGroup inp trust FaultScope) ''primaryPumpFault'') []),
     simple_row BackupPumpFaultKind ''Backup Pump Fault'' FaultScope ContactSensor
       (\<lambda>inp trust. faultAdapterValues (backupPumpFaulted (trustedGroup inp trust FaultScope)) []),
     simple_row WaterSensorFaultKind ''Water Sensor Fault'' FaultScope ContactSensor
       (\<lambda>inp trust. faultAdapterValues (booleanOf (trustedGroup inp trust FaultScope) ''waterSensorFault'') []),
     (simple_row PumpControllerLinkLost ''Pump Controller Link Lost'' FaultScope ContactSensor
       controllerLinkValues)\<lparr>row_toleratedDistrust := [ControllerLinkLost]\<rparr>]"

definition controlDefinitions :: "serviceRow list" where
  "controlDefinitions =
    [(simple_row SystemSelfTest ''System Self-Test'' SelfTestScope Switch
       (\<lambda>inp trust. controlValues inp trust SelfTest ''running''))\<lparr>row_alwaysPublish := True\<rparr>,
     (simple_row AlarmMuteControl ''Alarm Mute'' AlarmMuteScope Switch
       (\<lambda>inp trust. controlValues inp trust AlarmMute ''muted''))\<lparr>row_alwaysPublish := True\<rparr>]"

definition connectivityDefinitions :: "serviceRow list" where
  "connectivityDefinitions =
    [simple_row BasementGuardianOffline ''Basement Guardian Offline'' ConnectivityScope ContactSensor
       (\<lambda>inp trust. offlineValues inp)]"

definition createServiceCatalogue :: "serviceRow list" where
  "createServiceCatalogue =
    waterDefinitions @ pumpDefinitions @ powerDefinitions @ batteryDefinitions @ faultDefinitions
    @ controlDefinitions @ connectivityDefinitions"

definition project :: "serviceRow \<Rightarrow> projectionInput \<Rightarrow> projectedValue list" where
  "project row inp =
    (if isRowPublishable (row_trust row) (pi_untrustedScopes inp)
     then row_values row inp (row_trust row) else [])"

section \<open>Services on the accessory\<close>

text \<open>
  The services an accessory carries, by class and subtype, and the calls made on the HAP objects.
  \<open>getServiceById\<close> finds a service by its class and subtype; \<open>addService\<close> and
  \<open>removeService\<close> change what it finds.
\<close>

type_synonym serviceKey = "ServiceClass \<times> string"

datatype hapCall =
    AddService serviceKey string
  | RemoveService serviceKey
  | AddOptionalCharacteristic serviceKey string
  | UpdateCharacteristic serviceKey Characteristic CharacteristicValue
  | UpdateConfiguredName serviceKey string
  | UpdateWithError serviceKey Characteristic int

definition row_key :: "serviceRow \<Rightarrow> serviceKey" where
  "row_key row = (row_serviceClass row, row_subtype row)"

definition publishedService :: "serviceKey list \<Rightarrow> serviceRow \<Rightarrow> serviceKey option" where
  "publishedService carried row = (if row_key row \<in> set carried then Some (row_key row) else None)"

definition ensureService ::
  "serviceKey list \<Rightarrow> serviceRow \<Rightarrow> projectedValue list \<Rightarrow> serviceKey option \<times> hapCall list \<times> serviceKey list"
where
  "ensureService carried row projected =
    (case publishedService carried row of
       Some service \<Rightarrow> (Some service, [], carried)
     | None \<Rightarrow>
         if projected = [] \<and> \<not> row_alwaysPublish row then (None, [], carried)
         else (Some (row_key row), [AddService (row_key row) (row_displayName row)],
               carried @ [row_key row]))"

definition removeServiceIfPresent ::
  "serviceKey list \<Rightarrow> serviceRow \<Rightarrow> bool \<times> hapCall list \<times> serviceKey list" where
  "removeServiceIfPresent carried row =
    (case publishedService carried row of
       None \<Rightarrow> (False, [], carried)
     | Some service \<Rightarrow> (True, [RemoveService service], removeAll service carried))"

text \<open>
  \<open>tested\<close> answers \<open>testCharacteristic\<close>, \<open>declared\<close> whether the characteristic is among
  the service's optional ones; \<open>current\<close> is the configured name the service holds.
\<close>

definition declareCharacteristic :: "bool \<Rightarrow> bool \<Rightarrow> serviceKey \<Rightarrow> string \<Rightarrow> hapCall list" where
  "declareCharacteristic tested declared service name =
    (if \<not> tested \<and> \<not> declared then [AddOptionalCharacteristic service name] else [])"

definition seedConfiguredName ::
  "bool \<Rightarrow> bool \<Rightarrow> json option \<Rightarrow> serviceKey \<Rightarrow> string \<Rightarrow> hapCall list" where
  "seedConfiguredName tested declared current service displayName =
    declareCharacteristic tested declared service ''ConfiguredName''
    @ (case (if tested then current else None) of
         Some (JStr s) \<Rightarrow> if s \<noteq> [] then [] else [UpdateConfiguredName service displayName]
       | _ \<Rightarrow> [UpdateConfiguredName service displayName])"

definition publishValue ::
  "bool \<Rightarrow> bool \<Rightarrow> serviceKey \<Rightarrow> Characteristic \<Rightarrow> string \<Rightarrow> CharacteristicValue \<Rightarrow> hapCall list" where
  "publishValue tested declared service characteristic name v =
    declareCharacteristic tested declared service name @ [UpdateCharacteristic service characteristic v]"

definition publishPersistentFailure ::
  "bool \<Rightarrow> bool \<Rightarrow> serviceKey \<Rightarrow> Characteristic \<Rightarrow> string \<Rightarrow> int \<Rightarrow> hapCall list" where
  "publishPersistentFailure tested declared service characteristic name status =
    declareCharacteristic tested declared service name @ [UpdateWithError service characteristic status]"

section \<open>Trust\<close>

lemmas row_defs = simple_row_def waterDefinitions_def pumpDefinitions_def powerDefinitions_def
  batteryDefinitions_def faultDefinitions_def controlDefinitions_def connectivityDefinitions_def

lemmas value_defs = floodValues_def sumpPitLevelValues_def primaryPumpValues_def backupPumpValues_def
  pumpValues_def recordCandidates_def pumpActivityValues_def controlValues_def mainsPowerValues_def
  mainsPowerLostValues_def batteryValues_def batteryFactsValues_def faultAdapterValues_def
  controllerLinkValues_def offlineValues_def

lemma trusted_publishable: "isRowTrusted row us \<Longrightarrow> isRowPublishable row us"
  by (auto simp: isRowTrusted_def isRowPublishable_def list_ex_iff)

text \<open>What a row's values may depend on: the groups of the scopes it may publish, and nothing else.\<close>

definition same_trusted_view :: "rowTrust \<Rightarrow> projectionInput \<Rightarrow> projectionInput \<Rightarrow> bool" where
  "same_trusted_view trust a b = (\<forall>sc. trustedGroup a trust sc = trustedGroup b trust sc)"

lemma values_cong:
  assumes "same_trusted_view t a b"
    and "pi_pendingControls a = pi_pendingControls b" "pi_offlineConfirmed a = pi_offlineConfirmed b"
      "pi_controllerDataLastTrustedAt a = pi_controllerDataLastTrustedAt b"
      "pi_primaryPumpRecord a = pi_primaryPumpRecord b" "pi_backupPumpRecord a = pi_backupPumpRecord b"
  shows "floodValues a t = floodValues b t" "sumpPitLevelValues a t = sumpPitLevelValues b t"
    "primaryPumpValues a t = primaryPumpValues b t" "backupPumpValues a t = backupPumpValues b t"
    "pumpActivityValues a t f = pumpActivityValues b t f" "controlValues a t c f = controlValues b t c f"
    "mainsPowerValues a t = mainsPowerValues b t" "mainsPowerLostValues a t = mainsPowerLostValues b t"
    "batteryValues a t = batteryValues b t" "batteryFactsValues a t = batteryFactsValues b t"
    "controllerLinkValues a t = controllerLinkValues b t" "offlineValues a = offlineValues b"
    "trustedGroup a t FaultScope = trustedGroup b t FaultScope"
  using assms
  by (simp_all add: same_trusted_view_def floodValues_def sumpPitLevelValues_def primaryPumpValues_def
      backupPumpValues_def pumpActivityValues_def controlValues_def mainsPowerValues_def
      mainsPowerLostValues_def batteryValues_def batteryFactsValues_def controllerLinkValues_def
      offlineValues_def Let_def)

text \<open>Every row of the catalogue, by the definition list that holds it.\<close>

lemma catalogue_cases:
  assumes "\<forall>row \<in> set waterDefinitions. P row" "\<forall>row \<in> set pumpDefinitions. P row"
    "\<forall>row \<in> set powerDefinitions. P row" "\<forall>row \<in> set batteryDefinitions. P row"
    "\<forall>row \<in> set faultDefinitions. P row" "\<forall>row \<in> set controlDefinitions. P row"
    "\<forall>row \<in> set connectivityDefinitions. P row"
  shows "\<forall>row \<in> set createServiceCatalogue. P row"
  using assms by (auto simp: createServiceCatalogue_def)

lemma rows_read_trusted_groups:
  assumes "row \<in> set createServiceCatalogue" and "same_trusted_view (row_trust row) a b"
    and "pi_pendingControls a = pi_pendingControls b" "pi_offlineConfirmed a = pi_offlineConfirmed b"
      "pi_controllerDataLastTrustedAt a = pi_controllerDataLastTrustedAt b"
      "pi_primaryPumpRecord a = pi_primaryPumpRecord b" "pi_backupPumpRecord a = pi_backupPumpRecord b"
  shows "row_values row a (row_trust row) = row_values row b (row_trust row)"
proof -
  note cong = values_cong [OF _ assms(3-7)]
  have "\<forall>row \<in> set createServiceCatalogue. \<forall>t. same_trusted_view t a b \<longrightarrow>
      row_values row a t = row_values row b t"
    by (rule catalogue_cases; simp add: row_defs cong)
  then show ?thesis using assms(1,2) by blast
qed

text \<open>
  C5. A doubtful reading never reaches HomeKit: if two decoded states differ only in scopes that are
  untrusted for a reason the row does not tolerate, other than the transport having gone quiet, then
  every row of the catalogue publishes the same values from both.
\<close>

theorem doubtful_groups_are_withheld:
  assumes "row \<in> set createServiceCatalogue"
    and "\<forall>sc. (\<exists>u \<in> set (pi_untrustedScopes inp). us_scope u = sc \<and> us_reason u \<noteq> Unreachable
              \<and> us_reason u \<notin> set (row_toleratedDistrust row))
          \<or> decodedGroup (pi_decoded inp) sc = decodedGroup d sc"
  shows "project row (inp\<lparr>pi_decoded := d\<rparr>) = project row inp"
proof -
  have "same_trusted_view (row_trust row) (inp\<lparr>pi_decoded := d\<rparr>) inp"
    using assms(2)
    by (fastforce simp: same_trusted_view_def trustedGroup_def isRowPublishable_def list_ex_iff
        row_trust_def SEEING_LESS_REASONS_def)
  from rows_read_trusted_groups [OF assms(1) this] show ?thesis
    by (simp add: project_def)
qed

section \<open>Published values\<close>

lemma published_simps:
  "published [] = []"
  "published ((c, None) # cs) = published cs"
  "published ((c, Some v) # cs) = \<lparr>pv_characteristic = c, pv_value = v\<rparr> # published cs"
  by (simp_all add: published_def List.map_filter_simps)

lemma projectedValue_eq:
  "pv = \<lparr>pv_characteristic = c, pv_value = v\<rparr> \<longleftrightarrow> pv_characteristic pv = c \<and> pv_value pv = v"
  by (cases pv) auto

lemma in_published: "pv \<in> set (published cs) \<longleftrightarrow> (pv_characteristic pv, Some (pv_value pv)) \<in> set cs"
proof (induction cs)
  case (Cons x cs)
  obtain c v where x: "x = (c, v)" by force
  show ?case
    by (cases v) (auto simp: x published_simps projectedValue_eq Cons)
qed (simp add: published_simps)

text \<open>The values HAP accepts for a characteristic: its own constants, or a value of its format.\<close>

fun legal_value :: "Characteristic \<Rightarrow> CharacteristicValue \<Rightarrow> bool" where
  "legal_value LeakDetected v = (v \<in> {LEAK_DETECTED, LEAK_NOT_DETECTED})"
| "legal_value ContactSensorState v = (v \<in> {CONTACT_DETECTED, CONTACT_NOT_DETECTED})"
| "legal_value StatusFault v = (v \<in> {NO_FAULT, GENERAL_FAULT})"
| "legal_value StatusLowBattery v = (v \<in> {BATTERY_LEVEL_NORMAL, BATTERY_LEVEL_LOW})"
| "legal_value ChargingState v = (v \<in> {CHARGING, NOT_CHARGING})"
| "legal_value WaterLevel v = (\<exists>n. v = VNum n)"
| "legal_value BatteryLevel v = (\<exists>n. v = VNum n)"
| "legal_value RawWaterLevelCode v = (\<exists>n. v = VNum n)"
| "legal_value BatteryHealthCode v = (\<exists>n. v = VNum n)"
| "legal_value ProtectionHoursCode v = (\<exists>n. v = VNum n)"
| "legal_value ObservedActivationCount v = (\<exists>n. v = VNum n)"
| "legal_value ObservationStartedAt v = (\<exists>s. v = VStr s)"
| "legal_value LastObservedActivationAt v = (\<exists>s. v = VStr s)"
| "legal_value ControllerDataLastTrustedAt v = (\<exists>s. v = VStr s)"
| "legal_value _ v = (\<exists>b. v = VBool b)"

fun legal_candidate :: "candidate \<Rightarrow> bool" where
  "legal_candidate (c, None) = True"
| "legal_candidate (c, Some v) = legal_value c v"

lemma legal_if: "(b \<Longrightarrow> legal_candidate (c, v)) \<Longrightarrow> (\<not> b \<Longrightarrow> legal_candidate (c, w)) \<Longrightarrow>
    legal_candidate (c, if b then v else w)"
  by simp

lemma legal_states:
  "legal_candidate (LeakDetected, leakState f)"
  "legal_candidate (ContactSensorState, contactState f)"
  "legal_candidate (StatusFault, faultState_value f)"
  "legal_candidate (StatusLowBattery, lowBatteryState f)"
  "legal_candidate (ChargingState, chargingState f)"
  by (cases f; simp add: leakState_def contactState_def faultState_value_def lowBatteryState_def
      chargingState_def)+

lemma legal_formats:
  "(\<And>b. legal_value c (VBool b)) \<Longrightarrow> legal_candidate (c, map_option VBool f)"
  "(\<And>n. legal_value c (VNum n)) \<Longrightarrow> legal_candidate (c, map_option VNum m)"
  by (cases f; simp) (cases m; simp)

definition all_legal :: "projectedValue list \<Rightarrow> bool" where
  "all_legal ps = (\<forall>pv \<in> set ps. legal_value (pv_characteristic pv) (pv_value pv))"

lemma all_legal_published: "list_all legal_candidate cs \<Longrightarrow> all_legal (published cs)"
  by (auto simp: all_legal_def in_published list_all_iff dest!: bspec)

lemma record_legal: "list_all legal_candidate (recordCandidates f)"
proof -
  let ?r = "if pf_running f = None then None else pf_record f"
  let ?c = "if pf_publishesTestActivity f then Option.bind ?r prp_lastActivationWasTestActivity else None"
  have "legal_candidate (LastActivationWasTestActivity, map_option VBool ?c)"
    by (rule legal_formats) simp
  then show ?thesis
    unfolding recordCandidates_def Let_def by (cases ?r) simp_all
qed

lemmas legal_intros = all_legal_published legal_states legal_formats record_legal

lemma values_legal:
  "all_legal (floodValues a t)" "all_legal (sumpPitLevelValues a t)" "all_legal (pumpValues f)"
  "all_legal (pumpActivityValues a t g)" "all_legal (controlValues a t c g)"
  "all_legal (mainsPowerValues a t)" "all_legal (mainsPowerLostValues a t)"
  "all_legal (batteryValues a t)" "all_legal (batteryFactsValues a t)"
  "all_legal (controllerLinkValues a t)" "all_legal (offlineValues a)"
  "all_legal (faultAdapterValues b [])"
  unfolding floodValues_def sumpPitLevelValues_def pumpValues_def pumpActivityValues_def
    controlValues_def mainsPowerValues_def mainsPowerLostValues_def batteryValues_def
    batteryFactsValues_def controllerLinkValues_def offlineValues_def faultAdapterValues_def Let_def
  by (intro all_legal_published; simp add: legal_states legal_formats record_legal)+

lemma catalogue_legal: "\<forall>row \<in> set createServiceCatalogue. \<forall>inp t. all_legal (row_values row inp t)"
  by (rule catalogue_cases; simp add: row_defs values_legal primaryPumpValues_def backupPumpValues_def Let_def)

lemma catalogue_keys: "distinct (map row_key createServiceCatalogue)"
  by (simp add: createServiceCatalogue_def row_defs row_key_def row_subtype_def)

lemma catalogue_always:
  "\<forall>row \<in> set createServiceCatalogue. row_alwaysPublish row \<longrightarrow> row_serviceClass row = Switch"
  by (rule catalogue_cases; simp add: row_defs)

text \<open>
  Every value the catalogue can publish is legal for its characteristic, one of the declared
  constants or a value of its own format, so HAP never clamps one into a reading nobody reported;
  and no two rows of the catalogue share a service class and subtype, the pair HomeKit identifies a
  service by.
\<close>

theorem projections_are_legal:
  "(\<forall>row \<in> set createServiceCatalogue. list_all
      (\<lambda>pv. legal_value (pv_characteristic pv) (pv_value pv)) (project row inp))
    \<and> distinct (map row_key createServiceCatalogue)"
proof
  show "\<forall>row \<in> set createServiceCatalogue. list_all
      (\<lambda>pv. legal_value (pv_characteristic pv) (pv_value pv)) (project row inp)"
    using catalogue_legal unfolding all_legal_def by (auto simp: project_def list_all_iff)
qed (rule catalogue_keys)


section \<open>A quiet transport\<close>

definition without_unreachable :: "untrustedScope list \<Rightarrow> untrustedScope list" where
  "without_unreachable us = filter (\<lambda>u. us_reason u \<noteq> Unreachable) us"

lemma publishable_without_unreachable:
  "isRowPublishable t (without_unreachable us) = isRowPublishable t us"
  by (auto simp: isRowPublishable_def without_unreachable_def list_ex_iff SEEING_LESS_REASONS_def)

text \<open>
  A transport that has gone quiet withholds nothing and vouches for nothing: the values every row
  publishes are the same with and without the scopes marked unreachable, while a row that reads any
  untrusted scope, for whatever reason it does not tolerate, is not fully trusted.
\<close>

theorem quiet_transport_keeps_publishing:
  "\<forall>row \<in> set createServiceCatalogue.
      project row (inp\<lparr>pi_untrustedScopes := without_unreachable (pi_untrustedScopes inp)\<rparr>)
        = project row inp
      \<and> (isRowFullyTrusted row (pi_untrustedScopes inp)
          \<longleftrightarrow> list_all (\<lambda>u. us_scope u \<notin> set (row_readScopes row)
                \<or> us_reason u \<in> set (row_toleratedDistrust row)) (pi_untrustedScopes inp))"
proof (intro ballI conjI)
  fix row assume row: "row \<in> set createServiceCatalogue"
  let ?inp = "inp\<lparr>pi_untrustedScopes := without_unreachable (pi_untrustedScopes inp)\<rparr>"
  have "same_trusted_view (row_trust row) ?inp inp"
    by (simp add: same_trusted_view_def trustedGroup_def publishable_without_unreachable)
  from rows_read_trusted_groups [OF row this] show "project row ?inp = project row inp"
    by (simp add: project_def publishable_without_unreachable)
next
  fix row
  show "isRowFullyTrusted row (pi_untrustedScopes inp)
      \<longleftrightarrow> list_all (\<lambda>u. us_scope u \<notin> set (row_readScopes row)
            \<or> us_reason u \<in> set (row_toleratedDistrust row)) (pi_untrustedScopes inp)"
    by (auto simp: isRowFullyTrusted_def isRowTrusted_def list_all_iff list_ex_iff)
qed

section \<open>No service at its defaults\<close>

text \<open>
  The characteristics a new service is constructed with, each at the default of its format: the ones
  the custom services declare required, and those of the standard services of HAP.
\<close>

fun required_characteristics :: "ServiceClass \<Rightarrow> Characteristic list" where
  "required_characteristics LeakSensor = [LeakDetected]"
| "required_characteristics ContactSensor = [ContactSensorState]"
| "required_characteristics Battery = [StatusLowBattery]"
| "required_characteristics Switch = [On]"
| "required_characteristics SumpPitService = [WaterLevel, RawWaterLevelCode]"
| "required_characteristics PumpService = [PumpRunning]"
| "required_characteristics SumpMainsPowerService = [MainsPowerPresent]"
| "required_characteristics BackupBatteryService =
    [BatteryCharging, BatteryVoltageLow, BatteryHealthCode, ProtectionHoursCode]"

text \<open>An input whose decoded state is a decoded state, and whose missing scopes are untrusted.\<close>

definition input_of :: "scopedDomainState \<Rightarrow> projectionInput \<Rightarrow> bool" where
  "input_of d inp = (pi_decoded inp = Some (domainObject d)
    \<and> (\<forall>sc. \<not> scope_decoded d sc \<longrightarrow> (\<exists>u \<in> set (pi_untrustedScopes inp). us_scope u = sc \<and> us_reason u = Invalid)))"

lemma decodedGroup_object: "decodedGroup (Some (domainObject d)) sc = scope_object d sc"
proof -
  have "isRecord (Some (domainObject d))" by (simp add: domainObject_def)
  moreover have "isRecord (scope_object d sc) \<or> scope_object d sc = None"
    by (cases sc) (auto split: option.splits)
  ultimately show ?thesis
    by (auto simp: decodedGroup_def domainObject_get Let_def)
qed

lemma scope_object_decoded: "scope_decoded d sc \<longleftrightarrow> scope_object d sc \<noteq> None"
  by (cases sc) auto

lemma publishable_group:
  assumes "input_of d inp" and "isRowPublishable \<lparr>rt_scope = sc, rt_toleratedDistrust = tol\<rparr> (pi_untrustedScopes inp)"
    and "Invalid \<notin> set tol"
  shows "trustedGroup inp \<lparr>rt_scope = sc, rt_toleratedDistrust = tol\<rparr> sc = scope_object d sc"
    and "scope_decoded d sc"
proof -
  show "scope_decoded d sc"
    using assms by (fastforce simp: input_of_def isRowPublishable_def list_ex_iff SEEING_LESS_REASONS_def)
  show "trustedGroup inp \<lparr>rt_scope = sc, rt_toleratedDistrust = tol\<rparr> sc = scope_object d sc"
    using assms by (simp add: trustedGroup_def input_of_def decodedGroup_object)
qed

definition projects :: "Characteristic \<Rightarrow> projectedValue list \<Rightarrow> bool" where
  "projects c ps = (\<exists>pv \<in> set ps. pv_characteristic pv = c)"

lemma projects_published: "projects c (published cs) \<longleftrightarrow> (\<exists>v. (c, Some v) \<in> set cs)"
proof
  assume "projects c (published cs)"
  then show "\<exists>v. (c, Some v) \<in> set cs" by (auto simp: projects_def in_published)
next
  assume "\<exists>v. (c, Some v) \<in> set cs"
  then obtain v where "(c, Some v) \<in> set cs" ..
  then show "projects c (published cs)"
    unfolding projects_def by (intro bexI [of _ "\<lparr>pv_characteristic = c, pv_value = v\<rparr>"])
      (simp_all add: in_published)
qed

lemma projects_Cons [simp]:
  "projects c (published ((c', v) # cs)) \<longleftrightarrow> (c = c' \<and> v \<noteq> None) \<or> projects c (published cs)"
  by (auto simp: projects_published)

lemma states_defined [simp]:
  "leakState f = None \<longleftrightarrow> f = None" "contactState f = None \<longleftrightarrow> f = None"
  "faultState_value f = None \<longleftrightarrow> f = None" "lowBatteryState f = None \<longleftrightarrow> f = None"
  "chargingState f = None \<longleftrightarrow> f = None" "inverted f = None \<longleftrightarrow> f = None"
  by (simp_all add: leakState_def contactState_def faultState_value_def lowBatteryState_def
      chargingState_def inverted_def)

lemma decoded_fields:
  "scope_decoded d WaterScope \<Longrightarrow> booleanOf (scope_object d WaterScope) ''flooded'' \<noteq> None"
  "scope_decoded d WaterScope \<Longrightarrow> numberOf (scope_object d WaterScope) ''levelPercent'' \<noteq> None"
  "scope_decoded d WaterScope \<Longrightarrow> numberOf (scope_object d WaterScope) ''levelCode'' \<noteq> None"
  "scope_decoded d PumpScope \<Longrightarrow> booleanOf (scope_object d PumpScope) ''primaryRunning'' \<noteq> None"
  "scope_decoded d PumpScope \<Longrightarrow> booleanOf (scope_object d PumpScope) ''backupRunning'' \<noteq> None"
  "scope_decoded d PowerScope \<Longrightarrow> booleanOf (scope_object d PowerScope) ''mainsPresent'' \<noteq> None"
  "scope_decoded d BatteryScope \<Longrightarrow> booleanOf (scope_object d BatteryScope) ''charging'' \<noteq> None"
  "scope_decoded d BatteryScope \<Longrightarrow> booleanOf (scope_object d BatteryScope) ''voltageLow'' \<noteq> None"
  "scope_decoded d BatteryScope \<Longrightarrow> booleanOf (scope_object d BatteryScope) ''low'' \<noteq> None"
  "scope_decoded d BatteryScope \<Longrightarrow> numberOf (scope_object d BatteryScope) ''healthCode'' \<noteq> None"
  "scope_decoded d BatteryScope \<Longrightarrow> numberOf (scope_object d BatteryScope) ''protectionHoursCode'' \<noteq> None"
  "scope_decoded d FaultScope \<Longrightarrow> booleanOf (scope_object d FaultScope) ''primaryPumpFault'' \<noteq> None"
  "scope_decoded d FaultScope \<Longrightarrow> booleanOf (scope_object d FaultScope) ''backupPumpFault'' \<noteq> None"
  "scope_decoded d FaultScope \<Longrightarrow> booleanOf (scope_object d FaultScope) ''backupPumpFuseBlown'' \<noteq> None"
  "scope_decoded d FaultScope \<Longrightarrow> booleanOf (scope_object d FaultScope) ''waterSensorFault'' \<noteq> None"
  "scope_decoded d FaultScope \<Longrightarrow> booleanOf (scope_object d FaultScope) ''controllerLinkPresent'' \<noteq> None"
  by (auto simp: booleanOf_def numberOf_def jm_get_def)

lemma row_required:
  assumes "input_of d inp"
  shows "\<forall>row \<in> set createServiceCatalogue. \<not> row_alwaysPublish row \<longrightarrow> project row inp \<noteq> [] \<longrightarrow>
    (\<forall>c \<in> set (required_characteristics (row_serviceClass row)). projects c (project row inp))"
proof -
  note group = publishable_group(1) [OF assms] publishable_group(2) [OF assms, where tol = "[]"]
    publishable_group(2) [OF assms, where tol = "[ControllerLinkLost]"]
  note fields = decoded_fields [of d]
  have *: "backupPumpFaulted (scope_object d FaultScope) \<noteq> None" if "scope_decoded d FaultScope"
    using fields(13,14) [OF that] by (auto simp: backupPumpFaulted_def split: option.splits)
  show ?thesis
    by (rule catalogue_cases;
        simp add: row_defs project_def row_trust_def floodValues_def sumpPitLevelValues_def
          primaryPumpValues_def backupPumpValues_def pumpValues_def pumpActivityValues_def
          mainsPowerValues_def mainsPowerLostValues_def batteryValues_def batteryFactsValues_def
          faultAdapterValues_def controllerLinkValues_def offlineValues_def Let_def group fields *
          del: scope_object.simps scope_decoded.simps not_None_eq)
qed

text \<open>
  No service is added at a default nobody reported: whenever \<open>ensureService\<close> adds the service of
  a row for an input whose undecoded scopes are marked invalid, either the row is one of the two
  control switches, or the very same projection carries a value for every characteristic the
  service is constructed with.
\<close>

theorem new_service_is_never_a_default:
  assumes "row \<in> set createServiceCatalogue" and "input_of d inp"
    and "AddService key name \<in> set (fst (snd (ensureService carried row (project row inp))))"
  shows "row_serviceClass row = Switch
    \<or> list_all (\<lambda>c. projects c (project row inp)) (required_characteristics (row_serviceClass row))"
proof (cases "row_alwaysPublish row")
  case True
  then show ?thesis using catalogue_always assms(1) by blast
next
  case False
  then have "project row inp \<noteq> []"
    using assms(3) by (auto simp: ensureService_def split: option.splits if_splits)
  then show ?thesis
    using row_required [OF assms(2)] assms(1) False by (auto simp: list_all_iff)
qed

section \<open>Witnesses\<close>

definition demo_state :: scopedDomainState where
  "demo_state = \<lparr>sd_water = Some \<lparr>levelCode = Fin 31, levelPercent = 100, flooded = True\<rparr>,
     sd_pump = None, sd_power = None, sd_battery = None, sd_fault = None, sd_connectivity = None,
     sd_selfTest = None, sd_alarmMute = None, sd_metadata = None\<rparr>"

definition demo_input :: projectionInput where
  "demo_input = \<lparr>pi_decoded = Some (domainObject demo_state),
     pi_untrustedScopes = map (\<lambda>sc. \<lparr>us_scope = sc, us_reason = Invalid, us_lastTrustedAt = None\<rparr>)
       [PumpScope, PowerScope, BatteryScope, FaultScope, ConnectivityScope, SelfTestScope, AlarmMuteScope],
     pi_offlineConfirmed = False, pi_controllerDataLastTrustedAt = [], pi_pendingControls = [],
     pi_primaryPumpRecord = None, pi_backupPumpRecord = None\<rparr>"

definition flood_row :: serviceRow where
  "flood_row = simple_row SumpPitFlood ''Sump Pit Flood'' WaterScope LeakSensor floodValues"

lemma flood_row_in: "flood_row \<in> set createServiceCatalogue"
  by (simp add: createServiceCatalogue_def waterDefinitions_def flood_row_def)

lemma demo_input_ok: "input_of demo_state demo_input"
proof -
  have "\<not> scope_decoded demo_state sc \<Longrightarrow> sc \<noteq> WaterScope" for sc
    by (cases sc) (simp_all add: demo_state_def)
  then show ?thesis
    unfolding input_of_def demo_input_def by (auto elim: scope_decoded.elims(3))
qed

theorem new_service_is_never_a_default_witness:
  "projects LeakDetected (project flood_row demo_input)"
proof -
  have "fst (snd (ensureService [] flood_row (project flood_row demo_input)))
      = [AddService (LeakSensor, ''sump-pit-flood'') ''Sump Pit Flood'']"
    by code_simp
  then have "AddService (LeakSensor, ''sump-pit-flood'') ''Sump Pit Flood''
      \<in> set (fst (snd (ensureService [] flood_row (project flood_row demo_input))))" by simp
  from new_service_is_never_a_default [OF flood_row_in demo_input_ok this] show ?thesis
    by (simp add: flood_row_def simple_row_def)
qed

theorem doubtful_groups_are_withheld_witness:
  "project flood_row (demo_input\<lparr>pi_decoded := Some (domainObject
      (demo_state\<lparr>sd_pump := Some \<lparr>primaryRunning = True, backupRunning = True, backupActivatedAt = None\<rparr>\<rparr>))\<rparr>)
    = project flood_row demo_input"
proof (rule doubtful_groups_are_withheld [OF flood_row_in], intro allI)
  fix sc
  let ?d = "demo_state\<lparr>sd_pump := Some \<lparr>primaryRunning = True, backupRunning = True, backupActivatedAt = None\<rparr>\<rparr>"
  show "(\<exists>u \<in> set (pi_untrustedScopes demo_input). us_scope u = sc \<and> us_reason u \<noteq> Unreachable
        \<and> us_reason u \<notin> set (row_toleratedDistrust flood_row))
    \<or> decodedGroup (pi_decoded demo_input) sc = decodedGroup (Some (domainObject ?d)) sc"
    by (cases sc) (simp_all add: demo_input_def flood_row_def simple_row_def decodedGroup_object demo_state_def)
qed

theorem projections_are_legal_witness:
  "all_legal (project flood_row demo_input)"
  using projections_are_legal [of demo_input] flood_row_in
  unfolding all_legal_def list_all_iff by blast

theorem quiet_transport_keeps_publishing_witness:
  "project flood_row (demo_input\<lparr>pi_untrustedScopes := without_unreachable
      (pi_untrustedScopes (demo_input\<lparr>pi_untrustedScopes :=
        \<lparr>us_scope = WaterScope, us_reason = Unreachable, us_lastTrustedAt = None\<rparr> # pi_untrustedScopes demo_input\<rparr>))\<rparr>)
    = project flood_row (demo_input\<lparr>pi_untrustedScopes :=
        \<lparr>us_scope = WaterScope, us_reason = Unreachable, us_lastTrustedAt = None\<rparr> # pi_untrustedScopes demo_input\<rparr>)"
  using quiet_transport_keeps_publishing [of "demo_input\<lparr>pi_untrustedScopes :=
      \<lparr>us_scope = WaterScope, us_reason = Unreachable, us_lastTrustedAt = None\<rparr> # pi_untrustedScopes demo_input\<rparr>"]
    flood_row_in by simp

end
