(* ===== verification/Controls.thy ===== *)
theory Controls
  imports ServiceCatalogue
begin

text \<open>
  The write half of the control switches, \<open>src/src/accessories/controls.ts\<close>, with the alarm-mute
  value of \<open>src/src/accessories/alarmMute.ts\<close> and the command outcomes of
  \<open>src/src/runtime/commandPort.ts\<close>.

  A press, the vendor's answer to a command, a timer and a device report arrive as separate events,
  because each \<open>await\<close> and each timer gives control back to the event loop. What the accessory
  answers at that moment (the reported value, the route, the live path) is an argument of the
  event. Outputs are recorded in order; a thrown \<open>HapStatusError\<close> is the output
  \<open>ThrowStatus\<close>.
\<close>

section \<open>Vocabulary\<close>

datatype CommandFailure = VendorError | TimedOut

datatype CommandOutcome = Accepted | Refused CommandFailure

datatype HapStatus =
    NOT_ALLOWED_IN_CURRENT_STATE | RESOURCE_BUSY | OPERATION_TIMED_OUT | SERVICE_COMMUNICATION_FAILURE

definition PENDING_WINDOW_MS :: nat where
  "PENDING_WINDOW_MS = 30000"

definition PROVISIONAL_ALARM_MUTE_REQUESTED_VALUE :: bool where
  "PROVISIONAL_ALARM_MUTE_REQUESTED_VALUE = True"

definition NO_COMMAND_TRANSPORT_CAUSE :: string where
  "NO_COMMAND_TRANSPORT_CAUSE = ''the plugin has no way to reach the vendor right now''"

definition QUIET_LIVE_CONNECTION_CAUSE :: string where
  "QUIET_LIVE_CONNECTION_CAUSE =
    ''the live connection is quiet, so the plugin cannot see the device confirm the command''"

type_synonym timerHandle = nat

record pendingRequest =
  pq_value :: bool
  pq_handle :: timerHandle

record controlRequest =
  cr_value :: CharacteristicValue
  cr_accepted :: bool
  cr_reported :: "bool option"
  cr_offlineConfirmed :: bool
  cr_transportReady :: bool
  cr_confirmationObservable :: bool
  cr_pending :: bool

record localRefusal =
  lr_applies :: "controlRequest \<Rightarrow> bool"
  lr_status :: HapStatus
  lr_cause :: string

section \<open>The refusal rules\<close>

definition acceptedValueOf :: "DeviceCapability \<Rightarrow> bool" where
  "acceptedValueOf capability =
    (case capability of AlarmMute \<Rightarrow> PROVISIONAL_ALARM_MUTE_REQUESTED_VALUE | SelfTest \<Rightarrow> True)"

definition isNotAnOnRequest :: "controlRequest \<Rightarrow> bool" where
  "isNotAnOnRequest request = (cr_value request \<noteq> VBool (cr_accepted request))"

definition hasNoCommandTransport :: "controlRequest \<Rightarrow> bool" where
  "hasNoCommandTransport request = (\<not> cr_transportReady request)"

definition cannotSeeAConfirmation :: "controlRequest \<Rightarrow> bool" where
  "cannotSeeAConfirmation request = (\<not> cr_confirmationObservable request)"

definition hasNoFreshState :: "controlRequest \<Rightarrow> bool" where
  "hasNoFreshState request = (cr_reported request = None)"

definition isConfirmedOffline :: "controlRequest \<Rightarrow> bool" where
  "isConfirmedOffline request = cr_offlineConfirmed request"

definition isAlreadyActive :: "controlRequest \<Rightarrow> bool" where
  "isAlreadyActive request = (cr_reported request = Some (cr_accepted request))"

definition isAwaitingConfirmation :: "controlRequest \<Rightarrow> bool" where
  "isAwaitingConfirmation request = cr_pending request"

definition LOCAL_REFUSALS :: "localRefusal list" where
  "LOCAL_REFUSALS =
    [\<lparr>lr_applies = isNotAnOnRequest, lr_status = NOT_ALLOWED_IN_CURRENT_STATE,
      lr_cause = ''only an on request is supported, and the device reports when the condition ends''\<rparr>,
     \<lparr>lr_applies = hasNoCommandTransport, lr_status = NOT_ALLOWED_IN_CURRENT_STATE,
      lr_cause = NO_COMMAND_TRANSPORT_CAUSE\<rparr>,
     \<lparr>lr_applies = cannotSeeAConfirmation, lr_status = NOT_ALLOWED_IN_CURRENT_STATE,
      lr_cause = QUIET_LIVE_CONNECTION_CAUSE\<rparr>,
     \<lparr>lr_applies = hasNoFreshState, lr_status = NOT_ALLOWED_IN_CURRENT_STATE,
      lr_cause = ''the plugin has no fresh state for it''\<rparr>,
     \<lparr>lr_applies = isConfirmedOffline, lr_status = NOT_ALLOWED_IN_CURRENT_STATE,
      lr_cause = ''the device is confirmed offline''\<rparr>,
     \<lparr>lr_applies = isAlreadyActive, lr_status = RESOURCE_BUSY, lr_cause = ''it already reads active''\<rparr>,
     \<lparr>lr_applies = isAwaitingConfirmation, lr_status = RESOURCE_BUSY,
      lr_cause = ''an earlier request is still waiting for the device to confirm it''\<rparr>]"

definition localRefusalFor :: "controlRequest \<Rightarrow> localRefusal option" where
  "localRefusalFor request = find (\<lambda>refusal. lr_applies refusal request) LOCAL_REFUSALS"

definition statusOf :: "CommandFailure \<Rightarrow> HapStatus" where
  "statusOf failure = (case failure of TimedOut \<Rightarrow> OPERATION_TIMED_OUT
    | VendorError \<Rightarrow> SERVICE_COMMUNICATION_FAILURE)"

definition capability_name :: "DeviceCapability \<Rightarrow> string" where
  "capability_name c = scope_name (capability_scope c)"

definition outcomeWarning :: "DeviceCapability \<Rightarrow> string \<Rightarrow> CommandFailure \<Rightarrow> string" where
  "outcomeWarning capability deviceId failure = (case failure of
      TimedOut \<Rightarrow> ''The '' @ capability_name capability @ '' request on '' @ deviceId
        @ '' timed out and may still have reached the device. It is not retried.''
    | VendorError \<Rightarrow> ''The '' @ capability_name capability @ '' request on '' @ deviceId
        @ '' did not take effect: vendor-error. It is not retried.'')"

section \<open>State and outputs\<close>

datatype controlTimer =
    ExpireTimer DeviceCapability serviceKey bool
  | ClearingPush DeviceCapability serviceKey
  | RestoredPush serviceKey

datatype controlOutput =
    SendCommand DeviceCapability bool
  | ArmTimer timerHandle nat controlTimer
  | CancelTimer timerHandle
  | ControlWarning string
  | ThrowStatus HapStatus
  | Republish
  | PublishOn serviceKey bool

text \<open>
  \<open>cb_timers\<close> are the timers the process still holds for this binder, \<open>cb_inflight\<close> the commands
  whose answer has not arrived.
\<close>

record controlBinder =
  cb_deviceId :: string
  cb_requested :: "(DeviceCapability, pendingRequest) jsmap"
  cb_bound :: "serviceKey list"
  cb_timers :: "(timerHandle, controlTimer) jsmap"
  cb_nextHandle :: timerHandle
  cb_inflight :: "(DeviceCapability \<times> serviceKey) list"

definition createControlBinder :: "string \<Rightarrow> controlBinder" where
  "createControlBinder deviceId = \<lparr>cb_deviceId = deviceId, cb_requested = [], cb_bound = [],
     cb_timers = [], cb_nextHandle = 0, cb_inflight = []\<rparr>"

text \<open>What the accessory and the HAP service answer when an event is handled.\<close>

record controlFacts =
  cf_reported :: "bool option"
  cf_offlineConfirmed :: bool
  cf_transportReady :: bool
  cf_confirmationObservable :: bool
  cf_heldOn :: bool

definition arm :: "nat \<Rightarrow> controlTimer \<Rightarrow> controlBinder \<Rightarrow> controlOutput \<times> controlBinder" where
  "arm delay task b =
    (ArmTimer (cb_nextHandle b) delay task,
     b\<lparr>cb_timers := jm_set (cb_nextHandle b) task (cb_timers b), cb_nextHandle := Suc (cb_nextHandle b)\<rparr>)"

definition resolvePending :: "DeviceCapability \<Rightarrow> controlBinder \<Rightarrow> controlOutput list \<times> controlBinder" where
  "resolvePending capability b = (case jm_get (cb_requested b) capability of
      None \<Rightarrow> ([], b)
    | Some entry \<Rightarrow> ([CancelTimer (pq_handle entry)],
        b\<lparr>cb_timers := jm_delete (pq_handle entry) (cb_timers b),
          cb_requested := jm_delete capability (cb_requested b)\<rparr>))"

definition clearRefusal :: "controlFacts \<Rightarrow> serviceKey \<Rightarrow> controlOutput list" where
  "clearRefusal facts service =
    [Republish,
     PublishOn service (case cf_reported facts of Some r \<Rightarrow> r | None \<Rightarrow> cf_heldOn facts)]"

text \<open>
  The window of a request closed: \<open>heldBefore\<close> is the value the characteristic held when the request
  was accepted.
\<close>

definition expire ::
  "DeviceCapability \<Rightarrow> serviceKey \<Rightarrow> bool \<Rightarrow> controlFacts \<Rightarrow> controlBinder \<Rightarrow> controlOutput list \<times> controlBinder"
where
  "expire capability service heldBefore facts b =
    (if \<not> jm_has (cb_requested b) capability then ([], b)
     else ([Republish,
            PublishOn service (case cf_reported facts of Some r \<Rightarrow> r | None \<Rightarrow> heldBefore),
            ControlWarning (''The '' @ capability_name capability @ '' request on '' @ cb_deviceId b
              @ '' was never confirmed by the device. It is not retried.'')],
           b\<lparr>cb_requested := jm_delete capability (cb_requested b)\<rparr>))"

definition refuseLocally ::
  "serviceKey \<Rightarrow> DeviceCapability \<Rightarrow> localRefusal \<Rightarrow> controlBinder \<Rightarrow> controlOutput list \<times> controlBinder"
where
  "refuseLocally service capability refusal b =
    (let (armed, b') = arm 0 (ClearingPush capability service) b
     in ([armed,
          ControlWarning (''Refused '' @ capability_name capability @ '' on '' @ cb_deviceId b @ '': ''
            @ lr_cause refusal @ ''.''),
          ThrowStatus (lr_status refusal)], b'))"

definition refuseOutcome ::
  "serviceKey \<Rightarrow> DeviceCapability \<Rightarrow> CommandFailure \<Rightarrow> controlBinder \<Rightarrow> controlOutput list \<times> controlBinder"
where
  "refuseOutcome service capability failure b =
    (let (cleared, b1) = (if failure = VendorError then resolvePending capability b else ([], b));
         (armed, b2) = arm 0 (ClearingPush capability service) b1
     in (cleared @ [armed, ControlWarning (outcomeWarning capability (cb_deviceId b) failure),
                    ThrowStatus (statusOf failure)], b2))"

text \<open>A press, up to the command's departure.\<close>

definition answerWrite ::
  "serviceKey \<Rightarrow> DeviceCapability \<Rightarrow> controlFacts \<Rightarrow> CharacteristicValue \<Rightarrow> controlBinder
    \<Rightarrow> controlOutput list \<times> controlBinder" where
  "answerWrite service capability facts v b =
    (let accepted = acceptedValueOf capability in
     case localRefusalFor
            \<lparr>cr_value = v, cr_accepted = accepted, cr_reported = cf_reported facts,
             cr_offlineConfirmed = cf_offlineConfirmed facts, cr_transportReady = cf_transportReady facts,
             cr_confirmationObservable = cf_confirmationObservable facts,
             cr_pending = jm_has (cb_requested b) capability\<rparr> of
       Some refusal \<Rightarrow> refuseLocally service capability refusal b
     | None \<Rightarrow>
         let (armed, b') = arm PENDING_WINDOW_MS (ExpireTimer capability service (cf_heldOn facts)) b
         in ([armed, SendCommand capability accepted],
             b'\<lparr>cb_requested := jm_set capability \<lparr>pq_value = accepted, pq_handle = cb_nextHandle b\<rparr>
                                  (cb_requested b'),
                cb_inflight := cb_inflight b' @ [(capability, service)]\<rparr>))"

text \<open>The rest of \<open>answerWrite\<close>, when the answer of the command arrives.\<close>

definition answerOutcome ::
  "serviceKey \<Rightarrow> DeviceCapability \<Rightarrow> CommandOutcome \<Rightarrow> controlBinder \<Rightarrow> controlOutput list \<times> controlBinder"
where
  "answerOutcome service capability outcome b =
    (let b' = b\<lparr>cb_inflight := remove1 (capability, service) (cb_inflight b)\<rparr>
     in case outcome of
          Accepted \<Rightarrow> ([], b')
        | Refused failure \<Rightarrow> refuseOutcome service capability failure b')"

definition control_reconcile ::
  "DeviceCapability \<Rightarrow> bool option \<Rightarrow> controlBinder \<Rightarrow> controlOutput list \<times> controlBinder" where
  "control_reconcile capability reported b =
    (if map_option pq_value (jm_get (cb_requested b) capability) = reported
     then resolvePending capability b else ([], b))"

text \<open>\<open>bind\<close> registers a write handler once per service.\<close>

definition control_bind :: "serviceKey \<Rightarrow> controlBinder \<Rightarrow> bool \<times> controlBinder" where
  "control_bind service b =
    (if service \<in> set (cb_bound b) then (False, b)
     else (True, b\<lparr>cb_bound := cb_bound b @ [service]\<rparr>))"

definition control_pending :: "controlBinder \<Rightarrow> DeviceCapability list" where
  "control_pending b = jm_keys (cb_requested b)"

definition timerFired :: "timerHandle \<Rightarrow> controlFacts \<Rightarrow> controlBinder \<Rightarrow> controlOutput list \<times> controlBinder" where
  "timerFired h facts b = (case jm_get (cb_timers b) h of
      None \<Rightarrow> ([], b)
    | Some task \<Rightarrow>
        let b' = b\<lparr>cb_timers := jm_delete h (cb_timers b)\<rparr>
        in case task of
             ExpireTimer capability service heldBefore \<Rightarrow> expire capability service heldBefore facts b'
           | ClearingPush capability service \<Rightarrow> (clearRefusal facts service, b')
           | RestoredPush service \<Rightarrow> ([PublishOn service (cf_heldOn facts)], b'))"

text \<open>
  The refusal a restored switch answers before any accessory has bound it; \<open>h\<close> is the handle of
  the timer it arms. Its clearing push republishes nothing and pushes the value the switch holds.
\<close>

definition bindRestoredControlRefusal ::
  "timerHandle \<Rightarrow> serviceKey \<Rightarrow> string \<Rightarrow> string \<Rightarrow> controlOutput list" where
  "bindRestoredControlRefusal h service displayName accessoryName =
    [ArmTimer h 0 (RestoredPush service),
     ControlWarning (''Refused '' @ displayName @ '' on '' @ accessoryName @ '': ''
       @ NO_COMMAND_TRANSPORT_CAUSE @ ''.''),
     ThrowStatus NOT_ALLOWED_IN_CURRENT_STATE]"

section \<open>Pressing a control\<close>

definition write_request :: "DeviceCapability \<Rightarrow> controlFacts \<Rightarrow> CharacteristicValue \<Rightarrow> controlBinder \<Rightarrow> controlRequest" where
  "write_request capability facts v b =
    \<lparr>cr_value = v, cr_accepted = acceptedValueOf capability, cr_reported = cf_reported facts,
     cr_offlineConfirmed = cf_offlineConfirmed facts, cr_transportReady = cf_transportReady facts,
     cr_confirmationObservable = cf_confirmationObservable facts,
     cr_pending = jm_has (cb_requested b) capability\<rparr>"

lemma accepted_true [simp]: "acceptedValueOf c = True"
  by (cases c) (simp_all add: acceptedValueOf_def PROVISIONAL_ALARM_MUTE_REQUESTED_VALUE_def)

lemmas refusal_defs = isNotAnOnRequest_def hasNoCommandTransport_def cannotSeeAConfirmation_def
  hasNoFreshState_def isConfirmedOffline_def isAlreadyActive_def isAwaitingConfirmation_def

definition sends :: "controlOutput list \<Rightarrow> (DeviceCapability \<times> bool) list" where
  "sends os = List.map_filter (\<lambda>out. case out of SendCommand c v \<Rightarrow> Some (c, v) | _ \<Rightarrow> None) os"

definition thrown :: "controlOutput list \<Rightarrow> HapStatus list" where
  "thrown os = List.map_filter (\<lambda>out. case out of ThrowStatus st \<Rightarrow> Some st | _ \<Rightarrow> None) os"

lemma output_simps [simp]:
  "sends [] = []" "sends (SendCommand c v # os) = (c, v) # sends os"
  "sends (ArmTimer h n t # os) = sends os" "sends (CancelTimer h # os) = sends os"
  "sends (ControlWarning w # os) = sends os" "sends (ThrowStatus st # os) = sends os"
  "sends (Republish # os) = sends os" "sends (PublishOn s bb # os) = sends os"
  "thrown [] = []" "thrown (SendCommand c v # os) = thrown os"
  "thrown (ArmTimer h n t # os) = thrown os" "thrown (CancelTimer h # os) = thrown os"
  "thrown (ControlWarning w # os) = thrown os" "thrown (ThrowStatus st # os) = st # thrown os"
  "thrown (Republish # os) = thrown os" "thrown (PublishOn s bb # os) = thrown os"
  by (simp_all add: sends_def thrown_def List.map_filter_simps)

lemma answerWrite_cases:
  "answerWrite service capability facts v b =
    (case localRefusalFor (write_request capability facts v b) of
       Some refusal \<Rightarrow> refuseLocally service capability refusal b
     | None \<Rightarrow>
         (let (armed, b') = arm PENDING_WINDOW_MS (ExpireTimer capability service (cf_heldOn facts)) b
          in ([armed, SendCommand capability True],
              b'\<lparr>cb_requested := jm_set capability \<lparr>pq_value = True, pq_handle = cb_nextHandle b\<rparr>
                                  (cb_requested b'),
                 cb_inflight := cb_inflight b' @ [(capability, service)]\<rparr>)))"
  by (simp add: answerWrite_def write_request_def)

text \<open>
  C12. A press reaches the pump exactly when none of the seven rules refuses it: it asks for \<open>on\<close>, a
  route to the vendor is proven, the live path can carry the confirmation, the device reported
  the state as off, it is not confirmed offline, and no earlier request waits. Then one command goes
  out, asking for \<open>true\<close>; otherwise none does and one HAP error is thrown, busy only when the
  request itself was serviceable.
\<close>

theorem press_sends_iff_not_refused:
  "let outs = fst (answerWrite service capability facts v b);
       serviceable = (v = VBool True \<and> cf_transportReady facts \<and> cf_confirmationObservable facts
         \<and> cf_reported facts \<noteq> None \<and> \<not> cf_offlineConfirmed facts);
       busy = (cf_reported facts = Some True \<or> jm_has (cb_requested b) capability)
   in sends outs = (if serviceable \<and> \<not> busy then [(capability, True)] else [])
      \<and> thrown outs = (if serviceable then (if busy then [RESOURCE_BUSY] else [])
                        else [NOT_ALLOWED_IN_CURRENT_STATE])"
  unfolding answerWrite_cases localRefusalFor_def
  by (simp add: Let_def write_request_def LOCAL_REFUSALS_def refusal_defs refuseLocally_def arm_def)

section \<open>Runs of the binder\<close>

datatype controlEvent =
    Press serviceKey DeviceCapability controlFacts CharacteristicValue
  | Answer serviceKey DeviceCapability CommandOutcome
  | Report DeviceCapability "bool option"
  | Fire timerHandle controlFacts

fun control_step :: "controlEvent \<Rightarrow> controlBinder \<Rightarrow> controlOutput list \<times> controlBinder" where
  "control_step (Press service c facts v) b = answerWrite service c facts v b"
| "control_step (Answer service c outcome) b = answerOutcome service c outcome b"
| "control_step (Report c reported) b = control_reconcile c reported b"
| "control_step (Fire h facts) b = timerFired h facts b"

text \<open>An answer belongs to a command that is out, a timer fires while the process holds it.\<close>

fun enabled :: "controlEvent \<Rightarrow> controlBinder \<Rightarrow> bool" where
  "enabled (Answer service c outcome) b = ((c, service) \<in> set (cb_inflight b))"
| "enabled (Fire h facts) b = jm_has (cb_timers b) h"
| "enabled _ b = True"

inductive control_run :: "string \<Rightarrow> (controlEvent \<times> controlOutput list) list \<Rightarrow> controlBinder \<Rightarrow> bool"
  for deviceId where
  start: "control_run deviceId [] (createControlBinder deviceId)"
| step: "control_run deviceId es b \<Longrightarrow> enabled e b \<Longrightarrow> control_step e b = (outs, b') \<Longrightarrow>
    control_run deviceId (es @ [(e, outs)]) b'"

text \<open>
  Every request that waits has the one timer that ends it, and every expiry timer belongs to the request
  that waits: a request that ended in any other way took its timer with it.
\<close>

definition timers_match :: "controlBinder \<Rightarrow> bool" where
  "timers_match b =
    ((\<forall>h task. jm_get (cb_timers b) h = Some task \<longrightarrow> h < cb_nextHandle b)
     \<and> (\<forall>c q. jm_get (cb_requested b) c = Some q \<longrightarrow>
          (\<exists>s v. jm_get (cb_timers b) (pq_handle q) = Some (ExpireTimer c s v)))
     \<and> (\<forall>h c s v. jm_get (cb_timers b) h = Some (ExpireTimer c s v) \<longrightarrow>
          (\<exists>q. jm_get (cb_requested b) c = Some q \<and> pq_handle q = h)))"

lemma jm_has_get: "jm_has m k \<longleftrightarrow> (\<exists>v. jm_get m k = Some v)"
  by (auto simp: jm_has_def)

lemma timers_match_resolve:
  assumes m: "timers_match b"
  shows "timers_match (snd (resolvePending c b))"
proof (cases "jm_get (cb_requested b) c")
  case None
  then show ?thesis using m by (simp add: resolvePending_def)
next
  case (Some q)
  have own: "c' = c" if "jm_get (cb_timers b) (pq_handle q) = Some (ExpireTimer c' s v)" for c' s v
    using that m Some unfolding timers_match_def by (metis controlTimer.inject(1) option.inject)
  have other: "pq_handle q' \<noteq> pq_handle q"
    if "jm_get (cb_requested b) c' = Some q'" "c' \<noteq> c" for c' q'
    using that m own unfolding timers_match_def by metis
  have mine: "h = pq_handle q" if "jm_get (cb_timers b) h = Some (ExpireTimer c s v)" for h s v
    using that m Some unfolding timers_match_def by (metis option.inject)
  let ?b = "snd (resolvePending c b)"
  have t: "jm_get (cb_timers ?b) h = (if h = pq_handle q then None else jm_get (cb_timers b) h)"
    and r: "jm_get (cb_requested ?b) c' = (if c' = c then None else jm_get (cb_requested b) c')"
    and n: "cb_nextHandle ?b = cb_nextHandle b" for h c'
    using Some by (simp_all add: resolvePending_def)
  show ?thesis
    unfolding timers_match_def
  proof (intro conjI allI impI)
    show "h < cb_nextHandle ?b" if "jm_get (cb_timers ?b) h = Some task" for h task
      using that m unfolding t n timers_match_def by (simp split: if_splits)
    show "\<exists>s v. jm_get (cb_timers ?b) (pq_handle q') = Some (ExpireTimer c' s v)"
      if "jm_get (cb_requested ?b) c' = Some q'" for c' q'
      using that m other [of c' q'] unfolding t r timers_match_def by (simp split: if_splits)
    show "\<exists>q. jm_get (cb_requested ?b) c' = Some q \<and> pq_handle q = h"
      if "jm_get (cb_timers ?b) h = Some (ExpireTimer c' s v)" for h c' s v
      using that m mine [of h s v] unfolding t r timers_match_def by (auto split: if_splits)
  qed
qed

lemma timers_match_push:
  assumes m: "timers_match b" and "\<And>c s v. task \<noteq> ExpireTimer c s v"
  shows "timers_match (snd (arm n task b))"
proof -
  have free: "jm_get (cb_timers b) (cb_nextHandle b) = None"
    using m unfolding timers_match_def by (metis less_irrefl option.exhaust)
  have "pq_handle q \<noteq> cb_nextHandle b" if "jm_get (cb_requested b) c = Some q" for c q
    using m that free unfolding timers_match_def by (metis option.distinct(1))
  then show ?thesis
    using assms unfolding arm_def timers_match_def
    by (simp add: less_Suc_eq del: not_None_eq)
qed

lemma timers_match_inflight [simp]: "timers_match (b\<lparr>cb_inflight := x\<rparr>) = timers_match b"
  by (simp add: timers_match_def)

lemma timers_match_send:
  assumes m: "timers_match b" and "\<not> jm_has (cb_requested b) c"
  shows "timers_match ((snd (arm n (ExpireTimer c s v) b))\<lparr>cb_requested :=
    jm_set c \<lparr>pq_value = x, pq_handle = cb_nextHandle b\<rparr> (cb_requested b)\<rparr>)"
proof -
  have free: "jm_get (cb_timers b) (cb_nextHandle b) = None"
    using m unfolding timers_match_def by (metis less_irrefl option.exhaust)
  have new: "jm_get (cb_requested b) c = None"
    using assms(2) by (simp add: jm_has_get)
  show ?thesis
    using m free new unfolding arm_def timers_match_def
    by (simp add: less_Suc_eq) (metis option.distinct(1))
qed
lemma timers_match_fire:
  assumes "timers_match b" and "jm_get (cb_timers b) h = Some task"
  shows "timers_match (snd (timerFired h facts b))"
proof (cases task)
  case (ExpireTimer c s v)
  then obtain q where "jm_get (cb_requested b) c = Some q" "pq_handle q = h"
    using assms unfolding timers_match_def by blast
  then show ?thesis
    using assms ExpireTimer
    by (fastforce simp: timerFired_def expire_def jm_has_get timers_match_def)
next
  case (ClearingPush c s)
  then show ?thesis
    using assms by (fastforce simp: timerFired_def timers_match_def)
next
  case (RestoredPush s)
  then show ?thesis
    using assms by (fastforce simp: timerFired_def timers_match_def)
qed

lemma not_refused_not_pending:
  "localRefusalFor (write_request c facts v b) = None \<Longrightarrow> \<not> jm_has (cb_requested b) c"
  by (auto simp: localRefusalFor_def LOCAL_REFUSALS_def refusal_defs write_request_def split: if_splits)

lemma refuseLocally_state: "snd (refuseLocally s c r b) = snd (arm 0 (ClearingPush c s) b)"
  by (simp add: refuseLocally_def split_beta Let_def)

lemma refuseOutcome_state:
  "snd (refuseOutcome s c f b) = snd (arm 0 (ClearingPush c s)
    (if f = VendorError then snd (resolvePending c b) else b))"
  by (simp add: refuseOutcome_def split_beta Let_def)

lemma timers_match_step:
  assumes "timers_match b" and "enabled e b"
  shows "timers_match (snd (control_step e b))"
proof (cases e)
  case (Press s c facts v)
  show ?thesis
  proof (cases "localRefusalFor (write_request c facts v b)")
    case None
    then show ?thesis
      using timers_match_send [OF assms(1) not_refused_not_pending [OF None],
        where n = PENDING_WINDOW_MS and s = s and v = "cf_heldOn facts" and x = True]
      unfolding Press control_step.simps answerWrite_cases
      by (simp add: Let_def split_beta arm_def timers_match_def)
  next
    case (Some r)
    then show ?thesis
      using timers_match_push [OF assms(1)]
      unfolding Press control_step.simps answerWrite_cases by (simp add: refuseLocally_state)
  qed
next
  case (Answer s c outcome)
  then show ?thesis
    using assms(1)
    by (cases outcome)
      (auto simp: answerOutcome_def refuseOutcome_state Let_def intro!: timers_match_push timers_match_resolve)
next
  case (Report c r)
  then show ?thesis using assms(1) by (simp add: control_reconcile_def timers_match_resolve)
next
  case (Fire h facts)
  then show ?thesis using assms by (auto simp: jm_has_get intro: timers_match_fire)
qed

lemma timers_match_run: "control_run d es b \<Longrightarrow> timers_match b"
proof (induction rule: control_run.induct)
  case start
  then show ?case by (simp add: timers_match_def createControlBinder_def)
next
  case (step es b e outs b')
  then show ?case using timers_match_step [of b e] by simp
qed

text \<open>How one event changes what waits.\<close>

definition asks_on :: "controlBinder \<Rightarrow> bool" where
  "asks_on b = (\<forall>c q. jm_get (cb_requested b) c = Some q \<longrightarrow> pq_value q)"

lemma arm_requested [simp]: "cb_requested (snd (arm n task b)) = cb_requested b"
  by (simp add: arm_def)

lemma resolve_requested [simp]:
  "jm_get (cb_requested (snd (resolvePending c b))) c' = (if c' = c then None else jm_get (cb_requested b) c')"
  by (simp add: resolvePending_def split: option.splits)

lemma press_requested:
  "jm_get (cb_requested (snd (answerWrite s c facts v b))) c' =
    (if localRefusalFor (write_request c facts v b) = None \<and> c' = c
     then Some \<lparr>pq_value = True, pq_handle = cb_nextHandle b\<rparr> else jm_get (cb_requested b) c')"
  unfolding answerWrite_cases
  by (simp add: Let_def split_beta refuseLocally_state arm_def split: option.splits)

lemma press_sends:
  "sends (fst (answerWrite s c facts v b)) =
    (if localRefusalFor (write_request c facts v b) = None then [(c, True)] else [])"
  unfolding answerWrite_cases
  by (simp add: Let_def split_beta refuseLocally_def arm_def split: option.splits)

lemma answer_requested:
  "jm_get (cb_requested (snd (answerOutcome s c outcome b))) c' =
    (if outcome = Refused VendorError \<and> c' = c then None else jm_get (cb_requested b) c')"
  by (cases outcome) (auto simp: answerOutcome_def refuseOutcome_state Let_def)

lemma sends_append [simp]: "sends (xs @ ys) = sends xs @ sends ys"
  by (induction xs) (auto simp: sends_def List.map_filter_simps split: option.splits)

lemma sends_resolve [simp]: "sends (fst (resolvePending c b)) = []"
  by (simp add: resolvePending_def split: option.splits)

lemma quiet_steps:
  "sends (fst (answerOutcome s c outcome b)) = []"
  "sends (fst (control_reconcile c r b)) = []"
  "sends (fst (timerFired h facts b)) = []"
  by (simp_all add: answerOutcome_def refuseOutcome_def control_reconcile_def timerFired_def expire_def
      clearRefusal_def arm_def Let_def split_beta
      split: CommandOutcome.splits option.splits controlTimer.splits)

lemma report_requested:
  "jm_get (cb_requested (snd (control_reconcile c r b))) c' =
    (if map_option pq_value (jm_get (cb_requested b) c) = r \<and> c' = c then None
     else jm_get (cb_requested b) c')"
  by (simp add: control_reconcile_def)

lemma fire_requested:
  "jm_get (cb_requested (snd (timerFired h facts b))) c' =
    (if \<exists>s v. jm_get (cb_timers b) h = Some (ExpireTimer c' s v) then None
     else jm_get (cb_requested b) c')"
  by (auto simp: timerFired_def expire_def Let_def jm_has_get split: option.splits controlTimer.splits)

lemmas step_requested = press_requested answer_requested report_requested fire_requested

lemma asks_on_run: "control_run d es b \<Longrightarrow> asks_on b"
proof (induction rule: control_run.induct)
  case start
  then show ?case by (simp add: asks_on_def createControlBinder_def)
next
  case (step es b e outs b')
  then have "b' = snd (control_step e b)" by simp
  then show ?case
    using step.IH by (cases e) (auto simp: asks_on_def step_requested split: if_splits)
qed

text \<open>
  C6. The life of a request, in every run of the binder: a command goes out only for a capability nothing
  waits on, asks for on, and leaves its capability waiting; nothing starts waiting without a command;
  a request stops waiting only when the device reports on, when the vendor refuses the command, or
  when its own expiry timer fires; and whatever waits has such a timer armed, so no request waits for ever.
\<close>

theorem request_lifecycle:
  assumes "control_run deviceId es b" and "enabled e b" and "control_step e b = (outs, b')"
  shows "(\<forall>c x. (c, x) \<in> set (sends outs) \<longrightarrow>
            x \<and> \<not> jm_has (cb_requested b) c \<and> jm_has (cb_requested b') c)
    \<and> (\<forall>c. \<not> jm_has (cb_requested b) c \<and> jm_has (cb_requested b') c \<longrightarrow> (c, True) \<in> set (sends outs))
    \<and> (\<forall>c. jm_has (cb_requested b) c \<and> \<not> jm_has (cb_requested b') c \<longrightarrow>
         e = Report c (Some True) \<or> (\<exists>s. e = Answer s c (Refused VendorError))
         \<or> (\<exists>h facts s v. e = Fire h facts \<and> jm_get (cb_timers b) h = Some (ExpireTimer c s v)))
    \<and> (\<forall>c. jm_has (cb_requested b') c \<longrightarrow> (\<exists>h s v. jm_get (cb_timers b') h = Some (ExpireTimer c s v)))"
    (is "?sent \<and> ?starts \<and> ?ends \<and> ?timed")
proof (intro conjI)
  have b': "b' = snd (control_step e b)" and outs: "outs = fst (control_step e b)"
    using assms(3) by simp_all
  show ?sent
    unfolding b' outs
    by (cases e) (auto simp: press_sends quiet_steps jm_has_get press_requested
        dest: not_refused_not_pending split: if_splits)
  show ?starts
    unfolding b' outs
    by (cases e) (auto simp: press_sends jm_has_get step_requested split: if_splits)
  show ?ends
    using asks_on_run [OF assms(1)] unfolding b'
    by (cases e) (auto simp: jm_has_get step_requested asks_on_def split: if_splits)
  show ?timed
    using timers_match_step [OF timers_match_run [OF assms(1)] assms(2)]
    unfolding b' timers_match_def jm_has_get by blast
qed

text \<open>A press of the alarm-mute switch, taken on an otherwise idle binder, then confirmed.\<close>

definition sample_facts :: controlFacts where
  "sample_facts = \<lparr>cf_reported = Some False, cf_offlineConfirmed = False, cf_transportReady = True,
     cf_confirmationObservable = True, cf_heldOn = False\<rparr>"

definition mute_key :: serviceKey where
  "mute_key = (Switch, slug AlarmMuteControl)"

definition sample_press :: controlEvent where
  "sample_press = Press mute_key AlarmMute sample_facts (VBool True)"

definition sample_pressed :: controlBinder where
  "sample_pressed = snd (control_step sample_press (createControlBinder ''pump''))"

lemma sample_pressed_run:
  "control_run ''pump'' [(sample_press, fst (control_step sample_press (createControlBinder ''pump'')))]
    sample_pressed"
  using control_run.step [OF control_run.start, where e = sample_press and deviceId = "''pump''"]
  by (simp add: sample_press_def sample_pressed_def)

theorem request_lifecycle_witness:
  "sends (fst (control_step (Report AlarmMute (Some True)) sample_pressed)) = []
   \<and> {c. jm_has (cb_requested sample_pressed) c
        \<and> \<not> jm_has (cb_requested (snd (control_step (Report AlarmMute (Some True)) sample_pressed))) c}
      \<subseteq> {AlarmMute}"
  using request_lifecycle [OF sample_pressed_run, of "Report AlarmMute (Some True)"
      "fst (control_step (Report AlarmMute (Some True)) sample_pressed)"
      "snd (control_step (Report AlarmMute (Some True)) sample_pressed)"]
  by (auto simp: quiet_steps)

end
