(* ===== verification/Distrust.thy ===== *)
theory Distrust
  imports MonitoringHealth ServiceCatalogue
begin

text \<open>
  What an accessory cannot vouch for: the half of
  \<open>src/src/accessories/basementGuardian.ts\<close> that turns a family verdict, the controller link and
  the account's monitoring trust into the list of untrusted scopes, and the run of disconnected polls
  that confirms a device offline. Sets of scopes are lists in the order in which their members were
  added.
\<close>

section \<open>Scopes\<close>

definition TRUST_SCOPES :: "TrustScope list" where
  "TRUST_SCOPES = [WaterScope, PumpScope, PowerScope, BatteryScope, FaultScope, ConnectivityScope,
     SelfTestScope, AlarmMuteScope]"

definition NON_CONNECTIVITY_SCOPES :: "TrustScope list" where
  "NON_CONNECTIVITY_SCOPES = filter (\<lambda>sc. sc \<noteq> ConnectivityScope) TRUST_SCOPES"

definition EVERY_SCOPE :: "TrustScope list" where
  "EVERY_SCOPE = TRUST_SCOPES"

definition CONNECTIVITY_SCOPE :: "TrustScope list" where
  "CONNECTIVITY_SCOPE = [ConnectivityScope]"

definition NO_SCOPES :: "TrustScope list" where
  "NO_SCOPES = []"

text \<open>A violation charged to the metadata withdraws no scope.\<close>

definition violatedScopesOf :: "FamilyValidation \<Rightarrow> TrustScope list" where
  "violatedScopesOf validation = (case validation of
      Valid \<Rightarrow> []
    | Rejected violations \<Rightarrow>
        js_set (List.map_filter (\<lambda>v. case fv_scope v of TScope sc \<Rightarrow> Some sc | MetadataScope \<Rightarrow> None)
                  violations))"

definition isControllerLinkLost :: "json option \<Rightarrow> bool" where
  "isControllerLinkLost decoded =
    (let fault = (if isRecord decoded then prop_of decoded ''fault'' else None)
     in isRecord fault \<and> prop_of fault ''controllerLinkPresent'' = Some (JBool False))"

definition monitoringDegradedScopes :: "monitoringTrust \<Rightarrow> TrustScope list" where
  "monitoringDegradedScopes trust =
    (if mt_credentialsRejected trust then EVERY_SCOPE
     else if mt_shadowSilent trust
     then (if mt_restDegraded trust then EVERY_SCOPE else NON_CONNECTIVITY_SCOPES)
     else if mt_restDegraded trust then CONNECTIVITY_SCOPE else NO_SCOPES)"

section \<open>Reasons\<close>

definition reasonsOf :: "TrustScope list \<Rightarrow> DistrustReason \<Rightarrow> (TrustScope, DistrustReason) jsmap" where
  "reasonsOf scopes reason = fold (\<lambda>sc m. jm_set sc reason m) scopes []"

text \<open>One layer: a scope that already has a reason keeps it.\<close>

definition fillReasons ::
  "TrustScope list \<Rightarrow> DistrustReason \<Rightarrow> (TrustScope, DistrustReason) jsmap
    \<Rightarrow> (TrustScope, DistrustReason) jsmap" where
  "fillReasons scopes reason reasons =
    fold (\<lambda>sc m. if jm_has m sc then m else jm_set sc reason m) scopes reasons"

definition distrustReasonsOf ::
  "TrustScope list \<Rightarrow> bool \<Rightarrow> TrustScope list \<Rightarrow> (TrustScope, DistrustReason) jsmap" where
  "distrustReasonsOf violated controllerLinkLost monitoringDegraded =
    (let reasons = fillReasons monitoringDegraded Unreachable (reasonsOf violated Invalid)
     in if controllerLinkLost then fillReasons NON_CONNECTIVITY_SCOPES ControllerLinkLost reasons
        else reasons)"

definition untrustedScopesOf ::
  "(TrustScope, DistrustReason) jsmap \<Rightarrow> (TrustScope, millis) jsmap \<Rightarrow> untrustedScope list" where
  "untrustedScopesOf reasons lastTrustedAt =
    List.map_filter (\<lambda>sc. map_option
        (\<lambda>reason. \<lparr>us_scope = sc, us_reason = reason, us_lastTrustedAt = jm_get lastTrustedAt sc\<rparr>)
        (jm_get reasons sc)) TRUST_SCOPES"

definition nextOfflineCount :: "nat \<Rightarrow> apiConnectivity \<Rightarrow> nat \<Rightarrow> nat" where
  "nextOfflineCount previous connectivity threshold =
    (if ac_connected connectivity then 0 else min (previous + 1) threshold)"

section \<open>Lemmas\<close>

lemma in_map_filter: "y \<in> set (List.map_filter f xs) \<longleftrightarrow> (\<exists>x \<in> set xs. f x = Some y)"
  by (induction xs) (auto simp: List.map_filter_simps split: option.splits)

lemma in_TRUST_SCOPES [simp]: "sc \<in> set TRUST_SCOPES"
  by (cases sc) (simp_all add: TRUST_SCOPES_def)

lemma in_NON_CONNECTIVITY [simp]: "sc \<in> set NON_CONNECTIVITY_SCOPES \<longleftrightarrow> sc \<noteq> ConnectivityScope"
  by (simp add: NON_CONNECTIVITY_SCOPES_def)

lemma violatedScopesOf_set: "set (violatedScopesOf v) = violated_scopes v"
proof -
  have "(case s of TScope sc \<Rightarrow> Some sc | MetadataScope \<Rightarrow> None) = Some x \<longleftrightarrow> s = TScope x" for s x
    by (cases s) simp_all
  then show ?thesis
    by (cases v) (auto simp: violatedScopesOf_def violated_scopes_def in_map_filter)
qed

lemma monitoring_scopes:
  "sc \<in> set (monitoringDegradedScopes t) \<longleftrightarrow>
    mt_credentialsRejected t \<or> (if sc = ConnectivityScope then mt_restDegraded t else mt_shadowSilent t)"
  by (auto simp: monitoringDegradedScopes_def EVERY_SCOPE_def CONNECTIVITY_SCOPE_def NO_SCOPES_def)

lemma fold_reason_get:
  "jm_get (fold (\<lambda>sc m. jm_set sc r m) scs m) sc = (if sc \<in> set scs then Some r else jm_get m sc)"
  by (induction scs arbitrary: m) auto

lemma reasonsOf_get: "jm_get (reasonsOf scs r) sc = (if sc \<in> set scs then Some r else None)"
  by (simp add: reasonsOf_def fold_reason_get)

lemma fillReasons_get:
  "jm_get (fillReasons scs r m) sc =
    (case jm_get m sc of Some r' \<Rightarrow> Some r' | None \<Rightarrow> if sc \<in> set scs then Some r else None)"
  unfolding fillReasons_def
  by (induction scs arbitrary: m) (auto simp: jm_has_def split: option.splits)

lemma distrustReasonsOf_get:
  "jm_get (distrustReasonsOf violated lost degraded) sc =
    (if sc \<in> set violated then Some Invalid
     else if sc \<in> set degraded then Some Unreachable
     else if lost \<and> sc \<noteq> ConnectivityScope then Some ControllerLinkLost
     else None)"
  by (auto simp: distrustReasonsOf_def fillReasons_get reasonsOf_get Let_def split: option.splits)

lemma in_untrustedScopesOf:
  "u \<in> set (untrustedScopesOf reasons at_times) \<longleftrightarrow>
    jm_get reasons (us_scope u) = Some (us_reason u) \<and> us_lastTrustedAt u = jm_get at_times (us_scope u)"
  by (cases u) (auto simp: untrustedScopesOf_def in_map_filter)

lemma untrusted_order: "sorted_wrt (<) (map us_scope (untrustedScopesOf reasons at_times))"
proof -
  have order: "sorted_wrt (<) (map us_scope (List.map_filter (\<lambda>sc. map_option
      (\<lambda>reason. \<lparr>us_scope = sc, us_reason = reason, us_lastTrustedAt = jm_get at_times sc\<rparr>)
      (jm_get reasons sc)) scs))" if "sorted_wrt (<) scs" for scs
    using that
    by (induction scs)
      (auto simp: List.map_filter_simps in_map_filter split: option.splits)
  have "sorted_wrt (<) TRUST_SCOPES" by (simp add: TRUST_SCOPES_def less_TrustScope_def)
  then show ?thesis unfolding untrustedScopesOf_def by (rule order)
qed

text \<open>
  C2. Which scopes an accessory cannot vouch for, and why: a scope whose own field failed validation is
  invalid whatever else happened; of the rest, a refused credential makes every scope
  unreachable, a quiet shadow every scope but connectivity, a failing poll connectivity alone; a lost controller link
  takes what is left of the seven controller scopes. The list carries each untrusted scope once, in the
  fixed order of the scopes, with the time it was last trusted.
\<close>

theorem untrusted_scopes_exactly:
  "let us = untrustedScopesOf
        (distrustReasonsOf (violatedScopesOf validation) lost (monitoringDegradedScopes trust)) trusted;
       monitored = (\<lambda>sc. mt_credentialsRejected trust
         \<or> (if sc = ConnectivityScope then mt_restDegraded trust else mt_shadowSilent trust));
       expected = (\<lambda>sc. if sc \<in> violated_scopes validation then Some Invalid
         else if monitored sc then Some Unreachable
         else if lost \<and> sc \<noteq> ConnectivityScope then Some ControllerLinkLost else None)
   in sorted_wrt (<) (map us_scope us)
      \<and> (\<forall>u. u \<in> set us \<longleftrightarrow>
          expected (us_scope u) = Some (us_reason u) \<and> us_lastTrustedAt u = jm_get trusted (us_scope u))"
  by (simp add: Let_def untrusted_order in_untrustedScopesOf distrustReasonsOf_get violatedScopesOf_set
      monitoring_scopes)

text \<open>The confirmation run: what a list of polls, the latest last, makes of the count.\<close>

definition offline_count :: "nat \<Rightarrow> apiConnectivity list \<Rightarrow> nat" where
  "offline_count threshold polls = fold (\<lambda>c n. nextOfflineCount n c threshold) polls 0"

lemma offline_count_run:
  "offline_count threshold polls = min threshold (length (takeWhile (\<lambda>c. \<not> ac_connected c) (rev polls)))"
  by (induction polls rule: rev_induct) (auto simp: offline_count_def nextOfflineCount_def)

end
