(* ===== verification/IsoDate.thy ===== *)
theory IsoDate
  imports JsValue
begin

text \<open>
  \<open>new Date(t).toISOString()\<close> as the language defines it: the time value is cut to a whole number
  of milliseconds within 100,000,000 days of the epoch, and any other number makes the
  call throw a \<open>RangeError\<close>. The calendar is the proleptic Gregorian one; years outside 0 to 9999 have a
  sign and six digits.
\<close>

section \<open>Digits\<close>

definition digit_char :: "nat \<Rightarrow> char" where
  "digit_char n = ''0123456789'' ! (n mod 10)"

fun fixed_digits :: "nat \<Rightarrow> nat \<Rightarrow> string" where
  "fixed_digits 0 n = []"
| "fixed_digits (Suc k) n = fixed_digits k (n div 10) @ [digit_char n]"

fun read_digits :: "string \<Rightarrow> nat" where
  "read_digits s = fold (\<lambda>c n. 10 * n + (of_char c - 48)) s 0"

lemma length_fixed_digits [simp]: "length (fixed_digits k n) = k"
  by (induction k arbitrary: n) simp_all

lemma digit_value: "(of_char (digit_char n) :: nat) - 48 = n mod 10"
proof -
  have "n mod 10 \<in> {0, 1, 2, 3, 4, 5, 6, 7, 8, 9}"
    by (simp only: insert_iff empty_iff) presburger
  then show ?thesis unfolding digit_char_def by auto
qed

lemma read_fixed_digits: "n < 10 ^ k \<Longrightarrow> read_digits (fixed_digits k n) = n"
proof (induction k arbitrary: n)
  case (Suc k)
  then have "read_digits (fixed_digits k (n div 10)) = n div 10" by (simp add: less_mult_imp_div_less)
  then show ?case by (simp add: digit_value)
qed simp

section \<open>The calendar\<close>

text \<open>
  Years are counted from 1 March, so that a leap day is the last day of its year; an era is 400 years,
  or 146,097 days. Day 0 is 1 January 1970.
\<close>

definition days_before_year :: "int \<Rightarrow> int" where
  "days_before_year y = 365 * y + y div 4 - y div 100"

definition year_of_day :: "int \<Rightarrow> int" where
  "year_of_day doe = (doe - doe div 1460 + doe div 36524 - doe div 146096) div 365"

definition civil_of_days :: "int \<Rightarrow> int \<times> int \<times> int" where
  "civil_of_days z =
    (let z' = z + 719468; era = z' div 146097; doe = z' mod 146097;
         yoe = year_of_day doe; doy = doe - days_before_year yoe;
         mp = (5 * doy + 2) div 153; d = doy - (153 * mp + 2) div 5 + 1;
         m = (if mp < 10 then mp + 3 else mp - 9)
     in (yoe + era * 400 + (if m \<le> 2 then 1 else 0), m, d))"

definition days_of_civil :: "int \<times> int \<times> int \<Rightarrow> int" where
  "days_of_civil ymd =
    (let (y, m, d) = ymd; y' = (if m \<le> 2 then y - 1 else y); era = y' div 400; yoe = y' mod 400;
         mp = (if m > 2 then m - 3 else m + 9);
         doy = (153 * mp + 2) div 5 + d - 1
     in era * 146097 + (days_before_year yoe + doy) - 719468)"

section \<open>The string\<close>

definition MILLISECONDS_PER_DAY :: int where
  "MILLISECONDS_PER_DAY = 86400000"

definition MAX_TIME_VALUE :: rat where
  "MAX_TIME_VALUE = 8640000000000000"

definition year_string :: "int \<Rightarrow> string" where
  "year_string y =
    (if 0 \<le> y \<and> y \<le> 9999 then fixed_digits 4 (nat y)
     else (if y < 0 then ''-'' else ''+'') @ fixed_digits 6 (nat \<bar>y\<bar>))"

definition iso_string :: "int \<Rightarrow> string" where
  "iso_string t =
    (let (y, m, d) = civil_of_days (t div MILLISECONDS_PER_DAY); ms = t mod MILLISECONDS_PER_DAY
     in year_string y @ ''-'' @ fixed_digits 2 (nat m) @ ''-'' @ fixed_digits 2 (nat d) @ ''T''
        @ fixed_digits 2 (nat (ms div 3600000)) @ '':'' @ fixed_digits 2 (nat (ms div 60000 mod 60)) @ '':''
        @ fixed_digits 2 (nat (ms div 1000 mod 60)) @ ''.'' @ fixed_digits 3 (nat (ms mod 1000)) @ ''Z'')"

definition truncated :: "rat \<Rightarrow> int" where
  "truncated r = (if r < 0 then \<lceil>r\<rceil> else \<lfloor>r\<rfloor>)"

definition toISOString :: "jsnum \<Rightarrow> js_error + string" where
  "toISOString t = (case finite_of t of
      None \<Rightarrow> Inl (RangeError ''Invalid time value'')
    | Some r \<Rightarrow> if \<bar>r\<bar> \<le> MAX_TIME_VALUE then Inr (iso_string (truncated r))
                else Inl (RangeError ''Invalid time value''))"

end
