(* ===== verification/Handlers.thy ===== *)
theory Handlers
  imports Prelude "HOL-Library.Sublist"
begin

text \<open>
  Event handlers that may stop with an error. A handler takes the state of its component to the list of
  its outputs, its result or its error, and the state it leaves: what was done before a throw
  stays done, as in the source. The rules below follow the handlers' own composition: \<open>keeps\<close> for
  the parts of the state a handler leaves alone, \<open>runs\<close> for the outputs of one kind, complete
  when the handler returns and cut short when it throws.
\<close>

type_synonym ('o, 's, 'a) handler = "'s \<Rightarrow> 'o list \<times> (js_error + 'a) \<times> 's"

definition act_return :: "'a \<Rightarrow> ('o, 's, 'a) handler" where
  "act_return x = (\<lambda>a. ([], Inr x, a))"

definition act_throw :: "js_error \<Rightarrow> ('o, 's, 'a) handler" where
  "act_throw e = (\<lambda>a. ([], Inl e, a))"

definition act_bind :: "('o, 's, 'a) handler \<Rightarrow> ('a \<Rightarrow> ('o, 's, 'b) handler) \<Rightarrow> ('o, 's, 'b) handler" where
  "act_bind m f = (\<lambda>a. case m a of
      (os, Inl e, a') \<Rightarrow> (os, Inl e, a')
    | (os, Inr x, a') \<Rightarrow> (case f x a' of (os', r, a'') \<Rightarrow> (os @ os', r, a'')))"

definition act_then :: "('o, 's, unit) handler \<Rightarrow> ('o, 's, 'b) handler \<Rightarrow> ('o, 's, 'b) handler" where
  "act_then m k = act_bind m (\<lambda>_. k)"

definition act_get :: "('s \<Rightarrow> 'a) \<Rightarrow> ('o, 's, 'a) handler" where
  "act_get f = (\<lambda>a. ([], Inr (f a), a))"

definition act_modify :: "('s \<Rightarrow> 's) \<Rightarrow> ('o, 's, unit) handler" where
  "act_modify f = (\<lambda>a. ([], Inr (), f a))"

definition act_emit :: "'o list \<Rightarrow> ('o, 's, unit) handler" where
  "act_emit os = (\<lambda>a. (os, Inr (), a))"

definition act_lift :: "js_error + 'a \<Rightarrow> ('o, 's, 'a) handler" where
  "act_lift r = (\<lambda>a. ([], r, a))"

text \<open>\<open>try \<dots> catch\<close>: the error of \<open>m\<close>, or none.\<close>

definition act_attempt :: "('o, 's, unit) handler \<Rightarrow> ('o, 's, js_error option) handler" where
  "act_attempt m = (\<lambda>a. case m a of
      (os, Inl e, a') \<Rightarrow> (os, Inr (Some e), a') | (os, Inr x, a') \<Rightarrow> (os, Inr None, a'))"

lemmas act_defs = act_return_def act_throw_def act_then_def act_get_def act_modify_def act_emit_def
  act_lift_def

lemma act_bind_cases:
  "act_bind m k a = (case fst (snd (m a)) of
      Inl e \<Rightarrow> (fst (m a), Inl e, snd (snd (m a)))
    | Inr x \<Rightarrow> (fst (m a) @ fst (k x (snd (snd (m a)))), snd (k x (snd (snd (m a))))))"
  by (simp add: act_bind_def split: prod.splits sum.splits)

lemma act_attempt_cases:
  "act_attempt m a = (fst (m a),
     Inr (case fst (snd (m a)) of Inl e \<Rightarrow> Some e | Inr x \<Rightarrow> None), snd (snd (m a)))"
  by (simp add: act_attempt_def split: prod.splits sum.splits)

lemma act_run:
  "act_bind (act_return x) f a = f x a"
  "act_bind (act_get g) f' a = f' (g a) a"
  "act_bind (act_lift (Inr y)) f'' a = f'' y a"
  "act_bind (act_lift (Inl e)) f'' a = ([], Inl e, a)"
  "act_then (act_modify h) k a = k (h a)"
  by (simp_all add: act_bind_cases act_defs)

section \<open>What a handler leaves alone\<close>

definition keeps :: "('s \<Rightarrow> 'v) \<Rightarrow> ('o, 's, 'a) handler \<Rightarrow> bool" where
  "keeps f m = (\<forall>a. f (snd (snd (m a))) = f a)"

lemma keepsD: "keeps f m \<Longrightarrow> f (snd (snd (m a))) = f a"
  by (simp add: keeps_def)

lemma keeps_basic [intro!, simp]:
  "keeps f (act_return x)" "keeps f (act_throw e)" "keeps f (act_get g)" "keeps f (act_emit os)"
  "keeps f (act_lift r)"
  by (simp_all add: keeps_def act_defs)

lemma keeps_modify [intro!]: "(\<And>a. f (g a) = f a) \<Longrightarrow> keeps f (act_modify g)"
  by (simp add: keeps_def act_defs)

lemma keeps_bind [intro!]: "keeps f m \<Longrightarrow> (\<And>x. keeps f (k x)) \<Longrightarrow> keeps f (act_bind m k)"
  by (auto simp: keeps_def act_bind_cases split: sum.splits)

lemma keeps_then [intro!]: "keeps f m \<Longrightarrow> keeps f k \<Longrightarrow> keeps f (act_then m k)"
  unfolding act_then_def by (rule keeps_bind)

lemma keeps_attempt [intro!]: "keeps f m \<Longrightarrow> keeps f (act_attempt m)"
  by (simp add: keeps_def act_attempt_cases)

lemma keeps_branches [intro!]:
  "(c \<Longrightarrow> keeps f m) \<Longrightarrow> (\<not> c \<Longrightarrow> keeps f n) \<Longrightarrow> keeps f (if c then m else n)"
  "(p = None \<Longrightarrow> keeps f m) \<Longrightarrow> (\<And>x. p = Some x \<Longrightarrow> keeps f (k x)) \<Longrightarrow>
    keeps f (case p of None \<Rightarrow> m | Some x \<Rightarrow> k x)"
  "(\<And>x y. q = (x, y) \<Longrightarrow> keeps f (h x y)) \<Longrightarrow> keeps f (case q of (x, y) \<Rightarrow> h x y)"
  by (simp_all split: option.splits prod.splits)

section \<open>The outputs of one kind\<close>

definition picked :: "('o \<Rightarrow> 'p option) \<Rightarrow> 'o list \<Rightarrow> 'p list" where
  "picked pick os = List.map_filter pick os"

lemma picked_simps [simp]:
  "picked pick [] = []"
  "picked pick (x # os) = (case pick x of Some p \<Rightarrow> p # picked pick os | None \<Rightarrow> picked pick os)"
  by (simp_all add: picked_def List.map_filter_simps split: option.splits)

lemma picked_append [simp]: "picked pick (xs @ ys) = picked pick xs @ picked pick ys"
  by (induction xs) (auto split: option.splits)

lemma in_picked: "p \<in> set (picked pick os) \<longleftrightarrow> (\<exists>x \<in> set os. pick x = Some p)"
  by (induction os) (auto split: option.splits)

definition runs ::
  "('o \<Rightarrow> 'p option) \<Rightarrow> ('o, 's, 'a) handler \<Rightarrow> 's \<Rightarrow> 'p list \<Rightarrow> ('a \<Rightarrow> 's \<Rightarrow> bool) \<Rightarrow> bool" where
  "runs pick m a ps Q = (case m a of (os, r, a') \<Rightarrow>
     (case r of Inl e \<Rightarrow> prefix (picked pick os) ps
      | Inr x \<Rightarrow> picked pick os = ps \<and> Q x a'))"

lemma runsD:
  assumes "runs pick m a ps Q"
  shows "prefix (picked pick (fst (m a))) ps"
    and "fst (snd (m a)) = Inr x \<Longrightarrow> picked pick (fst (m a)) = ps \<and> Q x (snd (snd (m a)))"
  using assms by (auto simp: runs_def split: prod.splits sum.splits)

lemma runs_bind:
  assumes "runs pick m a ps Q" and "\<And>x a'. Q x a' \<Longrightarrow> runs pick (k x) a' qs R"
  shows "runs pick (act_bind m k) a (ps @ qs) R"
proof -
  obtain os r a' where m: "m a = (os, r, a')" using prod_cases3 by blast
  show ?thesis
  proof (cases r)
    case (Inl e)
    then show ?thesis
      using assms(1) m by (simp add: runs_def act_bind_def prefix_prefix)
  next
    case (Inr x)
    then have "picked pick os = ps" and "runs pick (k x) a' qs R"
      using assms m by (simp_all add: runs_def)
    then show ?thesis
      using m Inr by (auto simp: runs_def act_bind_def split: prod.splits sum.splits)
  qed
qed

lemma runs_then:
  "runs pick m a ps Q \<Longrightarrow> (\<And>a'. Q () a' \<Longrightarrow> runs pick k a' qs R) \<Longrightarrow>
    runs pick (act_then m k) a (ps @ qs) R"
  unfolding act_then_def by (rule runs_bind [where Q = Q]) auto

text \<open>The same, when one of the two makes no output of this kind.\<close>

lemmas runs_bind_quiet = runs_bind [where ps = "[]", unfolded append_Nil]
lemmas runs_then_quiet = runs_then [where ps = "[]", unfolded append_Nil]
lemmas runs_bind_last = runs_bind [where qs = "[]", unfolded append_Nil2]
lemmas runs_then_last = runs_then [where qs = "[]", unfolded append_Nil2]

lemma runs_conseq:
  "runs pick m a ps Q \<Longrightarrow> ps = ps' \<Longrightarrow> (\<And>x a'. Q x a' \<Longrightarrow> R x a') \<Longrightarrow> runs pick m a ps' R"
  by (auto simp: runs_def split: prod.splits sum.splits)

lemma runs_return [simp]: "runs pick (act_return x) a ps Q \<longleftrightarrow> ps = [] \<and> Q x a"
  and runs_get [simp]: "runs pick (act_get f) a ps Q' \<longleftrightarrow> ps = [] \<and> Q' (f a) a"
  and runs_modify [simp]: "runs pick (act_modify g) a ps Q'' \<longleftrightarrow> ps = [] \<and> Q'' () (g a)"
  and runs_emit [simp]: "runs pick (act_emit os) a ps Q'' \<longleftrightarrow> ps = picked pick os \<and> Q'' () a"
  by (auto simp: runs_def act_defs)

lemma runs_throw [simp]: "runs pick (act_throw e) a ps Q"
  by (simp add: runs_def act_defs)

lemma runs_lift: "(\<And>x. r = Inr x \<Longrightarrow> Q x a) \<Longrightarrow> runs pick (act_lift r) a [] Q"
  by (cases r) (simp_all add: runs_def act_defs)

text \<open>A handler that only ever makes outputs of a given sort.\<close>

definition emits :: "('o \<Rightarrow> bool) \<Rightarrow> ('o, 's, 'a) handler \<Rightarrow> bool" where
  "emits P m = (\<forall>a. \<forall>x \<in> set (fst (m a)). P x)"

lemma emitsD: "emits P m \<Longrightarrow> x \<in> set (fst (m a)) \<Longrightarrow> P x"
  by (simp add: emits_def)

lemma emits_basic [intro!, simp]:
  "emits P (act_return x)" "emits P (act_throw e)" "emits P (act_get g)" "emits P (act_modify h)"
  "emits P (act_lift r)"
  by (simp_all add: emits_def act_defs)

lemma emits_emit [intro!]: "\<forall>x \<in> set os. P x \<Longrightarrow> emits P (act_emit os)"
  by (simp add: emits_def act_defs)

lemma emits_bind [intro!]: "emits P m \<Longrightarrow> (\<And>x. emits P (k x)) \<Longrightarrow> emits P (act_bind m k)"
  by (auto simp: emits_def act_bind_cases split: sum.splits)

lemma emits_then [intro!]: "emits P m \<Longrightarrow> emits P k \<Longrightarrow> emits P (act_then m k)"
  unfolding act_then_def by (rule emits_bind)

lemma emits_attempt [intro!]: "emits P m \<Longrightarrow> emits P (act_attempt m)"
  by (simp add: emits_def act_attempt_cases)

lemma emits_branches [intro!]:
  "(c \<Longrightarrow> emits P m) \<Longrightarrow> (\<not> c \<Longrightarrow> emits P n) \<Longrightarrow> emits P (if c then m else n)"
  "(p = None \<Longrightarrow> emits P m) \<Longrightarrow> (\<And>x. p = Some x \<Longrightarrow> emits P (k x)) \<Longrightarrow>
    emits P (case p of None \<Rightarrow> m | Some x \<Rightarrow> k x)"
  "(\<And>x y. q = (x, y) \<Longrightarrow> emits P (h x y)) \<Longrightarrow> emits P (case q of (x, y) \<Rightarrow> h x y)"
  by (simp_all split: option.splits prod.splits)

section \<open>Handlers that return\<close>

definition returns :: "('o, 's, 'a) handler \<Rightarrow> bool" where
  "returns m = (\<forall>a. \<exists>x. fst (snd (m a)) = Inr x)"

lemma returns_basic [intro!, simp]:
  "returns (act_return x)" "returns (act_get g)" "returns (act_modify h)" "returns (act_emit os)"
  by (simp_all add: returns_def act_defs)

lemma returns_bind [intro!]: "returns m \<Longrightarrow> (\<And>x. returns (k x)) \<Longrightarrow> returns (act_bind m k)"
  unfolding returns_def act_bind_cases by (metis snd_conv fst_conv old.sum.simps(6))

lemma returns_then [intro!]: "returns m \<Longrightarrow> returns k \<Longrightarrow> returns (act_then m k)"
  unfolding act_then_def by (rule returns_bind)

lemma returns_branches [intro!]:
  "(c \<Longrightarrow> returns m) \<Longrightarrow> (\<not> c \<Longrightarrow> returns n) \<Longrightarrow> returns (if c then m else n)"
  "(p = None \<Longrightarrow> returns m) \<Longrightarrow> (\<And>x. p = Some x \<Longrightarrow> returns (k x)) \<Longrightarrow>
    returns (case p of None \<Rightarrow> m | Some x \<Rightarrow> k x)"
  "(\<And>x y. q = (x, y) \<Longrightarrow> returns (h x y)) \<Longrightarrow> returns (case q of (x, y) \<Rightarrow> h x y)"
  by (simp_all split: option.splits prod.splits)

lemma returns_attempt [intro!]: "returns (act_attempt m)"
  by (simp add: returns_def act_attempt_cases)

text \<open>The result of a composition is that of its second half, at the state the first half leaves.\<close>

lemma result_bind:
  assumes "runs pick m a ps Q" and "returns m"
  obtains x a' where "Q x a'" and "fst (snd (act_bind m k a)) = fst (snd (k x a'))"
proof -
  obtain x where x: "fst (snd (m a)) = Inr x" using assms(2) unfolding returns_def by blast
  show ?thesis
    by (rule that [of x "snd (snd (m a))"])
      (use runsD(2) [OF assms(1) x] x in \<open>simp_all add: act_bind_cases\<close>)
qed

lemma result_then:
  assumes "runs pick m a ps (\<lambda>_ a'. a' = b)" and "returns m"
  shows "fst (snd (act_then m k a)) = fst (snd (k b))"
  unfolding act_then_def by (rule result_bind [OF assms, of "\<lambda>_. k"]) simp

end
