(* ===== verification/Accessory.thy ===== *)
theory Accessory
  imports Distrust Controls PumpRecords IsoDate Registry Handlers
begin

text \<open>
  One physical system published to HomeKit: the factory and the handlers of
  \<open>src/src/accessories/basementGuardian.ts\<close>.

  A handler is a computation over the accessory's state that records its outputs in order and may
  stop with an error; what it did before the error stays done. HAP is not part of this repository:
  \<open>hapAnswers\<close> holds what its objects answer while one handler runs, and which calls throw.
\<close>

section \<open>State\<close>

datatype SnapshotSource = Poll | Live

record serviceDescriptor =
  sx_kind :: ServiceKind
  sx_subtype :: string
  sx_serviceClass :: ServiceClass
  sx_name :: string

record deviceDistrust =
  dd_violated :: "TrustScope list"
  dd_controllerLinkLost :: bool

record accessory =
  acc_deviceId :: string
  acc_ignoredFaults :: "ServiceKind list"
  acc_offlineThreshold :: nat
  acc_lastTrustedAt :: "(TrustScope, millis) jsmap"
  acc_degraded :: bool
  acc_controllerLinkLost :: bool
  acc_untrusted :: "untrustedScope list"
  acc_offlineCount :: nat
  acc_published :: "serviceDescriptor list"
  acc_monitoring :: monitoringTrust
  acc_publishedRowsPending :: bool
  acc_deviceDistrust :: deviceDistrust
  acc_lastDecoded :: "json option"
  acc_observedASnapshot :: bool
  acc_records :: pumpRecords
  acc_controls :: controlBinder
  acc_carried :: "serviceKey list"

datatype accessoryOutput =
    HapDid hapCall
  | SetInformation string string
  | PersistAsked
  | BoundControl serviceKey DeviceCapability
  | ControlDid controlOutput
  | Logged log_line

record hapAnswers =
  ha_tested :: "serviceKey \<Rightarrow> string \<Rightarrow> bool"
  ha_declared :: "serviceKey \<Rightarrow> string \<Rightarrow> bool"
  ha_configuredName :: "serviceKey \<Rightarrow> json option"
  ha_information :: bool
  ha_throws :: "hapCall \<Rightarrow> js_error option"
  ha_persist :: "js_error option"

section \<open>Calls on HAP\<close>

type_synonym 'a act = "(accessoryOutput, accessory, 'a) handler"

fun hap_do :: "hapAnswers \<Rightarrow> hapCall list \<Rightarrow> unit act" where
  "hap_do hap [] = act_return ()"
| "hap_do hap (c # cs) =
    (case ha_throws hap c of
       Some e \<Rightarrow> act_throw e
     | None \<Rightarrow> act_then (act_emit [HapDid c]) (hap_do hap cs))"

section \<open>Construction\<close>

definition DEFAULT_OFFLINE_CONFIRMATION_POLL_COUNT :: nat where
  "DEFAULT_OFFLINE_CONFIRMATION_POLL_COUNT = 2"

definition isDeviceContext :: "json option \<Rightarrow> bool" where
  "isDeviceContext v =
    (isRecord v \<and> is_str (prop_of v ''deviceId'') \<and> is_str (prop_of v ''deviceTypeId''))"

definition deviceIdOf :: "json option \<Rightarrow> js_error + string" where
  "deviceIdOf context =
    (let device = (if isRecord context then prop_of context ''device'' else None)
     in if \<not> isDeviceContext device
        then Inl (PlainError ''the accessory context carries no device identity; the platform must set context.device before creating the accessory'')
        else case prop_of device ''deviceId'' of Some (JStr s) \<Rightarrow> Inr s | _ \<Rightarrow> Inr [])"

text \<open>
  \<open>observed\<close> is the observation record as \<open>createPumpRecords\<close> resumed it, \<open>carried\<close> the
  services the platform accessory came back with.
\<close>

definition offlineThresholdOf :: "jsnum option \<Rightarrow> js_error + nat" where
  "offlineThresholdOf supplied = (case supplied of
      None \<Rightarrow> Inr DEFAULT_OFFLINE_CONFIRMATION_POLL_COUNT
    | Some n \<Rightarrow>
        if \<not> num_isInteger n \<or> num_lt n (Fin 1)
        then Inl (PlainError ''offlineConfirmationPollCount must be a whole number of at least 1'')
        else Inr (case finite_of n of Some r \<Rightarrow> nat \<lfloor>r\<rfloor> | None \<Rightarrow> 0))"

definition createBasementGuardianAccessory ::
  "json option \<Rightarrow> ServiceKind list option \<Rightarrow> jsnum option \<Rightarrow> pumpRecordsContext \<Rightarrow> serviceKey list
    \<Rightarrow> js_error + (log_line list \<times> accessory)" where
  "createBasementGuardianAccessory context ignoredFaults supplied stored carried =
    ebind (deviceIdOf context) (\<lambda>deviceId.
    ebind (offlineThresholdOf supplied) (\<lambda>threshold.
      let (logs, records) = createPumpRecords stored
      in Inr (logs,
        \<lparr>acc_deviceId = deviceId,
         acc_ignoredFaults = (case ignoredFaults of Some ks \<Rightarrow> ks | None \<Rightarrow> []),
         acc_offlineThreshold = threshold,
         acc_lastTrustedAt = [], acc_degraded = False, acc_controllerLinkLost = False,
         acc_untrusted = [], acc_offlineCount = 0, acc_published = [],
         acc_monitoring = \<lparr>mt_restDegraded = False, mt_shadowSilent = False,
                           mt_commandTransportReady = False, mt_credentialsRejected = False\<rparr>,
         acc_publishedRowsPending = False,
         acc_deviceDistrust = \<lparr>dd_violated = [], dd_controllerLinkLost = False\<rparr>,
         acc_lastDecoded = None, acc_observedASnapshot = False,
         acc_records = records, acc_controls = createControlBinder deviceId,
         acc_carried = carried\<rparr>)))"

section \<open>What the accessory answers\<close>

definition isSuppressed :: "accessory \<Rightarrow> ServiceKind \<Rightarrow> bool" where
  "isSuppressed a kind =
    (isNotificationServiceKind (Some (JStr (slug kind))) \<and> kind \<in> set (acc_ignoredFaults a))"

text \<open>The capability each control row drives, and the field of its group the switch follows.\<close>

definition CONTROLS :: "(ServiceKind, DeviceCapability \<times> string) jsmap" where
  "CONTROLS = [(SystemSelfTest, (SelfTest, ''running'')), (AlarmMuteControl, (AlarmMute, ''muted''))]"

definition decodedControlValue :: "json option \<Rightarrow> DeviceCapability \<times> string \<Rightarrow> bool option" where
  "decodedControlValue lastDecoded control =
    (let grp = (if isRecord lastDecoded then prop_of lastDecoded (capability_name (fst control)) else None);
         reported = (if isRecord grp then prop_of grp (snd control) else None)
     in case reported of Some (JBool b) \<Rightarrow> Some b | _ \<Rightarrow> None)"

definition reportedControlValue :: "accessory \<Rightarrow> serviceRow \<Rightarrow> DeviceCapability \<times> string \<Rightarrow> bool option" where
  "reportedControlValue a row control =
    (if isRowPublishable (row_trust row) (acc_untrusted a)
     then decodedControlValue (acc_lastDecoded a) control else None)"

definition reasonsNow :: "accessory \<Rightarrow> (TrustScope, DistrustReason) jsmap" where
  "reasonsNow a = distrustReasonsOf (dd_violated (acc_deviceDistrust a))
     (dd_controllerLinkLost (acc_deviceDistrust a)) (monitoringDegradedScopes (acc_monitoring a))"

definition offlineConfirmed :: "accessory \<Rightarrow> bool" where
  "offlineConfirmed a = (acc_offlineThreshold a \<le> acc_offlineCount a)"

definition commandTransportReady :: "accessory \<Rightarrow> bool" where
  "commandTransportReady a = mt_commandTransportReady (acc_monitoring a)"

definition liveConfirmationObservable :: "accessory \<Rightarrow> bool" where
  "liveConfirmationObservable a = (\<not> mt_shadowSilent (acc_monitoring a))"

definition isoTimestamp :: "jsnum option \<Rightarrow> js_error + string" where
  "isoTimestamp t = (case t of None \<Rightarrow> Inr [] | Some n \<Rightarrow> toISOString n)"

definition observationOf :: "json option \<Rightarrow> millis \<Rightarrow> pumpRecordsObservation" where
  "observationOf decoded receivedAt =
    (let pump = decodedGroup decoded PumpScope; selfTest = decodedGroup decoded SelfTestScope
     in \<lparr>ob_receivedAt = receivedAt,
         ob_primaryRunning = booleanOf pump ''primaryRunning'',
         ob_backupRunning = booleanOf pump ''backupRunning'',
         ob_backupActivatedAt = numberOf pump ''backupActivatedAt'',
         ob_testRunning = booleanOf selfTest ''running'',
         ob_testedAt = numberOf selfTest ''testedAt''\<rparr>)"

definition recordProjectionOf :: "pumpObservation \<Rightarrow> js_error + pumpRecordProjection" where
  "recordProjectionOf r =
    ebind (isoTimestamp (Some (po_observationStartedAt r))) (\<lambda>started.
    ebind (isoTimestamp (po_lastActivationAt r)) (\<lambda>last.
      Inr \<lparr>prp_observationStartedAt = started, prp_activationCount = po_activationCount r,
           prp_lastActivationAt = last,
           prp_lastActivationWasTestActivity = po_lastActivationWasTestActivity r\<rparr>))"

definition projectionInputOf ::
  "accessory \<Rightarrow> json option \<Rightarrow> DeviceCapability list \<Rightarrow> js_error + projectionInput" where
  "projectionInputOf a decoded pendingControls =
    ebind (isoTimestamp (map_option Fin (jm_get (acc_lastTrustedAt a) FaultScope))) (\<lambda>trusted.
      let inp = \<lparr>pi_decoded = decoded, pi_untrustedScopes = acc_untrusted a,
                 pi_offlineConfirmed = offlineConfirmed a, pi_controllerDataLastTrustedAt = trusted,
                 pi_pendingControls = pendingControls,
                 pi_primaryPumpRecord = None, pi_backupPumpRecord = None\<rparr>
      in if \<not> acc_observedASnapshot a then Inr inp
         else ebind (primary_values (acc_records a)) (\<lambda>primary.
              ebind (recordProjectionOf primary) (\<lambda>primaryRecord.
              ebind (backup_values (acc_records a)) (\<lambda>backup.
              ebind (recordProjectionOf backup) (\<lambda>backupRecord.
                Inr (inp\<lparr>pi_primaryPumpRecord := Some primaryRecord,
                         pi_backupPumpRecord := Some backupRecord\<rparr>))))))"

section \<open>Publishing\<close>

fun characteristic_name :: "Characteristic \<Rightarrow> string" where
  "characteristic_name LeakDetected = ''LeakDetected''"
| "characteristic_name WaterLevel = ''WaterLevel''"
| "characteristic_name ContactSensorState = ''ContactSensorState''"
| "characteristic_name StatusFault = ''StatusFault''"
| "characteristic_name StatusLowBattery = ''StatusLowBattery''"
| "characteristic_name BatteryLevel = ''BatteryLevel''"
| "characteristic_name ChargingState = ''ChargingState''"
| "characteristic_name On = ''On''"
| "characteristic_name StatusActive = ''StatusActive''"
| "characteristic_name RawWaterLevelCode = ''RawWaterLevelCode''"
| "characteristic_name WaterSensorFaultReported = ''WaterSensorFaultReported''"
| "characteristic_name PumpRunning = ''PumpRunning''"
| "characteristic_name PumpFault = ''PumpFault''"
| "characteristic_name PumpFuseBlown = ''PumpFuseBlown''"
| "characteristic_name ObservationStartedAt = ''ObservationStartedAt''"
| "characteristic_name ObservedActivationCount = ''ObservedActivationCount''"
| "characteristic_name LastObservedActivationAt = ''LastObservedActivationAt''"
| "characteristic_name LastActivationWasTestActivity = ''LastActivationWasTestActivity''"
| "characteristic_name MainsPowerPresent = ''MainsPowerPresent''"
| "characteristic_name BatteryCharging = ''BatteryCharging''"
| "characteristic_name BatteryVoltageLow = ''BatteryVoltageLow''"
| "characteristic_name BatteryHealthCode = ''BatteryHealthCode''"
| "characteristic_name ProtectionHoursCode = ''ProtectionHoursCode''"
| "characteristic_name ControllerLinkPresent = ''ControllerLinkPresent''"
| "characteristic_name ControllerDataLastTrustedAt = ''ControllerDataLastTrustedAt''"

definition push_value :: "hapAnswers \<Rightarrow> serviceKey \<Rightarrow> Characteristic \<Rightarrow> CharacteristicValue \<Rightarrow> unit act" where
  "push_value hap service c v =
    (let name = characteristic_name c
     in hap_do hap (publishValue (ha_tested hap service name) (ha_declared hap service name) service c name v))"

fun push_values :: "hapAnswers \<Rightarrow> serviceKey \<Rightarrow> projectedValue list \<Rightarrow> unit act" where
  "push_values hap service [] = act_return ()"
| "push_values hap service (pv # pvs) =
    act_then (push_value hap service (pv_characteristic pv) (pv_value pv)) (push_values hap service pvs)"

definition push_trust :: "hapAnswers \<Rightarrow> serviceRow \<Rightarrow> serviceKey \<Rightarrow> untrustedScope list \<Rightarrow> unit act" where
  "push_trust hap row service untrusted =
    push_value hap service StatusActive (VBool (isRowFullyTrusted row untrusted))"

definition publishRow :: "hapAnswers \<Rightarrow> serviceRow \<Rightarrow> serviceKey \<Rightarrow> projectionInput \<Rightarrow> unit act" where
  "publishRow hap row service inp =
    act_then (push_values hap service (project row inp))
      (push_trust hap row service (pi_untrustedScopes inp))"

definition seed_name :: "hapAnswers \<Rightarrow> serviceKey \<Rightarrow> string \<Rightarrow> unit act" where
  "seed_name hap service displayName =
    hap_do hap (seedConfiguredName (ha_tested hap service ''ConfiguredName'')
      (ha_declared hap service ''ConfiguredName'') (ha_configuredName hap service) service displayName)"

definition bindControlRow :: "serviceRow \<Rightarrow> serviceKey \<Rightarrow> unit act" where
  "bindControlRow row service = (case jm_get CONTROLS (row_kind row) of
      None \<Rightarrow> act_return ()
    | Some control \<Rightarrow> (\<lambda>a.
        let (registered, b) = control_bind service (acc_controls a)
        in (if registered then [BoundControl service (fst control)] else [], Inr (), a\<lparr>acc_controls := b\<rparr>)))"

definition remove_row :: "hapAnswers \<Rightarrow> serviceRow \<Rightarrow> unit act" where
  "remove_row hap row =
    act_bind (act_get acc_carried) (\<lambda>carried.
      case removeServiceIfPresent carried row of (there, calls, carried') \<Rightarrow>
        act_then (hap_do hap calls) (act_modify (\<lambda>a. a\<lparr>acc_carried := carried'\<rparr>)))"

definition ensure_row :: "hapAnswers \<Rightarrow> serviceRow \<Rightarrow> projectedValue list \<Rightarrow> serviceKey option act" where
  "ensure_row hap row projected =
    act_bind (act_get acc_carried) (\<lambda>carried.
      case ensureService carried row projected of (service, calls, carried') \<Rightarrow>
        act_then (hap_do hap calls)
          (act_then (act_modify (\<lambda>a. a\<lparr>acc_carried := carried'\<rparr>)) (act_return service)))"

definition row_descriptor :: "serviceRow \<Rightarrow> serviceDescriptor" where
  "row_descriptor row = \<lparr>sx_kind = row_kind row, sx_subtype = row_subtype row,
     sx_serviceClass = row_serviceClass row, sx_name = row_displayName row\<rparr>"

definition publish_one ::
  "hapAnswers \<Rightarrow> projectionInput \<Rightarrow> serviceRow \<Rightarrow> serviceDescriptor list act" where
  "publish_one hap inp row =
    act_bind (act_get (\<lambda>a. isSuppressed a (row_kind row))) (\<lambda>suppressed.
      if suppressed then act_then (remove_row hap row) (act_return [])
      else act_bind (ensure_row hap row (project row inp)) (\<lambda>service.
        case service of
          None \<Rightarrow> act_return []
        | Some key \<Rightarrow>
            act_then (seed_name hap key (row_displayName row))
            (act_then (bindControlRow row key)
            (act_then (publishRow hap row key inp) (act_return [row_descriptor row])))))"

fun publish_rows :: "hapAnswers \<Rightarrow> projectionInput \<Rightarrow> serviceRow list \<Rightarrow> serviceDescriptor list act" where
  "publish_rows hap inp [] = act_return []"
| "publish_rows hap inp (row # rows) =
    act_bind (publish_one hap inp row) (\<lambda>ds.
      act_bind (publish_rows hap inp rows) (\<lambda>ds'. act_return (ds @ ds')))"

definition publishRows :: "hapAnswers \<Rightarrow> projectionInput \<Rightarrow> serviceDescriptor list act" where
  "publishRows hap inp = publish_rows hap inp createServiceCatalogue"

definition republish_one :: "hapAnswers \<Rightarrow> projectionInput \<Rightarrow> serviceRow \<Rightarrow> unit act" where
  "republish_one hap inp row =
    act_bind (act_get (\<lambda>a. isSuppressed a (row_kind row))) (\<lambda>suppressed.
      if suppressed then remove_row hap row
      else act_bind (act_get acc_carried) (\<lambda>carried.
        case publishedService carried row of
          None \<Rightarrow> act_return ()
        | Some key \<Rightarrow>
            act_then (seed_name hap key (row_displayName row))
            (act_then (bindControlRow row key) (publishRow hap row key inp))))"

fun republish_rows :: "hapAnswers \<Rightarrow> projectionInput \<Rightarrow> serviceRow list \<Rightarrow> js_error list act" where
  "republish_rows hap inp [] = act_return []"
| "republish_rows hap inp (row # rows) =
    act_bind (act_attempt (republish_one hap inp row)) (\<lambda>failure.
      act_bind (republish_rows hap inp rows) (\<lambda>failures.
        act_return ((case failure of Some e \<Rightarrow> [e] | None \<Rightarrow> []) @ failures)))"

definition republishPublishedRows :: "hapAnswers \<Rightarrow> projectionInput \<Rightarrow> unit act" where
  "republishPublishedRows hap inp =
    act_then (act_modify (\<lambda>a. a\<lparr>acc_publishedRowsPending := True\<rparr>))
      (act_bind (republish_rows hap inp createServiceCatalogue) (\<lambda>failures.
        if failures \<noteq> [] then act_throw (AggregateError failures ''Unable to republish every service.'')
        else act_modify (\<lambda>a. a\<lparr>acc_publishedRowsPending := False\<rparr>)))"

fun republish_controls :: "hapAnswers \<Rightarrow> projectionInput \<Rightarrow> serviceRow list \<Rightarrow> unit act" where
  "republish_controls hap inp [] = act_return ()"
| "republish_controls hap inp (row # rows) =
    act_then
      (act_bind (act_get acc_carried) (\<lambda>carried.
        case (if jm_has CONTROLS (row_kind row) then publishedService carried row else None) of
          None \<Rightarrow> act_return ()
        | Some key \<Rightarrow> publishRow hap row key inp))
      (republish_controls hap inp rows)"

definition republishControlRows :: "hapAnswers \<Rightarrow> DeviceCapability list \<Rightarrow> unit act" where
  "republishControlRows hap pendingControls =
    act_bind (act_get (\<lambda>a. projectionInputOf a (acc_lastDecoded a) pendingControls)) (\<lambda>made.
      act_bind (act_lift made) (\<lambda>inp. republish_controls hap inp createServiceCatalogue))"

text \<open>The \<open>republish\<close> callback the accessory gives its control binder.\<close>

definition control_republish :: "hapAnswers \<Rightarrow> unit act" where
  "control_republish hap =
    act_bind (act_get (\<lambda>a. mt_credentialsRejected (acc_monitoring a))) (\<lambda>rejected.
      if rejected then act_return ()
      else act_bind (act_get (\<lambda>a. control_pending (acc_controls a))) (republishControlRows hap))"

section \<open>Accessory information\<close>

definition MANUFACTURER :: string where
  "MANUFACTURER = ''Wayne''"

definition MODEL :: string where
  "MODEL = ''Gemini''"

definition UNKNOWN_FIRMWARE :: string where
  "UNKNOWN_FIRMWARE = ''unknown''"

text \<open>The metadata group of a decoded state, which is not a trust scope, as the record it is.\<close>

definition firmwareRevisionOf :: "deviceMetadataState \<Rightarrow> string" where
  "firmwareRevisionOf metadata =
    (case mcuFirmwareVersion metadata of Some v \<Rightarrow> v | None \<Rightarrow> UNKNOWN_FIRMWARE)"

definition populateAccessoryInformation ::
  "hapAnswers \<Rightarrow> deviceSnapshot \<Rightarrow> deviceMetadataState \<Rightarrow> unit act" where
  "populateAccessoryInformation hap snapshot metadata =
    (if \<not> ha_information hap
     then act_throw (PlainError ''the accessory carries no AccessoryInformation service, which every constructed PlatformAccessory provides'')
     else act_emit
       [SetInformation ''Manufacturer'' MANUFACTURER, SetInformation ''Model'' MODEL,
        SetInformation ''SerialNumber'' (di_serialNumber (ds_identity snapshot)),
        SetInformation ''FirmwareRevision'' (firmwareRevisionOf metadata)])"

section \<open>Reports\<close>

definition reportDegradation :: "unit act" where
  "reportDegradation = (\<lambda>a.
    if \<not> list_ex (\<lambda>u. us_reason u \<noteq> ControllerLinkLost \<and> us_reason u \<noteq> Unreachable) (acc_untrusted a)
    then ([], Inr (), a\<lparr>acc_degraded := False\<rparr>)
    else if acc_degraded a then ([], Inr (), a)
    else ([Logged (LWarn (''Degraded '' @ acc_deviceId a @ '': the profile or payload stopped validating. ''
             @ ''The affected services keep their last valid values until a family-valid update recovers them.''))],
          Inr (), a\<lparr>acc_degraded := True\<rparr>))"

definition withdrawnServiceNames :: "accessory \<Rightarrow> string list" where
  "withdrawnServiceNames a =
    map row_displayName
      (filter (\<lambda>row. (row_kind row, row_serviceClass row)
                  \<in> set (map (\<lambda>d. (sx_kind d, sx_serviceClass d)) (acc_published a))
                \<and> row_scope row \<in> set NON_CONNECTIVITY_SCOPES
                \<and> ControllerLinkLost \<notin> set (row_toleratedDistrust row))
        createServiceCatalogue)"

text \<open>\<open>Intl.ListFormat('en-US', \<dots> 'conjunction')\<close>.\<close>

fun comma_list :: "string list \<Rightarrow> string" where
  "comma_list [] = []"
| "comma_list [x] = '', and '' @ x"
| "comma_list (x # xs) = '', '' @ x @ comma_list xs"

fun conjunction_list :: "string list \<Rightarrow> string" where
  "conjunction_list [] = []"
| "conjunction_list [x] = x"
| "conjunction_list [x, y] = x @ '' and '' @ y"
| "conjunction_list (x # xs) = x @ comma_list xs"

definition reportControllerLink :: "bool \<Rightarrow> unit act" where
  "reportControllerLink linkLost = (\<lambda>a.
    if \<not> linkLost then ([], Inr (), a\<lparr>acc_controllerLinkLost := False\<rparr>)
    else if acc_controllerLinkLost a then ([], Inr (), a)
    else ([Logged (LWarn (''Lost the pump controller link on '' @ acc_deviceId a
             @ '': the vendor cloud still answers, so the values on ''
             @ conjunction_list (withdrawnServiceNames a)
             @ '' are retained rather than refreshed until the link returns.''))],
          Inr (), a\<lparr>acc_controllerLinkLost := True\<rparr>))"

definition recordTrustedScopes ::
  "(TrustScope, DistrustReason) jsmap \<Rightarrow> millis \<Rightarrow> SnapshotSource \<Rightarrow> accessory \<Rightarrow> accessory" where
  "recordTrustedScopes reasons receivedAt source a =
    (let connectivityObserved = (source = Poll
           \<and> ConnectivityScope \<notin> set (dd_violated (acc_deviceDistrust a))
           \<and> \<not> mt_credentialsRejected (acc_monitoring a));
         observed = (\<lambda>sc. if sc = ConnectivityScope then connectivityObserved else \<not> jm_has reasons sc)
     in a\<lparr>acc_lastTrustedAt :=
            fold (\<lambda>sc m. if observed sc then jm_set sc receivedAt m else m) TRUST_SCOPES
              (acc_lastTrustedAt a)\<rparr>)"

definition reconcile_one :: "DeviceCapability \<times> string \<Rightarrow> unit act" where
  "reconcile_one control = (\<lambda>a.
    let (outs, b) = control_reconcile (fst control) (decodedControlValue (acc_lastDecoded a) control)
                      (acc_controls a)
    in (map ControlDid outs, Inr (), a\<lparr>acc_controls := b\<rparr>))"

definition reconcileControls :: "unit act" where
  "reconcileControls = act_then (reconcile_one (SelfTest, ''running'')) (reconcile_one (AlarmMute, ''muted''))"

section \<open>The two handlers\<close>

definition markMonitoring :: "hapAnswers \<Rightarrow> monitoringTrust \<Rightarrow> unit act" where
  "markMonitoring hap trust =
    act_bind (act_get (\<lambda>a. trust = acc_monitoring a)) (\<lambda>unchanged.
    act_then (act_modify (\<lambda>a. a\<lparr>acc_monitoring := trust\<rparr>))
    (act_bind (act_get acc_publishedRowsPending) (\<lambda>pending.
      if unchanged \<and> \<not> pending then act_return ()
      else
        act_then (act_modify (\<lambda>a. a\<lparr>acc_untrusted := untrustedScopesOf (reasonsNow a) (acc_lastTrustedAt a)\<rparr>))
        (act_bind (act_get (\<lambda>a. projectionInputOf a (acc_lastDecoded a) (control_pending (acc_controls a))))
          (\<lambda>made. act_bind (act_lift made) (republishPublishedRows hap))))))"

definition countPoll :: "SnapshotSource \<Rightarrow> deviceSnapshot \<Rightarrow> accessory \<Rightarrow> accessory" where
  "countPoll source snapshot a =
    (if source = Poll
     then a\<lparr>acc_offlineCount :=
            nextOfflineCount (acc_offlineCount a) (ds_connectivity snapshot) (acc_offlineThreshold a)\<rparr>
     else a)"

text \<open>Recording the scopes this snapshot vouches for, then listing the rest.\<close>

definition refreshTrust :: "deviceDistrust \<Rightarrow> millis \<Rightarrow> SnapshotSource \<Rightarrow> accessory \<Rightarrow> accessory" where
  "refreshTrust distrust receivedAt source a =
    (let a1 = a\<lparr>acc_deviceDistrust := distrust\<rparr>; reasons = reasonsNow a1;
         a2 = recordTrustedScopes reasons receivedAt source a1
     in a2\<lparr>acc_untrusted := untrustedScopesOf reasons (acc_lastTrustedAt a2)\<rparr>)"

definition update_unresolved :: "hapAnswers \<Rightarrow> deviceSnapshot \<Rightarrow> SnapshotSource \<Rightarrow> unit act" where
  "update_unresolved hap snapshot source =
    act_then (act_modify (countPoll source snapshot))
    (act_then (act_modify (refreshTrust
        \<lparr>dd_violated = NON_CONNECTIVITY_SCOPES, dd_controllerLinkLost = False\<rparr>
        (ds_receivedAt snapshot) source))
    (act_bind (act_get (\<lambda>a. projectionInputOf a None (control_pending (acc_controls a)))) (\<lambda>made.
      act_bind (act_lift made) (\<lambda>inp.
        act_then (republishPublishedRows hap inp) reportDegradation))))"

definition observe_records :: "hapAnswers \<Rightarrow> pumpRecordsObservation \<Rightarrow> unit act" where
  "observe_records hap ob = (\<lambda>a.
    case pump_observe (ha_persist hap = None) ob (acc_records a) of
      (outcome, records) \<Rightarrow>
        (if outcome = NotAsked then [] else [PersistAsked],
         (case (outcome, ha_persist hap) of (PersistThrew, Some e) \<Rightarrow> Inl e | _ \<Rightarrow> Inr ()),
         a\<lparr>acc_records := records\<rparr>))"

definition update_resolved ::
  "hapAnswers \<Rightarrow> deviceFamily \<Rightarrow> deviceSnapshot \<Rightarrow> SnapshotSource \<Rightarrow> unit act" where
  "update_resolved hap family snapshot source =
    act_bind (act_return (fam_validate family snapshot)) (\<lambda>validation.
    act_bind (act_lift (fam_decode family snapshot)) (\<lambda>state.
      let decoded = Some (domainObject state); linkLost = isControllerLinkLost decoded
      in act_then (act_modify (refreshTrust
            \<lparr>dd_violated = violatedScopesOf validation, dd_controllerLinkLost = linkLost\<rparr>
            (ds_receivedAt snapshot) source))
         (act_then (act_modify (countPoll source snapshot))
         (act_then (case sd_metadata state of
              Some metadata \<Rightarrow> populateAccessoryInformation hap snapshot metadata | None \<Rightarrow> act_return ())
         (act_then (act_modify (\<lambda>a. a\<lparr>acc_lastDecoded := decoded\<rparr>))
         (act_then reconcileControls
         (act_then (observe_records hap (observationOf decoded (ds_receivedAt snapshot)))
         (act_then (act_modify (\<lambda>a. a\<lparr>acc_observedASnapshot := True\<rparr>))
         (act_bind (act_get (\<lambda>a. projectionInputOf a decoded (control_pending (acc_controls a)))) (\<lambda>made.
          act_bind (act_lift made) (\<lambda>inp.
          act_bind (publishRows hap inp) (\<lambda>descriptors.
            act_then (act_modify (\<lambda>a. a\<lparr>acc_published := descriptors\<rparr>))
            (act_then (reportControllerLink linkLost) reportDegradation)))))))))))))"

definition update ::
  "familyRegistry \<Rightarrow> hapAnswers \<Rightarrow> deviceSnapshot \<Rightarrow> SnapshotSource \<Rightarrow> unit act" where
  "update registry hap snapshot source =
    (case registry_lookup registry (di_deviceTypeId (ds_identity snapshot)) of
       Implemented family \<Rightarrow> update_resolved hap family snapshot source
     | _ \<Rightarrow> update_unresolved hap snapshot source)"

section \<open>Control events\<close>

text \<open>
  The binder of this accessory: what its callbacks answer, and its outputs carried out on HAP.
  \<open>heldOn\<close> is the value the switch's characteristic holds.
\<close>

fun control_kind :: "DeviceCapability \<Rightarrow> ServiceKind" where
  "control_kind SelfTest = SystemSelfTest"
| "control_kind AlarmMute = AlarmMuteControl"

definition control_reported :: "DeviceCapability \<Rightarrow> accessory \<Rightarrow> bool option" where
  "control_reported capability a =
    (case (find (\<lambda>row. row_kind row = control_kind capability) createServiceCatalogue,
           jm_get CONTROLS (control_kind capability)) of
       (Some row, Some control) \<Rightarrow> reportedControlValue a row control
     | _ \<Rightarrow> None)"

definition control_facts :: "DeviceCapability \<Rightarrow> bool \<Rightarrow> accessory \<Rightarrow> controlFacts" where
  "control_facts capability heldOn a =
    \<lparr>cf_reported = control_reported capability a, cf_offlineConfirmed = offlineConfirmed a,
     cf_transportReady = commandTransportReady a,
     cf_confirmationObservable = liveConfirmationObservable a, cf_heldOn = heldOn\<rparr>"

fun do_control :: "hapAnswers \<Rightarrow> controlOutput list \<Rightarrow> unit act" where
  "do_control hap [] = act_return ()"
| "do_control hap (out # outs) =
    act_then
      (case out of
         Republish \<Rightarrow> control_republish hap
       | PublishOn service v \<Rightarrow> push_value hap service On (VBool v)
       | _ \<Rightarrow> act_emit [ControlDid out])
      (do_control hap outs)"

definition act_control :: "hapAnswers \<Rightarrow> controlEvent \<Rightarrow> unit act" where
  "act_control hap e =
    act_bind (act_get (\<lambda>a. control_step e (acc_controls a))) (\<lambda>(outs, b).
      act_then (act_modify (\<lambda>a. a\<lparr>acc_controls := b\<rparr>)) (do_control hap outs))"

definition press_control ::
  "hapAnswers \<Rightarrow> serviceKey \<Rightarrow> DeviceCapability \<Rightarrow> bool \<Rightarrow> CharacteristicValue \<Rightarrow> unit act" where
  "press_control hap service capability heldOn v =
    act_bind (act_get (control_facts capability heldOn)) (\<lambda>facts.
      act_control hap (Press service capability facts v))"

definition control_answered :: "hapAnswers \<Rightarrow> serviceKey \<Rightarrow> DeviceCapability \<Rightarrow> CommandOutcome \<Rightarrow> unit act" where
  "control_answered hap service capability outcome = act_control hap (Answer service capability outcome)"

definition control_timer :: "hapAnswers \<Rightarrow> timerHandle \<Rightarrow> bool \<Rightarrow> unit act" where
  "control_timer hap h heldOn =
    act_bind (act_get (\<lambda>a. (a, jm_get (cb_timers (acc_controls a)) h))) (\<lambda>(a, task).
      case task of
        Some (ExpireTimer capability service held) \<Rightarrow>
          act_control hap (Fire h (control_facts capability heldOn a))
      | Some (ClearingPush capability service) \<Rightarrow>
          act_control hap (Fire h (control_facts capability heldOn a))
      | _ \<Rightarrow> act_return ())"

section \<open>Everything that happens to an accessory\<close>

datatype accessoryEvent =
    Snapshot hapAnswers deviceSnapshot SnapshotSource
  | Monitoring hapAnswers monitoringTrust
  | PressControl hapAnswers serviceKey DeviceCapability bool CharacteristicValue
  | ControlAnswered hapAnswers serviceKey DeviceCapability CommandOutcome
  | ControlTimer hapAnswers timerHandle bool

fun accessory_act :: "familyRegistry \<Rightarrow> accessoryEvent \<Rightarrow> unit act" where
  "accessory_act r (Snapshot hap snapshot source) = update r hap snapshot source"
| "accessory_act r (Monitoring hap trust) = markMonitoring hap trust"
| "accessory_act r (PressControl hap service c held v) = press_control hap service c held v"
| "accessory_act r (ControlAnswered hap service c outcome) = control_answered hap service c outcome"
| "accessory_act r (ControlTimer hap h held) = control_timer hap h held"

definition accessory_step :: "familyRegistry \<Rightarrow> accessoryEvent \<Rightarrow> accessory \<Rightarrow> accessory" where
  "accessory_step r e a = snd (snd (accessory_act r e a))"

definition accessory_run :: "familyRegistry \<Rightarrow> accessoryEvent list \<Rightarrow> accessory \<Rightarrow> accessory" where
  "accessory_run r es a = fold (accessory_step r) es a"

end
