(* ===== verification/Publication.thy ===== *)
theory Publication
  imports Accessory
begin

text \<open>
  What an accessory publishes: the characteristic updates of every handler of the theory
  \<open>Accessory\<close>, in order, and the properties that follow from them.
\<close>

section \<open>The updates a handler makes\<close>

definition pick_update :: "accessoryOutput \<Rightarrow> (serviceKey \<times> Characteristic \<times> CharacteristicValue) option" where
  "pick_update out = (case out of HapDid (UpdateCharacteristic k c v) \<Rightarrow> Some (k, c, v) | _ \<Rightarrow> None)"

lemma pick_update_simps [simp]:
  "pick_update (HapDid (UpdateCharacteristic k c v)) = Some (k, c, v)"
  "pick_update (HapDid (AddService k n)) = None"
  "pick_update (HapDid (RemoveService k)) = None"
  "pick_update (HapDid (AddOptionalCharacteristic k n)) = None"
  "pick_update (HapDid (UpdateConfiguredName k n)) = None"
  "pick_update (SetInformation m n) = None"
  "pick_update PersistAsked = None"
  "pick_update (BoundControl k cap) = None"
  "pick_update (ControlDid ctl) = None"
  "pick_update (Logged l) = None"
  by (simp_all add: pick_update_def)

text \<open>The characteristic updates among the outputs, in the order they were made.\<close>

definition updates :: "accessoryOutput list \<Rightarrow> (serviceKey \<times> Characteristic \<times> CharacteristicValue) list" where
  "updates os = picked pick_update os"

definition row_updates ::
  "projectionInput \<Rightarrow> serviceRow \<Rightarrow> (serviceKey \<times> Characteristic \<times> CharacteristicValue) list" where
  "row_updates inp row =
    map (\<lambda>pv. (row_key row, pv_characteristic pv, pv_value pv)) (project row inp)
    @ [(row_key row, StatusActive, VBool (isRowFullyTrusted row (pi_untrustedScopes inp)))]"

definition publishes :: "accessory \<Rightarrow> projectionInput \<Rightarrow> serviceRow \<Rightarrow> bool" where
  "publishes a inp row =
    (\<not> isSuppressed a (row_kind row)
     \<and> (row_key row \<in> set (acc_carried a) \<or> project row inp \<noteq> [] \<or> row_alwaysPublish row))"

lemma runs_hap_do [simp]:
  "runs pick_update (hap_do hap cs) a (picked pick_update (map HapDid cs)) (\<lambda>_ a'. a' = a)"
proof (induction cs)
  case (Cons c cs)
  show ?case
  proof (cases "ha_throws hap c")
    case None
    have "runs pick_update (act_then (act_emit [HapDid c]) (hap_do hap cs)) a
        (picked pick_update [HapDid c] @ picked pick_update (map HapDid cs)) (\<lambda>_ a'. a' = a)"
      by (rule runs_then [where Q = "\<lambda>_ a'. a' = a"]) (use Cons in simp_all)
    then show ?thesis using None by (cases "pick_update (HapDid c)") simp_all
  qed simp
qed simp

lemma runs_push_value:
  "runs pick_update (push_value hap service c v) a [(service, c, v)] (\<lambda>_ a'. a' = a)"
  unfolding push_value_def Let_def
  by (rule runs_conseq [OF runs_hap_do]) (simp_all add: publishValue_def declareCharacteristic_def)

lemma runs_push_values:
  "runs pick_update (push_values hap service pvs) a
    (map (\<lambda>pv. (service, pv_characteristic pv, pv_value pv)) pvs) (\<lambda>_ a'. a' = a)"
proof (induction pvs)
  case (Cons pv pvs)
  have "runs pick_update (push_values hap service (pv # pvs)) a
      ([(service, pv_characteristic pv, pv_value pv)]
       @ map (\<lambda>pv. (service, pv_characteristic pv, pv_value pv)) pvs) (\<lambda>_ a'. a' = a)"
    unfolding push_values.simps
    by (rule runs_then [OF runs_push_value]) (use Cons in simp)
  then show ?case by simp
qed simp

lemma runs_publishRow:
  "runs pick_update (publishRow hap row (row_key row) inp) a (row_updates inp row) (\<lambda>_ a'. a' = a)"
  unfolding publishRow_def row_updates_def push_trust_def
  by (rule runs_then [OF runs_push_values]) (simp add: runs_push_value)

lemma runs_seed_name:
  "runs pick_update (seed_name hap service name) a [] (\<lambda>_ a'. a' = a)"
  unfolding seed_name_def
  by (rule runs_conseq [OF runs_hap_do])
    (simp_all add: seedConfiguredName_def declareCharacteristic_def split: option.splits json.splits)

text \<open>Publishing changes nothing but the services carried, of the rows' own keys, and the handlers bound.\<close>

definition same_but_services :: "accessory \<Rightarrow> accessory \<Rightarrow> bool" where
  "same_but_services a a' = (\<exists>carried b.
     a' = a\<lparr>acc_carried := carried, acc_controls := (acc_controls a)\<lparr>cb_bound := b\<rparr>\<rparr>)"

definition services_only :: "serviceKey set \<Rightarrow> accessory \<Rightarrow> accessory \<Rightarrow> bool" where
  "services_only K a a' = (same_but_services a a'
     \<and> (\<forall>k. k \<notin> K \<longrightarrow> (k \<in> set (acc_carried a') \<longleftrightarrow> k \<in> set (acc_carried a))))"

lemma same_but_services_refl [simp]: "same_but_services a a"
  unfolding same_but_services_def
  by (intro exI [of _ "acc_carried a"] exI [of _ "cb_bound (acc_controls a)"]) simp

lemma same_but_services_trans:
  "same_but_services a b \<Longrightarrow> same_but_services b c \<Longrightarrow> same_but_services a c"
  unfolding same_but_services_def by (elim exE) (simp, intro exI, rule refl)

lemma services_only_refl [simp]: "services_only K a a"
  by (simp add: services_only_def)

lemma services_only_trans:
  "services_only K a b \<Longrightarrow> services_only L b c \<Longrightarrow> services_only (K \<union> L) a c"
  unfolding services_only_def by (auto intro: same_but_services_trans)

lemma services_only_carried: "services_only K a (a\<lparr>acc_carried := c\<rparr>)"
  if "\<And>k. k \<notin> K \<Longrightarrow> k \<in> set c \<longleftrightarrow> k \<in> set (acc_carried a)"
proof -
  have "same_but_services a (a\<lparr>acc_carried := c\<rparr>)"
    unfolding same_but_services_def by (intro exI [of _ c] exI [of _ "cb_bound (acc_controls a)"]) simp
  then show ?thesis using that by (simp add: services_only_def)
qed

lemma services_only_bound: "services_only K a (a\<lparr>acc_controls := (acc_controls a)\<lparr>cb_bound := b\<rparr>\<rparr>)"
proof -
  have "same_but_services a (a\<lparr>acc_controls := (acc_controls a)\<lparr>cb_bound := b\<rparr>\<rparr>)"
    unfolding same_but_services_def by (intro exI [of _ "acc_carried a"] exI [of _ b]) simp
  then show ?thesis by (simp add: services_only_def)
qed

lemma same_fields:
  assumes "same_but_services a a'"
  shows "acc_ignoredFaults a' = acc_ignoredFaults a" "acc_untrusted a' = acc_untrusted a"
    "acc_lastTrustedAt a' = acc_lastTrustedAt a" "acc_offlineCount a' = acc_offlineCount a"
    "acc_offlineThreshold a' = acc_offlineThreshold a" "acc_monitoring a' = acc_monitoring a"
    "acc_deviceDistrust a' = acc_deviceDistrust a" "acc_lastDecoded a' = acc_lastDecoded a"
    "acc_records a' = acc_records a" "acc_observedASnapshot a' = acc_observedASnapshot a"
    "isSuppressed a' kind = isSuppressed a kind"
  using assms by (auto simp: same_but_services_def isSuppressed_def)

lemma services_only_same: "services_only K a a' \<Longrightarrow> same_but_services a a'"
  by (simp add: services_only_def)

lemma services_only_key:
  "services_only K a a' \<Longrightarrow> k \<notin> K \<Longrightarrow> k \<in> set (acc_carried a') \<longleftrightarrow> k \<in> set (acc_carried a)"
  unfolding services_only_def by blast

lemma publishes_frame:
  assumes "services_only K a a'" and "row_key row \<notin> K"
  shows "publishes a' inp row = publishes a inp row"
  unfolding publishes_def same_fields(11) [OF services_only_same [OF assms(1)]]
    services_only_key [OF assms] ..

lemma runs_bindControlRow:
  "runs pick_update (bindControlRow row service) a [] (\<lambda>_ a'. services_only {} a a')"
  unfolding bindControlRow_def
  by (auto simp: runs_def act_return_def control_bind_def services_only_bound split: option.splits)

lemma runs_remove_row:
  "runs pick_update (remove_row hap row) a [] (\<lambda>_ a'. services_only {row_key row} a a')"
proof -
  obtain there calls carried' where
    r: "removeServiceIfPresent (acc_carried a) row = (there, calls, carried')"
    using prod_cases3 by blast
  have quiet: "picked pick_update (map HapDid calls) = []"
    and carried: "k \<noteq> row_key row \<Longrightarrow> k \<in> set carried' \<longleftrightarrow> k \<in> set (acc_carried a)" for k
    using r by (auto simp: removeServiceIfPresent_def publishedService_def split: if_splits)
  have only: "services_only {row_key row} a (a\<lparr>acc_carried := carried'\<rparr>)"
    by (rule services_only_carried, rule carried) simp
  show ?thesis
    unfolding remove_row_def
  proof (rule runs_bind_quiet [where Q = "\<lambda>x a'. a' = a \<and> x = acc_carried a"], goal_cases)
    case (2 x a')
    have "runs pick_update (act_then (hap_do hap calls) (act_modify (\<lambda>a. a\<lparr>acc_carried := carried'\<rparr>))) a
        [] (\<lambda>_ a'. services_only {row_key row} a a')"
      by (rule runs_then_quiet [OF runs_hap_do [of hap calls, unfolded quiet]])
        (use only in auto)
    then show ?case using 2 r by simp
  qed simp
qed

lemma runs_ensure_row:
  "runs pick_update (ensure_row hap row projected) a []
    (\<lambda>service a'. services_only {row_key row} a a' \<and>
      service = (if row_key row \<in> set (acc_carried a) \<or> projected \<noteq> [] \<or> row_alwaysPublish row
                 then Some (row_key row) else None))"
proof -
  obtain service calls carried' where
    r: "ensureService (acc_carried a) row projected = (service, calls, carried')"
    using prod_cases3 by blast
  have quiet: "picked pick_update (map HapDid calls) = []"
    and carried: "k \<noteq> row_key row \<Longrightarrow> k \<in> set carried' \<longleftrightarrow> k \<in> set (acc_carried a)"
    and service: "service = (if row_key row \<in> set (acc_carried a) \<or> projected \<noteq> [] \<or> row_alwaysPublish row
                 then Some (row_key row) else None)" for k
    using r by (auto simp: ensureService_def publishedService_def split: if_splits)
  have only: "services_only {row_key row} a (a\<lparr>acc_carried := carried'\<rparr>)"
    by (rule services_only_carried, rule carried) simp
  show ?thesis
    unfolding ensure_row_def
  proof (rule runs_bind_quiet [where Q = "\<lambda>x a'. a' = a \<and> x = acc_carried a"], goal_cases)
    case (2 x a')
    have "runs pick_update (act_then (hap_do hap calls)
          (act_then (act_modify (\<lambda>a. a\<lparr>acc_carried := carried'\<rparr>)) (act_return service))) a []
        (\<lambda>s a'. services_only {row_key row} a a' \<and> s = service)"
      by (rule runs_then_quiet [OF runs_hap_do [of hap calls, unfolded quiet]],
          rule runs_then_quiet [where Q = "\<lambda>_ a'. services_only {row_key row} a a'"])
        (use only in auto)
    then show ?case using 2 r service by simp
  qed simp
qed

lemma runs_publish_service:
  assumes "services_only {row_key row} a a1"
  shows "runs pick_update (act_then (seed_name hap (row_key row) (row_displayName row))
      (act_then (bindControlRow row (row_key row))
      (act_then (publishRow hap row (row_key row) inp) (act_return x)))) a1 (row_updates inp row)
    (\<lambda>y a'. services_only {row_key row} a a' \<and> y = x)"
proof (rule runs_then_quiet [OF runs_seed_name], rule runs_then_quiet [OF runs_bindControlRow],
    rule runs_then_last [OF runs_publishRow], goal_cases)
  case (1 b c d)
  then show ?case using services_only_trans [OF assms, of "{}" d] by simp
qed

lemma runs_publish_one:
  "runs pick_update (publish_one hap inp row) a
    (if publishes a inp row then row_updates inp row else [])
    (\<lambda>ds a'. services_only {row_key row} a a' \<and> ds = (if publishes a inp row then [row_descriptor row] else []))"
  unfolding publish_one_def
proof (rule runs_bind_quiet [where Q = "\<lambda>x a'. a' = a \<and> x = isSuppressed a (row_kind row)"], goal_cases)
  case (2 x a')
  show ?case
  proof (cases x)
    case True
    have "runs pick_update (act_then (remove_row hap row) (act_return [])) a []
        (\<lambda>ds a'. services_only {row_key row} a a' \<and> ds = ([] :: serviceDescriptor list))"
      by (rule runs_then_quiet [OF runs_remove_row]) simp
    then show ?thesis using True 2 by (simp add: publishes_def)
  next
    case False
    show ?thesis
      unfolding if_not_P [OF False]
    proof (rule runs_bind_quiet [OF runs_ensure_row], goal_cases)
      case (1 service a1)
      then show ?case
        using False 2 runs_publish_service [of row a a1 hap inp "[row_descriptor row]"]
        by (auto simp: publishes_def)
    qed
  qed
qed simp

definition all_updates ::
  "accessory \<Rightarrow> projectionInput \<Rightarrow> serviceRow list \<Rightarrow> (serviceKey \<times> Characteristic \<times> CharacteristicValue) list"
where
  "all_updates a inp rows = concat (map (row_updates inp) (filter (publishes a inp) rows))"

lemma runs_publish_rows:
  assumes "distinct (map row_key rows)"
  shows "runs pick_update (publish_rows hap inp rows) a (all_updates a inp rows)
    (\<lambda>ds a'. services_only (row_key ` set rows) a a'
      \<and> ds = map row_descriptor (filter (publishes a inp) rows))"
  using assms
proof (induction rows arbitrary: a)
  case (Cons row rows)
  have split: "all_updates a inp (row # rows) =
      (if publishes a inp row then row_updates inp row else []) @ all_updates a inp rows" for a
    by (simp add: all_updates_def)
  show ?case
    unfolding publish_rows.simps split
  proof (rule runs_bind [OF runs_publish_one], goal_cases)
    case (1 ds a1)
    then have key: "services_only {row_key row} a a1" by simp
    have same: "filter (publishes a1 inp) rows = filter (publishes a inp) rows"
      by (rule filter_cong [OF refl], rule publishes_frame [OF key]) (use Cons.prems in \<open>metis distinct.simps(2) image_eqI list.simps(9) set_map singletonD\<close>)
    have IH: "runs pick_update (publish_rows hap inp rows) a1 (all_updates a inp rows)
        (\<lambda>ds' a'. services_only (row_key ` set rows) a1 a'
          \<and> ds' = map row_descriptor (filter (publishes a inp) rows))"
      using Cons.IH [of a1] Cons.prems same by (simp add: all_updates_def)
    show ?case
    proof (rule runs_bind_last [OF IH], goal_cases)
      case (1 ds' a2)
      then show ?case
        using services_only_trans [OF key, of "row_key ` set rows" a2] \<open>_ \<and> ds = _\<close> by simp
    qed
  qed
qed (simp add: all_updates_def)

lemma runs_publishRows:
  "runs pick_update (publishRows hap inp) a (all_updates a inp createServiceCatalogue)
    (\<lambda>ds a'. same_but_services a a'
      \<and> ds = map row_descriptor (filter (publishes a inp) createServiceCatalogue))"
  unfolding publishRows_def
  by (rule runs_conseq [OF runs_publish_rows [OF catalogue_keys]]) (auto simp: services_only_same)

section \<open>An update of a resolved family\<close>

text \<open>The accessory at the point where it publishes, when nothing before has thrown.\<close>

definition reconciled_controls :: "accessory \<Rightarrow> accessory" where
  "reconciled_controls a = snd (snd (reconcileControls a))"

definition publishing_state ::
  "hapAnswers \<Rightarrow> FamilyValidation \<Rightarrow> scopedDomainState \<Rightarrow> deviceSnapshot \<Rightarrow> SnapshotSource \<Rightarrow> accessory
    \<Rightarrow> accessory" where
  "publishing_state hap validation state snapshot source a =
    (let decoded = Some (domainObject state);
         a1 = countPoll source snapshot (refreshTrust
           \<lparr>dd_violated = violatedScopesOf validation, dd_controllerLinkLost = isControllerLinkLost decoded\<rparr>
           (ds_receivedAt snapshot) source a);
         a2 = reconciled_controls (a1\<lparr>acc_lastDecoded := decoded\<rparr>)
     in a2\<lparr>acc_records := snd (pump_observe (ha_persist hap = None)
              (observationOf decoded (ds_receivedAt snapshot)) (acc_records a2)),
           acc_observedASnapshot := True\<rparr>)"

lemma reconcileControls_quiet:
  "runs pick_update reconcileControls a [] (\<lambda>_ a'. a' = reconciled_controls a)"
proof -
  have quiet: "picked pick_update (map ControlDid outs) = []" for outs
    by (induction outs) simp_all
  show ?thesis
    by (simp add: runs_def reconciled_controls_def reconcileControls_def act_then_def act_bind_def
        reconcile_one_def quiet Let_def split_beta)
qed

lemma runs_observe_records:
  "runs pick_update (observe_records hap ob) a []
    (\<lambda>_ a'. a' = a\<lparr>acc_records := snd (pump_observe (ha_persist hap = None) ob (acc_records a))\<rparr>)"
  by (auto simp: runs_def observe_records_def split: prod.splits sum.splits persistOutcome.splits option.splits)

lemma runs_information:
  "runs pick_update (case m of Some metadata \<Rightarrow> populateAccessoryInformation hap snapshot metadata
      | None \<Rightarrow> act_return ()) a [] (\<lambda>_ a'. a' = a)"
  by (simp add: populateAccessoryInformation_def split: option.splits)

lemma runs_reports:
  "runs pick_update reportDegradation a [] (\<lambda>_ a'. True)"
  "runs pick_update (reportControllerLink lost) a [] (\<lambda>_ a'. True)"
  by (simp_all add: runs_def reportDegradation_def reportControllerLink_def)

lemma runs_projection:
  "runs pick_update (act_get (\<lambda>a. projectionInputOf a decoded (pendings a))) a []
    (\<lambda>made a'. a' = a \<and> made = projectionInputOf a decoded (pendings a))"
  by simp

lemma runs_update_resolved:
  fixes hap family snapshot state source a
  assumes "fam_decode family snapshot = Inr state"
  defines "b \<equiv> publishing_state hap (fam_validate family snapshot) state snapshot source a"
  defines "made \<equiv> projectionInputOf b (Some (domainObject state)) (control_pending (acc_controls b))"
  shows "runs pick_update (update_resolved hap family snapshot source) a
    (case made of Inl e \<Rightarrow> [] | Inr inp \<Rightarrow> all_updates b inp createServiceCatalogue)
    (\<lambda>_ a'. \<exists>inp. made = Inr inp)"
proof -
  have publish: "runs pick_update (act_bind (act_lift made) (\<lambda>inp.
          act_bind (publishRows hap inp) (\<lambda>descriptors.
            act_then (act_modify (\<lambda>a. a\<lparr>acc_published := descriptors\<rparr>))
            (act_then (reportControllerLink lost) reportDegradation)))) b
      (case made of Inl e \<Rightarrow> [] | Inr inp \<Rightarrow> all_updates b inp createServiceCatalogue)
      (\<lambda>_ a'. \<exists>inp. made = Inr inp)" for lost
  proof (cases made)
    case (Inl e)
    then show ?thesis by (simp add: runs_def act_bind_def act_lift_def)
  next
    case (Inr inp)
    show ?thesis
    proof (rule runs_bind_quiet [where Q = "\<lambda>x a'. x = inp \<and> a' = b"], goal_cases)
      case 1 then show ?case using Inr by (simp add: runs_def act_lift_def)
    next
      case (2 x a')
      have "runs pick_update (act_bind (publishRows hap inp) (\<lambda>descriptors.
            act_then (act_modify (\<lambda>a. a\<lparr>acc_published := descriptors\<rparr>))
            (act_then (reportControllerLink lost) reportDegradation))) b
          (all_updates b inp createServiceCatalogue) (\<lambda>_ a'. \<exists>inp. made = Inr inp)"
        by (rule runs_bind_last [OF runs_publishRows], rule runs_then_quiet [where Q = "\<lambda>_ _. True"], simp,
            rule runs_then_quiet [OF runs_reports(2)], rule runs_conseq [OF runs_reports(1)])
          (simp_all add: Inr)
      then show ?case using 2 Inr by simp
    qed
  qed
  show ?thesis
    unfolding update_resolved_def Let_def assms(1)
    apply (rule runs_bind_quiet [where Q = "\<lambda>x a'. x = fam_validate family snapshot \<and> a' = a"], simp)
    apply (rule runs_bind_quiet [where Q = "\<lambda>x a'. x = state \<and> a' = a"], simp add: runs_def act_lift_def)
    apply (rule runs_then_quiet [where Q = "\<lambda>_ a'. a' = refreshTrust
           \<lparr>dd_violated = violatedScopesOf (fam_validate family snapshot),
            dd_controllerLinkLost = isControllerLinkLost (Some (domainObject state))\<rparr>
           (ds_receivedAt snapshot) source a"], simp)
    apply (rule runs_then_quiet [where Q = "\<lambda>_ a'. a' = countPoll source snapshot (refreshTrust
           \<lparr>dd_violated = violatedScopesOf (fam_validate family snapshot),
            dd_controllerLinkLost = isControllerLinkLost (Some (domainObject state))\<rparr>
           (ds_receivedAt snapshot) source a)"], simp)
    apply (clarify, rule runs_then_quiet [OF runs_information])
    apply (rule runs_then_quiet [OF runs_modify [THEN iffD2]], rule conjI [OF refl], rule refl)
    apply (clarify, rule runs_then_quiet [OF reconcileControls_quiet])
    apply (clarify, rule runs_then_quiet [OF runs_observe_records])
    apply (rule runs_then_quiet [where Q = "\<lambda>_ a'. a' = b"])
     apply (simp add: b_def publishing_state_def Let_def)
    apply (clarify, rule runs_bind_quiet [OF runs_projection])
    apply (clarify)
    using publish unfolding made_def by simp
qed

section \<open>What an update publishes from\<close>

lemma projection_fields:
  assumes "projectionInputOf a decoded pendings = Inr inp"
  shows "pi_decoded inp = decoded" "pi_untrustedScopes inp = acc_untrusted a"
    "pi_offlineConfirmed inp = offlineConfirmed a" "pi_pendingControls inp = pendings"
  using assms unfolding projectionInputOf_def
  by (auto simp: Let_def elim!: ebind_eq_InrE split: if_splits)

lemma reconcile_fields:
  "acc_untrusted (reconciled_controls a) = acc_untrusted a"
  "acc_ignoredFaults (reconciled_controls a) = acc_ignoredFaults a"
  "acc_carried (reconciled_controls a) = acc_carried a"
  "acc_offlineCount (reconciled_controls a) = acc_offlineCount a"
  "acc_offlineThreshold (reconciled_controls a) = acc_offlineThreshold a"
  by (simp_all add: reconciled_controls_def reconcileControls_def reconcile_one_def act_then_def
      act_bind_def Let_def split_beta)

lemma publishing_state_fields:
  fixes hap v d s src a
  defines "b \<equiv> publishing_state hap v d s src a"
  shows "acc_ignoredFaults b = acc_ignoredFaults a" "acc_carried b = acc_carried a"
    and "\<exists>times. acc_untrusted b = untrustedScopesOf
      (distrustReasonsOf (violatedScopesOf v) (isControllerLinkLost (Some (domainObject d)))
        (monitoringDegradedScopes (acc_monitoring a))) times"
  unfolding b_def publishing_state_def
  by (auto simp: Let_def reconcile_fields countPoll_def refreshTrust_def recordTrustedScopes_def
      reasonsNow_def)

lemma isSuppressed_same:
  "acc_ignoredFaults b = acc_ignoredFaults a \<Longrightarrow> isSuppressed b kind = isSuppressed a kind"
  by (simp add: isSuppressed_def)

text \<open>Why the scopes an accessory publishes from are untrusted, after an update.\<close>

definition reason_after ::
  "FamilyValidation \<Rightarrow> bool \<Rightarrow> monitoringTrust \<Rightarrow> TrustScope \<Rightarrow> DistrustReason option" where
  "reason_after v lost trust sc =
    (if sc \<in> violated_scopes v then Some Invalid
     else if mt_credentialsRejected trust
       \<or> (if sc = ConnectivityScope then mt_restDegraded trust else mt_shadowSilent trust)
     then Some Unreachable
     else if lost \<and> sc \<noteq> ConnectivityScope then Some ControllerLinkLost else None)"

lemma untrusted_after:
  "(\<exists>u \<in> set (acc_untrusted (publishing_state hap v d s src a)). us_scope u = sc \<and> us_reason u = r)
    \<longleftrightarrow> reason_after v (isControllerLinkLost (Some (domainObject d))) (acc_monitoring a) sc = Some r"
proof -
  obtain times where *: "acc_untrusted (publishing_state hap v d s src a) = untrustedScopesOf
      (distrustReasonsOf (violatedScopesOf v) (isControllerLinkLost (Some (domainObject d)))
        (monitoringDegradedScopes (acc_monitoring a))) times"
    using publishing_state_fields(3) by blast
  have "(\<exists>u :: untrustedScope. jm_get reasons (us_scope u) = Some (us_reason u) \<and> us_lastTrustedAt u = jm_get times (us_scope u)
        \<and> us_scope u = sc \<and> us_reason u = r) \<longleftrightarrow> jm_get reasons sc = Some r" (is "?L \<longleftrightarrow> ?R") for reasons
  proof
    assume ?R
    then show ?L
      by (intro exI [of _ "\<lparr>us_scope = sc, us_reason = r, us_lastTrustedAt = jm_get times sc\<rparr>"]) simp
  qed auto
  note equiv = this
  have get: "reason_after v (isControllerLinkLost (Some (domainObject d))) (acc_monitoring a) sc =
      jm_get (distrustReasonsOf (violatedScopesOf v) (isControllerLinkLost (Some (domainObject d)))
        (monitoringDegradedScopes (acc_monitoring a))) sc"
    by (simp add: distrustReasonsOf_get violatedScopesOf_set monitoring_scopes reason_after_def)
  show ?thesis
    unfolding * get Bex_def in_untrustedScopesOf conj_assoc by (rule equiv)
qed

lemma publishable_by_reason:
  assumes "\<And>r. (\<exists>u \<in> set us. us_scope u = sc \<and> us_reason u = r) \<longleftrightarrow> f sc = Some r"
  shows "isRowPublishable \<lparr>rt_scope = sc, rt_toleratedDistrust = tol\<rparr> us
      \<longleftrightarrow> (case f sc of None \<Rightarrow> True | Some r \<Rightarrow> r = Unreachable \<or> r \<in> set tol)"
    and "isRowTrusted \<lparr>rt_scope = sc, rt_toleratedDistrust = tol\<rparr> us
      \<longleftrightarrow> (case f sc of None \<Rightarrow> True | Some r \<Rightarrow> r \<in> set tol)"
proof -
  have *: "(\<exists>u \<in> set us. us_scope u = sc \<and> P (us_reason u)) \<longleftrightarrow> (\<exists>r. f sc = Some r \<and> P r)" for P
    unfolding assms [symmetric] Bex_def by metis
  show "isRowPublishable \<lparr>rt_scope = sc, rt_toleratedDistrust = tol\<rparr> us
      \<longleftrightarrow> (case f sc of None \<Rightarrow> True | Some r \<Rightarrow> r = Unreachable \<or> r \<in> set tol)"
    unfolding isRowPublishable_def list_ex_iff rowTrust.simps
      * [of "\<lambda>r. r \<notin> set SEEING_LESS_REASONS \<and> r \<notin> set tol"]
    by (cases "f sc") (simp_all add: SEEING_LESS_REASONS_def)
  show "isRowTrusted \<lparr>rt_scope = sc, rt_toleratedDistrust = tol\<rparr> us
      \<longleftrightarrow> (case f sc of None \<Rightarrow> True | Some r \<Rightarrow> r \<in> set tol)"
    unfolding isRowTrusted_def list_ex_iff rowTrust.simps * [of "\<lambda>r. r \<notin> set tol"]
    by (cases "f sc") simp_all
qed

lemma in_all_updates:
  assumes "row \<in> set createServiceCatalogue"
  shows "(row_key row, c, v) \<in> set (all_updates a inp createServiceCatalogue) \<longleftrightarrow>
    publishes a inp row \<and>
    ((\<exists>pv \<in> set (project row inp). pv_characteristic pv = c \<and> pv_value pv = v)
     \<or> c = StatusActive \<and> v = VBool (isRowFullyTrusted row (pi_untrustedScopes inp)))"
proof -
  have "row' = row" if "row' \<in> set createServiceCatalogue" "row_key row' = row_key row" for row'
    using catalogue_keys assms that unfolding distinct_map by (metis inj_onD)
  then show ?thesis
    using assms unfolding all_updates_def row_updates_def by auto
qed

lemma input_of_update:
  assumes "decode s = Inr d"
    and "projectionInputOf (publishing_state hap (validate s) d s src a) (Some (domainObject d)) ps = Inr inp"
  shows "input_of d inp"
proof -
  have "sc \<in> violated_scopes (validate s)" if "\<not> scope_decoded d sc" for sc
    using gemini.decode_scopes [OF assms(1)] that by blast
  then show ?thesis
    using untrusted_after [of hap "validate s" d s src a _ Invalid]
    by (simp add: input_of_def projection_fields [OF assms(2)] reason_after_def)
qed

lemma link_lost_decoded:
  "isControllerLinkLost (Some (domainObject d)) \<longleftrightarrow>
    (\<exists>f. sd_fault d = Some f \<and> \<not> controllerLinkPresent f)"
proof -
  have rec: "isRecord (Some (domainObject d))" by (simp add: domainObject_def)
  have grp: "prop_of (Some (domainObject d)) ''fault'' = scope_object d FaultScope"
    using domainObject_get [of d FaultScope] by (simp only: scope_name.simps)
  show ?thesis
    unfolding isControllerLinkLost_def Let_def if_P [OF rec] grp
    by (cases "sd_fault d") (simp_all add: jm_get_def)
qed

section \<open>The flood sensor, from the wire to HomeKit\<close>

definition flood_key :: serviceKey where
  "flood_key = (LeakSensor, ''sump-pit-flood'')"

lemma update_gemini:
  assumes "di_deviceTypeId (ds_identity s) = ''wayneWaterGemini''" and "decode s = Inr d"
  shows "runs pick_update (update createFamilyRegistry hap s src) a
    (case projectionInputOf (publishing_state hap (validate s) d s src a) (Some (domainObject d))
        (control_pending (acc_controls (publishing_state hap (validate s) d s src a))) of
       Inl e \<Rightarrow> []
     | Inr inp \<Rightarrow> all_updates (publishing_state hap (validate s) d s src a) inp createServiceCatalogue)
    (\<lambda>_ a'. \<exists>inp. projectionInputOf (publishing_state hap (validate s) d s src a) (Some (domainObject d))
        (control_pending (acc_controls (publishing_state hap (validate s) d s src a))) = Inr inp)"
proof -
  have "update createFamilyRegistry hap s src = update_resolved hap geminiFamily s src"
    by (simp add: update_def lookup_created assms(1))
  moreover have v: "fam_validate geminiFamily = validate" and "fam_decode geminiFamily s = Inr d"
    using assms(2) by (simp_all add: geminiFamily_def)
  ultimately show ?thesis
    using runs_update_resolved [of geminiFamily s d hap src a] unfolding v by simp
qed

lemma flood_key_row: "row_key flood_row = flood_key"
  by (simp add: flood_key_def flood_row_def simple_row_def row_key_def row_subtype_def)

definition flood_report :: "waterState \<Rightarrow> projectedValue" where
  "flood_report w = \<lparr>pv_characteristic = LeakDetected,
     pv_value = (if flooded w then LEAK_DETECTED else LEAK_NOT_DETECTED)\<rparr>"

lemma flood_report_fields [simp]:
  "pv_characteristic (flood_report w) = LeakDetected"
  "pv_value (flood_report w) = (if flooded w then LEAK_DETECTED else LEAK_NOT_DETECTED)"
  by (simp_all add: flood_report_def)

lemma flood_projection:
  assumes "input_of d inp"
  shows "set (project flood_row inp) =
    (if isRowPublishable \<lparr>rt_scope = WaterScope, rt_toleratedDistrust = []\<rparr> (pi_untrustedScopes inp)
     then flood_report ` set_option (sd_water d) else {})"
proof (cases "isRowPublishable \<lparr>rt_scope = WaterScope, rt_toleratedDistrust = []\<rparr> (pi_untrustedScopes inp)")
  case True
  have "trustedGroup inp \<lparr>rt_scope = WaterScope, rt_toleratedDistrust = []\<rparr> WaterScope
      = scope_object d WaterScope"
    using publishable_group(1) [OF assms True] by simp
  then have "project flood_row inp =
      published [(LeakDetected, leakState (booleanOf (scope_object d WaterScope) ''flooded''))]"
    using True by (simp add: flood_row_def project_def simple_row_def row_trust_def floodValues_def)
  moreover have "booleanOf (scope_object d WaterScope) ''flooded'' = map_option flooded (sd_water d)"
    by (cases "sd_water d") (simp_all add: booleanOf_def jm_get_def)
  ultimately show ?thesis
    using True
    by (cases "sd_water d")
      (simp_all add: published_def leakState_def List.map_filter_simps flood_report_def)
qed (simp add: flood_row_def project_def simple_row_def row_trust_def)

lemma water_reported:
  assumes "decode s = Inr d"
  shows "sd_water d = Some w \<longleftrightarrow> WaterScope \<notin> violated_scopes (validate s) \<and> decodeWater (ds_data s) = Inr w"
  using gemini.decode_scopes [OF assms, of WaterScope] decode_scope_values(1) [OF assms]
  by (cases "sd_water d") auto

lemma fault_reported:
  assumes "decode s = Inr d"
  shows "isControllerLinkLost (Some (domainObject d)) \<longleftrightarrow>
    FaultScope \<notin> violated_scopes (validate s) \<and> jm_get (ds_data s) ''serial_communications'' = Some (JBool False)"
proof (cases "sd_fault d")
  case None
  then show ?thesis
    using gemini.decode_scopes [OF assms, of FaultScope] by (simp add: link_lost_decoded)
next
  case (Some f)
  then show ?thesis
    using gemini.decode_scopes [OF assms, of FaultScope] decodeFault_Inr [OF decode_scope_values(5) [OF assms Some]]
    by (simp add: link_lost_decoded)
qed

text \<open>The verdict on the water of one snapshot, as the accessory's monitoring trust stands.\<close>

definition water_verdict :: "deviceSnapshot \<Rightarrow> monitoringTrust \<Rightarrow> DistrustReason option" where
  "water_verdict s trust = reason_after (validate s)
     (FaultScope \<notin> violated_scopes (validate s)
      \<and> jm_get (ds_data s) ''serial_communications'' = Some (JBool False)) trust WaterScope"

text \<open>An input an update of this snapshot publishes from.\<close>

definition published_from ::
  "scopedDomainState \<Rightarrow> deviceSnapshot \<Rightarrow> accessory \<Rightarrow> projectionInput \<Rightarrow> bool" where
  "published_from d s a inp = (input_of d inp \<and>
    (\<forall>sc r. (\<exists>u \<in> set (pi_untrustedScopes inp). us_scope u = sc \<and> us_reason u = r) \<longleftrightarrow>
      reason_after (validate s) (isControllerLinkLost (Some (domainObject d))) (acc_monitoring a) sc = Some r))"

lemma gemini_publication:
  assumes "di_deviceTypeId (ds_identity s) = ''wayneWaterGemini''" and "decode s = Inr d"
  shows "updates (fst (update createFamilyRegistry hap s src a)) = []
      \<and> fst (snd (update createFamilyRegistry hap s src a)) \<noteq> Inr ()
    \<or> (\<exists>inp b. published_from d s a inp
      \<and> prefix (updates (fst (update createFamilyRegistry hap s src a))) (all_updates b inp createServiceCatalogue)
      \<and> (fst (snd (update createFamilyRegistry hap s src a)) = Inr () \<longrightarrow>
          updates (fst (update createFamilyRegistry hap s src a)) = all_updates b inp createServiceCatalogue)
      \<and> (\<forall>kind. isSuppressed b kind = isSuppressed a kind))"
proof -
  define b where "b = publishing_state hap (validate s) d s src a"
  define made where "made = projectionInputOf b (Some (domainObject d)) (control_pending (acc_controls b))"
  have runs: "runs pick_update (update createFamilyRegistry hap s src) a
      (case made of Inl e \<Rightarrow> [] | Inr inp \<Rightarrow> all_updates b inp createServiceCatalogue) (\<lambda>_ a'. \<exists>inp. made = Inr inp)"
    using update_gemini [OF assms] unfolding made_def b_def .
  show ?thesis
  proof (cases made)
    case (Inl e)
    then show ?thesis using runsD [OF runs] by (auto simp: updates_def)
  next
    case (Inr inp)
    have "published_from d s a inp"
      using input_of_update [OF assms(2), of hap src a] untrusted_after [of hap "validate s" d s src a]
        projection_fields(2) [of b] Inr
      unfolding made_def b_def published_from_def by metis
    moreover have "isSuppressed b kind = isSuppressed a kind" for kind
      unfolding b_def by (rule isSuppressed_same, rule publishing_state_fields)
    ultimately show ?thesis
      using runsD [OF runs] Inr unfolding updates_def
      by (intro disjI2 exI [of _ inp] exI [of _ b]) auto
  qed
qed

lemma core_kept: "\<not> isSuppressed a SumpPitFlood"
  by (simp add: isSuppressed_def isNotificationServiceKind_def NOTIFICATION_SERVICE_KINDS_def)

lemma flood_sensor_row:
  assumes "published_from d s a inp" and "decode s = Inr d"
  defines "verdict \<equiv> water_verdict s (acc_monitoring a)"
  shows "(\<exists>pv \<in> set (project flood_row inp). pv_characteristic pv = LeakDetected \<and> pv_value pv = v) \<longleftrightarrow>
      verdict \<in> {None, Some Unreachable} \<and>
      (\<exists>n p. jm_get (ds_data s) ''water_level'' = Some (JNum n) \<and> waterLevelPercentage n = Inr p
        \<and> v = (if n = Fin 31 then LEAK_DETECTED else LEAK_NOT_DETECTED))"
    and "\<forall>pv \<in> set (project flood_row inp). pv_characteristic pv = LeakDetected"
    and "isRowFullyTrusted flood_row (pi_untrustedScopes inp) \<longleftrightarrow> verdict = None"
    and "verdict \<in> {None, Some Unreachable} \<Longrightarrow> project flood_row inp \<noteq> []"
proof -
  have verdict: "verdict =
      reason_after (validate s) (isControllerLinkLost (Some (domainObject d))) (acc_monitoring a) WaterScope"
    by (simp add: verdict_def water_verdict_def fault_reported [OF assms(2)])
  have reason: "(\<exists>u \<in> set (pi_untrustedScopes inp). us_scope u = WaterScope \<and> us_reason u = r) \<longleftrightarrow>
      verdict = Some r" for r
    using assms(1) unfolding published_from_def verdict by blast
  note trust = publishable_by_reason [where f = "\<lambda>_. verdict", OF reason, where tol = "[]"]
  have inp: "input_of d inp" using assms(1) by (simp add: published_from_def)
  have valid: "WaterScope \<notin> violated_scopes (validate s)" if "verdict \<in> {None, Some Unreachable}"
    using that unfolding verdict by (auto simp: reason_after_def)
  have water: "\<exists>w n. sd_water d = Some w \<and> jm_get (ds_data s) ''water_level'' = Some (JNum n)
      \<and> waterLevelPercentage n = Inr (levelPercent w) \<and> flooded w = (n = Fin 31)"
    if v: "verdict \<in> {None, Some Unreachable}"
  proof -
    obtain w where w: "sd_water d = Some w"
      using valid [OF v] gemini.decode_scopes [OF assms(2), of WaterScope] by auto
    from decodeWater_Inr [OF decode_scope_values(1) [OF assms(2) w]] isPitFlooded_on_ladder w
    show ?thesis by auto
  qed
  have row: "set (project flood_row inp) =
      (if verdict \<in> {None, Some Unreachable} then flood_report ` set_option (sd_water d) else {})"
    unfolding flood_projection [OF inp] trust(1) by (cases verdict) simp_all
  show "\<forall>pv \<in> set (project flood_row inp). pv_characteristic pv = LeakDetected"
    unfolding row by auto
  show "isRowFullyTrusted flood_row (pi_untrustedScopes inp) \<longleftrightarrow> verdict = None"
    by (cases verdict) (simp_all add: isRowFullyTrusted_def flood_row_def simple_row_def trust(2))
  show "project flood_row inp \<noteq> []" if v: "verdict \<in> {None, Some Unreachable}"
    using water [OF v] row v by auto
  show "(\<exists>pv \<in> set (project flood_row inp). pv_characteristic pv = LeakDetected \<and> pv_value pv = v) \<longleftrightarrow>
      verdict \<in> {None, Some Unreachable} \<and>
      (\<exists>n p. jm_get (ds_data s) ''water_level'' = Some (JNum n) \<and> waterLevelPercentage n = Inr p
        \<and> v = (if n = Fin 31 then LEAK_DETECTED else LEAK_NOT_DETECTED))"
  proof (cases "verdict \<in> {None, Some Unreachable}")
    case True
    from water [OF True] obtain w n where w: "sd_water d = Some w"
      "jm_get (ds_data s) ''water_level'' = Some (JNum n)" "waterLevelPercentage n = Inr (levelPercent w)"
      "flooded w = (n = Fin 31)" by blast
    then show ?thesis using True unfolding row by auto
  next
    case False
    then show ?thesis unfolding row by auto
  qed
qed

text \<open>The verdict the reported water code makes of the flood sensor.\<close>

definition water_reading :: "deviceSnapshot \<Rightarrow> CharacteristicValue \<Rightarrow> bool" where
  "water_reading s v = (\<exists>n p. jm_get (ds_data s) ''water_level'' = Some (JNum n)
     \<and> waterLevelPercentage n = Inr p \<and> v = (if n = Fin 31 then LEAK_DETECTED else LEAK_NOT_DETECTED))"

lemma flood_updates:
  assumes "published_from d s a inp" and "decode s = Inr d" and "\<not> isSuppressed b SumpPitFlood"
  defines "verdict \<equiv> water_verdict s (acc_monitoring a)"
  shows "(flood_key, LeakDetected, v) \<in> set (all_updates b inp createServiceCatalogue)
      \<longleftrightarrow> verdict \<in> {None, Some Unreachable} \<and> water_reading s v"
    and "(flood_key, StatusActive, VBool True) \<in> set (all_updates b inp createServiceCatalogue) \<Longrightarrow> verdict = None"
    and "verdict \<in> {None, Some Unreachable} \<Longrightarrow> \<exists>v. water_reading s v"
proof -
  note in_flood = in_all_updates [OF flood_row_in, unfolded flood_key_row]
  note sensor = flood_sensor_row [OF assms(1,2), folded verdict_def water_reading_def]
  have "publishes b inp flood_row" if "project flood_row inp \<noteq> []"
    using that assms(3) by (simp add: publishes_def flood_row_def simple_row_def)
  then have "(flood_key, LeakDetected, v) \<in> set (all_updates b inp createServiceCatalogue) \<longleftrightarrow>
      (\<exists>pv \<in> set (project flood_row inp). pv_characteristic pv = LeakDetected \<and> pv_value pv = v)"
    unfolding in_flood by fastforce
  then show "(flood_key, LeakDetected, v) \<in> set (all_updates b inp createServiceCatalogue)
      \<longleftrightarrow> verdict \<in> {None, Some Unreachable} \<and> water_reading s v"
    by (simp only: sensor(1))
  show "verdict = None"
    if "(flood_key, StatusActive, VBool True) \<in> set (all_updates b inp createServiceCatalogue)"
    using that sensor(2,3) unfolding in_flood by fastforce
  show "\<exists>v. water_reading s v" if v: "verdict \<in> {None, Some Unreachable}"
  proof -
    obtain pv where "pv \<in> set (project flood_row inp)" using sensor(4) [OF v] by (meson last_in_set)
    then show ?thesis using sensor(1) [of "pv_value pv"] sensor(2) by blast
  qed
qed

lemma flood_outcome:
  assumes "di_deviceTypeId (ds_identity s) = ''wayneWaterGemini''"
    and "update createFamilyRegistry hap s src a = (outs, result, a')"
  defines "verdict \<equiv> water_verdict s (acc_monitoring a)"
  shows "(flood_key, LeakDetected, v) \<in> set (updates outs) \<Longrightarrow>
      verdict \<in> {None, Some Unreachable} \<and> water_reading s v"
    and "result = Inr () \<Longrightarrow> verdict \<in> {None, Some Unreachable} \<Longrightarrow>
      \<exists>v. (flood_key, LeakDetected, v) \<in> set (updates outs)"
    and "(flood_key, StatusActive, VBool True) \<in> set (updates outs) \<Longrightarrow> verdict = None"
proof -
  obtain d where d: "decode s = Inr d" using gemini.decode_returns by blast
  consider "updates outs = []" "result \<noteq> Inr ()"
    | inp b where "published_from d s a inp"
      "prefix (updates outs) (all_updates b inp createServiceCatalogue)"
      "result = Inr () \<longrightarrow> updates outs = all_updates b inp createServiceCatalogue"
    using gemini_publication [OF assms(1) d, of hap src a] unfolding assms(2) fst_conv snd_conv by blast
  then show "(flood_key, LeakDetected, v) \<in> set (updates outs) \<Longrightarrow>
      verdict \<in> {None, Some Unreachable} \<and> water_reading s v"
    and "result = Inr () \<Longrightarrow> verdict \<in> {None, Some Unreachable} \<Longrightarrow>
      \<exists>v. (flood_key, LeakDetected, v) \<in> set (updates outs)"
    and "(flood_key, StatusActive, VBool True) \<in> set (updates outs) \<Longrightarrow> verdict = None"
    using flood_updates [OF _ d core_kept, of a, folded verdict_def] set_mono_prefix
    by (cases; simp; blast)+
qed

text \<open>
  C1. The flood sensor, from the wire to HomeKit, on every snapshot of a Gemini device and whatever HAP
  answers: \<open>LeakDetected\<close> is only ever pushed as the reported water code says, detected for
  code 31 and not detected for any other code of the ladder; nothing is pushed for a code outside it, or while
  the controller link is lost and the transports work; a snapshot whose water is valid pushes its verdict whenever
  the update returns; and the sensor is marked active only if no reason to doubt its water stands.
\<close>

theorem flood_sensor_end_to_end:
  assumes "di_deviceTypeId (ds_identity s) = ''wayneWaterGemini''"
  shows "let (outs, result, a') = update createFamilyRegistry hap s src a;
             verdict = water_verdict s (acc_monitoring a);
             pushed = (\<lambda>c v. (flood_key, c, v) \<in> set (updates outs))
    in (\<forall>v. pushed LeakDetected v \<longrightarrow> verdict \<in> {None, Some Unreachable} \<and> water_reading s v)
       \<and> (result = Inr () \<and> verdict \<in> {None, Some Unreachable} \<longrightarrow> (\<exists>v. pushed LeakDetected v))
       \<and> (pushed StatusActive (VBool True) \<longrightarrow> verdict = None)"
proof -
  obtain outs result a' where r: "update createFamilyRegistry hap s src a = (outs, result, a')"
    using prod_cases3 by blast
  show ?thesis
    unfolding r Let_def prod.case using flood_outcome [OF assms r] by blast
qed

text \<open>An accessory that has just been built, and a HAP that accepts every call.\<close>

definition quiet_hap :: hapAnswers where
  "quiet_hap = \<lparr>ha_tested = \<lambda>k n. True, ha_declared = \<lambda>k n. False, ha_configuredName = \<lambda>k. None,
     ha_information = True, ha_throws = \<lambda>c. None, ha_persist = None\<rparr>"

definition demo_context :: "json option" where
  "demo_context = Some (JObj [(''device'', JObj [(''deviceId'', JStr ''pump''),
     (''deviceTypeId'', JStr ''wayneWaterGemini'')])])"

definition demo_accessory :: accessory where
  "demo_accessory = (case createBasementGuardianAccessory demo_context None None no_context [] of
     Inr (logs, a) \<Rightarrow> a)"

lemma demo_trust: "acc_monitoring demo_accessory = \<lparr>mt_restDegraded = False, mt_shadowSilent = False,
    mt_commandTransportReady = False, mt_credentialsRejected = False\<rparr>"
  by code_simp

lemma demo_built: "createBasementGuardianAccessory demo_context None None no_context [] = Inr ([], demo_accessory)"
  by code_simp

theorem flood_sensor_end_to_end_witness:
  "(flood_key, LeakDetected, LEAK_DETECTED) \<notin>
      set (updates (fst (update createFamilyRegistry quiet_hap sample_snapshot Poll demo_accessory)))"
proof -
  have "di_deviceTypeId (ds_identity sample_snapshot) = ''wayneWaterGemini''"
    by (simp add: sample_snapshot_def)
  from flood_sensor_end_to_end [OF this, of quiet_hap Poll demo_accessory] show ?thesis
    by (auto simp: split_beta Let_def water_reading_def sample_snapshot_def sample_data_def jm_get_def)
qed

end
