(* ===== verification/AccessoryProperties.thy ===== *)
theory AccessoryProperties
  imports Publication
begin

text \<open>
  Properties of one accessory over whole runs of its handlers, and two behaviours of the code that contradict
  what its comments promise.
\<close>

section \<open>What the handlers leave alone\<close>

lemma keeps_part: "keeps g m \<Longrightarrow> (\<And>a b. g a = g b \<Longrightarrow> f a = f b) \<Longrightarrow> keeps f m"
  unfolding keeps_def by blast

lemma keeps_hap_do [intro!]: "keeps f (hap_do hap cs)"
  by (induction cs) (auto split: option.splits)

lemma keeps_push_value [intro!]: "keeps f (push_value hap k c v)"
  by (auto simp: push_value_def Let_def)

lemma keeps_push_values [intro!]: "keeps f (push_values hap k pvs)"
  by (induction pvs) auto

lemma keeps_publishRow [intro!]: "keeps f (publishRow hap row k inp)"
  by (auto simp: publishRow_def push_trust_def)

lemma keeps_seed_name [intro!]: "keeps f (seed_name hap k n)"
  by (auto simp: seed_name_def)

text \<open>The parts of the state that publishing never touches.\<close>

definition core_state :: "accessory \<Rightarrow> nat \<times> nat \<times> monitoringTrust \<times> untrustedScope list \<times> deviceDistrust
    \<times> json option \<times> pumpRecords \<times> ServiceKind list \<times> (TrustScope, millis) jsmap" where
  "core_state a = (acc_offlineCount a, acc_offlineThreshold a, acc_monitoring a, acc_untrusted a,
     acc_deviceDistrust a, acc_lastDecoded a, acc_records a, acc_ignoredFaults a,
     acc_lastTrustedAt a)"

lemma core_state_updates [simp]:
  "core_state (a\<lparr>acc_carried := x\<rparr>) = core_state a"
  "core_state (a\<lparr>acc_controls := b\<rparr>) = core_state a"
  "core_state (a\<lparr>acc_publishedRowsPending := p\<rparr>) = core_state a"
  "core_state (a\<lparr>acc_published := ds\<rparr>) = core_state a"
  "core_state (a\<lparr>acc_degraded := p\<rparr>) = core_state a"
  "core_state (a\<lparr>acc_controllerLinkLost := p\<rparr>) = core_state a"
  "core_state (a\<lparr>acc_observedASnapshot := p\<rparr>) = core_state a"
  by (simp_all add: core_state_def)

lemma core_bindControlRow [intro!]: "keeps core_state (bindControlRow row k)"
  by (auto simp: bindControlRow_def keeps_def act_return_def Let_def split_beta split: option.splits)

lemma core_remove_row [intro!]: "keeps core_state (remove_row hap row)"
  by (auto simp: remove_row_def split: prod.splits)

lemma core_ensure_row [intro!]: "keeps core_state (ensure_row hap row ps)"
  by (auto simp: ensure_row_def split: prod.splits)

lemma core_publish_one [intro!]: "keeps core_state (publish_one hap inp row)"
  by (auto simp: publish_one_def split: option.splits)

lemma core_publish_rows [intro!]: "keeps core_state (publish_rows hap inp rows)"
  by (induction rows) auto

lemma core_publishRows [intro!]: "keeps core_state (publishRows hap inp)"
  by (auto simp: publishRows_def)

lemma core_republish_one [intro!]: "keeps core_state (republish_one hap inp row)"
  by (auto simp: republish_one_def split: option.splits)

lemma core_republish_rows [intro!]: "keeps core_state (republish_rows hap inp rows)"
  by (induction rows) auto

lemma core_republishPublishedRows [intro!]: "keeps core_state (republishPublishedRows hap inp)"
  by (auto simp: republishPublishedRows_def)

lemma core_republish_controls [intro!]: "keeps core_state (republish_controls hap inp rows)"
  by (induction rows) (auto split: option.splits)

lemma core_control_republish [intro!]: "keeps core_state (control_republish hap)"
  by (auto simp: control_republish_def republishControlRows_def)

lemma core_do_control [intro!]: "keeps core_state (do_control hap outs)"
  by (induction outs) (auto split: controlOutput.splits)

lemma core_act_control [intro!]: "keeps core_state (act_control hap e)"
  by (auto simp: act_control_def split: prod.splits)

lemma core_reports [intro!]: "keeps core_state reportDegradation" "keeps core_state (reportControllerLink lost)"
  by (simp_all add: keeps_def reportDegradation_def reportControllerLink_def)

lemma core_information [intro!]: "keeps f (populateAccessoryInformation hap s m)"
  by (auto simp: populateAccessoryInformation_def)

lemma reconciled_records: "acc_records (reconciled_controls a) = acc_records a"
  by (simp add: reconciled_controls_def reconcileControls_def reconcile_one_def act_then_def
      act_bind_def Let_def split_beta)

lemma core_reconcile [intro!]: "keeps core_state reconcileControls"
  by (auto simp: reconcileControls_def reconcile_one_def keeps_def act_then_def act_bind_cases split_beta Let_def)

section \<open>The run of disconnected polls\<close>

definition offline_view :: "accessory \<Rightarrow> nat \<times> nat" where
  "offline_view a = (acc_offlineCount a, acc_offlineThreshold a)"

lemma offline_of_core: "core_state a = core_state b \<Longrightarrow> offline_view a = offline_view b"
  by (simp add: core_state_def offline_view_def)

lemmas offline_keeps = keeps_part [OF _ offline_of_core]

lemma offline_view_updates [simp]:
  "offline_view (a\<lparr>acc_monitoring := t\<rparr>) = offline_view a"
  "offline_view (a\<lparr>acc_untrusted := us\<rparr>) = offline_view a"
  "offline_view (a\<lparr>acc_lastDecoded := v\<rparr>) = offline_view a"
  "offline_view (a\<lparr>acc_published := ds\<rparr>) = offline_view a"
  "offline_view (a\<lparr>acc_observedASnapshot := p\<rparr>) = offline_view a"
  "offline_view (refreshTrust dd at_time src a) = offline_view a"
  by (simp_all add: offline_view_def refreshTrust_def recordTrustedScopes_def Let_def)

lemma offline_markMonitoring: "keeps offline_view (markMonitoring hap trust)"
  unfolding markMonitoring_def
  by (auto intro!: offline_keeps [OF core_republishPublishedRows])

lemma offline_control: "keeps offline_view (accessory_act r e)"
  if "\<And>hap s src. e \<noteq> Snapshot hap s src"
  using that
  by (cases e) (auto simp: press_control_def control_answered_def control_timer_def
      intro!: offline_markMonitoring offline_keeps [OF core_act_control] split: controlTimer.splits)

lemma offline_observe_records: "keeps offline_view (observe_records hap ob)"
  by (simp add: keeps_def observe_records_def offline_view_def split: prod.splits)

lemma offline_update:
  "offline_view (snd (snd (update createFamilyRegistry hap s src a))) = offline_view (countPoll src s a)"
proof -
  have count: "offline_view (countPoll src s (refreshTrust dd t src a)) = offline_view (countPoll src s a)"
    "offline_view (refreshTrust dd t src (countPoll src s a)) = offline_view (countPoll src s a)" for dd t
    using offline_view_updates(6)
    by (auto simp: countPoll_def offline_view_def)
  obtain d where d: "decode s = Inr d" using gemini.decode_returns by blast
  have fam: "fam_decode geminiFamily s = Inr d" "fam_validate geminiFamily = validate"
    using d by (simp_all add: geminiFamily_def)
  have "offline_view (snd (snd (update_unresolved hap s src a))) = offline_view (countPoll src s a)"
    unfolding update_unresolved_def
    by (subst act_run(5), subst act_run(5), subst keepsD [of offline_view])
      (auto intro!: offline_keeps [OF core_republishPublishedRows] offline_keeps [OF core_reports(1)] simp: count)
  moreover have "offline_view (snd (snd (update_resolved hap geminiFamily s src a))) = offline_view (countPoll src s a)"
    unfolding update_resolved_def fam Let_def
    by (subst act_run(1), subst act_run(3), subst act_run(5), subst act_run(5), subst keepsD [of offline_view])
      (auto intro!: offline_keeps [OF core_publishRows] offline_keeps [OF core_reports(1)]
        offline_keeps [OF core_reports(2)] offline_keeps [OF core_reconcile] offline_observe_records simp: count)
  ultimately show ?thesis
    by (simp add: update_def lookup_created)
qed

fun poll_evidence :: "accessoryEvent list \<Rightarrow> apiConnectivity list" where
  "poll_evidence [] = []"
| "poll_evidence (Snapshot hap s Poll # es) = ds_connectivity s # poll_evidence es"
| "poll_evidence (e # es) = poll_evidence es"

lemma offline_step:
  "offline_view (accessory_step createFamilyRegistry e a) =
    (case e of Snapshot hap s src \<Rightarrow> offline_view (countPoll src s a) | _ \<Rightarrow> offline_view a)"
  using offline_control [of e createFamilyRegistry, THEN keepsD, of a] offline_update
  by (cases e) (simp_all add: accessory_step_def)

lemma poll_evidence_Cons:
  "poll_evidence (e # es) =
    (case e of Snapshot hap s src \<Rightarrow> if src = Poll then ds_connectivity s # poll_evidence es else poll_evidence es
      | _ \<Rightarrow> poll_evidence es)"
  by (cases "e # es" rule: poll_evidence.cases) auto

lemma offline_run:
  "offline_view (accessory_run createFamilyRegistry es a) =
    (fold (\<lambda>c n. nextOfflineCount n c (acc_offlineThreshold a)) (poll_evidence es) (acc_offlineCount a),
     acc_offlineThreshold a)"
proof (induction es arbitrary: a)
  case Nil
  then show ?case by (simp add: accessory_run_def offline_view_def)
next
  case (Cons e es)
  let ?a = "accessory_step createFamilyRegistry e a"
  have "accessory_run createFamilyRegistry (e # es) a = accessory_run createFamilyRegistry es ?a"
    by (simp add: accessory_run_def)
  then show ?case
    using Cons.IH [of ?a] offline_step [of e a]
    unfolding poll_evidence_Cons
    by (cases e) (simp_all add: offline_view_def countPoll_def split: if_splits)
qed

lemma created_offline:
  assumes "createBasementGuardianAccessory ctx ignored supplied stored carried = Inr (logs, a)"
  shows "acc_offlineCount a = 0" and "1 \<le> acc_offlineThreshold a"
proof -
  obtain threshold where threshold: "offlineThresholdOf supplied = Inr threshold"
    and a: "acc_offlineThreshold a = threshold" "acc_offlineCount a = 0"
    using assms unfolding createBasementGuardianAccessory_def
    by (auto simp: Let_def split: prod.splits elim!: ebind_eq_InrE)
  have "1 \<le> threshold"
    using threshold
    by (auto simp: offlineThresholdOf_def DEFAULT_OFFLINE_CONFIRMATION_POLL_COUNT_def num_isInteger_def
        num_lt_def le_nat_iff split: option.splits if_splits)
  then show "acc_offlineCount a = 0" "1 \<le> acc_offlineThreshold a" using a by simp_all
qed

text \<open>
  A device is confirmed offline exactly while its latest polls in a row, as many as the configured
  threshold, all reported it disconnected: whatever updates between polls, monitoring changes, control
  presses and throwing HAP calls are interleaved, only polls count, one connected poll ends the run
  at once, and the threshold is never zero, so an accessory without evidence is not offline.
\<close>

theorem offline_after_a_run_of_polls:
  assumes "createBasementGuardianAccessory ctx ignored supplied stored carried = Inr (logs, a)"
  shows "(offlineConfirmed (accessory_run createFamilyRegistry es a) \<longleftrightarrow>
      acc_offlineThreshold a \<le> length (takeWhile (\<lambda>c. \<not> ac_connected c) (rev (poll_evidence es))))
    \<and> 1 \<le> acc_offlineThreshold a"
  using offline_run [of es a] created_offline [OF assms] offline_count_run [of "acc_offlineThreshold a" "poll_evidence es"]
  by (auto simp: offlineConfirmed_def offline_view_def offline_count_def)

section \<open>When an update returns\<close>

text \<open>A HAP and a store that accept every call.\<close>

definition accepting :: "hapAnswers \<Rightarrow> bool" where
  "accepting hap = ((\<forall>c. ha_throws hap c = None) \<and> ha_information hap \<and> ha_persist hap = None)"

lemma returns_hap_do [intro!]: "accepting hap \<Longrightarrow> returns (hap_do hap cs)"
  by (induction cs) (auto simp: accepting_def)

lemma returns_push_value [intro!]: "accepting hap \<Longrightarrow> returns (push_value hap k c v)"
  by (auto simp: push_value_def Let_def)

lemma returns_push_values [intro!]: "accepting hap \<Longrightarrow> returns (push_values hap k pvs)"
  by (induction pvs) auto

lemma returns_bindControlRow [intro!]: "returns (bindControlRow row k)"
  by (auto simp: bindControlRow_def returns_def act_return_def Let_def split_beta split: option.splits)

lemma returns_publish_one [intro!]: "accepting hap \<Longrightarrow> returns (publish_one hap inp row)"
  by (auto simp: publish_one_def remove_row_def ensure_row_def seed_name_def publishRow_def push_trust_def)

lemma returns_publish_rows [intro!]: "accepting hap \<Longrightarrow> returns (publish_rows hap inp rows)"
  by (induction rows) auto

lemma returns_reports [intro!]: "returns reportDegradation" "returns (reportControllerLink lost)"
  by (simp_all add: returns_def reportDegradation_def reportControllerLink_def)

lemma returns_observe [intro!]: "accepting hap \<Longrightarrow> returns (observe_records hap ob)"
  by (simp add: returns_def observe_records_def accepting_def split: prod.splits persistOutcome.splits)

lemma returns_reconcile [intro!]: "returns reconcileControls"
  by (auto simp: reconcileControls_def reconcile_one_def returns_def act_then_def act_bind_cases Let_def split_beta)

lemma returns_information [intro!]:
  "accepting hap \<Longrightarrow> returns (populateAccessoryInformation hap s m)"
  by (auto simp: populateAccessoryInformation_def accepting_def)

text \<open>
  With everything accepted, an update of a resolved family throws exactly when the input of its rows
  cannot be assembled.
\<close>

lemma update_resolved_result:
  fixes hap family s d src a
  assumes "accepting hap" and "fam_decode family s = Inr d"
  defines "b \<equiv> publishing_state hap (fam_validate family s) d s src a"
  shows "fst (snd (update_resolved hap family s src a)) =
    map_sum id (\<lambda>_. ()) (projectionInputOf b (Some (domainObject d)) (control_pending (acc_controls b)))"
proof -
  note quiet = returns_observe [OF assms(1)] returns_information [OF assms(1)]
  let ?a1 = "countPoll src s (refreshTrust
      \<lparr>dd_violated = violatedScopesOf (fam_validate family s),
       dd_controllerLinkLost = isControllerLinkLost (Some (domainObject d))\<rparr> (ds_receivedAt s) src a)"
  have publish: "fst (snd (act_bind (act_lift made) (\<lambda>inp. act_bind (publishRows hap inp) (\<lambda>descriptors.
        act_then (act_modify (\<lambda>a. a\<lparr>acc_published := descriptors\<rparr>))
        (act_then (reportControllerLink lost) reportDegradation))) c)) = map_sum id (\<lambda>_. ()) made" for made lost c
  proof (cases made)
    case (Inr inp)
    have "returns (act_bind (publishRows hap inp) (\<lambda>descriptors.
        act_then (act_modify (\<lambda>a. a\<lparr>acc_published := descriptors\<rparr>))
        (act_then (reportControllerLink lost) reportDegradation)))"
      by (auto simp: publishRows_def assms(1))
    then show ?thesis using Inr unfolding returns_def by (simp add: act_run(3))
  qed (simp add: act_run(4))
  show ?thesis
    unfolding update_resolved_def Let_def assms(2)
    apply (subst act_run(1), subst act_run(3), subst act_run(5), subst act_run(5))
    apply (subst result_then [OF runs_information], rule returns_branches, simp, rule quiet(2))
    apply (subst act_run(5))
    apply (subst result_then [OF reconcileControls_quiet], rule returns_reconcile)
    apply (subst result_then [OF runs_observe_records], rule quiet(1))
    apply (subst act_run(5), subst act_run(2), subst publish)
    unfolding b_def publishing_state_def Let_def by simp
qed

section \<open>A quiet transport and a lost controller link\<close>

text \<open>
  C38. Two conditions that each leave doubtful values unpublished or unvouched meet badly. While the controller link
  is lost and the shadow is heard, no update pushes a verdict of the flood sensor, because the water
  value is doubtful. The same snapshot, received while the shadow is silent, pushes that doubtful verdict:
  the scope's reason is then the quiet transport, which withholds nothing.
\<close>

theorem quiet_shadow_unmasks_lost_link:
  assumes "di_deviceTypeId (ds_identity s) = ''wayneWaterGemini''"
    and "WaterScope \<notin> violated_scopes (validate s)" and "FaultScope \<notin> violated_scopes (validate s)"
    and "jm_get (ds_data s) ''serial_communications'' = Some (JBool False)"
    and "\<not> mt_shadowSilent (acc_monitoring a)" and "\<not> mt_credentialsRejected (acc_monitoring a)"
    and "update createFamilyRegistry hap s src a = (outs, result, a')"
    and "update createFamilyRegistry hap s src
      (a\<lparr>acc_monitoring := (acc_monitoring a)\<lparr>mt_shadowSilent := True\<rparr>\<rparr>) = (outs_silent, Inr (), b')"
  shows "(\<forall>v. (flood_key, LeakDetected, v) \<notin> set (updates outs))
    \<and> (\<exists>v. water_reading s v \<and> (flood_key, LeakDetected, v) \<in> set (updates outs_silent))"
proof
  have "water_verdict s (acc_monitoring a) = Some ControllerLinkLost"
    using assms by (simp add: water_verdict_def reason_after_def)
  then show "\<forall>v. (flood_key, LeakDetected, v) \<notin> set (updates outs)"
    using flood_outcome(1) [OF assms(1,7)] by auto
  have "water_verdict s ((acc_monitoring a)\<lparr>mt_shadowSilent := True\<rparr>) = Some Unreachable"
    using assms by (simp add: water_verdict_def reason_after_def)
  then show "\<exists>v. water_reading s v \<and> (flood_key, LeakDetected, v) \<in> set (updates outs_silent)"
    using flood_outcome(1,2) [OF assms(1,8)] by fastforce
qed

section \<open>A timestamp out of range\<close>

lemma toISOString_wild: "MAX_TIME_VALUE < \<bar>r\<bar> \<Longrightarrow> toISOString (Fin r) = Inl (RangeError ''Invalid time value'')"
  by (simp add: toISOString_def)

lemma wild_milliseconds:
  assumes "8640000000000 < t"
  shows "toISOString (millisecondsOf (Fin t)) = Inl (RangeError ''Invalid time value'')"
  using assms
  by (simp add: millisecondsOf_def MILLISECONDS_PER_SECOND_def toISOString_def MAX_TIME_VALUE_def Let_def)

lemma projection_of_wild_record:
  assumes "acc_observedASnapshot b" and "backup_values (acc_records b) = Inr r"
    and "po_lastActivationAt r = Some n" and "toISOString n = Inl e"
  shows "\<exists>e. projectionInputOf b decoded ps = Inl e"
  using assms unfolding projectionInputOf_def recordProjectionOf_def isoTimestamp_def
  by (auto simp: ebind_def Let_def split: sum.splits)

lemma observation_of_pump:
  assumes "decode s = Inr d" and "PumpScope \<notin> violated_scopes (validate s)"
  shows "ob_backupActivatedAt (observationOf (Some (domainObject d)) t) =
      (case jm_get (ds_data s) ''backup_pump_timestamp'' of Some (JNum n) \<Rightarrow> Some n | _ \<Rightarrow> None)"
    and "ob_backupRunning (observationOf (Some (domainObject d)) t) = Some b \<Longrightarrow>
      jm_get (ds_data s) ''backup_pump_running'' = Some (JBool b)"
proof -
  obtain p where p: "sd_pump d = Some p"
    using gemini.decode_scopes [OF assms(1), of PumpScope] assms(2) by auto
  then have *: "jm_get (ds_data s) ''backup_pump_timestamp'' = map_option JNum (backupActivatedAt p)"
    "jm_get (ds_data s) ''backup_pump_running'' = Some (JBool (backupRunning p))"
    using decodePump_Inr [OF decode_scope_values(2) [OF assms(1) p]] by blast+
  show "ob_backupActivatedAt (observationOf (Some (domainObject d)) t) =
      (case jm_get (ds_data s) ''backup_pump_timestamp'' of Some (JNum n) \<Rightarrow> Some n | _ \<Rightarrow> None)"
    using p * by (cases "backupActivatedAt p")
      (simp_all add: observationOf_def decodedGroup_object numberOf_def opt_field_def jm_get_def Let_def)
  show "jm_get (ds_data s) ''backup_pump_running'' = Some (JBool b)"
    if "ob_backupRunning (observationOf (Some (domainObject d)) t) = Some b"
    using that p * by (simp add: observationOf_def decodedGroup_object booleanOf_def jm_get_def Let_def)
qed

text \<open>A run the plugin did not watch: the timestamp passes the stored watermark.\<close>

lemma missed_run_recorded:
  assumes "pr_record records = Some r" and "aw_backupPumpTimestamp (sr_watermarks r) = Some (Fin w)"
    and "\<not> aw_backupEdgeAwaitingTimestamp (sr_watermarks r)"
    and "\<not> watchedAnActivation (pr_previousBackupRunning records) (ob_backupRunning ob)"
    and "ob_backupActivatedAt ob = Some (Fin t)" and "w < t"
  shows "\<exists>q. backup_values (snd (pump_observe ok ob records)) = Inr q
    \<and> po_lastActivationAt q = Some (millisecondsOf (Fin t))"
proof -
  have "po_lastActivationAt (sr_backupPump (snd (reconcileClassification previous ob stored)))
      = po_lastActivationAt (sr_backupPump stored)" for previous stored
    by (simp add: reconcileClassification_def split: option.splits)
  moreover have "sr_backupPump (snd (countPrimaryEdge prev ob stored)) = sr_backupPump stored"
    "sr_watermarks (snd (countPrimaryEdge prev ob stored)) = sr_watermarks stored" for prev stored
    by (simp_all add: countPrimaryEdge_def)
  moreover have "countBackupEdge (pr_previousBackupRunning records) ob stored = (False, stored)" for stored
    using assms(4) by (simp add: countBackupEdge_def)
  ultimately show ?thesis
    using assms
    by (simp add: pump_observe_def reconciled_def backup_values_def recordValues_def split_beta Let_def
        reconcileBackupTimestamp_def evidencesAMissedActivation_def num_lt_def dropTestActivityLabel_def)
qed

text \<open>
  C37. One number the device is free to report stops the whole accessory. The backup pump's timestamp
  is checked for being a number and nothing else. Suppose it dates a run the plugin did not watch: the
  stored record has a watermark it passes, no watched run waits for its time, and this snapshot does not
  itself show the pump go from stopped to running (which would overwrite the time of the last activation).
  Then, once it is beyond what a date can hold, the update that carries it throws before it pushes a
  single characteristic, whatever the remaining fields say, a flooded pit included.
\<close>

theorem wild_timestamp_silences_the_accessory:
  assumes "di_deviceTypeId (ds_identity s) = ''wayneWaterGemini''"
    and "PumpScope \<notin> violated_scopes (validate s)"
    and "jm_get (ds_data s) ''backup_pump_timestamp'' = Some (JNum (Fin t))" and "8640000000000 < t"
    and "pr_record (acc_records a) = Some r" and "aw_backupPumpTimestamp (sr_watermarks r) = Some (Fin w)"
    and "w < t" and "\<not> aw_backupEdgeAwaitingTimestamp (sr_watermarks r)"
    and "\<not> (pr_previousBackupRunning (acc_records a) = Some False
      \<and> jm_get (ds_data s) ''backup_pump_running'' = Some (JBool True))"
    and "update createFamilyRegistry hap s src a = (outs, result, a')"
  shows "updates outs = [] \<and> (\<exists>e. result = Inl e)"
proof -
  obtain d where d: "decode s = Inr d" using gemini.decode_returns by blast
  define b where "b = publishing_state hap (validate s) d s src a"
  have "\<not> watchedAnActivation (pr_previousBackupRunning (acc_records a))
      (ob_backupRunning (observationOf (Some (domainObject d)) (ds_receivedAt s)))"
    using assms(9) observation_of_pump(2) [OF d assms(2)] by (auto simp: watchedAnActivation_def)
  then have "\<exists>q. backup_values (acc_records b) = Inr q \<and> po_lastActivationAt q = Some (millisecondsOf (Fin t))"
    unfolding b_def publishing_state_def Let_def
    using missed_run_recorded [OF assms(5,6,8), of
        "observationOf (Some (domainObject d)) (ds_receivedAt s)" t "ha_persist hap = None"]
      observation_of_pump(1) [OF d assms(2)] assms(3,7)
    by (simp add: reconciled_records countPoll_def refreshTrust_def recordTrustedScopes_def Let_def)
  moreover have "acc_observedASnapshot b" by (simp add: b_def publishing_state_def Let_def)
  ultimately obtain e where "projectionInputOf b (Some (domainObject d)) (control_pending (acc_controls b)) = Inl e"
    using projection_of_wild_record wild_milliseconds [OF assms(4)] by blast
  then show ?thesis
    using runsD [OF update_gemini [OF assms(1) d, of hap src a]] assms(10)
    unfolding b_def [symmetric] updates_def by (cases result) auto
qed

section \<open>Monitoring changes and rejected credentials\<close>

fun marks_only :: "accessoryOutput \<Rightarrow> bool" where
  "marks_only (HapDid (AddService k n)) = False"
| "marks_only (SetInformation m n) = False"
| "marks_only PersistAsked = False"
| "marks_only (ControlDid ctl) = False"
| "marks_only (Logged l) = False"
| "marks_only out = True"

lemma emits_hap_do [intro!]: "\<forall>c \<in> set cs. P (HapDid c) \<Longrightarrow> emits P (hap_do hap cs)"
  by (induction cs) (auto split: option.splits)

lemma emits_push_value:
  "(\<And>x. P (HapDid (AddOptionalCharacteristic k x))) \<Longrightarrow> P (HapDid (UpdateCharacteristic k c v)) \<Longrightarrow>
    emits P (push_value hap k c v)"
  by (auto simp: push_value_def Let_def publishValue_def declareCharacteristic_def)

lemma emits_push_values:
  "(\<And>x. P (HapDid (AddOptionalCharacteristic k x))) \<Longrightarrow> (\<And>c v. P (HapDid (UpdateCharacteristic k c v))) \<Longrightarrow>
    emits P (push_values hap k pvs)"
  by (induction pvs) (auto intro!: emits_push_value)

lemma marks_republish_one: "emits marks_only (republish_one hap inp row)"
proof -
  have seed: "emits marks_only (seed_name hap k n)" for k n
    by (auto simp: seed_name_def seedConfiguredName_def declareCharacteristic_def split: option.splits json.splits)
  have bind: "emits marks_only (bindControlRow row k)" for k
    by (auto simp: bindControlRow_def emits_def act_return_def Let_def split_beta split: option.splits)
  have remove: "emits marks_only (remove_row hap row)"
    by (auto simp: remove_row_def removeServiceIfPresent_def publishedService_def split: if_splits)
  show ?thesis
    by (auto simp: republish_one_def publishRow_def push_trust_def
        intro!: seed bind remove emits_push_values emits_push_value)
qed

lemma marks_republish_rows: "emits marks_only (republish_rows hap inp rows)"
  by (induction rows) (auto intro!: marks_republish_one)

lemma marks_republishPublishedRows: "emits marks_only (republishPublishedRows hap inp)"
  by (auto simp: republishPublishedRows_def intro!: marks_republish_rows)

text \<open>What a monitoring change must not touch: the device's own evidence.\<close>

definition device_evidence ::
  "accessory \<Rightarrow> deviceDistrust \<times> json option \<times> pumpRecords \<times> nat \<times> (TrustScope, millis) jsmap" where
  "device_evidence a = (acc_deviceDistrust a, acc_lastDecoded a, acc_records a, acc_offlineCount a, acc_lastTrustedAt a)"

lemma monitoring_kept: "keeps acc_monitoring (republishPublishedRows hap inp)"
  by (rule keeps_part [OF core_republishPublishedRows]) (simp add: core_state_def)

lemma evidence_kept: "keeps device_evidence (markMonitoring hap trust)"
proof -
  have "keeps device_evidence (republishPublishedRows hap inp)" for inp
    by (rule keeps_part [OF core_republishPublishedRows]) (simp add: core_state_def device_evidence_def)
  then show ?thesis
    by (auto simp: markMonitoring_def device_evidence_def)
qed

text \<open>
  A report about the plugin's own transports says nothing about the device: it adds no service,
  touches no information, asks for no write to disk and logs nothing; the last decoded state, the pump
  records, the offline run, the device's own distrust and the times of trust stay as they were; the
  report itself is always stored; and an unchanged report does nothing at all once the last republication
  went through.
\<close>

theorem monitoring_report_only_marks:
  "let (outs, result, a') = markMonitoring hap trust a
   in list_all marks_only outs \<and> device_evidence a' = device_evidence a \<and> acc_monitoring a' = trust
      \<and> (trust = acc_monitoring a \<and> \<not> acc_publishedRowsPending a \<longrightarrow> outs = [] \<and> a' = a)"
proof -
  have outs: "emits marks_only (markMonitoring hap trust)"
    by (auto simp: markMonitoring_def intro!: marks_republishPublishedRows)
  have "keeps acc_monitoring (act_bind (act_get acc_publishedRowsPending) (\<lambda>pending.
      if unchanged \<and> \<not> pending then act_return ()
      else
        act_then (act_modify (\<lambda>a. a\<lparr>acc_untrusted := untrustedScopesOf (reasonsNow a) (acc_lastTrustedAt a)\<rparr>))
        (act_bind (act_get (\<lambda>a. projectionInputOf a (acc_lastDecoded a) (control_pending (acc_controls a))))
          (\<lambda>made. act_bind (act_lift made) (republishPublishedRows hap)))))" for unchanged
    by (auto intro!: monitoring_kept)
  note kept = keepsD [OF this]
  have stored: "acc_monitoring (snd (snd (markMonitoring hap trust a))) = trust"
    unfolding markMonitoring_def
    by (subst act_run(2), subst act_run(5), subst kept) simp
  have idle: "markMonitoring hap trust a = ([], Inr (), a)"
    if "trust = acc_monitoring a" "\<not> acc_publishedRowsPending a"
    using that unfolding markMonitoring_def
    by (subst act_run(2), subst act_run(5), subst act_run(2)) (simp add: act_return_def)
  show ?thesis
    using emitsD [OF outs, of _ a] keepsD [OF evidence_kept, of hap trust a] stored idle
    by (simp add: split_beta Let_def list_all_iff)
qed

section \<open>After the credentials were rejected\<close>

fun pushes_only_on :: "accessoryOutput \<Rightarrow> bool" where
  "pushes_only_on (HapDid (UpdateCharacteristic k c v)) = (c = On)"
| "pushes_only_on (HapDid (UpdateWithError k c n)) = False"
| "pushes_only_on (HapDid (AddService k n)) = False"
| "pushes_only_on (HapDid (RemoveService k)) = False"
| "pushes_only_on out = True"

definition rejected :: "accessory \<Rightarrow> bool" where
  "rejected a = mt_credentialsRejected (acc_monitoring a)"

lemma rejected_core: "keeps core_state m \<Longrightarrow> rejected (snd (snd (m a))) = rejected a"
  unfolding keeps_def core_state_def rejected_def by fastforce

lemma do_control_rejected:
  "rejected a \<Longrightarrow> list_all pushes_only_on (fst (do_control hap outs a))"
proof (induction outs arbitrary: a)
  case (Cons out outs)
  let ?m = "case out of Republish \<Rightarrow> control_republish hap
      | PublishOn service v \<Rightarrow> push_value hap service On (VBool v) | _ \<Rightarrow> act_emit [ControlDid out]"
  have head: "list_all pushes_only_on (fst (?m a))"
  proof (cases out)
    case Republish
    then show ?thesis
      using Cons.prems by (simp add: control_republish_def act_run(2) rejected_def act_return_def)
  next
    case (PublishOn k v)
    have "emits pushes_only_on (push_value hap k On (VBool v))" by (rule emits_push_value) simp_all
    then show ?thesis using PublishOn by (auto simp: emits_def list_all_iff)
  qed (simp_all add: act_emit_def)
  have "keeps core_state ?m" by (auto split: controlOutput.splits)
  then have "rejected (snd (snd (?m a)))" using Cons.prems rejected_core by blast
  then have "list_all pushes_only_on (fst (do_control hap outs (snd (snd (?m a)))))" by (rule Cons.IH)
  then show ?case
    using head by (simp add: act_then_def act_bind_cases split: sum.splits)
qed (simp add: act_return_def)

lemma act_control_rejected:
  "rejected a \<Longrightarrow> list_all pushes_only_on (fst (act_control hap e a))"
  unfolding act_control_def
  by (subst act_run(2)) (simp add: split_beta act_run(5) do_control_rejected rejected_def)

text \<open>
  Once the vendor rejected the credentials, a late control event cannot cover the trace of it: presses,
  answers of commands still out, expiring windows and clearing pushes push no characteristic other
  than \<open>On\<close>, so the error the halt put on the trust reports stands.
\<close>

theorem control_events_keep_the_halt_marking:
  assumes "mt_credentialsRejected (acc_monitoring a)" and "\<And>hap s src. e \<noteq> Snapshot hap s src"
    and "\<And>hap trust. e \<noteq> Monitoring hap trust"
  shows "list_all pushes_only_on (fst (accessory_act r e a))"
proof -
  have a: "rejected a" using assms(1) by (simp add: rejected_def)
  show ?thesis
  proof (cases e)
    case (ControlTimer hap h held)
    then show ?thesis
      using a by (simp add: control_timer_def act_run(2) act_control_rejected act_return_def
          split: option.splits controlTimer.splits)
  qed (use a assms in \<open>simp_all add: press_control_def control_answered_def act_run(2) act_control_rejected\<close>)
qed

section \<open>Witnesses\<close>

definition dropped_snapshot :: deviceSnapshot where
  "dropped_snapshot = sample_snapshot\<lparr>ds_connectivity := \<lparr>ac_connected = False, ac_timestamp = Fin 5\<rparr>\<rparr>"

lemma demo_threshold: "acc_offlineThreshold demo_accessory = 2"
  by code_simp

theorem offline_after_a_run_of_polls_witness:
  "offlineConfirmed (accessory_run createFamilyRegistry
     [Snapshot quiet_hap sample_snapshot Poll, Snapshot quiet_hap dropped_snapshot Poll,
      Snapshot quiet_hap sample_snapshot Live, Snapshot quiet_hap dropped_snapshot Poll] demo_accessory)"
  using offline_after_a_run_of_polls [OF demo_built, of
      "[Snapshot quiet_hap sample_snapshot Poll, Snapshot quiet_hap dropped_snapshot Poll,
        Snapshot quiet_hap sample_snapshot Live, Snapshot quiet_hap dropped_snapshot Poll]"]
  by (simp add: demo_threshold dropped_snapshot_def sample_snapshot_def)

theorem monitoring_report_only_marks_witness:
  "fst (markMonitoring quiet_hap (acc_monitoring demo_accessory) demo_accessory) = []"
proof -
  have "\<not> acc_publishedRowsPending demo_accessory" by code_simp
  then show ?thesis
    using monitoring_report_only_marks [of quiet_hap "acc_monitoring demo_accessory" demo_accessory]
    by (simp add: split_beta Let_def)
qed

definition rejected_accessory :: accessory where
  "rejected_accessory = demo_accessory\<lparr>acc_monitoring :=
     (acc_monitoring demo_accessory)\<lparr>mt_credentialsRejected := True\<rparr>\<rparr>"

theorem control_events_keep_the_halt_marking_witness:
  "list_all pushes_only_on (fst (accessory_act createFamilyRegistry
     (PressControl quiet_hap mute_key AlarmMute False (VBool True)) rejected_accessory))"
  using control_events_keep_the_halt_marking [of rejected_accessory
      "PressControl quiet_hap mute_key AlarmMute False (VBool True)" createFamilyRegistry]
  by (simp add: rejected_accessory_def)

definition unlinked :: deviceSnapshot where
  "unlinked = sample_snapshot\<lparr>ds_data := jm_set ''serial_communications'' (JBool False) sample_data\<rparr>"

definition silent_accessory :: accessory where
  "silent_accessory = demo_accessory\<lparr>acc_monitoring :=
     (acc_monitoring demo_accessory)\<lparr>mt_shadowSilent := True\<rparr>\<rparr>"

definition unlinked_state :: scopedDomainState where
  "unlinked_state = sample_state\<lparr>sd_fault := map_option (\<lambda>f. f\<lparr>controllerLinkPresent := False\<rparr>) (sd_fault sample_state)\<rparr>"

lemma unlinked_facts:
  "decode unlinked = Inr unlinked_state" "validate unlinked = Valid"
  "di_deviceTypeId (ds_identity unlinked) = ''wayneWaterGemini''"
  by code_simp+

lemma unlinked_projection:
  "\<not> isl (projectionInputOf (publishing_state quiet_hap Valid unlinked_state unlinked Poll silent_accessory)
     (Some (domainObject unlinked_state))
     (control_pending (acc_controls (publishing_state quiet_hap Valid unlinked_state unlinked Poll silent_accessory))))"
  by code_simp

lemma unlinked_returns:
  "fst (snd (update createFamilyRegistry quiet_hap unlinked Poll silent_accessory)) = Inr ()"
proof -
  have "fam_decode geminiFamily unlinked = Inr unlinked_state" "fam_validate geminiFamily unlinked = Valid"
    using unlinked_facts by (simp_all add: geminiFamily_def)
  then have "fst (snd (update_resolved quiet_hap geminiFamily unlinked Poll silent_accessory)) = Inr ()"
    using update_resolved_result [of quiet_hap geminiFamily unlinked unlinked_state Poll silent_accessory]
      unlinked_projection
    by (cases "projectionInputOf (publishing_state quiet_hap Valid unlinked_state unlinked Poll silent_accessory)
        (Some (domainObject unlinked_state)) (control_pending (acc_controls
          (publishing_state quiet_hap Valid unlinked_state unlinked Poll silent_accessory)))")
      (simp_all add: accepting_def quiet_hap_def)
  then show ?thesis
    using unlinked_facts(3) by (simp add: update_def lookup_created)
qed

theorem quiet_shadow_unmasks_lost_link_witness:
  "(\<exists>v. (flood_key, LeakDetected, v)
      \<in> set (updates (fst (update createFamilyRegistry quiet_hap unlinked Poll silent_accessory))))
   \<and> (\<forall>v. (flood_key, LeakDetected, v)
      \<notin> set (updates (fst (update createFamilyRegistry quiet_hap unlinked Poll demo_accessory))))"
proof -
  obtain outs result a' where o: "update createFamilyRegistry quiet_hap unlinked Poll demo_accessory = (outs, result, a')"
    using prod_cases3 by blast
  obtain os b' where s: "update createFamilyRegistry quiet_hap unlinked Poll silent_accessory = (os, Inr (), b')"
    using unlinked_returns by (metis prod.collapse)
  have "jm_get (ds_data unlinked) ''serial_communications'' = Some (JBool False)" by code_simp
  from quiet_shadow_unmasks_lost_link [OF unlinked_facts(3) _ _ this _ _ o s [unfolded silent_accessory_def]]
  show ?thesis
    by (simp add: unlinked_facts violated_scopes_def demo_trust o s) blast
qed

definition wild_snapshot :: deviceSnapshot where
  "wild_snapshot = sample_snapshot\<lparr>ds_data :=
     jm_set ''backup_pump_timestamp'' (JNum (Fin 99999999999999)) (jm_set ''water_level'' (JNum (Fin 31)) sample_data)\<rparr>"

definition resumed_accessory :: accessory where
  "resumed_accessory = demo_accessory\<lparr>acc_records := (acc_records demo_accessory)\<lparr>pr_record := Some
     ((pump_seed 7)\<lparr>sr_watermarks := \<lparr>aw_backupPumpTimestamp = Some (Fin 5), aw_testTimestamp = None,
        aw_backupEdgeAwaitingTimestamp = False\<rparr>\<rparr>),
     pr_previousBackupRunning := Some False\<rparr>\<rparr>"

theorem wild_timestamp_silences_the_accessory_witness:
  "updates (fst (update createFamilyRegistry quiet_hap wild_snapshot Poll resumed_accessory)) = []"
proof -
  obtain outs result a' where o: "update createFamilyRegistry quiet_hap wild_snapshot Poll resumed_accessory = (outs, result, a')"
    using prod_cases3 by blast
  have facts: "di_deviceTypeId (ds_identity wild_snapshot) = ''wayneWaterGemini''"
    "jm_get (ds_data wild_snapshot) ''backup_pump_timestamp'' = Some (JNum (Fin 99999999999999))"
    by (simp_all add: wild_snapshot_def sample_snapshot_def)
  have still: "jm_get (ds_data wild_snapshot) ''backup_pump_running'' = Some (JBool False)" by code_simp
  have "validate wild_snapshot = Valid" by code_simp
  then have valid: "PumpScope \<notin> violated_scopes (validate wild_snapshot)" by (simp add: violated_scopes_def)
  have "updates outs = [] \<and> (\<exists>e. result = Inl e)"
    by (intro wild_timestamp_silences_the_accessory [OF facts(1) valid facts(2) _ _ _ _ _ _ o, where w = 5],
        simp_all add: resumed_accessory_def still) simp_all
  then show ?thesis by (simp add: o)
qed

end
