(* ===== verification/CloudErrors.thy ===== *)
theory CloudErrors
  imports JsValue
begin

text \<open>
  The errors a vendor call can end with: the classes of \<open>src/src/cloud/errors.ts\<close>, every other
  \<open>Error\<close> by its name (a deadline ends as \<open>TimeoutError\<close>, a shutdown as \<open>AbortError\<close>), and a thrown
  value that is no \<open>Error\<close> at all.
\<close>

datatype cloudError =
    CloudRequestError (request_message: string) (request_status: int) (request_route: string)
  | AuthRejectedError (rejected_message: string) (rejected_reason: string)
  | AuthThrottledError (throttled_message: string) (retryAfterMs: millis)
  | AuthHaltedError (halted_message: string) (halted_reason: string)
  | OtherError (other_name: string) (other_message: string)
  | NotAnError

text \<open>The \<open>name\<close> of an error object, set by each constructor.\<close>

fun error_name :: "cloudError \<Rightarrow> string option" where
  "error_name (CloudRequestError m s r) = Some ''CloudRequestError''"
| "error_name (AuthRejectedError m r) = Some ''AuthRejectedError''"
| "error_name (AuthThrottledError m t) = Some ''AuthThrottledError''"
| "error_name (AuthHaltedError m r) = Some ''AuthHaltedError''"
| "error_name (OtherError n m) = Some n"
| "error_name NotAnError = None"

text \<open>The two answers after which the account is never asked again.\<close>

fun is_terminal :: "cloudError \<Rightarrow> bool" where
  "is_terminal (AuthRejectedError m r) = True"
| "is_terminal (AuthHaltedError m r) = True"
| "is_terminal _ = False"

text \<open>\<open>String(n)\<close> of a whole number.\<close>

fun digits_of :: "nat \<Rightarrow> string" where
  "digits_of n = (if n < 10 then [char_of (48 + n)] else digits_of (n div 10) @ [char_of (48 + n mod 10)])"

declare digits_of.simps [simp del]

definition string_of_int :: "int \<Rightarrow> string" where
  "string_of_int i = (if i < 0 then ''-'' @ digits_of (nat (- i)) else digits_of (nat i))"

end
