(* ===== verification/AccountRuntime.thy ===== *)
theory AccountRuntime
  imports Handlers CloudErrors WireTypes DeviceStore MonitoringHealth Reconciliation FailureLog
    RetryPolicy Registry Controls
begin

text \<open>
  The account runtime of \<open>src/src/runtime/accountRuntime.ts\<close>: the launch, the poll loop, the
  credential loop, the shadow retry chain, the commands and the terminal acts, over the state of
  the components they drive (device store, monitoring health with its anchors, absence counts,
  failure log, reconnect policy).

  Every asynchronous function is cut where it waits for something outside the runtime: a timer, a
  vendor answer, the anchor file, the start of a shadow client. What a function still has to do after
  such a wait is a \<open>runtimeTask\<close>; a step takes one pending task and its answer, in any order, and runs to
  the next waits. An \<open>await\<close> of a promise that is already settled runs on within the step.

  The callbacks of the composition root are arguments: the inventory listener and the removal
  callback may change the store and may throw; the health callback only receives (the platform
  catches per accessory, \<open>applyMonitoringHealth\<close>).
\<close>

section \<open>Vocabulary\<close>

definition MAX_TIMEOUT_DELAY_MS :: millis where "MAX_TIMEOUT_DELAY_MS = 2147483647"
definition ROTATION_LEAD_MS :: millis where "ROTATION_LEAD_MS = 600000"
definition MIN_ROTATION_DELAY_MS :: millis where "MIN_ROTATION_DELAY_MS = 30000"

definition POLLING :: string where "POLLING = ''Device polling''"
definition ROTATION :: string where "ROTATION = ''Credential rotation''"
definition SHADOW :: string where "SHADOW = ''The shadow connection''"
definition AUTHENTICATION :: string where "AUTHENTICATION = ''Authentication''"

definition ROTATION_FAILED :: string where
  "ROTATION_FAILED =
    ''The temporary shadow credentials could not be refreshed; the plugin will try again.''"

definition SHADOW_DEGRADED :: string where
  "SHADOW_DEGRADED =
    ''The shadow connection is unavailable, so device state is coming from polling alone until it returns.''"

definition THROTTLED :: string where
  "THROTTLED =
    ''Authentication is being throttled, so the plugin is waiting before it tries again.''"

definition AUTHENTICATION_STOPPED :: string where
  "AUTHENTICATION_STOPPED =
    ''Monitoring has stopped because the vendor refused the account credentials. Correct the account in Homebridge to start the plugin again.''"

definition liveReportingKind :: "string \<Rightarrow> string" where
  "liveReportingKind deviceId = ''Live device reporting for '' @ deviceId"

definition liveReportingSilent :: "string \<Rightarrow> string" where
  "liveReportingSilent deviceId =
    ''No device message has arrived on the live connection from '' @ deviceId
    @ '' for two heartbeat intervals, so HomeKit is marking what it shows untrustworthy until one does.''"

definition removalKind :: "string \<Rightarrow> string" where
  "removalKind deviceId = ''HomeKit removal of '' @ deviceId"

definition removalRefused :: "string \<Rightarrow> string" where
  "removalRefused deviceId =
    ''Could not remove '' @ deviceId @ '' from HomeKit; it stays published and stays watched.''"

section \<open>State\<close>

record shadowCredentials =
  sc_endpoint :: string
  sc_clientId :: string
  sc_accessKeyId :: string
  sc_secretAccessKey :: string
  sc_sessionToken :: string

datatype SecretRole = AwsAccessKeyId | AwsSecretAccessKey | AwsSessionToken

datatype ShadowDisconnectReason =
    TransportClosed | TransportError | SubscriptionRefused | HandshakeRefused

text \<open>
  Who waits for what. \<open>RelaunchWait\<close> ends on the root signal alone; the other waits also ask whether
  the runtime has halted. An inventory is fetched by the launch or by the poll loop; a shadow attempt
  is made for the poll loop, for the first credential response (with its expiry) or for the chain.
\<close>

datatype waitKind = RelaunchWait | PollWait | CredentialWait | RetryWait

datatype inventoryCaller = Launching | PollLoop

datatype shadowCaller = FromPoll | FromCredentials string | FromRetry

datatype runtimeTask =
    RestoringAnchors "string list"
  | Waiting waitKind millis
  | InventoryFetch inventoryCaller
  | FinalCheck inventoryCaller nat "string list"
  | CredentialsFetch
  | ShadowStarting nat "string list" shadowCaller
  | CommandFetch nat

record runtime =
  rt_credentials :: "shadowCredentials option"
  rt_shadow :: "nat option"
  rt_shadowDeviceIds :: "string list"
  rt_polling :: bool
  rt_shadowConnected :: bool
  rt_halted :: bool
  rt_started :: bool
  rt_stopped :: bool
  rt_aborted :: bool
  rt_retryingShadow :: bool
  rt_reportedSilentDevices :: "string list"
  rt_connectRetry :: retryPolicy
  rt_reconciliation :: absenceCounts
  rt_health :: monitoringHealth
  rt_store :: deviceStore
  rt_failures :: warnedAt
  rt_nextClient :: nat
  rt_tasks :: "runtimeTask list"

datatype runtimeOutput =
    RtLog log_line
  | RtStore storeEvent
  | RestoreAnchors
  | PersistAnchors
  | ArmTimer waitKind millis
  | FetchInventory
  | FetchCredentials
  | SecretRegistered string SecretRole
  | CreateShadow nat
  | StartShadow nat "string list"
  | CloseShadow nat
  | Inventory "string list" deviceStore
  | DeviceRemoved string
  | HealthPushed monitoringTrust "(string, monitoringTrust) jsmap"
  | SendCommand nat string familyCommand
  | CommandAnswered nat CommandOutcome

record runtimeEnv =
  re_now :: millis
  re_monotonic :: millis
  re_store :: storeEnv
  re_registry :: familyRegistry
  re_pollIntervalMs :: millis
  re_rotationLeadMs :: millis
  re_minRotationDelayMs :: millis
  re_maxBackoffMs :: nat
  re_reminderMs :: millis
  re_dateParse :: "string \<Rightarrow> millis option"
  re_inventoryListener :: "string list \<Rightarrow> deviceStore \<Rightarrow> js_error option \<times> deviceStore"
  re_removalListener :: "string \<Rightarrow> deviceStore \<Rightarrow> js_error option \<times> deviceStore"

type_synonym 'a rt_act = "(runtimeOutput, runtime, 'a) handler"


definition createAccountRuntime :: "json option \<Rightarrow> runtime" where
  "createAccountRuntime anchorFile =
    \<lparr>rt_credentials = None, rt_shadow = None, rt_shadowDeviceIds = [], rt_polling = False,
     rt_shadowConnected = False, rt_halted = False, rt_started = False, rt_stopped = False,
     rt_aborted = False, rt_retryingShadow = False, rt_reportedSilentDevices = [],
     rt_connectRetry = createRetryPolicy, rt_reconciliation = [],
     rt_health = createMonitoringHealth (createArrivalAnchors anchorFile),
     rt_store = createDeviceStateStore, rt_failures = [], rt_nextClient = 0, rt_tasks = []\<rparr>"

definition rt_task :: "runtimeTask \<Rightarrow> unit rt_act" where
  "rt_task t = act_modify (\<lambda>s. s\<lparr>rt_tasks := rt_tasks s @ [t]\<rparr>)"

definition rt_failure :: "runtimeEnv \<Rightarrow> string \<Rightarrow> string \<Rightarrow> unit rt_act" where
  "rt_failure env kind reason = act_bind (act_get rt_failures) (\<lambda>w.
     let (logs, w') = recordFailure (re_reminderMs env) (re_monotonic env) kind reason w
     in act_then (act_modify (\<lambda>s. s\<lparr>rt_failures := w'\<rparr>)) (act_emit (map RtLog logs)))"

definition rt_success :: "string \<Rightarrow> unit rt_act" where
  "rt_success kind = act_bind (act_get rt_failures) (\<lambda>w.
     let (logs, w') = recordSuccess kind w
     in act_then (act_modify (\<lambda>s. s\<lparr>rt_failures := w'\<rparr>)) (act_emit (map RtLog logs)))"

section \<open>Pure parts\<close>

definition commandFailureOf :: "cloudError \<Rightarrow> CommandFailure" where
  "commandFailureOf e = (if error_name e = Some ''TimeoutError'' then TimedOut else VendorError)"

definition commandBodyOf ::
  "runtimeEnv \<Rightarrow> deviceStore \<Rightarrow> string \<Rightarrow> DeviceCapability \<Rightarrow> bool \<Rightarrow> familyCommand option" where
  "commandBodyOf env st deviceId capability requested =
    (case st_snapshot st deviceId of
       None \<Rightarrow> None
     | Some snapshot \<Rightarrow>
         (case registry_lookup (re_registry env) (di_deviceTypeId (ds_identity snapshot)) of
            Implemented family \<Rightarrow> Some (fam_command family capability requested)
          | _ \<Rightarrow> None))"

definition describeFailure :: "cloudError \<Rightarrow> string" where
  "describeFailure e = (case e of
      CloudRequestError m status route \<Rightarrow>
        ''Device discovery failed on '' @ route @ '' with HTTP '' @ string_of_int status @ ''.''
    | _ \<Rightarrow> ''Device discovery failed.'')"

definition toShadowCredentials :: "awsCredentialsResponse \<Rightarrow> shadowCredentials" where
  "toShadowCredentials r =
    \<lparr>sc_endpoint = acr_endpoint r, sc_clientId = acr_clientId r,
     sc_accessKeyId = aws_AccessKeyId (acr_credentials r),
     sc_secretAccessKey = aws_SecretAccessKey (acr_credentials r),
     sc_sessionToken = aws_SessionToken (acr_credentials r)\<rparr>"

text \<open>\<open>Date.parse\<close> is implementation-defined outside the ISO form: \<open>re_dateParse\<close>, none for NaN.\<close>

definition rotationDelayMs :: "runtimeEnv \<Rightarrow> string \<Rightarrow> millis \<Rightarrow> millis" where
  "rotationDelayMs env expiration now =
    (case re_dateParse env expiration of
       None \<Rightarrow> re_minRotationDelayMs env
     | Some expiresAt \<Rightarrow> max (re_minRotationDelayMs env) (expiresAt - now - re_rotationLeadMs env))"

definition hasFinished :: "runtime \<Rightarrow> bool" where
  "hasFinished s = (rt_stopped s \<or> rt_halted s)"

definition monitoringPathNow :: "runtime \<Rightarrow> MonitoringPath" where
  "monitoringPathNow s =
    (if rt_stopped s \<or> rt_halted s \<or> \<not> rt_polling s then Unavailable
     else if rt_shadowConnected s then ShadowAndPoll else PollOnly)"

definition commandTransportReadyNow :: "runtime \<Rightarrow> bool" where
  "commandTransportReadyNow s = (\<not> rt_stopped s \<and> \<not> rt_halted s \<and> rt_polling s)"

definition rt_silent :: "runtimeEnv \<Rightarrow> runtime \<Rightarrow> string list" where
  "rt_silent env s = silentDevices (re_monotonic env) (re_now env) (rt_health s)"

definition monitoringTrustNow :: "runtime \<Rightarrow> monitoringTrust" where
  "monitoringTrustNow s =
    \<lparr>mt_restDegraded = tt_restDegraded (trustNow (rt_health s)), mt_shadowSilent = True,
     mt_commandTransportReady = commandTransportReadyNow s, mt_credentialsRejected = rt_halted s\<rparr>"

definition monitoringTrustByDevice ::
  "runtimeEnv \<Rightarrow> runtime \<Rightarrow> monitoringTrust \<Rightarrow> (string, monitoringTrust) jsmap" where
  "monitoringTrustByDevice env s account =
    map (\<lambda>d. (d, account\<lparr>mt_shadowSilent := d \<in> set (rt_silent env s)\<rparr>)) (st_deviceIds (rt_store s))"

section \<open>Reporting\<close>

definition pushMonitoringTrust :: "runtimeEnv \<Rightarrow> unit rt_act" where
  "pushMonitoringTrust env = act_bind (act_get id) (\<lambda>s.
     let account = monitoringTrustNow s
     in act_emit [HealthPushed account (monitoringTrustByDevice env s account)])"

fun report_live :: "runtimeEnv \<Rightarrow> (string, monitoringTrust) jsmap \<Rightarrow> unit rt_act" where
  "report_live env [] = act_return ()"
| "report_live env ((deviceId, trust) # rest) = act_then
    (if mt_shadowSilent trust
     then rt_failure env (liveReportingKind deviceId) (liveReportingSilent deviceId)
     else rt_success (liveReportingKind deviceId))
    (report_live env rest)"

definition reportMonitoringHealth :: "runtimeEnv \<Rightarrow> unit rt_act" where
  "reportMonitoringHealth env = act_bind (act_get id) (\<lambda>s.
     let account = monitoringTrustNow s; byDevice = monitoringTrustByDevice env s account
     in act_then (act_modify (\<lambda>s. s\<lparr>rt_reportedSilentDevices :=
            map fst (filter (\<lambda>(d, trust). mt_shadowSilent trust) byDevice)\<rparr>))
       (act_then (report_live env byDevice)
       (act_then (act_modify (\<lambda>s. s\<lparr>rt_health := (rt_health s)\<lparr>mh_anchors := anchor_persist (mh_anchors (rt_health s))\<rparr>\<rparr>))
       (act_emit [PersistAnchors, HealthPushed account byDevice]))))"

definition closeQuietly :: "nat option \<Rightarrow> unit rt_act" where
  "closeQuietly client = (case client of None \<Rightarrow> act_return () | Some c \<Rightarrow> act_emit [CloseShadow c])"

definition haltOnTerminalAuthFailure :: "runtimeEnv \<Rightarrow> cloudError \<Rightarrow> bool rt_act" where
  "haltOnTerminalAuthFailure env e =
    (if \<not> is_terminal e then act_return False
     else act_bind (act_get rt_halted) (\<lambda>halted.
       if halted then act_return True
       else act_then (act_modify (\<lambda>s. s\<lparr>rt_halted := True\<rparr>))
         (act_then (rt_failure env AUTHENTICATION AUTHENTICATION_STOPPED)
         (act_then (pushMonitoringTrust env)
         (act_bind (act_get rt_shadow) (\<lambda>shadow.
           act_then (closeQuietly shadow) (act_return True)))))))"

definition recordPollSuccess :: "runtimeEnv \<Rightarrow> unit rt_act" where
  "recordPollSuccess env =
    act_then (act_modify (\<lambda>s. s\<lparr>rt_polling := True\<rparr>))
    (act_then (rt_success POLLING)
    (act_then (act_modify (\<lambda>s. s\<lparr>rt_health := recordRestSuccess (rt_health s)\<rparr>))
    (reportMonitoringHealth env)))"

definition recordPollFailure :: "runtimeEnv \<Rightarrow> cloudError \<Rightarrow> unit rt_act" where
  "recordPollFailure env e =
    act_then (act_modify (\<lambda>s. s\<lparr>rt_polling := False\<rparr>))
    (act_then (rt_failure env POLLING (describeFailure e))
    (act_then (act_modify (\<lambda>s. s\<lparr>rt_health := recordRestFailure (rt_health s)\<rparr>))
    (reportMonitoringHealth env)))"


section \<open>Waits\<close>

text \<open>
  A wait longer than one timer runs as a chain; it ends early when the root signal is aborted, or,
  for a loop, when the runtime has halted. Ending the chain's wait ends the retry chain.
\<close>

definition wait_ended :: "waitKind \<Rightarrow> unit rt_act" where
  "wait_ended k = (if k = RetryWait then act_modify (\<lambda>s. s\<lparr>rt_retryingShadow := False\<rparr>) else act_return ())"

definition waitFor :: "waitKind \<Rightarrow> millis \<Rightarrow> unit rt_act" where
  "waitFor k delayMs = act_bind (act_get rt_aborted) (\<lambda>aborted.
     if aborted then wait_ended k
     else act_then
       (act_emit [ArmTimer k (if delayMs > MAX_TIMEOUT_DELAY_MS then MAX_TIMEOUT_DELAY_MS else delayMs)])
       (rt_task (Waiting k delayMs)))"

definition waitWhileRunning :: "waitKind \<Rightarrow> millis \<Rightarrow> unit rt_act" where
  "waitWhileRunning k delayMs = act_bind (act_get rt_halted) (\<lambda>halted.
     if halted then wait_ended k else waitFor k delayMs)"

section \<open>The shadow connection\<close>

definition handleShadowConnected :: "unit rt_act" where
  "handleShadowConnected =
    act_then (act_modify (\<lambda>s. s\<lparr>rt_shadowConnected := True,
                              rt_connectRetry := retry_reset (rt_connectRetry s)\<rparr>))
    (rt_success SHADOW)"

definition handleShadowDisconnected :: "runtimeEnv \<Rightarrow> ShadowDisconnectReason \<Rightarrow> unit rt_act" where
  "handleShadowDisconnected env reason =
    act_then (act_modify (\<lambda>s. s\<lparr>rt_shadowConnected := False,
        rt_store := fold (\<lambda>d. releaseShadowSource d Disconnect) (st_deviceIds (rt_store s)) (rt_store s)\<rparr>))
    (if reason \<noteq> TransportClosed then rt_failure env SHADOW SHADOW_DEGRADED else act_return ())"

text \<open>
  \<open>applied !== previous\<close>: the store returns the snapshot it held for a message it refused, and a new
  one for a message it took.
\<close>

definition patch_taken :: "deviceStore \<Rightarrow> string \<Rightarrow> reportedPatch \<Rightarrow> bool" where
  "patch_taken st deviceId patch =
    (case st_snapshot st deviceId of
       None \<Rightarrow> False
     | Some previous \<Rightarrow> \<not> isFencedOut (jm_get (st_silenceFences st) deviceId) patch
         \<and> \<not> isStalePatch (ds_shadowVersion previous) (rp_version patch))"

definition handleReportedPatch :: "runtimeEnv \<Rightarrow> string \<Rightarrow> reportedPatch \<Rightarrow> unit rt_act" where
  "handleReportedPatch env deviceId patch = act_bind (act_get rt_store) (\<lambda>st.
     case applyReportedPatch (re_store env) (re_now env) deviceId patch st of
       (applied, events, st') \<Rightarrow>
         act_then (act_modify (\<lambda>s. s\<lparr>rt_store := st'\<rparr>))
         (act_then (act_emit (map RtStore events))
         (act_then (if patch_taken st deviceId patch \<and> hasTelemetryReading patch
             then act_modify (\<lambda>s. s\<lparr>rt_health :=
                    recordShadowMessage (re_monotonic env) (re_now env) deviceId (rt_health s)\<rparr>)
             else act_return ())
         (act_bind (act_get rt_reportedSilentDevices) (\<lambda>silent.
            if deviceId \<in> set silent then reportMonitoringHealth env else act_return ())))))"

text \<open>The credential loop's wait, after a response or a failure.\<close>

definition finish_refresh :: "runtimeEnv \<Rightarrow> string \<Rightarrow> unit rt_act" where
  "finish_refresh env expiration = act_bind (act_get hasFinished) (\<lambda>finished.
     act_then (if finished then act_return () else rt_success ROTATION)
       (waitWhileRunning CredentialWait (rotationDelayMs env expiration (re_now env))))"

definition next_poll :: "runtimeEnv \<Rightarrow> unit rt_act" where
  "next_poll env = waitWhileRunning PollWait (re_pollIntervalMs env)"

text \<open>The condition of the chain's loop, and the chain itself when an attempt was refused.\<close>

definition retry_loop :: "runtimeEnv \<Rightarrow> unit rt_act" where
  "retry_loop env = act_bind (act_get id) (\<lambda>s.
     if rt_shadow s = None \<and> \<not> rt_stopped s
     then (case nextDelayMs (re_maxBackoffMs env) (rt_connectRetry s) of
         (delay, retry') \<Rightarrow>
           act_then (act_modify (\<lambda>s. s\<lparr>rt_connectRetry := retry'\<rparr>))
             (waitWhileRunning RetryWait (of_nat delay)))
     else act_modify (\<lambda>s. s\<lparr>rt_retryingShadow := False\<rparr>))"

definition retryShadow :: "runtimeEnv \<Rightarrow> unit rt_act" where
  "retryShadow env =
    act_then (act_modify (\<lambda>s. s\<lparr>rt_retryingShadow := True\<rparr>)) (retry_loop env)"

text \<open>What each caller does with the answer of an attempt: refused, or not.\<close>

definition attempt_answered :: "runtimeEnv \<Rightarrow> shadowCaller \<Rightarrow> bool \<Rightarrow> unit rt_act" where
  "attempt_answered env caller refused = (case caller of
      FromPoll \<Rightarrow> act_then (if refused then retryShadow env else act_return ()) (next_poll env)
    | FromCredentials expiration \<Rightarrow>
        act_then (if refused then retryShadow env else act_return ()) (finish_refresh env expiration)
    | FromRetry \<Rightarrow> retry_loop env)"

definition same_membership :: "string list \<Rightarrow> string list \<Rightarrow> bool" where
  "same_membership watched deviceIds =
    (length watched = length deviceIds \<and> (\<forall>d \<in> set deviceIds. d \<in> set watched))"

definition start_client :: "runtimeEnv \<Rightarrow> shadowCaller \<Rightarrow> string list \<Rightarrow> unit rt_act" where
  "start_client env caller deviceIds = act_bind (act_get rt_shadow) (\<lambda>shadow. case shadow of
       Some client \<Rightarrow>
         act_then (act_emit [StartShadow client deviceIds]) (rt_task (ShadowStarting client deviceIds caller))
     | None \<Rightarrow> act_bind (act_get rt_nextClient) (\<lambda>client.
         act_then (act_modify (\<lambda>s. s\<lparr>rt_nextClient := client + 1\<rparr>))
         (act_then (act_emit [CreateShadow client, StartShadow client deviceIds])
           (rt_task (ShadowStarting client deviceIds caller)))))"

definition attemptShadow :: "runtimeEnv \<Rightarrow> shadowCaller \<Rightarrow> unit rt_act" where
  "attemptShadow env caller = act_bind (act_get id) (\<lambda>s.
     let deviceIds = st_deviceIds (rt_store s)
     in if hasFinished s \<or> rt_credentials s = None \<or> deviceIds = []
        then attempt_answered env caller False
        else if rt_shadow s \<noteq> None \<and> same_membership (rt_shadowDeviceIds s) deviceIds
        then attempt_answered env caller False
        else act_then
          (if rt_shadow s \<noteq> None then handleShadowDisconnected env TransportClosed else act_return ())
          (start_client env caller deviceIds))"

text \<open>The rest of \<open>attemptShadow\<close>, once the client's \<open>start\<close> has resolved or thrown.\<close>

definition shadow_started :: "runtimeEnv \<Rightarrow> nat \<Rightarrow> string list \<Rightarrow> shadowCaller \<Rightarrow> bool \<Rightarrow> unit rt_act" where
  "shadow_started env client deviceIds caller ok =
    (if \<not> ok then act_then (rt_failure env SHADOW SHADOW_DEGRADED) (attempt_answered env caller True)
     else act_bind (act_get hasFinished) (\<lambda>finished.
       if finished then act_then (closeQuietly (Some client)) (attempt_answered env caller False)
       else act_then (act_modify (\<lambda>s. s\<lparr>rt_shadow := Some client, rt_shadowDeviceIds := deviceIds\<rparr>))
         (attempt_answered env caller False)))"

definition openShadow :: "runtimeEnv \<Rightarrow> shadowCaller \<Rightarrow> unit rt_act" where
  "openShadow env caller = act_bind (act_get rt_retryingShadow) (\<lambda>retrying.
     if retrying then attempt_answered env caller False else attemptShadow env caller)"

section \<open>Credentials\<close>

definition refreshCredentials :: "unit rt_act" where
  "refreshCredentials = act_then (act_emit [FetchCredentials]) (rt_task CredentialsFetch)"

definition credentials_answered ::
  "runtimeEnv \<Rightarrow> cloudError + awsCredentialsResponse \<Rightarrow> unit rt_act" where
  "credentials_answered env answer = (case answer of
      Inl e \<Rightarrow> act_bind (act_get rt_aborted) (\<lambda>aborted.
        act_then
          (if aborted then act_return ()
           else act_bind (haltOnTerminalAuthFailure env e) (\<lambda>halted.
             if halted then act_return () else rt_failure env ROTATION ROTATION_FAILED))
          (waitWhileRunning CredentialWait (re_minRotationDelayMs env)))
    | Inr response \<Rightarrow>
        act_then (act_emit
          [SecretRegistered (aws_AccessKeyId (acr_credentials response)) AwsAccessKeyId,
           SecretRegistered (aws_SecretAccessKey (acr_credentials response)) AwsSecretAccessKey,
           SecretRegistered (aws_SessionToken (acr_credentials response)) AwsSessionToken])
        (act_bind (act_get rt_credentials) (\<lambda>cache.
          act_then (act_modify (\<lambda>s. s\<lparr>rt_credentials := Some (toShadowCredentials response)\<rparr>))
            (if cache = None
             then openShadow env (FromCredentials (aws_Expiration (acr_credentials response)))
             else finish_refresh env (aws_Expiration (acr_credentials response))))))"


section \<open>Inventories\<close>

definition release_silent :: "runtimeEnv \<Rightarrow> unit rt_act" where
  "release_silent env = act_modify (\<lambda>s. s\<lparr>rt_store :=
     fold (\<lambda>d. releaseShadowSource d Silence) (rt_silent env s) (rt_store s)\<rparr>)"

fun admit_devices :: "runtimeEnv \<Rightarrow> apiDevice list \<Rightarrow> unit rt_act" where
  "admit_devices env [] = act_return ()"
| "admit_devices env (device # devices) = act_bind (act_get id) (\<lambda>s.
     case applyDiscovery (re_store env) (re_now env) device (rt_store s) of
       (snapshot, events, st') \<Rightarrow>
         act_then (act_modify (\<lambda>s. s\<lparr>rt_health :=
             admitDevice (re_monotonic env) (re_now env) (ad_deviceId device) (rt_health s),
             rt_store := st'\<rparr>))
         (act_then (act_emit (map RtStore events)) (admit_devices env devices)))"

definition notify_inventory :: "runtimeEnv \<Rightarrow> string list \<Rightarrow> unit rt_act" where
  "notify_inventory env deviceIds = act_bind (act_get rt_store) (\<lambda>st.
     case re_inventoryListener env deviceIds st of (failure, st') \<Rightarrow>
       act_then (act_modify (\<lambda>s. s\<lparr>rt_store := st'\<rparr>))
       (act_then (act_emit [Inventory deviceIds st])
         (case failure of None \<Rightarrow> act_return () | Some e \<Rightarrow> act_throw e)))"

definition observe_inventory :: "string list \<Rightarrow> (runtimeOutput, runtime, string list) handler" where
  "observe_inventory deviceIds = act_bind (act_get rt_reconciliation) (\<lambda>counts.
     case observe deviceIds counts of (confirmed, logs, counts') \<Rightarrow>
       act_then (act_modify (\<lambda>s. s\<lparr>rt_reconciliation := counts'\<rparr>))
       (act_then (act_emit (map RtLog logs)) (act_return confirmed)))"

text \<open>\<open>applyDevices\<close> up to the final check: the identifiers confirmed absent.\<close>

definition applyDevices ::
  "runtimeEnv \<Rightarrow> apiDevice list \<Rightarrow> (runtimeOutput, runtime, string list) handler" where
  "applyDevices env devices =
    act_then (release_silent env)
    (act_then (admit_devices env devices)
    (act_then (notify_inventory env (map ad_deviceId devices))
      (observe_inventory (map ad_deviceId devices))))"

text \<open>One identifier of the final check: still there, refused by HomeKit, or removed and pruned.\<close>

definition check_removal :: "runtimeEnv \<Rightarrow> string list \<Rightarrow> string \<Rightarrow> unit rt_act" where
  "check_removal env stillPresent deviceId =
    (if deviceId \<in> set stillPresent
     then act_modify (\<lambda>s. s\<lparr>rt_reconciliation := recon_present deviceId (rt_reconciliation s)\<rparr>)
     else act_bind (act_get rt_store) (\<lambda>st.
       case re_removalListener env deviceId st of (failure, st') \<Rightarrow>
         act_then (act_modify (\<lambda>s. s\<lparr>rt_store := st'\<rparr>))
         (act_then (act_emit [DeviceRemoved deviceId])
         (case failure of
            Some e \<Rightarrow> rt_failure env (removalKind deviceId) (removalRefused deviceId)
          | None \<Rightarrow> act_modify (\<lambda>s. s\<lparr>
              rt_reconciliation := recon_forget deviceId (rt_reconciliation s),
              rt_health := (let h = forgetDevice deviceId (rt_health s)
                            in h\<lparr>mh_anchors := anchor_forget deviceId (mh_anchors h)\<rparr>),
              rt_failures := failure_forget (removalKind deviceId)
                               (failure_forget (liveReportingKind deviceId) (rt_failures s))\<rparr>)))))"

fun finish_removals :: "runtimeEnv \<Rightarrow> string list \<Rightarrow> string list \<Rightarrow> unit rt_act" where
  "finish_removals env stillPresent [] = act_return ()"
| "finish_removals env stillPresent (d # ds) =
    act_then (check_removal env stillPresent d) (finish_removals env stillPresent ds)"

section \<open>The loops\<close>

definition fetch_inventory :: "inventoryCaller \<Rightarrow> unit rt_act" where
  "fetch_inventory caller = act_then (act_emit [FetchInventory]) (rt_task (InventoryFetch caller))"

definition startBackgroundWork :: "runtimeEnv \<Rightarrow> unit rt_act" where
  "startBackgroundWork env = act_then (next_poll env) refreshCredentials"

text \<open>
  A throttled launch waits for the time the error carries; the first attempt and the later ones
  arm the same wait.
\<close>

definition launchFailure :: "runtimeEnv \<Rightarrow> cloudError \<Rightarrow> unit rt_act" where
  "launchFailure env e = act_bind (act_get hasFinished) (\<lambda>finished.
     if finished then act_return ()
     else act_bind (haltOnTerminalAuthFailure env e) (\<lambda>halted.
       if halted then act_return ()
       else case e of
           AuthThrottledError m retryAfter \<Rightarrow>
             act_then (rt_failure env AUTHENTICATION THROTTLED) (waitFor RelaunchWait retryAfter)
         | _ \<Rightarrow> act_then (recordPollFailure env e) (startBackgroundWork env)))"

definition poll_failed :: "runtimeEnv \<Rightarrow> cloudError \<Rightarrow> unit rt_act" where
  "poll_failed env e = act_then
    (act_bind (act_get rt_aborted) (\<lambda>aborted.
       if aborted then act_return ()
       else act_bind (haltOnTerminalAuthFailure env e) (\<lambda>halted.
         act_bind (act_get hasFinished) (\<lambda>finished.
           if halted \<or> finished then act_return () else recordPollFailure env e))))
    (next_poll env)"

definition inventory_failed :: "runtimeEnv \<Rightarrow> inventoryCaller \<Rightarrow> cloudError \<Rightarrow> unit rt_act" where
  "inventory_failed env caller e = (case caller of
      Launching \<Rightarrow> launchFailure env e | PollLoop \<Rightarrow> poll_failed env e)"

text \<open>A caller that finds the runtime finished goes no further: the loop ends at its wait.\<close>

definition inventory_abandoned :: "runtimeEnv \<Rightarrow> inventoryCaller \<Rightarrow> unit rt_act" where
  "inventory_abandoned env caller = (case caller of
      Launching \<Rightarrow> act_return () | PollLoop \<Rightarrow> next_poll env)"

text \<open>What follows \<open>applyDevices\<close>, given how many devices the inventory named.\<close>

definition inventory_applied :: "runtimeEnv \<Rightarrow> inventoryCaller \<Rightarrow> nat \<Rightarrow> unit rt_act" where
  "inventory_applied env caller count = act_bind (act_get hasFinished) (\<lambda>finished.
     if finished then inventory_abandoned env caller
     else act_then (recordPollSuccess env) (case caller of
         PollLoop \<Rightarrow> openShadow env FromPoll
       | Launching \<Rightarrow>
           act_then (act_emit [RtLog (LInfo (''Discovered '' @ digits_of count @ '' device(s).''))])
             (startBackgroundWork env)))"

definition js_as_cloud :: "js_error \<Rightarrow> cloudError" where
  "js_as_cloud e = (case e of
      TypeError m \<Rightarrow> OtherError ''TypeError'' m
    | RangeError m \<Rightarrow> OtherError ''RangeError'' m
    | PlainError m \<Rightarrow> OtherError ''Error'' m
    | AggregateError es m \<Rightarrow> OtherError ''AggregateError'' m)"

text \<open>The answer of the inventory request of \<open>launch\<close> and of \<open>runPoll\<close>.\<close>

definition inventory_answered ::
  "runtimeEnv \<Rightarrow> inventoryCaller \<Rightarrow> cloudError + apiDevice list \<Rightarrow> unit rt_act" where
  "inventory_answered env caller answer = (case answer of
      Inl e \<Rightarrow> inventory_failed env caller e
    | Inr devices \<Rightarrow> act_bind (act_get hasFinished) (\<lambda>finished.
        if finished then inventory_abandoned env caller
        else (\<lambda>s. case applyDevices env devices s of
            (os, Inl e, s') \<Rightarrow> act_then (act_emit os) (inventory_failed env caller (js_as_cloud e)) s'
          | (os, Inr confirmed, s') \<Rightarrow> act_then (act_emit os)
              (if confirmed = [] then inventory_applied env caller (length devices)
               else act_then (act_emit [FetchInventory])
                      (rt_task (FinalCheck caller (length devices) confirmed))) s')))"

text \<open>
  The answer of the final check. A failure removes nothing; a terminal one is the caller's to handle.
\<close>

definition final_check_answered ::
  "runtimeEnv \<Rightarrow> inventoryCaller \<Rightarrow> nat \<Rightarrow> string list \<Rightarrow> cloudError + apiDevice list \<Rightarrow> unit rt_act" where
  "final_check_answered env caller count confirmed answer = (case answer of
      Inl e \<Rightarrow> if is_terminal e then inventory_failed env caller e else inventory_applied env caller count
    | Inr fresh \<Rightarrow> act_bind (act_get hasFinished) (\<lambda>finished.
        if finished then inventory_applied env caller count
        else act_then (finish_removals env (map ad_deviceId fresh) confirmed)
               (inventory_applied env caller count)))"

text \<open>A wait whose timer fired: the next timer of a long wait, or the loop's next turn.\<close>

definition loop_turn :: "runtimeEnv \<Rightarrow> waitKind \<Rightarrow> unit rt_act" where
  "loop_turn env k = (case k of
      RelaunchWait \<Rightarrow> fetch_inventory Launching
    | PollWait \<Rightarrow> fetch_inventory PollLoop
    | CredentialWait \<Rightarrow> refreshCredentials
    | RetryWait \<Rightarrow> attemptShadow env FromRetry)"

definition wait_fired :: "runtimeEnv \<Rightarrow> waitKind \<Rightarrow> millis \<Rightarrow> unit rt_act" where
  "wait_fired env k delayMs = act_bind (act_get id) (\<lambda>s.
     if rt_aborted s then wait_ended k
     else if delayMs > MAX_TIMEOUT_DELAY_MS then waitFor k (delayMs - MAX_TIMEOUT_DELAY_MS)
     else if k \<noteq> RelaunchWait \<and> rt_halted s then wait_ended k
     else loop_turn env k)"

section \<open>Commands, start and stop\<close>

definition command_send ::
  "runtimeEnv \<Rightarrow> nat \<Rightarrow> string \<Rightarrow> DeviceCapability \<Rightarrow> bool \<Rightarrow> unit rt_act" where
  "command_send env n deviceId capability requested = act_bind (act_get rt_store) (\<lambda>st.
     case commandBodyOf env st deviceId capability requested of
       None \<Rightarrow> act_emit [CommandAnswered n (Refused VendorError)]
     | Some command \<Rightarrow> act_then (act_emit [SendCommand n deviceId command]) (rt_task (CommandFetch n)))"

definition command_answered :: "nat \<Rightarrow> cloudError + bool \<Rightarrow> unit rt_act" where
  "command_answered n answer = act_emit [CommandAnswered n (case answer of
      Inr success \<Rightarrow> if success then Accepted else Refused VendorError
    | Inl e \<Rightarrow> Refused (commandFailureOf e))]"

definition runtime_start :: "string list \<Rightarrow> unit rt_act" where
  "runtime_start knownDeviceIds = act_bind (act_get id) (\<lambda>s.
     if rt_started s \<or> rt_stopped s then act_return ()
     else act_then (act_modify (\<lambda>s. s\<lparr>rt_started := True\<rparr>))
       (act_then (act_emit [RestoreAnchors]) (rt_task (RestoringAnchors knownDeviceIds))))"

definition anchors_restored ::
  "string list \<Rightarrow> bool \<Rightarrow> json option \<Rightarrow> unit rt_act" where
  "anchors_restored knownDeviceIds present parsed = act_bind (act_get id) (\<lambda>s.
     case anchor_restore present parsed (mh_anchors (rt_health s)) of (logs, anchors) \<Rightarrow>
       act_then (act_modify (\<lambda>s. s\<lparr>rt_health := (rt_health s)\<lparr>mh_anchors := anchors\<rparr>\<rparr>))
       (act_then (act_emit (map RtLog logs))
       (if hasFinished s then act_return ()
        else act_then (act_modify (\<lambda>s. s\<lparr>rt_reconciliation :=
               fold recon_present knownDeviceIds (rt_reconciliation s)\<rparr>))
             (fetch_inventory Launching))))"

definition runtime_stop :: "runtimeEnv \<Rightarrow> unit rt_act" where
  "runtime_stop env = act_bind (act_get rt_stopped) (\<lambda>stopped.
     if stopped then act_return ()
     else act_then (act_modify (\<lambda>s. s\<lparr>rt_stopped := True\<rparr>))
       (act_then (pushMonitoringTrust env)
       (act_then (act_modify (\<lambda>s. s\<lparr>rt_aborted := True\<rparr>))
       (act_bind (act_get rt_shadow) closeQuietly))))"


section \<open>Steps\<close>

text \<open>
  What can happen to a runtime: a call from its owner, a notification of its shadow client, an anchor
  write that ended, or the end of one of its pending waits with the answer it waited for.
\<close>

datatype runtimeEvent =
    Started "string list"
  | Stopped
  | ShadowUp
  | ShadowDown ShadowDisconnectReason
  | Reported string reportedPatch
  | Send nat string DeviceCapability bool
  | AnchorWritten bool
  | Restored "string list" bool "json option"
  | Fired waitKind millis
  | InventoryAnswer inventoryCaller "cloudError + apiDevice list"
  | FinalCheckAnswer inventoryCaller nat "string list" "cloudError + apiDevice list"
  | CredentialsAnswer "cloudError + awsCredentialsResponse"
  | ClientStarted nat "string list" shadowCaller bool
  | CommandAnswer nat "cloudError + bool"

fun task_of :: "runtimeEvent \<Rightarrow> runtimeTask option" where
  "task_of (Restored ids present parsed) = Some (RestoringAnchors ids)"
| "task_of (Fired k delayMs) = Some (Waiting k delayMs)"
| "task_of (InventoryAnswer caller answer) = Some (InventoryFetch caller)"
| "task_of (FinalCheckAnswer caller n ids answer) = Some (FinalCheck caller n ids)"
| "task_of (CredentialsAnswer answer) = Some CredentialsFetch"
| "task_of (ClientStarted c ids caller ok) = Some (ShadowStarting c ids caller)"
| "task_of (CommandAnswer n answer) = Some (CommandFetch n)"
| "task_of _ = None"

definition anchors_landed :: "bool \<Rightarrow> unit rt_act" where
  "anchors_landed ok = act_bind (act_get (\<lambda>s. mh_anchors (rt_health s))) (\<lambda>a.
     case anchor_written ok a of (logs, a') \<Rightarrow>
       act_then (act_modify (\<lambda>s. s\<lparr>rt_health := (rt_health s)\<lparr>mh_anchors := a'\<rparr>\<rparr>))
         (act_emit (map RtLog logs)))"

fun rt_handle :: "runtimeEnv \<Rightarrow> runtimeEvent \<Rightarrow> unit rt_act" where
  "rt_handle env (Started ids) = runtime_start ids"
| "rt_handle env Stopped = runtime_stop env"
| "rt_handle env ShadowUp = handleShadowConnected"
| "rt_handle env (ShadowDown reason) = handleShadowDisconnected env reason"
| "rt_handle env (Reported d patch) = handleReportedPatch env d patch"
| "rt_handle env (Send n d cap req) = command_send env n d cap req"
| "rt_handle env (AnchorWritten ok) = anchors_landed ok"
| "rt_handle env (Restored ids present parsed) = anchors_restored ids present parsed"
| "rt_handle env (Fired k delayMs) = wait_fired env k delayMs"
| "rt_handle env (InventoryAnswer caller answer) = inventory_answered env caller answer"
| "rt_handle env (FinalCheckAnswer caller n ids answer) = final_check_answered env caller n ids answer"
| "rt_handle env (CredentialsAnswer answer) = credentials_answered env answer"
| "rt_handle env (ClientStarted c ids caller ok) = shadow_started env c ids caller ok"
| "rt_handle env (CommandAnswer n answer) = command_answered n answer"

text \<open>An answer only arrives for a task that is pending, and takes it off the list.\<close>

definition enabled :: "runtime \<Rightarrow> runtimeEvent \<Rightarrow> bool" where
  "enabled s ev = (case task_of ev of None \<Rightarrow> True | Some t \<Rightarrow> t \<in> set (rt_tasks s))"

definition take_task :: "runtimeEvent \<Rightarrow> runtime \<Rightarrow> runtime" where
  "take_task ev s = (case task_of ev of
      None \<Rightarrow> s | Some t \<Rightarrow> s\<lparr>rt_tasks := remove1 t (rt_tasks s)\<rparr>)"

definition rt_step :: "runtimeEnv \<Rightarrow> runtimeEvent \<Rightarrow> runtime \<Rightarrow> runtimeOutput list \<times> runtime" where
  "rt_step env ev s = (case rt_handle env ev (take_task ev s) of (os, r, s') \<Rightarrow> (os, s'))"

text \<open>The runs of a runtime, with the outputs of each step; the environment may change freely.\<close>

inductive rt_run :: "runtime \<Rightarrow> runtimeOutput list \<Rightarrow> runtime \<Rightarrow> bool" for s0 where
  rt_run_none: "rt_run s0 [] s0"
| rt_run_step: "rt_run s0 os s \<Longrightarrow> enabled s ev \<Longrightarrow> rt_step env ev s = (os', s') \<Longrightarrow>
    rt_run s0 (os @ os') s'"

inductive reachable :: "runtime \<Rightarrow> bool" where
  reachable_created: "reachable (createAccountRuntime file)"
| reachable_step: "reachable s \<Longrightarrow> enabled s ev \<Longrightarrow> rt_step env ev s = (os, s') \<Longrightarrow> reachable s'"

end
