(* ===== verification/RuntimeLifecycle.thy ===== *)
theory RuntimeLifecycle
  imports AccountRuntime "HOL-Library.Multiset"
begin

text \<open>
  What the account runtime promises about its own life, as a small abstract machine: which of its
  threads (the launch, the poll loop, the credential loop, shadow retry chains, commands) have a next
  attempt pending, and whether it was started, halted or stopped. Every step of the runtime is a step
  of that machine; the invariants are proved there.
\<close>

section \<open>The state a handler leaves\<close>

definition post :: "('o, 's, 'a) handler \<Rightarrow> 's \<Rightarrow> 's" where
  "post m s = snd (snd (m s))"

lemma post_basic [simp]:
  "post (act_return x) s = s" "post (act_emit os) s = s" "post (act_modify f) s = f s"
  "post (act_bind (act_get g) k) s = post (k (g s)) s"
  "post (act_then (act_modify f) n) s = post n (f s)"
  "post (act_then (act_emit os) n) s = post n s"
  "post (act_then (act_return ()) n) s = post n s"
  by (simp_all add: post_def act_then_def act_bind_cases act_return_def act_emit_def act_modify_def act_get_def)

lemma post_then: "returns m \<Longrightarrow> post (act_then m k) s = post k (post m s)"
  unfolding post_def act_then_def act_bind_cases returns_def
  by (metis fst_conv old.sum.simps(6) snd_conv)

lemma post_bind_result:
  "fst (snd (m s)) = Inr x \<Longrightarrow> post (act_bind m k) s = post (k x) (post m s)"
  by (simp add: post_def act_bind_cases)

lemma post_keeps: "keeps f m \<Longrightarrow> f (post m s) = f s"
  by (simp add: post_def keepsD)

section \<open>The abstract machine\<close>

datatype thread = LaunchThread | PollThread | CredentialThread | ChainThread | CommandThread

record lifecycle =
  lc_started :: bool
  lc_halted :: bool
  lc_stopped :: bool
  lc_pending :: "thread multiset"

definition lc_finished :: "lifecycle \<Rightarrow> bool" where
  "lc_finished l = (lc_stopped l \<or> lc_halted l)"

text \<open>
  A thread's turn usually leaves it pending again; that is no step of the machine. A poll or credential
  turn may start a retry chain. A thread ends only when the runtime has finished, a chain when it
  likes, a command when it is answered.
\<close>

inductive lc_step :: "lifecycle \<Rightarrow> lifecycle \<Rightarrow> bool" where
  lc_idle: "lc_step l l"
| lc_begins: "\<not> lc_started l \<Longrightarrow> \<not> lc_stopped l \<Longrightarrow>
    lc_step l (l\<lparr>lc_started := True, lc_pending := lc_pending l + {#LaunchThread#}\<rparr>)"
| lc_stops: "lc_step l (l\<lparr>lc_stopped := True\<rparr>)"
| lc_launched: "LaunchThread \<in># lc_pending l \<Longrightarrow> \<not> lc_finished l \<Longrightarrow>
    lc_step l (l\<lparr>lc_pending := lc_pending l - {#LaunchThread#} + {#PollThread#} + {#CredentialThread#}\<rparr>)"
| lc_ends: "t \<in># lc_pending l \<Longrightarrow> t \<in> {LaunchThread, PollThread, CredentialThread} \<Longrightarrow> lc_finished l \<Longrightarrow>
    lc_step l (l\<lparr>lc_pending := lc_pending l - {#t#}\<rparr>)"
| lc_halts: "t \<in># lc_pending l \<Longrightarrow> t \<in> {LaunchThread, PollThread, CredentialThread} \<Longrightarrow>
    \<not> lc_stopped l \<Longrightarrow>
    lc_step l (l\<lparr>lc_halted := True, lc_pending := lc_pending l - {#t#}\<rparr>)"
| lc_chain: "t \<in># lc_pending l \<Longrightarrow> t \<in> {PollThread, CredentialThread} \<Longrightarrow> \<not> lc_finished l \<Longrightarrow>
    lc_step l (l\<lparr>lc_pending := lc_pending l + {#ChainThread#}\<rparr>)"
| lc_chain_ends: "ChainThread \<in># lc_pending l \<Longrightarrow>
    lc_step l (l\<lparr>lc_pending := lc_pending l - {#ChainThread#}\<rparr>)"
| lc_sends: "lc_step l (l\<lparr>lc_pending := lc_pending l + {#CommandThread#}\<rparr>)"
| lc_sent: "CommandThread \<in># lc_pending l \<Longrightarrow>
    lc_step l (l\<lparr>lc_pending := lc_pending l - {#CommandThread#}\<rparr>)"

definition threads_ok :: "nat \<Rightarrow> nat \<Rightarrow> nat \<Rightarrow> bool" where
  "threads_ok launch poll cred =
    ((launch = 1 \<and> poll = 0 \<and> cred = 0) \<or> (launch = 0 \<and> poll = 1 \<and> cred = 1))"

definition lc_inv :: "lifecycle \<Rightarrow> bool" where
  "lc_inv l =
    (let n = count (lc_pending l)
     in (\<not> lc_started l \<longrightarrow> n LaunchThread = 0 \<and> n PollThread = 0 \<and> n CredentialThread = 0)
      \<and> (lc_started l \<and> \<not> lc_finished l \<longrightarrow>
           threads_ok (n LaunchThread) (n PollThread) (n CredentialThread))
      \<and> n LaunchThread + n PollThread \<le> 1 \<and> n LaunchThread + n CredentialThread \<le> 1
      \<and> (0 < n LaunchThread \<longrightarrow> \<not> lc_halted l)
      \<and> (\<not> lc_started l \<longrightarrow> \<not> lc_halted l))"

lemma lc_inv_step: "lc_step l l' \<Longrightarrow> lc_inv l \<Longrightarrow> lc_inv l'"
  by (induction rule: lc_step.induct)
    (auto simp: lc_inv_def Let_def threads_ok_def lc_finished_def
      simp flip: count_greater_zero_iff split: if_splits)


section \<open>The machine behind a runtime\<close>

fun caller_thread :: "shadowCaller \<Rightarrow> thread" where
  "caller_thread FromPoll = PollThread"
| "caller_thread (FromCredentials e) = CredentialThread"
| "caller_thread FromRetry = ChainThread"

fun thread_of :: "runtimeTask \<Rightarrow> thread" where
  "thread_of (RestoringAnchors ids) = LaunchThread"
| "thread_of (Waiting k d) = (case k of RelaunchWait \<Rightarrow> LaunchThread | PollWait \<Rightarrow> PollThread
     | CredentialWait \<Rightarrow> CredentialThread | RetryWait \<Rightarrow> ChainThread)"
| "thread_of (InventoryFetch caller) = (case caller of Launching \<Rightarrow> LaunchThread | PollLoop \<Rightarrow> PollThread)"
| "thread_of (FinalCheck caller n ids) = (case caller of Launching \<Rightarrow> LaunchThread | PollLoop \<Rightarrow> PollThread)"
| "thread_of CredentialsFetch = CredentialThread"
| "thread_of (ShadowStarting c ids caller) = caller_thread caller"
| "thread_of (CommandFetch n) = CommandThread"

definition lc :: "runtime \<Rightarrow> lifecycle" where
  "lc s = \<lparr>lc_started = rt_started s, lc_halted = rt_halted s, lc_stopped = rt_stopped s,
           lc_pending = mset (map thread_of (rt_tasks s))\<rparr>"

text \<open>The part of the state the machine sees, and the abort flag that follows \<open>stopped\<close>.\<close>

definition ctl :: "runtime \<Rightarrow> bool \<times> bool \<times> bool \<times> bool \<times> runtimeTask list" where
  "ctl s = (rt_started s, rt_halted s, rt_stopped s, rt_aborted s, rt_tasks s)"

named_theorems runtime_returns \<open>handlers of the runtime that never throw\<close>
named_theorems runtime_keeps \<open>handlers of the runtime that leave its life alone\<close>

lemma returns_rt_failure [runtime_returns]: "returns (rt_failure env kind reason)"
  and returns_rt_success [runtime_returns]: "returns (rt_success kind)"
  and returns_pushMonitoringTrust [runtime_returns]: "returns (pushMonitoringTrust env)"
  and returns_closeQuietly [runtime_returns]: "returns (closeQuietly c)"
  and returns_rt_task [runtime_returns]: "returns (rt_task t)"
  unfolding rt_failure_def rt_success_def pushMonitoringTrust_def closeQuietly_def rt_task_def Let_def
  by auto

lemma keeps_rt_failure [runtime_keeps]: "keeps ctl (rt_failure env kind reason)"
  and keeps_rt_success [runtime_keeps]: "keeps ctl (rt_success kind)"
  and keeps_pushMonitoringTrust [runtime_keeps]: "keeps ctl (pushMonitoringTrust env)"
  and keeps_closeQuietly [runtime_keeps]: "keeps ctl (closeQuietly c)"
  unfolding rt_failure_def rt_success_def pushMonitoringTrust_def closeQuietly_def Let_def
  by (auto simp: ctl_def)

lemma report_live_rules [runtime_returns]: "returns (report_live env m)"
  and report_live_keeps [runtime_keeps]: "keeps ctl (report_live env m)"
  by (induction env m rule: report_live.induct) (auto intro!: runtime_returns runtime_keeps)

lemma returns_reportMonitoringHealth [runtime_returns]: "returns (reportMonitoringHealth env)"
  and keeps_reportMonitoringHealth [runtime_keeps]: "keeps ctl (reportMonitoringHealth env)"
  unfolding reportMonitoringHealth_def Let_def
  by (auto simp: ctl_def intro!: runtime_returns runtime_keeps)

lemma returns_recordPoll [runtime_returns]:
  "returns (recordPollSuccess env)" "returns (recordPollFailure env e)"
  and keeps_recordPoll [runtime_keeps]:
  "keeps ctl (recordPollSuccess env)" "keeps ctl (recordPollFailure env e)"
  unfolding recordPollSuccess_def recordPollFailure_def
  by (auto simp: ctl_def intro!: runtime_returns runtime_keeps)

lemma returns_shadow_events [runtime_returns]:
  "returns handleShadowConnected" "returns (handleShadowDisconnected env reason)"
  "returns (handleReportedPatch env d patch)" "returns (anchors_landed ok)"
  and keeps_shadow_events [runtime_keeps]:
  "keeps ctl handleShadowConnected" "keeps ctl (handleShadowDisconnected env reason)"
  "keeps ctl (handleReportedPatch env d patch)" "keeps ctl (anchors_landed ok)"
  unfolding handleShadowConnected_def handleShadowDisconnected_def handleReportedPatch_def anchors_landed_def
  by (auto simp: ctl_def intro!: runtime_returns runtime_keeps)

lemma keeps_admit_devices [runtime_keeps]: "keeps ctl (admit_devices env devices)"
  by (induction devices) (auto simp: ctl_def intro!: runtime_keeps)

lemma keeps_applyDevices [runtime_keeps]: "keeps ctl (applyDevices env devices)"
  unfolding applyDevices_def release_silent_def notify_inventory_def observe_inventory_def
  by (auto simp: ctl_def intro!: runtime_keeps)

lemma returns_check_removal [runtime_returns]: "returns (check_removal env still d)"
  and keeps_check_removal [runtime_keeps]: "keeps ctl (check_removal env still d)"
  unfolding check_removal_def by (auto simp: ctl_def intro!: runtime_returns runtime_keeps)

lemma returns_finish_removals [runtime_returns]: "returns (finish_removals env still ds)"
  and keeps_finish_removals [runtime_keeps]: "keeps ctl (finish_removals env still ds)"
  by (induction ds) (auto intro!: runtime_returns runtime_keeps)


section \<open>What each handler does to the machine\<close>

lemma lc_post_keeps: "keeps ctl m \<Longrightarrow> lc (post m s) = lc s"
  and ctl_post_keeps: "keeps ctl m \<Longrightarrow> ctl (post m s) = ctl s"
  by (auto simp: lc_def ctl_def dest: post_keeps [of ctl _ s])

definition in_step :: "runtime \<Rightarrow> bool" where
  "in_step s = (rt_aborted s = rt_stopped s)"

lemma in_step_ctl: "ctl s = ctl s' \<Longrightarrow> in_step s = in_step s'"
  and finished_ctl: "ctl s = ctl s' \<Longrightarrow> hasFinished s = hasFinished s'"
  and halted_ctl: "ctl s = ctl s' \<Longrightarrow> rt_halted s = rt_halted s'"
  and stopped_ctl: "ctl s = ctl s' \<Longrightarrow> rt_stopped s = rt_stopped s'"
  and lc_ctl: "ctl s = ctl s' \<Longrightarrow> lc s = lc s'"
  by (auto simp: ctl_def in_step_def hasFinished_def lc_def)

lemma finished_lc [simp]: "lc_finished (lc s) = hasFinished s"
  by (simp add: lc_finished_def hasFinished_def lc_def)

definition spawn :: "thread \<Rightarrow> lifecycle \<Rightarrow> lifecycle" where
  "spawn t l = l\<lparr>lc_pending := lc_pending l + {#t#}\<rparr>"

lemma lc_rt_task: "lc (post (rt_task t) s) = spawn (thread_of t) (lc s)"
  and in_step_rt_task: "in_step (post (rt_task t) s) = in_step s"
  by (simp_all add: rt_task_def lc_def spawn_def in_step_def)

text \<open>A wait leaves its thread pending unless the runtime has finished.\<close>

definition lc_wait :: "thread \<Rightarrow> lifecycle \<Rightarrow> lifecycle" where
  "lc_wait t l = (if lc_finished l then l else spawn t l)"

lemma lc_wait_ended: "lc (post (wait_ended k) s) = lc s" "in_step (post (wait_ended k) s) = in_step s"
  by (simp_all add: wait_ended_def lc_def in_step_def)

lemma lc_waitFor:
  "in_step s \<Longrightarrow> lc (post (waitFor k d) s) =
    (if rt_stopped s then lc s else spawn (thread_of (Waiting k d)) (lc s))"
  "in_step (post (waitFor k d) s) = in_step s"
  by (simp_all add: waitFor_def lc_wait_ended lc_rt_task in_step_rt_task)
    (simp add: in_step_def)

lemma lc_waitWhileRunning:
  "in_step s \<Longrightarrow> lc (post (waitWhileRunning k d) s) = lc_wait (thread_of (Waiting k d)) (lc s)"
  "in_step (post (waitWhileRunning k d) s) = in_step s"
  by (simp_all add: waitWhileRunning_def lc_wait_ended lc_waitFor lc_wait_def hasFinished_def)

lemma lc_next_poll:
  "in_step s \<Longrightarrow> lc (post (next_poll env) s) = lc_wait PollThread (lc s)"
  "in_step (post (next_poll env) s) = in_step s"
  by (simp_all add: next_poll_def lc_waitWhileRunning)

lemma lc_finish_refresh:
  "in_step s \<Longrightarrow> lc (post (finish_refresh env e) s) = lc_wait CredentialThread (lc s)"
  "in_step (post (finish_refresh env e) s) = in_step s"
  by (auto simp: finish_refresh_def post_then runtime_returns lc_waitWhileRunning
      lc_post_keeps runtime_keeps in_step_ctl [OF ctl_post_keeps])

text \<open>The retry chain: it waits again, or it is over.\<close>

lemma lc_retry_loop:
  "in_step s \<Longrightarrow> lc (post (retry_loop env) s) \<in> {lc_wait ChainThread (lc s), lc s}"
  "in_step (post (retry_loop env) s) = in_step s"
proof -
  obtain delay retry' where n: "nextDelayMs (re_maxBackoffMs env) (rt_connectRetry s) = (delay, retry')"
    by (cases "nextDelayMs (re_maxBackoffMs env) (rt_connectRetry s)")
  let ?s = "s\<lparr>rt_connectRetry := retry'\<rparr>"
  have c: "ctl ?s = ctl s" by (simp add: ctl_def)
  show "in_step s \<Longrightarrow> lc (post (retry_loop env) s) \<in> {lc_wait ChainThread (lc s), lc s}"
    using lc_ctl [OF c] in_step_ctl [OF c]
    by (simp add: retry_loop_def n lc_waitWhileRunning) (simp add: lc_def)
  show "in_step (post (retry_loop env) s) = in_step s"
    using in_step_ctl [OF c]
    by (simp add: retry_loop_def n lc_waitWhileRunning) (simp add: in_step_def)
qed

lemma lc_retryShadow:
  "in_step s \<Longrightarrow> lc (post (retryShadow env) s) \<in> {lc_wait ChainThread (lc s), lc s}"
  "in_step (post (retryShadow env) s) = in_step s"
proof -
  have c: "ctl (s\<lparr>rt_retryingShadow := True\<rparr>) = ctl s" by (simp add: ctl_def)
  show "in_step s \<Longrightarrow> lc (post (retryShadow env) s) \<in> {lc_wait ChainThread (lc s), lc s}"
    "in_step (post (retryShadow env) s) = in_step s"
    using lc_retry_loop [where s = "s\<lparr>rt_retryingShadow := True\<rparr>" and env = env] lc_ctl [OF c] in_step_ctl [OF c]
    by (simp_all add: retryShadow_def)
qed


definition turns :: "thread \<Rightarrow> lifecycle \<Rightarrow> lifecycle set" where
  "turns t l = (if t = ChainThread then {lc_wait ChainThread l, l}
                else {lc_wait t l, lc_wait t (lc_wait ChainThread l)})"

lemma lc_wait_in_turns: "lc_wait t l \<in> turns t l"
  by (simp add: turns_def)

lemma returns_waits [runtime_returns]:
  "returns (wait_ended k)" "returns (waitFor k d)" "returns (waitWhileRunning k d)"
  "returns (next_poll env)" "returns (finish_refresh env e)" "returns (retry_loop env)"
  "returns (retryShadow env)"
  unfolding wait_ended_def waitFor_def waitWhileRunning_def next_poll_def finish_refresh_def
    retry_loop_def retryShadow_def
  by (auto intro!: runtime_returns)

lemma lc_attempt_answered:
  "in_step s \<Longrightarrow> lc (post (attempt_answered env caller refused) s) \<in> turns (caller_thread caller) (lc s)"
  "in_step (post (attempt_answered env caller refused) s) = in_step s"
proof -
  have r: "in_step (post (retryShadow env) s)" if "in_step s" using that lc_retryShadow(2) by simp
  show "in_step s \<Longrightarrow> lc (post (attempt_answered env caller refused) s) \<in> turns (caller_thread caller) (lc s)"
    using lc_retryShadow(1) [of s env] lc_retry_loop(1) [of s env]
    by (cases caller)
      (auto simp: attempt_answered_def post_then runtime_returns lc_next_poll lc_finish_refresh r turns_def)
  show "in_step (post (attempt_answered env caller refused) s) = in_step s"
    by (cases caller)
      (auto simp: attempt_answered_def post_then runtime_returns lc_next_poll lc_finish_refresh
        lc_retryShadow lc_retry_loop)
qed

lemma lc_start_client:
  "lc (post (start_client env caller ids) s) = spawn (caller_thread caller) (lc s)"
  "in_step (post (start_client env caller ids) s) = in_step s"
  by (auto simp: start_client_def lc_rt_task in_step_rt_task split: option.split)
    (simp_all add: lc_def in_step_def)

lemma returns_start_client [runtime_returns]: "returns (start_client env caller ids)"
  unfolding start_client_def by (auto intro!: runtime_returns)

lemma lc_attemptShadow:
  "in_step s \<Longrightarrow> lc (post (attemptShadow env caller) s) \<in> turns (caller_thread caller) (lc s)"
  "in_step (post (attemptShadow env caller) s) = in_step s"
proof -
  let ?pre = "if rt_shadow s \<noteq> None then handleShadowDisconnected env TransportClosed else act_return ()"
  have k: "keeps ctl ?pre" and r: "returns ?pre" by (auto intro: runtime_keeps runtime_returns)
  have e: "post (attemptShadow env caller) s =
      (if hasFinished s \<or> rt_credentials s = None \<or> st_deviceIds (rt_store s) = []
          \<or> (rt_shadow s \<noteq> None \<and> same_membership (rt_shadowDeviceIds s) (st_deviceIds (rt_store s)))
       then post (attempt_answered env caller False) s
       else post (start_client env caller (st_deviceIds (rt_store s))) (post ?pre s))"
    by (cases "rt_shadow s = None") (simp_all add: attemptShadow_def Let_def post_then runtime_returns)
  show "in_step s \<Longrightarrow> lc (post (attemptShadow env caller) s) \<in> turns (caller_thread caller) (lc s)"
    unfolding e
    using lc_attempt_answered(1) [of s env caller False] lc_wait_in_turns [of "caller_thread caller" "lc s"]
    by (auto simp: lc_start_client lc_post_keeps runtime_keeps lc_wait_def)
  show "in_step (post (attemptShadow env caller) s) = in_step s"
    unfolding e using in_step_ctl [OF ctl_post_keeps [OF k, of s]]
    by (cases "rt_shadow s = None") (auto simp: lc_attempt_answered lc_start_client)
qed

lemma lc_openShadow:
  "in_step s \<Longrightarrow> lc (post (openShadow env caller) s) \<in> turns (caller_thread caller) (lc s)"
  "in_step (post (openShadow env caller) s) = in_step s"
  by (auto simp: openShadow_def lc_attemptShadow lc_attempt_answered)

lemma lc_shadow_started:
  "in_step s \<Longrightarrow> lc (post (shadow_started env c ids caller ok) s) \<in> turns (caller_thread caller) (lc s)"
  "in_step (post (shadow_started env c ids caller ok) s) = in_step s"
proof -
  let ?s = "s\<lparr>rt_shadow := Some c, rt_shadowDeviceIds := ids\<rparr>"
  have c: "ctl ?s = ctl s" by (simp add: ctl_def)
  have f: "ctl (post (rt_failure env SHADOW SHADOW_DEGRADED) s) = ctl s"
    "ctl (post (closeQuietly (Some c)) s) = ctl s"
    by (rule ctl_post_keeps; rule runtime_keeps)+
  note same = lc_ctl [OF c] lc_ctl [OF f(1)] lc_ctl [OF f(2)]
    in_step_ctl [OF c] in_step_ctl [OF f(1)] in_step_ctl [OF f(2)]
  show "in_step s \<Longrightarrow> lc (post (shadow_started env c ids caller ok) s) \<in> turns (caller_thread caller) (lc s)"
    using lc_attempt_answered(1) [of ?s env caller False]
      lc_attempt_answered(1) [of "post (closeQuietly (Some c)) s" env caller False]
      lc_attempt_answered(1) [of "post (rt_failure env SHADOW SHADOW_DEGRADED) s" env caller True] same
    by (simp add: shadow_started_def post_then runtime_returns)
  show "in_step (post (shadow_started env c ids caller ok) s) = in_step s"
    using same by (simp add: shadow_started_def post_then runtime_returns lc_attempt_answered)
qed


lemma lc_credentials_response:
  assumes "in_step s"
  shows "lc (post (credentials_answered env (Inr response)) s) \<in> turns CredentialThread (lc s)"
proof -
  let ?s = "s\<lparr>rt_credentials := Some (toShadowCredentials response)\<rparr>"
  have c: "ctl ?s = ctl s" by (simp add: ctl_def)
  show ?thesis
    using assms lc_ctl [OF c] in_step_ctl [OF c]
      lc_openShadow(1) [of ?s env "FromCredentials (aws_Expiration (acr_credentials response))"]
      lc_wait_in_turns [of CredentialThread "lc s"]
    by (simp add: credentials_answered_def lc_finish_refresh)
qed

text \<open>The terminal act: its answer, and the halt it makes.\<close>

definition halted_lc :: "cloudError \<Rightarrow> lifecycle \<Rightarrow> lifecycle" where
  "halted_lc e l = (if is_terminal e then l\<lparr>lc_halted := True\<rparr> else l)"

lemma returns_halt [runtime_returns]: "returns (haltOnTerminalAuthFailure env e)"
  unfolding haltOnTerminalAuthFailure_def by (auto intro!: runtime_returns)

lemma halt_result: "fst (snd (haltOnTerminalAuthFailure env e s)) = Inr (is_terminal e)"
proof (cases "is_terminal e \<and> \<not> rt_halted s")
  case False
  then show ?thesis by (auto simp: haltOnTerminalAuthFailure_def act_bind_cases act_defs)
next
  case True
  have returned: "fst (snd (act_then m k s)) = Inr True"
    if "returns m" "\<And>s. fst (snd (k s)) = Inr True" for m k and s :: runtime
    using that unfolding act_then_def act_bind_cases returns_def
    by (metis fst_conv old.sum.simps(6) snd_conv)
  have "fst (snd (act_bind (act_get rt_shadow) (\<lambda>shadow.
      act_then (closeQuietly shadow) (act_return True)) s)) = Inr True" for s
    by (simp add: act_run(2) returned runtime_returns act_return_def)
  then show ?thesis
    using True
    by (auto simp: haltOnTerminalAuthFailure_def act_run(2) intro!: returned runtime_returns returns_basic)
qed

lemma post_halt:
  "lc (post (haltOnTerminalAuthFailure env e) s) = halted_lc e (lc s)"
  "in_step (post (haltOnTerminalAuthFailure env e) s) = in_step s"
proof -
  let ?s = "s\<lparr>rt_halted := True\<rparr>"
  let ?close = "act_bind (act_get rt_shadow) (\<lambda>shadow. act_then (closeQuietly shadow) (act_return True))"
  have k: "keeps ctl (act_then (rt_failure env AUTHENTICATION AUTHENTICATION_STOPPED)
      (act_then (pushMonitoringTrust env) ?close))"
    by (intro keeps_then keeps_bind runtime_keeps keeps_basic)
  have l: "lc ?s = (lc s)\<lparr>lc_halted := True\<rparr>" "in_step ?s = in_step s"
    by (simp_all add: lc_def in_step_def)
  have h: "rt_halted s \<Longrightarrow> (lc s)\<lparr>lc_halted := True\<rparr> = lc s" by (simp add: lc_def)
  show "lc (post (haltOnTerminalAuthFailure env e) s) = halted_lc e (lc s)"
    using lc_post_keeps [OF k, of ?s] l h
    by (auto simp: haltOnTerminalAuthFailure_def halted_lc_def)
  show "in_step (post (haltOnTerminalAuthFailure env e) s) = in_step s"
    using in_step_ctl [OF ctl_post_keeps [OF k, of ?s]] l
    by (auto simp: haltOnTerminalAuthFailure_def)
qed

lemma post_after_halt:
  "post (act_bind (haltOnTerminalAuthFailure env e) k) s
    = post (k (is_terminal e)) (post (haltOnTerminalAuthFailure env e) s)"
  by (rule post_bind_result) (rule halt_result)


section \<open>Steps of the machine\<close>

lemma spawn_finished [simp]: "lc_finished (spawn t l) = lc_finished l"
  and spawn_halt [simp]: "lc_finished (l\<lparr>lc_halted := True\<rparr>)"
  by (simp_all add: lc_finished_def spawn_def)

lemma turn_step:
  assumes "l' \<in> turns t l" and "t \<in> {PollThread, CredentialThread, ChainThread}"
  shows "lc_step (spawn t l) l'"
proof -
  have chain: "lc_step (spawn ChainThread l) l"
    using lc_chain_ends [of "spawn ChainThread l"] by (simp add: spawn_def)
  have ended: "lc_step (spawn t l) l" if "t \<noteq> ChainThread" "lc_finished l"
    using lc_ends [of t "spawn t l"] that assms(2) by (auto simp: spawn_def lc_finished_def)
  have more: "lc_step (spawn t l) (spawn t (spawn ChainThread l))" if "t \<noteq> ChainThread" "\<not> lc_finished l"
    using lc_chain [of t "spawn t l"] that assms(2)
    by (auto simp: spawn_def lc_finished_def add_mset_commute)
  show ?thesis
    using assms(1) chain ended more lc_idle
    by (cases "t = ChainThread"; cases "lc_finished l") (auto simp: turns_def lc_wait_def)
qed

lemma ends_step: "lc_finished l \<Longrightarrow> t \<in> {LaunchThread, PollThread, CredentialThread} \<Longrightarrow> lc_step (spawn t l) l"
  using lc_ends [of t "spawn t l"] by (auto simp: spawn_def lc_finished_def)

lemma halts_step:
  "\<not> lc_stopped l \<Longrightarrow> t \<in> {LaunchThread, PollThread, CredentialThread} \<Longrightarrow>
    lc_step (spawn t l) (l\<lparr>lc_halted := True\<rparr>)"
  using lc_halts [of t "spawn t l"] by (auto simp: spawn_def)

lemma launched_step:
  "\<not> lc_finished l \<Longrightarrow> lc_step (spawn LaunchThread l) (spawn CredentialThread (spawn PollThread l))"
  using lc_launched [of "spawn LaunchThread l"] by (auto simp: spawn_def lc_finished_def)

lemma lc_refreshCredentials:
  "lc (post refreshCredentials s) = spawn CredentialThread (lc s)" "in_step (post refreshCredentials s) = in_step s"
  by (simp_all add: refreshCredentials_def lc_rt_task in_step_rt_task)

lemma lc_startBackgroundWork:
  "in_step s \<Longrightarrow> lc (post (startBackgroundWork env) s) = spawn CredentialThread (lc_wait PollThread (lc s))"
  "in_step (post (startBackgroundWork env) s) = in_step s"
  by (simp_all add: startBackgroundWork_def post_then runtime_returns lc_refreshCredentials lc_next_poll)

lemma lc_fetch_inventory:
  "lc (post (fetch_inventory caller) s) = spawn (thread_of (InventoryFetch caller)) (lc s)"
  "in_step (post (fetch_inventory caller) s) = in_step s"
  by (simp_all add: fetch_inventory_def lc_rt_task in_step_rt_task)

lemmas post_reports = lc_post_keeps [OF keeps_recordPoll(2)] lc_post_keeps [OF keeps_recordPoll(1)]
  lc_post_keeps [OF keeps_rt_failure] in_step_ctl [OF ctl_post_keeps [OF keeps_recordPoll(2)]]
  in_step_ctl [OF ctl_post_keeps [OF keeps_recordPoll(1)]]
  in_step_ctl [OF ctl_post_keeps [OF keeps_rt_failure]]

abbreviation inventory_thread :: "inventoryCaller \<Rightarrow> thread" where
  "inventory_thread caller \<equiv> thread_of (InventoryFetch caller)"

lemma inventory_thread_cases: "inventory_thread caller \<in> {LaunchThread, PollThread}"
  by (cases caller) simp_all

lemma launch_failed_step:
  assumes "in_step s"
  shows "lc_step (spawn LaunchThread (lc s)) (lc (post (launchFailure env e) s))"
    and "in_step (post (launchFailure env e) s)"
proof -
  let ?h = "post (haltOnTerminalAuthFailure env e) s"
  have h: "lc ?h = halted_lc e (lc s)" "in_step ?h" using assms by (simp_all add: post_halt)
  have f: "\<not> rt_stopped ?h \<and> \<not> rt_halted ?h" if "\<not> hasFinished s" "\<not> is_terminal e"
    using that h(1) by (simp add: halted_lc_def hasFinished_def lc_def)
  show "lc_step (spawn LaunchThread (lc s)) (lc (post (launchFailure env e) s))"
  proof (cases "hasFinished s")
    case True
    then show ?thesis by (simp add: launchFailure_def ends_step)
  next
    case nf: False
    show ?thesis
    proof (cases "is_terminal e")
      case True
      then show ?thesis
        using nf halts_step [of "lc s" LaunchThread] h
        by (simp add: launchFailure_def post_after_halt halted_lc_def hasFinished_def lc_def)
    next
      case False
      have "hasFinished ?h = False" using f [OF nf False] by (simp add: hasFinished_def)
      then show ?thesis
        using nf False h f [OF nf False] launched_step [of "lc s"]
        by (cases e)
          (simp_all add: launchFailure_def post_after_halt post_then runtime_returns post_reports
            lc_startBackgroundWork lc_waitFor lc_wait_def halted_lc_def lc_idle
            stopped_ctl [OF ctl_post_keeps [OF keeps_rt_failure]]
            finished_ctl [OF ctl_post_keeps [OF keeps_recordPoll(2)]])
    qed
  qed
  show "in_step (post (launchFailure env e) s)"
    using assms h
    by (cases "hasFinished s"; cases "is_terminal e"; cases e)
      (simp_all add: launchFailure_def post_after_halt post_then runtime_returns post_reports
        lc_startBackgroundWork lc_waitFor)
qed

lemma poll_failed_step:
  assumes "in_step s"
  shows "lc_step (spawn PollThread (lc s)) (lc (post (poll_failed env e) s))"
    and "in_step (post (poll_failed env e) s)"
proof -
  let ?m = "act_bind (act_get rt_aborted) (\<lambda>aborted.
       if aborted then act_return ()
       else act_bind (haltOnTerminalAuthFailure env e) (\<lambda>halted.
         act_bind (act_get hasFinished) (\<lambda>finished.
           if halted \<or> finished then act_return () else recordPollFailure env e)))"
  let ?s = "post ?m s"
  have r: "returns ?m" by (auto intro!: runtime_returns)
  have l: "lc ?s = (if rt_stopped s then lc s else halted_lc e (lc s))" and i: "in_step ?s"
    using assms by (auto simp: in_step_def [of s] post_after_halt post_halt post_reports)
  have p: "post (poll_failed env e) s = post (next_poll env) ?s"
    unfolding poll_failed_def by (rule post_then [OF r])
  show "lc_step (spawn PollThread (lc s)) (lc (post (poll_failed env e) s))"
    unfolding p lc_next_poll(1) [OF i] l
    using turn_step [OF lc_wait_in_turns [of PollThread "lc s"]] halts_step [of "lc s" PollThread]
    by (auto simp: halted_lc_def lc_wait_def) (simp_all add: lc_def)
  show "in_step (post (poll_failed env e) s)"
    unfolding p using i by (simp add: lc_next_poll)
qed


lemma inventory_failed_step:
  "in_step s \<Longrightarrow> lc_step (spawn (inventory_thread caller) (lc s)) (lc (post (inventory_failed env caller e) s))"
  "in_step s \<Longrightarrow> in_step (post (inventory_failed env caller e) s)"
  by (cases caller; simp add: inventory_failed_def launch_failed_step poll_failed_step)+

lemma inventory_applied_step:
  assumes "in_step s"
  shows "lc_step (spawn (inventory_thread caller) (lc s)) (lc (post (inventory_applied env caller n) s))"
    and "in_step (post (inventory_applied env caller n) s)"
proof -
  let ?s = "post (recordPollSuccess env) s"
  note c = ctl_post_keeps [OF keeps_recordPoll(1), of env s]
  note same = lc_ctl [OF c] in_step_ctl [OF c] finished_ctl [OF c]
  show "lc_step (spawn (inventory_thread caller) (lc s)) (lc (post (inventory_applied env caller n) s))"
  proof (cases "hasFinished s")
    case True
    then show ?thesis
      using assms
      by (cases caller)
        (simp_all add: inventory_applied_def inventory_abandoned_def ends_step lc_next_poll lc_wait_def)
  next
    case False
    then show ?thesis
      using assms same lc_openShadow(1) [of ?s env FromPoll] launched_step [of "lc s"]
      by (cases caller)
        (simp_all add: inventory_applied_def post_then runtime_returns lc_startBackgroundWork lc_wait_def
          turn_step)
  qed
  show "in_step (post (inventory_applied env caller n) s)"
    using assms same
    by (cases caller)
      (simp_all add: inventory_applied_def inventory_abandoned_def post_then runtime_returns lc_next_poll
        lc_startBackgroundWork lc_openShadow)
qed

text \<open>The answer of an inventory: \<open>applyDevices\<close> runs first, and leaves the life alone even when it throws.\<close>

lemma post_inventory_answered:
  "post (inventory_answered env caller (Inr devices)) s =
    (if hasFinished s then post (inventory_abandoned env caller) s
     else let s' = post (applyDevices env devices) s
          in case fst (snd (applyDevices env devices s)) of
               Inl e \<Rightarrow> post (inventory_failed env caller (js_as_cloud e)) s'
             | Inr confirmed \<Rightarrow>
                 if confirmed = [] then post (inventory_applied env caller (length devices)) s'
                 else post (rt_task (FinalCheck caller (length devices) confirmed)) s')"
proof (cases "hasFinished s")
  case True
  then show ?thesis by (simp add: inventory_answered_def)
next
  case False
  obtain os r s' where a: "applyDevices env devices s = (os, r, s')" by (rule prod_cases3)
  then show ?thesis
    using False
    by (cases r) (simp_all add: inventory_answered_def Let_def post_def act_then_def act_bind_cases
        act_get_def act_emit_def)
qed

lemma inventory_answered_step:
  assumes "in_step s"
  shows "lc_step (spawn (inventory_thread caller) (lc s)) (lc (post (inventory_answered env caller answer) s))"
    and "in_step (post (inventory_answered env caller answer) s)"
proof -
  have a: "lc_step (spawn (inventory_thread caller) (lc s)) (lc (post (inventory_answered env caller (Inr ds)) s))
      \<and> in_step (post (inventory_answered env caller (Inr ds)) s)" for ds
  proof (cases "hasFinished s")
    case True
    then show ?thesis
      using assms
      by (cases caller)
        (simp_all add: post_inventory_answered inventory_abandoned_def ends_step lc_next_poll lc_wait_def)
  next
    case False
    let ?s = "post (applyDevices env ds) s"
    note c = ctl_post_keeps [OF keeps_applyDevices, of env ds s]
    have same: "lc ?s = lc s" "in_step ?s" using lc_ctl [OF c] in_step_ctl [OF c] assms by simp_all
    show ?thesis
      using False same inventory_failed_step [where s = ?s and caller = caller and env = env] inventory_applied_step [where s = ?s and caller = caller and env = env]
        lc_idle [of "spawn (inventory_thread caller) (lc s)"]
      by (cases "fst (snd (applyDevices env ds s))"; cases caller)
        (simp_all add: post_inventory_answered Let_def lc_rt_task in_step_rt_task)
  qed
  show "lc_step (spawn (inventory_thread caller) (lc s)) (lc (post (inventory_answered env caller answer) s))"
    and "in_step (post (inventory_answered env caller answer) s)"
    using a inventory_failed_step [where caller = caller and env = env, OF assms]
    by (cases answer; simp add: inventory_answered_def)+
qed

lemma final_check_step:
  assumes "in_step s"
  shows "lc_step (spawn (inventory_thread caller) (lc s)) (lc (post (final_check_answered env caller n ids answer) s))
    \<and> in_step (post (final_check_answered env caller n ids answer) s)"
proof (cases answer)
  case (Inl e)
  then show ?thesis
    using inventory_failed_step [OF assms] inventory_applied_step [OF assms]
    by (cases "is_terminal e") (simp_all add: final_check_answered_def)
next
  case (Inr fresh)
  let ?s = "post (finish_removals env (map ad_deviceId fresh) ids) s"
  note c = ctl_post_keeps [OF keeps_finish_removals, of env "map ad_deviceId fresh" ids s]
  have i: "in_step ?s" using in_step_ctl [OF c] assms by simp
  have p: "post (final_check_answered env caller n ids answer) s
      = post (inventory_applied env caller n) (if hasFinished s then s else ?s)"
    by (simp add: Inr final_check_answered_def post_then runtime_returns)
  show ?thesis
    unfolding p
    using inventory_applied_step [OF assms] inventory_applied_step [OF i] lc_ctl [OF c]
    by (cases "hasFinished s") simp_all
qed

lemma credentials_step:
  assumes "in_step s"
  shows "lc_step (spawn CredentialThread (lc s)) (lc (post (credentials_answered env answer) s))"
    and "in_step (post (credentials_answered env answer) s)"
proof -
  have e: "lc_step (spawn CredentialThread (lc s)) (lc (post (credentials_answered env (Inl e)) s))
      \<and> in_step (post (credentials_answered env (Inl e)) s)" for e
  proof -
    let ?m = "if rt_aborted s then act_return () else act_bind (haltOnTerminalAuthFailure env e)
      (\<lambda>halted. if halted then act_return () else rt_failure env ROTATION ROTATION_FAILED)"
    have r: "returns ?m" by (auto intro!: runtime_returns)
    have p: "post (credentials_answered env (Inl e)) s =
        post (waitWhileRunning CredentialWait (re_minRotationDelayMs env)) (post ?m s)"
      by (simp add: credentials_answered_def post_then [OF r])
    have l: "lc (post ?m s) = (if rt_stopped s then lc s else halted_lc e (lc s))" and i: "in_step (post ?m s)"
      using assms by (auto simp: in_step_def [of s] post_after_halt post_halt post_reports)
    show ?thesis
      unfolding p lc_waitWhileRunning(1) [OF i] l lc_waitWhileRunning(2)
      using turn_step [OF lc_wait_in_turns [of CredentialThread "lc s"]]
        halts_step [of "lc s" CredentialThread] i
      by (auto simp: halted_lc_def lc_wait_def) (simp_all add: lc_def)
  qed
  have r: "lc_step (spawn CredentialThread (lc s)) (lc (post (credentials_answered env (Inr resp)) s))
      \<and> in_step (post (credentials_answered env (Inr resp)) s)" for resp
  proof
    show "lc_step (spawn CredentialThread (lc s)) (lc (post (credentials_answered env (Inr resp)) s))"
      by (rule turn_step [OF lc_credentials_response [OF assms]]) simp
    have "in_step (s\<lparr>rt_credentials := Some (toShadowCredentials resp)\<rparr>)"
      using assms by (simp add: in_step_def)
    then show "in_step (post (credentials_answered env (Inr resp)) s)"
      by (simp add: credentials_answered_def lc_openShadow lc_finish_refresh)
  qed
  show "lc_step (spawn CredentialThread (lc s)) (lc (post (credentials_answered env answer) s))"
    and "in_step (post (credentials_answered env answer) s)"
    using e r by (cases answer; simp)+
qed


section \<open>The simulation\<close>

lemma lc_take:
  assumes "enabled s ev" and "task_of ev = Some t"
  shows "lc s = spawn (thread_of t) (lc (take_task ev s))" "in_step (take_task ev s) = in_step s"
proof -
  have "t \<in># mset (rt_tasks s)" using assms by (simp add: enabled_def)
  then have "mset (rt_tasks s) = add_mset t (mset (rt_tasks s) - {#t#})" by simp
  then have "image_mset thread_of (mset (rt_tasks s))
      = add_mset (thread_of t) (image_mset thread_of (mset (rt_tasks s) - {#t#}))"
    by (metis image_mset_add_mset)
  then show "lc s = spawn (thread_of t) (lc (take_task ev s))" "in_step (take_task ev s) = in_step s"
    using assms(2) by (simp_all add: take_task_def lc_def spawn_def in_step_def)
qed

lemma take_none: "task_of ev = None \<Longrightarrow> take_task ev s = s"
  by (simp add: take_task_def)

lemma rt_step_post: "rt_step env ev s = (os, s') \<Longrightarrow> s' = post (rt_handle env ev) (take_task ev s)"
  by (auto simp: rt_step_def post_def split: prod.splits)

lemma fired_step:
  assumes "in_step s"
  shows "lc_step (spawn (thread_of (Waiting k d)) (lc s)) (lc (post (wait_fired env k d) s))
    \<and> in_step (post (wait_fired env k d) s)"
proof (cases "rt_aborted s \<or> (\<not> d > MAX_TIMEOUT_DELAY_MS \<and> k \<noteq> RelaunchWait \<and> rt_halted s)")
  case True
  then have f: "lc_finished (lc s)" using assms by (auto simp: hasFinished_def in_step_def)
  have p: "post (wait_fired env k d) s = post (wait_ended k) s"
    using True by (auto simp: wait_fired_def)
  show ?thesis
    unfolding p lc_wait_ended
    using ends_step [OF f] turn_step [of "lc s" ChainThread "lc s"] assms
    by (cases k) (simp_all add: turns_def)
next
  case False
  then have ns: "\<not> rt_stopped s" using assms by (simp add: in_step_def)
  show ?thesis
  proof (cases "d > MAX_TIMEOUT_DELAY_MS")
    case True
    then show ?thesis
      using False ns assms by (simp add: wait_fired_def lc_waitFor lc_idle)
  next
    case nd: False
    have p: "post (wait_fired env k d) s = post (loop_turn env k) s"
      using False nd by (auto simp: wait_fired_def)
    show ?thesis
      unfolding p
      using assms turn_step [OF lc_attemptShadow(1) [OF assms, of env FromRetry]]
      by (cases k)
        (simp_all add: loop_turn_def lc_fetch_inventory lc_refreshCredentials lc_attemptShadow lc_idle)
  qed
qed

lemma restored_step:
  assumes "in_step s"
  shows "lc_step (spawn LaunchThread (lc s)) (lc (post (anchors_restored ids present parsed) s))
    \<and> in_step (post (anchors_restored ids present parsed) s)"
proof -
  obtain logs a where r: "anchor_restore present parsed (mh_anchors (rt_health s)) = (logs, a)"
    by (cases "anchor_restore present parsed (mh_anchors (rt_health s))")
  have c: "ctl (s\<lparr>rt_health := h, rt_reconciliation := m\<rparr>) = ctl s" "ctl (s\<lparr>rt_health := h\<rparr>) = ctl s" for h m
    by (simp_all add: ctl_def)
  show ?thesis
    using assms ends_step [of "lc s" LaunchThread]
    by (simp add: anchors_restored_def r lc_fetch_inventory lc_ctl [OF c(1)] lc_ctl [OF c(2)]
        in_step_ctl [OF c(1)] in_step_ctl [OF c(2)] lc_idle)
qed

lemma start_step:
  "lc_step (lc s) (lc (post (runtime_start ids) s)) \<and> in_step (post (runtime_start ids) s) = in_step s"
proof (cases "rt_started s \<or> rt_stopped s")
  case True
  then show ?thesis by (simp add: runtime_start_def lc_idle)
next
  case False
  have "lc (post (runtime_start ids) s)
      = (lc s)\<lparr>lc_started := True, lc_pending := lc_pending (lc s) + {#LaunchThread#}\<rparr>"
    using False by (simp add: runtime_start_def rt_task_def) (simp add: lc_def)
  then show ?thesis
    using False lc_begins [of "lc s"]
    by (simp add: runtime_start_def in_step_rt_task) (simp add: lc_def in_step_def)
qed

lemma stop_step:
  "in_step s \<Longrightarrow> lc_step (lc s) (lc (post (runtime_stop env) s)) \<and> in_step (post (runtime_stop env) s)"
proof (cases "rt_stopped s")
  case True
  then show "in_step s \<Longrightarrow> ?thesis" by (simp add: runtime_stop_def lc_idle)
next
  case False
  let ?s = "post (pushMonitoringTrust env) (s\<lparr>rt_stopped := True\<rparr>)"
  have s: "?s = s\<lparr>rt_stopped := True\<rparr>" by (simp add: pushMonitoringTrust_def Let_def)
  have "post (runtime_stop env) s = s\<lparr>rt_stopped := True, rt_aborted := True\<rparr>"
    using False
    by (simp add: runtime_stop_def post_then runtime_returns s)
      (simp add: closeQuietly_def split: option.split)
  then show ?thesis
    using lc_stops [of "lc s"] by (simp add: lc_def in_step_def)
qed

lemma step_simulates:
  assumes "in_step s" and "enabled s ev" and "rt_step env ev s = (os, s')"
  shows "lc_step (lc s) (lc s') \<and> in_step s'"
proof -
  note s' = rt_step_post [OF assms(3)]
  show ?thesis
  proof (cases "task_of ev")
    case None
    note t = take_none [OF None]
    have k: "lc_step (lc s) (lc (post m s)) \<and> in_step (post m s)" if "keeps ctl m" for m :: "unit rt_act"
      using lc_post_keeps [OF that, of s] in_step_ctl [OF ctl_post_keeps [OF that, of s]] assms(1)
      by (simp add: lc_idle)
    have c: "lc_step (lc s) (lc (post (command_send env n d cap req) s))
        \<and> in_step (post (command_send env n d cap req) s)" for n d cap req
      using lc_sends [of "lc s"] assms(1)
      by (auto simp: command_send_def lc_rt_task in_step_rt_task spawn_def lc_idle split: option.split)
    show ?thesis
      unfolding s' t
      using None k start_step [of s] stop_step [OF assms(1)] assms(1) c
      by (cases ev) (simp_all add: runtime_keeps)
  next
    case (Some t)
    note l = lc_take [OF assms(2) Some]
    have i: "in_step (take_task ev s)" using l(2) assms(1) by simp
    let ?s = "take_task ev s"
    have client: "lc_step (spawn (caller_thread caller) (lc ?s)) (lc (post (shadow_started env c ids caller ok) ?s))"
      for c ids caller ok
      by (rule turn_step [OF lc_shadow_started(1) [OF i]]) (cases caller; simp)
    have sent: "lc_step (spawn CommandThread (lc ?s)) (lc ?s)"
      using lc_sent [of "spawn CommandThread (lc ?s)"] by (simp add: spawn_def)
    have "lc_step (spawn (thread_of t) (lc ?s)) (lc (post (rt_handle env ev) ?s))
        \<and> in_step (post (rt_handle env ev) ?s)"
    proof (cases ev)
      case (Restored ids present parsed)
      then show ?thesis using Some restored_step [OF i] by auto
    next
      case (Fired k d)
      then show ?thesis using Some fired_step [OF i] by auto
    next
      case (InventoryAnswer caller answer)
      then show ?thesis using Some inventory_answered_step [OF i] by auto
    next
      case (FinalCheckAnswer caller n ids answer)
      then have "thread_of t = inventory_thread caller" using Some by (cases caller) auto
      then show ?thesis using FinalCheckAnswer final_check_step [OF i] by (metis rt_handle.simps(11))
    next
      case (CredentialsAnswer answer)
      then show ?thesis using Some credentials_step [OF i] by auto
    next
      case (ClientStarted c ids caller ok)
      then show ?thesis using Some client i by (auto simp: lc_shadow_started)
    next
      case (CommandAnswer n answer)
      then show ?thesis using Some sent i by (auto simp: command_answered_def)
    qed (use Some in simp_all)
    then show ?thesis unfolding s' l(1) .
  qed
qed

end
