(* ===== verification/RuntimeProperties.thy ===== *)
theory RuntimeProperties
  imports RuntimeLifecycle
begin

text \<open>
  Properties of the account runtime: its threads never die while it runs and start nothing once it has
  finished, long waits end, a terminal refusal is reported once and for good, and what its polls,
  removals and shadow messages report.
\<close>

section \<open>Reachable states\<close>

lemma reachable_inv: "reachable s \<Longrightarrow> in_step s \<and> lc_inv (lc s)"
proof (induction rule: reachable.induct)
  case (reachable_created anchorFile)
  then show ?case
    by (simp add: createAccountRuntime_def in_step_def lc_def lc_inv_def lc_finished_def)
next
  case (reachable_step s ev env os s')
  then show ?case using step_simulates [of s ev env os s'] lc_inv_step by blast
qed

definition pending :: "thread \<Rightarrow> runtime \<Rightarrow> nat" where
  "pending t s = length (filter (\<lambda>task. thread_of task = t) (rt_tasks s))"

lemma pending_count: "pending t s = count (lc_pending (lc s)) t"
proof -
  have "length (filter (\<lambda>task. thread_of task = t) ts) = count (image_mset thread_of (mset ts)) t" for ts
    by (induction ts) auto
  then show ?thesis by (simp add: pending_def lc_def)
qed

section \<open>Nothing starts once the runtime has finished\<close>

fun starts_work :: "runtimeOutput \<Rightarrow> bool" where
  "starts_work FetchInventory = True"
| "starts_work FetchCredentials = True"
| "starts_work (CreateShadow c) = True"
| "starts_work (StartShadow c ids) = True"
| "starts_work _ = False"

definition idle_output :: "runtimeOutput \<Rightarrow> bool" where
  "idle_output x = (\<not> starts_work x)"

definition over :: "runtime \<Rightarrow> bool" where
  "over s = (hasFinished s \<and> in_step s)"

definition calm :: "unit rt_act \<Rightarrow> bool" where
  "calm m = (\<forall>s. over s \<longrightarrow> (\<forall>x \<in> set (fst (m s)). idle_output x) \<and> over (post m s))"

lemma calmD: "calm m \<Longrightarrow> over s \<Longrightarrow> x \<in> set (fst (m s)) \<Longrightarrow> \<not> starts_work x"
  by (auto simp: calm_def idle_output_def)

lemma calm_quiet: "emits idle_output m \<Longrightarrow> keeps ctl m \<Longrightarrow> calm m"
  unfolding calm_def over_def emits_def
  by (simp add: finished_ctl [OF ctl_post_keeps [of m]] in_step_ctl [OF ctl_post_keeps [of m]])

lemma calm_return [simp]: "calm (act_return ())"
  by (simp add: calm_def act_return_def post_def)

lemma calm_then: "calm m \<Longrightarrow> calm k \<Longrightarrow> calm (act_then m k)"
  unfolding calm_def post_def act_then_def act_bind_cases by (auto split: sum.splits)

lemma calm_get: "(\<And>s. over s \<Longrightarrow> calm (k (f s))) \<Longrightarrow> calm (act_bind (act_get f) k)"
  by (auto simp: calm_def post_def act_bind_cases act_get_def)

lemma calm_modify: "(\<And>s. ctl (f s) = ctl s) \<Longrightarrow> calm (act_modify f)"
  by (auto intro!: calm_quiet keeps_modify)

lemma calm_if: "calm m \<Longrightarrow> calm n \<Longrightarrow> calm (if c then m else n)"
  by simp

named_theorems runtime_idle \<open>handlers of the runtime that start nothing\<close>

lemma idle_log: "\<forall>x \<in> set (map RtLog logs). idle_output x" "\<forall>x \<in> set (map RtStore evs). idle_output x"
  by (auto simp: idle_output_def)

lemma idle_reports [runtime_idle]:
  "emits idle_output (rt_failure env kind reason)" "emits idle_output (rt_success kind)"
  "emits idle_output (pushMonitoringTrust env)" "emits idle_output (closeQuietly c)"
  unfolding rt_failure_def rt_success_def pushMonitoringTrust_def closeQuietly_def Let_def
  by (auto simp: idle_output_def)

lemma idle_report_live [runtime_idle]: "emits idle_output (report_live env m)"
  by (induction env m rule: report_live.induct) (auto intro!: runtime_idle)

lemma idle_reportMonitoringHealth [runtime_idle]: "emits idle_output (reportMonitoringHealth env)"
  unfolding reportMonitoringHealth_def Let_def by (auto simp: idle_output_def intro!: runtime_idle)

lemma idle_recordPoll [runtime_idle]:
  "emits idle_output (recordPollSuccess env)" "emits idle_output (recordPollFailure env e)"
  unfolding recordPollSuccess_def recordPollFailure_def by (auto intro!: runtime_idle)

lemma idle_shadow_events [runtime_idle]:
  "emits idle_output handleShadowConnected" "emits idle_output (handleShadowDisconnected env reason)"
  "emits idle_output (handleReportedPatch env d patch)" "emits idle_output (anchors_landed ok)"
  unfolding handleShadowConnected_def handleShadowDisconnected_def handleReportedPatch_def anchors_landed_def
  by (auto simp: idle_output_def intro!: runtime_idle)

lemma idle_finish_removals [runtime_idle]: "emits idle_output (finish_removals env still ds)"
proof (induction ds)
  case (Cons d ds)
  have "emits idle_output (check_removal env still d)"
    unfolding check_removal_def by (auto simp: idle_output_def intro!: runtime_idle)
  then show ?case using Cons by auto
qed auto

lemma calm_wait_ended: "calm (wait_ended k)"
  by (simp add: wait_ended_def calm_def over_def hasFinished_def in_step_def act_modify_def post_def
      act_return_def)

lemma calm_waitWhileRunning: "calm (waitWhileRunning k d)"
proof -
  have "waitWhileRunning k d s = wait_ended k s" if "over s" for s
    using that by (auto simp: waitWhileRunning_def waitFor_def act_run(2) over_def hasFinished_def in_step_def)
  then show ?thesis using calm_wait_ended [of k] by (simp add: calm_def post_def)
qed

lemma calm_loops: "calm (next_poll env)" "calm (finish_refresh env e)" "calm (retry_loop env)"
    "calm (retryShadow env)"
proof -
  show n: "calm (next_poll env)" by (simp add: next_poll_def calm_waitWhileRunning)
  show "calm (finish_refresh env e)"
    unfolding finish_refresh_def
    by (intro calm_get calm_then calm_if calm_return calm_waitWhileRunning calm_quiet runtime_idle
        runtime_keeps)
  show r: "calm (retry_loop env)"
    unfolding retry_loop_def
    by (intro calm_get) (auto intro!: calm_then calm_modify calm_waitWhileRunning simp: ctl_def split: prod.split)
  show "calm (retryShadow env)"
    unfolding retryShadow_def by (intro calm_then calm_modify r) (simp add: ctl_def)
qed

lemma calm_attempts: "calm (attempt_answered env caller refused)" "calm (attemptShadow env caller)"
  "calm (openShadow env caller)" "calm (shadow_started env c ids caller ok)"
proof -
  have a: "calm (attempt_answered env caller refused)" for refused
    unfolding attempt_answered_def by (cases caller) (auto intro!: calm_then calm_loops)
  then show "calm (attempt_answered env caller refused)" .
  have "attemptShadow env caller s = attempt_answered env caller False s" if "over s" for s
    using that by (simp add: attemptShadow_def act_run(2) Let_def over_def)
  then show s: "calm (attemptShadow env caller)"
    using a [of False] by (simp add: calm_def post_def)
  show "calm (openShadow env caller)"
    unfolding openShadow_def by (intro calm_get calm_if a s)
  show "calm (shadow_started env c ids caller ok)"
  proof (cases ok)
    case False
    then show ?thesis
      unfolding shadow_started_def
      by (simp add: calm_then [OF calm_quiet [OF idle_reports(1) keeps_rt_failure] a])
  next
    case True
    have "calm (act_then (closeQuietly (Some c)) (attempt_answered env caller False))"
      by (intro calm_then calm_quiet runtime_idle runtime_keeps a)
    then show ?thesis
      using True unfolding shadow_started_def by (auto intro!: calm_get simp: over_def)
  qed
qed


lemma over_halt: "over s \<Longrightarrow> over (post (haltOnTerminalAuthFailure env e) s)"
proof -
  assume o: "over s"
  have "hasFinished (post (haltOnTerminalAuthFailure env e) s) = lc_finished (halted_lc e (lc s))"
    unfolding finished_lc [symmetric] post_halt(1) ..
  moreover have "lc_finished (halted_lc e (lc s))"
    using o by (simp add: halted_lc_def over_def)
  ultimately show ?thesis using o by (simp add: over_def post_halt)
qed

lemma idle_halt [runtime_idle]: "emits idle_output (haltOnTerminalAuthFailure env e)"
  unfolding haltOnTerminalAuthFailure_def by (auto intro!: runtime_idle)

lemma calm_credentials: "calm (credentials_answered env answer)"
proof (cases answer)
  case (Inl e)
  have b: "calm (act_bind (haltOnTerminalAuthFailure env e)
      (\<lambda>halted. if halted then act_return () else rt_failure env ROTATION ROTATION_FAILED))"
  proof -
    have "emits idle_output (act_bind (haltOnTerminalAuthFailure env e)
      (\<lambda>halted. if halted then act_return () else rt_failure env ROTATION ROTATION_FAILED))"
      by (intro emits_bind emits_branches emits_basic runtime_idle)
    moreover have "over (post (act_bind (haltOnTerminalAuthFailure env e)
      (\<lambda>halted. if halted then act_return () else rt_failure env ROTATION ROTATION_FAILED)) s)" if "over s" for s
      using over_halt [OF that, of env e] finished_ctl [OF ctl_post_keeps [OF keeps_rt_failure]]
        in_step_ctl [OF ctl_post_keeps [OF keeps_rt_failure]]
      by (simp add: post_after_halt over_def)
    ultimately show ?thesis by (auto simp: calm_def emits_def)
  qed
  then show ?thesis
    unfolding credentials_answered_def Inl
    by (simp only: sum.case) (intro calm_get calm_then calm_if calm_return calm_waitWhileRunning b)
next
  case (Inr response)
  have m: "calm (act_modify (\<lambda>s. s\<lparr>rt_credentials := Some (toShadowCredentials response)\<rparr>))"
    by (intro calm_modify) (simp add: ctl_def)
  have e: "calm (act_emit [SecretRegistered a AwsAccessKeyId, SecretRegistered b AwsSecretAccessKey,
      SecretRegistered c AwsSessionToken])" for a b c
    by (intro calm_quiet) (auto simp: idle_output_def)
  show ?thesis
    unfolding credentials_answered_def Inr
    by (simp only: sum.case) (intro calm_then e calm_get calm_if calm_attempts calm_loops m)
qed

lemma calm_applied: "calm (inventory_abandoned env caller)" "calm (inventory_applied env caller n)"
  "calm (inventory_failed env caller e)"
proof -
  show a: "calm (inventory_abandoned env caller)"
    unfolding inventory_abandoned_def by (cases caller) (simp_all add: calm_loops)
  have "inventory_applied env caller n s = inventory_abandoned env caller s" if "over s" for s
    using that by (simp add: inventory_applied_def act_run(2) over_def)
  then show "calm (inventory_applied env caller n)" using a by (simp add: calm_def post_def)
  have l: "calm (launchFailure env e)"
  proof -
    have "launchFailure env e s = act_return () s" if "over s" for s
      using that by (simp add: launchFailure_def act_run(2) over_def)
    then show ?thesis using calm_return by (simp add: calm_def post_def)
  qed
  have p: "calm (poll_failed env e)"
    unfolding poll_failed_def
  proof (rule calm_then [OF _ calm_loops(1)])
    let ?m = "act_bind (act_get rt_aborted) (\<lambda>aborted.
       if aborted then act_return ()
       else act_bind (haltOnTerminalAuthFailure env e) (\<lambda>halted.
         act_bind (act_get hasFinished) (\<lambda>finished.
           if halted \<or> finished then act_return () else recordPollFailure env e)))"
    have "emits idle_output ?m"
      by (intro emits_bind emits_branches emits_basic runtime_idle)
    moreover have "over (post ?m s)" if "over s" for s
    proof -
      show ?thesis
        using that over_halt [OF that, of env e]
        by (auto simp: over_def post_after_halt)
    qed
    ultimately show "calm ?m" by (auto simp: calm_def emits_def)
  qed
  show "calm (inventory_failed env caller e)"
    unfolding inventory_failed_def by (cases caller) (simp_all add: l p)
qed

lemma calm_answers: "calm (inventory_answered env caller answer)"
  "calm (final_check_answered env caller n ids answer)"
proof -
  show "calm (inventory_answered env caller answer)"
  proof (cases answer)
    case (Inl e)
    then show ?thesis by (simp add: inventory_answered_def calm_applied)
  next
    case (Inr devices)
    have "inventory_answered env caller answer s = inventory_abandoned env caller s" if "over s" for s
      using that by (simp add: Inr inventory_answered_def act_run(2) over_def)
    then show ?thesis using calm_applied(1) by (simp add: calm_def post_def)
  qed
  show "calm (final_check_answered env caller n ids answer)"
    unfolding final_check_answered_def
    by (cases answer)
      (auto intro!: calm_get calm_applied calm_then [OF calm_quiet] runtime_idle runtime_keeps)
qed

lemma over_handle:
  assumes "over s" and "k \<noteq> RelaunchWait \<or> rt_stopped s"
    and "\<And>k' d. ev = Fired k' d \<Longrightarrow> k' = k"
  shows "\<forall>x \<in> set (fst (rt_handle env ev s)). idle_output x"
proof (cases ev)
  case (Started ids)
  have "emits idle_output (runtime_start ids)"
    unfolding runtime_start_def rt_task_def by (auto simp: idle_output_def)
  then show ?thesis using Started by (simp add: emits_def)
next
  case Stopped
  have "emits idle_output (runtime_stop env)"
    unfolding runtime_stop_def by (auto intro!: runtime_idle)
  then show ?thesis using Stopped by (simp add: emits_def)
next
  case (Send n d cap req)
  have "emits idle_output (command_send env n d cap req)"
    unfolding command_send_def rt_task_def by (auto simp: idle_output_def)
  then show ?thesis using Send by (simp add: emits_def)
next
  case (Restored ids present parsed)
  then show ?thesis
    using assms(1)
    by (auto simp: anchors_restored_def act_run over_def act_then_def act_bind_cases act_emit_def
        act_modify_def act_get_def act_return_def idle_output_def split: prod.splits)
next
  case (Fired k' d)
  then have "k' = k" using assms(3) by simp
  then have "wait_fired env k' d s = wait_ended k' s \<or> fst (wait_fired env k' d s) = fst (waitFor k' (d - MAX_TIMEOUT_DELAY_MS) s)"
    using assms(1,2) by (auto simp: wait_fired_def act_run(2) over_def in_step_def hasFinished_def)
  moreover have "emits idle_output (wait_ended k')" "emits idle_output (waitFor k' d')" for d'
    unfolding wait_ended_def waitFor_def rt_task_def by (auto simp: idle_output_def)
  ultimately show ?thesis using Fired by (auto simp: emits_def)
next
  case (CommandAnswer n answer)
  then show ?thesis by (simp add: command_answered_def act_emit_def idle_output_def)
qed (use assms(1) calm_answers calm_credentials calm_attempts(4) idle_shadow_events in
    \<open>auto simp: calm_def emits_def\<close>)


section \<open>A runtime to try things on\<close>

definition demo_runtime_env :: runtimeEnv where
  "demo_runtime_env = \<lparr>re_now = 1000, re_monotonic = 10, re_store = demo_env,
     re_registry = createFamilyRegistry, re_pollIntervalMs = 300000, re_rotationLeadMs = ROTATION_LEAD_MS,
     re_minRotationDelayMs = MIN_ROTATION_DELAY_MS, re_maxBackoffMs = MAX_BACKOFF_MS,
     re_reminderMs = FAILURE_REMINDER_MS, re_dateParse = (\<lambda>d. None),
     re_inventoryListener = (\<lambda>ids st. (None, st)),
     re_removalListener = (\<lambda>d st. (None, store_remove d st))\<rparr>"

definition demo_started :: runtime where
  "demo_started = (createAccountRuntime None)\<lparr>rt_started := True, rt_tasks := [RestoringAnchors []]\<rparr>"

definition demo_stopped :: runtime where
  "demo_stopped = demo_started\<lparr>rt_stopped := True, rt_aborted := True\<rparr>"

lemmas run_defs = rt_step_def take_task_def act_then_def act_bind_def act_get_def act_modify_def
  act_emit_def act_return_def act_throw_def Let_def

lemma demo_start: "rt_step demo_runtime_env (Started []) (createAccountRuntime None) = ([RestoreAnchors], demo_started)"
  by (simp add: run_defs runtime_start_def rt_task_def demo_started_def createAccountRuntime_def)

lemma demo_started_reachable: "reachable demo_started"
  by (rule reachable_step [OF reachable_created _ demo_start]) (simp add: enabled_def)

lemma demo_stop: "\<exists>os. rt_step demo_runtime_env Stopped demo_started = (os, demo_stopped)"
  by (simp add: run_defs runtime_stop_def pushMonitoringTrust_def closeQuietly_def demo_started_def
      demo_stopped_def createAccountRuntime_def)

lemma demo_stopped_reachable: "reachable demo_stopped"
proof -
  obtain os where "rt_step demo_runtime_env Stopped demo_started = (os, demo_stopped)" using demo_stop by blast
  then show ?thesis
    by (rule reachable_step [OF demo_started_reachable, rotated]) (simp add: enabled_def)
qed

section \<open>The threads of a runtime\<close>

text \<open>
  C3. The runtime refines the machine of its life: whatever answer arrives, in whatever order, with
  whatever clock and callbacks, the threads left pending and the started, halted and stopped flags
  change only by a step of that machine. A loop ends only when the runtime has stopped or halted, a
  launch is replaced by exactly one poll loop and one credential loop, and nothing else is ever started.
\<close>

theorem runtime_refines_lifecycle:
  assumes "reachable s" and "enabled s ev" and "rt_step env ev s = (os, s')"
  shows "lc_step (lc s) (lc s')"
  using reachable_inv [OF assms(1)] step_simulates [OF _ assms(2,3)] by blast

theorem runtime_refines_lifecycle_witness:
  "lc_step (lc (createAccountRuntime None)) (lc demo_started)"
  by (rule runtime_refines_lifecycle [OF reachable_created _ demo_start]) (simp add: enabled_def)

text \<open>
  C4. A started runtime that has neither stopped nor halted always has its next attempt pending: either
  the launch alone, or exactly one turn of the poll loop and one of the credential loop. No failed
  poll, refused credential response, throwing listener or refused shadow start ends or doubles a loop.
\<close>

theorem next_attempt_is_always_pending:
  assumes "reachable s" and "rt_started s" and "\<not> hasFinished s"
  shows "(pending LaunchThread s, pending PollThread s, pending CredentialThread s) \<in> {(1, 0, 0), (0, 1, 1)}"
proof -
  have "lc_inv (lc s)" using reachable_inv [OF assms(1)] by blast
  moreover have "lc_started (lc s)" using assms(2) by (simp add: lc_def)
  ultimately show ?thesis
    using assms(3) by (auto simp: lc_inv_def Let_def pending_count threads_ok_def)
qed

theorem next_attempt_is_always_pending_witness:
  "(pending LaunchThread demo_started, pending PollThread demo_started, pending CredentialThread demo_started)
    \<in> {(1, 0, 0), (0, 1, 1)}"
  by (rule next_attempt_is_always_pending [OF demo_started_reachable])
    (simp_all add: demo_started_def hasFinished_def createAccountRuntime_def)

text \<open>
  C11. Once the runtime has stopped or halted, no step sends a request of its own or touches the shadow
  connection again except to close it: no inventory, no credential request, no client made or started,
  whichever waits were still pending and whatever they answer.
\<close>

theorem finished_runtime_starts_nothing:
  assumes "reachable s" and "hasFinished s" and "enabled s ev" and "rt_step env ev s = (os, s')"
    and "x \<in> set os"
  shows "\<not> starts_work x"
proof -
  have inv: "in_step s" "lc_inv (lc s)" using reachable_inv [OF assms(1)] by blast+
  let ?s = "take_task ev s"
  have o: "over ?s"
    using inv(1) assms(2) by (auto simp: over_def take_task_def hasFinished_def in_step_def split: option.split)
  have k: "k \<noteq> RelaunchWait \<or> rt_stopped ?s" if "ev = Fired k d" for k d
  proof (rule ccontr)
    assume "\<not> (k \<noteq> RelaunchWait \<or> rt_stopped ?s)"
    then have "k = RelaunchWait" and h: "rt_halted s"
      using assms(2) by (auto simp: hasFinished_def take_task_def split: option.splits)
    then have "LaunchThread \<in># lc_pending (lc s)"
      using lc_take(1) [OF assms(3), of "Waiting k d"] that by (simp add: spawn_def)
    then show False using inv(2) h by (simp add: lc_inv_def Let_def) (simp add: lc_def)
  qed
  have "\<forall>x \<in> set (fst (rt_handle env ev ?s)). idle_output x"
  proof (cases "\<exists>k d. ev = Fired k d")
    case True
    then obtain k d where "ev = Fired k d" by blast
    then show ?thesis using over_handle [OF o k] by blast
  next
    case False
    then show ?thesis using over_handle [OF o, of PollWait] by blast
  qed
  then show ?thesis
    using assms(4,5) by (auto simp: rt_step_def idle_output_def split: prod.splits)
qed

theorem finished_runtime_starts_nothing_witness:
  "\<not> starts_work (RtLog (LDebug ANCHORS_UNUSABLE))"
proof (rule finished_runtime_starts_nothing [OF demo_stopped_reachable])
  show "hasFinished demo_stopped" by (simp add: demo_stopped_def hasFinished_def)
  show "enabled demo_stopped (Restored [] True None)"
    by (simp add: enabled_def demo_stopped_def demo_started_def)
  show "rt_step demo_runtime_env (Restored [] True None) demo_stopped
    = ([RtLog (LDebug ANCHORS_UNUSABLE)], demo_stopped\<lparr>rt_tasks := []\<rparr>)"
    by (simp add: run_defs anchors_restored_def anchor_restore_def readAnchorFile_def isAnchorFile_def
        isRecord_def hasFinished_def demo_stopped_def demo_started_def createAccountRuntime_def
        createMonitoringHealth_def)
  show "RtLog (LDebug ANCHORS_UNUSABLE) \<in> set [RtLog (LDebug ANCHORS_UNUSABLE)]" by simp
qed

end
