(* ===== verification/RuntimeReports.thy ===== *)
theory RuntimeReports
  imports RuntimeProperties
begin

text \<open>
  What the runtime's steps report and leave: the timers of a wait, the one terminal act, the outcome of
  a poll, the removal protocol and the messages of the shadow.
\<close>

section \<open>Waits end\<close>

text \<open>The timers of one wait, as the source's recursion arms them.\<close>

function wait_timers :: "millis \<Rightarrow> millis list" where
  "wait_timers d = (if d > MAX_TIMEOUT_DELAY_MS
     then MAX_TIMEOUT_DELAY_MS # wait_timers (d - MAX_TIMEOUT_DELAY_MS) else [d])"
  by auto
termination
proof (relation "measure (\<lambda>d. nat \<lceil>d / MAX_TIMEOUT_DELAY_MS\<rceil>)")
  fix d :: millis
  assume a: "d > MAX_TIMEOUT_DELAY_MS"
  have m: "MAX_TIMEOUT_DELAY_MS > 0" by (simp add: MAX_TIMEOUT_DELAY_MS_def)
  have "(d - MAX_TIMEOUT_DELAY_MS) / MAX_TIMEOUT_DELAY_MS = d / MAX_TIMEOUT_DELAY_MS - 1"
    using m by (simp add: diff_divide_distrib)
  moreover have "d / MAX_TIMEOUT_DELAY_MS > 1" using a m by simp
  ultimately show "(d - MAX_TIMEOUT_DELAY_MS, d) \<in> measure (\<lambda>d. nat \<lceil>d / MAX_TIMEOUT_DELAY_MS\<rceil>)"
    by simp
qed simp

declare wait_timers.simps [simp del]

text \<open>
  The steps of one wait when nothing else happens: its timers fire one after the other until the
  wait is over.
\<close>

function wait_out :: "runtimeEnv \<Rightarrow> waitKind \<Rightarrow> millis \<Rightarrow> runtime \<Rightarrow> runtimeOutput list" where
  "wait_out env k d s = (case rt_step env (Fired k d) s of (os, s') \<Rightarrow>
     if d > MAX_TIMEOUT_DELAY_MS then os @ wait_out env k (d - MAX_TIMEOUT_DELAY_MS) s' else os)"
  by auto
termination
proof (relation "measure (\<lambda>(env, k, d, s). length (wait_timers d))")
  fix env :: runtimeEnv and k d s os s'
  assume "d > MAX_TIMEOUT_DELAY_MS"
  then show "((env, k, d - MAX_TIMEOUT_DELAY_MS, s'), env, k, d, s)
      \<in> measure (\<lambda>(env, k, d, s). length (wait_timers d))"
    by (subst in_measure) (simp add: wait_timers.simps [of d])
qed simp

declare wait_out.simps [simp del]

text \<open>
  What the turn after each wait asks for. The retry of the shadow connection opens a client for the
  devices the store holds, or starts the one there is again when it watches other devices; with no
  credentials or no device it takes the next backoff, and a connection in place ends the retries.
\<close>

definition next_backoff :: "runtimeEnv \<Rightarrow> runtime \<Rightarrow> millis" where
  "next_backoff env s = of_nat (min (re_maxBackoffMs env) (500 * 2 ^ retry_attempt (rt_connectRetry s)))"

definition retry_request :: "runtimeEnv \<Rightarrow> runtime \<Rightarrow> runtimeOutput list" where
  "retry_request env s =
    (let ids = st_deviceIds (rt_store s) in
     if rt_stopped s then []
     else if rt_credentials s = None \<or> ids = []
     then (if rt_shadow s = None
           then [ArmTimer RetryWait (min MAX_TIMEOUT_DELAY_MS (next_backoff env s))] else [])
     else (case rt_shadow s of
         None \<Rightarrow> [CreateShadow (rt_nextClient s), StartShadow (rt_nextClient s) ids]
       | Some client \<Rightarrow>
           if length (rt_shadowDeviceIds s) = length ids \<and> set ids \<subseteq> set (rt_shadowDeviceIds s) then []
           else [StartShadow client ids]))"

fun turn_request :: "runtimeEnv \<Rightarrow> runtime \<Rightarrow> waitKind \<Rightarrow> runtimeOutput list" where
  "turn_request env s CredentialWait = [FetchCredentials]"
| "turn_request env s RelaunchWait = [FetchInventory]"
| "turn_request env s PollWait = [FetchInventory]"
| "turn_request env s RetryWait = retry_request env s"

lemma turn_request_tasks [simp]: "turn_request env (s\<lparr>rt_tasks := ts\<rparr>) k = turn_request env s k"
  by (cases k) (auto simp: retry_request_def next_backoff_def Let_def split: option.splits)

lemma retry_turn_run:
  assumes "\<not> rt_halted s" and "\<not> rt_aborted s"
  shows "fst (attemptShadow env FromRetry s) = retry_request env s"
proof -
  have loop: "fst (retry_loop env s) = (if rt_shadow s = None \<and> \<not> rt_stopped s
      then [ArmTimer RetryWait (min MAX_TIMEOUT_DELAY_MS (next_backoff env s))] else [])"
    using assms
    by (simp add: retry_loop_def waitWhileRunning_def waitFor_def wait_ended_def rt_task_def run_defs(3-9)
        nextDelayMs_def FIRST_RETRY_DELAY_MS_def next_backoff_def Let_def min_def)
  show ?thesis
    using assms(1)
    by (auto simp: attemptShadow_def attempt_answered_def loop retry_request_def hasFinished_def
        same_membership_def start_client_def handleShadowDisconnected_def rt_task_def run_defs(3-9) Let_def
        split: option.splits)
qed

lemma wait_timers_sum: "sum_list (wait_timers d) = d"
proof (induction d rule: wait_timers.induct)
  case (1 d)
  then show ?case by (cases "d > MAX_TIMEOUT_DELAY_MS") (simp_all add: wait_timers.simps [of d])
qed

lemma wait_timers_short: "\<forall>x \<in> set (wait_timers d). x \<le> MAX_TIMEOUT_DELAY_MS"
proof (induction d rule: wait_timers.induct)
  case (1 d)
  then show ?case by (cases "d > MAX_TIMEOUT_DELAY_MS") (simp_all add: wait_timers.simps [of d])
qed

lemma wait_timers_hd: "wait_timers d
    = (if d > MAX_TIMEOUT_DELAY_MS then MAX_TIMEOUT_DELAY_MS else d) # tl (wait_timers d)"
  by (cases "d > MAX_TIMEOUT_DELAY_MS") (simp_all add: wait_timers.simps [of d])

lemma wait_out_run:
  assumes "\<not> rt_aborted s" and "\<not> rt_halted s"
  shows "wait_out env k d s = map (ArmTimer k) (tl (wait_timers d)) @ turn_request env s k"
  using assms
proof (induction d arbitrary: s rule: wait_timers.induct)
  case (1 d)
  let ?s = "take_task (Fired k d) s"
  have same: "rt_aborted ?s = rt_aborted s" "rt_halted ?s = rt_halted s"
    "turn_request env ?s k = turn_request env s k" by (simp_all add: take_task_def)
  show ?case
  proof (cases "d > MAX_TIMEOUT_DELAY_MS")
    case True
    let ?d = "d - MAX_TIMEOUT_DELAY_MS"
    let ?s' = "?s\<lparr>rt_tasks := rt_tasks ?s @ [Waiting k ?d]\<rparr>"
    have step: "rt_step env (Fired k d) s
        = ([ArmTimer k (if ?d > MAX_TIMEOUT_DELAY_MS then MAX_TIMEOUT_DELAY_MS else ?d)], ?s')"
      using True 1(2,3) same
      by (simp add: rt_step_def wait_fired_def waitFor_def rt_task_def run_defs(3-9))
    have "wait_out env k ?d ?s' = map (ArmTimer k) (tl (wait_timers ?d)) @ turn_request env s k"
      using 1(2,3) same True "1.IH" [of ?s'] by simp
    moreover have "tl (wait_timers d) = wait_timers ?d" using True by (simp add: wait_timers.simps [of d])
    moreover have "map (ArmTimer k) (wait_timers ?d)
        = ArmTimer k (if ?d > MAX_TIMEOUT_DELAY_MS then MAX_TIMEOUT_DELAY_MS else ?d)
          # map (ArmTimer k) (tl (wait_timers ?d))"
      using arg_cong [OF wait_timers_hd [of ?d], of "map (ArmTimer k)"] by (simp only: list.map)
    ultimately show ?thesis
      unfolding wait_out.simps [of env k d s] step using True by simp
  next
    case False
    then have "tl (wait_timers d) = []" by (simp add: wait_timers.simps [of d])
    moreover have "fst (rt_step env (Fired k d) s) = turn_request env ?s k"
      using False 1(2,3) same retry_turn_run [of ?s env]
      by (cases k; cases "attemptShadow env FromRetry ?s")
        (auto simp: rt_step_def wait_fired_def loop_turn_def fetch_inventory_def refreshCredentials_def
          rt_task_def run_defs(3-9))
    ultimately show ?thesis
      using False same unfolding wait_out.simps [of env k d s]
      by (cases "rt_step env (Fired k d) s") simp
  qed
qed

text \<open>
  C20. Every wait ends, after exactly the time it was asked for: a wait of any length and any of the four
  kinds is a chain of timers, each short enough for the platform, that add up to the delay; and a runtime
  that neither stops nor halts meanwhile, and meets no other event, goes from the last timer straight to
  the turn the wait was for. That is the inventory for a relaunch or a poll, the credentials for a rotation,
  and for a retry of the shadow connection a new client, a restart of the one that watches other devices,
  the next capped backoff when there is nothing to connect with, or nothing when the connection is in place.
\<close>

theorem waits_end_on_time:
  assumes "\<not> rt_aborted s" and "\<not> rt_halted s"
  shows "\<exists>ds. wait_out env k d (post (waitFor k d) s) = map (ArmTimer k) (tl ds) @ turn_request env s k
    \<and> fst (waitFor k d s) = [ArmTimer k (hd ds)]
    \<and> sum_list ds = d \<and> (\<forall>x. x \<notin> set ds \<or> x \<le> MAX_TIMEOUT_DELAY_MS)"
proof -
  have p: "post (waitFor k d) s = s\<lparr>rt_tasks := rt_tasks s @ [Waiting k d]\<rparr>"
    using assms(1) by (simp add: waitFor_def rt_task_def)
  have "fst (waitFor k d s) = [ArmTimer k (hd (wait_timers d))]"
    using assms(1) arg_cong [OF wait_timers_hd [of d], of hd]
    by (simp add: waitFor_def rt_task_def run_defs(3-9))
  then show ?thesis
    using wait_out_run [of "post (waitFor k d) s" env k d] assms wait_timers_sum [of d] wait_timers_short [of d]
    by (intro exI [of _ "wait_timers d"]) (auto simp: p)
qed

theorem waits_end_on_time_witness:
  "\<exists>ds. wait_out demo_runtime_env RetryWait 5000000000 (post (waitFor RetryWait 5000000000) demo_started)
      = map (ArmTimer RetryWait) (tl ds) @ turn_request demo_runtime_env demo_started RetryWait
    \<and> fst (waitFor RetryWait 5000000000 demo_started) = [ArmTimer RetryWait (hd ds)]
    \<and> sum_list ds = 5000000000 \<and> (\<forall>x. x \<notin> set ds \<or> x \<le> MAX_TIMEOUT_DELAY_MS)"
  by (rule waits_end_on_time) (simp_all add: demo_started_def createAccountRuntime_def)

section \<open>The terminal act\<close>

fun terminal_answer :: "runtimeEvent \<Rightarrow> bool" where
  "terminal_answer (InventoryAnswer caller (Inl e)) = is_terminal e"
| "terminal_answer (FinalCheckAnswer caller n ids (Inl e)) = is_terminal e"
| "terminal_answer (CredentialsAnswer (Inl e)) = is_terminal e"
| "terminal_answer _ = False"

lemma keeps_halted_ctl: "keeps ctl m \<Longrightarrow> keeps rt_halted m"
  unfolding keeps_def using halted_ctl by blast

lemmas halted_quiet = runtime_keeps [THEN keeps_halted_ctl]

lemma keeps_halted_waits [intro!]:
  "keeps rt_halted (rt_task t)" "keeps rt_halted (waitFor k d)" "keeps rt_halted (waitWhileRunning k d)"
  "keeps rt_halted (next_poll env)" "keeps rt_halted (finish_refresh env e)"
  "keeps rt_halted (retryShadow env)" "keeps rt_halted (retry_loop env)"
  "keeps rt_halted (wait_ended k)"
  unfolding rt_task_def waitFor_def waitWhileRunning_def next_poll_def finish_refresh_def retryShadow_def
    retry_loop_def wait_ended_def
  by (auto intro!: halted_quiet)

lemma keeps_halted_attempts [intro!]:
  "keeps rt_halted (attempt_answered env caller refused)" "keeps rt_halted (attemptShadow env caller)"
  "keeps rt_halted (openShadow env caller)" "keeps rt_halted (shadow_started env c ids caller ok)"
  "keeps rt_halted refreshCredentials" "keeps rt_halted (startBackgroundWork env)"
  "keeps rt_halted (fetch_inventory ic)"
proof -
  show a: "keeps rt_halted (attempt_answered env caller refused)" for refused
    unfolding attempt_answered_def by (cases caller) auto
  show b: "keeps rt_halted (attemptShadow env caller)"
    unfolding attemptShadow_def start_client_def Let_def by (auto intro!: halted_quiet a)
  show "keeps rt_halted (openShadow env caller)"
    unfolding openShadow_def by (auto intro!: a b)
  show "keeps rt_halted (shadow_started env c ids caller ok)"
    unfolding shadow_started_def by (auto intro!: halted_quiet a)
  show r: "keeps rt_halted refreshCredentials" unfolding refreshCredentials_def by auto
  show "keeps rt_halted (startBackgroundWork env)" unfolding startBackgroundWork_def by (auto intro!: r)
  show "keeps rt_halted (fetch_inventory ic)" unfolding fetch_inventory_def by auto
qed

lemma keeps_halted_rest [intro!]:
  "keeps rt_halted (inventory_abandoned env ic)" "keeps rt_halted (inventory_applied env ic n)"
  "keeps rt_halted (command_send env m d cap req)" "keeps rt_halted (runtime_start ids)"
  "keeps rt_halted (runtime_stop env)" "keeps rt_halted (anchors_restored ids present parsed)"
  "keeps rt_halted (wait_fired env k delay)"
proof -
  show a: "keeps rt_halted (inventory_abandoned env ic)" for ic
    unfolding inventory_abandoned_def by (cases ic) auto
  show "keeps rt_halted (inventory_applied env ic n)"
    unfolding inventory_applied_def by (cases ic) (auto intro!: halted_quiet a)
  show "keeps rt_halted (command_send env m d cap req)" unfolding command_send_def by auto
  show "keeps rt_halted (runtime_start ids)" unfolding runtime_start_def by auto
  show "keeps rt_halted (runtime_stop env)" unfolding runtime_stop_def by (auto intro!: halted_quiet)
  show "keeps rt_halted (anchors_restored ids present parsed)" unfolding anchors_restored_def by auto
  have "keeps rt_halted (loop_turn env k)" unfolding loop_turn_def by (cases k) auto
  then show "keeps rt_halted (wait_fired env k delay)" unfolding wait_fired_def by auto
qed

lemma halt_not_terminal: "\<not> is_terminal e \<Longrightarrow> haltOnTerminalAuthFailure env e = act_return False"
  by (simp add: haltOnTerminalAuthFailure_def)

lemma keeps_halted_failures:
  assumes "\<not> is_terminal e"
  shows "keeps rt_halted (inventory_failed env caller e)" "keeps rt_halted (credentials_answered env (Inl e))"
    "keeps rt_halted (credentials_answered env (Inr response))"
proof -
  have l: "keeps rt_halted (launchFailure env e)"
    unfolding launchFailure_def halt_not_terminal [OF assms]
    by (cases e) (auto intro!: halted_quiet)
  have p: "keeps rt_halted (poll_failed env e)"
    unfolding poll_failed_def halt_not_terminal [OF assms] by (auto intro!: halted_quiet)
  show "keeps rt_halted (inventory_failed env caller e)"
    unfolding inventory_failed_def by (cases caller) (simp_all add: l p)
  show "keeps rt_halted (credentials_answered env (Inl e))"
    unfolding credentials_answered_def
    by (auto simp: halt_not_terminal [OF assms] intro!: halted_quiet)
  show "keeps rt_halted (credentials_answered env (Inr response))"
    unfolding credentials_answered_def by auto
qed

lemma halted_inventory:
  "rt_halted (post (inventory_answered env caller (Inr devices)) s) = rt_halted s"
proof -
  have t: "\<not> is_terminal (js_as_cloud e)" for e by (cases e) (simp_all add: js_as_cloud_def)
  have h: "rt_halted (post (applyDevices env devices) s) = rt_halted s"
    by (rule post_keeps [OF keeps_halted_ctl [OF keeps_applyDevices]])
  show ?thesis
    unfolding post_inventory_answered Let_def
    by (auto simp: h post_keeps [OF keeps_halted_rest(1)] post_keeps [OF keeps_halted_rest(2)]
        post_keeps [OF keeps_halted_waits(1)] post_keeps [OF keeps_halted_failures(1) [OF t]]
        split: sum.split)
qed

lemma post_poll_failed:
  "post (poll_failed env e) s = post (next_poll env)
    (if rt_aborted s then s
     else let h = post (haltOnTerminalAuthFailure env e) s
          in if is_terminal e \<or> hasFinished h then h else post (recordPollFailure env e) h)"
proof -
  have r: "returns (act_bind (act_get rt_aborted) (\<lambda>aborted.
       if aborted then act_return ()
       else act_bind (haltOnTerminalAuthFailure env e) (\<lambda>halted.
         act_bind (act_get hasFinished) (\<lambda>finished.
           if halted \<or> finished then act_return () else recordPollFailure env e))))"
    by (auto intro!: runtime_returns)
  show ?thesis
    unfolding poll_failed_def post_then [OF r] by (simp add: post_after_halt Let_def)
qed

text \<open>Each of the three callers halts on a terminal answer, unless the runtime has stopped.\<close>

definition may_halt :: "bool \<Rightarrow> runtime \<Rightarrow> bool" where
  "may_halt terminal s = (rt_halted s \<or> (terminal \<and> \<not> rt_stopped s))"

lemma halted_after_halt: "is_terminal e \<Longrightarrow> rt_halted (post (haltOnTerminalAuthFailure env e) s)"
  using post_halt(1) [of env e s] by (simp add: halted_lc_def lc_def)

lemma halted_failed:
  assumes "in_step s"
  shows "rt_halted (post (inventory_failed env caller e) s) = may_halt (is_terminal e) s"
proof (cases "is_terminal e")
  case False
  then show ?thesis using post_keeps [OF keeps_halted_failures(1)] by (simp add: may_halt_def)
next
  case True
  then show ?thesis
    using halted_after_halt [OF True, of env s] assms
    by (cases caller)
      (auto simp: inventory_failed_def launchFailure_def post_poll_failed post_after_halt hasFinished_def
        in_step_def Let_def post_keeps [OF keeps_halted_waits(4)] may_halt_def)
qed

lemma halted_credentials:
  assumes "in_step s"
  shows "rt_halted (post (credentials_answered env answer) s)
    = may_halt (terminal_answer (CredentialsAnswer answer)) s"
proof (cases "terminal_answer (CredentialsAnswer answer)")
  case False
  then have "keeps rt_halted (credentials_answered env answer)"
    using keeps_halted_failures(2) keeps_halted_failures(3) [of NotAnError] by (cases answer) simp_all
  then show ?thesis using False by (simp add: may_halt_def post_keeps)
next
  case True
  then obtain e where e: "answer = Inl e" "is_terminal e" by (cases answer) auto
  have r: "returns (act_bind (haltOnTerminalAuthFailure env e)
      (\<lambda>halted. if halted then act_return () else rt_failure env ROTATION ROTATION_FAILED))"
    by (auto intro!: runtime_returns)
  show ?thesis
    using halted_after_halt [OF e(2), of env s] assms e
    by (auto simp: credentials_answered_def post_after_halt in_step_def post_then r may_halt_def
        post_keeps [OF keeps_halted_waits(3)])
qed

lemma halted_final_check:
  assumes "in_step s"
  shows "rt_halted (post (final_check_answered env caller n ids answer) s)
    = may_halt (terminal_answer (FinalCheckAnswer caller n ids answer)) s"
proof (cases answer)
  case (Inl e)
  then show ?thesis
    using halted_failed [OF assms] post_keeps [OF keeps_halted_rest(2)]
    by (cases "is_terminal e") (simp_all add: final_check_answered_def may_halt_def)
next
  case (Inr fresh)
  have "keeps rt_halted (final_check_answered env caller n ids answer)"
    unfolding final_check_answered_def Inr
    by (auto intro!: keeps_halted_ctl [OF keeps_finish_removals])
  then show ?thesis using Inr by (simp add: may_halt_def post_keeps)
qed

lemma halted_handle:
  assumes "in_step s"
  shows "rt_halted (post (rt_handle env ev) s) = may_halt (terminal_answer ev) s"
proof -
  have k: "rt_halted (post m s) = may_halt False s" if "keeps rt_halted m" for m :: "unit rt_act"
    using post_keeps [OF that, of s] by (simp add: may_halt_def)
  show ?thesis
  proof (cases ev)
    case (InventoryAnswer caller answer)
    then show ?thesis
      using halted_failed [OF assms] halted_inventory
      by (cases answer) (simp_all add: inventory_answered_def may_halt_def)
  next
    case (FinalCheckAnswer caller n ids answer)
    then show ?thesis using halted_final_check [OF assms] by simp
  next
    case (CredentialsAnswer answer)
    then show ?thesis using halted_credentials [OF assms] by simp
  next
    case (CommandAnswer n answer)
    then show ?thesis by (auto simp: command_answered_def may_halt_def)
  qed (use k keeps_halted_rest keeps_halted_attempts(4) in
      \<open>auto simp: command_answered_def intro!: k halted_quiet\<close>)
qed

text \<open>
  C15. Only the vendor's refusal of the account halts the runtime. In any step of a runtime that is still
  running, it halts exactly when the answer of an inventory, of a final check or of a credential request
  is one of the two terminal errors: no other failure, throwing callback, timer or shadow event does it,
  and none of the three callers lets a terminal answer pass.
\<close>

theorem halts_exactly_on_refusal:
  assumes "reachable s"
  shows "rt_halted (snd (rt_step env ev s)) = (rt_halted s \<or> (terminal_answer ev \<and> \<not> rt_stopped s))"
proof -
  let ?s = "take_task ev s"
  have t: "rt_halted ?s = rt_halted s" "rt_stopped ?s = rt_stopped s" "rt_aborted ?s = rt_aborted s"
    by (simp_all add: take_task_def split: option.split)
  have "in_step ?s" using reachable_inv [OF assms] t by (simp add: in_step_def)
  moreover have "rt_halted (snd (rt_step env ev s)) = rt_halted (post (rt_handle env ev) ?s)"
    by (simp add: rt_step_def post_def split: prod.split)
  ultimately show ?thesis using t by (simp add: halted_handle may_halt_def)
qed

theorem halts_exactly_on_refusal_witness:
  "rt_halted (snd (rt_step demo_runtime_env (InventoryAnswer Launching (Inl (AuthRejectedError [] []))) demo_started))
    = (rt_halted demo_started \<or>
       (terminal_answer (InventoryAnswer Launching (Inl (AuthRejectedError [] []))) \<and> \<not> rt_stopped demo_started))"
  by (rule halts_exactly_on_refusal [OF demo_started_reachable])

definition refused_trust :: "runtime \<Rightarrow> monitoringTrust" where
  "refused_trust s =
    \<lparr>mt_restDegraded = isRestDegraded (mh_consecutiveRestFailures (rt_health s)), mt_shadowSilent = True,
     mt_commandTransportReady = False, mt_credentialsRejected = True\<rparr>"

definition trusts :: "runtimeEnv \<Rightarrow> runtime \<Rightarrow> monitoringTrust \<Rightarrow> (string, monitoringTrust) jsmap" where
  "trusts env s t = map (\<lambda>d. (d, t\<lparr>mt_shadowSilent := d \<in> set (rt_silent env s)\<rparr>)) (st_deviceIds (rt_store s))"

definition halt_outputs :: "runtimeEnv \<Rightarrow> runtime \<Rightarrow> runtimeOutput list" where
  "halt_outputs env s =
    map RtLog (fst (recordFailure (re_reminderMs env) (re_monotonic env) AUTHENTICATION AUTHENTICATION_STOPPED
      (rt_failures s)))
    @ [HealthPushed (refused_trust s) (trusts env s (refused_trust s))]
    @ (case rt_shadow s of None \<Rightarrow> [] | Some c \<Rightarrow> [CloseShadow c])"

definition halt_state :: "runtimeEnv \<Rightarrow> runtime \<Rightarrow> runtime" where
  "halt_state env s = s\<lparr>rt_halted := True, rt_failures :=
     snd (recordFailure (re_reminderMs env) (re_monotonic env) AUTHENTICATION AUTHENTICATION_STOPPED (rt_failures s))\<rparr>"

lemma rt_failure_run:
  "rt_failure env kind reason s =
    (map RtLog (fst (recordFailure (re_reminderMs env) (re_monotonic env) kind reason (rt_failures s))), Inr (),
     s\<lparr>rt_failures := snd (recordFailure (re_reminderMs env) (re_monotonic env) kind reason (rt_failures s))\<rparr>)"
  by (simp add: rt_failure_def run_defs(3-9) split: prod.split)

lemma halt_run:
  assumes "\<not> rt_halted s" and "is_terminal e"
  shows "haltOnTerminalAuthFailure env e s = (halt_outputs env s, Inr True, halt_state env s)"
proof -
  let ?f = "recordFailure (re_reminderMs env) (re_monotonic env) AUTHENTICATION AUTHENTICATION_STOPPED (rt_failures s)"
  let ?s = "s\<lparr>rt_halted := True, rt_failures := snd ?f\<rparr>"
  have trust: "monitoringTrustNow ?s = refused_trust s"
    by (simp add: monitoringTrustNow_def refused_trust_def trustNow_def commandTransportReadyNow_def)
  have push: "pushMonitoringTrust env ?s = ([HealthPushed (refused_trust s) (trusts env s (refused_trust s))], Inr (), ?s)"
    by (simp add: pushMonitoringTrust_def act_run(2) act_emit_def Let_def trust)
      (simp add: monitoringTrustByDevice_def trusts_def rt_silent_def)
  have close: "act_then (closeQuietly (rt_shadow s)) (act_return True) ?s
      = ((case rt_shadow s of None \<Rightarrow> [] | Some c \<Rightarrow> [CloseShadow c]), Inr True, ?s)"
    by (simp add: closeQuietly_def run_defs(3-9) split: option.split)
  show ?thesis
    using assms
    by (simp add: haltOnTerminalAuthFailure_def act_run(2,5) act_then_def act_bind_def rt_failure_run push
        act_modify_def act_get_def close [unfolded act_then_def act_bind_def] halt_outputs_def halt_state_def)
qed

lemma halted_waits_quiet: "rt_halted s \<Longrightarrow> k \<noteq> RetryWait \<Longrightarrow> waitWhileRunning k d s = ([], Inr (), s)"
  by (simp add: waitWhileRunning_def act_run(2) wait_ended_def act_return_def)

text \<open>
  A refused credential is presented in full, in the step that meets it and only there: one line
  under the authentication kind, one push in which the account and every system of it carry the refusal
  and no command route, and the end of the live connection. Nothing else happens in that step, whichever
  loop met the refusal, and the monitoring path is unavailable from then on.
\<close>

theorem refusal_is_reported_once:
  assumes "reachable s" and "\<not> hasFinished s" and "terminal_answer ev"
    and "rt_step env ev s = (os, s')"
  shows "os = halt_outputs env s \<and> rt_halted s' \<and> monitoringPathNow s' = Unavailable"
proof -
  let ?s = "take_task ev s"
  have i: "in_step s" using reachable_inv [OF assms(1)] by blast
  have n: "\<not> rt_halted ?s" "\<not> rt_stopped ?s" "\<not> rt_aborted ?s" "\<not> hasFinished ?s"
    using assms(2) i by (auto simp: hasFinished_def in_step_def take_task_def split: option.split)
  have outs: "halt_outputs env ?s = halt_outputs env s"
    by (simp add: halt_outputs_def refused_trust_def trusts_def rt_silent_def take_task_def split: option.split)
  have h: "rt_halted (halt_state env ?s)" "hasFinished (halt_state env ?s)"
    by (simp_all add: halt_state_def hasFinished_def)
  have e: "rt_handle env ev ?s = (halt_outputs env ?s, Inr (), halt_state env ?s)"
  proof -
    have failed: "inventory_failed env caller e ?s = (halt_outputs env ?s, Inr (), halt_state env ?s)"
      if "is_terminal e" for caller e
      using that n h halt_run [OF n(1) that, of env]
      by (cases caller)
        (simp_all add: inventory_failed_def launchFailure_def poll_failed_def next_poll_def act_then_def
          act_bind_def act_get_def halted_waits_quiet act_return_def)
    show ?thesis
      using assms(3) n h failed halt_run [OF n(1), of _ env]
      by (cases rule: terminal_answer.cases [of ev])
        (simp_all add: inventory_answered_def final_check_answered_def credentials_answered_def act_then_def
          act_bind_def act_get_def halted_waits_quiet act_return_def)
  qed
  then have "os = halt_outputs env ?s" "s' = halt_state env ?s"
    using assms(4) by (simp_all add: rt_step_def)
  then show ?thesis using h outs by (simp add: monitoringPathNow_def)
qed

definition demo_fetching :: runtime where
  "demo_fetching = demo_started\<lparr>rt_tasks := [InventoryFetch Launching]\<rparr>"

lemma demo_fetching_reachable: "reachable demo_fetching"
proof (rule reachable_step [OF demo_started_reachable])
  show "enabled demo_started (Restored [] False None)" by (simp add: enabled_def demo_started_def)
  show "rt_step demo_runtime_env (Restored [] False None) demo_started = ([FetchInventory], demo_fetching)"
    by (simp add: run_defs anchors_restored_def anchor_restore_def readAnchorFile_def hasFinished_def
        fetch_inventory_def rt_task_def demo_fetching_def demo_started_def createAccountRuntime_def
        createMonitoringHealth_def)
qed

theorem refusal_is_reported_once_witness:
  "\<exists>os s'. rt_step demo_runtime_env (InventoryAnswer Launching (Inl (AuthRejectedError [] []))) demo_fetching = (os, s')
    \<and> (os = halt_outputs demo_runtime_env demo_fetching \<and> rt_halted s' \<and> monitoringPathNow s' = Unavailable)"
proof -
  obtain os s' where st: "rt_step demo_runtime_env (InventoryAnswer Launching (Inl (AuthRejectedError [] []))) demo_fetching
    = (os, s')" by (cases "rt_step demo_runtime_env (InventoryAnswer Launching (Inl (AuthRejectedError [] []))) demo_fetching")
  have "os = halt_outputs demo_runtime_env demo_fetching \<and> rt_halted s' \<and> monitoringPathNow s' = Unavailable"
    by (rule refusal_is_reported_once [OF demo_fetching_reachable _ _ st])
      (simp_all add: hasFinished_def demo_fetching_def demo_started_def createAccountRuntime_def)
  then show ?thesis using st by blast
qed

section \<open>What a poll reports\<close>

fun pushed :: "runtimeOutput \<Rightarrow> (monitoringTrust \<times> (string, monitoringTrust) jsmap) option" where
  "pushed (HealthPushed account byDevice) = Some (account, byDevice)"
| "pushed _ = None"

definition pushes :: "runtimeOutput list \<Rightarrow> (monitoringTrust \<times> (string, monitoringTrust) jsmap) list" where
  "pushes os = picked pushed os"

lemma pushes_simps [simp]:
  "pushes [] = []" "pushes (xs @ ys) = pushes xs @ pushes ys" "pushes (map RtLog logs) = []"
  "pushes (map RtStore evs) = []"
  "pushes (x # os) = (case pushed x of None \<Rightarrow> pushes os | Some p \<Rightarrow> p # pushes os)"
proof -
  show "pushes (map RtLog logs) = []" by (induction logs) (simp_all add: pushes_def)
  show "pushes (map RtStore evs) = []" by (induction evs) (simp_all add: pushes_def)
qed (simp_all add: pushes_def split: option.splits)

definition unpushed :: "runtimeOutput \<Rightarrow> bool" where
  "unpushed x = (pushed x = None)"

lemma pushes_quiet: "emits unpushed m \<Longrightarrow> pushes (fst (m s)) = []"
proof -
  have "\<forall>x \<in> set os. pushed x = None \<Longrightarrow> pushes os = []" for os by (induction os) auto
  then show "emits unpushed m \<Longrightarrow> ?thesis" by (simp add: emits_def unpushed_def)
qed

lemma unpushed_logs [simp]: "unpushed (RtLog x)" "unpushed (RtStore ev)" "unpushed (ArmTimer k d)"
  "unpushed (Inventory ids st)" "unpushed (CloseShadow c)" "unpushed (StartShadow c ids)"
  "unpushed (CreateShadow c)" "unpushed FetchInventory" "unpushed FetchCredentials" "unpushed PersistAnchors"
  by (simp_all add: unpushed_def)

lemma unpushed_reports [intro!]:
  "emits unpushed (rt_failure env kind reason)" "emits unpushed (rt_success kind)"
  unfolding rt_failure_def rt_success_def by auto

lemma unpushed_live [intro!]: "emits unpushed (report_live env m)"
  by (induction env m rule: report_live.induct) auto

lemma unpushed_waits [intro!]: "emits unpushed (waitWhileRunning k d)" "emits unpushed (next_poll env)"
  unfolding waitWhileRunning_def waitFor_def wait_ended_def rt_task_def next_poll_def by auto

lemma pushes_then: "returns m \<Longrightarrow> pushes (fst (act_then m k s)) = pushes (fst (m s)) @ pushes (fst (k (post m s)))"
proof -
  assume "returns m"
  then obtain x where "fst (snd (m s)) = Inr x" unfolding returns_def by blast
  then show ?thesis by (simp add: act_then_def act_bind_cases post_def)
qed

lemma keeps_store_reports:
  "keeps rt_store (rt_failure env kind reason)" "keeps rt_store (rt_success kind)"
  "keeps rt_store (reportMonitoringHealth env)"
  "keeps rt_polling (rt_failure env kind reason)" "keeps rt_polling (rt_success kind)"
  "keeps rt_polling (reportMonitoringHealth env)"
proof -
  show f: "keeps rt_store (rt_failure env kind reason)" "keeps rt_store (rt_success kind)"
    "keeps rt_polling (rt_failure env kind reason)" "keeps rt_polling (rt_success kind)"
    unfolding rt_failure_def rt_success_def by auto
  have g: "keeps rt_store (rt_failure env k r)" "keeps rt_store (rt_success k)"
    "keeps rt_polling (rt_failure env k r)" "keeps rt_polling (rt_success k)" for env k r
    unfolding rt_failure_def rt_success_def by auto
  have "keeps rt_store (report_live env m)" "keeps rt_polling (report_live env m)" for m
    by (induction env m rule: report_live.induct) (auto intro!: g)
  then show "keeps rt_store (reportMonitoringHealth env)" "keeps rt_polling (reportMonitoringHealth env)"
    unfolding reportMonitoringHealth_def Let_def by auto
qed

lemma report_pushes:
  "pushes (fst (reportMonitoringHealth env s)) = [(monitoringTrustNow s, monitoringTrustByDevice env s (monitoringTrustNow s))]"
  unfolding reportMonitoringHealth_def Let_def act_run(2,5) id_apply
  by (simp add: pushes_then runtime_returns pushes_quiet unpushed_live act_run(5) act_emit_def)

definition failed_trust :: "runtime \<Rightarrow> monitoringTrust" where
  "failed_trust s =
    \<lparr>mt_restDegraded = (1 \<le> mh_consecutiveRestFailures (rt_health s)), mt_shadowSilent = True,
     mt_commandTransportReady = False, mt_credentialsRejected = False\<rparr>"

definition failed_state :: "runtimeEnv \<Rightarrow> cloudError \<Rightarrow> runtime \<Rightarrow> runtime" where
  "failed_state env e s = s\<lparr>rt_polling := False, rt_failures :=
     snd (recordFailure (re_reminderMs env) (re_monotonic env) POLLING (describeFailure e) (rt_failures s)),
     rt_health := recordRestFailure (rt_health s)\<rparr>"

lemma recordPollFailure_run:
  "pushes (fst (recordPollFailure env e s)) = pushes (fst (reportMonitoringHealth env (failed_state env e s)))"
  "post (recordPollFailure env e) s = post (reportMonitoringHealth env) (failed_state env e s)"
proof -
  have mid: "post (rt_failure env POLLING (describeFailure e)) (s\<lparr>rt_polling := False\<rparr>)
      = s\<lparr>rt_polling := False, rt_failures :=
          snd (recordFailure (re_reminderMs env) (re_monotonic env) POLLING (describeFailure e) (rt_failures s))\<rparr>"
    by (simp add: post_def rt_failure_run)
  show "pushes (fst (recordPollFailure env e s)) = pushes (fst (reportMonitoringHealth env (failed_state env e s)))"
    unfolding recordPollFailure_def act_run(5)
    by (simp add: pushes_then runtime_returns pushes_quiet unpushed_reports mid act_run(5) failed_state_def)
  show "post (recordPollFailure env e) s = post (reportMonitoringHealth env) (failed_state env e s)"
    by (simp add: recordPollFailure_def post_then runtime_returns mid failed_state_def)
qed

lemma failed_state_trust:
  assumes "\<not> hasFinished s"
  shows "monitoringTrustNow (failed_state env e s) = failed_trust s"
    and "monitoringTrustByDevice env (failed_state env e s) t = trusts env s t"
  using assms
  by (simp_all add: monitoringTrustNow_def failed_trust_def trustNow_def isRestDegraded_def failed_state_def
      REST_FAILURE_THRESHOLD_def recordRestFailure_def commandTransportReadyNow_def hasFinished_def
      monitoringTrustByDevice_def trusts_def rt_silent_def silentDevices_def)

lemma poll_failed_live:
  "\<not> rt_aborted s \<Longrightarrow> \<not> hasFinished s \<Longrightarrow> \<not> is_terminal e \<Longrightarrow>
    poll_failed env e s = act_then (recordPollFailure env e) (next_poll env) s"
  by (simp add: poll_failed_def halt_not_terminal act_then_def act_bind_def act_get_def act_return_def)

lemma keeps_next_poll: "keeps rt_store (next_poll env)" "keeps rt_polling (next_poll env)"
  unfolding next_poll_def waitWhileRunning_def waitFor_def wait_ended_def rt_task_def by auto

text \<open>
  A failed poll refuses presses at once and withdraws trust only on the second failure in a row: its
  step pushes one report, for the account and each system of it, whose route is not ready and whose REST
  answer is degraded exactly when the poll before had already failed. The path is unavailable, no
  credential is called rejected, and no stored snapshot changes.
\<close>

theorem failed_poll_reported:
  assumes "reachable s" and "\<not> hasFinished s" and "\<not> is_terminal e"
    and "rt_step env (InventoryAnswer PollLoop (Inl e)) s = (os, s')"
  shows "pushes os = [(failed_trust s, trusts env s (failed_trust s))]
    \<and> monitoringPathNow s' = Unavailable \<and> rt_store s' = rt_store s"
proof -
  let ?s = "take_task (InventoryAnswer PollLoop (Inl e)) s"
  let ?m = "act_then (recordPollFailure env e) (next_poll env)"
  have n: "\<not> rt_aborted ?s" "\<not> hasFinished ?s"
    using assms(1,2) reachable_inv [of s] by (auto simp: hasFinished_def in_step_def take_task_def)
  have r: "os = fst (?m ?s)" "s' = post ?m ?s"
    using assms(4) poll_failed_live [OF n assms(3), of env]
    by (auto simp: rt_step_def inventory_answered_def inventory_failed_def post_def split: prod.splits)
  have same: "failed_trust ?s = failed_trust s" "trusts env ?s t = trusts env s t" "rt_store ?s = rt_store s" for t
    by (simp_all add: failed_trust_def trusts_def rt_silent_def take_task_def)
  have "pushes os = [(failed_trust s, trusts env s (failed_trust s))]"
    unfolding r(1) pushes_then [OF returns_recordPoll(2)]
    by (simp add: recordPollFailure_run(1) report_pushes failed_state_trust [OF n(2)] same pushes_quiet unpushed_waits)
  moreover have "\<not> rt_polling s' \<and> rt_store s' = rt_store s"
    unfolding r(2) post_then [OF returns_recordPoll(2)] recordPollFailure_run(2)
    by (simp add: post_keeps [OF keeps_next_poll(1)] post_keeps [OF keeps_next_poll(2)] failed_state_def same
        post_keeps [OF keeps_store_reports(3)] post_keeps [OF keeps_store_reports(6)])
  ultimately show ?thesis by (simp add: monitoringPathNow_def)
qed

theorem failed_poll_reported_witness:
  "\<exists>os s'. rt_step demo_runtime_env (InventoryAnswer PollLoop (Inl NotAnError)) demo_fetching = (os, s')
    \<and> (pushes os = [(failed_trust demo_fetching, trusts demo_runtime_env demo_fetching (failed_trust demo_fetching))]
      \<and> monitoringPathNow s' = Unavailable \<and> rt_store s' = rt_store demo_fetching)"
proof -
  obtain os s' where st: "rt_step demo_runtime_env (InventoryAnswer PollLoop (Inl NotAnError)) demo_fetching = (os, s')"
    by (cases "rt_step demo_runtime_env (InventoryAnswer PollLoop (Inl NotAnError)) demo_fetching")
  have "pushes os = [(failed_trust demo_fetching, trusts demo_runtime_env demo_fetching (failed_trust demo_fetching))]
      \<and> monitoringPathNow s' = Unavailable \<and> rt_store s' = rt_store demo_fetching"
    by (rule failed_poll_reported [OF demo_fetching_reachable _ _ st])
      (simp_all add: hasFinished_def demo_fetching_def demo_started_def createAccountRuntime_def)
  then show ?thesis using st by blast
qed

end
