(* ===== verification/RuntimeDevices.thy ===== *)
theory RuntimeDevices
  imports RuntimeReports
begin

text \<open>
  What the runtime does to one device: when it asks HomeKit to remove it, what a refused removal
  leaves standing, and what a shadow message may vouch for.
\<close>

section \<open>Only a final check removes\<close>

definition is_check :: "runtimeTask \<Rightarrow> bool" where
  "is_check t = (case t of FinalCheck caller n ids \<Rightarrow> True | _ \<Rightarrow> False)"

lemma is_check_simps [simp]:
  "is_check (FinalCheck caller n ids)" "\<not> is_check (RestoringAnchors known)" "\<not> is_check (Waiting k d)"
  "\<not> is_check (InventoryFetch caller)" "\<not> is_check CredentialsFetch"
  "\<not> is_check (ShadowStarting c ids sc)" "\<not> is_check (CommandFetch n)"
  by (simp_all add: is_check_def)

text \<open>The absence counts, and the final checks that are out.\<close>

definition checks :: "runtime \<Rightarrow> absenceCounts \<times> runtimeTask list" where
  "checks s = (rt_reconciliation s, filter is_check (rt_tasks s))"

lemma checks_updates [simp]:
  "checks (s\<lparr>rt_failures := f\<rparr>) = checks s" "checks (s\<lparr>rt_health := h\<rparr>) = checks s"
  "checks (s\<lparr>rt_store := st\<rparr>) = checks s" "checks (s\<lparr>rt_polling := b\<rparr>) = checks s"
  "checks (s\<lparr>rt_shadowConnected := b\<rparr>) = checks s" "checks (s\<lparr>rt_halted := b\<rparr>) = checks s"
  "checks (s\<lparr>rt_started := b\<rparr>) = checks s" "checks (s\<lparr>rt_stopped := b\<rparr>) = checks s"
  "checks (s\<lparr>rt_aborted := b\<rparr>) = checks s" "checks (s\<lparr>rt_retryingShadow := b\<rparr>) = checks s"
  "checks (s\<lparr>rt_reportedSilentDevices := ds\<rparr>) = checks s" "checks (s\<lparr>rt_connectRetry := r\<rparr>) = checks s"
  "checks (s\<lparr>rt_credentials := c\<rparr>) = checks s" "checks (s\<lparr>rt_nextClient := n\<rparr>) = checks s"
  "checks (s\<lparr>rt_shadow := x, rt_shadowDeviceIds := ids\<rparr>) = checks s"
  by (simp_all add: checks_def)

named_theorems keeps_checks \<open>handlers that leave the absence counts and the final checks alone\<close>

lemma keeps_checks_task [keeps_checks]: "\<not> is_check t \<Longrightarrow> keeps checks (rt_task t)"
  by (simp add: keeps_def rt_task_def act_modify_def checks_def)

lemma keeps_checks_reports [keeps_checks]:
  "keeps checks (rt_failure env kind reason)" "keeps checks (rt_success kind)"
  "keeps checks (pushMonitoringTrust env)" "keeps checks (closeQuietly c)"
  unfolding rt_failure_def rt_success_def pushMonitoringTrust_def closeQuietly_def Let_def by auto

lemma keeps_checks_live [keeps_checks]: "keeps checks (report_live env m)"
  by (induction env m rule: report_live.induct) (auto intro!: keeps_checks)

lemma keeps_checks_health [keeps_checks]: "keeps checks (reportMonitoringHealth env)"
  unfolding reportMonitoringHealth_def Let_def by (auto intro!: keeps_checks)

lemma keeps_checks_polls [keeps_checks]:
  "keeps checks (recordPollSuccess env)" "keeps checks (recordPollFailure env e)"
  "keeps checks (haltOnTerminalAuthFailure env e)"
  unfolding recordPollSuccess_def recordPollFailure_def haltOnTerminalAuthFailure_def
  by (auto intro!: keeps_checks)

lemma keeps_checks_shadow [keeps_checks]:
  "keeps checks handleShadowConnected" "keeps checks (handleShadowDisconnected env reason)"
  "keeps checks (handleReportedPatch env d patch)" "keeps checks (anchors_landed ok)"
  unfolding handleShadowConnected_def handleShadowDisconnected_def handleReportedPatch_def anchors_landed_def
  by (auto intro!: keeps_checks simp: checks_def)

lemma keeps_checks_waits [keeps_checks]:
  "keeps checks (wait_ended k)" "keeps checks (waitFor k d)" "keeps checks (waitWhileRunning k d)"
  "keeps checks (next_poll env)" "keeps checks (finish_refresh env e)" "keeps checks (retry_loop env)"
  "keeps checks (retryShadow env)" "keeps checks (fetch_inventory caller)" "keeps checks refreshCredentials"
  "keeps checks (startBackgroundWork env)"
  unfolding wait_ended_def waitFor_def waitWhileRunning_def next_poll_def finish_refresh_def retryShadow_def
    retry_loop_def fetch_inventory_def refreshCredentials_def startBackgroundWork_def
  by (auto intro!: keeps_checks)

lemma keeps_checks_attempts [keeps_checks]:
  "keeps checks (attempt_answered env caller refused)" "keeps checks (attemptShadow env caller)"
  "keeps checks (openShadow env caller)" "keeps checks (shadow_started env c ids caller ok)"
proof -
  show a: "keeps checks (attempt_answered env caller refused)" for refused
    unfolding attempt_answered_def by (cases caller) (auto intro!: keeps_checks)
  show b: "keeps checks (attemptShadow env caller)"
    unfolding attemptShadow_def start_client_def Let_def by (auto intro!: keeps_checks a)
  show "keeps checks (openShadow env caller)"
    unfolding openShadow_def by (auto intro!: a b)
  show "keeps checks (shadow_started env c ids caller ok)"
    unfolding shadow_started_def by (auto intro!: keeps_checks a)
qed

lemma keeps_checks_inventory [keeps_checks]:
  "keeps checks (inventory_abandoned env ic)" "keeps checks (inventory_applied env ic n)"
  "keeps checks (inventory_failed env ic e)"
proof -
  show a: "keeps checks (inventory_abandoned env ic)" for ic
    unfolding inventory_abandoned_def by (cases ic) (auto intro!: keeps_checks)
  show "keeps checks (inventory_applied env ic n)"
    unfolding inventory_applied_def by (cases ic) (auto intro!: keeps_checks a)
  have "keeps checks (launchFailure env e)"
    unfolding launchFailure_def by (cases e) (auto intro!: keeps_checks)
  moreover have "keeps checks (poll_failed env e)"
    unfolding poll_failed_def by (auto intro!: keeps_checks)
  ultimately show "keeps checks (inventory_failed env ic e)"
    unfolding inventory_failed_def by (cases ic) simp_all
qed

lemma keeps_checks_rest [keeps_checks]:
  "keeps checks (credentials_answered env answer)" "keeps checks (command_send env m d cap req)"
  "keeps checks (command_answered m result)" "keeps checks (runtime_start ids)"
  "keeps checks (runtime_stop env)" "keeps checks (wait_fired env k delay)"
proof -
  show "keeps checks (credentials_answered env answer)"
    unfolding credentials_answered_def by (cases answer) (auto intro!: keeps_checks)
  show "keeps checks (command_send env m d cap req)"
    unfolding command_send_def by (auto intro!: keeps_checks)
  show "keeps checks (command_answered m result)" unfolding command_answered_def by auto
  show "keeps checks (runtime_start ids)" unfolding runtime_start_def by (auto intro!: keeps_checks)
  show "keeps checks (runtime_stop env)" unfolding runtime_stop_def by (auto intro!: keeps_checks)
  have "keeps checks (loop_turn env k)"
    unfolding loop_turn_def by (cases k) (auto intro!: keeps_checks)
  then show "keeps checks (wait_fired env k delay)"
    unfolding wait_fired_def by (auto intro!: keeps_checks)
qed

text \<open>Every identifier a pending final check was made for has missed at least two responses.\<close>

definition missed :: "absenceCounts \<Rightarrow> string \<Rightarrow> bool" where
  "missed counts d = (\<exists>c. (d, c) \<in> set counts \<and> CONFIRMATION_THRESHOLD \<le> c)"

definition checks_ok :: "runtime \<Rightarrow> bool" where
  "checks_ok s = (\<forall>caller n ids d. FinalCheck caller n ids \<in> set (rt_tasks s) \<longrightarrow> d \<in> set ids \<longrightarrow>
     missed (rt_reconciliation s) d)"

lemma checks_ok_checks: "checks s = checks s' \<Longrightarrow> checks_ok s = checks_ok s'"
proof -
  assume c: "checks s = checks s'"
  have f: "filter is_check (rt_tasks s) = filter is_check (rt_tasks s')"
    using c by (simp add: checks_def)
  have "FinalCheck caller n ids \<in> set (rt_tasks s) \<longleftrightarrow> FinalCheck caller n ids \<in> set (rt_tasks s')" for caller n ids
    using arg_cong [OF f, of "\<lambda>ts. FinalCheck caller n ids \<in> set ts"] by simp
  then show ?thesis using c by (simp add: checks_ok_def checks_def)
qed

lemma no_checks_ok: "snd (checks s) = [] \<Longrightarrow> checks_ok s"
  by (auto simp: checks_ok_def checks_def filter_empty_conv)

lemma observed_missed: "d \<in> set (fst (observe ids counts)) \<Longrightarrow> missed (snd (snd (observe ids counts))) d"
  by (auto simp: observe_def Let_def missed_def isConfirmedAbsent_def)

definition observes :: "string list \<Rightarrow> (runtimeOutput, runtime, string list) handler \<Rightarrow> bool" where
  "observes ids m = (\<forall>s confirmed. fst (snd (m s)) = Inr confirmed \<longrightarrow>
     confirmed = fst (observe ids (rt_reconciliation s))
     \<and> checks (post m s) = (snd (snd (observe ids (rt_reconciliation s))), snd (checks s)))"

lemma observes_then: "keeps checks m \<Longrightarrow> observes ids k \<Longrightarrow> observes ids (act_then m k)"
proof -
  assume m: "keeps checks m" and k: "observes ids k"
  have c: "rt_reconciliation (snd (snd (m s))) = rt_reconciliation s"
    "snd (checks (snd (snd (m s)))) = snd (checks s)" for s
    using keepsD [OF m, of s] by (simp_all add: checks_def)
  show ?thesis
    unfolding observes_def
  proof (intro allI impI)
    fix s confirmed
    assume r: "fst (snd (act_then m k s)) = Inr confirmed"
    let ?s = "snd (snd (m s))"
    have a: "fst (snd (k ?s)) = Inr confirmed" "post (act_then m k) s = post k ?s"
      using r by (auto simp: act_then_def act_bind_cases post_def split: sum.splits)
    then show "confirmed = fst (observe ids (rt_reconciliation s))
        \<and> checks (post (act_then m k) s) = (snd (snd (observe ids (rt_reconciliation s))), snd (checks s))"
      using k c [of s] unfolding observes_def by metis
  qed
qed

lemma observes_inventory: "observes ids (observe_inventory ids)"
  by (auto simp: observes_def observe_inventory_def run_defs(3-9) post_def checks_def split: prod.splits)

lemma applyDevices_observes: "observes (map ad_deviceId devices) (applyDevices env devices)"
proof -
  have a: "keeps checks (admit_devices env ds)" for ds
    by (induction ds) (auto simp: checks_def)
  have r: "keeps checks (release_silent env)" "keeps checks (notify_inventory env ids)" for ids
    unfolding release_silent_def notify_inventory_def by auto
  show ?thesis
    unfolding applyDevices_def by (intro observes_then a r observes_inventory)
qed

lemma no_other_check:
  assumes "lc_inv (lc s)" and "t \<in> set (rt_tasks s)" and "thread_of t \<in> {LaunchThread, PollThread}"
  shows "filter is_check (remove1 t (rt_tasks s)) = []"
proof -
  let ?P = "\<lambda>t. thread_of t \<in> {LaunchThread, PollThread}"
  have both: "length (filter ?P ts) = length (filter (\<lambda>t. thread_of t = LaunchThread) ts)
      + length (filter (\<lambda>t. thread_of t = PollThread) ts)" for ts
    by (induction ts) auto
  have "length (filter ?P (rt_tasks s)) \<le> 1"
    using assms(1) unfolding both pending_def [symmetric] pending_count by (simp add: lc_inv_def Let_def)
  moreover have "length (filter ?P (remove1 t (rt_tasks s))) = length (filter ?P (rt_tasks s)) - 1"
    using assms(2,3) unfolding filter_remove1 length_remove1 by simp
  ultimately have none: "filter ?P (remove1 t (rt_tasks s)) = []" by (metis diff_is_0_eq length_0_conv)
  have "is_check u \<Longrightarrow> ?P u" for u
    by (auto simp: is_check_def split: runtimeTask.splits inventoryCaller.splits)
  then show ?thesis using none unfolding filter_empty_conv by blast
qed

lemma checks_take:
  assumes "task_of ev = Some t" and "\<not> is_check t"
  shows "checks (take_task ev s) = checks s"
proof -
  have "filter is_check (remove1 t ts) = filter is_check ts" for ts
    using assms(2) by (induction ts) auto
  then show ?thesis using assms(1) by (simp add: take_task_def checks_def)
qed

lemma checks_ok_step:
  assumes "lc_inv (lc s)" and "checks_ok s" and "enabled s ev" and "rt_step env ev s = (os, s')"
  shows "checks_ok s'"
proof -
  let ?s = "take_task ev s"
  note s' = rt_step_post [OF assms(4)]
  have alone: "snd (checks ?s) = []" if "task_of ev = Some t" "thread_of t \<in> {LaunchThread, PollThread}" for t
    using no_other_check [OF assms(1) _ that(2)] that assms(3) by (simp add: enabled_def take_task_def checks_def)
  have kept: "checks_ok s'" if "keeps checks (rt_handle env ev)" and "\<And>t. task_of ev = Some t \<Longrightarrow> \<not> is_check t"
  proof -
    have "checks s' = checks ?s" unfolding s' by (rule post_keeps [OF that(1)])
    also have "\<dots> = checks s" using that(2) checks_take by (cases "task_of ev") (simp_all add: take_none)
    finally show ?thesis using checks_ok_checks assms(2) by blast
  qed
  have silent: "checks_ok s'" if "snd (checks s') = []" using no_checks_ok that .
  show ?thesis
  proof (cases ev)
    case (Restored ids present parsed)
    have "keeps (snd \<circ> checks) (rt_handle env ev)"
      unfolding Restored rt_handle.simps anchors_restored_def
      by (auto simp: checks_def fetch_inventory_def rt_task_def)
    then have "snd (checks s') = snd (checks ?s)" unfolding s' using post_keeps by fastforce
    then show ?thesis using alone Restored by (intro silent) simp
  next
    case (InventoryAnswer caller answer)
    have none: "snd (checks ?s) = []"
      by (rule alone [of "InventoryFetch caller"]) (use InventoryAnswer in \<open>cases caller; simp\<close>)+
    show ?thesis
    proof (cases answer)
      case (Inl e)
      then have "checks s' = checks ?s"
        unfolding s' InventoryAnswer rt_handle.simps inventory_answered_def
        by (simp add: post_keeps [OF keeps_checks_inventory(3)])
      then show ?thesis using none by (intro silent) simp
    next
      case (Inr devices)
      show ?thesis
      proof (cases "hasFinished ?s")
        case True
        then have "checks s' = checks ?s"
          unfolding s' InventoryAnswer rt_handle.simps Inr post_inventory_answered
          using InventoryAnswer by (simp add: post_keeps [OF keeps_checks_inventory(1)])
        then show ?thesis using none by (intro silent) simp
      next
        case False
        let ?a = "post (applyDevices env devices) ?s"
        have quiet: "snd (checks ?a) = []"
          using ctl_post_keeps [OF keeps_applyDevices, of env devices ?s] none
          by (simp add: ctl_def checks_def)
        show ?thesis
        proof (cases "fst (snd (applyDevices env devices ?s))")
          case (Inl e)
          then have "checks s' = checks ?a"
            using False
            unfolding s' InventoryAnswer rt_handle.simps \<open>answer = Inr devices\<close> post_inventory_answered
            by (simp add: Let_def post_keeps [OF keeps_checks_inventory(3)])
          then show ?thesis using quiet by (intro silent) simp
        next
          case (Inr confirmed)
          let ?n = "length devices"
          show ?thesis
          proof (cases "confirmed = []")
            case True
            then have "checks s' = checks ?a"
              using False Inr
              unfolding s' InventoryAnswer rt_handle.simps \<open>answer = Inr devices\<close> post_inventory_answered
              by (simp add: Let_def post_keeps [OF keeps_checks_inventory(2)])
            then show ?thesis using quiet by (intro silent) simp
          next
            case more: False
            have e: "s' = ?a\<lparr>rt_tasks := rt_tasks ?a @ [FinalCheck caller ?n confirmed]\<rparr>"
              using False Inr more
              unfolding s' InventoryAnswer rt_handle.simps \<open>answer = Inr devices\<close> post_inventory_answered
              by (simp add: Let_def rt_task_def)
            have "confirmed = fst (observe (map ad_deviceId devices) (rt_reconciliation ?s))"
              "rt_reconciliation ?a = snd (snd (observe (map ad_deviceId devices) (rt_reconciliation ?s)))"
              using applyDevices_observes [of devices env] Inr by (auto simp: observes_def checks_def)
            moreover have "FinalCheck c n ids \<notin> set (rt_tasks ?a)" for c n ids
              using quiet by (auto simp: checks_def filter_empty_conv)
            ultimately show ?thesis
              using observed_missed by (auto simp: checks_ok_def e)
          qed
        qed
      qed
    qed
  next
    case (FinalCheckAnswer caller n ids answer)
    have none: "snd (checks ?s) = []"
      by (rule alone [of "FinalCheck caller n ids"]) (use FinalCheckAnswer in \<open>cases caller; simp\<close>)+
    have f: "keeps (snd \<circ> checks) (finish_removals env still ids)" for still
      using ctl_post_keeps [OF keeps_finish_removals] by (auto simp: keeps_def post_def ctl_def checks_def)
    have i: "keeps (snd \<circ> checks) m" if "keeps checks m" for m :: "unit rt_act"
      using that by (simp add: keeps_def)
    have "keeps (snd \<circ> checks) (final_check_answered env caller n ids answer)"
      unfolding final_check_answered_def
      by (cases answer; simp only: sum.case)
        (intro keeps_bind keeps_basic keeps_branches keeps_then f i keeps_checks_inventory)+
    then have "snd (checks s') = snd (checks ?s)"
      unfolding s' FinalCheckAnswer rt_handle.simps using post_keeps by fastforce
    then show ?thesis using none by (intro silent) simp
  qed (rule kept; use keeps_checks in auto)+
qed

lemma reachable_checks: "reachable s \<Longrightarrow> checks_ok s"
proof (induction rule: reachable.induct)
  case (reachable_created anchorFile)
  then show ?case by (simp add: checks_ok_def createAccountRuntime_def)
next
  case (reachable_step s ev env os s')
  then show ?case using checks_ok_step reachable_inv by blast
qed

section \<open>The inventories behind an absence count\<close>

text \<open>
  The device identifiers of each inventory taken in so far, the latest first: a count of \<open>c\<close> says
  that the last \<open>c\<close> of them, one after the other, omitted the device.
\<close>

definition omitted :: "string list list \<Rightarrow> absenceCounts \<Rightarrow> bool" where
  "omitted hist counts = (jm_wf counts \<and> (\<forall>d c. jm_get counts d = Some c \<longrightarrow>
     c \<le> length hist \<and> (\<forall>ids \<in> set (take c hist). d \<notin> set ids)))"

fun inventory_of :: "runtimeEvent \<Rightarrow> runtime \<Rightarrow> string list list" where
  "inventory_of (InventoryAnswer caller (Inr devices)) s =
    (if hasFinished s then [] else [map ad_deviceId devices])"
| "inventory_of ev s = []"

lemma omitted_present: "omitted hist counts \<Longrightarrow> omitted hist (recon_present d counts)"
  using recon_step_wf [of counts "Present d"] by (simp add: omitted_def) (simp add: recon_present_def)

lemma omitted_presents: "omitted hist counts \<Longrightarrow> omitted hist (fold recon_present ds counts)"
  by (induction ds arbitrary: counts) (simp_all add: omitted_present)

lemma omitted_forget: "omitted hist counts \<Longrightarrow> omitted hist (recon_forget d counts)"
  using recon_step_wf [of counts "Forget d"] by (simp add: omitted_def) (simp add: recon_forget_def)

lemma omitted_observe: "omitted hist counts \<Longrightarrow> omitted (ids # hist) (snd (snd (observe ids counts)))"
  using recon_step_wf [of counts "Observe ids"]
  by (auto simp: omitted_def) (auto simp: observe_def Let_def observe_counts_get split: if_splits)

text \<open>Nothing but an inventory, a restart and a final check touches the counts.\<close>

lemma keeps_counts: "keeps checks m \<Longrightarrow> rt_reconciliation (post m s) = rt_reconciliation s"
  using post_keeps [of checks m s] by (simp add: checks_def)

lemma applied_counts:
  assumes "\<And>ids st. fst (re_inventoryListener env ids st) = None"
  shows "\<exists>confirmed. fst (snd (applyDevices env devices s)) = Inr confirmed
    \<and> rt_reconciliation (post (applyDevices env devices) s)
      = snd (snd (observe (map ad_deviceId devices) (rt_reconciliation s)))"
proof -
  have admit: "returns (admit_devices env ds)" for ds
    by (induction ds) (auto intro!: returns_bind simp: split_beta)
  have "returns (notify_inventory env ids)" for ids
    unfolding notify_inventory_def using assms by (auto simp: split_beta)
  moreover have "returns (observe_inventory ids)" for ids
    unfolding observe_inventory_def by (auto simp: split_beta)
  moreover have "returns (release_silent env)" unfolding release_silent_def by auto
  ultimately have "returns (applyDevices env devices)"
    unfolding applyDevices_def by (intro returns_then admit)
  then obtain confirmed where r: "fst (snd (applyDevices env devices s)) = Inr confirmed"
    unfolding returns_def by blast
  then show ?thesis
    using applyDevices_observes [of devices env] unfolding observes_def by (auto simp: checks_def)
qed

lemma removals_counts:
  "omitted hist (rt_reconciliation s) \<Longrightarrow> omitted hist (rt_reconciliation (post (finish_removals env still ds) s))"
proof (induction ds arbitrary: s)
  case (Cons d ds)
  have "omitted hist (rt_reconciliation (post (check_removal env still d) s))"
    using Cons.prems
    by (auto simp: check_removal_def keeps_counts [OF keeps_checks_reports(1)] omitted_present omitted_forget
        split: prod.split option.split)
  then show ?case using Cons.IH by (simp add: post_then runtime_returns)
qed simp

lemma omitted_step:
  assumes "omitted hist (rt_reconciliation s)" and "rt_step env ev s = (os, s')"
    and "\<And>ids st. fst (re_inventoryListener env ids st) = None"
  shows "omitted (inventory_of ev s @ hist) (rt_reconciliation s')"
proof -
  let ?s = "take_task ev s"
  note s' = rt_step_post [OF assms(2)]
  have t: "rt_reconciliation ?s = rt_reconciliation s" "hasFinished ?s = hasFinished s"
    by (simp_all add: take_task_def hasFinished_def split: option.split)
  have kept: ?thesis if "keeps checks (rt_handle env ev)" "inventory_of ev s = []"
    using assms(1) that by (simp add: s' keeps_counts t)
  show ?thesis
  proof (cases ev)
    case (Restored ids present parsed)
    have "rt_reconciliation (post (anchors_restored ids present parsed) ?s)
        \<in> {rt_reconciliation s, fold recon_present ids (rt_reconciliation s)}"
      using t by (auto simp: anchors_restored_def post_then runtime_returns
          keeps_counts [OF keeps_checks_waits(8)] split: prod.split)
    then show ?thesis using assms(1) omitted_presents by (auto simp: s' Restored)
  next
    case (InventoryAnswer caller answer)
    show ?thesis
    proof (cases answer)
      case (Inl e)
      then show ?thesis
        using InventoryAnswer
        by (intro kept) (simp_all add: inventory_answered_def keeps_checks)
    next
      case (Inr devices)
      show ?thesis
      proof (cases "hasFinished s")
        case True
        then show ?thesis
          using assms(1) InventoryAnswer Inr t
          by (simp add: s' post_inventory_answered keeps_counts keeps_checks)
      next
        case False
        obtain confirmed where "fst (snd (applyDevices env devices ?s)) = Inr confirmed"
          "rt_reconciliation (post (applyDevices env devices) ?s)
            = snd (snd (observe (map ad_deviceId devices) (rt_reconciliation s)))"
          using applied_counts [OF assms(3)] t(1) by metis
        then have "rt_reconciliation s' = snd (snd (observe (map ad_deviceId devices) (rt_reconciliation s)))"
          using False InventoryAnswer Inr t
          by (simp add: s' post_inventory_answered Let_def keeps_counts keeps_checks) (simp add: rt_task_def)
        then show ?thesis
          using omitted_observe [OF assms(1)] False InventoryAnswer Inr by simp
      qed
    qed
  next
    case (FinalCheckAnswer caller n ids answer)
    have "omitted hist (rt_reconciliation (post (final_check_answered env caller n ids answer) ?s))"
      using assms(1) removals_counts [of hist ?s] t
      by (cases answer) (auto simp: final_check_answered_def post_then runtime_returns keeps_counts keeps_checks)
    then show ?thesis by (simp add: s' FinalCheckAnswer)
  qed (rule kept; use keeps_checks in auto)+
qed

lemma missed_twice:
  assumes "omitted hist counts" and "missed counts d"
  obtains ids1 ids2 earlier where "hist = ids1 # ids2 # earlier" "d \<notin> set ids1" "d \<notin> set ids2"
proof -
  obtain c where c: "c \<le> length hist" "\<forall>ids \<in> set (take c hist). d \<notin> set ids" "2 \<le> c"
    using assms jm_get_entry [of counts] unfolding omitted_def missed_def CONFIRMATION_THRESHOLD_def by blast
  then obtain ids1 ids2 earlier where h: "hist = ids1 # ids2 # earlier"
    by (cases hist; cases "tl hist") auto
  then have "ids1 \<in> set (take c hist)" "ids2 \<in> set (take c hist)" using c(3) by (cases c; cases "c - 1"; simp)+
  then show ?thesis using that h c(2) by blast
qed

section \<open>No other event removes\<close>

definition keeps_device :: "runtimeOutput \<Rightarrow> bool" where
  "keeps_device x = (\<forall>d. x \<noteq> DeviceRemoved d)"

lemma keeps_device_simps [simp]:
  "keeps_device (RtLog l)" "keeps_device (RtStore ev)" "keeps_device RestoreAnchors" "keeps_device PersistAnchors"
  "keeps_device (ArmTimer k delay)" "keeps_device FetchInventory" "keeps_device FetchCredentials"
  "keeps_device (SecretRegistered a r)" "keeps_device (CreateShadow c)" "keeps_device (StartShadow c ids)"
  "keeps_device (CloseShadow c)" "keeps_device (Inventory ids st)" "keeps_device (HealthPushed t m)"
  "keeps_device (SendCommand n d command)" "keeps_device (CommandAnswered n outcome)"
  by (simp_all add: keeps_device_def)

named_theorems no_removal \<open>handlers that ask for no removal\<close>

lemma no_removal_reports [no_removal]:
  "emits keeps_device (rt_task t)"
  "emits keeps_device (rt_failure env kind reason)" "emits keeps_device (rt_success kind)"
  "emits keeps_device (pushMonitoringTrust env)" "emits keeps_device (closeQuietly c)"
  unfolding rt_task_def rt_failure_def rt_success_def pushMonitoringTrust_def closeQuietly_def Let_def by auto

lemma no_removal_live [no_removal]: "emits keeps_device (report_live env m)"
  by (induction env m rule: report_live.induct) (auto intro!: no_removal)

lemma no_removal_health [no_removal]: "emits keeps_device (reportMonitoringHealth env)"
  unfolding reportMonitoringHealth_def Let_def by (auto intro!: no_removal)

lemma no_removal_polls [no_removal]:
  "emits keeps_device (recordPollSuccess env)" "emits keeps_device (recordPollFailure env e)"
  "emits keeps_device (haltOnTerminalAuthFailure env e)"
  "emits keeps_device handleShadowConnected" "emits keeps_device (handleShadowDisconnected env reason)"
  "emits keeps_device (handleReportedPatch env d patch)" "emits keeps_device (anchors_landed ok)"
  unfolding recordPollSuccess_def recordPollFailure_def haltOnTerminalAuthFailure_def
    handleShadowConnected_def handleShadowDisconnected_def handleReportedPatch_def anchors_landed_def
  by (auto intro!: no_removal)

lemma no_removal_waits [no_removal]:
  "emits keeps_device (wait_ended k)" "emits keeps_device (waitFor k d)" "emits keeps_device (waitWhileRunning k d)"
  "emits keeps_device (next_poll env)" "emits keeps_device (finish_refresh env e)"
  "emits keeps_device (retry_loop env)" "emits keeps_device (retryShadow env)"
  "emits keeps_device (fetch_inventory caller)" "emits keeps_device refreshCredentials"
  "emits keeps_device (startBackgroundWork env)"
  unfolding wait_ended_def waitFor_def waitWhileRunning_def next_poll_def finish_refresh_def retryShadow_def
    retry_loop_def fetch_inventory_def refreshCredentials_def startBackgroundWork_def
  by (auto intro!: no_removal)

lemma no_removal_attempts [no_removal]:
  "emits keeps_device (attempt_answered env caller refused)" "emits keeps_device (attemptShadow env caller)"
  "emits keeps_device (openShadow env caller)" "emits keeps_device (shadow_started env c ids caller ok)"
proof -
  show a: "emits keeps_device (attempt_answered env caller refused)" for refused
    unfolding attempt_answered_def by (cases caller) (auto intro!: no_removal)
  show b: "emits keeps_device (attemptShadow env caller)"
    unfolding attemptShadow_def start_client_def Let_def by (auto intro!: no_removal a)
  show "emits keeps_device (openShadow env caller)" unfolding openShadow_def by (auto intro!: a b)
  show "emits keeps_device (shadow_started env c ids caller ok)"
    unfolding shadow_started_def by (auto intro!: no_removal a)
qed

lemma no_removal_inventory [no_removal]:
  "emits keeps_device (inventory_abandoned env ic)" "emits keeps_device (inventory_applied env ic n)"
  "emits keeps_device (inventory_failed env ic e)" "emits keeps_device (applyDevices env devices)"
proof -
  show a: "emits keeps_device (inventory_abandoned env ic)" for ic
    unfolding inventory_abandoned_def by (cases ic) (auto intro!: no_removal)
  show "emits keeps_device (inventory_applied env ic n)"
    unfolding inventory_applied_def by (cases ic) (auto intro!: no_removal a)
  have "emits keeps_device (launchFailure env e)"
    unfolding launchFailure_def by (cases e) (auto intro!: no_removal)
  moreover have "emits keeps_device (poll_failed env e)"
    unfolding poll_failed_def by (auto intro!: no_removal)
  ultimately show "emits keeps_device (inventory_failed env ic e)"
    unfolding inventory_failed_def by (cases ic) simp_all
  have "emits keeps_device (admit_devices env ds)" for ds by (induction ds) auto
  then show "emits keeps_device (applyDevices env devices)"
    unfolding applyDevices_def release_silent_def notify_inventory_def observe_inventory_def by auto
qed

lemma no_removal_answers [no_removal]:
  "emits keeps_device (inventory_answered env ic answer)" "emits keeps_device (credentials_answered env cr)"
  "emits keeps_device (command_send env m d cap req)" "emits keeps_device (command_answered m result)"
  "emits keeps_device (runtime_start ids)" "emits keeps_device (runtime_stop env)"
  "emits keeps_device (anchors_restored ids present parsed)" "emits keeps_device (wait_fired env k delay)"
proof -
  have after: "emits keeps_device (\<lambda>s. case applyDevices env devices s of
      (os, Inl e, s') \<Rightarrow> act_then (act_emit os) (f e) s' | (os, Inr c, s') \<Rightarrow> act_then (act_emit os) (g c) s')"
    if "\<And>e. emits keeps_device (f e)" "\<And>c. emits keeps_device (g c)" for devices and f g :: "_ \<Rightarrow> unit rt_act"
    unfolding emits_def
  proof (intro allI ballI)
    fix s x
    obtain os r s' where a: "applyDevices env devices s = (os, r, s')" by (rule prod_cases3)
    assume "x \<in> set (fst (case applyDevices env devices s of
      (os, Inl e, s') \<Rightarrow> act_then (act_emit os) (f e) s' | (os, Inr c, s') \<Rightarrow> act_then (act_emit os) (g c) s'))"
    then have "x \<in> set os \<or> (\<exists>e. x \<in> set (fst (f e s'))) \<or> (\<exists>c. x \<in> set (fst (g c s')))"
      using a by (auto simp: act_then_def act_bind_cases act_emit_def split: sum.splits)
    moreover have "x \<in> set os \<Longrightarrow> keeps_device x"
      using emitsD [OF no_removal_inventory(4), of x env devices s] a by simp
    ultimately show "keeps_device x" using emitsD that by metis
  qed
  show "emits keeps_device (inventory_answered env ic answer)"
    unfolding inventory_answered_def
    by (cases answer; simp only: sum.case)
      (intro emits_bind emits_basic emits_branches after no_removal emits_then emits_emit; simp)+
  show "emits keeps_device (credentials_answered env cr)"
    unfolding credentials_answered_def by (cases cr) (auto intro!: no_removal)
  show "emits keeps_device (command_send env m d cap req)"
    unfolding command_send_def by (auto intro!: no_removal)
  show "emits keeps_device (command_answered m result)" unfolding command_answered_def by auto
  show "emits keeps_device (runtime_start ids)" unfolding runtime_start_def by (auto intro!: no_removal)
  show "emits keeps_device (runtime_stop env)" unfolding runtime_stop_def by (auto intro!: no_removal)
  show "emits keeps_device (anchors_restored ids present parsed)"
    unfolding anchors_restored_def by (auto intro!: no_removal)
  have "emits keeps_device (loop_turn env k)" unfolding loop_turn_def by (cases k) (auto intro!: no_removal)
  then show "emits keeps_device (wait_fired env k delay)"
    unfolding wait_fired_def by (auto intro!: no_removal)
qed

lemma removal_outputs:
  "DeviceRemoved d \<in> set (fst (finish_removals env still ds s)) \<Longrightarrow> d \<in> set ds \<and> d \<notin> set still"
proof (induction ds arbitrary: s)
  case Nil
  then show ?case by (simp add: act_return_def)
next
  case (Cons d' ds)
  have split: "fst (finish_removals env still (d' # ds) s)
      = fst (check_removal env still d' s) @ fst (finish_removals env still ds (post (check_removal env still d') s))"
    using returns_check_removal [of env still d'] unfolding returns_def
    by (auto simp: act_then_def act_bind_cases post_def split: sum.splits)
  have one: "DeviceRemoved d \<notin> set (fst (check_removal env still d' s))" if "d \<noteq> d' \<or> d' \<in> set still"
  proof -
    have "emits (\<lambda>x. x \<noteq> DeviceRemoved d) (rt_failure env k r)" for k r
      unfolding rt_failure_def by auto
    then have "emits (\<lambda>x. x \<noteq> DeviceRemoved d) (check_removal env still d')"
      unfolding check_removal_def using that by auto
    then show ?thesis by (auto simp: emits_def)
  qed
  then show ?case using Cons split by auto
qed

text \<open>
  HomeKit is asked to remove a device only by the answer of a final check: the check was made for
  that device, its fresh inventory does not name it, and the absence count of the device has already
  reached the confirmation threshold. No other event removes anything, whatever its answer.
\<close>

theorem removal_needs_the_final_check:
  assumes "reachable s" and "enabled s ev" and "rt_step env ev s = (os, s')"
    and "DeviceRemoved d \<in> set os"
  shows "\<exists>caller n ids fresh. ev = FinalCheckAnswer caller n ids (Inr fresh) \<and> d \<in> set ids
    \<and> d \<notin> ad_deviceId ` set fresh \<and> missed (rt_reconciliation s) d"
proof -
  have o: "DeviceRemoved d \<in> set (fst (rt_handle env ev (take_task ev s)))"
    using assms(3,4) by (auto simp: rt_step_def split: prod.splits)
  have no: "\<not> emits keeps_device (rt_handle env ev)"
  proof
    assume e: "emits keeps_device (rt_handle env ev)"
    show False using emitsD [OF e o] by (simp add: keeps_device_def)
  qed
  show ?thesis
  proof (cases ev)
    case (FinalCheckAnswer caller n ids answer)
    show ?thesis
    proof (cases answer)
      case (Inl e)
      then have "emits keeps_device (rt_handle env ev)"
        unfolding FinalCheckAnswer rt_handle.simps final_check_answered_def by (auto intro!: no_removal)
      then show ?thesis using no by blast
    next
      case (Inr fresh)
      have a: "DeviceRemoved d \<notin> set (fst (inventory_applied env caller n t))" for t
        using emitsD [OF no_removal_inventory(2)] by (fastforce simp: keeps_device_def)
      have "DeviceRemoved d \<in> set (fst (finish_removals env (map ad_deviceId fresh) ids (take_task ev s)))"
      proof -
        have "rt_handle env ev t = (if hasFinished t then inventory_applied env caller n t
            else act_then (finish_removals env (map ad_deviceId fresh) ids) (inventory_applied env caller n) t)" for t
          by (simp add: FinalCheckAnswer Inr final_check_answered_def act_run(2))
        then show ?thesis
          using o a by (auto simp: act_then_def act_bind_cases split: sum.splits if_splits)
      qed
      from removal_outputs [OF this] have "d \<in> set ids" "d \<notin> ad_deviceId ` set fresh" by auto
      moreover have "missed (rt_reconciliation s) d"
        using reachable_checks [OF assms(1)] assms(2) FinalCheckAnswer \<open>d \<in> set ids\<close>
        by (auto simp: checks_ok_def enabled_def)
      ultimately show ?thesis using FinalCheckAnswer Inr by blast
    qed
  qed (use no no_removal in auto)
qed

section \<open>A run that removes a device\<close>

definition demo_at :: "bool \<Rightarrow> arrivalAnchors \<Rightarrow> absenceCounts \<Rightarrow> runtimeTask list \<Rightarrow> runtime" where
  "demo_at polling a counts tasks = (createAccountRuntime None)\<lparr>rt_started := True, rt_polling := polling,
     rt_health := createMonitoringHealth a, rt_reconciliation := counts, rt_tasks := tasks\<rparr>"

text \<open>The inventory callback is given an empty inventory and leaves the store alone; the polls are 300 s apart.\<close>

definition quiet_inventory :: "runtimeEnv \<Rightarrow> bool" where
  "quiet_inventory env = (re_inventoryListener env [] = Pair None \<and> re_pollIntervalMs env = 300000)"

lemma demo_env_quiet: "quiet_inventory demo_runtime_env"
  by (simp add: quiet_inventory_def demo_runtime_env_def fun_eq_iff)

lemma demo_observe:
  "observe [] [(''d'', 0)] = ([], [], [(''d'', 1)])"
  "fst (observe [] [(''d'', 1)]) = [''d'']" "snd (snd (observe [] [(''d'', 1)])) = [(''d'', 2)]"
  by (simp_all add: observe_def observe_counts_def nextAbsenceCount_def isConfirmedAbsent_def
      CONFIRMATION_THRESHOLD_def js_set_def)

lemma demo_apply:
  "quiet_inventory env \<Longrightarrow> \<exists>os. applyDevices env [] (demo_at p a [(''d'', 0)] ts) = (os, Inr [], demo_at p a [(''d'', 1)] ts)"
  "quiet_inventory env \<Longrightarrow> \<exists>os. applyDevices env [] (demo_at p a [(''d'', 1)] ts) = (os, Inr [''d''], demo_at p a [(''d'', 2)] ts)"
  using demo_observe(2,3)
  by (auto simp: applyDevices_def release_silent_def notify_inventory_def observe_inventory_def run_defs(3-9)
      demo_at_def createAccountRuntime_def rt_silent_def silentDevices_def createMonitoringHealth_def
      quiet_inventory_def demo_observe(1) split: prod.splits)

lemma demo_recorded:
  "\<exists>os a'. recordPollSuccess env (demo_at p a counts ts) = (os, Inr (), demo_at True a' counts ts)"
  by (simp add: recordPollSuccess_def reportMonitoringHealth_def rt_success_def recordSuccess_def jm_has_def
      jm_get_def run_defs(3-9) monitoringTrustByDevice_def demo_at_def createAccountRuntime_def
      createMonitoringHealth_def recordRestSuccess_def createDeviceStateStore_def st_deviceIds_def jm_keys_def)

lemma demo_not_finished [simp]: "hasFinished (demo_at p a c ts) = False" "rt_aborted (demo_at p a c ts) = False"
  "rt_halted (demo_at p a c ts) = False" "rt_tasks (demo_at p a c ts) = ts"
  "(demo_at p a c ts)\<lparr>rt_tasks := ts'\<rparr> = demo_at p a c ts'"
  "rt_store (demo_at p a c ts) = createDeviceStateStore" "rt_credentials (demo_at p a c ts) = None"
  "rt_retryingShadow (demo_at p a c ts) = False"
  by (simp_all add: demo_at_def hasFinished_def createAccountRuntime_def)

lemma demo_launch:
  assumes "quiet_inventory env"
  shows "\<exists>os a'. rt_step env (InventoryAnswer Launching (Inr [])) (demo_at p a [(''d'', 0)] [InventoryFetch Launching])
    = (os, demo_at True a' [(''d'', 1)] [Waiting PollWait 300000, CredentialsFetch])"
proof -
  obtain os where o: "applyDevices env [] (demo_at p a [(''d'', 0)] []) = (os, Inr [], demo_at p a [(''d'', 1)] [])"
    using demo_apply(1) [OF assms] by blast
  obtain os' a' where r: "recordPollSuccess env (demo_at p a [(''d'', 1)] [])
      = (os', Inr (), demo_at True a' [(''d'', 1)] [])" using demo_recorded by blast
  show ?thesis
    by (simp add: rt_step_def take_task_def inventory_answered_def inventory_applied_def act_then_def act_bind_def
        act_get_def act_emit_def o r startBackgroundWork_def next_poll_def waitWhileRunning_def waitFor_def
        rt_task_def act_modify_def refreshCredentials_def quiet_inventory_def [THEN iffD1, OF assms]
        MAX_TIMEOUT_DELAY_MS_def del: One_nat_def) blast
qed

lemma demo_turn:
  "rt_step env (Fired PollWait 300000) (demo_at p a c [Waiting PollWait 300000, CredentialsFetch])
    = ([FetchInventory], demo_at p a c [CredentialsFetch, InventoryFetch PollLoop])"
  by (simp add: rt_step_def take_task_def wait_fired_def act_bind_def act_get_def act_then_def act_emit_def
      act_modify_def rt_task_def loop_turn_def fetch_inventory_def MAX_TIMEOUT_DELAY_MS_def)

lemma demo_poll:
  assumes "quiet_inventory env"
  shows "\<exists>os. rt_step env (InventoryAnswer PollLoop (Inr [])) (demo_at p a [(''d'', 1)] [CredentialsFetch, InventoryFetch PollLoop])
    = (os, demo_at p a [(''d'', 2)] [CredentialsFetch, FinalCheck PollLoop 0 [''d'']])"
proof -
  obtain os where o: "applyDevices env [] (demo_at p a [(''d'', 1)] [CredentialsFetch])
      = (os, Inr [''d''], demo_at p a [(''d'', 2)] [CredentialsFetch])" using demo_apply(2) [OF assms] by blast
  show ?thesis
    by (simp add: rt_step_def take_task_def inventory_answered_def act_then_def act_bind_def act_get_def act_emit_def
        o rt_task_def act_modify_def del: One_nat_def)
qed

lemma demo_removal:
  "DeviceRemoved ''d'' \<in> set (fst (rt_step env (FinalCheckAnswer PollLoop 0 [''d''] (Inr []))
     (demo_at p a [(''d'', 2)] [CredentialsFetch, FinalCheck PollLoop 0 [''d'']])))"
  by (simp add: rt_step_def take_task_def final_check_answered_def act_then_def act_bind_def act_get_def act_emit_def
      act_modify_def act_return_def check_removal_def rt_failure_def Let_def split: prod.split sum.split)

lemma demo_enabled:
  "enabled (demo_at p a c [InventoryFetch Launching]) (InventoryAnswer Launching answer)"
  "enabled (demo_at p a c [CredentialsFetch, InventoryFetch PollLoop]) (InventoryAnswer PollLoop answer)"
  by (simp_all add: enabled_def)

lemma demo_opening:
  "rt_step env (Started [''d'']) (createAccountRuntime None)
    = ([RestoreAnchors], demo_at False (createArrivalAnchors None) [] [RestoringAnchors [''d'']])"
  "rt_step env (Restored [''d''] False None) (demo_at False (createArrivalAnchors None) [] [RestoringAnchors [''d'']])
    = ([FetchInventory], demo_at False (createArrivalAnchors None) [(''d'', 0)] [InventoryFetch Launching])"
  by (simp_all add: run_defs runtime_start_def anchors_restored_def anchor_restore_def readAnchorFile_def hasFinished_def
      fetch_inventory_def rt_task_def demo_at_def createAccountRuntime_def createMonitoringHealth_def
      recon_present_def jm_set_def)

lemma demo_check_reachable:
  "\<exists>a. reachable (demo_at True a [(''d'', 2)] [CredentialsFetch, FinalCheck PollLoop 0 [''d'']])"
proof -
  let ?known = "demo_at False (createArrivalAnchors None) [] [RestoringAnchors [''d'']]"
  have "reachable ?known"
    by (rule reachable_step [OF reachable_created _ demo_opening(1)]) (simp add: enabled_def)
  then have "reachable (demo_at False (createArrivalAnchors None) [(''d'', 0)] [InventoryFetch Launching])"
    by (rule reachable_step [OF _ _ demo_opening(2)]) (simp add: enabled_def)
  moreover obtain os a where "rt_step demo_runtime_env (InventoryAnswer Launching (Inr []))
      (demo_at False (createArrivalAnchors None) [(''d'', 0)] [InventoryFetch Launching])
    = (os, demo_at True a [(''d'', 1)] [Waiting PollWait 300000, CredentialsFetch])" using demo_launch [OF demo_env_quiet] by blast
  ultimately have "reachable (demo_at True a [(''d'', 1)] [Waiting PollWait 300000, CredentialsFetch])"
    using reachable_step [OF _ demo_enabled(1)] by blast
  then have "reachable (demo_at True a [(''d'', 1)] [CredentialsFetch, InventoryFetch PollLoop])"
    by (rule reachable_step [OF _ _ demo_turn]) (simp add: enabled_def)
  moreover obtain os' where "rt_step demo_runtime_env (InventoryAnswer PollLoop (Inr []))
      (demo_at True a [(''d'', 1)] [CredentialsFetch, InventoryFetch PollLoop])
    = (os', demo_at True a [(''d'', 2)] [CredentialsFetch, FinalCheck PollLoop 0 [''d'']])" using demo_poll [OF demo_env_quiet] by blast
  ultimately have "reachable (demo_at True a [(''d'', 2)] [CredentialsFetch, FinalCheck PollLoop 0 [''d'']])"
    using reachable_step [OF _ demo_enabled(2)] by blast
  then show ?thesis by blast
qed

theorem removal_needs_the_final_check_witness:
  "\<exists>s os s'. rt_step demo_runtime_env (FinalCheckAnswer PollLoop 0 [''d''] (Inr [])) s = (os, s')
    \<and> DeviceRemoved ''d'' \<in> set os
    \<and> (\<exists>caller n ids fresh. FinalCheckAnswer PollLoop 0 [''d''] (Inr [])
          = FinalCheckAnswer caller n ids (Inr fresh) \<and> ''d'' \<in> set ids
        \<and> ''d'' \<notin> ad_deviceId ` set fresh \<and> missed (rt_reconciliation s) ''d'')"
proof -
  let ?ev = "FinalCheckAnswer PollLoop 0 [''d''] (Inr [])"
  obtain a where r: "reachable (demo_at True a [(''d'', 2)] [CredentialsFetch, FinalCheck PollLoop 0 [''d'']])"
    (is "reachable ?s") using demo_check_reachable by blast
  obtain os s' where st: "rt_step demo_runtime_env ?ev ?s = (os, s')"
    by (cases "rt_step demo_runtime_env ?ev ?s")
  have d: "DeviceRemoved ''d'' \<in> set os" using demo_removal [of demo_runtime_env True a] st by simp
  have e: "enabled ?s ?ev" by (simp add: enabled_def)
  from removal_needs_the_final_check [OF r e st d] show ?thesis using st d by blast
qed

section \<open>A removal HomeKit refuses, and one it takes\<close>

text \<open>What can still distrust a device: its arrival stamp, its anchor and its absence count.\<close>

definition watch :: "string \<Rightarrow> runtime \<Rightarrow> (millis option \<times> millis option) \<times> nat option" where
  "watch d s = (stamps (rt_health s) d, jm_get (rt_reconciliation s) d)"

definition marks :: "runtime \<Rightarrow> (string, millis) jsmap \<times> (string, millis) jsmap \<times> absenceCounts" where
  "marks s = (mh_lastShadowArrival (rt_health s), aa_anchors (mh_anchors (rt_health s)), rt_reconciliation s)"

lemma watch_marks: "marks s = marks s' \<Longrightarrow> watch d s = watch d s'"
  by (simp add: marks_def watch_def stamps_def anchor_get_def)

lemma marks_updates [simp]:
  "marks (s\<lparr>rt_failures := f\<rparr>) = marks s" "marks (s\<lparr>rt_tasks := ts\<rparr>) = marks s"
  "marks (s\<lparr>rt_store := st\<rparr>) = marks s" "marks (s\<lparr>rt_polling := b\<rparr>) = marks s"
  "marks (s\<lparr>rt_shadowConnected := b\<rparr>) = marks s" "marks (s\<lparr>rt_retryingShadow := b\<rparr>) = marks s"
  "marks (s\<lparr>rt_reportedSilentDevices := ds\<rparr>) = marks s" "marks (s\<lparr>rt_connectRetry := r\<rparr>) = marks s"
  "marks (s\<lparr>rt_nextClient := n\<rparr>) = marks s"
  "marks (s\<lparr>rt_health := (rt_health s)\<lparr>mh_anchors := anchor_persist (mh_anchors (rt_health s))\<rparr>\<rparr>) = marks s"
  "marks (s\<lparr>rt_health := recordRestSuccess (rt_health s)\<rparr>) = marks s"
  by (simp_all add: marks_def anchor_persist_def recordRestSuccess_def)

named_theorems keeps_marks \<open>handlers that leave the stamps, the anchors and the counts alone\<close>

lemma keeps_marks_reports [keeps_marks]:
  "keeps marks (rt_task t)" "keeps marks (rt_failure env kind reason)" "keeps marks (rt_success kind)"
  unfolding rt_task_def rt_failure_def rt_success_def by auto

lemma keeps_marks_live [keeps_marks]: "keeps marks (report_live env m)"
  by (induction env m rule: report_live.induct) (auto intro!: keeps_marks)

lemma keeps_marks_health [keeps_marks]: "keeps marks (reportMonitoringHealth env)"
  "keeps marks (recordPollSuccess env)"
  unfolding recordPollSuccess_def reportMonitoringHealth_def Let_def
  by (auto intro!: keeps_marks)

lemma keeps_marks_waits [keeps_marks]:
  "keeps marks (waitWhileRunning k d)" "keeps marks (next_poll env)" "keeps marks (retryShadow env)"
  "keeps marks (finish_refresh env e)" "keeps marks (retry_loop env)" "keeps marks (startBackgroundWork env)"
  unfolding waitWhileRunning_def waitFor_def wait_ended_def next_poll_def retryShadow_def retry_loop_def
    startBackgroundWork_def refreshCredentials_def finish_refresh_def
  by (auto intro!: keeps_marks)

lemma keeps_marks_inventory [keeps_marks]: "keeps marks (inventory_applied env ic n)"
proof -
  have a: "keeps marks (attempt_answered env caller refused)" for caller refused
    unfolding attempt_answered_def by (cases caller) (auto intro!: keeps_marks)
  have o: "keeps marks (openShadow env caller)" for caller
    unfolding openShadow_def attemptShadow_def start_client_def handleShadowDisconnected_def Let_def
    by (auto intro!: keeps_marks a simp: marks_def)
  show ?thesis
    unfolding inventory_applied_def inventory_abandoned_def
    by (cases ic) (auto intro!: keeps_marks o)
qed

text \<open>The listener's answers for one device, whatever the store is.\<close>

definition refuses :: "runtimeEnv \<Rightarrow> string \<Rightarrow> bool" where
  "refuses env d = (\<forall>st. fst (re_removalListener env d st) \<noteq> None)"

definition removes :: "runtimeEnv \<Rightarrow> string \<Rightarrow> bool" where
  "removes env d = (\<forall>st. fst (re_removalListener env d st) = None)"

lemma watch_check_removal:
  "d' \<noteq> d \<Longrightarrow> watch d (post (check_removal env still d') s) = watch d s"
  "d \<notin> set still \<Longrightarrow> refuses env d \<Longrightarrow> watch d (post (check_removal env still d) s) = watch d s"
  "d \<notin> set still \<Longrightarrow> removes env d \<Longrightarrow> watch d (post (check_removal env still d) s) = ((None, None), None)"
proof -
  have f: "watch d (post (rt_failure env k r) t) = watch d t" for k r t
    by (rule watch_marks) (rule post_keeps [OF keeps_marks_reports(2)])
  have g: "d \<notin> set still \<Longrightarrow> post (check_removal env still d) s =
      (case re_removalListener env d (rt_store s) of
         (Some e, st) \<Rightarrow> post (rt_failure env (removalKind d) (removalRefused d)) (s\<lparr>rt_store := st\<rparr>)
       | (None, st) \<Rightarrow> s\<lparr>rt_store := st, rt_reconciliation := recon_forget d (rt_reconciliation s),
           rt_health := (let h = forgetDevice d (rt_health s) in h\<lparr>mh_anchors := anchor_forget d (mh_anchors h)\<rparr>),
           rt_failures := failure_forget (removalKind d) (failure_forget (liveReportingKind d) (rt_failures s))\<rparr>)" for d
    by (auto simp: check_removal_def split: prod.split option.split)
  have p: "d \<in> set still \<Longrightarrow> post (check_removal env still d) s
      = s\<lparr>rt_reconciliation := recon_present d (rt_reconciliation s)\<rparr>" for d
    by (simp add: check_removal_def)
  show "d' \<noteq> d \<Longrightarrow> watch d (post (check_removal env still d') s) = watch d s"
  proof (cases "d' \<in> set still")
    case True
    then show "d' \<noteq> d \<Longrightarrow> ?thesis"
      by (simp add: p watch_def recon_present_def)
  next
    case False
    then show "d' \<noteq> d \<Longrightarrow> ?thesis"
      by (auto simp: g f split: prod.split option.split)
        (simp_all add: watch_def stamps_def recon_forget_def forgetDevice_def anchor_forget_def anchor_get_def Let_def)
  qed
  obtain x st where l: "re_removalListener env d (rt_store s) = (x, st)"
    by (cases "re_removalListener env d (rt_store s)")
  have s: "watch d (s\<lparr>rt_store := st\<rparr>) = watch d s" by (simp add: watch_def)
  show "d \<notin> set still \<Longrightarrow> refuses env d \<Longrightarrow> watch d (post (check_removal env still d) s) = watch d s"
  proof -
    assume a: "d \<notin> set still" "refuses env d"
    then obtain e where "x = Some e" unfolding refuses_def using l by (metis fst_conv not_None_eq)
    then show ?thesis using a(1) by (simp add: g l f s)
  qed
  show "d \<notin> set still \<Longrightarrow> removes env d \<Longrightarrow> watch d (post (check_removal env still d) s) = ((None, None), None)"
  proof -
    assume a: "d \<notin> set still" "removes env d"
    then have "x = None" unfolding removes_def using l by (metis fst_conv)
    then show ?thesis
      using a(1) by (simp add: g l watch_def stamps_def recon_forget_def forgetDevice_def anchor_forget_def
          anchor_get_def Let_def)
  qed
qed

lemma watch_finish_removals:
  "d \<notin> set still \<Longrightarrow> refuses env d \<Longrightarrow> watch d (post (finish_removals env still ids) s) = watch d s"
  "d \<notin> set still \<Longrightarrow> removes env d \<Longrightarrow> d \<in> set ids \<or> watch d s = ((None, None), None) \<Longrightarrow>
    watch d (post (finish_removals env still ids) s) = ((None, None), None)"
proof (induction ids arbitrary: s)
  case Nil
  {
    case 1
    then show ?case by simp
  next
    case 2
    then show ?case by simp
  }
next
  case (Cons d' ids)
  {
    case 1
    then show ?case
      using Cons.IH(1) watch_check_removal(1) [of d' d] watch_check_removal(2) [of d]
      by (cases "d' = d") (simp_all add: post_then runtime_returns)
  next
    case 2
    then show ?case
      using Cons.IH(2) watch_check_removal(1) [of d' d] watch_check_removal(3) [of d]
      by (cases "d' = d") (simp_all add: post_then runtime_returns)
  }
qed

text \<open>
  A removal HomeKit refuses leaves the device exactly as distrustable as before, and one it takes
  leaves nothing behind: after the final check of a running runtime, a device missing from the fresh
  inventory has the same arrival stamp, anchor and absence count it had if the removal was refused, and
  none of the three if it was made.
\<close>

theorem removal_prunes_only_what_left:
  assumes "\<not> hasFinished s" and "d \<in> set ids" and "d \<notin> ad_deviceId ` set fresh"
  shows "(refuses env d \<longrightarrow>
      watch d (snd (rt_step env (FinalCheckAnswer caller n ids (Inr fresh)) s)) = watch d s)
    \<and> (removes env d \<longrightarrow>
      watch d (snd (rt_step env (FinalCheckAnswer caller n ids (Inr fresh)) s)) = ((None, None), None))"
proof -
  let ?ev = "FinalCheckAnswer caller n ids (Inr fresh)"
  let ?s = "take_task ?ev s"
  let ?f = "finish_removals env (map ad_deviceId fresh) ids"
  have w: "watch d ?s = watch d s" and nf: "\<not> hasFinished ?s"
    using assms(1) by (simp_all add: take_task_def watch_def hasFinished_def)
  have "snd (rt_step env ?ev s) = post (inventory_applied env caller n) (post ?f ?s)"
  proof -
    have "snd (rt_step env ?ev s) = post (rt_handle env ?ev) ?s"
      by (simp add: rt_step_def post_def split: prod.split)
    also have "\<dots> = post (act_then ?f (inventory_applied env caller n)) ?s"
      using nf by (simp add: final_check_answered_def)
    finally show ?thesis by (simp add: post_then runtime_returns)
  qed
  then have e: "watch d (snd (rt_step env ?ev s)) = watch d (post ?f ?s)"
    using watch_marks [OF post_keeps [OF keeps_marks_inventory]] by simp
  have m: "d \<notin> set (map ad_deviceId fresh)" using assms(3) by simp
  show ?thesis
    unfolding e using watch_finish_removals(1) [OF m] watch_finish_removals(2) [OF m] assms(2) w by metis
qed

theorem removal_prunes_only_what_left_witness:
  "watch ''d'' (snd (rt_step demo_runtime_env (FinalCheckAnswer PollLoop 0 [''d''] (Inr [])) demo_fetching))
    = ((None, None), None)"
proof -
  have "\<not> hasFinished demo_fetching"
    by (simp add: hasFinished_def demo_fetching_def demo_started_def createAccountRuntime_def)
  moreover have "removes demo_runtime_env ''d''" by (simp add: removes_def demo_runtime_env_def)
  ultimately show ?thesis
    using removal_prunes_only_what_left [of demo_fetching "''d''" "[''d'']" "[]" demo_runtime_env PollLoop 0] by simp
qed

section \<open>Messages of the shadow\<close>

lemma keeps_marks_live_report: "watch d (post (reportMonitoringHealth env) s) = watch d s"
  by (rule watch_marks) (rule post_keeps [OF keeps_marks_health(1)])

lemma stamps_recorded:
  "stamps (recordShadowMessage m w d h) d' = (if d' = d then (Some m, Some w) else stamps h d')"
  by (simp add: stamps_def recordShadowMessage_def anchor_record_def anchor_get_def)

lemma reported_post:
  "post (handleReportedPatch env d patch) s =
    (let (applied, evs, st') = applyReportedPatch (re_store env) (re_now env) d patch (rt_store s);
         s' = (if patch_taken (rt_store s) d patch \<and> hasTelemetryReading patch
               then s\<lparr>rt_store := st', rt_health :=
                      recordShadowMessage (re_monotonic env) (re_now env) d (rt_health s)\<rparr>
               else s\<lparr>rt_store := st'\<rparr>)
     in if d \<in> set (rt_reportedSilentDevices s) then post (reportMonitoringHealth env) s' else s')"
  by (simp add: handleReportedPatch_def Let_def split: prod.split)

text \<open>
  Only evidence from a device the account holds counts as hearing it: a shadow message sets the arrival
  stamp and the anchor of its own device, and only when the store took the message (it knows the device,
  and the version is neither fenced out nor stale) and the message carries a telemetry reading. Every
  other stamp and anchor, every absence count, and everything about a device that has left stay as they were.
\<close>

theorem only_live_evidence_counts:
  "watch d' (snd (rt_step env (Reported d patch) s)) =
    (if d' = d \<and> patch_taken (rt_store s) d patch \<and> hasTelemetryReading patch
     then ((Some (re_monotonic env), Some (re_now env)), snd (watch d s)) else watch d' s)"
proof -
  have "snd (rt_step env (Reported d patch) s) = post (handleReportedPatch env d patch) s"
    by (simp add: rt_step_def take_task_def post_def split: prod.split)
  then show ?thesis
    by (auto simp: reported_post keeps_marks_live_report Let_def split: prod.split)
      (simp_all add: watch_def stamps_recorded)
qed

lemma report_latch:
  "rt_reportedSilentDevices (post (reportMonitoringHealth env) s) =
    map fst (filter (\<lambda>(d, trust). mt_shadowSilent trust) (monitoringTrustByDevice env s (monitoringTrustNow s)))"
proof -
  have f: "keeps rt_reportedSilentDevices (rt_failure env k r)" "keeps rt_reportedSilentDevices (rt_success k)" for k r
    unfolding rt_failure_def rt_success_def by auto
  have l: "keeps rt_reportedSilentDevices (report_live env m)" for m
    by (induction env m rule: report_live.induct) (auto simp: rt_failure_def rt_success_def)
  show ?thesis
    unfolding reportMonitoringHealth_def Let_def
    by (simp add: post_then runtime_returns post_keeps [OF l])
qed

lemma report_pushed:
  "HealthPushed (monitoringTrustNow s) (monitoringTrustByDevice env s (monitoringTrustNow s))
    \<in> set (fst (reportMonitoringHealth env s))"
proof -
  have "(monitoringTrustNow s, monitoringTrustByDevice env s (monitoringTrustNow s))
      \<in> set (pushes (fst (reportMonitoringHealth env s)))"
    by (simp add: report_pushes)
  then obtain x where "x \<in> set (fst (reportMonitoringHealth env s))"
    and "pushed x = Some (monitoringTrustNow s, monitoringTrustByDevice env s (monitoringTrustNow s))"
    unfolding pushes_def in_picked by blast
  moreover from this(2) have "x = HealthPushed (monitoringTrustNow s) (monitoringTrustByDevice env s (monitoringTrustNow s))"
    by (cases x) simp_all
  ultimately show ?thesis by (simp only:)
qed

lemma taken_known:
  assumes "patch_taken st d patch" and "applyReportedPatch senv now d patch st = (applied, evs, st')"
  shows "d \<in> set (st_deviceIds st')"
proof -
  have "st_snapshot st' d \<noteq> None"
    using assms by (auto simp: patch_taken_def applyReportedPatch_def st_snapshot_def Let_def split: option.splits)
  then show ?thesis by (simp add: st_deviceIds_def st_snapshot_def jm_has_iff [symmetric] jm_has_def)
qed

text \<open>
  A recovery is reported with the message that ends it, not at the next poll: when a device that was
  reported silent sends a taken reading, the same step pushes the health of the account with that device
  no longer silent, and takes it off the list of silent devices.
\<close>

theorem recovery_arrives_with_the_message:
  assumes "d \<in> set (rt_reportedSilentDevices s)" and "patch_taken (rt_store s) d patch"
    and "hasTelemetryReading patch" and "health_wf (rt_health s)"
    and "rt_step env (Reported d patch) s = (os, s')"
  shows "d \<notin> set (rt_reportedSilentDevices s') \<and>
    (\<exists>account byDevice trust. HealthPushed account byDevice \<in> set os \<and> (d, trust) \<in> set byDevice
      \<and> \<not> mt_shadowSilent trust)"
proof -
  obtain applied evs st' where ap: "applyReportedPatch (re_store env) (re_now env) d patch (rt_store s) = (applied, evs, st')"
    by (rule prod_cases3)
  let ?h = "recordShadowMessage (re_monotonic env) (re_now env) d (rt_health s)"
  let ?t = "s\<lparr>rt_store := st', rt_health := ?h\<rparr>"
  let ?by = "monitoringTrustByDevice env ?t (monitoringTrustNow ?t)"
  have p: "s' = post (reportMonitoringHealth env) ?t"
    using assms(1,2,3,5) rt_step_post [OF assms(5)] by (simp add: take_task_def reported_post ap Let_def)
  have o: "os = map RtStore evs @ fst (reportMonitoringHealth env ?t)"
    using assms(1,2,3,5)
    by (auto simp: rt_step_def take_task_def handleReportedPatch_def act_run(2,5) ap act_then_def act_bind_cases
        act_emit_def act_modify_def act_get_def split: prod.splits sum.splits)
  have "health_wf ?h" using health_wf_step [OF assms(4), of "Message (re_monotonic env) (re_now env) d"] by simp
  then have quiet: "d \<notin> set (rt_silent env ?t)"
    by (simp add: rt_silent_def silent_iff stamps_recorded)
  have k: "d \<in> set (st_deviceIds st')" by (rule taken_known [OF assms(2) ap])
  have "d \<notin> set (rt_reportedSilentDevices s')"
    unfolding p report_latch using quiet by (auto simp: monitoringTrustByDevice_def)
  moreover have "(d, (monitoringTrustNow ?t)\<lparr>mt_shadowSilent := False\<rparr>) \<in> set ?by"
    using quiet k by (auto simp: monitoringTrustByDevice_def)
  ultimately show ?thesis
    using report_pushed [of ?t env] unfolding o by fastforce
qed

definition demo_silent :: runtime where
  "demo_silent = (createAccountRuntime None)\<lparr>rt_started := True, rt_store := demo_polled,
     rt_reportedSilentDevices := [''d1'']\<rparr>"

theorem recovery_arrives_with_the_message_witness:
  "\<exists>os s'. rt_step demo_runtime_env (Reported ''d1'' (demo_patch 7)) demo_silent = (os, s')
    \<and> ''d1'' \<notin> set (rt_reportedSilentDevices s')
    \<and> (\<exists>account byDevice trust. HealthPushed account byDevice \<in> set os \<and> (''d1'', trust) \<in> set byDevice
      \<and> \<not> mt_shadowSilent trust)"
proof -
  obtain os s' where st: "rt_step demo_runtime_env (Reported ''d1'' (demo_patch 7)) demo_silent = (os, s')"
    by (cases "rt_step demo_runtime_env (Reported ''d1'' (demo_patch 7)) demo_silent")
  have "patch_taken demo_polled ''d1'' (demo_patch 7)" by code_simp
  then show ?thesis
    using recovery_arrives_with_the_message [OF _ _ _ _ st] st
    by (simp add: demo_silent_def createAccountRuntime_def hasTelemetryReading_def demo_patch_def jm_keys_def)
qed

end
