(* ===== verification/Strings.thy ===== *)
theory Strings
  imports Prelude
begin

text \<open>
  The string functions of the language that several components use. A character is a code unit below 256.
\<close>

section \<open>Classes of characters\<close>

definition ascii_lower :: "char \<Rightarrow> char" where
  "ascii_lower c = (if 65 \<le> (of_char c :: nat) \<and> (of_char c :: nat) \<le> 90 then char_of ((of_char c :: nat) + 32) else c)"

definition is_digit :: "char \<Rightarrow> bool" where
  "is_digit c = (c \<in> set ''0123456789'')"

definition is_letter :: "char \<Rightarrow> bool" where
  "is_letter c = (c \<in> set ''abcdefghijklmnopqrstuvwxyz'')"

definition hex_upper :: "nat \<Rightarrow> char" where
  "hex_upper n = ''0123456789ABCDEF'' ! (n mod 16)"

definition hex_lower :: "nat \<Rightarrow> char" where
  "hex_lower n = ''0123456789abcdef'' ! (n mod 16)"

text \<open>White space and line ends, \<open>\s\<close>, as \<open>trim\<close> takes them off.\<close>

definition is_space :: "char \<Rightarrow> bool" where
  "is_space c = ((of_char c :: nat) \<in> set [9, 10, 11, 12, 13, 32, 160])"

definition js_trim :: "string \<Rightarrow> string" where
  "js_trim s = rev (dropWhile is_space (rev (dropWhile is_space s)))"

lemma js_trim_empty: "js_trim s = [] \<longleftrightarrow> list_all is_space s"
  by (auto simp: js_trim_def dropWhile_eq_Nil_conv list_all_iff dest: set_dropWhileD)
    (metis dropWhile_eq_Cons_conv dropWhile_eq_Nil_conv list.set_intros(1) neq_Nil_conv)

section \<open>Splitting and joining\<close>

fun join_with :: "string \<Rightarrow> string list \<Rightarrow> string" where
  "join_with sep [] = []"
| "join_with sep [x] = x"
| "join_with sep (x # y # xs) = x @ sep @ join_with sep (y # xs)"

fun split_on :: "char \<Rightarrow> string \<Rightarrow> string list" where
  "split_on sep [] = [[]]"
| "split_on sep (c # s) = (if c = sep then [] # split_on sep s
     else (case split_on sep s of [] \<Rightarrow> [[c]] | w # ws \<Rightarrow> (c # w) # ws))"

lemma split_on_word: "sep \<notin> set w \<Longrightarrow> split_on sep w = [w]"
  by (induction w) auto

lemma split_on_append: "sep \<notin> set w \<Longrightarrow> split_on sep (w @ sep # s) = w # split_on sep s"
  by (induction w) auto

lemma split_on_join:
  "(\<forall>w \<in> set (x # xs). sep \<notin> set w) \<Longrightarrow> split_on sep (join_with [sep] (x # xs)) = x # xs"
  by (induction xs arbitrary: x) (simp_all add: split_on_word split_on_append)

lemma split_on_nonempty: "split_on sep s \<noteq> []"
  by (induction s) (auto split: list.splits)

lemma join_split: "join_with [sep] (split_on sep s) = s"
proof (induction s)
  case (Cons c s)
  then show ?case using split_on_nonempty [of sep s]
    by (cases "split_on sep s"; cases "tl (split_on sep s)") auto
qed simp

lemma split_on_pieces: "w \<in> set (split_on sep s) \<Longrightarrow> sep \<notin> set w"
  by (induction s arbitrary: w) (auto split: list.splits if_splits)

lemma split_on_covers: "x \<in> set s \<Longrightarrow> x = sep \<or> (\<exists>w \<in> set (split_on sep s). x \<in> set w)"
proof (induction s)
  case (Cons c s)
  then show ?case by (cases "split_on sep s") (auto simp: split_on_nonempty)
qed simp

section \<open>Searching\<close>

text \<open>\<open>indexOf\<close>: the first place where the text is found, if any.\<close>

fun occurs_at :: "string \<Rightarrow> string \<Rightarrow> nat \<Rightarrow> bool" where
  "occurs_at text s i = (i + length s \<le> length text \<and> take (length s) (drop i text) = s)"

definition index_of :: "string \<Rightarrow> string \<Rightarrow> nat \<Rightarrow> nat option" where
  "index_of text s start = List.find (occurs_at text s) [start..<Suc (length text)]"

end
