(* ===== verification/Sigv4.thy ===== *)
theory Sigv4
  imports IsoDate Strings
begin

text \<open>
  The presigned WebSocket address of \<open>src/src/cloud/sigv4.ts\<close>. SHA-256 and HMAC are parameters on byte
  strings; in this theory a string holds the UTF-8 bytes of the source's, on which \<open>encodeURIComponent\<close> works.
  Lower-casing the host is that of ASCII names.
\<close>

record sigCrypto =
  sg_sha256 :: "string \<Rightarrow> string"
  sg_hmac :: "string \<Rightarrow> string \<Rightarrow> string"

record presignInput =
  ps_scheme :: string
  ps_host :: string
  ps_region :: string
  ps_accessKeyId :: string
  ps_secretAccessKey :: string
  ps_sessionToken :: string
  ps_now :: jsnum

definition IOT_SERVICE_NAME :: string where
  "IOT_SERVICE_NAME = ''iotdevicegateway''"

definition ALGORITHM :: string where
  "ALGORITHM = ''AWS4-HMAC-SHA256''"

definition CANONICAL_PATH :: string where
  "CANONICAL_PATH = ''/mqtt''"

definition REQUEST_SCOPE_TERMINATOR :: string where
  "REQUEST_SCOPE_TERMINATOR = ''aws4_request''"

definition SIGNED_HEADERS :: string where
  "SIGNED_HEADERS = ''host''"

section \<open>The library the source uses\<close>

text \<open>\<open>Buffer.toString('hex')\<close>.\<close>

definition to_hex :: "string \<Rightarrow> string" where
  "to_hex s = concat (map (\<lambda>c. [hex_lower (of_char c div 16), hex_lower (of_char c)]) s)"

definition uri_unreserved :: "char \<Rightarrow> bool" where
  "uri_unreserved c =
    (c \<in> set ''ABCDEFGHIJKLMNOPQRSTUVWXYZabcdefghijklmnopqrstuvwxyz0123456789-_.!~*()'' \<or> c = CHR 0x27)"

definition encodeURIComponent :: "string \<Rightarrow> string" where
  "encodeURIComponent s = concat (map (\<lambda>c. if uri_unreserved c then [c]
     else [CHR ''%'', hex_upper (of_char c div 16), hex_upper (of_char c)]) s)"

text \<open>\<open>.replace(/\.\d{3}/, '')\<close>: the first full stop that three digits follow.\<close>

fun strip_millis :: "string \<Rightarrow> string" where
  "strip_millis [] = []"
| "strip_millis (c # s) =
    (if c = CHR ''.'' \<and> 3 \<le> length s \<and> list_all is_digit (take 3 s) then drop 3 s else c # strip_millis s)"

section \<open>Signing\<close>

definition sha256Hex :: "sigCrypto \<Rightarrow> string \<Rightarrow> string" where
  "sha256Hex crypto payload = to_hex (sg_sha256 crypto payload)"

definition signingKey :: "sigCrypto \<Rightarrow> string \<Rightarrow> string \<Rightarrow> string \<Rightarrow> string" where
  "signingKey crypto secretAccessKey dateStamp region =
    (let forDate = sg_hmac crypto (''AWS4'' @ secretAccessKey) dateStamp;
         forRegion = sg_hmac crypto forDate region;
         forService = sg_hmac crypto forRegion IOT_SERVICE_NAME
     in sg_hmac crypto forService REQUEST_SCOPE_TERMINATOR)"

definition amz_timestamp :: "string \<Rightarrow> string" where
  "amz_timestamp stamp = strip_millis (filter (\<lambda>c. c \<noteq> CHR ''-'' \<and> c \<noteq> CHR '':'') stamp)"

definition credential_scope :: "string \<Rightarrow> string \<Rightarrow> string" where
  "credential_scope dateStamp region =
    dateStamp @ ''/'' @ region @ ''/'' @ IOT_SERVICE_NAME @ ''/'' @ REQUEST_SCOPE_TERMINATOR"

definition canonical_query :: "string \<Rightarrow> string \<Rightarrow> string" where
  "canonical_query credential timestamp = join_with ''&''
    [''X-Amz-Algorithm='' @ ALGORITHM, ''X-Amz-Credential='' @ credential, ''X-Amz-Date='' @ timestamp,
     ''X-Amz-SignedHeaders='' @ SIGNED_HEADERS]"

definition presign_signature :: "sigCrypto \<Rightarrow> presignInput \<Rightarrow> string \<Rightarrow> string" where
  "presign_signature crypto inp timestamp =
    (let dateStamp = take 8 timestamp;
         scope = credential_scope dateStamp (ps_region inp);
         query = canonical_query (encodeURIComponent (ps_accessKeyId inp @ ''/'' @ scope)) timestamp;
         canonicalRequest = join_with [CHR 0x0A] [''GET'', CANONICAL_PATH, query, ''host:'' @ map ascii_lower (ps_host inp), [],
           SIGNED_HEADERS, sha256Hex crypto []];
         stringToSign = join_with [CHR 0x0A] [ALGORITHM, timestamp, scope, sha256Hex crypto canonicalRequest]
     in to_hex (sg_hmac crypto (signingKey crypto (ps_secretAccessKey inp) dateStamp (ps_region inp)) stringToSign))"

definition presignIotWebsocketUrl :: "sigCrypto \<Rightarrow> presignInput \<Rightarrow> js_error + string" where
  "presignIotWebsocketUrl crypto inp = ebind (toISOString (ps_now inp)) (\<lambda>stamp.
    let timestamp = amz_timestamp stamp;
        scope = credential_scope (take 8 timestamp) (ps_region inp);
        query = canonical_query (encodeURIComponent (ps_accessKeyId inp @ ''/'' @ scope)) timestamp;
        signed = ps_scheme inp @ ''://'' @ ps_host inp @ CANONICAL_PATH @ ''?'' @ query
          @ ''&X-Amz-Signature='' @ presign_signature crypto inp timestamp
    in Inr (signed @ ''&X-Amz-Security-Token='' @ encodeURIComponent (ps_sessionToken inp)))"

section \<open>What the broker reads back\<close>

text \<open>A reader of the address: \<open>decodeURIComponent\<close>.\<close>

definition hex_digit_value :: "char \<Rightarrow> nat" where
  "hex_digit_value c = length (takeWhile (\<lambda>d. d \<noteq> c) ''0123456789ABCDEF'')"

fun decodeURIComponent :: "string \<Rightarrow> string" where
  "decodeURIComponent [] = []"
| "decodeURIComponent (c # s) = (if c = CHR ''%'' then (case s of
      a # b # r \<Rightarrow> char_of (16 * hex_digit_value a + hex_digit_value b) # decodeURIComponent r
    | _ \<Rightarrow> c # s)
   else c # decodeURIComponent s)"

lemma char_below: "(of_char (c :: char) :: nat) < 256"
  using range_nat_of_char by (metis UNIV_I atLeastLessThan_iff image_eqI)

lemma hex_value: "hex_digit_value (hex_upper n) = n mod 16"
proof -
  have "n mod 16 \<in> {0, 1, 2, 3, 4, 5, 6, 7, 8, 9, 10, 11, 12, 13, 14, 15}"
    by (simp only: insert_iff empty_iff) presburger
  then show ?thesis unfolding hex_upper_def hex_digit_value_def by auto
qed

lemma hex_upper_chars: "hex_upper n \<in> set ''0123456789ABCDEF''"
proof -
  have "n mod 16 < length ''0123456789ABCDEF''" by simp
  then show ?thesis unfolding hex_upper_def by (rule nth_mem)
qed

lemma hex_lower_chars: "hex_lower n \<in> set ''0123456789abcdef''"
proof -
  have "n mod 16 < length ''0123456789abcdef''" by simp
  then show ?thesis unfolding hex_lower_def by (rule nth_mem)
qed

lemma decode_encode: "decodeURIComponent (encodeURIComponent s @ r) = s @ decodeURIComponent r"
proof (induction s)
  case (Cons c s)
  have "\<not> uri_unreserved CHR ''%''" by (simp add: uri_unreserved_def)
  then have u: "uri_unreserved c \<Longrightarrow> c \<noteq> CHR ''%''" by auto
  have "(of_char c :: nat) div 16 < 16" using char_below [of c] by (simp add: less_mult_imp_div_less)
  then have "(of_char c :: nat) div 16 mod 16 = of_char c div 16" by simp
  then have "16 * hex_digit_value (hex_upper (of_char c div 16)) + hex_digit_value (hex_upper (of_char c)) = of_char c"
    by (simp add: hex_value)
  with Cons u show ?case by (simp add: encodeURIComponent_def)
qed (simp add: encodeURIComponent_def)

lemma encoded_chars: "set (encodeURIComponent s) \<subseteq> Collect uri_unreserved \<union> {CHR ''%''}"
proof
  fix c assume "c \<in> set (encodeURIComponent s)"
  moreover have "uri_unreserved d" if "d \<in> set ''0123456789ABCDEF''" for d
    using that by (auto simp: uri_unreserved_def)
  ultimately show "c \<in> Collect uri_unreserved \<union> {CHR ''%''}"
    using hex_upper_chars by (auto simp: encodeURIComponent_def split: if_splits)
qed

lemma to_hex_chars: "set (to_hex b) \<subseteq> set ''0123456789abcdef''"
proof (induction b)
  case (Cons c b)
  then show ?case using hex_lower_chars [of "of_char c div 16"] hex_lower_chars [of "of_char c"]
    unfolding to_hex_def list.map concat.simps set_append by (simp only: list.set(2) list.set(1) Un_subset_iff insert_subset empty_subsetI)
qed (simp add: to_hex_def)

lemma no_separator:
  "CHR ''&'' \<notin> set (encodeURIComponent s)" "CHR ''&'' \<notin> set (to_hex b)"
proof -
  have "\<not> uri_unreserved CHR ''&''" by (simp add: uri_unreserved_def)
  then show "CHR ''&'' \<notin> set (encodeURIComponent s)" using encoded_chars [of s] by auto
  have "CHR ''&'' \<notin> set ''0123456789abcdef''" by simp
  then show "CHR ''&'' \<notin> set (to_hex b)" using to_hex_chars [of b] by blast
qed

lemma hex_is_plain: "CHR ''%'' \<notin> set (to_hex b)"
proof -
  have "CHR ''%'' \<notin> set ''0123456789abcdef''" by simp
  then show ?thesis using to_hex_chars [of b] by blast
qed

section \<open>Round trip\<close>

lemma digit_char_digit: "is_digit (digit_char n)"
proof -
  have "n mod 10 < length ''0123456789''" by simp
  then show ?thesis unfolding is_digit_def digit_char_def by (rule nth_mem)
qed

lemma fixed_digits_digit: "list_all is_digit (fixed_digits k n)"
  by (induction k arbitrary: n) (auto simp: digit_char_digit)

definition stamp_char :: "char \<Rightarrow> bool" where
  "stamp_char c = (is_digit c \<or> c \<in> set ''-+T:.Z'')"

lemma stamp_digits: "list_all stamp_char (fixed_digits k n)"
  using fixed_digits_digit [of k n] by (simp add: stamp_char_def list_all_iff)

lemma stamp_marks: "stamp_char CHR ''-''" "stamp_char CHR ''+''" "stamp_char CHR ''T''" "stamp_char CHR '':''"
  "stamp_char CHR ''.''" "stamp_char CHR ''Z''"
  by (simp_all add: stamp_char_def)

lemma iso_chars: "list_all stamp_char (iso_string t)"
proof -
  have "list_all stamp_char (year_string y)" for y by (simp add: year_string_def stamp_digits stamp_marks)
  then show ?thesis by (simp add: iso_string_def Let_def stamp_digits stamp_marks split: prod.split)
qed

lemma strip_subset: "set (strip_millis s) \<subseteq> set s"
  by (induction s) (auto dest: in_set_dropD)

lemma iso_stamp_chars: "toISOString t = Inr stamp \<Longrightarrow> list_all stamp_char (amz_timestamp stamp)"
proof -
  assume "toISOString t = Inr stamp"
  then obtain ms where "stamp = iso_string ms" by (auto simp: toISOString_def split: if_splits option.splits)
  then have "list_all stamp_char stamp" by (simp add: iso_chars)
  then show ?thesis using strip_subset [of "filter (\<lambda>c. c \<noteq> CHR ''-'' \<and> c \<noteq> CHR '':'') stamp"]
    unfolding amz_timestamp_def list_all_iff by auto
qed

lemma stamp_plain:
  assumes "list_all stamp_char w" shows "CHR ''&'' \<notin> set w" "CHR ''%'' \<notin> set w"
proof -
  have "\<not> stamp_char CHR ''&''" "\<not> stamp_char CHR ''%''" by (simp_all add: stamp_char_def is_digit_def)
  then show "CHR ''&'' \<notin> set w" "CHR ''%'' \<notin> set w" using assms by (auto simp: list_all_iff)
qed

lemma decode_plain: "CHR ''%'' \<notin> set w \<Longrightarrow> decodeURIComponent (w @ r) = w @ decodeURIComponent r"
  by (induction w) auto

lemma decoded:
  "decodeURIComponent (encodeURIComponent s) = s"
  "CHR ''%'' \<notin> set w \<Longrightarrow> decodeURIComponent w = w"
  using decode_encode [of s "[]"] decode_plain [of w "[]"] by simp_all

text \<open>The six fields of the query, as they stand in it.\<close>

definition query_fields :: "sigCrypto \<Rightarrow> presignInput \<Rightarrow> string \<Rightarrow> string list" where
  "query_fields crypto inp timestamp =
    [''X-Amz-Algorithm='' @ ALGORITHM,
     ''X-Amz-Credential='' @ encodeURIComponent (ps_accessKeyId inp @ ''/'' @ credential_scope (take 8 timestamp) (ps_region inp)),
     ''X-Amz-Date='' @ timestamp, ''X-Amz-SignedHeaders='' @ SIGNED_HEADERS,
     ''X-Amz-Signature='' @ presign_signature crypto inp timestamp,
     ''X-Amz-Security-Token='' @ encodeURIComponent (ps_sessionToken inp)]"

lemma signature_plain:
  "CHR ''&'' \<notin> set (presign_signature crypto inp w)" "CHR ''%'' \<notin> set (presign_signature crypto inp w)"
  unfolding presign_signature_def Let_def by (rule no_separator hex_is_plain)+

lemma query_splits:
  assumes "list_all stamp_char w"
  shows "split_on CHR ''&'' (join_with ''&'' (query_fields crypto inp w)) = query_fields crypto inp w"
  unfolding query_fields_def
  by (rule split_on_join)
    (simp add: stamp_plain [OF assms] signature_plain no_separator ALGORITHM_def SIGNED_HEADERS_def)

lemma query_decodes:
  assumes "list_all stamp_char w"
  shows "map decodeURIComponent (query_fields crypto inp w) =
    [''X-Amz-Algorithm='' @ ALGORITHM,
     ''X-Amz-Credential='' @ ps_accessKeyId inp @ ''/'' @ credential_scope (take 8 w) (ps_region inp),
     ''X-Amz-Date='' @ w, ''X-Amz-SignedHeaders='' @ SIGNED_HEADERS,
     ''X-Amz-Signature='' @ presign_signature crypto inp w, ''X-Amz-Security-Token='' @ ps_sessionToken inp]"
  by (simp add: query_fields_def decoded stamp_plain [OF assms] signature_plain ALGORITHM_def SIGNED_HEADERS_def)

lemma presigned_fields:
  "presignIotWebsocketUrl crypto inp = Inr url \<Longrightarrow> toISOString (ps_now inp) = Inr stamp \<Longrightarrow>
   url = (ps_scheme inp @ ''://'' @ ps_host inp @ ''/mqtt?'') @ join_with ''&'' (query_fields crypto inp (amz_timestamp stamp))"
  by (simp add: presignIotWebsocketUrl_def Let_def canonical_query_def query_fields_def CANONICAL_PATH_def)

text \<open>
  C35. The presigned address says what was put into it. Whatever bytes the credentials hold, the query splits at
  its ampersands into exactly six fields; the credential field decodes to the access key and its scope,
  the last one to the session token, and the rest are the fixed algorithm, the date, the signed header
  and the signature, so no credential can add or cut a field.
\<close>

theorem presigned_address_round_trip:
  assumes "presignIotWebsocketUrl crypto inp = Inr url" and "toISOString (ps_now inp) = Inr stamp"
  shows "let query = drop (length (ps_scheme inp @ ''://'' @ ps_host inp @ ''/mqtt?'')) url;
      timestamp = amz_timestamp stamp
    in take (length (ps_scheme inp @ ''://'' @ ps_host inp @ ''/mqtt?'')) url = ps_scheme inp @ ''://'' @ ps_host inp @ ''/mqtt?''
     \<and> map decodeURIComponent (split_on CHR ''&'' query) =
       [''X-Amz-Algorithm=AWS4-HMAC-SHA256'',
        ''X-Amz-Credential='' @ ps_accessKeyId inp @ ''/'' @ take 8 timestamp @ ''/'' @ ps_region inp
          @ ''/iotdevicegateway/aws4_request'',
        ''X-Amz-Date='' @ timestamp, ''X-Amz-SignedHeaders=host'',
        ''X-Amz-Signature='' @ presign_signature crypto inp timestamp,
        ''X-Amz-Security-Token='' @ ps_sessionToken inp]"
proof -
  note parts = presigned_fields [OF assms] and chars = iso_stamp_chars [OF assms(2)]
  note at_prefix = append_eq_conv_conj [THEN iffD1, OF parts [symmetric]]
  have query: "drop (length p) url = join_with ''&'' (query_fields crypto inp (amz_timestamp stamp))"
    "take (length p) url = p" if "p = ps_scheme inp @ ''://'' @ ps_host inp @ ''/mqtt?''" for p
    using at_prefix unfolding that by (simp_all only: at_prefix [THEN conjunct1, symmetric] at_prefix [THEN conjunct2, symmetric])
  show ?thesis
    unfolding Let_def query [OF refl] query_splits [OF chars] query_decodes [OF chars]
    by (simp add: credential_scope_def IOT_SERVICE_NAME_def REQUEST_SCOPE_TERMINATOR_def ALGORITHM_def SIGNED_HEADERS_def)
qed

definition sample_input :: presignInput where
  "sample_input = \<lparr> ps_scheme = ''wss'', ps_host = ''broker.Example'', ps_region = ''eu'', ps_accessKeyId = ''AK&='',
    ps_secretAccessKey = ''s'', ps_sessionToken = ''t/&%'', ps_now = Fin 0 \<rparr>"

definition sample_crypto :: sigCrypto where
  "sample_crypto = \<lparr> sg_sha256 = (\<lambda>s. ''h''), sg_hmac = (\<lambda>k s. ''m'') \<rparr>"

theorem presigned_address_round_trip_witness:
  "map decodeURIComponent (split_on CHR ''&'' (drop (length ''wss://broker.Example/mqtt?'')
      (case presignIotWebsocketUrl sample_crypto sample_input of Inr url \<Rightarrow> url | Inl e \<Rightarrow> []))) =
    [''X-Amz-Algorithm=AWS4-HMAC-SHA256'', ''X-Amz-Credential=AK&=/19700101/eu/iotdevicegateway/aws4_request'',
     ''X-Amz-Date=19700101T000000Z'', ''X-Amz-SignedHeaders=host'', ''X-Amz-Signature=6d'', ''X-Amz-Security-Token=t/&%'']"
proof -
  have stamp: "toISOString (ps_now sample_input) = Inr ''1970-01-01T00:00:00.000Z''" by code_simp
  have short: "amz_timestamp ''1970-01-01T00:00:00.000Z'' = ''19700101T000000Z''" by code_simp
  have signature: "presign_signature sample_crypto sample_input ''19700101T000000Z'' = ''6d''" by code_simp
  obtain url where url: "presignIotWebsocketUrl sample_crypto sample_input = Inr url"
    using stamp by (auto simp: presignIotWebsocketUrl_def Let_def)
  from presigned_address_round_trip [OF url stamp] show ?thesis
    unfolding Let_def short signature url by (simp add: sample_input_def)
qed

end
