(* ===== verification/ShadowClient.thy ===== *)
theory ShadowClient
  imports DeviceStore RetryPolicy AccountRuntime Sigv4 "HOL-Library.Sublist"
begin

text \<open>
  The shadow client of \<open>src/src/cloud/shadow.ts\<close> over the transport of
  \<open>src/src/cloud/mqttTransport.ts\<close>: topics and their routing, the patch a message carries, and
  the life of a connection. The client is a state and the events it can be given: its own two calls, the
  notifications of every transport it ever created (a replaced connection keeps its handlers), the end
  of a broker operation, and the end of a retry wait. Each event gives the outputs in order and the next
  state. What \<open>JSON.parse\<close> makes of a payload, the credentials an opening reads and whether the
  transport library throws while opening come with the event.
\<close>

section \<open>Topics\<close>

definition topic_get :: "string \<Rightarrow> string" where
  "topic_get deviceId = ''$aws/things/'' @ deviceId @ ''/shadow/get''"

definition topic_getAccepted :: "string \<Rightarrow> string" where
  "topic_getAccepted deviceId = ''$aws/things/'' @ deviceId @ ''/shadow/get/accepted''"

definition topic_getRejected :: "string \<Rightarrow> string" where
  "topic_getRejected deviceId = ''$aws/things/'' @ deviceId @ ''/shadow/get/rejected''"

definition topic_updateAccepted :: "string \<Rightarrow> string" where
  "topic_updateAccepted deviceId = ''$aws/things/'' @ deviceId @ ''/shadow/update/accepted''"

datatype shadowLeaf = LeafAccepted | LeafRejected

record shadowRoute =
  route_deviceId :: string
  route_leaf :: shadowLeaf

definition has_wildcard :: "string \<Rightarrow> bool" where
  "has_wildcard deviceId = list_ex (\<lambda>c. c = CHR ''+'' \<or> c = CHR ''#'') deviceId"

definition WILDCARD_WARNING :: string where
  "WILDCARD_WARNING =
    ''A device identifier cannot be used as a shadow topic, so the poll is the only source for that device.''"

definition usableDevices :: "string list \<Rightarrow> log_line list \<times> string list" where
  "usableDevices deviceIds =
    (let usable = filter (\<lambda>d. \<not> has_wildcard d) deviceIds
     in (if length usable \<noteq> length deviceIds then [LWarn WILDCARD_WARNING] else [], usable))"

definition fillRoutes :: "string list \<Rightarrow> (string, shadowRoute) jsmap" where
  "fillRoutes deviceIds = fold (\<lambda>d routes.
      jm_set (topic_updateAccepted d) \<lparr>route_deviceId = d, route_leaf = LeafAccepted\<rparr>
        (jm_set (topic_getRejected d) \<lparr>route_deviceId = d, route_leaf = LeafRejected\<rparr>
          (jm_set (topic_getAccepted d) \<lparr>route_deviceId = d, route_leaf = LeafAccepted\<rparr> routes)))
    deviceIds []"

section \<open>Documents\<close>

definition isShadowDocument :: "json option \<Rightarrow> bool" where
  "isShadowDocument v = (isRecord v \<and> isRecord (prop_of v ''state''))"

text \<open>\<open>JSON.parse\<close> throws exactly when the payload is \<open>None\<close> here.\<close>

definition readShadowDocument :: "json option \<Rightarrow> json option" where
  "readShadowDocument payload = (if isShadowDocument payload then payload else None)"

definition toReportedPatch :: "json \<Rightarrow> reportedPatch" where
  "toReportedPatch document =
    (let reported = prop_of (prop_of (Some document) ''state'') ''reported'';
         sections = (if isRecord reported then fields_of reported else [])
     in \<lparr>rp_data = (if isRecord (jm_get sections ''data'') then Some (fields_of (jm_get sections ''data'')) else None),
         rp_state = (if isRecord (jm_get sections ''state'') then Some (fields_of (jm_get sections ''state'')) else None),
         rp_version = (case prop_of (Some document) ''version'' of
            Some (JNum n) \<Rightarrow> finite_of n | _ \<Rightarrow> None)\<rparr>)"

section \<open>Transports\<close>

text \<open>
  One operation of a transport: the broker's callback or the deadline settles it, whichever comes
  first, and the promise ignores the other.
\<close>

datatype operation = OpPending | OpResolved | OpRejected string

datatype operationEvent = Callback "string option" | Deadline

definition DEADLINE_REFUSAL :: string where
  "DEADLINE_REFUSAL = ''The broker did not answer a transport operation within its deadline.''"

fun within_step :: "operation \<Rightarrow> operationEvent \<Rightarrow> operation" where
  "within_step OpPending (Callback None) = OpResolved"
| "within_step OpPending (Callback (Some e)) = OpRejected e"
| "within_step OpPending Deadline = OpRejected DEADLINE_REFUSAL"
| "within_step op _ = op"

record mqttTransport =
  tp_connected :: bool
  tp_ended :: bool

definition createMqttTransport :: mqttTransport where
  "createMqttTransport = \<lparr>tp_connected = False, tp_ended = False\<rparr>"

section \<open>The client\<close>

record shadowConnection =
  cn_transport :: mqttTransport
  cn_established :: bool
  cn_live :: bool
  cn_released :: bool

text \<open>
  \<open>requestEveryShadow\<close> is suspended either on its subscription or on the publication before the listed
  devices.
\<close>

datatype requestStage = Subscribing | Publishing "string list"

record shadowRequest =
  rq_connection :: nat
  rq_stage :: requestStage

text \<open>Every connection ever opened keeps its place in \<open>sh_connections\<close>; \<open>connection\<close> is an index.\<close>

record shadowClient =
  sh_routes :: "(string, shadowRoute) jsmap"
  sh_devices :: "string list"
  sh_connections :: "shadowConnection list"
  sh_connection :: "nat option"
  sh_closing :: bool
  sh_ending :: bool
  sh_requests :: "shadowRequest list"
  sh_retry :: retryPolicy

datatype shadowOutput =
    OpenTransport nat string string
  | EndTransport nat bool
  | SubscribeTopics nat "string list"
  | PublishTopic nat string
  | Reported string reportedPatch
  | ShadowUp
  | ShadowDown ShadowDisconnectReason
  | HandshakeIdentity nat string
  | HandshakeAddress nat "js_error + string"
  | ShadowLog log_line

definition createShadowClient :: shadowClient where
  "createShadowClient =
    \<lparr>sh_routes = [], sh_devices = [], sh_connections = [], sh_connection = None, sh_closing = False,
     sh_ending = False, sh_requests = [], sh_retry = createRetryPolicy\<rparr>"

definition BROKER_PATH :: string where
  "BROKER_PATH = ''/mqtt''"

definition modify_connection :: "nat \<Rightarrow> (shadowConnection \<Rightarrow> shadowConnection) \<Rightarrow> shadowClient \<Rightarrow> shadowClient" where
  "modify_connection i f s = s\<lparr>sh_connections := (sh_connections s)[i := f (sh_connections s ! i)]\<rparr>"

text \<open>\<open>transport.end()\<close> is memoized; a client that never connected is dropped by force.\<close>

definition transport_end :: "nat \<Rightarrow> shadowClient \<Rightarrow> shadowOutput list \<times> shadowClient" where
  "transport_end i s =
    (let t = cn_transport (sh_connections s ! i)
     in if tp_ended t then ([], s)
        else ([EndTransport i (\<not> tp_connected t)],
              modify_connection i (\<lambda>c. c\<lparr>cn_transport := t\<lparr>tp_ended := True\<rparr>\<rparr>) s))"

definition isCurrent :: "nat \<Rightarrow> shadowClient \<Rightarrow> bool" where
  "isCurrent i s = (sh_connection s = Some i \<and> \<not> cn_released (sh_connections s ! i) \<and> \<not> sh_closing s)"

definition sh_connected :: "shadowClient \<Rightarrow> bool" where
  "sh_connected s = (\<not> sh_closing s \<and> (case sh_connection s of
      None \<Rightarrow> False | Some i \<Rightarrow> cn_live (sh_connections s ! i)))"

definition release :: "nat \<Rightarrow> ShadowDisconnectReason \<Rightarrow> shadowClient \<Rightarrow> shadowOutput list \<times> shadowClient" where
  "release i reason s =
    ([ShadowDown reason], modify_connection i (\<lambda>c. c\<lparr>cn_released := True, cn_live := False\<rparr>) s)"

definition scheduleReconnect :: "shadowClient \<Rightarrow> shadowClient" where
  "scheduleReconnect s = s\<lparr>sh_retry := retry_schedule MAX_BACKOFF_MS (sh_retry s)\<rparr>"

definition handleError :: "nat \<Rightarrow> shadowClient \<Rightarrow> shadowOutput list \<times> shadowClient" where
  "handleError i s = (let (outs, s') = release i TransportError s
     in (ShadowLog (LDebug ''The shadow connection failed and will reconnect.'') # outs, scheduleReconnect s'))"

definition handleClose :: "nat \<Rightarrow> shadowClient \<Rightarrow> shadowOutput list \<times> shadowClient" where
  "handleClose i s =
    (let (note, reason) = (if cn_established (sh_connections s ! i)
         then (''The shadow connection closed and will reconnect, which the provider connection ceiling makes routine.'',
               TransportClosed)
         else (''The shadow connection was refused before it was established and will be retried.'',
               HandshakeRefused));
         (outs, s') = release i reason s
     in (ShadowLog (LDebug note) # outs, scheduleReconnect s'))"

definition handleMessage :: "string \<Rightarrow> json option \<Rightarrow> shadowClient \<Rightarrow> shadowOutput list" where
  "handleMessage topic payload s = (case jm_get (sh_routes s) topic of
      None \<Rightarrow> []
    | Some route \<Rightarrow>
        if route_leaf route = LeafRejected
        then [ShadowLog (LWarn ''The shadow service rejected a state request for one device.'')]
        else case readShadowDocument payload of
            None \<Rightarrow> [ShadowLog (LDebug
              ''A shadow message was discarded because its document could not be read.'')]
          | Some document \<Rightarrow> [Reported (route_deviceId route) (toReportedPatch document)])"

text \<open>\<open>requestEveryShadow\<close> from its start, and from each of its waits.\<close>

definition requestEveryShadow :: "nat \<Rightarrow> shadowClient \<Rightarrow> shadowOutput list \<times> shadowClient" where
  "requestEveryShadow i s =
    ([SubscribeTopics i (jm_keys (sh_routes s))],
     s\<lparr>sh_requests := sh_requests s @ [\<lparr>rq_connection = i, rq_stage = Subscribing\<rparr>]\<rparr>)"

definition requestRefused :: "nat \<Rightarrow> shadowClient \<Rightarrow> shadowOutput list \<times> shadowClient" where
  "requestRefused i s =
    (if \<not> isCurrent i s then ([], s)
     else let (down, s1) = release i SubscriptionRefused s;
              (ended, s2) = transport_end i s1
          in (ShadowLog (LDebug ''The shadow subscription could not be established, so the connection will be retried.'')
                # down @ ended, scheduleReconnect s2))"

definition publishNext :: "nat \<Rightarrow> string list \<Rightarrow> shadowClient \<Rightarrow> shadowOutput list \<times> shadowClient" where
  "publishNext i remaining s = (case remaining of
      d # ds \<Rightarrow> ([PublishTopic i (topic_get d)],
        s\<lparr>sh_requests := sh_requests s @ [\<lparr>rq_connection = i, rq_stage = Publishing ds\<rparr>]\<rparr>)
    | [] \<Rightarrow> if isCurrent i s
        then ([ShadowUp], (modify_connection i (\<lambda>c. c\<lparr>cn_live := True\<rparr>) s)
                \<lparr>sh_retry := retry_reset (sh_retry s)\<rparr>)
        else ([], s))"

definition requestSettled :: "nat \<Rightarrow> operationEvent \<Rightarrow> shadowClient \<Rightarrow> shadowOutput list \<times> shadowClient" where
  "requestSettled n event s =
    (let r = sh_requests s ! n;
         i = rq_connection r;
         s1 = s\<lparr>sh_requests := take n (sh_requests s) @ drop (Suc n) (sh_requests s)\<rparr>
     in case within_step OpPending event of
          OpResolved \<Rightarrow> publishNext i (case rq_stage r of Subscribing \<Rightarrow> sh_devices s | Publishing ds \<Rightarrow> ds) s1
        | _ \<Rightarrow> requestRefused i s1)"

definition handleConnect :: "nat \<Rightarrow> shadowClient \<Rightarrow> shadowOutput list \<times> shadowClient" where
  "handleConnect i s = requestEveryShadow i (modify_connection i (\<lambda>c. c\<lparr>cn_established := True\<rparr>) s)"

text \<open>What an opening meets: an error of the transport library, or the credentials it reads.\<close>

type_synonym openAnswer = "js_error + shadowCredentials"

definition openConnection ::
  "string \<Rightarrow> openAnswer \<Rightarrow> shadowClient \<Rightarrow> shadowOutput list \<times> js_error option \<times> shadowClient" where
  "openConnection scheme answer s =
    (if sh_closing s then ([], None, s)
     else case answer of
       Inl e \<Rightarrow> ([], Some e, s)
     | Inr current \<Rightarrow>
         let i = length (sh_connections s);
             s1 = s\<lparr>sh_connections := sh_connections s @ [\<lparr>cn_transport = createMqttTransport,
                      cn_established = False, cn_live = False, cn_released = False\<rparr>],
                    sh_connection := Some i\<rparr>;
             opened = OpenTransport i (scheme @ ''://'' @ sc_endpoint current @ BROKER_PATH) (sc_clientId current)
         in case sh_connection s of
              None \<Rightarrow> ([opened], None, s1)
            | Some previous \<Rightarrow> (case transport_end previous s1 of (ended, s2) \<Rightarrow> (opened # ended, None, s2)))"

definition shadow_start ::
  "string \<Rightarrow> string list \<Rightarrow> openAnswer \<Rightarrow> shadowClient \<Rightarrow> shadowOutput list \<times> js_error option \<times> shadowClient" where
  "shadow_start scheme deviceIds answer s =
    (let (notes, usable) = usableDevices deviceIds;
         (outs, failure, s') = openConnection scheme answer (s\<lparr>sh_devices := usable, sh_routes := fillRoutes usable\<rparr>)
     in (map ShadowLog notes @ outs, failure, s'))"

definition shadow_close :: "shadowClient \<Rightarrow> shadowOutput list \<times> shadowClient" where
  "shadow_close s =
    (let s1 = s\<lparr>sh_closing := True, sh_ending := True\<rparr>
     in if sh_ending s then ([], s1)
        else case sh_connection s of None \<Rightarrow> ([], s1) | Some i \<Rightarrow> transport_end i s1)"

text \<open>The wait of the retry policy has elapsed: the reopening runs to its end before anything else does.\<close>

definition shadow_reopen :: "string \<Rightarrow> openAnswer \<Rightarrow> shadowClient \<Rightarrow> shadowOutput list \<times> shadowClient" where
  "shadow_reopen scheme answer s =
    (let (outs, failure, s') = openConnection scheme answer s
     in (outs @ (case failure of None \<Rightarrow> [] | Some _ \<Rightarrow> [ShadowLog (LDebug ''A scheduled retry attempt failed.'')]),
         s'\<lparr>sh_retry := (sh_retry s')\<lparr>retry_phase := Idle\<rparr>\<rparr>))"

section \<open>The handshake\<close>

text \<open>What a handshake is signed with besides the credentials: the hashes, the region and the clock's reading.\<close>

record handshakeSigning =
  hs_crypto :: sigCrypto
  hs_region :: string
  hs_now :: jsnum

text \<open>The client identifier is renewed first; the address, or what signing threw, goes back to the library.\<close>

definition signHandshake :: "string \<Rightarrow> handshakeSigning \<Rightarrow> nat \<Rightarrow> shadowCredentials \<Rightarrow> shadowOutput list" where
  "signHandshake scheme signing i current =
    [HandshakeIdentity i (sc_clientId current),
     HandshakeAddress i (presignIotWebsocketUrl (hs_crypto signing)
       \<lparr>ps_scheme = scheme, ps_host = sc_endpoint current, ps_region = hs_region signing,
        ps_accessKeyId = sc_accessKeyId current, ps_secretAccessKey = sc_secretAccessKey current,
        ps_sessionToken = sc_sessionToken current, ps_now = hs_now signing\<rparr>)]"

section \<open>Events\<close>

datatype shadowEvent =
    StartCalled "string list" openAnswer
  | CloseCalled
  | TransportConnected nat
  | MessageArrived nat string "json option"
  | TransportFailed nat
  | TransportClosing nat
  | OperationSettled nat operationEvent
  | RetryElapsed openAnswer
  | RetryAborted
  | HandshakeSigned nat shadowCredentials handshakeSigning

text \<open>Every notification is checked against the connection it came from.\<close>

definition when_current ::
  "nat \<Rightarrow> (shadowClient \<Rightarrow> shadowOutput list \<times> shadowClient) \<Rightarrow> shadowClient \<Rightarrow> shadowOutput list \<times> shadowClient" where
  "when_current i f s = (if isCurrent i s then f s else ([], s))"

text \<open>The transport notes that it connected before it tells the client.\<close>

definition note_connected :: "nat \<Rightarrow> shadowClient \<Rightarrow> shadowClient" where
  "note_connected i s = modify_connection i
    (\<lambda>c. c\<lparr>cn_transport := (cn_transport c)\<lparr>tp_connected := True\<rparr>\<rparr>) s"

fun shadow_step :: "string \<Rightarrow> shadowEvent \<Rightarrow> shadowClient \<Rightarrow> shadowOutput list \<times> shadowClient" where
  "shadow_step scheme (StartCalled ids answer) s =
    (case shadow_start scheme ids answer s of (outs, failure, s') \<Rightarrow> (outs, s'))"
| "shadow_step scheme CloseCalled s = shadow_close s"
| "shadow_step scheme (TransportConnected i) s = when_current i (handleConnect i) (note_connected i s)"
| "shadow_step scheme (MessageArrived i topic payload) s =
    when_current i (\<lambda>s. (handleMessage topic payload s, s)) s"
| "shadow_step scheme (TransportFailed i) s = when_current i (handleError i) s"
| "shadow_step scheme (TransportClosing i) s = when_current i (handleClose i) s"
| "shadow_step scheme (OperationSettled n event) s = requestSettled n event s"
| "shadow_step scheme (RetryElapsed answer) s = shadow_reopen scheme answer s"
| "shadow_step scheme RetryAborted s = ([], s\<lparr>sh_retry := (sh_retry s)\<lparr>retry_phase := Idle\<rparr>\<rparr>)"
| "shadow_step scheme (HandshakeSigned i current signing) s = (signHandshake scheme signing i current, s)"

fun shadow_enabled :: "shadowEvent \<Rightarrow> shadowClient \<Rightarrow> bool" where
  "shadow_enabled (TransportConnected i) s = (i < length (sh_connections s))"
| "shadow_enabled (MessageArrived i topic payload) s = (i < length (sh_connections s))"
| "shadow_enabled (TransportFailed i) s = (i < length (sh_connections s))"
| "shadow_enabled (TransportClosing i) s = (i < length (sh_connections s))"
| "shadow_enabled (HandshakeSigned i current signing) s = (i < length (sh_connections s))"
| "shadow_enabled (OperationSettled n event) s = (n < length (sh_requests s))"
| "shadow_enabled (RetryElapsed answer) s = (case retry_phase (sh_retry s) of RetryPolicy.Waiting d \<Rightarrow> True | _ \<Rightarrow> False)"
| "shadow_enabled RetryAborted s = (case retry_phase (sh_retry s) of RetryPolicy.Waiting d \<Rightarrow> True | _ \<Rightarrow> False)"
| "shadow_enabled _ s = True"

text \<open>Runs from the state a new client has, with what every step put out, the latest event last.\<close>

inductive shadow_run :: "string \<Rightarrow> (shadowEvent \<times> shadowOutput list) list \<Rightarrow> shadowClient \<Rightarrow> bool" for scheme where
  created: "shadow_run scheme [] createShadowClient"
| snoc: "shadow_run scheme tr s \<Longrightarrow> shadow_enabled e s \<Longrightarrow> shadow_step scheme e s = (outs, s') \<Longrightarrow>
    shadow_run scheme (tr @ [(e, outs)]) s'"

end
