(* ===== verification/ShadowProperties.thy ===== *)
theory ShadowProperties
  imports ShadowClient
begin

text \<open>
  What the shadow client promises over whole runs: the life of its connections as a small protocol its
  consumer can follow, a next attempt that is always under way, a shutdown that leaves no socket open, and
  messages that reach the store only from the device and the section they belong to.
\<close>

section \<open>The connections\<close>

definition shadow_inv :: "shadowClient \<Rightarrow> bool" where
  "shadow_inv s = (let cs = sh_connections s in
     (case sh_connection s of None \<Rightarrow> cs = [] | Some i \<Rightarrow> Suc i = length cs)
     \<and> (\<forall>i < length cs. sh_connection s \<noteq> Some i \<or> sh_closing s \<longrightarrow> tp_ended (cn_transport (cs ! i)))
     \<and> (\<forall>c \<in> set cs. \<not> (cn_live c \<and> cn_released c))
     \<and> (sh_closing s = sh_ending s)
     \<and> (\<forall>r \<in> set (sh_requests s). rq_connection r < length cs)
     \<and> retry_phase (sh_retry s) \<noteq> Running)"

text \<open>Changing one connection in place, without reopening its transport.\<close>

lemma inv_modify:
  assumes "shadow_inv s" and "i < length (sh_connections s)"
    and "\<And>c. tp_ended (cn_transport c) \<Longrightarrow> tp_ended (cn_transport (f c))"
    and "\<And>c. c = sh_connections s ! i \<Longrightarrow> \<not> (cn_live c \<and> cn_released c) \<Longrightarrow> \<not> (cn_live (f c) \<and> cn_released (f c))"
  shows "shadow_inv (modify_connection i f s)"
  using assms unfolding shadow_inv_def modify_connection_def Let_def
  by (auto simp: nth_list_update dest!: set_update_subset_insert [THEN subsetD] split: option.splits)

lemma inv_frame:
  assumes "shadow_inv s" and "retry_phase p \<noteq> Running"
  shows "shadow_inv (s\<lparr>sh_retry := p\<rparr>)" "shadow_inv (s\<lparr>sh_devices := ds, sh_routes := rs\<rparr>)"
  using assms by (simp_all add: shadow_inv_def Let_def)

lemma schedule_not_running: "retry_phase p \<noteq> Running \<Longrightarrow> retry_phase (retry_schedule m p) \<noteq> Running"
  by (simp add: retry_schedule_def nextDelayMs_def Let_def)

lemma current_in_range: "shadow_inv s \<Longrightarrow> sh_connection s = Some i \<Longrightarrow> i < length (sh_connections s)"
  by (auto simp: shadow_inv_def Let_def)

text \<open>The link as its consumer can follow it.\<close>

datatype link = Unopened | Held bool | Lost | Shut

definition link_of :: "shadowClient \<Rightarrow> link" where
  "link_of s = (if sh_closing s then Shut else case sh_connection s of
      None \<Rightarrow> Unopened
    | Some i \<Rightarrow> if cn_released (sh_connections s ! i) then Lost else Held (cn_live (sh_connections s ! i)))"

fun link_output :: "shadowOutput \<Rightarrow> link \<Rightarrow> link option" where
  "link_output (OpenTransport i url name) l = (if l = Shut then None else Some (Held False))"
| "link_output ShadowUp l = (case l of Held b \<Rightarrow> Some (Held True) | _ \<Rightarrow> None)"
| "link_output (ShadowDown reason) l = (case l of Held b \<Rightarrow> Some Lost | _ \<Rightarrow> None)"
| "link_output (Reported d p) l = (case l of Held b \<Rightarrow> Some l | _ \<Rightarrow> None)"
| "link_output _ l = Some l"

fun link_outputs :: "shadowOutput list \<Rightarrow> link \<Rightarrow> link option" where
  "link_outputs [] l = Some l"
| "link_outputs (x # xs) l = Option.bind (link_output x l) (link_outputs xs)"

fun link_event :: "shadowEvent \<times> shadowOutput list \<Rightarrow> link \<Rightarrow> link option" where
  "link_event (e, outs) l = map_option (\<lambda>l'. if e = CloseCalled then Shut else l') (link_outputs outs l)"

fun link_trace :: "(shadowEvent \<times> shadowOutput list) list \<Rightarrow> link \<Rightarrow> link option" where
  "link_trace [] l = Some l"
| "link_trace (x # xs) l = Option.bind (link_event x l) (link_trace xs)"

lemma link_trace_snoc: "link_trace (tr @ [x]) l = Option.bind (link_trace tr l) (link_event x)"
  by (induction tr arbitrary: l) (auto split: Option.bind_splits)

lemma link_outputs_append: "link_outputs (xs @ ys) l = Option.bind (link_outputs xs l) (link_outputs ys)"
  by (induction xs arbitrary: l) (auto split: Option.bind_splits)

lemma link_of_frame:
  "link_of (s\<lparr>sh_retry := p\<rparr>) = link_of s" "link_of (s\<lparr>sh_requests := rs\<rparr>) = link_of s"
  "link_of (s\<lparr>sh_devices := ds, sh_routes := routes\<rparr>) = link_of s"
  by (simp_all add: link_of_def split: option.split)

text \<open>The small steps, with the invariant they keep and the link they make.\<close>

lemma transport_end_link:
  assumes "shadow_inv s" and "i < length (sh_connections s)"
  shows "shadow_inv (snd (transport_end i s))" "link_of (snd (transport_end i s)) = link_of s"
    "link_outputs (fst (transport_end i s)) l = Some l"
proof -
  show "shadow_inv (snd (transport_end i s))"
    using assms by (auto simp: transport_end_def Let_def intro!: inv_modify)
  show "link_of (snd (transport_end i s)) = link_of s"
    using assms by (auto simp: transport_end_def Let_def link_of_def modify_connection_def nth_list_update
        split: option.split)
  show "link_outputs (fst (transport_end i s)) l = Some l"
    by (simp add: transport_end_def Let_def)
qed

lemma release_link:
  assumes "shadow_inv s" and "isCurrent i s"
  shows "shadow_inv (snd (release i reason s))" "link_of (snd (release i reason s)) = Lost"
    "link_outputs (fst (release i reason s)) (link_of s) = Some Lost"
  using assms current_in_range [of s i]
  by (auto simp: release_def isCurrent_def link_of_def modify_connection_def nth_list_update
      intro!: inv_modify [unfolded modify_connection_def])

lemma reconnect_link:
  "shadow_inv s \<Longrightarrow> shadow_inv (scheduleReconnect s)" "link_of (scheduleReconnect s) = link_of s"
proof -
  show "shadow_inv s \<Longrightarrow> shadow_inv (scheduleReconnect s)"
    by (auto simp: scheduleReconnect_def shadow_inv_def Let_def intro!: inv_frame schedule_not_running)
  show "link_of (scheduleReconnect s) = link_of s"
    by (simp add: scheduleReconnect_def link_of_frame)
qed

lemma give_up_link:
  assumes "shadow_inv s" and "isCurrent i s"
  shows "shadow_inv (snd (handleError i s)) \<and>
      link_outputs (fst (handleError i s)) (link_of s) = Some (link_of (snd (handleError i s)))"
    and "shadow_inv (snd (handleClose i s)) \<and>
      link_outputs (fst (handleClose i s)) (link_of s) = Some (link_of (snd (handleClose i s)))"
  using release_link [OF assms] reconnect_link
  by (auto simp: handleError_def handleClose_def Let_def split: prod.splits)
    (metis fst_conv snd_conv)+

lemma request_refused_link:
  assumes "shadow_inv s" and "i < length (sh_connections s)"
  shows "shadow_inv (snd (requestRefused i s))"
    "link_outputs (fst (requestRefused i s)) (link_of s) = Some (link_of (snd (requestRefused i s)))"
proof -
  obtain down s1 where r: "release i SubscriptionRefused s = (down, s1)" by fastforce
  obtain ended s2 where t: "transport_end i s1 = (ended, s2)" by fastforce
  have n: "length (sh_connections s1) = length (sh_connections s)"
    using r by (auto simp: release_def modify_connection_def)
  have e: "requestRefused i s = (ShadowLog (LDebug ''The shadow subscription could not be established, so the connection will be retried.'')
    # down @ ended, scheduleReconnect s2)" if "isCurrent i s"
    using that r t by (simp add: requestRefused_def)
  have k: "shadow_inv s1 \<and> link_of s1 = Lost \<and> link_outputs down (link_of s) = Some Lost" if "isCurrent i s"
    using release_link [OF assms(1) that, of SubscriptionRefused] r by simp
  have m: "shadow_inv s2 \<and> link_of s2 = link_of s1 \<and> link_outputs ended l = Some l" if "isCurrent i s" for l
    using transport_end_link [of s1 i] k [OF that] assms(2) n t by auto
  show "shadow_inv (snd (requestRefused i s))"
    using m e assms(1) reconnect_link by (cases "isCurrent i s") (auto simp: requestRefused_def)
  show "link_outputs (fst (requestRefused i s)) (link_of s) = Some (link_of (snd (requestRefused i s)))"
    using m k e reconnect_link
    by (cases "isCurrent i s") (auto simp: requestRefused_def link_outputs_append)
qed

lemma publish_next_link:
  assumes "shadow_inv s" and "i < length (sh_connections s)"
  shows "shadow_inv (snd (publishNext i ds s))"
    "link_outputs (fst (publishNext i ds s)) (link_of s) = Some (link_of (snd (publishNext i ds s)))"
proof -
  have live: "shadow_inv ((modify_connection i (\<lambda>c. c\<lparr>cn_live := True\<rparr>) s)\<lparr>sh_retry := retry_reset (sh_retry s)\<rparr>)"
    if "isCurrent i s"
  proof (rule inv_frame(1))
    show "shadow_inv (modify_connection i (\<lambda>c. c\<lparr>cn_live := True\<rparr>) s)"
      using assms that by (auto simp: isCurrent_def intro!: inv_modify)
    show "retry_phase (retry_reset (sh_retry s)) \<noteq> Running"
      using assms(1) by (simp add: shadow_inv_def Let_def retry_reset_def)
  qed
  show "shadow_inv (snd (publishNext i ds s))"
    using assms live by (cases ds) (auto simp: publishNext_def, auto simp: shadow_inv_def Let_def)
  show "link_outputs (fst (publishNext i ds s)) (link_of s) = Some (link_of (snd (publishNext i ds s)))"
    using assms by (cases ds) (auto simp: publishNext_def link_of_def isCurrent_def modify_connection_def
        nth_list_update split: option.split)
qed

lemma request_settled_link:
  assumes "shadow_inv s" and "n < length (sh_requests s)"
  shows "shadow_inv (snd (requestSettled n ev s))"
    "link_outputs (fst (requestSettled n ev s)) (link_of s) = Some (link_of (snd (requestSettled n ev s)))"
proof -
  let ?s = "s\<lparr>sh_requests := take n (sh_requests s) @ drop (Suc n) (sh_requests s)\<rparr>"
  have i: "shadow_inv ?s" "link_of ?s = link_of s"
    using assms(1) link_of_frame by (auto simp: shadow_inv_def Let_def dest: in_set_takeD in_set_dropD)
  have r: "rq_connection (sh_requests s ! n) < length (sh_connections ?s)"
    using assms by (auto simp: shadow_inv_def Let_def)
  show "shadow_inv (snd (requestSettled n ev s))"
    using publish_next_link(1) [OF i(1) r] request_refused_link(1) [OF i(1) r]
    by (auto simp: requestSettled_def Let_def split: operation.split)
  show "link_outputs (fst (requestSettled n ev s)) (link_of s) = Some (link_of (snd (requestSettled n ev s)))"
    using publish_next_link(2) [OF i(1) r] request_refused_link(2) [OF i(1) r]
    by (auto simp: requestSettled_def Let_def i(2) split: operation.split)
qed

lemma connect_link:
  assumes "shadow_inv s" and "i < length (sh_connections s)"
  shows "shadow_inv (note_connected i s)" "link_of (note_connected i s) = link_of s"
    "shadow_inv (snd (handleConnect i s))"
    "link_outputs (fst (handleConnect i s)) (link_of s) = Some (link_of (snd (handleConnect i s)))"
proof -
  show "shadow_inv (note_connected i s)"
    using assms by (auto simp: note_connected_def intro!: inv_modify)
  show "link_of (note_connected i s) = link_of s"
    using assms by (auto simp: note_connected_def link_of_def modify_connection_def nth_list_update split: option.split)
  let ?s = "modify_connection i (\<lambda>c. c\<lparr>cn_established := True\<rparr>) s"
  have "shadow_inv ?s" using assms by (auto intro!: inv_modify)
  moreover have "link_of ?s = link_of s"
    using assms by (auto simp: link_of_def modify_connection_def nth_list_update split: option.split)
  ultimately show "shadow_inv (snd (handleConnect i s))"
    "link_outputs (fst (handleConnect i s)) (link_of s) = Some (link_of (snd (handleConnect i s)))"
    using assms by (auto simp: handleConnect_def requestEveryShadow_def link_of_frame)
      (auto simp: shadow_inv_def Let_def modify_connection_def)
qed

lemma open_link:
  assumes "shadow_inv s" and "openConnection scheme answer s = (outs, failure, s')"
  shows "shadow_inv s'" "link_outputs outs (link_of s) = Some (link_of s')"
    "sh_closing s' = sh_closing s" "sh_retry s' = sh_retry s"
    "link_of s' = Held False \<or> link_of s' = link_of s \<and> (link_of s = Shut \<or> (\<exists>e. answer = Inl e))"
proof -
  define i where "i = length (sh_connections s)"
  define s1 where "s1 = s\<lparr>sh_connections := sh_connections s @ [\<lparr>cn_transport = createMqttTransport,
      cn_established = False, cn_live = False, cn_released = False\<rparr>], sh_connection := Some i\<rparr>"
  have fresh: "link_of s1 = (if sh_closing s then Shut else Held False)"
    by (simp add: s1_def link_of_def i_def)
  have all: "shadow_inv s' \<and> link_outputs outs (link_of s) = Some (link_of s')
      \<and> sh_closing s' = sh_closing s \<and> sh_retry s' = sh_retry s
      \<and> (link_of s' = Held False \<or> link_of s' = link_of s \<and> (link_of s = Shut \<or> (\<exists>e. answer = Inl e)))"
  proof (cases "sh_closing s \<or> (\<exists>e. answer = Inl e)")
    case True
    then show ?thesis using assms by (auto simp: openConnection_def link_of_def split: if_splits)
  next
    case False
    then obtain current where a: "answer = Inr current" and nc: "\<not> sh_closing s"
      by (cases answer) auto
    have l: "link_of s \<noteq> Shut" using nc by (simp add: link_of_def split: option.split)
    show ?thesis
    proof (cases "sh_connection s")
      case None
      have "shadow_inv s1"
        using assms(1) None nc by (auto simp: shadow_inv_def Let_def s1_def i_def)
      then show ?thesis
        using assms(2) None a nc l fresh by (auto simp: openConnection_def Let_def s1_def i_def)
    next
      case (Some j)
      then have j: "Suc j = i" "j < length (sh_connections s1)" "sh_connections s1 ! j = sh_connections s ! j"
        using assms(1) by (auto simp: shadow_inv_def Let_def i_def s1_def nth_append)
      have old: "tp_ended (cn_transport (sh_connections s ! k))" if "k < length (sh_connections s)" "k \<noteq> j" for k
        using assms(1) that Some j(1) by (auto simp: shadow_inv_def Let_def i_def)
      have e: "(outs, failure, s') = (OpenTransport i (scheme @ ''://'' @ sc_endpoint current @ BROKER_PATH)
          (sc_clientId current) # fst (transport_end j s1), None, snd (transport_end j s1))"
        using assms(2) Some a nc by (simp add: openConnection_def Let_def s1_def i_def split: prod.splits)
      have n: "link_of (snd (transport_end j s1)) = Held False"
        "link_outputs (fst (transport_end j s1)) l = Some l" for l
        using fresh nc j by (auto simp: transport_end_def Let_def link_of_def modify_connection_def s1_def
            nth_list_update nth_append i_def)
      have "shadow_inv (snd (transport_end j s1))"
        using assms(1) old j Some nc
        by (auto simp: transport_end_def Let_def shadow_inv_def modify_connection_def s1_def i_def
            nth_list_update nth_append less_Suc_eq dest!: set_update_subset_insert [THEN subsetD])
      then show ?thesis
        using e n l nc by (auto simp: transport_end_def Let_def modify_connection_def s1_def)
    qed
  qed
  then show "shadow_inv s'" "link_outputs outs (link_of s) = Some (link_of s')"
    "sh_closing s' = sh_closing s" "sh_retry s' = sh_retry s"
    "link_of s' = Held False \<or> link_of s' = link_of s \<and> (link_of s = Shut \<or> (\<exists>e. answer = Inl e))"
    by blast+
qed

lemma close_link:
  assumes "shadow_inv s" and "shadow_close s = (outs, s')"
  shows "shadow_inv s'" "link_outputs outs l = Some l" "sh_closing s'"
proof -
  let ?s = "s\<lparr>sh_closing := True, sh_ending := True\<rparr>"
  have "shadow_inv s' \<and> link_outputs outs l = Some l \<and> sh_closing s'"
  proof (cases "sh_ending s \<or> sh_connection s = None")
    case True
    then have "s' = ?s" "outs = []" using assms(2) by (auto simp: shadow_close_def Let_def split: if_splits)
    then show ?thesis using assms(1) True by (auto simp: shadow_inv_def Let_def split: option.splits)
  next
    case False
    then obtain i where i: "sh_connection s = Some i" and n: "\<not> sh_ending s" by auto
    then have e: "(outs, s') = transport_end i ?s"
      using assms(2) by (simp add: shadow_close_def Let_def)
    have r: "Suc i = length (sh_connections s)" and old: "\<And>k. k < length (sh_connections s) \<Longrightarrow> k \<noteq> i
        \<Longrightarrow> tp_ended (cn_transport (sh_connections s ! k))"
      using assms(1) i by (auto simp: shadow_inv_def Let_def)
    have m: "s' = (if tp_ended (cn_transport (sh_connections s ! i)) then ?s else modify_connection i (\<lambda>c. c\<lparr>cn_transport :=
        (cn_transport (sh_connections s ! i))\<lparr>tp_ended := True\<rparr>\<rparr>) ?s)"
      using e by (simp add: transport_end_def Let_def split: if_splits)
    have "shadow_inv s'"
      using assms(1) old r i unfolding m
      by (auto simp: shadow_inv_def Let_def modify_connection_def nth_list_update
          dest!: set_update_subset_insert [THEN subsetD])
    then show ?thesis using e by (auto simp: transport_end_def Let_def modify_connection_def split: if_splits)
  qed
  then show "shadow_inv s'" "link_outputs outs l = Some l" "sh_closing s'" by blast+
qed

lemma reopen_link:
  assumes "shadow_inv s" and "shadow_reopen scheme answer s = (outs, s')"
  shows "shadow_inv s'" "link_outputs outs (link_of s) = Some (link_of s')"
    "link_of s' = Lost \<Longrightarrow> \<exists>e. answer = Inl e"
proof -
  obtain os f s1 where o: "openConnection scheme answer s = (os, f, s1)" using prod_cases3 by blast
  note l = open_link [OF assms(1) o]
  have e: "outs = os @ (case f of None \<Rightarrow> [] | Some _ \<Rightarrow> [ShadowLog (LDebug ''A scheduled retry attempt failed.'')])"
    "s' = s1\<lparr>sh_retry := (sh_retry s1)\<lparr>retry_phase := Idle\<rparr>\<rparr>"
    using assms(2) o by (simp_all add: shadow_reopen_def)
  show "shadow_inv s'" using l e by (auto intro!: inv_frame)
  show "link_outputs outs (link_of s) = Some (link_of s')"
    using l e by (auto simp: link_outputs_append link_of_frame split: option.split)
  show "link_of s' = Lost \<Longrightarrow> \<exists>e. answer = Inl e"
    using l(5) e(2) by (auto simp: link_of_frame)
qed

lemma start_link:
  assumes "shadow_inv s" and "shadow_start scheme ids answer s = (outs, failure, s')"
  shows "shadow_inv s'" "link_outputs outs (link_of s) = Some (link_of s')" "sh_retry s' = sh_retry s"
    "link_of s' = link_of s \<or> link_of s' \<noteq> Lost"
proof -
  obtain logged usable where u: "usableDevices ids = (logged, usable)" by fastforce
  let ?s = "s\<lparr>sh_devices := usable, sh_routes := fillRoutes usable\<rparr>"
  obtain os where o: "openConnection scheme answer ?s = (os, failure, s')" and e: "outs = map ShadowLog logged @ os"
    using assms(2) u by (auto simp: shadow_start_def split: prod.splits)
  have i: "shadow_inv ?s" "link_of ?s = link_of s"
    using assms(1) by (auto simp: shadow_inv_def Let_def link_of_frame)
  have q: "link_outputs (map ShadowLog logged) l = Some l" for l by (induction logged) auto
  show "shadow_inv s'" "link_outputs outs (link_of s) = Some (link_of s')" "sh_retry s' = sh_retry s"
    "link_of s' = link_of s \<or> link_of s' \<noteq> Lost"
    using open_link [OF i(1) o] i(2) e q by (auto simp: link_outputs_append)
qed

lemma message_link:
  assumes "isCurrent i s"
  shows "link_outputs (handleMessage topic payload s) (link_of s) = Some (link_of s)"
  using assms by (auto simp: handleMessage_def link_of_def isCurrent_def split: option.splits)

lemma when_current_link:
  assumes "shadow_inv s" and "when_current i f s = (outs, s')"
    and "isCurrent i s \<Longrightarrow> f s = (outs, s') \<Longrightarrow> shadow_inv s' \<and> link_outputs outs (link_of s) = Some (link_of s')"
  shows "shadow_inv s' \<and> link_outputs outs (link_of s) = Some (link_of s')"
  using assms by (cases "isCurrent i s") (auto simp: when_current_def)

lemma step_link:
  assumes "shadow_inv s" and "shadow_enabled e s" and "shadow_step scheme e s = (outs, s')"
  shows "shadow_inv s' \<and> link_event (e, outs) (link_of s) = Some (link_of s')"
proof -
  have "shadow_inv s' \<and> link_outputs outs (link_of s) = Some (link_of s')" if "e \<noteq> CloseCalled"
  proof (cases e)
    case (StartCalled ids answer)
    then show ?thesis using assms(1,3) start_link [of s] by (auto split: prod.splits)
  next
    case (TransportConnected i)
    then have i: "i < length (sh_connections s)" and w: "when_current i (handleConnect i) (note_connected i s) = (outs, s')"
      using assms(2,3) by auto
    note c = connect_link [OF assms(1) i]
    have "i < length (sh_connections (note_connected i s))"
      using i by (simp add: note_connected_def modify_connection_def)
    from connect_link(3,4) [OF c(1) this] when_current_link [OF c(1) w] show ?thesis
      using c(2) by (metis fst_conv snd_conv)
  next
    case (MessageArrived i topic payload)
    then show ?thesis
      using assms when_current_link [OF assms(1), of i] message_link by fastforce
  next
    case (TransportFailed i)
    then show ?thesis using assms when_current_link [OF assms(1), of i] give_up_link(1) by fastforce
  next
    case (TransportClosing i)
    then show ?thesis using assms when_current_link [OF assms(1), of i] give_up_link(2) by fastforce
  next
    case (OperationSettled n event)
    then show ?thesis using assms request_settled_link [OF assms(1), of n event] by auto
  next
    case (RetryElapsed answer)
    then show ?thesis using assms reopen_link [OF assms(1)] by auto
  next
    case RetryAborted
    then show ?thesis using assms by (auto simp: link_of_frame intro!: inv_frame)
  next
    case (HandshakeSigned i current signing)
    then show ?thesis using assms by (auto simp: signHandshake_def)
  qed (use that in simp)
  moreover have "shadow_inv s' \<and> link_event (e, outs) (link_of s) = Some (link_of s')" if "e = CloseCalled"
    using that assms close_link [OF assms(1)] by (auto simp: link_of_def)
  ultimately show ?thesis by (cases "e = CloseCalled") auto
qed

lemma run_link: "shadow_run scheme tr s \<Longrightarrow> shadow_inv s \<and> link_trace tr Unopened = Some (link_of s)"
proof (induction rule: shadow_run.induct)
  case created
  then show ?case
    by (simp add: shadow_inv_def createShadowClient_def link_of_def createRetryPolicy_def)
next
  case (snoc tr s e outs s')
  then show ?case using step_link [of s e scheme outs s'] by (simp add: link_trace_snoc)
qed

text \<open>
  C22. What the client reports is the life of its latest connection. Over any run of its calls, broker
  events and retries, every announcement, message and loss comes from a connection that is still held:
  after one loss nothing more is reported until the next opening, after a shutdown nothing is opened or
  reported at all, and \<open>connected\<close> answers true exactly when the latest connection was announced and
  neither lost, replaced nor shut down.
\<close>

theorem reports_follow_the_link:
  assumes "shadow_run scheme tr s"
  shows "link_trace tr Unopened = Some (link_of s) \<and> sh_connected s = (link_of s = Held True)"
proof -
  have i: "shadow_inv s" and l: "link_trace tr Unopened = Some (link_of s)"
    using run_link [OF assms] by blast+
  have "sh_connected s = (link_of s = Held True)"
  proof (cases "sh_connection s")
    case (Some j)
    then have "sh_connections s ! j \<in> set (sh_connections s)" using current_in_range [OF i] by simp
    then have "\<not> (cn_live (sh_connections s ! j) \<and> cn_released (sh_connections s ! j))"
      using i by (auto simp: shadow_inv_def Let_def)
    then show ?thesis using Some by (auto simp: sh_connected_def link_of_def)
  qed (simp add: sh_connected_def link_of_def)
  with l show ?thesis by blast
qed

section \<open>Retries\<close>

definition kept_alive :: "shadowClient \<Rightarrow> bool" where
  "kept_alive s = (link_of s = Lost \<longrightarrow> retry_pending (sh_retry s))"

text \<open>The only events that can end a chain of retries: the abort of a wait, and an opening that throws.\<close>

fun ends_retries :: "shadowEvent \<Rightarrow> bool" where
  "ends_retries RetryAborted = True"
| "ends_retries (RetryElapsed (Inl e)) = True"
| "ends_retries _ = False"

lemma schedule_pending: "retry_pending (retry_schedule m p)"
  by (simp add: retry_schedule_def nextDelayMs_def Let_def retry_pending_def)

lemma reset_pending: "retry_pending (retry_reset p) = retry_pending p"
  by (simp add: retry_pending_def retry_reset_def)

lemma reconnect_alive: "kept_alive (scheduleReconnect s)"
  by (simp add: kept_alive_def scheduleReconnect_def schedule_pending)

lemma kept_frame:
  assumes "kept_alive s" and "link_of s' = link_of s \<or> link_of s' \<noteq> Lost" and "sh_retry s' = sh_retry s"
  shows "kept_alive s'"
  using assms by (auto simp: kept_alive_def)

lemma settled_alive:
  assumes "shadow_inv s" and "n < length (sh_requests s)" and "kept_alive s"
  shows "kept_alive (snd (requestSettled n ev s))"
proof -
  let ?s = "s\<lparr>sh_requests := take n (sh_requests s) @ drop (Suc n) (sh_requests s)\<rparr>"
  have k: "kept_alive ?s" using assms(3) by (rule kept_frame) (simp_all add: link_of_frame)
  have "kept_alive (snd (publishNext i ds ?s))" for i ds
    using k current_in_range [OF assms(1)]
    by (cases ds) (auto simp: publishNext_def kept_alive_def link_of_def isCurrent_def
        modify_connection_def nth_list_update reset_pending split: option.splits if_splits)
  moreover have "kept_alive (snd (requestRefused i ?s))" for i
    using k by (auto simp: requestRefused_def reconnect_alive split: prod.splits)
  ultimately show ?thesis
    by (auto simp: requestSettled_def Let_def split: operation.split)
qed

lemma when_current_alive:
  assumes "kept_alive s" and "when_current i f s = (outs, s')"
    and "f s = (outs, s') \<Longrightarrow> kept_alive s'"
  shows "kept_alive s'"
  using assms by (auto simp: when_current_def split: if_splits)

lemma step_alive:
  assumes "shadow_inv s" and "shadow_enabled e s" and "shadow_step scheme e s = (outs, s')"
    and "kept_alive s" and "\<not> ends_retries e"
  shows "kept_alive s'"
proof (cases e)
  case (StartCalled ids answer)
  then obtain failure where o: "shadow_start scheme ids answer s = (outs, failure, s')"
    using assms(3) by (auto split: prod.splits)
  show ?thesis
    by (rule kept_frame [OF assms(4) start_link(4,3) [OF assms(1) o]])
next
  case CloseCalled
  then show ?thesis
    using assms close_link [OF assms(1)] by (auto simp: kept_alive_def link_of_def)
next
  case (TransportConnected i)
  then have i: "i < length (sh_connections s)" and w: "when_current i (handleConnect i) (note_connected i s) = (outs, s')"
    using assms(2,3) by auto
  have n: "kept_alive (note_connected i s)"
    using connect_link(2) [OF assms(1) i] by (intro kept_frame [OF assms(4)])
      (auto simp: note_connected_def modify_connection_def)
  have "kept_alive (snd (handleConnect i (note_connected i s)))" if "isCurrent i (note_connected i s)"
    using n that i by (auto simp: handleConnect_def requestEveryShadow_def kept_alive_def link_of_def isCurrent_def
        note_connected_def modify_connection_def nth_list_update split: option.splits if_splits)
  with w n show ?thesis by (auto simp: when_current_def split: if_splits)
next
  case (MessageArrived i topic payload)
  then show ?thesis using assms(3,4) when_current_alive [of s i] by fastforce
next
  case (TransportFailed i)
  then show ?thesis
    using assms(3,4) by (auto simp: when_current_def handleError_def reconnect_alive split: if_splits prod.splits)
next
  case (TransportClosing i)
  then show ?thesis
    using assms(3,4) by (auto simp: when_current_def handleClose_def Let_def reconnect_alive
        split: if_splits prod.splits)
next
  case (OperationSettled n event)
  then show ?thesis using assms settled_alive [OF assms(1), of n event] by auto
next
  case (RetryElapsed answer)
  then show ?thesis
    using assms reopen_link(3) [OF assms(1), of scheme answer outs s'] by (cases answer) (auto simp: kept_alive_def)
next
  case RetryAborted
  then show ?thesis using assms(5) by simp
next
  case (HandshakeSigned i current signing)
  then show ?thesis using assms by (auto simp: signHandshake_def)
qed

text \<open>
  The client never strands. After any run in which no wait was aborted and no reopening threw, a
  client whose latest connection was lost, by an error, a close, a refused handshake or a refused
  subscription, has a retry under way, so another opening will follow.
\<close>

theorem lost_connection_is_retried:
  assumes "shadow_run scheme tr s" and "\<forall>x. x \<in> set tr \<longrightarrow> \<not> ends_retries (fst x)"
  shows "link_of s = Lost \<longrightarrow> retry_pending (sh_retry s)"
proof -
  have "kept_alive s"
    using assms
  proof (induction rule: shadow_run.induct)
    case created
    then show ?case by (simp add: kept_alive_def link_of_def createShadowClient_def)
  next
    case (snoc tr s e outs s')
    then show ?case using run_link step_alive [of s e scheme outs s'] by fastforce
  qed
  then show ?thesis by (simp add: kept_alive_def)
qed

section \<open>Shutdown\<close>

fun announces :: "shadowOutput \<Rightarrow> bool" where
  "announces (OpenTransport i url name) = True"
| "announces ShadowUp = True"
| "announces (ShadowDown reason) = True"
| "announces (Reported d p) = True"
| "announces _ = False"

lemma shut_is_quiet: "link_outputs outs Shut = Some l \<Longrightarrow> \<not> list_ex announces outs \<and> l = Shut"
proof (induction outs)
  case (Cons x outs)
  then show ?case by (cases x) auto
qed simp

text \<open>
  C27. A shutdown is complete and final. Once \<open>close\<close> was called, every transport the client ever opened
  has been ended, and no later event, a connection, a message, a failure, the end of an operation, a
  retry or a second start, opens a transport, reports a patch or announces or reports the loss of a connection.
\<close>

theorem closed_client_leaves_no_socket:
  assumes "shadow_run scheme tr s" and "sh_closing s"
    and "shadow_enabled e s" and "shadow_step scheme e s = (outs, s')"
  shows "(\<forall>i < length (sh_connections s). tp_ended (cn_transport (sh_connections s ! i)))
    \<and> sh_closing s' \<and> \<not> list_ex announces outs"
proof -
  have i: "shadow_inv s" using run_link [OF assms(1)] by blast
  have l: "link_of s = Shut" using assms(2) by (simp add: link_of_def)
  have "link_event (e, outs) Shut = Some (link_of s')"
    using step_link [OF i assms(3,4)] l by simp
  then obtain l' where o: "link_outputs outs Shut = Some l'" and "link_of s' = Shut"
    by (auto dest: shut_is_quiet split: if_splits)
  then have "sh_closing s'" by (auto simp: link_of_def split: option.splits if_splits)
  then show ?thesis
    using i assms(2) shut_is_quiet [OF o] by (auto simp: shadow_inv_def Let_def)
qed


section \<open>Runs that exist\<close>

fun shadow_play ::
  "string \<Rightarrow> shadowEvent list \<Rightarrow> (shadowEvent \<times> shadowOutput list) list \<times> shadowClient
    \<Rightarrow> ((shadowEvent \<times> shadowOutput list) list \<times> shadowClient) option" where
  "shadow_play scheme [] r = Some r"
| "shadow_play scheme (e # es) (tr, s) =
    (if shadow_enabled e s
     then case shadow_step scheme e s of (outs, s') \<Rightarrow> shadow_play scheme es (tr @ [(e, outs)], s')
     else None)"

lemma shadow_play_run:
  "shadow_play scheme es (tr, s) = Some (tr', s') \<Longrightarrow> shadow_run scheme tr s \<Longrightarrow> shadow_run scheme tr' s'"
  by (induction es arbitrary: tr s) (auto split: if_splits prod.splits intro: shadow_run.snoc)

lemmas shadow_run_defs = createShadowClient_def shadow_start_def usableDevices_def has_wildcard_def
  fillRoutes_def openConnection_def transport_end_def modify_connection_def createMqttTransport_def
  when_current_def isCurrent_def note_connected_def handleConnect_def requestEveryShadow_def requestSettled_def
  publishNext_def handleError_def handleClose_def handleMessage_def release_def scheduleReconnect_def shadow_reopen_def
  shadow_close_def retry_schedule_def nextDelayMs_def retry_reset_def retry_pending_def createRetryPolicy_def
  MAX_BACKOFF_MS_def FIRST_RETRY_DELAY_MS_def BROKER_PATH_def topic_get_def

definition demo_credentials :: shadowCredentials where
  "demo_credentials = \<lparr>sc_endpoint = ''broker'', sc_clientId = ''one'', sc_accessKeyId = [],
     sc_secretAccessKey = [], sc_sessionToken = []\<rparr>"

definition demo_up :: "shadowEvent list" where
  "demo_up = [StartCalled [''a''] (Inr demo_credentials), TransportConnected 0,
     OperationSettled 0 (Callback None), OperationSettled 0 (Callback None)]"

definition demo_client :: "bool \<Rightarrow> shadowClient" where
  "demo_client lost = \<lparr>sh_routes = fillRoutes [''a''], sh_devices = [''a''],
     sh_connections = [\<lparr>cn_transport = \<lparr>tp_connected = True, tp_ended = False\<rparr>, cn_established = True,
       cn_live = \<not> lost, cn_released = lost\<rparr>],
     sh_connection = Some 0, sh_closing = False, sh_ending = False, sh_requests = [],
     sh_retry = \<lparr>retry_attempt = (if lost then 1 else 0),
       retry_phase = (if lost then RetryPolicy.Waiting 500 else Idle)\<rparr>\<rparr>"

definition demo_trace :: "(shadowEvent \<times> shadowOutput list) list" where
  "demo_trace = [(StartCalled [''a''] (Inr demo_credentials), [OpenTransport 0 ''wss://broker/mqtt'' ''one'']),
     (TransportConnected 0, [SubscribeTopics 0 (jm_keys (fillRoutes [''a'']))]),
     (OperationSettled 0 (Callback None), [PublishTopic 0 (topic_get ''a'')]),
     (OperationSettled 0 (Callback None), [ShadowUp])]"

lemma demo_up_run: "shadow_run ''wss'' demo_trace (demo_client False)"
proof (rule shadow_play_run [OF _ shadow_run.created])
  show "shadow_play ''wss'' demo_up ([], createShadowClient) = Some (demo_trace, demo_client False)"
    by (simp add: demo_up_def demo_trace_def demo_client_def demo_credentials_def shadow_run_defs)
qed

definition demo_lost_trace :: "(shadowEvent \<times> shadowOutput list) list" where
  "demo_lost_trace = demo_trace @ [(TransportFailed 0,
     [ShadowLog (LDebug ''The shadow connection failed and will reconnect.''), ShadowDown TransportError])]"

lemma demo_lost_run: "shadow_run ''wss'' demo_lost_trace (demo_client True)"
  unfolding demo_lost_trace_def
  by (rule shadow_run.snoc [OF demo_up_run]) (simp_all add: demo_client_def shadow_run_defs)


theorem reports_follow_the_link_witness:
  "link_trace demo_lost_trace Unopened = Some (link_of (demo_client True))
    \<and> sh_connected (demo_client True) = (link_of (demo_client True) = Held True)"
  by (rule reports_follow_the_link [OF demo_lost_run])

theorem lost_connection_is_retried_witness: "retry_pending (sh_retry (demo_client True))"
proof -
  have "link_of (demo_client True) = Lost" by (simp add: link_of_def demo_client_def)
  moreover have "\<forall>x. x \<in> set demo_lost_trace \<longrightarrow> \<not> ends_retries (fst x)"
    by (auto simp: demo_lost_trace_def demo_trace_def)
  ultimately show ?thesis using lost_connection_is_retried [OF demo_lost_run] by blast
qed

definition demo_closed :: shadowClient where
  "demo_closed = snd (shadow_close (demo_client False))"

lemma demo_closed_run:
  "shadow_run ''wss'' (demo_trace @ [(CloseCalled, [EndTransport 0 False])]) demo_closed"
  by (rule shadow_run.snoc [OF demo_up_run]) (simp_all add: demo_closed_def demo_client_def shadow_run_defs)

theorem closed_client_leaves_no_socket_witness:
  "sh_connections demo_closed \<noteq> [] \<and> tp_ended (cn_transport (sh_connections demo_closed ! 0))
    \<and> \<not> list_ex announces (fst (shadow_step ''wss'' (StartCalled [''a''] (Inr demo_credentials)) demo_closed))"
proof -
  have "sh_closing demo_closed" "length (sh_connections demo_closed) = 1"
    by (simp_all add: demo_closed_def demo_client_def shadow_run_defs)
  then show ?thesis
    using closed_client_leaves_no_socket [OF demo_closed_run, of "StartCalled [''a''] (Inr demo_credentials)"]
    by (auto simp: prod_eq_iff)
qed

text \<open>
  C39. A start that finds a retry waiting does not cancel it. When the wait elapses the client opens
  a third connection, ends the healthy second one and reports nothing: a consumer that was told the
  link is up is not told that it went, although \<open>connected\<close> answers false.
\<close>

theorem pending_retry_drops_a_healthy_link:
  "\<exists>tr s outs s'. shadow_run ''wss'' tr s \<and> sh_connected s \<and> link_trace tr Unopened = Some (Held True)
    \<and> shadow_enabled (RetryElapsed (Inr demo_credentials)) s
    \<and> shadow_step ''wss'' (RetryElapsed (Inr demo_credentials)) s = (outs, s')
    \<and> \<not> sh_connected s' \<and> EndTransport 1 False \<in> set outs \<and> (\<forall>reason. ShadowDown reason \<notin> set outs)"
proof -
  let ?es = "[StartCalled [''b''] (Inr demo_credentials), TransportConnected 1,
    OperationSettled 0 (Callback None), OperationSettled 0 (Callback None)]"
  obtain tr s where p: "shadow_play ''wss'' ?es (demo_lost_trace, demo_client True) = Some (tr, s)"
    and k: "sh_connected s" "shadow_enabled (RetryElapsed (Inr demo_credentials)) s"
      "\<not> sh_connected (snd (shadow_step ''wss'' (RetryElapsed (Inr demo_credentials)) s))"
      "EndTransport 1 False \<in> set (fst (shadow_step ''wss'' (RetryElapsed (Inr demo_credentials)) s))"
      "\<And>reason. ShadowDown reason \<notin> set (fst (shadow_step ''wss'' (RetryElapsed (Inr demo_credentials)) s))"
    by (simp add: demo_client_def demo_credentials_def shadow_run_defs sh_connected_def)
  have r: "shadow_run ''wss'' tr s" by (rule shadow_play_run [OF p demo_lost_run])
  have i: "shadow_inv s" "link_trace tr Unopened = Some (link_of s)" using run_link [OF r] by blast+
  have "link_of s = Held True"
    using k(1) i(1) current_in_range [OF i(1)]
    by (auto simp: sh_connected_def link_of_def shadow_inv_def Let_def split: option.splits)
  with r k i show ?thesis by (metis prod.collapse)
qed

section \<open>Messages\<close>

lemma topics_apart:
  "topic_getAccepted d = topic_getAccepted e \<longleftrightarrow> d = e" "topic_getRejected d = topic_getRejected e \<longleftrightarrow> d = e"
  "topic_updateAccepted d = topic_updateAccepted e \<longleftrightarrow> d = e"
  "topic_getAccepted d \<noteq> topic_getRejected e" "topic_getRejected d \<noteq> topic_getAccepted e"
  "topic_getAccepted d \<noteq> topic_updateAccepted e" "topic_updateAccepted d \<noteq> topic_getAccepted e"
  "topic_getRejected d \<noteq> topic_updateAccepted e" "topic_updateAccepted d \<noteq> topic_getRejected e"
proof -
  have r: "rev x \<noteq> rev y \<Longrightarrow> x \<noteq> y" for x y :: string by auto
  show "topic_getAccepted d = topic_getAccepted e \<longleftrightarrow> d = e" "topic_getRejected d = topic_getRejected e \<longleftrightarrow> d = e"
    "topic_updateAccepted d = topic_updateAccepted e \<longleftrightarrow> d = e"
    by (simp_all add: topic_getAccepted_def topic_getRejected_def topic_updateAccepted_def)
  show "topic_getAccepted d \<noteq> topic_getRejected e" "topic_getRejected d \<noteq> topic_getAccepted e"
    "topic_getAccepted d \<noteq> topic_updateAccepted e" "topic_updateAccepted d \<noteq> topic_getAccepted e"
    "topic_getRejected d \<noteq> topic_updateAccepted e" "topic_updateAccepted d \<noteq> topic_getRejected e"
    by (rule r, simp add: topic_getAccepted_def topic_getRejected_def topic_updateAccepted_def)+
qed

definition routes_to :: "string list \<Rightarrow> string \<Rightarrow> shadowRoute \<Rightarrow> bool" where
  "routes_to ids topic route = (route_deviceId route \<in> set ids \<and> (case route_leaf route of
      LeafAccepted \<Rightarrow> topic \<in> {topic_getAccepted (route_deviceId route), topic_updateAccepted (route_deviceId route)}
    | LeafRejected \<Rightarrow> topic = topic_getRejected (route_deviceId route)))"

lemma fillRoutes_get: "jm_get (fillRoutes ids) topic = Some route \<longleftrightarrow> routes_to ids topic route"
proof (induction ids arbitrary: route rule: rev_induct)
  case Nil
  then show ?case by (simp add: fillRoutes_def routes_to_def)
next
  case (snoc d ids)
  have "jm_get (fillRoutes (ids @ [d])) topic =
    (if topic = topic_updateAccepted d \<or> topic = topic_getAccepted d then Some \<lparr>route_deviceId = d, route_leaf = LeafAccepted\<rparr>
     else if topic = topic_getRejected d then Some \<lparr>route_deviceId = d, route_leaf = LeafRejected\<rparr>
     else jm_get (fillRoutes ids) topic)"
    by (auto simp: fillRoutes_def topics_apart)
  then show ?case
    using snoc.IH [of route] by (cases route; cases "route_leaf route")
      (auto simp: routes_to_def topics_apart)
qed


lemma topics_of_usable: "routes_to ids topic route \<Longrightarrow> routes_to ids topic route' \<Longrightarrow> route = route'"
  using fillRoutes_get by (metis option.inject)

text \<open>
  A topic belongs to one device. Among the identifiers the client was given, those with an MQTT wildcard
  are left out with one warning; a topic is subscribed exactly when it is routed, and it routes to a device
  exactly when it is one of that device's two accepted topics or its rejected one, so
  no identifier, whatever text it holds, can receive the messages of another.
\<close>

theorem topic_belongs_to_one_device:
  "let (logged, usable) = usableDevices ids; routes = fillRoutes usable
   in set usable = {d \<in> set ids. CHR ''+'' \<notin> set d \<and> CHR ''#'' \<notin> set d}
    \<and> (logged = [] \<longleftrightarrow> set usable = set ids)
    \<and> distinct (jm_keys routes)
    \<and> (topic \<in> set (jm_keys routes) \<longleftrightarrow> (\<exists>route. routes_to usable topic route))
    \<and> (jm_get routes topic = Some route \<longleftrightarrow> routes_to usable topic route)"
proof -
  have w: "has_wildcard d \<longleftrightarrow> CHR ''+'' \<in> set d \<or> CHR ''#'' \<in> set d" for d
    by (auto simp: has_wildcard_def list_ex_iff)
  let ?u = "filter (\<lambda>d. \<not> has_wildcard d) ids"
  have s: "set ?u = {d \<in> set ids. CHR ''+'' \<notin> set d \<and> CHR ''#'' \<notin> set d}" by (auto simp: w)
  have l: "length ?u \<noteq> length ids \<longleftrightarrow> set ?u \<noteq> set ids"
  proof (cases "\<forall>d \<in> set ids. \<not> has_wildcard d")
    case False
    then show ?thesis using length_filter_less [of _ ids "\<lambda>d. \<not> has_wildcard d"] by auto
  qed simp
  have d: "jm_wf (fillRoutes us)" for us
    unfolding fillRoutes_def by (induction us rule: rev_induct) (auto intro!: jm.wf_put)
  have k: "topic \<in> set (jm_keys (fillRoutes ?u)) \<longleftrightarrow> (\<exists>route. routes_to ?u topic route)"
    using fillRoutes_get [of ?u topic] by (auto simp: jm_has_iff [symmetric] jm_has_def)
  show ?thesis
    using s l d [of ?u] k fillRoutes_get [of ?u topic route]
    by (simp add: usableDevices_def Let_def jm_wf_def jm_keys_def)
qed

definition routing :: "shadowClient \<Rightarrow> (string, shadowRoute) jsmap \<times> string list" where
  "routing s = (sh_routes s, sh_devices s)"

lemma routing_frame:
  "routing (modify_connection i f s) = routing s" "routing (s\<lparr>sh_retry := p\<rparr>) = routing s"
  "routing (s\<lparr>sh_requests := rs\<rparr>) = routing s"
  by (simp_all add: routing_def modify_connection_def)

lemma open_routing: "openConnection scheme answer s = (outs, failure, s') \<Longrightarrow> routing s' = routing s"
  by (auto simp: openConnection_def Let_def transport_end_def routing_frame split: if_splits sum.splits option.splits
      prod.splits) (simp_all add: routing_def)

lemma step_routing:
  assumes "shadow_step scheme e s = (outs, s')"
  shows "routing s' = routing s \<or> (\<exists>ids answer. e = StartCalled ids answer
    \<and> routing s' = (fillRoutes (snd (usableDevices ids)), snd (usableDevices ids)))"
proof (cases e)
  case (StartCalled ids answer)
  then obtain os failure where
    "openConnection scheme answer (s\<lparr>sh_devices := snd (usableDevices ids), sh_routes := fillRoutes (snd (usableDevices ids))\<rparr>)
      = (os, failure, s')"
    using assms by (auto simp: shadow_start_def split: prod.splits)
  from open_routing [OF this] StartCalled show ?thesis by (auto simp: routing_def)
next
  case (RetryElapsed answer)
  then show ?thesis
    using assms by (auto simp: shadow_reopen_def routing_frame dest!: open_routing split: prod.splits)
next
  case (OperationSettled n event)
  then show ?thesis
    using assms by (auto simp: requestSettled_def Let_def publishNext_def requestRefused_def release_def transport_end_def
        scheduleReconnect_def routing_frame split: operation.splits list.splits if_splits prod.splits)
next
  case CloseCalled
  then show ?thesis
    using assms by (auto simp: shadow_close_def Let_def transport_end_def routing_frame split: if_splits option.splits)
      (simp_all add: routing_def)
qed (use assms in \<open>auto simp: when_current_def handleConnect_def requestEveryShadow_def note_connected_def
    handleError_def handleClose_def release_def scheduleReconnect_def routing_frame Let_def split: if_splits\<close>)

lemma run_routing:
  "shadow_run scheme tr s \<Longrightarrow> sh_routes s = fillRoutes (sh_devices s)"
proof (induction rule: shadow_run.induct)
  case created
  then show ?case by (simp add: createShadowClient_def fillRoutes_def)
next
  case (snoc tr s e outs s')
  then show ?case using step_routing [OF snoc.hyps(3)] by (auto simp: routing_def)
qed

text \<open>
  C32. What a broker message can make the store believe. In every state a client reaches, a message yields a
  patch for a device exactly when it arrived on the connection in use, on an accepted topic of that device, with
  a JSON payload whose \<open>state\<close> is an object; the patch holds the \<open>data\<close> and \<open>state\<close> sections of \<open>reported\<close>
  when they are objects, the version when it is finite, and nothing of any requested section.
\<close>

theorem message_reaches_its_device:
  assumes "shadow_run scheme tr s"
  shows "Reported d p \<in> set (fst (shadow_step scheme (MessageArrived i topic payload) s))
    \<longleftrightarrow> isCurrent i s \<and> d \<in> set (sh_devices s) \<and> topic \<in> {topic_getAccepted d, topic_updateAccepted d}
      \<and> isRecord payload \<and> isRecord (prop_of payload ''state'')
      \<and> (let reported = prop_of (prop_of payload ''state'') ''reported'';
             section = (\<lambda>name. case prop_of reported name of Some (JObj kvs) \<Rightarrow> Some kvs | _ \<Rightarrow> None)
         in rp_data p = section ''data'' \<and> rp_state p = section ''state''
          \<and> rp_version p = (case prop_of payload ''version'' of Some (JNum n) \<Rightarrow> finite_of n | _ \<Rightarrow> None))"
proof -
  have r: "jm_get (sh_routes s) topic = Some route \<longleftrightarrow> routes_to (sh_devices s) topic route" for route
    using run_routing [OF assms] fillRoutes_get by metis
  have sec: "(if isRecord v then Some (fields_of v) else None) = (case v of Some (JObj kvs) \<Rightarrow> Some kvs | _ \<Rightarrow> None)" for v
    by (auto simp: isRecord_def split: option.split json.split)
  have q: "p = toReportedPatch doc \<longleftrightarrow> (let reported = prop_of (prop_of (Some doc) ''state'') ''reported'';
             section = (\<lambda>name. case prop_of reported name of Some (JObj kvs) \<Rightarrow> Some kvs | _ \<Rightarrow> None)
         in rp_data p = section ''data'' \<and> rp_state p = section ''state''
          \<and> rp_version p = (case prop_of (Some doc) ''version'' of Some (JNum n) \<Rightarrow> finite_of n | _ \<Rightarrow> None))" for doc
    by (cases p) (auto simp: toReportedPatch_def Let_def sec prop_of_def fields_of_def isRecord_def
        split: option.splits json.splits)
  have "Reported d p \<in> set (handleMessage topic payload s) \<longleftrightarrow>
      routes_to (sh_devices s) topic \<lparr>route_deviceId = d, route_leaf = LeafAccepted\<rparr>
      \<and> isShadowDocument payload \<and> (\<exists>doc. payload = Some doc \<and> p = toReportedPatch doc)"
  proof (cases "jm_get (sh_routes s) topic")
    case None
    then show ?thesis using r by (auto simp: handleMessage_def)
  next
    case (Some route)
    then have "routes_to (sh_devices s) topic \<lparr>route_deviceId = d, route_leaf = LeafAccepted\<rparr>
        \<longleftrightarrow> route = \<lparr>route_deviceId = d, route_leaf = LeafAccepted\<rparr>"
      using r topics_of_usable by metis
    with Some show ?thesis
      by (cases route; cases "route_leaf route")
        (auto simp: handleMessage_def readShadowDocument_def isShadowDocument_def split: option.splits if_splits)
  qed
  then show ?thesis
    using q by (cases payload) (auto simp: when_current_def routes_to_def isShadowDocument_def)
qed


theorem message_reaches_its_device_witness:
  "Reported ''a'' \<lparr>rp_data = Some [], rp_state = None, rp_version = None\<rparr>
    \<in> set (fst (shadow_step ''wss'' (MessageArrived 0 (topic_getAccepted ''a'')
        (Some (JObj [(''state'', JObj [(''reported'', JObj [(''data'', JObj [])])])]))) (demo_client False)))"
  by (subst message_reaches_its_device [OF demo_up_run])
    (simp add: demo_client_def isCurrent_def Let_def jm_get_def)

end
