(* ===== verification/AuthClient.thy ===== *)
theory AuthClient
  imports CloudErrors
begin

text \<open>
  The vendor authentication client of \<open>src/src/cloud/auth.ts\<close>: one cached token, one read of the cache
  file, at most one grant attempt shared by every caller, and the failure policy. The asynchronous functions are
  cut where they wait: the read of the cache file, the request, its body, the deletion or the rewriting of the
  file. An event is a call, the abort of a caller's signal, or the end of one of these waits; what the
  vendor and the file system answered comes with it. Everything that runs before the next
  wait is one step, in the order the callers joined. SHA-256 is a parameter, and the arithmetic on
  instants is that of rationals with the overflow of doubles.
\<close>

section \<open>Constants and messages\<close>

definition GRANT_TYPE :: string where
  "GRANT_TYPE = ''http://auth0.com/oauth/grant-type/password-realm''"

definition GRANT_SCOPE :: string where
  "GRANT_SCOPE = ''openid profile email''"

definition GRANT_ROUTE :: string where
  "GRANT_ROUTE = ''POST /oauth/token''"

definition TOO_MANY_ATTEMPTS :: int where
  "TOO_MANY_ATTEMPTS = 429"

definition CLIENT_ERROR :: int where
  "CLIENT_ERROR = 400"

definition SERVER_ERROR :: int where
  "SERVER_ERROR = 500"

definition NO_HTTP_STATUS :: int where
  "NO_HTTP_STATUS = 0"

definition THROTTLED_RETRY_MS :: millis where
  "THROTTLED_RETRY_MS = 1800000"

definition TOKEN_RENEWAL_MARGIN_MS :: millis where
  "TOKEN_RENEWAL_MARGIN_MS = 3600000"

definition REJECTION_ADVICE :: string where
  "REJECTION_ADVICE = ''Correct the account email and password in the Homebridge UI (Plugins -> Basement Guardian -> Settings); saving there restarts the plugin.''"

definition REJECTION_FINALITY :: string where
  "REJECTION_FINALITY = ''No further attempt will be made, because each one extends the vendor block on the account.''"

definition THROTTLE_WARNING :: string where
  "THROTTLE_WARNING = ''Authentication answered HTTP 429: the vendor is throttling it. The plugin will try again in 30 minutes. ''
    @ ''If the account is genuinely blocked, the block lifts only 30 days after the last attempt, so every retry postpones it. ''
    @ ''Disable this plugin, or remove its platform block from config.json, to let a real block clear.''"

definition RECOVERED :: string where
  "RECOVERED = ''Authentication recovered.''"

definition HALTED :: string where
  "HALTED = ''authentication stopped after the vendor refused the account credentials.''"

definition CACHE_UNUSABLE :: string where
  "CACHE_UNUSABLE = ''The cached token could not be read; authenticating again.''"

definition CACHE_OTHER_ACCOUNT :: string where
  "CACHE_OTHER_ACCOUNT = ''The cached token belongs to a different account; authenticating again.''"

definition CACHE_STALE :: string where
  "CACHE_STALE = ''The cached token is at or inside its renewal margin; authenticating again.''"

definition CACHE_NOT_WRITTEN :: string where
  "CACHE_NOT_WRITTEN = ''The token cache could not be written; the token is held in memory only.''"

definition CACHE_NOT_DELETED :: string where
  "CACHE_NOT_DELETED = ''The token cache could not be deleted; authentication remains stopped.''"

section \<open>State\<close>

record authEnv =
  au_now :: millis
  au_sha256 :: "string \<Rightarrow> string"
  au_email :: string
  au_password :: string
  au_clientId :: string
  au_realm :: string

record cachedToken =
  ct_idToken :: string
  ct_expiresAtMs :: millis

text \<open>What an attempt is waiting for.\<close>

datatype grantStage =
    Requesting
  | ReadingBody int
  | DeletingCache cloudError
  | WritingCache cachedToken

record grantAttempt =
  ga_aborted :: bool
  ga_waiters :: nat
  ga_stage :: grantStage

datatype cacheRead = CacheNotRead | CacheReading | CacheKnown "cachedToken option"

text \<open>Where a caller of \<open>idToken\<close> waits: for the cache, for the attempt it joined, or for an abandoned one.\<close>

datatype callerWait = OnCacheRead | OnGrant | OnAbandoned

record authClient =
  au_haltedReason :: "string option"
  au_lastTransient :: "string option"
  au_cached :: "cachedToken option"
  au_cacheRead :: cacheRead
  au_inFlight :: "grantAttempt option"
  au_registered :: "string option"
  au_callers :: "(nat, callerWait) jsmap"

datatype authOutput =
    ReadCacheFile
  | GrantRequested json
  | WriteCacheFile json
  | DeleteCacheFile
  | RegisterSecret string
  | Answered nat "cloudError + string"
  | AuthLog log_line

definition createAuthClient :: authClient where
  "createAuthClient = \<lparr>au_haltedReason = None, au_lastTransient = None, au_cached = None,
     au_cacheRead = CacheNotRead, au_inFlight = None, au_registered = None, au_callers = []\<rparr>"

section \<open>The cache file\<close>

definition isTokenCacheFile :: "json option \<Rightarrow> bool" where
  "isTokenCacheFile v = (isRecord v \<and> is_str (prop_of v ''idToken'')
    \<and> (case prop_of v ''expiresAt'' of Some (JNum n) \<Rightarrow> num_isFinite n | _ \<Rightarrow> False)
    \<and> is_str (prop_of v ''emailFingerprint'') \<and> is_str (prop_of v ''salt''))"

definition fingerprint :: "authEnv \<Rightarrow> string \<Rightarrow> string" where
  "fingerprint env salt = au_sha256 env (salt @ au_email env)"

definition is_current :: "authEnv \<Rightarrow> millis \<Rightarrow> bool" where
  "is_current env expiresAtMs = (expiresAtMs - TOKEN_RENEWAL_MARGIN_MS > au_now env)"

text \<open>A field the guard has found to be a string, or a finite number.\<close>

definition text_of :: "json option \<Rightarrow> string" where
  "text_of v = (case v of Some (JStr s) \<Rightarrow> s | _ \<Rightarrow> [])"

definition instant_of :: "json option \<Rightarrow> millis" where
  "instant_of v = (case v of Some (JNum n) \<Rightarrow> (case finite_of n of Some r \<Rightarrow> r | None \<Rightarrow> 0) | _ \<Rightarrow> 0)"

text \<open>No file, one that cannot be read or parsed, or its parsed content.\<close>

datatype cacheContents = NoFile | BadFile | Parsed json

definition readCacheFile :: "cacheContents \<Rightarrow> authOutput list \<times> json option" where
  "readCacheFile contents = (case contents of
      NoFile \<Rightarrow> ([], None)
    | BadFile \<Rightarrow> ([AuthLog (LDebug CACHE_UNUSABLE)], None)
    | Parsed v \<Rightarrow> if isTokenCacheFile (Some v) then ([], Some v) else ([AuthLog (LDebug CACHE_UNUSABLE)], None))"

definition readCachedToken :: "authEnv \<Rightarrow> cacheContents \<Rightarrow> authOutput list \<times> cachedToken option" where
  "readCachedToken env contents = (case readCacheFile contents of
      (outs, None) \<Rightarrow> (outs, None)
    | (outs, Some v) \<Rightarrow>
        if text_of (prop_of (Some v) ''emailFingerprint'') \<noteq> fingerprint env (text_of (prop_of (Some v) ''salt''))
        then (outs @ [AuthLog (LDebug CACHE_OTHER_ACCOUNT)], None)
        else if \<not> is_current env (instant_of (prop_of (Some v) ''expiresAt''))
        then (outs @ [AuthLog (LDebug CACHE_STALE)], None)
        else (outs, Some \<lparr>ct_idToken = text_of (prop_of (Some v) ''idToken''),
                          ct_expiresAtMs = instant_of (prop_of (Some v) ''expiresAt'')\<rparr>))"

text \<open>The payload \<open>writeCachedToken\<close> stores.\<close>

definition cache_payload :: "authEnv \<Rightarrow> string \<Rightarrow> cachedToken \<Rightarrow> json" where
  "cache_payload env salt token = JObj
    [(''idToken'', JStr (ct_idToken token)), (''expiresAt'', JNum (Fin (ct_expiresAtMs token))),
     (''emailFingerprint'', JStr (fingerprint env salt)), (''salt'', JStr salt)]"

definition grantBody :: "authEnv \<Rightarrow> json" where
  "grantBody env = JObj
    [(''grant_type'', JStr GRANT_TYPE), (''realm'', JStr (au_realm env)), (''client_id'', JStr (au_clientId env)),
     (''username'', JStr (au_email env)), (''password'', JStr (au_password env)), (''scope'', JStr GRANT_SCOPE)]"

section \<open>Failures\<close>

definition readErrorCode :: "json option \<Rightarrow> string" where
  "readErrorCode body = (case prop_of body ''error'' of Some (JStr code) \<Rightarrow> code | _ \<Rightarrow> ''unknown_error'')"

definition rejectionLog :: "int \<Rightarrow> string" where
  "rejectionLog status = ''Authentication stopped after HTTP '' @ string_of_int status
    @ '': the vendor refused the account credentials. '' @ REJECTION_ADVICE @ '' '' @ REJECTION_FINALITY"

definition transientLog :: "string \<Rightarrow> string" where
  "transientLog kind = ''Authentication could not be completed ('' @ kind @ ''); the plugin will try again.''"

record transientFailure =
  tf_kind :: string
  tf_status :: int
  tf_message :: string

definition httpFailure :: "int \<Rightarrow> transientFailure" where
  "httpFailure status = \<lparr>tf_kind = ''HTTP '' @ string_of_int status, tf_status = status,
     tf_message = GRANT_ROUTE @ '' failed with HTTP '' @ string_of_int status @ ''.''\<rparr>"

definition unusableFailure :: "int \<Rightarrow> transientFailure" where
  "unusableFailure status = \<lparr>tf_kind = ''an unusable response'', tf_status = status,
     tf_message = GRANT_ROUTE @ '' returned a response the plugin cannot read.''\<rparr>"

definition NETWORK_FAILURE :: transientFailure where
  "NETWORK_FAILURE = \<lparr>tf_kind = ''a network error'', tf_status = NO_HTTP_STATUS,
     tf_message = GRANT_ROUTE @ '' could not be reached.''\<rparr>"

definition reportTransient :: "transientFailure \<Rightarrow> authClient \<Rightarrow> authOutput list \<times> cloudError \<times> authClient" where
  "reportTransient failure s =
    ([AuthLog (if au_lastTransient s = Some (tf_kind failure) then LDebug (transientLog (tf_kind failure))
               else LWarn (transientLog (tf_kind failure)))],
     CloudRequestError (tf_message failure) (tf_status failure) GRANT_ROUTE,
     s\<lparr>au_lastTransient := Some (tf_kind failure)\<rparr>)"

definition reportRecovery :: "authClient \<Rightarrow> authOutput list \<times> authClient" where
  "reportRecovery s = (if au_lastTransient s \<noteq> None
     then ([AuthLog (LInfo RECOVERED)], s\<lparr>au_lastTransient := None\<rparr>) else ([], s))"

definition readGrant :: "authEnv \<Rightarrow> json option \<Rightarrow> cachedToken option" where
  "readGrant env body =
    (if \<not> isRecord body then None
     else case (prop_of body ''id_token'', prop_of body ''expires_in'') of
       (Some (JStr idToken), Some (JNum n)) \<Rightarrow> (case finite_of n of
           None \<Rightarrow> None
         | Some expiresIn \<Rightarrow>
             if expiresIn \<le> 0 \<or> au_now env + expiresIn * 1000 \<ge> double_overflow then None
             else Some \<lparr>ct_idToken = idToken, ct_expiresAtMs = au_now env + expiresIn * 1000\<rparr>)
     | _ \<Rightarrow> None)"

section \<open>Callers\<close>

text \<open>
  \<open>idToken\<close> after \<open>currentToken\<close> has given a token. A caller that has its answer leaves \<open>au_callers\<close>.
\<close>

definition answer_caller :: "nat \<Rightarrow> cloudError + string \<Rightarrow> authClient \<Rightarrow> authOutput list \<times> authClient" where
  "answer_caller c result s = ([Answered c result], s\<lparr>au_callers := jm_delete c (au_callers s)\<rparr>)"

definition give_token :: "nat \<Rightarrow> cachedToken \<Rightarrow> authClient \<Rightarrow> authOutput list \<times> authClient" where
  "give_token c token s =
    (let (answered, s') = answer_caller c (Inr (ct_idToken token))
           (s\<lparr>au_cached := Some token, au_registered := Some (ct_idToken token)\<rparr>)
     in ((if au_registered s = Some (ct_idToken token) then [] else [RegisterSecret (ct_idToken token)]) @ answered, s'))"

definition caller_waits :: "nat \<Rightarrow> callerWait \<Rightarrow> authClient \<Rightarrow> authClient" where
  "caller_waits c w s = s\<lparr>au_callers := jm_set c w (au_callers s)\<rparr>"

definition sharedGrant :: "authEnv \<Rightarrow> nat \<Rightarrow> authClient \<Rightarrow> authOutput list \<times> authClient" where
  "sharedGrant env c s = (case au_inFlight s of
      Some attempt \<Rightarrow>
        if ga_aborted attempt then ([], caller_waits c OnAbandoned s)
        else (case au_haltedReason s of
            Some reason \<Rightarrow> answer_caller c (Inl (AuthHaltedError HALTED reason)) s
          | None \<Rightarrow> ([], caller_waits c OnGrant
              (s\<lparr>au_inFlight := Some (attempt\<lparr>ga_waiters := ga_waiters attempt + 1\<rparr>)\<rparr>)))
    | None \<Rightarrow> (case au_haltedReason s of
          Some reason \<Rightarrow> answer_caller c (Inl (AuthHaltedError HALTED reason)) s
        | None \<Rightarrow> ([GrantRequested (grantBody env)], caller_waits c OnGrant
            (s\<lparr>au_inFlight := Some \<lparr>ga_aborted = False, ga_waiters = 1, ga_stage = Requesting\<rparr>\<rparr>))))"

text \<open>\<open>currentToken\<close> once the cache has been read.\<close>

definition after_cache_read ::
  "authEnv \<Rightarrow> cachedToken option \<Rightarrow> nat \<Rightarrow> authClient \<Rightarrow> authOutput list \<times> authClient" where
  "after_cache_read env stored c s =
    (let cached = (case au_cached s of None \<Rightarrow> stored | Some t \<Rightarrow> Some t);
         s1 = s\<lparr>au_cached := cached\<rparr>
     in case cached of
          Some token \<Rightarrow> if is_current env (ct_expiresAtMs token) then give_token c token s1 else sharedGrant env c s1
        | None \<Rightarrow> sharedGrant env c s1)"

text \<open>A call of \<open>idToken\<close>, whose signal may have been aborted before.\<close>

definition currentToken :: "authEnv \<Rightarrow> nat \<Rightarrow> cloudError option \<Rightarrow> authClient \<Rightarrow> authOutput list \<times> authClient" where
  "currentToken env c aborted s = (case aborted of
      Some reason \<Rightarrow> ([Answered c (Inl reason)], s)
    | None \<Rightarrow> (case au_haltedReason s of
        Some reason \<Rightarrow> ([Answered c (Inl (AuthHaltedError HALTED reason))], s)
      | None \<Rightarrow> (case au_cacheRead s of
          CacheNotRead \<Rightarrow> ([ReadCacheFile], caller_waits c OnCacheRead (s\<lparr>au_cacheRead := CacheReading\<rparr>))
        | CacheReading \<Rightarrow> ([], caller_waits c OnCacheRead s)
        | CacheKnown stored \<Rightarrow> after_cache_read env stored c s)))"

text \<open>Each waiting caller resumes in the order it joined.\<close>

fun resume_callers ::
  "(nat \<Rightarrow> authClient \<Rightarrow> authOutput list \<times> authClient) \<Rightarrow> nat list \<Rightarrow> authClient \<Rightarrow> authOutput list \<times> authClient" where
  "resume_callers resume [] s = ([], s)"
| "resume_callers resume (c # cs) s =
    (let (outs, s1) = resume c s; (outs', s2) = resume_callers resume cs s1 in (outs @ outs', s2))"

definition waiting :: "callerWait \<Rightarrow> authClient \<Rightarrow> nat list" where
  "waiting w s = map fst (filter (\<lambda>(c, w'). w' = w) (au_callers s))"

definition cache_answered :: "authEnv \<Rightarrow> cacheContents \<Rightarrow> authClient \<Rightarrow> authOutput list \<times> authClient" where
  "cache_answered env contents s =
    (let (notes, stored) = readCachedToken env contents;
         (outs, s') = resume_callers (after_cache_read env stored) (waiting OnCacheRead s)
            (s\<lparr>au_cacheRead := CacheKnown stored\<rparr>)
     in (notes @ outs, s'))"

text \<open>
  The caller's signal is aborted while it waits. The last one to leave an attempt abandons it; its
  request is then cancelled, and the attempt keeps its place until it has settled.
\<close>

definition caller_aborted :: "nat \<Rightarrow> cloudError \<Rightarrow> authClient \<Rightarrow> authOutput list \<times> authClient" where
  "caller_aborted c reason s = answer_caller c (Inl reason)
    (if jm_get (au_callers s) c = Some OnGrant
     then s\<lparr>au_inFlight := map_option (\<lambda>attempt. attempt\<lparr>ga_waiters := ga_waiters attempt - 1,
              ga_aborted := (ga_aborted attempt \<or> ga_waiters attempt - 1 = 0)\<rparr>) (au_inFlight s)\<rparr>
     else s)"

section \<open>The attempt\<close>

text \<open>
  The attempt settles: its slot is free before anyone hears of it, the callers that joined it get its
  outcome, and those that waited for an abandoned one to settle start over.
\<close>

definition hear_grant :: "cloudError + cachedToken \<Rightarrow> nat \<Rightarrow> authClient \<Rightarrow> authOutput list \<times> authClient" where
  "hear_grant result c s = (case result of
      Inl e \<Rightarrow> answer_caller c (Inl e) s | Inr token \<Rightarrow> give_token c token s)"

definition grant_settled :: "authEnv \<Rightarrow> cloudError + cachedToken \<Rightarrow> authClient \<Rightarrow> authOutput list \<times> authClient" where
  "grant_settled env result s =
    (let (outs, s1) = resume_callers (hear_grant result) (waiting OnGrant s) (s\<lparr>au_inFlight := None\<rparr>);
         (outs', s2) = resume_callers (sharedGrant env) (waiting OnAbandoned s) s1
     in (outs @ outs', s2))"

definition grant_stage :: "grantStage \<Rightarrow> authClient \<Rightarrow> authClient" where
  "grant_stage stage s = s\<lparr>au_inFlight := map_option (\<lambda>attempt. attempt\<lparr>ga_stage := stage\<rparr>) (au_inFlight s)\<rparr>"

definition attempt_aborted :: "authClient \<Rightarrow> bool" where
  "attempt_aborted s = (case au_inFlight s of Some attempt \<Rightarrow> ga_aborted attempt | None \<Rightarrow> False)"

definition ABORTED :: cloudError where
  "ABORTED = OtherError ''AbortError'' ''This operation was aborted''"

definition fail_transiently :: "authEnv \<Rightarrow> transientFailure \<Rightarrow> authClient \<Rightarrow> authOutput list \<times> authClient" where
  "fail_transiently env failure s =
    (let (notes, e, s1) = reportTransient failure s; (outs, s2) = grant_settled env (Inl e) s1 in (notes @ outs, s2))"

text \<open>The end of the request: an error of the transport, or the status of a response.\<close>

definition fetchGrant :: "authEnv \<Rightarrow> cloudError + int \<Rightarrow> authClient \<Rightarrow> authOutput list \<times> authClient" where
  "fetchGrant env result s = (case result of
      Inr status \<Rightarrow> ([], grant_stage (ReadingBody status) s)
    | Inl e \<Rightarrow> if attempt_aborted s then grant_settled env (Inl e) s else fail_transiently env NETWORK_FAILURE s)"

definition grantFailure :: "authEnv \<Rightarrow> int \<Rightarrow> json option \<Rightarrow> authClient \<Rightarrow> authOutput list \<times> authClient" where
  "grantFailure env status body s =
    (let reason = readErrorCode body
     in if status = TOO_MANY_ATTEMPTS
        then (let (outs, s') = grant_settled env (Inl (AuthThrottledError
                   (''the vendor authentication service answered HTTP '' @ string_of_int status @ '' ('' @ reason @ '').'')
                   THROTTLED_RETRY_MS)) s
              in (AuthLog (LWarn THROTTLE_WARNING) # outs, s'))
        else if status \<ge> CLIENT_ERROR \<and> status < SERVER_ERROR
        then ([AuthLog (LError (rejectionLog status)), DeleteCacheFile],
              grant_stage (DeletingCache (AuthRejectedError
                (''the vendor rejected the account credentials with HTTP '' @ string_of_int status @ '' ('' @ reason @ '').'')
                reason)) (s\<lparr>au_haltedReason := Some reason\<rparr>))
        else fail_transiently env (httpFailure status) s)"

definition response_ok :: "int \<Rightarrow> bool" where
  "response_ok status = (200 \<le> status \<and> status \<le> 299)"

text \<open>The body of the response, \<open>None\<close> when it is not JSON; \<open>salt\<close> is the one a write would use.\<close>

definition requestGrant ::
  "authEnv \<Rightarrow> int \<Rightarrow> json option \<Rightarrow> string \<Rightarrow> authClient \<Rightarrow> authOutput list \<times> authClient" where
  "requestGrant env status body salt s =
    (if attempt_aborted s then grant_settled env (Inl ABORTED) s
     else if \<not> response_ok status then grantFailure env status body s
     else case readGrant env body of
         None \<Rightarrow> fail_transiently env (unusableFailure status) s
       | Some grant \<Rightarrow>
           (let (notes, s1) = reportRecovery s
            in (notes @ [WriteCacheFile (cache_payload env salt grant)], grant_stage (WritingCache grant) s1)))"

definition cache_deleted :: "authEnv \<Rightarrow> cloudError \<Rightarrow> bool \<Rightarrow> authClient \<Rightarrow> authOutput list \<times> authClient" where
  "cache_deleted env e ok s =
    (let (outs, s') = grant_settled env (Inl e) s
     in ((if ok then [] else [AuthLog (LWarn CACHE_NOT_DELETED)]) @ outs, s'))"

definition cache_written :: "authEnv \<Rightarrow> cachedToken \<Rightarrow> bool \<Rightarrow> authClient \<Rightarrow> authOutput list \<times> authClient" where
  "cache_written env token ok s =
    (let (outs, s') = grant_settled env (if attempt_aborted s then Inl ABORTED else Inr token) s
     in ((if ok then [] else [AuthLog (LDebug CACHE_NOT_WRITTEN)]) @ outs, s'))"

section \<open>Events\<close>

datatype authEvent =
    Called nat "cloudError option"
  | CallerAborted nat cloudError
  | CacheFileRead cacheContents
  | ResponseArrived "cloudError + int"
  | BodyArrived "json option" string
  | CacheFileDeleted bool
  | CacheFileWritten bool

definition attempt_stage :: "authClient \<Rightarrow> grantStage option" where
  "attempt_stage s = map_option ga_stage (au_inFlight s)"

fun auth_step :: "authEnv \<Rightarrow> authEvent \<Rightarrow> authClient \<Rightarrow> authOutput list \<times> authClient" where
  "auth_step env (Called c aborted) s = currentToken env c aborted s"
| "auth_step env (CallerAborted c reason) s = caller_aborted c reason s"
| "auth_step env (CacheFileRead contents) s = cache_answered env contents s"
| "auth_step env (ResponseArrived result) s = fetchGrant env result s"
| "auth_step env (BodyArrived body salt) s = (case attempt_stage s of
      Some (ReadingBody status) \<Rightarrow> requestGrant env status body salt s | _ \<Rightarrow> ([], s))"
| "auth_step env (CacheFileDeleted ok) s = (case attempt_stage s of
      Some (DeletingCache e) \<Rightarrow> cache_deleted env e ok s | _ \<Rightarrow> ([], s))"
| "auth_step env (CacheFileWritten ok) s = (case attempt_stage s of
      Some (WritingCache token) \<Rightarrow> cache_written env token ok s | _ \<Rightarrow> ([], s))"

fun auth_enabled :: "authEvent \<Rightarrow> authClient \<Rightarrow> bool" where
  "auth_enabled (Called c aborted) s = (\<not> jm_has (au_callers s) c)"
| "auth_enabled (CallerAborted c reason) s = jm_has (au_callers s) c"
| "auth_enabled (CacheFileRead contents) s = (au_cacheRead s = CacheReading)"
| "auth_enabled (ResponseArrived result) s = (attempt_stage s = Some Requesting)"
| "auth_enabled (BodyArrived body salt) s =
    (case attempt_stage s of Some (ReadingBody status) \<Rightarrow> True | _ \<Rightarrow> False)"
| "auth_enabled (CacheFileDeleted ok) s =
    (case attempt_stage s of Some (DeletingCache e) \<Rightarrow> True | _ \<Rightarrow> False)"
| "auth_enabled (CacheFileWritten ok) s =
    (case attempt_stage s of Some (WritingCache token) \<Rightarrow> True | _ \<Rightarrow> False)"

text \<open>Runs from a new client, the latest event last. The clock may differ from step to step.\<close>

inductive auth_run :: "(authEvent \<times> authOutput list) list \<Rightarrow> authClient \<Rightarrow> bool" where
  created: "auth_run [] createAuthClient"
| snoc: "auth_run tr s \<Longrightarrow> auth_enabled e s \<Longrightarrow> auth_step env e s = (outs, s') \<Longrightarrow>
    auth_run (tr @ [(e, outs)]) s'"

end
