(* ===== verification/AuthProperties.thy ===== *)
theory AuthProperties
  imports AuthClient
begin

text \<open>
  What the authentication client promises: one request at a time however many callers there are, one answer for
  each call, nothing sent and no token given after a refusal, and a cache file that gives back the token that was
  written to it. The invariant is proved for the moments between two resumed callers as well:
  \<open>R\<close> holds those still to be resumed.
\<close>

section \<open>The invariant\<close>

definition held_by :: "nat set \<Rightarrow> callerWait \<Rightarrow> authClient \<Rightarrow> nat set" where
  "held_by R w s = {c. c \<notin> R \<and> jm_get (au_callers s) c = Some w}"

definition auth_inv :: "nat set \<Rightarrow> authClient \<Rightarrow> bool" where
  "auth_inv R s = (jm_wf (au_callers s)
    \<and> (held_by R OnCacheRead s = {} \<or> au_cacheRead s = CacheReading)
    \<and> (case au_inFlight s of
         None \<Rightarrow> held_by R OnGrant s = {} \<and> held_by R OnAbandoned s = {}
       | Some attempt \<Rightarrow>
           ga_waiters attempt = card (held_by R OnGrant s)
           \<and> ga_aborted attempt = (held_by R OnGrant s = {})
           \<and> (held_by R OnAbandoned s = {} \<or> ga_aborted attempt \<and> au_haltedReason s = None)
           \<and> (au_haltedReason s \<noteq> None) = (\<exists>e. ga_stage attempt = DeletingCache e))
    \<and> (au_haltedReason s \<noteq> None \<or> au_inFlight s \<noteq> None \<longrightarrow> (\<exists>stored. au_cacheRead s = CacheKnown stored)))"

lemma held_finite [simp]: "finite (held_by R w s)"
proof -
  have "held_by R w s \<subseteq> set (jm_keys (au_callers s))"
    by (auto simp: held_by_def jm_has_iff [symmetric] jm_has_def)
  then show ?thesis by (rule finite_subset) simp
qed

lemma held_wait:
  assumes "c \<notin> R"
  shows "held_by R w (caller_waits c w' s) = (if w = w' then insert c (held_by (insert c R) w s) else held_by (insert c R) w s)"
  using assms by (auto simp: held_by_def caller_waits_def)

lemma held_answer:
  assumes "c \<notin> R"
  shows "held_by R w (s\<lparr>au_callers := jm_delete c (au_callers s)\<rparr>) = held_by (insert c R) w s"
  using assms by (auto simp: held_by_def)

lemma held_frame:
  "held_by R w (s\<lparr>au_inFlight := f\<rparr>) = held_by R w s" "held_by R w (s\<lparr>au_cached := t\<rparr>) = held_by R w s"
  "held_by R w (s\<lparr>au_cached := t, au_registered := r\<rparr>) = held_by R w s"
  "held_by R w (s\<lparr>au_cacheRead := k\<rparr>) = held_by R w s" "held_by R w (s\<lparr>au_lastTransient := l\<rparr>) = held_by R w s"
  "held_by R w (s\<lparr>au_haltedReason := h\<rparr>) = held_by R w s"
  by (simp_all add: held_by_def)

lemma held_out: "c \<notin> held_by (insert c R) w s"
  by (simp add: held_by_def)

text \<open>An answered caller leaves.\<close>

lemma inv_answer:
  assumes "auth_inv (insert c R) s" and "c \<notin> R"
  shows "auth_inv R (snd (answer_caller c result s))"
  using assms by (auto simp: answer_caller_def auth_inv_def held_answer split: option.splits)

lemma inv_token_fields:
  "auth_inv R (s\<lparr>au_cached := t\<rparr>) = auth_inv R s"
  "auth_inv R (s\<lparr>au_cached := t, au_registered := r\<rparr>) = auth_inv R s"
  "auth_inv R (s\<lparr>au_lastTransient := l\<rparr>) = auth_inv R s"
  by (simp_all add: auth_inv_def held_frame split: option.split)

lemma inv_give:
  assumes "auth_inv (insert c R) s" and "c \<notin> R"
  shows "auth_inv R (snd (give_token c token s))"
  using inv_answer [of c R "s\<lparr>au_cached := Some token, au_registered := Some (ct_idToken token)\<rparr>"] assms
  by (auto simp: give_token_def inv_token_fields split: prod.splits) (metis snd_conv)

lemma inv_shared:
  assumes "auth_inv (insert c R) s" and "c \<notin> R" and "\<exists>stored. au_cacheRead s = CacheKnown stored"
    and "au_haltedReason s = None \<or> au_inFlight s = None"
  shows "auth_inv R (snd (sharedGrant env c s))"
proof -
  have r: "auth_inv R (snd (answer_caller c result s))" for result
    by (rule inv_answer [OF assms(1,2)])
  have w: "jm_wf (jm_set c w (au_callers s))" for w
    using assms(1) by (auto simp: auth_inv_def)
  have h: "held_by R w (caller_waits c w' (s\<lparr>au_inFlight := f\<rparr>))
      = (if w = w' then insert c (held_by (insert c R) w s) else held_by (insert c R) w s)" for w w' f
    using held_wait [OF assms(2)] by (simp add: held_frame)
  have h2: "held_by R w (caller_waits c w' s)
      = (if w = w' then insert c (held_by (insert c R) w s) else held_by (insert c R) w s)" for w w'
    by (rule held_wait [OF assms(2)])
  have n: "c \<notin> held_by (insert c R) w s" for w by (rule held_out)
  have k: "held_by (insert c R) OnCacheRead s = {}"
    using assms(1,3) by (auto simp: auth_inv_def)
  have f: "au_inFlight (caller_waits c w s) = au_inFlight s" "au_cacheRead (caller_waits c w s) = au_cacheRead s"
    "au_haltedReason (caller_waits c w s) = au_haltedReason s"
    "au_callers (caller_waits c w s) = jm_set c w (au_callers s)" for w and s :: authClient
    by (simp_all add: caller_waits_def)
  show ?thesis
  proof (cases "au_inFlight s")
    case None
    show ?thesis
    proof (cases "au_haltedReason s")
      case None
      with \<open>au_inFlight s = None\<close> assms(1,3) w k show ?thesis
        by (simp add: sharedGrant_def auth_inv_def h f)
    qed (use None r in \<open>simp add: sharedGrant_def\<close>)
  next
    case (Some attempt)
    note i = Some
    show ?thesis
    proof (cases "ga_aborted attempt")
      case True
      with i assms(1,3,4) w k show ?thesis by (simp add: sharedGrant_def auth_inv_def h2 f)
    next
      case False
      show ?thesis
      proof (cases "au_haltedReason s")
        case None
        with i False assms(1,3) w k n show ?thesis
          by (simp add: sharedGrant_def auth_inv_def h f)
      qed (use i False r in \<open>simp add: sharedGrant_def\<close>)
    qed
  qed
qed

lemma inv_after_read:
  assumes "auth_inv (insert c R) s" and "c \<notin> R" and "\<exists>stored. au_cacheRead s = CacheKnown stored"
    and "au_haltedReason s = None"
  shows "auth_inv R (snd (after_cache_read env stored c s))"
  using assms inv_shared [of c R "s\<lparr>au_cached := t\<rparr>" for t] inv_give [of c R "s\<lparr>au_cached := t\<rparr>" for t]
  by (simp add: after_cache_read_def Let_def inv_token_fields split: option.split)

text \<open>The cache that is known stays known.\<close>

lemma keeps_read:
  "au_cacheRead (snd (answer_caller c result s)) = au_cacheRead s"
  "au_cacheRead (snd (give_token c token s)) = au_cacheRead s"
  "au_cacheRead (snd (sharedGrant env c s)) = au_cacheRead s"
  "au_cacheRead (snd (after_cache_read env stored c s)) = au_cacheRead s"
  "au_cacheRead (snd (hear_grant outcome c s)) = au_cacheRead s"
proof -
  show a: "au_cacheRead (snd (answer_caller c result s)) = au_cacheRead s" for c result and s :: authClient
    by (simp add: answer_caller_def)
  show b: "au_cacheRead (snd (give_token c token s)) = au_cacheRead s" for c token and s :: authClient
    by (simp add: give_token_def answer_caller_def)
  show d: "au_cacheRead (snd (sharedGrant env c s)) = au_cacheRead s" for c and s :: authClient
    by (simp add: sharedGrant_def caller_waits_def a split: option.split)
  show "au_cacheRead (snd (after_cache_read env stored c s)) = au_cacheRead s"
    by (simp add: after_cache_read_def Let_def b d split: option.split)
  show "au_cacheRead (snd (hear_grant outcome c s)) = au_cacheRead s"
    by (simp add: hear_grant_def a b split: sum.split)
qed

text \<open>A refusal is neither made nor forgotten while callers resume, and nothing starts after one.\<close>

lemma keeps_halted:
  "au_haltedReason (snd (answer_caller c result s)) = au_haltedReason s"
  "au_haltedReason (snd (give_token c token s)) = au_haltedReason s"
  "au_haltedReason (snd (sharedGrant env c s)) = au_haltedReason s"
  "au_haltedReason (snd (after_cache_read env stored c s)) = au_haltedReason s"
  "au_haltedReason (snd (hear_grant outcome c s)) = au_haltedReason s"
proof -
  show a: "au_haltedReason (snd (answer_caller c result s)) = au_haltedReason s" for c result and s :: authClient
    by (simp add: answer_caller_def)
  show b: "au_haltedReason (snd (give_token c token s)) = au_haltedReason s" for c token and s :: authClient
    by (simp add: give_token_def answer_caller_def)
  show d: "au_haltedReason (snd (sharedGrant env c s)) = au_haltedReason s" for c and s :: authClient
    by (simp add: sharedGrant_def caller_waits_def a split: option.split)
  show "au_haltedReason (snd (after_cache_read env stored c s)) = au_haltedReason s"
    by (simp add: after_cache_read_def Let_def b d split: option.split)
  show "au_haltedReason (snd (hear_grant outcome c s)) = au_haltedReason s"
    by (simp add: hear_grant_def a b split: sum.split)
qed

definition may_resume :: "authClient \<Rightarrow> bool" where
  "may_resume s = ((\<exists>stored. au_cacheRead s = CacheKnown stored) \<and> (au_haltedReason s = None \<or> au_inFlight s = None))"

lemma keeps_idle:
  "au_inFlight (snd (hear_grant outcome c s)) = au_inFlight s"
  "au_haltedReason s = Some reason \<Longrightarrow> au_inFlight s = None \<Longrightarrow> au_inFlight (snd (sharedGrant env c s)) = None"
  by (simp_all add: hear_grant_def answer_caller_def give_token_def sharedGrant_def split: sum.split)

lemma may_resume_kept:
  "may_resume s \<Longrightarrow> may_resume (snd (hear_grant outcome c s))" "may_resume s \<Longrightarrow> may_resume (snd (sharedGrant env c s))"
  by (simp add: may_resume_def keeps_read keeps_halted keeps_idle(1))
    (cases "au_haltedReason s"; simp add: may_resume_def keeps_read keeps_halted keeps_idle(2))

lemma inv_resume:
  assumes "auth_inv (set cs \<union> R) s" and "distinct cs" and "set cs \<inter> R = {}" and "K s"
    and "\<And>c s R. auth_inv (insert c R) s \<Longrightarrow> c \<notin> R \<Longrightarrow> K s \<Longrightarrow> auth_inv R (snd (resume c s)) \<and> K (snd (resume c s))"
  shows "auth_inv R (snd (resume_callers resume cs s)) \<and> K (snd (resume_callers resume cs s))"
  using assms(1-4)
proof (induction cs arbitrary: s)
  case (Cons c cs)
  have "auth_inv (set cs \<union> R) (snd (resume c s)) \<and> K (snd (resume c s))"
    using Cons.prems by (intro assms(5)) auto
  then show ?case using Cons by (auto split: prod.splits) (metis snd_conv)+
qed simp


section \<open>Steps\<close>

lemma waiting_set: "jm_wf (au_callers s) \<Longrightarrow> set (waiting w s) = held_by {} w s"
  by (force simp: waiting_def held_by_def jm_get_entry [symmetric])

lemma waiting_distinct: "jm_wf (au_callers s) \<Longrightarrow> distinct (waiting w s)"
  unfolding waiting_def jm_wf_def by (rule distinct_map_filter)

lemma held_less: "held_by R w s = held_by {} w s - R"
  by (auto simp: held_by_def)

lemma inv_settled:
  assumes "auth_inv {} s" and "au_inFlight s \<noteq> None"
  shows "auth_inv {} (snd (grant_settled env result s))"
proof -
  let ?G = "waiting OnGrant s" and ?A = "waiting OnAbandoned s"
  have wf: "jm_wf (au_callers s)" using assms(1) by (simp add: auth_inv_def)
  note ws = waiting_set [OF wf] waiting_distinct [OF wf]
  have apart: "held_by {} w s \<inter> held_by {} w' s = {}" if "w \<noteq> w'" for w w'
    using that by (auto simp: held_by_def)
  have known: "\<exists>stored. au_cacheRead s = CacheKnown stored" using assms by (auto simp: auth_inv_def)
  let ?s = "s\<lparr>au_inFlight := None\<rparr>"
  have "held_by (set ?G \<union> set ?A) w ?s = held_by {} w s - (held_by {} OnGrant s \<union> held_by {} OnAbandoned s)" for w
    unfolding held_frame ws(1) by (rule held_less)
  then have "auth_inv (set ?G \<union> set ?A) ?s"
    using assms(1) wf known by (auto simp: auth_inv_def held_frame)
  then have one: "auth_inv (set ?A) (snd (resume_callers (hear_grant result) ?G ?s))
      \<and> may_resume (snd (resume_callers (hear_grant result) ?G ?s))"
    using inv_answer inv_give known ws apart may_resume_kept(1)
    by (intro inv_resume [where K = may_resume]) (auto simp: hear_grant_def may_resume_def split: sum.split)
  have "auth_inv {} (snd (resume_callers (sharedGrant env) ?A (snd (resume_callers (hear_grant result) ?G ?s))))"
    by (rule conjunct1 [OF inv_resume [where K = may_resume]])
      (use one inv_shared ws may_resume_kept(2) in \<open>auto simp: may_resume_def\<close>)
  then show ?thesis by (auto simp: grant_settled_def split: prod.splits)
qed

lemma inv_stage:
  assumes "auth_inv {} s" and "au_haltedReason s = None" and "\<And>e. stage \<noteq> DeletingCache e"
  shows "auth_inv {} (grant_stage stage s)"
  using assms by (auto simp: auth_inv_def grant_stage_def held_frame split: option.splits)

lemma inv_transient:
  assumes "auth_inv {} s" and "au_inFlight s \<noteq> None"
  shows "auth_inv {} (snd (fail_transiently env failure s))"
  using inv_settled [of "s\<lparr>au_lastTransient := Some (tf_kind failure)\<rparr>"] assms
  by (auto simp: fail_transiently_def reportTransient_def inv_token_fields split: prod.splits) (metis snd_conv)

lemma attempt_stage_iff: "attempt_stage s = Some stage \<longleftrightarrow> (\<exists>a. au_inFlight s = Some a \<and> ga_stage a = stage)"
  by (auto simp: attempt_stage_def)

lemma not_halted:
  assumes "auth_inv R s" and "attempt_stage s = Some stage" and "\<And>e. stage \<noteq> DeletingCache e"
  shows "au_haltedReason s = None"
  using assms by (auto simp: auth_inv_def attempt_stage_iff split: option.splits)

lemma inv_request:
  assumes "auth_inv {} s" and "attempt_stage s = Some (ReadingBody status)"
  shows "auth_inv {} (snd (requestGrant env status body salt s))"
proof -
  have f: "au_inFlight s \<noteq> None" using assms(2) by (auto simp: attempt_stage_def)
  have h: "au_haltedReason s = None" by (rule not_halted [OF assms]) simp
  have d: "auth_inv {} (grant_stage (DeletingCache e) (s\<lparr>au_haltedReason := Some r\<rparr>))" if "\<not> attempt_aborted s" for e r
    using assms(1) f that by (auto simp: auth_inv_def grant_stage_def held_frame attempt_aborted_def split: option.splits)
  have w: "auth_inv {} (grant_stage (WritingCache t) (s\<lparr>au_lastTransient := l\<rparr>))" "auth_inv {} (grant_stage (WritingCache t) s)"
    for t l
    using assms(1) h by (auto intro!: inv_stage simp: inv_token_fields)
  show ?thesis
    using inv_settled [OF assms(1) f] inv_transient [OF assms(1) f] d w
    by (auto simp: requestGrant_def grantFailure_def Let_def reportRecovery_def split: option.split prod.splits)
      (metis snd_conv)+
qed

lemma inv_called:
  assumes "auth_inv {} s" and "\<not> jm_has (au_callers s) c"
  shows "auth_inv {} (snd (currentToken env c aborted s))"
proof -
  have i: "auth_inv {c} s"
  proof -
    have "held_by {c} w s = held_by {} w s" for w
      using assms(2) by (auto simp: held_by_def jm_has_def)
    then show ?thesis using assms(1) by (auto simp: auth_inv_def split: option.splits)
  qed
  have wf: "jm_wf (au_callers s)" using assms(1) by (simp add: auth_inv_def)
  have r: "auth_inv {} (caller_waits c OnCacheRead (s\<lparr>au_cacheRead := CacheReading\<rparr>))"
    if "au_cacheRead s = CacheNotRead \<or> au_cacheRead s = CacheReading"
  proof -
    have k: "au_haltedReason s = None" "au_inFlight s = None" using assms(1) that by (auto simp: auth_inv_def)
    have "held_by {} w (caller_waits c OnCacheRead (s\<lparr>au_cacheRead := CacheReading\<rparr>))
        = (if w = OnCacheRead then insert c (held_by {c} w s) else held_by {c} w s)" for w
      using held_wait [of c "{}" w OnCacheRead "s\<lparr>au_cacheRead := CacheReading\<rparr>"] by (simp add: held_frame)
    then show ?thesis using i k wf by (auto simp: auth_inv_def caller_waits_def)
  qed
  have same: "auth_inv {} (caller_waits c OnCacheRead s)" if "au_cacheRead s = CacheReading"
    using r that by (metis authClient.surjective authClient.update_convs(4))
  show ?thesis
    using assms(1) r i same inv_after_read [of c "{}" s]
    by (auto simp: currentToken_def split: option.split cacheRead.split)
qed

lemma inv_cache_answered:
  assumes "auth_inv {} s" and "au_cacheRead s = CacheReading"
  shows "auth_inv {} (snd (cache_answered env contents s))"
proof -
  let ?C = "waiting OnCacheRead s"
  have wf: "jm_wf (au_callers s)" using assms(1) by (simp add: auth_inv_def)
  note ws = waiting_set [OF wf] waiting_distinct [OF wf]
  have idle: "au_haltedReason s = None" "au_inFlight s = None" using assms by (auto simp: auth_inv_def)
  have "auth_inv (set ?C \<union> {}) (s\<lparr>au_cacheRead := CacheKnown stored\<rparr>)" for stored
    using assms(1) idle wf
    by (auto simp: auth_inv_def held_frame ws held_less [of "held_by {} OnCacheRead s"])
  then have "auth_inv {} (snd (resume_callers (after_cache_read env t) ?C (s\<lparr>au_cacheRead := CacheKnown stored\<rparr>)))" for t stored
    using inv_after_read ws idle
    by (intro conjunct1 [OF inv_resume [where K = "\<lambda>s. (\<exists>stored. au_cacheRead s = CacheKnown stored) \<and> au_haltedReason s = None"]])
      (auto simp: keeps_read keeps_halted)
  then show ?thesis
    by (auto simp: cache_answered_def split: prod.splits) (metis snd_conv)
qed

lemma inv_aborted:
  assumes "auth_inv {} s"
  shows "auth_inv {} (snd (caller_aborted c reason s))"
proof -
  have gone: "held_by {} w (s\<lparr>au_callers := jm_delete c (au_callers s)\<rparr>) = held_by {} w s - {c}" for w
    using held_answer [of c "{}"] held_less [of "{c}"] by simp
  have gone': "held_by {} w (s\<lparr>au_inFlight := f, au_callers := jm_delete c (au_callers s)\<rparr>) = held_by {} w s - {c}" for w f
    by (auto simp: held_by_def)
  have wf: "jm_wf (jm_delete c (au_callers s))" using assms by (auto simp: auth_inv_def)
  have keep: "held_by {} w s - {c} = held_by {} w s" if "jm_get (au_callers s) c \<noteq> Some w" for w
    using that by (auto simp: held_by_def)
  show ?thesis
  proof (cases "jm_get (au_callers s) c = Some OnGrant")
    case False
    then show ?thesis
      using assms wf keep [of OnGrant]
      by (auto simp: caller_aborted_def answer_caller_def auth_inv_def gone split: option.splits)
  next
    case True
    then have c: "c \<in> held_by {} OnGrant s" by (simp add: held_by_def)
    then obtain a where a: "au_inFlight s = Some a" using assms by (auto simp: auth_inv_def split: option.splits)
    have z: "ga_waiters a - 1 = card (held_by {} OnGrant s - {c})" "\<not> ga_aborted a" "held_by {} OnAbandoned s = {}"
      using assms a c by (auto simp: auth_inv_def)
    then have "ga_waiters a - 1 = 0 \<longleftrightarrow> held_by {} OnGrant s - {c} = {}" by simp
    then show ?thesis
      using assms a wf z True
      by (auto simp: caller_aborted_def answer_caller_def auth_inv_def gone')
  qed
qed

lemma inv_step:
  assumes "auth_inv {} s" and "auth_enabled e s" and "auth_step env e s = (outs, s')"
  shows "auth_inv {} s'"
proof -
  have s': "s' = snd (auth_step env e s)" using assms(3) by simp
  show ?thesis
  proof (cases e)
    case (Called c aborted)
    then show ?thesis using assms(1,2) inv_called by (simp add: s')
  next
    case (CallerAborted c reason)
    then show ?thesis using assms(1) inv_aborted by (simp add: s')
  next
    case (CacheFileRead contents)
    then show ?thesis using assms(1,2) inv_cache_answered by (simp add: s')
  next
    case (ResponseArrived result)
    then have st: "attempt_stage s = Some Requesting" using assms(2) by simp
    then have f: "au_inFlight s \<noteq> None" by (auto simp: attempt_stage_def)
    have "auth_inv {} (grant_stage (ReadingBody status) s)" for status
      by (rule inv_stage [OF assms(1) not_halted [OF assms(1) st]]) simp_all
    then show ?thesis
      using ResponseArrived inv_settled [OF assms(1) f] inv_transient [OF assms(1) f]
      by (simp add: s' fetchGrant_def split: sum.split)
  next
    case (BodyArrived body salt)
    then show ?thesis
      using assms(1,2) inv_request by (auto simp: s' split: option.splits grantStage.splits)
  next
    case (CacheFileDeleted ok)
    then show ?thesis
      using assms(1,2) inv_settled [OF assms(1)]
      by (auto simp: s' cache_deleted_def attempt_stage_def split: option.splits grantStage.splits prod.splits)
        (metis snd_conv)+
  next
    case (CacheFileWritten ok)
    then show ?thesis
      using assms(1,2) inv_settled [OF assms(1)]
      by (auto simp: s' cache_written_def attempt_stage_def split: option.splits grantStage.splits prod.splits)
        (metis snd_conv)+
  qed
qed

lemma run_auth_inv: "auth_run tr s \<Longrightarrow> auth_inv {} s"
proof (induction rule: auth_run.induct)
  case created
  then show ?case by (auto simp: auth_inv_def createAuthClient_def held_by_def)
qed (rule inv_step)


section \<open>Calls and answers\<close>

fun answers_caller :: "nat \<Rightarrow> authOutput \<Rightarrow> bool" where
  "answers_caller c (Answered c' result) = (c' = c)"
| "answers_caller c _ = False"

definition answers :: "nat \<Rightarrow> authOutput list \<Rightarrow> nat" where
  "answers c outs = length (filter (answers_caller c) outs)"

definition still_waits :: "nat \<Rightarrow> authClient \<Rightarrow> nat" where
  "still_waits c s = (if jm_has (au_callers s) c then 1 else 0)"

text \<open>Each of \<open>C\<close> was answered or waits again, and nobody else noticed.\<close>

definition serves :: "nat set \<Rightarrow> authClient \<Rightarrow> authOutput list \<times> authClient \<Rightarrow> bool" where
  "serves C s r = (\<forall>c. (c \<in> C \<longrightarrow> answers c (fst r) + still_waits c (snd r) = 1)
     \<and> (c \<notin> C \<longrightarrow> answers c (fst r) = 0 \<and> still_waits c (snd r) = still_waits c s))"

lemma answers_simps [simp]:
  "answers c [] = 0" "answers c (x # xs) = (if answers_caller c x then 1 else 0) + answers c xs"
  "answers c (xs @ ys) = answers c xs + answers c ys"
  by (simp_all add: answers_def)

lemma serves_frame: "au_callers s = au_callers s' \<Longrightarrow> serves C s r = serves C s' r"
  by (simp add: serves_def still_waits_def)

lemma still_waits_set:
  "still_waits d (caller_waits c w s) = (if d = c then 1 else still_waits d s)"
  "still_waits d (s\<lparr>au_inFlight := f\<rparr>) = still_waits d s"
  by (simp_all add: still_waits_def caller_waits_def jm_has_def)

lemma serves_caller:
  "serves {c} s (answer_caller c result s)" "serves {c} s (give_token c token s)"
  "serves {c} s (sharedGrant env c s)" "serves {c} s (hear_grant outcome c s)"
  "serves {c} s (after_cache_read env stored c s)"
proof -
  show a: "serves {c} s (answer_caller c result s)" for result s
    by (simp add: serves_def answer_caller_def still_waits_def jm_has_def)
  show g: "serves {c} s (give_token c token s)" for token s
    by (simp add: serves_def give_token_def answer_caller_def still_waits_def jm_has_def)
  show h: "serves {c} s (sharedGrant env c s)" for s
  proof (cases "au_haltedReason s = None \<or> (\<exists>a. au_inFlight s = Some a \<and> ga_aborted a)")
    case True
    then show ?thesis
      by (cases "au_inFlight s") (auto simp: sharedGrant_def serves_def still_waits_set split: option.split)
  next
    case False
    then show ?thesis using a by (cases "au_inFlight s") (auto simp: sharedGrant_def)
  qed
  show "serves {c} s (hear_grant outcome c s)"
    using a g by (auto simp: hear_grant_def split: sum.split)
  show "serves {c} s (after_cache_read env stored c s)"
  proof -
    have "serves {c} s (give_token c token (s\<lparr>au_cached := t\<rparr>))" "serves {c} s (sharedGrant env c (s\<lparr>au_cached := t\<rparr>))"
      for token t
      using g [of "s\<lparr>au_cached := t\<rparr>" token] h [of "s\<lparr>au_cached := t\<rparr>"]
      by (simp_all add: serves_frame [of s "s\<lparr>au_cached := t\<rparr>"])
    then show ?thesis by (simp add: after_cache_read_def Let_def split: option.split)
  qed
qed

lemma serves_compose:
  assumes "serves C s (outs, s1)" and "serves D s1 (outs', s2)" and "C \<inter> D = {}"
  shows "serves (C \<union> D) s (outs @ outs', s2)"
  using assms unfolding serves_def by (metis Un_iff add.commute add_0 disjoint_iff fst_conv snd_conv answers_simps(3))

lemma serves_resume:
  assumes "\<And>c s. serves {c} s (resume c s)" and "distinct cs"
  shows "serves (set cs) s (resume_callers resume cs s)"
  using assms(2)
proof (induction cs arbitrary: s)
  case Nil
  then show ?case by (simp add: serves_def)
next
  case (Cons c cs)
  obtain outs s1 where r: "resume c s = (outs, s1)" by fastforce
  obtain outs' s2 where q: "resume_callers resume cs s1 = (outs', s2)" by fastforce
  have "serves ({c} \<union> set cs) s (outs @ outs', s2)"
  proof (rule serves_compose)
    show "serves {c} s (outs, s1)" using assms(1) [of c s] r by simp
    show "serves (set cs) s1 (outs', s2)" using Cons.IH [of s1] Cons.prems q by simp
    show "{c} \<inter> set cs = {}" using Cons.prems by simp
  qed
  then show ?case by (simp add: r q)
qed

lemma serves_settled:
  assumes "jm_wf (au_callers s)"
  shows "serves (held_by {} OnGrant s \<union> held_by {} OnAbandoned s) s (grant_settled env result s)"
proof -
  obtain outs s1 where r: "resume_callers (hear_grant result) (waiting OnGrant s) (s\<lparr>au_inFlight := None\<rparr>) = (outs, s1)"
    by fastforce
  obtain outs' s2 where q: "resume_callers (sharedGrant env) (waiting OnAbandoned s) s1 = (outs', s2)" by fastforce
  note ws = waiting_set [OF assms] waiting_distinct [OF assms]
  have "serves (held_by {} OnGrant s) s (outs, s1)"
    using serves_resume [of "hear_grant result" "waiting OnGrant s" "s\<lparr>au_inFlight := None\<rparr>", OF serves_caller(4) ws(2)]
      serves_frame [of "s\<lparr>au_inFlight := None\<rparr>" s] r ws(1) by simp
  moreover have "serves (held_by {} OnAbandoned s) s1 (outs', s2)"
    using serves_resume [of "sharedGrant env", OF serves_caller(3) ws(2)] q ws(1) by metis
  ultimately show ?thesis
    using r q by (simp add: grant_settled_def) (rule serves_compose, auto simp: held_by_def)
qed


definition no_answers :: "authOutput list \<Rightarrow> bool" where
  "no_answers outs = (\<forall>c. answers c outs = 0)"

lemma serves_prefix: "no_answers logged \<Longrightarrow> serves C s (outs, s') \<Longrightarrow> serves C s (logged @ outs, s')"
  by (simp add: serves_def no_answers_def)

lemma serves_nobody: "no_answers outs \<Longrightarrow> au_callers s' = au_callers s \<Longrightarrow> serves {} s (outs, s')"
  by (simp add: serves_def no_answers_def still_waits_def)

text \<open>Everyone a step serves was calling in it or had been waiting.\<close>

definition fair_step :: "authEvent \<Rightarrow> authClient \<Rightarrow> authOutput list \<times> authClient \<Rightarrow> bool" where
  "fair_step e s r = (\<exists>C. serves C s r \<and> (\<forall>c. c \<in> C \<longrightarrow> (\<exists>a. e = Called c a) \<or> jm_has (au_callers s) c)
    \<and> (\<forall>c a. e = Called c a \<longrightarrow> c \<in> C))"

lemma fair_settled:
  assumes "jm_wf (au_callers s)" and "au_callers s = au_callers t" and "\<And>c a. e \<noteq> Called c a"
    and "no_answers logged"
  shows "fair_step e t (logged @ fst (grant_settled env result s), snd (grant_settled env result s))"
proof -
  let ?C = "held_by {} OnGrant s \<union> held_by {} OnAbandoned s"
  have "serves ?C t (logged @ fst (grant_settled env result s), snd (grant_settled env result s))"
    using serves_settled [OF assms(1)] assms(2,4) serves_frame [OF assms(2)] by (intro serves_prefix) simp_all
  moreover have "jm_has (au_callers t) c" if "c \<in> ?C" for c
    using that assms(2) by (auto simp: held_by_def jm_has_def)
  ultimately show ?thesis using assms(3) unfolding fair_step_def by blast
qed

lemma fair_quiet:
  "no_answers outs \<Longrightarrow> au_callers s' = au_callers s \<Longrightarrow> (\<And>c a. e \<noteq> Called c a) \<Longrightarrow> fair_step e s (outs, s')"
  using serves_nobody unfolding fair_step_def by blast

lemma fair_transient:
  assumes "jm_wf (au_callers s)" and "\<And>c a. e \<noteq> Called c a"
  shows "fair_step e s (fail_transiently env failure s)"
proof -
  obtain logged err s1 where r: "reportTransient failure s = (logged, err, s1)" using prod_cases3 by blast
  then have "no_answers logged" "au_callers s1 = au_callers s"
    by (auto simp: reportTransient_def no_answers_def)
  with fair_settled [of s1 s e logged env "Inl err"] assms r show ?thesis
    by (auto simp: fail_transiently_def split: prod.split)
qed

lemma step_fair:
  assumes "auth_inv {} s" and "auth_enabled e s" and "auth_step env e s = r"
  shows "fair_step e s r"
proof -
  have wf: "jm_wf (au_callers s)" using assms(1) by (simp add: auth_inv_def)
  have one: "fair_step (Called c a) s r" if "serves {c} s r" for c a r
    using that unfolding fair_step_def by blast
  have settled: "fair_step e s (logged @ outs, s')"
    if "grant_settled env result t = (outs, s')" "au_callers t = au_callers s" "\<And>c a. e \<noteq> Called c a" "no_answers logged"
    for result t outs s' logged
    using fair_settled [of t s e logged env result] that wf by simp
  have n: "no_answers []" "\<And>l. no_answers [AuthLog l]" "\<And>l. no_answers [AuthLog l, DeleteCacheFile]"
    "\<And>l j. no_answers [AuthLog l, WriteCacheFile j]" "\<And>j. no_answers [WriteCacheFile j]"
    by (simp_all add: no_answers_def)
  have g: "fair_step e s (grant_settled env outcome s)" if "\<And>c a. e \<noteq> Called c a" for outcome
    using settled [OF prod.collapse [symmetric], of s "[]"] that n by simp
  have t: "fair_step e s (case grant_settled env outcome s of (outs, s') \<Rightarrow> (AuthLog l # outs, s'))"
    if "\<And>c a. e \<noteq> Called c a" for outcome l
    using settled [of outcome s _ _ "[AuthLog l]"] that n by (simp split: prod.split)
  show ?thesis
  proof (cases e)
    case (Called c aborted)
    have "serves {c} s (currentToken env c aborted s)"
    proof (cases "aborted = None \<and> au_haltedReason s = None \<and> (\<exists>stored. au_cacheRead s = CacheKnown stored)")
      case True
      then show ?thesis using serves_caller(5) [of c s env] by (auto simp: currentToken_def)
    next
      case False
      then show ?thesis
        using assms(2) Called
        by (auto simp: currentToken_def serves_def still_waits_def caller_waits_def jm_has_def
            split: option.split cacheRead.split)
    qed
    then show ?thesis using Called assms(3) one by simp
  next
    case (CallerAborted c reason)
    have "serves {c} s (caller_aborted c reason s)"
      by (simp add: caller_aborted_def serves_def answer_caller_def still_waits_def jm_has_def)
    then show ?thesis
      using CallerAborted assms(2,3) unfolding fair_step_def by auto
  next
    case (CacheFileRead contents)
    obtain logged stored where k: "readCachedToken env contents = (logged, stored)" by fastforce
    then have q: "no_answers logged"
      by (auto simp: readCachedToken_def readCacheFile_def n split: cacheContents.splits option.splits if_splits)
    have "serves (held_by {} OnCacheRead s) s (resume_callers (after_cache_read env stored) (waiting OnCacheRead s)
        (s\<lparr>au_cacheRead := CacheKnown stored\<rparr>))"
      using serves_resume [of "after_cache_read env stored" "waiting OnCacheRead s" "s\<lparr>au_cacheRead := CacheKnown stored\<rparr>",
          OF serves_caller(5) waiting_distinct [OF wf]]
        waiting_set [OF wf] serves_frame [of "s\<lparr>au_cacheRead := CacheKnown stored\<rparr>" s] by simp
    then have "serves (held_by {} OnCacheRead s) s (cache_answered env contents s)"
      using serves_prefix [OF q] by (auto simp: cache_answered_def k split: prod.split)
    then show ?thesis
      using CacheFileRead assms(3) unfolding fair_step_def by (auto simp: held_by_def jm_has_def)
  next
    case (ResponseArrived result)
    have "fair_step e s ([], grant_stage stage s)" for stage
      using ResponseArrived n by (intro fair_quiet) (auto simp: grant_stage_def)
    then have "fair_step e s (fetchGrant env result s)"
      using g fair_transient [OF wf] ResponseArrived by (cases result) (simp_all add: fetchGrant_def)
    then show ?thesis using ResponseArrived assms(3) by simp
  next
    case (BodyArrived body salt)
    then obtain status where st: "attempt_stage s = Some (ReadingBody status)"
      using assms(2) by (auto split: option.splits grantStage.splits)
    have w: "fair_step e s (logged, grant_stage stage t)" if "no_answers logged" "au_callers t = au_callers s" for logged stage t
      using that BodyArrived by (intro fair_quiet) (auto simp: grant_stage_def)
    have f: "fair_step e s (fail_transiently env failure s)" for failure
      using BodyArrived by (intro fair_transient [OF wf]) simp
    have "fair_step e s (requestGrant env status body salt s)"
      using BodyArrived g t f w n unfolding requestGrant_def grantFailure_def Let_def reportRecovery_def
      by (simp split: option.split)
    then show ?thesis using BodyArrived st assms(3) by simp
  next
    case (CacheFileDeleted ok)
    then show ?thesis
      using assms(2,3) g t by (cases ok) (auto simp: cache_deleted_def split: option.splits grantStage.splits)
  next
    case (CacheFileWritten ok)
    then show ?thesis
      using assms(2,3) g t by (cases ok) (auto simp: cache_written_def split: option.splits grantStage.splits)
  qed
qed


fun calls_of :: "nat \<Rightarrow> authEvent \<Rightarrow> nat" where
  "calls_of c (Called c' aborted) = (if c' = c then 1 else 0)"
| "calls_of c _ = 0"

definition calls :: "nat \<Rightarrow> (authEvent \<times> authOutput list) list \<Rightarrow> nat" where
  "calls c tr = sum_list (map (\<lambda>(e, outs). calls_of c e) tr)"

lemma fair_balance:
  assumes "fair_step e s (outs, s')" and "auth_enabled e s"
  shows "answers c outs + still_waits c s' = still_waits c s + calls_of c e"
proof -
  obtain C where C: "serves C s (outs, s')"
    "\<And>d. d \<in> C \<Longrightarrow> (\<exists>a. e = Called d a) \<or> jm_has (au_callers s) d" "\<And>d a. e = Called d a \<Longrightarrow> d \<in> C"
    using assms(1) unfolding fair_step_def by blast
  show ?thesis
  proof (cases "\<exists>a. e = Called c a")
    case True
    then show ?thesis using C assms(2) by (auto simp: serves_def still_waits_def)
  next
    case False
    then have "calls_of c e = 0" by (cases e) auto
    moreover have "c \<in> C \<Longrightarrow> still_waits c s = 1" using C(2) [of c] False by (auto simp: still_waits_def)
    ultimately show ?thesis using C(1) by (cases "c \<in> C") (auto simp: serves_def)
  qed
qed

text \<open>
  C21. Every call of \<open>idToken\<close> is answered once. In any run, the calls a caller has made are those that
  were answered plus the one that waits, and a caller that waits always has something under way
  that will answer it: the read of the cache file, or the grant attempt.
\<close>

theorem each_call_is_answered_once:
  assumes "auth_run tr s"
  shows "calls c tr = answers c (concat (map snd tr)) + (if jm_has (au_callers s) c then 1 else 0)
    \<and> (jm_has (au_callers s) c \<longrightarrow> au_cacheRead s = CacheReading \<or> au_inFlight s \<noteq> None)"
proof -
  have "calls c tr = answers c (concat (map snd tr)) + still_waits c s"
    using assms
  proof (induction rule: auth_run.induct)
    case created
    then show ?case by (simp add: calls_def still_waits_def createAuthClient_def jm_has_def)
  next
    case (snoc tr s e env outs s')
    have "answers c outs + still_waits c s' = still_waits c s + calls_of c e"
      by (rule fair_balance [OF step_fair [OF run_auth_inv [OF snoc.hyps(1)] snoc.hyps(2,3)] snoc.hyps(2)])
    with snoc.IH show ?case by (simp add: calls_def)
  qed
  moreover have "au_cacheRead s = CacheReading \<or> au_inFlight s \<noteq> None" if waits: "jm_has (au_callers s) c"
  proof -
    obtain w where "c \<in> held_by {} w s" using waits by (auto simp: held_by_def jm_has_def)
    then show ?thesis
      using run_auth_inv [OF assms] by (cases w) (auto simp: auth_inv_def split: option.splits)
  qed
  ultimately show ?thesis by (simp add: still_waits_def)
qed

section \<open>Requests\<close>

fun is_request :: "authOutput \<Rightarrow> bool" where
  "is_request (GrantRequested body) = True"
| "is_request _ = False"

definition requests :: "authOutput list \<Rightarrow> nat" where
  "requests outs = length (filter is_request outs)"

definition open_requests :: "authClient \<Rightarrow> nat" where
  "open_requests s = (if attempt_stage s = Some Requesting then 1 else 0)"

lemma requests_simps [simp]:
  "requests [] = 0" "requests (x # xs) = (if is_request x then 1 else 0) + requests xs"
  "requests (xs @ ys) = requests xs + requests ys"
  by (simp_all add: requests_def)

definition opens :: "authClient \<Rightarrow> authOutput list \<times> authClient \<Rightarrow> bool" where
  "opens s r = (requests (fst r) + open_requests s = open_requests (snd r))"

lemma opens_caller:
  "opens s (answer_caller c result s)" "opens s (give_token c token s)" "opens s (sharedGrant env c s)"
  "opens s (hear_grant outcome c s)" "opens s (after_cache_read env stored c s)"
proof -
  show a: "opens s (answer_caller c result s)" for result s
    by (simp add: opens_def answer_caller_def open_requests_def attempt_stage_def)
  show g: "opens s (give_token c token s)" for token s
    by (simp add: opens_def give_token_def answer_caller_def open_requests_def attempt_stage_def)
  show h: "opens s (sharedGrant env c s)" for s
    using a by (auto simp: sharedGrant_def opens_def caller_waits_def open_requests_def attempt_stage_def
        answer_caller_def split: option.splits)
  show "opens s (hear_grant outcome c s)" using a g by (auto simp: hear_grant_def split: sum.split)
  have "open_requests (s\<lparr>au_cached := t\<rparr>) = open_requests s" for t
    by (simp add: open_requests_def attempt_stage_def)
  then show "opens s (after_cache_read env stored c s)"
    using g h unfolding opens_def by (auto simp: after_cache_read_def Let_def split: option.split) metis+
qed

lemma opens_resume:
  assumes "\<And>c s. opens s (resume c s)"
  shows "opens s (resume_callers resume cs s)"
proof (induction cs arbitrary: s)
  case Nil
  then show ?case by (simp add: opens_def)
next
  case (Cons c cs)
  from assms [of s c] Cons show ?case
    by (auto simp: opens_def split: prod.splits) (metis add.commute add.left_commute fst_conv snd_conv)
qed

lemma settled_requests: "requests (fst (grant_settled env result s)) = open_requests (snd (grant_settled env result s))"
proof -
  let ?s = "s\<lparr>au_inFlight := None\<rparr>"
  obtain outs s1 where r: "resume_callers (hear_grant result) (waiting OnGrant s) ?s = (outs, s1)" by fastforce
  obtain outs' s2 where q: "resume_callers (sharedGrant env) (waiting OnAbandoned s) s1 = (outs', s2)" by fastforce
  have "open_requests ?s = 0" by (simp add: open_requests_def attempt_stage_def)
  moreover have "requests outs + open_requests ?s = open_requests s1"
    using opens_resume [of "hear_grant result" ?s "waiting OnGrant s", OF opens_caller(4)] by (simp add: opens_def r)
  moreover have "requests outs' + open_requests s1 = open_requests s2"
    using opens_resume [of "sharedGrant env" s1 "waiting OnAbandoned s", OF opens_caller(3)] by (simp add: opens_def q)
  ultimately show ?thesis by (simp add: grant_settled_def r q)
qed


fun responses_of :: "authEvent \<Rightarrow> nat" where
  "responses_of (ResponseArrived result) = 1"
| "responses_of _ = 0"

lemma transient_requests:
  "requests (fst (fail_transiently env failure s)) = open_requests (snd (fail_transiently env failure s))"
  using settled_requests by (auto simp: fail_transiently_def reportTransient_def split: prod.split) (metis fst_conv snd_conv)

lemma stage_requests: "stage \<noteq> Requesting \<Longrightarrow> open_requests (grant_stage stage s) = 0"
  by (auto simp: open_requests_def attempt_stage_def grant_stage_def)

lemma step_requests:
  assumes "auth_enabled e s" and "auth_step env e s = (outs, s')"
  shows "requests outs + open_requests s = open_requests s' + responses_of e"
proof -
  have o: "outs = fst (auth_step env e s)" "s' = snd (auth_step env e s)" using assms(2) by simp_all
  show ?thesis
  proof (cases e)
    case (Called c aborted)
    have "open_requests (caller_waits c w t) = open_requests t" "open_requests (s\<lparr>au_cacheRead := k\<rparr>) = open_requests s"
      for w t k by (simp_all add: open_requests_def attempt_stage_def caller_waits_def)
    then have "opens s (currentToken env c aborted s)"
      using opens_caller(5) [of s env _ c]
      by (auto simp: currentToken_def opens_def split: option.split cacheRead.split)
    then show ?thesis using Called by (simp add: o opens_def)
  next
    case (CallerAborted c reason)
    have "open_requests (snd (caller_aborted c reason s)) = open_requests s"
      by (cases "au_inFlight s") (auto simp: caller_aborted_def answer_caller_def open_requests_def attempt_stage_def)
    then show ?thesis
      using CallerAborted by (simp add: o) (simp add: caller_aborted_def answer_caller_def)
  next
    case (CacheFileRead contents)
    obtain logged stored where k: "readCachedToken env contents = (logged, stored)" by fastforce
    then have "requests logged = 0"
      by (auto simp: readCachedToken_def readCacheFile_def split: cacheContents.splits option.splits if_splits)
    moreover have "open_requests (s\<lparr>au_cacheRead := v\<rparr>) = open_requests s" for v
      by (simp add: open_requests_def attempt_stage_def)
    ultimately show ?thesis
      using CacheFileRead opens_resume [of "after_cache_read env stored" "s\<lparr>au_cacheRead := CacheKnown stored\<rparr>"
          "waiting OnCacheRead s", OF opens_caller(5)]
      by (auto simp: o cache_answered_def k opens_def split: prod.split)
  next
    case (ResponseArrived result)
    then have "open_requests s = 1" using assms(1) by (simp add: open_requests_def)
    then show ?thesis
      using ResponseArrived settled_requests transient_requests stage_requests
      by (cases result) (simp_all add: o fetchGrant_def)
  next
    case (BodyArrived body salt)
    then obtain status where st: "attempt_stage s = Some (ReadingBody status)"
      using assms(1) by (auto split: option.splits grantStage.splits)
    then have "open_requests s = 0" by (simp add: open_requests_def)
    moreover have "requests (fst (requestGrant env status body salt s)) = open_requests (snd (requestGrant env status body salt s))"
      using settled_requests transient_requests stage_requests
      by (auto simp: requestGrant_def grantFailure_def Let_def reportRecovery_def split: option.split prod.split)
        (metis fst_conv snd_conv)+
    ultimately show ?thesis using BodyArrived st by (simp add: o)
  next
    case (CacheFileDeleted ok)
    then obtain e' where st: "attempt_stage s = Some (DeletingCache e')"
      using assms(1) by (auto split: option.splits grantStage.splits)
    then have "open_requests s = 0" by (simp add: open_requests_def)
    moreover have "requests (fst (cache_deleted env e' ok s)) = open_requests (snd (cache_deleted env e' ok s))"
      using settled_requests by (auto simp: cache_deleted_def split: prod.split) (metis fst_conv snd_conv)+
    ultimately show ?thesis using CacheFileDeleted st by (simp add: o)
  next
    case (CacheFileWritten ok)
    then obtain t where st: "attempt_stage s = Some (WritingCache t)"
      using assms(1) by (auto split: option.splits grantStage.splits)
    then have "open_requests s = 0" by (simp add: open_requests_def)
    moreover have "requests (fst (cache_written env t ok s)) = open_requests (snd (cache_written env t ok s))"
      using settled_requests by (auto simp: cache_written_def split: prod.split) (metis fst_conv snd_conv)+
    ultimately show ?thesis using CacheFileWritten st by (simp add: o)
  qed
qed

section \<open>Joining and waiting\<close>

text \<open>
  A call that can only be served by a grant: it is not refused at once, the cache has been read, and the token there is,
  if any, is at or inside its margin of an hour.
\<close>

definition needs_grant :: "authEnv \<Rightarrow> authClient \<Rightarrow> bool" where
  "needs_grant env s = (au_haltedReason s = None \<and> (case au_cached s of
      Some t \<Rightarrow> (\<exists>stored. au_cacheRead s = CacheKnown stored) \<and> ct_expiresAtMs t \<le> au_now env + 3600000
    | None \<Rightarrow> au_cacheRead s = CacheKnown None
        \<or> (\<exists>t. au_cacheRead s = CacheKnown (Some t) \<and> ct_expiresAtMs t \<le> au_now env + 3600000)))"

text \<open>
  Where such a call goes: it starts the one attempt, joins the one that others wait for, or waits for the one that all
  have left.
\<close>

definition takes_its_place :: "authEnv \<Rightarrow> nat \<Rightarrow> authClient \<Rightarrow> authOutput list \<times> authClient \<Rightarrow> bool" where
  "takes_its_place env c s r = (case au_inFlight s of
      None \<Rightarrow> fst r = [GrantRequested (grantBody env)] \<and> jm_get (au_callers (snd r)) c = Some OnGrant
        \<and> au_inFlight (snd r) = Some \<lparr>ga_aborted = False, ga_waiters = 1, ga_stage = Requesting\<rparr>
    | Some attempt \<Rightarrow> fst r = [] \<and>
        (if waiting OnGrant s = []
         then jm_get (au_callers (snd r)) c = Some OnAbandoned \<and> au_inFlight (snd r) = Some attempt
         else jm_get (au_callers (snd r)) c = Some OnGrant
           \<and> au_inFlight (snd r) = Some (attempt\<lparr>ga_waiters := ga_waiters attempt + 1\<rparr>)))"

text \<open>
  What a step does to a caller that waits for an abandoned attempt: nothing while the attempt is there, and when the
  attempt is over it shares one new attempt with all the others that waited.
\<close>

definition starts_over :: "nat \<Rightarrow> authClient \<Rightarrow> authOutput list \<times> authClient \<Rightarrow> bool" where
  "starts_over c s r = (answers c (fst r) = 0 \<and>
     (jm_get (au_callers (snd r)) c = Some OnAbandoned \<and> waiting OnGrant (snd r) = []
        \<and> au_inFlight (snd r) \<noteq> None \<and> requests (fst r) = 0
      \<or> jm_get (au_callers (snd r)) c = Some OnGrant \<and> waiting OnAbandoned (snd r) = [] \<and> requests (fst r) = 1
        \<and> au_inFlight (snd r) = Some \<lparr>ga_aborted = False, ga_waiters = length (waiting OnAbandoned s), ga_stage = Requesting\<rparr>))"

lemma waiting_iff: "jm_wf (au_callers s) \<Longrightarrow> c \<in> set (waiting w s) \<longleftrightarrow> jm_get (au_callers s) c = Some w"
  by (simp add: waiting_set held_by_def)

lemma nobody_waits: "jm_wf (au_callers s) \<Longrightarrow> waiting w s = [] \<longleftrightarrow> held_by {} w s = {}"
  by (simp add: waiting_set [symmetric])

lemma takes_place:
  assumes "auth_inv {} s" and "needs_grant env s"
  shows "takes_its_place env c s (auth_step env (Called c None) s)"
proof -
  obtain stored where known: "au_cacheRead s = CacheKnown stored" and live: "au_haltedReason s = None"
    using assms(2) by (auto simp: needs_grant_def split: option.splits)
  have wf: "jm_wf (au_callers s)" using assms(1) by (simp add: auth_inv_def)
  have same: "auth_step env (Called c None) s = sharedGrant env c (s\<lparr>au_cached := t\<rparr>)"
    if "t = (case au_cached s of None \<Rightarrow> stored | Some t \<Rightarrow> Some t)" for t
    using assms(2) known live that
    by (auto simp: currentToken_def after_cache_read_def Let_def needs_grant_def is_current_def TOKEN_RENEWAL_MARGIN_MS_def
        algebra_simps split: option.splits)
  have left: "ga_aborted attempt = (waiting OnGrant s = [])" if "au_inFlight s = Some attempt" for attempt
    using assms(1) that nobody_waits [OF wf] by (simp add: auth_inv_def)
  show ?thesis
    unfolding same [OF refl]
    using live left by (auto simp: takes_its_place_def sharedGrant_def caller_waits_def split: option.splits)
qed

text \<open>Those who start over: the first makes the request, the rest join it.\<close>

lemma restarted_join:
  assumes "au_haltedReason s = None" and "au_inFlight s = Some \<lparr>ga_aborted = False, ga_waiters = n, ga_stage = Requesting\<rparr>"
  shows "\<exists>s'. resume_callers (sharedGrant env) cs s = ([], s')
    \<and> au_inFlight s' = Some \<lparr>ga_aborted = False, ga_waiters = n + length cs, ga_stage = Requesting\<rparr>
    \<and> (\<forall>c. jm_get (au_callers s') c = (if c \<in> set cs then Some OnGrant else jm_get (au_callers s) c))"
  using assms
proof (induction cs arbitrary: s n)
  case (Cons c cs)
  let ?s = "caller_waits c OnGrant (s\<lparr>au_inFlight := Some \<lparr>ga_aborted = False, ga_waiters = n + 1, ga_stage = Requesting\<rparr>\<rparr>)"
  have "sharedGrant env c s = ([], ?s)" using Cons.prems by (simp add: sharedGrant_def)
  moreover obtain s' where "resume_callers (sharedGrant env) cs ?s = ([], s')"
    "au_inFlight s' = Some \<lparr>ga_aborted = False, ga_waiters = n + 1 + length cs, ga_stage = Requesting\<rparr>"
    "\<forall>c'. jm_get (au_callers s') c' = (if c' \<in> set cs then Some OnGrant else jm_get (au_callers ?s) c')"
    using Cons.IH [of ?s "n + 1"] Cons.prems by (auto simp: caller_waits_def)
  ultimately show ?case by (auto simp: caller_waits_def)
qed simp

lemma restarted_share:
  assumes "au_haltedReason s = None" and "au_inFlight s = None" and "cs \<noteq> []"
  shows "\<exists>s'. resume_callers (sharedGrant env) cs s = ([GrantRequested (grantBody env)], s')
    \<and> au_inFlight s' = Some \<lparr>ga_aborted = False, ga_waiters = length cs, ga_stage = Requesting\<rparr>
    \<and> (\<forall>c. jm_get (au_callers s') c = (if c \<in> set cs then Some OnGrant else jm_get (au_callers s) c))"
proof -
  obtain c rest where cs: "cs = c # rest" using assms(3) by (cases cs) simp_all
  let ?s = "caller_waits c OnGrant (s\<lparr>au_inFlight := Some \<lparr>ga_aborted = False, ga_waiters = 1, ga_stage = Requesting\<rparr>\<rparr>)"
  have "sharedGrant env c s = ([GrantRequested (grantBody env)], ?s)" using assms by (simp add: sharedGrant_def)
  then show ?thesis
    using restarted_join [of ?s 1 env rest] assms(1) unfolding cs by (auto simp: caller_waits_def)
qed

lemma settled_over:
  assumes "auth_inv {} s" and "jm_get (au_callers s) c = Some OnAbandoned"
  shows "starts_over c s (grant_settled env result s)"
proof -
  have wf: "jm_wf (au_callers s)" using assms(1) by (simp add: auth_inv_def)
  have c: "c \<in> set (waiting OnAbandoned s)" using assms(2) waiting_iff [OF wf] by simp
  then have held: "held_by {} OnAbandoned s \<noteq> {}" using waiting_set [OF wf] by blast
  then have state: "au_haltedReason s = None" "held_by {} OnGrant s = {}"
    using assms(1) by (auto simp: auth_inv_def split: option.splits)
  then have nobody: "waiting OnGrant s = []" using nobody_waits [OF wf] by simp
  let ?s = "s\<lparr>au_inFlight := None\<rparr>"
  obtain s' where run: "resume_callers (sharedGrant env) (waiting OnAbandoned s) ?s = ([GrantRequested (grantBody env)], s')"
    and new: "au_inFlight s' = Some \<lparr>ga_aborted = False, ga_waiters = length (waiting OnAbandoned s), ga_stage = Requesting\<rparr>"
    and moved: "\<And>c. jm_get (au_callers s') c = (if c \<in> set (waiting OnAbandoned s) then Some OnGrant else jm_get (au_callers s) c)"
    using restarted_share [of ?s "waiting OnAbandoned s" env] c state(1) by fastforce
  have settled: "grant_settled env result s = ([GrantRequested (grantBody env)], s')"
    by (simp add: grant_settled_def nobody run)
  have "auth_inv {} s'" using inv_settled [OF assms(1), of env result] held settled assms(1)
    by (auto simp: auth_inv_def split: option.splits)
  then have wf': "jm_wf (au_callers s')" by (simp add: auth_inv_def)
  have "waiting OnAbandoned s' = []"
    unfolding nobody_waits [OF wf'] held_by_def using moved waiting_iff [OF wf] by auto
  then show ?thesis
    using c moved new by (simp add: starts_over_def settled answers_def)
qed

lemma over_prefix: "starts_over c s r \<Longrightarrow> starts_over c s (case r of (outs, s') \<Rightarrow> (AuthLog l # outs, s'))"
  by (cases r) (simp add: starts_over_def)

lemma over_transient:
  assumes "auth_inv {} s" and "jm_get (au_callers s) c = Some OnAbandoned"
  shows "starts_over c s (fail_transiently env failure s)"
proof -
  have "starts_over c (s\<lparr>au_lastTransient := l\<rparr>) (grant_settled env result (s\<lparr>au_lastTransient := l\<rparr>))" for l result
    using assms by (intro settled_over) (simp_all add: inv_token_fields)
  then have "starts_over c s (grant_settled env result (s\<lparr>au_lastTransient := l\<rparr>))" for l result
    by (simp add: starts_over_def waiting_def)
  then show ?thesis by (simp add: fail_transiently_def reportTransient_def over_prefix)
qed

lemma abandoned_starts_over:
  assumes "auth_inv {} s" and "jm_get (au_callers s) c = Some OnAbandoned" and "auth_enabled e s"
    and "\<And>reason. e \<noteq> CallerAborted c reason"
  shows "starts_over c s (auth_step env e s)"
proof -
  have wf: "jm_wf (au_callers s)" using assms(1) by (simp add: auth_inv_def)
  have "c \<in> held_by {} OnAbandoned s" using assms(2) by (simp add: held_by_def)
  then obtain attempt where attempt: "au_inFlight s = Some attempt" "ga_aborted attempt" "held_by {} OnGrant s = {}"
    and live: "au_haltedReason s = None" and known: "\<exists>stored. au_cacheRead s = CacheKnown stored"
    and stage: "\<And>e. ga_stage attempt \<noteq> DeletingCache e"
    using assms(1) by (auto simp: auth_inv_def split: option.splits)
  have nobody: "waiting OnGrant s = []" using nobody_waits [OF wf] attempt(3) by simp
  have aborted: "attempt_aborted s" using attempt by (simp add: attempt_aborted_def)
  note over = settled_over [OF assms(1,2)]
  have stays: "starts_over c s (outs, s')"
    if "auth_inv {} s'" "answers c outs = 0" "requests outs = 0" "jm_get (au_callers s') c = Some OnAbandoned" for outs s'
  proof -
    have "c \<in> held_by {} OnAbandoned s'" "jm_wf (au_callers s')" using that(1,4) by (simp_all add: held_by_def auth_inv_def)
    then have "au_inFlight s' \<noteq> None" "waiting OnGrant s' = []"
      using that(1) nobody_waits [of s' OnGrant] by (auto simp: auth_inv_def split: option.splits)
    with that show ?thesis by (simp add: starts_over_def)
  qed
  obtain outs s' where run: "auth_step env e s = (outs, s')" by fastforce
  note inv = inv_step [OF assms(1,3) run]
  show ?thesis
  proof (cases e)
    case (Called c' ab)
    then have c': "c' \<noteq> c" using assms(2,3) by (auto simp: jm_has_def)
    have g: "requests (fst (give_token c' token t)) = 0" "answers c (fst (give_token c' token t)) = 0"
      "jm_get (au_callers (snd (give_token c' token t))) c = jm_get (au_callers t) c" for token t
      using c' by (simp_all add: give_token_def answer_caller_def)
    have h: "requests (fst (sharedGrant env c' (s\<lparr>au_cached := t\<rparr>))) = 0" "answers c (fst (sharedGrant env c' (s\<lparr>au_cached := t\<rparr>))) = 0"
      "jm_get (au_callers (snd (sharedGrant env c' (s\<lparr>au_cached := t\<rparr>)))) c = Some OnAbandoned" for t
      using c' attempt assms(2) by (simp_all add: sharedGrant_def caller_waits_def)
    have "requests (fst (auth_step env e s)) = 0 \<and> answers c (fst (auth_step env e s)) = 0
        \<and> jm_get (au_callers (snd (auth_step env e s))) c = Some OnAbandoned"
      using Called c' known live assms(2) g h
      by (auto simp: currentToken_def after_cache_read_def Let_def split: option.split)
    then show ?thesis using stays inv unfolding run by simp
  next
    case (CallerAborted c' reason)
    then have "c' \<noteq> c" using assms(4) by blast
    then have "requests (fst (auth_step env e s)) = 0 \<and> answers c (fst (auth_step env e s)) = 0
        \<and> jm_get (au_callers (snd (auth_step env e s))) c = Some OnAbandoned"
      using CallerAborted assms(2) by (simp add: caller_aborted_def answer_caller_def)
    then show ?thesis using stays inv unfolding run by simp
  next
    case (CacheFileRead contents)
    then show ?thesis using assms(3) known by auto
  next
    case (ResponseArrived result)
    then show ?thesis
    proof (cases result)
      case (Inl x)
      then show ?thesis using ResponseArrived over aborted by (simp add: fetchGrant_def)
    next
      case (Inr n)
      then show ?thesis
        using stays [OF inv, of outs] ResponseArrived run assms(2) by (auto simp: fetchGrant_def grant_stage_def)
    qed
  next
    case (BodyArrived body salt)
    then show ?thesis
      using assms(3) over aborted by (auto simp: requestGrant_def split: option.splits grantStage.splits)
  next
    case (CacheFileDeleted ok)
    then show ?thesis
      using assms(3) stage attempt by (auto simp: attempt_stage_def split: option.splits grantStage.splits)
  next
    case (CacheFileWritten ok)
    then show ?thesis
      using assms(3) over aborted over_prefix [OF over]
      by (cases ok) (auto simp: cache_written_def split: option.splits grantStage.splits prod.splits)
  qed
qed

text \<open>
  C26. However many callers there are, one grant request is outstanding at most, and they share it. In any run the
  requests sent are those that were answered, and one more exactly while the attempt in flight waits for its response.
  A call that needs a grant makes the request only if no attempt is in flight; it joins an attempt that somebody still
  waits for, and waits, unanswered, for one that all have left. A caller that waits for such an attempt stays until its
  own signal is aborted or the attempt is over; then it and all others that waited share one new request.
\<close>

theorem one_grant_request_at_a_time:
  assumes "auth_run tr s"
  shows "requests (concat (map snd tr)) = sum_list (map (\<lambda>(e, outs). responses_of e) tr) + open_requests s
    \<and> open_requests s \<le> 1
    \<and> (\<forall>env c. needs_grant env s \<longrightarrow> takes_its_place env c s (auth_step env (Called c None) s))
    \<and> (\<forall>env e c. jm_get (au_callers s) c = Some OnAbandoned \<longrightarrow> auth_enabled e s \<longrightarrow>
        (\<forall>reason. e \<noteq> CallerAborted c reason) \<longrightarrow> starts_over c s (auth_step env e s))"
proof -
  have "requests (concat (map snd tr)) = sum_list (map (\<lambda>(e, outs). responses_of e) tr) + open_requests s"
    using assms
  proof (induction rule: auth_run.induct)
    case created
    then show ?case by (simp add: open_requests_def attempt_stage_def createAuthClient_def)
  next
    case (snoc tr s e env outs s')
    with step_requests [OF snoc.hyps(2,3)] show ?case by simp
  qed
  then show ?thesis
    using takes_place [OF run_auth_inv [OF assms]] abandoned_starts_over [OF run_auth_inv [OF assms]]
    by (auto simp: open_requests_def)
qed

section \<open>The refusal\<close>

fun gives_token :: "authOutput \<Rightarrow> bool" where
  "gives_token (Answered c (Inr token)) = True"
| "gives_token _ = False"

definition stays_halted :: "string \<Rightarrow> authOutput list \<times> authClient \<Rightarrow> bool" where
  "stays_halted reason r = (au_haltedReason (snd r) = Some reason \<and> \<not> list_ex is_request (fst r)
    \<and> \<not> list_ex gives_token (fst r))"

lemma halted_caller:
  assumes "au_haltedReason s = Some reason"
  shows "stays_halted reason (answer_caller c (Inl e) s)" "stays_halted reason (sharedGrant env c s)"
  using assms by (auto simp: stays_halted_def answer_caller_def sharedGrant_def caller_waits_def split: option.split)

lemma halted_resume:
  assumes "au_haltedReason s = Some reason"
    and "\<And>c s. au_haltedReason s = Some reason \<Longrightarrow> stays_halted reason (resume c s)"
  shows "stays_halted reason (resume_callers resume cs s)"
  using assms(1)
proof (induction cs arbitrary: s)
  case Nil
  then show ?case by (simp add: stays_halted_def)
next
  case (Cons c cs)
  then have "au_haltedReason (snd (resume c s)) = Some reason" using assms(2) by (auto simp: stays_halted_def)
  from Cons.IH [OF this] assms(2) [OF Cons.prems, of c] show ?case
    by (auto simp: stays_halted_def split: prod.splits)
qed

text \<open>
  C25. A refusal is final. Once the vendor refused the credentials, whatever a run does next, a new call,
  the deletion of the cache or an abort, the client stays stopped for the same reason, sends
  no request and gives out no token, and a new call is answered with that reason at once.
\<close>

theorem refusal_is_final:
  assumes "auth_run tr s" and "au_haltedReason s = Some reason"
    and "auth_enabled e s" and "auth_step env e s = (outs, s')"
  shows "au_haltedReason s' = Some reason \<and> \<not> list_ex is_request outs \<and> \<not> list_ex gives_token outs
    \<and> (\<forall>c. e = Called c None \<longrightarrow> outs = [Answered c (Inl (AuthHaltedError HALTED reason))])"
proof -
  have i: "auth_inv {} s" by (rule run_auth_inv [OF assms(1)])
  have settled: "stays_halted reason (grant_settled env (Inl e) s)" for e
  proof -
    obtain outs s1 where r: "resume_callers (hear_grant (Inl e)) (waiting OnGrant s) (s\<lparr>au_inFlight := None\<rparr>) = (outs, s1)"
      by fastforce
    have one: "stays_halted reason (outs, s1)"
      unfolding r [symmetric] using assms(2) halted_caller(1) by (intro halted_resume) (simp_all add: hear_grant_def)
    then have "stays_halted reason (resume_callers (sharedGrant env) (waiting OnAbandoned s) s1)"
      using halted_caller(2) by (intro halted_resume) (simp_all add: stays_halted_def)
    with one show ?thesis by (auto simp: grant_settled_def r stays_halted_def split: prod.split)
  qed
  have stage: "attempt_stage s = None \<or> (\<exists>e. attempt_stage s = Some (DeletingCache e))"
    using i assms(2) by (auto simp: auth_inv_def attempt_stage_def split: option.splits)
  have known: "au_cacheRead s \<noteq> CacheReading" using i assms(2) by (auto simp: auth_inv_def)
  have "stays_halted reason (auth_step env e s)"
  proof (cases e)
    case (CacheFileDeleted ok)
    then obtain e' where st: "attempt_stage s = Some (DeletingCache e')"
      using assms(3) by (auto split: option.splits grantStage.splits)
    show ?thesis
      using settled [of e'] CacheFileDeleted st
      by (cases "grant_settled env (Inl e') s") (simp add: cache_deleted_def stays_halted_def)
  qed (use assms(2,3) stage known in \<open>auto simp: stays_halted_def currentToken_def caller_aborted_def
      answer_caller_def split: option.splits\<close>)
  then show ?thesis using assms(2,4) by (auto simp: stays_halted_def currentToken_def)
qed


section \<open>Failures\<close>

lemma resume_answers:
  assumes "\<And>c s. Answered c result \<in> set (fst (resume c s))" and "c \<in> set cs"
  shows "Answered c result \<in> set (fst (resume_callers resume cs s))"
  using assms(2)
proof (induction cs arbitrary: s)
  case (Cons d cs)
  then show ?case
    using assms(1) [of d s] by (auto split: prod.split) (metis fst_conv)+
qed simp

lemma resume_outputs:
  assumes "\<And>c s x. x \<in> set (fst (resume c s)) \<Longrightarrow> P x" and "x \<in> set (fst (resume_callers resume cs s))"
  shows "P x"
  using assms(2)
proof (induction cs arbitrary: s)
  case (Cons c cs)
  obtain outs s1 where r: "resume c s = (outs, s1)" by fastforce
  then show ?case
    using Cons assms(1) [of x c s] by (auto split: prod.splits) (metis fst_conv)
qed simp

lemma settled_outputs:
  assumes "\<And>c result. P (Answered c result)" and "\<And>token. P (RegisterSecret token)" and "\<And>body. P (GrantRequested body)"
    and "x \<in> set (fst (grant_settled env result s))"
  shows "P x"
proof -
  have "P y" if "y \<in> set (fst (hear_grant result c t))" for y c t
    using that assms(1,2) by (auto simp: hear_grant_def give_token_def answer_caller_def split: sum.splits if_splits)
  moreover have "P y" if "y \<in> set (fst (sharedGrant env c t))" for y c t
    using that assms(1,3) by (auto simp: sharedGrant_def answer_caller_def split: option.splits if_splits)
  ultimately show ?thesis
    using assms(4) resume_outputs [of "hear_grant result" P] resume_outputs [of "sharedGrant env" P]
    by (auto simp: grant_settled_def split: prod.splits) (metis fst_conv)+
qed

lemma settled_answers:
  assumes "auth_inv {} s" and "jm_get (au_callers s) c = Some OnGrant"
  shows "Answered c (Inl e) \<in> set (fst (grant_settled env (Inl e) s))"
proof -
  have "c \<in> set (waiting OnGrant s)"
    using assms waiting_set [of s OnGrant] by (simp add: auth_inv_def held_by_def)
  then have "Answered c (Inl e) \<in> set (fst (resume_callers (hear_grant (Inl e)) (waiting OnGrant s) (s\<lparr>au_inFlight := None\<rparr>)))"
    by (rule resume_answers [rotated]) (simp add: hear_grant_def answer_caller_def)
  then show ?thesis by (auto simp: grant_settled_def split: prod.split)
qed

lemma settled_halted: "au_haltedReason (snd (grant_settled env (Inl e) s)) = au_haltedReason s"
proof -
  have "au_haltedReason (snd (resume_callers resume cs s)) = au_haltedReason s"
    if "\<And>c s. au_haltedReason (snd (resume c s)) = au_haltedReason s" for resume cs s
    using that by (induction cs arbitrary: s) (auto split: prod.split, metis snd_conv)
  note resumed = this
  obtain outs s1 where r: "resume_callers (hear_grant (Inl e)) (waiting OnGrant s) (s\<lparr>au_inFlight := None\<rparr>) = (outs, s1)"
    by fastforce
  have "au_haltedReason s1 = au_haltedReason s"
    using resumed [of "hear_grant (Inl e)" "waiting OnGrant s" "s\<lparr>au_inFlight := None\<rparr>"] r
    by (simp add: hear_grant_def answer_caller_def)
  moreover have "au_haltedReason (snd (resume_callers (sharedGrant env) (waiting OnAbandoned s) s1)) = au_haltedReason s1"
    by (rule resumed) (simp add: sharedGrant_def answer_caller_def caller_waits_def split: option.split)
  ultimately show ?thesis by (auto simp: grant_settled_def r split: prod.split)
qed

text \<open>What an answer that is not a grant means, by its status.\<close>

definition failure_of :: "int \<Rightarrow> json option \<Rightarrow> cloudError" where
  "failure_of status body =
    (if status = 429 then AuthThrottledError
        (''the vendor authentication service answered HTTP 429 ('' @ readErrorCode body @ '').'') 1800000
     else CloudRequestError (''POST /oauth/token failed with HTTP '' @ string_of_int status @ ''.'') status
        ''POST /oauth/token'')"

lemma string_of_429: "string_of_int 429 = ''429''"
  by code_simp

text \<open>
  The answer of a failed grant decides what happens next. A response that is not a success, to an
  attempt that has a caller, stops the client exactly when its status is a client error other than 429: then the reason is
  the vendor's code, the cache file is deleted, and nobody is answered before that is done. Any other
  status leaves the client running, leaves the cached token alone, and answers every caller with
  the throttling interval for 429 and a request error for the rest.
\<close>

theorem failed_grant_is_classified:
  assumes "auth_run tr s" and "attempt_stage s = Some (ReadingBody status)" and "\<not> attempt_aborted s"
    and "\<not> (200 \<le> status \<and> status \<le> 299)"
    and "auth_step env (BodyArrived body salt) s = (outs, s')"
  shows "if 400 \<le> status \<and> status < 500 \<and> status \<noteq> 429
    then au_haltedReason s' = Some (readErrorCode body) \<and> au_callers s' = au_callers s
      \<and> outs = [AuthLog (LError (rejectionLog status)), DeleteCacheFile]
    else au_haltedReason s' = None \<and> DeleteCacheFile \<notin> set outs
      \<and> (\<forall>c. jm_get (au_callers s) c = Some OnGrant \<longrightarrow> Answered c (Inl (failure_of status body)) \<in> set outs)"
proof -
  have i: "auth_inv {} s" by (rule run_auth_inv [OF assms(1)])
  have h: "au_haltedReason s = None" by (rule not_halted [OF i assms(2)]) simp
  have j: "auth_inv {} (s\<lparr>au_lastTransient := l\<rparr>)" for l using i by (simp add: inv_token_fields)
  have e: "(outs, s') = grantFailure env status body s"
    using assms(2-5) by (simp add: requestGrant_def response_ok_def)
  show ?thesis
  proof (cases "400 \<le> status \<and> status < 500 \<and> status \<noteq> 429")
    case True
    then show ?thesis
      using e by (simp add: grantFailure_def Let_def TOO_MANY_ATTEMPTS_def CLIENT_ERROR_def SERVER_ERROR_def grant_stage_def)
  next
    case False
    have d: "DeleteCacheFile \<notin> set (fst (grant_settled env r t))" for r t
      using settled_outputs [of "\<lambda>x. x \<noteq> DeleteCacheFile" _ env r t] by blast
    have r: "au_haltedReason (snd (grant_settled env (Inl err) t)) = None
        \<and> (\<forall>c. jm_get (au_callers s) c = Some OnGrant \<longrightarrow> Answered c (Inl err) \<in> set (fst (grant_settled env (Inl err) t)))"
      if "auth_inv {} t" "au_callers t = au_callers s" "au_haltedReason t = None" for t err
      using that settled_answers [of t] by (simp add: settled_halted)
    show ?thesis
    proof (cases "status = 429")
      case True
      then have "outs = AuthLog (LWarn THROTTLE_WARNING) # fst (grant_settled env (Inl (failure_of status body)) s)"
        "s' = snd (grant_settled env (Inl (failure_of status body)) s)"
        using e by (simp_all add: grantFailure_def Let_def TOO_MANY_ATTEMPTS_def THROTTLED_RETRY_MS_def failure_of_def
            string_of_429 split: prod.splits)
      with r [OF i refl h] d False show ?thesis by auto
    next
      case other: False
      let ?t = "s\<lparr>au_lastTransient := Some (tf_kind (httpFailure status))\<rparr>"
      have "(outs, s') = fail_transiently env (httpFailure status) s"
        using e False other
        by (auto simp: grantFailure_def Let_def TOO_MANY_ATTEMPTS_def CLIENT_ERROR_def SERVER_ERROR_def split: if_splits)
      then obtain l where "outs = AuthLog l # fst (grant_settled env (Inl (failure_of status body)) ?t)"
        "s' = snd (grant_settled env (Inl (failure_of status body)) ?t)"
        using other by (auto simp: fail_transiently_def reportTransient_def httpFailure_def GRANT_ROUTE_def failure_of_def
            split: prod.splits)
      with r [OF j, of "Some (tf_kind (httpFailure status))"] h d False show ?thesis by auto
    qed
  qed
qed


section \<open>Tokens\<close>

text \<open>
  The runs of one account, with the time of each step. Only the clock of the environment moves.
\<close>

inductive account_run :: "authEnv \<Rightarrow> (millis \<times> authEvent \<times> authOutput list) list \<Rightarrow> authClient \<Rightarrow> bool" where
  account_created: "account_run env [] createAuthClient"
| account_step: "account_run env tr s \<Longrightarrow> auth_enabled e s \<Longrightarrow> auth_step (env\<lparr>au_now := now\<rparr>) e s = (outs, s') \<Longrightarrow>
    account_run env (tr @ [(now, e, outs)]) s'"

text \<open>The status of the last response, and where a token can come from, field by field.\<close>

fun status_after :: "int option \<Rightarrow> millis \<times> authEvent \<times> authOutput list \<Rightarrow> int option" where
  "status_after st (now, ResponseArrived (Inr status), outs) = Some status"
| "status_after st (now, ResponseArrived (Inl e), outs) = None"
| "status_after st (now, e, outs) = st"

definition last_status :: "(millis \<times> authEvent \<times> authOutput list) list \<Rightarrow> int option" where
  "last_status tr = foldl status_after None tr"

definition in_file :: "authEnv \<Rightarrow> cacheContents \<Rightarrow> cachedToken \<Rightarrow> bool" where
  "in_file env contents t = (\<exists>v x salt. contents = Parsed v
     \<and> prop_of (Some v) ''idToken'' = Some (JStr (ct_idToken t))
     \<and> prop_of (Some v) ''expiresAt'' = Some (JNum x) \<and> finite_of x = Some (ct_expiresAtMs t)
     \<and> prop_of (Some v) ''salt'' = Some (JStr salt)
     \<and> prop_of (Some v) ''emailFingerprint'' = Some (JStr (au_sha256 env (salt @ au_email env))))"

definition in_response :: "millis \<Rightarrow> int option \<Rightarrow> json option \<Rightarrow> cachedToken \<Rightarrow> bool" where
  "in_response now status body t = (\<exists>n x seconds. status = Some n \<and> 200 \<le> n \<and> n \<le> 299
     \<and> prop_of body ''id_token'' = Some (JStr (ct_idToken t))
     \<and> prop_of body ''expires_in'' = Some (JNum x) \<and> finite_of x = Some seconds \<and> 0 < seconds
     \<and> ct_expiresAtMs t = now + seconds * 1000)"

text \<open>The token came with one of the events: in the cache file that was read, or in the body of a successful response.\<close>

definition came_from :: "authEnv \<Rightarrow> (millis \<times> authEvent \<times> authOutput list) list \<Rightarrow> cachedToken \<Rightarrow> bool" where
  "came_from env tr t = (\<exists>before now e outs rest. tr = before @ (now, e, outs) # rest \<and> (case e of
      CacheFileRead contents \<Rightarrow> in_file env contents t
    | BodyArrived body salt \<Rightarrow> in_response now (last_status before) body t
    | _ \<Rightarrow> False))"

text \<open>The tokens a client knows, all of \<open>T\<close>, and the status of a body it is reading, one of \<open>B\<close>.\<close>

definition knows :: "cachedToken set \<Rightarrow> int set \<Rightarrow> authClient \<Rightarrow> bool" where
  "knows T B s = (set_option (au_cached s) \<subseteq> T
    \<and> (\<forall>t. au_cacheRead s = CacheKnown (Some t) \<longrightarrow> t \<in> T)
    \<and> (\<forall>t. attempt_stage s = Some (WritingCache t) \<longrightarrow> t \<in> T)
    \<and> (\<forall>status. attempt_stage s = Some (ReadingBody status) \<longrightarrow> status \<in> B))"

text \<open>Every token in the outputs is one of \<open>T\<close> that is current or the granted one.\<close>

definition given_from :: "authEnv \<Rightarrow> cachedToken set \<Rightarrow> cachedToken option \<Rightarrow> authOutput \<Rightarrow> bool" where
  "given_from env T granted x = (\<forall>c tok. x = Answered c (Inr tok) \<longrightarrow>
     (\<exists>t. t \<in> T \<and> ct_idToken t = tok \<and> (granted = Some t \<or> is_current env (ct_expiresAtMs t))))"

definition hands_out ::
  "authEnv \<Rightarrow> cachedToken set \<Rightarrow> int set \<Rightarrow> cachedToken option \<Rightarrow> authOutput list \<times> authClient \<Rightarrow> bool" where
  "hands_out env T B granted r = (knows T B (snd r) \<and> list_all (given_from env T granted) (fst r))"

lemma knows_frame:
  "attempt_stage (s\<lparr>au_inFlight := None\<rparr>) = None" "attempt_stage (s\<lparr>au_cached := t\<rparr>) = attempt_stage s"
  "attempt_stage (s\<lparr>au_lastTransient := l\<rparr>) = attempt_stage s" "attempt_stage (s\<lparr>au_callers := cs\<rparr>) = attempt_stage s"
  "attempt_stage (s\<lparr>au_cacheRead := k\<rparr>) = attempt_stage s" "attempt_stage (s\<lparr>au_registered := g\<rparr>) = attempt_stage s"
  "attempt_stage (s\<lparr>au_haltedReason := h\<rparr>) = attempt_stage s"
  "attempt_stage (grant_stage stage s) = (if au_inFlight s = None then None else Some stage)"
  by (auto simp: attempt_stage_def grant_stage_def)

lemma hands_out_resume:
  assumes "knows T B s" and "\<And>c s. knows T B s \<Longrightarrow> hands_out env T B g (resume c s)"
  shows "hands_out env T B g (resume_callers resume cs s)"
  using assms(1)
proof (induction cs arbitrary: s)
  case Nil
  then show ?case by (simp add: hands_out_def)
next
  case (Cons c cs)
  obtain outs s1 where r: "resume c s = (outs, s1)" by fastforce
  then show ?case
    using Cons.IH [of s1] assms(2) [OF Cons.prems, of c] by (auto simp: hands_out_def split: prod.split)
qed

lemma hands_out_answer: "knows T B s \<Longrightarrow> hands_out env T B g (answer_caller c (Inl e) s)"
  by (simp add: hands_out_def answer_caller_def given_from_def knows_def knows_frame)

lemma hands_out_shared: "knows T B s \<Longrightarrow> hands_out env T B g (sharedGrant env' c s)"
  by (auto simp: hands_out_def sharedGrant_def answer_caller_def caller_waits_def given_from_def knows_def attempt_stage_def
      split: option.split)

lemma hands_out_give:
  "knows T B s \<Longrightarrow> token \<in> T \<Longrightarrow> g = Some token \<or> is_current env (ct_expiresAtMs token) \<Longrightarrow>
    hands_out env T B g (give_token c token s)"
  by (auto simp: hands_out_def give_token_def answer_caller_def given_from_def knows_def attempt_stage_def)

lemma hands_out_after_read:
  assumes "knows T B s" and "set_option stored \<subseteq> T"
  shows "hands_out env T B g (after_cache_read env stored c s)"
proof -
  have "knows T B (s\<lparr>au_cached := t\<rparr>)" if "set_option t \<subseteq> T" for t
    using assms(1) that by (simp add: knows_def knows_frame)
  moreover have "set_option (au_cached s) \<subseteq> T" using assms(1) by (simp add: knows_def)
  ultimately show ?thesis
    using assms(2) by (auto simp: after_cache_read_def Let_def intro!: hands_out_shared hands_out_give split: option.split)
qed

lemma hands_out_prefix:
  "hands_out env T B g r \<Longrightarrow> hands_out env T B g (case r of (outs, s') \<Rightarrow> (AuthLog l # outs, s'))"
  by (cases r) (simp add: hands_out_def given_from_def)

lemma hands_out_settled:
  assumes "knows T B s" and "\<And>t. result = Inr t \<Longrightarrow> t \<in> T \<and> g = Some t"
  shows "hands_out env T B g (grant_settled env' result s)"
proof -
  obtain outs s1 where r: "resume_callers (hear_grant result) (waiting OnGrant s) (s\<lparr>au_inFlight := None\<rparr>) = (outs, s1)"
    by fastforce
  have "knows T B (s\<lparr>au_inFlight := None\<rparr>)" using assms(1) by (simp add: knows_def knows_frame)
  then have one: "hands_out env T B g (outs, s1)"
    unfolding r [symmetric] using assms(2)
    by (intro hands_out_resume) (auto simp: hear_grant_def intro!: hands_out_answer hands_out_give split: sum.split)
  then have "hands_out env T B g (resume_callers (sharedGrant env') (waiting OnAbandoned s) s1)"
    by (intro hands_out_resume hands_out_shared) (simp_all add: hands_out_def)
  with one show ?thesis by (auto simp: grant_settled_def r hands_out_def split: prod.split)
qed

lemma hands_out_transient:
  assumes "knows T B s"
  shows "hands_out env T B g (fail_transiently env' failure s)"
proof -
  have "hands_out env T B g (grant_settled env' (Inl e) (s\<lparr>au_lastTransient := l\<rparr>))" for e l
    using assms by (intro hands_out_settled) (auto simp: knows_def knows_frame)
  then show ?thesis
    by (simp add: fail_transiently_def reportTransient_def hands_out_prefix)
qed

text \<open>What the file guard lets through belongs to the account, and what a body grants is in it.\<close>

lemma read_from_file:
  assumes "readCachedToken env contents = (logged, Some t)"
  shows "in_file env contents t"
proof -
  obtain v where v: "contents = Parsed v" "isTokenCacheFile (Some v)"
    "text_of (prop_of (Some v) ''emailFingerprint'') = fingerprint env (text_of (prop_of (Some v) ''salt''))"
    "t = \<lparr>ct_idToken = text_of (prop_of (Some v) ''idToken''), ct_expiresAtMs = instant_of (prop_of (Some v) ''expiresAt'')\<rparr>"
    using assms by (auto simp: readCachedToken_def readCacheFile_def split: cacheContents.splits if_splits)
  from v(2) obtain tok salt print n r where fields: "prop_of (Some v) ''idToken'' = Some (JStr tok)"
    "prop_of (Some v) ''salt'' = Some (JStr salt)" "prop_of (Some v) ''emailFingerprint'' = Some (JStr print)"
    "prop_of (Some v) ''expiresAt'' = Some (JNum n)" "finite_of n = Some r"
    by (auto simp: isTokenCacheFile_def is_str_def num_isFinite_def split: option.splits json.splits jsnum.splits)
  with v show ?thesis by (simp add: in_file_def text_of_def instant_of_def fingerprint_def)
qed

lemma granted_in_response:
  "readGrant env body = Some t \<Longrightarrow> response_ok n \<Longrightarrow> in_response (au_now env) (Some n) body t"
  by (auto simp: readGrant_def in_response_def response_ok_def split: if_splits option.splits json.splits jsnum.splits)

text \<open>A step from a client that knows only tokens of \<open>T\<close>, when what the event brings is in \<open>T\<close> too.\<close>

lemma hands_out_step:
  assumes "knows T B s" and "auth_enabled e s"
    and held: "\<And>contents t. e = CacheFileRead contents \<Longrightarrow> in_file env contents t \<Longrightarrow> t \<in> T"
    and body: "\<And>v salt n t. e = BodyArrived v salt \<Longrightarrow> n \<in> B \<Longrightarrow> in_response (au_now env) (Some n) v t \<Longrightarrow> t \<in> T"
    and status: "\<And>n. e = ResponseArrived (Inr n) \<Longrightarrow> n \<in> B"
  shows "hands_out env T B (case attempt_stage s of Some (WritingCache t) \<Rightarrow> Some t | _ \<Rightarrow> None) (auth_step env e s)"
    (is "hands_out env T B ?g _")
proof (cases e)
  case (Called c aborted)
  have waits: "knows T B (caller_waits c w s)" "knows T B (caller_waits c w (s\<lparr>au_cacheRead := CacheReading\<rparr>))" for w
    using assms(1) by (simp_all add: knows_def knows_frame caller_waits_def)
  have after: "hands_out env T B g (after_cache_read env stored c s)" if "au_cacheRead s = CacheKnown stored" for stored g
    using that assms(1) by (intro hands_out_after_read) (cases stored; auto simp: knows_def)+
  have quiet: "hands_out env T B g (outs, s')" if "knows T B s'" "\<And>c tok. Answered c (Inr tok) \<notin> set outs" for outs s' g
    using that by (auto simp: hands_out_def given_from_def list_all_iff)
  have "hands_out env T B ?g (currentToken env c aborted s)"
    unfolding currentToken_def using after
    by (auto intro!: quiet waits assms(1) split: option.split cacheRead.split)
  then show ?thesis using Called by simp
next
  case (CallerAborted c reason)
  have "attempt_stage (snd (caller_aborted c reason s)) = attempt_stage s"
    by (cases "au_inFlight s") (simp_all add: caller_aborted_def answer_caller_def attempt_stage_def)
  then show ?thesis
    using CallerAborted assms(1)
    by (simp add: hands_out_def knows_def) (simp add: caller_aborted_def answer_caller_def given_from_def)
next
  case (CacheFileRead contents)
  obtain logged stored where k: "readCachedToken env contents = (logged, stored)" by fastforce
  then have stored: "set_option stored \<subseteq> T" using held [OF CacheFileRead] read_from_file by (cases stored) auto
  have "list_all (given_from env T ?g) logged"
    using k by (auto simp: readCachedToken_def readCacheFile_def given_from_def
        split: cacheContents.splits option.splits if_splits)
  moreover have "hands_out env T B ?g (resume_callers (after_cache_read env stored) (waiting OnCacheRead s)
      (s\<lparr>au_cacheRead := CacheKnown stored\<rparr>))"
    using stored assms(1) by (intro hands_out_resume hands_out_after_read) (auto simp: knows_def knows_frame)
  ultimately show ?thesis
    using CacheFileRead by (auto simp: cache_answered_def k hands_out_def split: prod.split)
next
  case (ResponseArrived result)
  have "hands_out env T B ?g (fetchGrant env result s)"
    using assms(1) status ResponseArrived
    by (cases result) (auto simp: fetchGrant_def hands_out_def [of _ _ _ _ "([], _)"] knows_def knows_frame grant_stage_def
        attempt_stage_def intro!: hands_out_settled hands_out_transient)
  then show ?thesis using ResponseArrived by simp
next
  case (BodyArrived v salt)
  then obtain n where st: "attempt_stage s = Some (ReadingBody n)"
    using assms(2) by (auto split: option.splits grantStage.splits)
  then have n: "n \<in> B" using assms(1) by (simp add: knows_def)
  have logged: "hands_out env T B None (case grant_settled env (Inl x) s of (outs, s') \<Rightarrow> (AuthLog l # outs, s'))" for x l
    by (intro hands_out_prefix hands_out_settled [OF assms(1)]) simp
  have staged: "hands_out env T B None (outs, grant_stage stage t)"
    if "list_all (given_from env T None) outs" "au_cached t = au_cached s" "au_cacheRead t = au_cacheRead s"
      "\<And>t. stage = WritingCache t \<Longrightarrow> t \<in> T" "\<And>n. stage \<noteq> ReadingBody n" for outs stage t
    using that assms(1) by (auto simp: hands_out_def knows_def grant_stage_def attempt_stage_def)
  have failed: "hands_out env T B None (grantFailure env n v s)"
    unfolding grantFailure_def Let_def using logged hands_out_transient [OF assms(1)]
    by (auto intro!: staged simp: given_from_def)
  have granted: "hands_out env T B None (case readGrant env v of None \<Rightarrow> fail_transiently env (unusableFailure n) s
      | Some grant \<Rightarrow> (let (notes, s1) = reportRecovery s
          in (notes @ [WriteCacheFile (cache_payload env salt grant)], grant_stage (WritingCache grant) s1)))" if "response_ok n"
    using body [OF BodyArrived n granted_in_response [OF _ that]] hands_out_transient [OF assms(1)]
    by (auto intro!: staged simp: given_from_def reportRecovery_def split: option.split)
  have "hands_out env T B None (requestGrant env n v salt s)"
    unfolding requestGrant_def using failed granted hands_out_settled [OF assms(1), of "Inl ABORTED"] by simp
  then show ?thesis using BodyArrived st by simp
next
  case (CacheFileDeleted ok)
  then obtain x where st: "attempt_stage s = Some (DeletingCache x)"
    using assms(2) by (auto split: option.splits grantStage.splits)
  show ?thesis
    using hands_out_settled [OF assms(1), of "Inl x" None env env] CacheFileDeleted st
    by (auto simp: cache_deleted_def hands_out_def given_from_def split: prod.split)
next
  case (CacheFileWritten ok)
  then obtain t where st: "attempt_stage s = Some (WritingCache t)"
    using assms(2) by (auto split: option.splits grantStage.splits)
  then have "t \<in> T" using assms(1) by (simp add: knows_def)
  then show ?thesis
    using hands_out_settled [OF assms(1), of "if attempt_aborted s then Inl ABORTED else Inr t" "Some t" env env] CacheFileWritten st
    by (auto simp: cache_written_def hands_out_def given_from_def split: prod.splits if_splits)
qed

text \<open>What came with an earlier event stays known; what the next one brings is known after it.\<close>

lemma came_earlier: "came_from env tr t \<Longrightarrow> came_from env (tr @ later) t"
  unfolding came_from_def by force

lemma came_now:
  "in_file env contents t \<Longrightarrow> came_from env (tr @ [(now, CacheFileRead contents, outs)]) t"
  "in_response now (last_status tr) v t \<Longrightarrow> came_from env (tr @ [(now, BodyArrived v salt, outs)]) t"
  unfolding came_from_def by force+

lemma last_status_step: "last_status (tr @ [x]) = status_after (last_status tr) x"
  by (simp add: last_status_def)

lemma account_hands_out:
  assumes "knows {t. came_from env tr t} (set_option (last_status tr)) s" and "auth_enabled e s"
  shows "hands_out (env\<lparr>au_now := now\<rparr>) {t. came_from env (tr @ [(now, e, outs)]) t} (set_option (last_status (tr @ [(now, e, outs)])))
    (case attempt_stage s of Some (WritingCache t) \<Rightarrow> Some t | _ \<Rightarrow> None) (auth_step (env\<lparr>au_now := now\<rparr>) e s)"
proof (rule hands_out_step [OF _ assms(2)])
  have "status \<in> set_option (last_status (tr @ [(now, e, outs)]))"
    if "attempt_stage s = Some (ReadingBody status)" "status \<in> set_option (last_status tr)" for status
    using that assms(2) unfolding last_status_step by (cases e) auto
  then show "knows {t. came_from env (tr @ [(now, e, outs)]) t} (set_option (last_status (tr @ [(now, e, outs)]))) s"
    using assms(1) came_earlier unfolding knows_def by blast
qed (auto simp: came_now last_status_step in_file_def)

lemma account_knows: "account_run env tr s \<Longrightarrow> knows {t. came_from env tr t} (set_option (last_status tr)) s"
proof (induction rule: account_run.induct)
  case (account_created env)
  then show ?case by (simp add: knows_def createAuthClient_def attempt_stage_def)
next
  case (account_step env tr s e now outs s')
  then show ?case using account_hands_out [of env tr s e now outs] by (simp add: hands_out_def)
qed

text \<open>
  C31. A token that is handed out was received for this account and is still good. In every run of an account each token an
  answer carries stood, with its expiry, in the cache file that was read, whose fingerprint is that of the account's own
  email under the stored salt, or came in the body of a successful response, its expiry counted from the moment the body
  was read; and unless the attempt that brought it ends in this very step, more than the renewal margin of an hour is left.
\<close>

theorem tokens_are_granted_or_current:
  assumes "account_run env tr s" and "auth_enabled e s" and "auth_step (env\<lparr>au_now := now\<rparr>) e s = (outs, s')"
    and "Answered c (Inr tok) \<in> set outs"
  shows "\<exists>t. ct_idToken t = tok \<and> came_from env (tr @ [(now, e, outs)]) t
    \<and> (attempt_stage s = Some (WritingCache t) \<or> now + 3600000 < ct_expiresAtMs t)"
proof -
  have "given_from (env\<lparr>au_now := now\<rparr>) {t. came_from env (tr @ [(now, e, outs)]) t}
      (case attempt_stage s of Some (WritingCache t) \<Rightarrow> Some t | _ \<Rightarrow> None) (Answered c (Inr tok))"
    using account_hands_out [OF account_knows [OF assms(1)] assms(2), of now outs] assms(3,4)
    by (simp add: hands_out_def list_all_iff)
  then show ?thesis
    by (auto simp: given_from_def is_current_def TOKEN_RENEWAL_MARGIN_MS_def algebra_simps
        split: option.splits grantStage.splits)
qed

text \<open>
  The cache file gives back what was written to it. A token stored for one account and read by a
  later run comes back unchanged exactly when the account's email has the same fingerprint under the stored
  salt and more than the renewal margin is left; otherwise there is no token and the reason is noted.
\<close>

theorem token_cache_round_trip:
  "readCachedToken env' (Parsed (cache_payload env salt token)) =
    (if au_sha256 env' (salt @ au_email env') \<noteq> au_sha256 env (salt @ au_email env)
     then ([AuthLog (LDebug CACHE_OTHER_ACCOUNT)], None)
     else if ct_expiresAtMs token \<le> au_now env' + 3600000 then ([AuthLog (LDebug CACHE_STALE)], None)
     else ([], Some token))"
  by (auto simp: readCachedToken_def readCacheFile_def isTokenCacheFile_def cache_payload_def jm_get_def text_of_def
      instant_of_def num_isFinite_def fingerprint_def is_current_def TOKEN_RENEWAL_MARGIN_MS_def algebra_simps)

section \<open>Runs that exist\<close>

definition demo_auth :: authEnv where
  "demo_auth = \<lparr>au_now = 1000, au_sha256 = id, au_email = ''a'', au_password = ''p'', au_clientId = ''c'', au_realm = ''r''\<rparr>"

text \<open>One caller, no cache file, and a response with the given status.\<close>

definition demo_waiting :: "grantStage \<Rightarrow> authClient" where
  "demo_waiting stage = createAuthClient\<lparr>au_cacheRead := CacheKnown None, au_callers := [(0, OnGrant)],
     au_inFlight := Some \<lparr>ga_aborted = False, ga_waiters = 1, ga_stage = stage\<rparr>\<rparr>"

definition demo_called :: "(authEvent \<times> authOutput list) list" where
  "demo_called = [(Called 0 None, [ReadCacheFile]), (CacheFileRead NoFile, [GrantRequested (grantBody demo_auth)])]"

lemmas auth_run_defs = createAuthClient_def currentToken_def caller_waits_def cache_answered_def readCachedToken_def
  readCacheFile_def waiting_def after_cache_read_def sharedGrant_def attempt_stage_def fetchGrant_def
  grant_stage_def jm_set_def jm_has_def jm_get_def jm_delete_def

lemma demo_asked: "auth_run demo_called (demo_waiting Requesting)"
proof -
  have "auth_run ([] @ [(Called 0 None, [ReadCacheFile])])
      (createAuthClient\<lparr>au_cacheRead := CacheReading, au_callers := [(0, OnCacheRead)]\<rparr>)"
    by (rule auth_run.snoc [OF auth_run.created, where env = demo_auth]) (simp_all add: auth_run_defs)
  then have "auth_run (([] @ [(Called 0 None, [ReadCacheFile])]) @ [(CacheFileRead NoFile, [GrantRequested (grantBody demo_auth)])])
      (demo_waiting Requesting)"
    by (rule auth_run.snoc [where env = demo_auth]) (simp_all add: auth_run_defs demo_waiting_def)
  then show ?thesis by (simp add: demo_called_def)
qed

lemma demo_response: "auth_run (demo_called @ [(ResponseArrived (Inr status), [])]) (demo_waiting (ReadingBody status))"
  by (rule auth_run.snoc [OF demo_asked, where env = demo_auth]) (simp_all add: auth_run_defs demo_waiting_def)

definition demo_grant :: json where
  "demo_grant = JObj [(''id_token'', JStr ''t''), (''expires_in'', JNum (Fin 86400))]"

definition demo_token :: cachedToken where
  "demo_token = \<lparr>ct_idToken = ''t'', ct_expiresAtMs = 86401000\<rparr>"

lemma demo_granted:
  "auth_run ((demo_called @ [(ResponseArrived (Inr 200), [])]) @
      [(BodyArrived (Some demo_grant) ''s'', [WriteCacheFile (cache_payload demo_auth ''s'' demo_token)])])
    (demo_waiting (WritingCache demo_token))"
  by (rule auth_run.snoc [OF demo_response, where env = demo_auth])
    (simp_all add: auth_run_defs demo_waiting_def requestGrant_def attempt_aborted_def response_ok_def readGrant_def
      demo_grant_def demo_auth_def reportRecovery_def double_overflow_def demo_token_def)

definition demo_refused :: authClient where
  "demo_refused = (demo_waiting (DeletingCache (AuthRejectedError
     ''the vendor rejected the account credentials with HTTP 403 (access_denied).'' ''access_denied'')))
       \<lparr>au_haltedReason := Some ''access_denied''\<rparr>"

lemma string_of_403: "string_of_int 403 = ''403''"
  by code_simp

lemma demo_refused_run:
  "auth_run ((demo_called @ [(ResponseArrived (Inr 403), [])]) @
      [(BodyArrived (Some (JObj [(''error'', JStr ''access_denied'')])) ''s'', [AuthLog (LError (rejectionLog 403)), DeleteCacheFile])])
    demo_refused"
  by (rule auth_run.snoc [OF demo_response, where env = demo_auth])
    (simp_all add: auth_run_defs demo_waiting_def requestGrant_def attempt_aborted_def response_ok_def grantFailure_def
      Let_def readErrorCode_def TOO_MANY_ATTEMPTS_def CLIENT_ERROR_def SERVER_ERROR_def demo_refused_def string_of_403)

theorem each_call_is_answered_once_witness:
  "calls 0 demo_called = answers 0 (concat (map snd demo_called)) + 1"
  using each_call_is_answered_once [OF demo_asked, of 0]
  by (simp add: demo_waiting_def jm_has_def jm_get_def)

text \<open>A second caller joins the first; when both have left, a third one waits, and starts over when the request was cancelled.\<close>

definition demo_joined :: authClient where
  "demo_joined = createAuthClient\<lparr>au_cacheRead := CacheKnown None, au_callers := [(0, OnGrant), (1, OnGrant)],
     au_inFlight := Some \<lparr>ga_aborted = False, ga_waiters = 2, ga_stage = Requesting\<rparr>\<rparr>"

definition demo_left :: "(nat, callerWait) jsmap \<Rightarrow> authClient" where
  "demo_left callers = createAuthClient\<lparr>au_cacheRead := CacheKnown None, au_callers := callers,
     au_inFlight := Some \<lparr>ga_aborted = True, ga_waiters = 0, ga_stage = Requesting\<rparr>\<rparr>"

lemma demo_left_run:
  "auth_run ((demo_called @ [(CallerAborted 0 ABORTED, [Answered 0 (Inl ABORTED)])]) @ [(Called 2 None, [])])
    (demo_left [(2, OnAbandoned)])"
proof -
  have "auth_run (demo_called @ [(CallerAborted 0 ABORTED, [Answered 0 (Inl ABORTED)])]) (demo_left [])"
    by (rule auth_run.snoc [OF demo_asked, where env = demo_auth])
      (simp_all add: auth_run_defs demo_left_def demo_waiting_def caller_aborted_def answer_caller_def)
  then show ?thesis
    by (rule auth_run.snoc [where env = demo_auth]) (simp_all add: auth_run_defs demo_left_def)
qed

theorem one_grant_request_at_a_time_witness:
  "requests (concat (map snd demo_called)) = 1
    \<and> takes_its_place demo_auth 1 (demo_waiting Requesting) ([], demo_joined) \<and> jm_get (au_callers demo_joined) 1 = Some OnGrant
    \<and> jm_get (au_callers (demo_left [(2, OnAbandoned)])) 2 = Some OnAbandoned
    \<and> fst (auth_step demo_auth (ResponseArrived (Inl ABORTED)) (demo_left [(2, OnAbandoned)])) = [GrantRequested (grantBody demo_auth)]
    \<and> starts_over 2 (demo_left [(2, OnAbandoned)]) (auth_step demo_auth (ResponseArrived (Inl ABORTED)) (demo_left [(2, OnAbandoned)]))"
proof -
  have "needs_grant demo_auth (demo_waiting Requesting)"
    by (simp add: needs_grant_def demo_waiting_def createAuthClient_def)
  then have "takes_its_place demo_auth 1 (demo_waiting Requesting) (auth_step demo_auth (Called 1 None) (demo_waiting Requesting))"
    using one_grant_request_at_a_time [OF demo_asked] by blast
  moreover have "auth_step demo_auth (Called 1 None) (demo_waiting Requesting) = ([], demo_joined)"
    "jm_get (au_callers demo_joined) 1 = Some OnGrant"
    by (simp_all add: demo_joined_def demo_waiting_def auth_run_defs)
  moreover have left: "jm_get (au_callers (demo_left [(2, OnAbandoned)])) 2 = Some OnAbandoned" "auth_enabled (ResponseArrived (Inl ABORTED)) (demo_left [(2, OnAbandoned)])"
    "fst (auth_step demo_auth (ResponseArrived (Inl ABORTED)) (demo_left [(2, OnAbandoned)])) = [GrantRequested (grantBody demo_auth)]"
    by (simp_all add: demo_left_def demo_waiting_def auth_run_defs caller_aborted_def answer_caller_def attempt_aborted_def
        grant_settled_def)
  moreover have "starts_over 2 (demo_left [(2, OnAbandoned)]) (auth_step demo_auth (ResponseArrived (Inl ABORTED)) (demo_left [(2, OnAbandoned)]))"
    using one_grant_request_at_a_time [OF demo_left_run] left(1,2) by blast
  moreover have "requests (concat (map snd demo_called)) = 1"
    using one_grant_request_at_a_time [OF demo_asked]
    by (simp add: demo_waiting_def open_requests_def attempt_stage_def demo_called_def)
  ultimately show ?thesis by simp
qed

theorem refusal_is_final_witness:
  "au_haltedReason (snd (auth_step demo_auth (Called 1 None) demo_refused)) = Some ''access_denied''
    \<and> fst (auth_step demo_auth (Called 1 None) demo_refused) = [Answered 1 (Inl (AuthHaltedError HALTED ''access_denied''))]"
proof -
  have "au_haltedReason demo_refused = Some ''access_denied''" "auth_enabled (Called 1 None) demo_refused"
    by (simp_all add: demo_refused_def demo_waiting_def jm_has_def jm_get_def)
  from refusal_is_final [OF demo_refused_run this prod.collapse [symmetric], of demo_auth] show ?thesis by blast
qed

theorem failed_grant_is_classified_witness:
  "au_haltedReason (snd (auth_step demo_auth (BodyArrived None ''s'') (demo_waiting (ReadingBody 429)))) = None
    \<and> Answered 0 (Inl (failure_of 429 None)) \<in> set (fst (auth_step demo_auth (BodyArrived None ''s'') (demo_waiting (ReadingBody 429))))"
proof -
  have "attempt_stage (demo_waiting (ReadingBody 429)) = Some (ReadingBody 429)" "\<not> attempt_aborted (demo_waiting (ReadingBody 429))"
    "jm_get (au_callers (demo_waiting (ReadingBody 429))) 0 = Some OnGrant"
    by (simp_all add: demo_waiting_def attempt_stage_def attempt_aborted_def jm_get_def)
  then show ?thesis
    using failed_grant_is_classified [OF demo_response [of 429] _ _ _ prod.collapse [symmetric], of 429 demo_auth None "''s''"]
    by auto
qed

text \<open>A caller, a cache file of this account, and the token in it.\<close>

definition demo_stored :: json where
  "demo_stored = cache_payload demo_auth ''s'' demo_token"

lemma demo_reading:
  "account_run demo_auth ([] @ [(1000, Called 0 None, [ReadCacheFile])])
    (createAuthClient\<lparr>au_cacheRead := CacheReading, au_callers := [(0, OnCacheRead)]\<rparr>)"
  by (rule account_step [OF account_created]) (simp_all add: auth_run_defs)

theorem tokens_are_granted_or_current_witness:
  "\<exists>t. ct_idToken t = ''t'' \<and> came_from demo_auth ([(1000, Called 0 None, [ReadCacheFile])]
        @ [(2000, CacheFileRead (Parsed demo_stored), [RegisterSecret ''t'', Answered 0 (Inr ''t'')])]) t
    \<and> (attempt_stage (createAuthClient\<lparr>au_cacheRead := CacheReading, au_callers := [(0, OnCacheRead)]\<rparr>) = Some (WritingCache t)
      \<or> 2000 + 3600000 < ct_expiresAtMs t)"
proof -
  have read: "readCachedToken (demo_auth\<lparr>au_now := 2000\<rparr>) (Parsed demo_stored) = ([], Some demo_token)"
    by (simp add: demo_stored_def readCachedToken_def readCacheFile_def isTokenCacheFile_def cache_payload_def jm_get_def
        text_of_def instant_of_def num_isFinite_def fingerprint_def is_current_def TOKEN_RENEWAL_MARGIN_MS_def demo_token_def
        demo_auth_def)
  have step: "fst (auth_step (demo_auth\<lparr>au_now := 2000\<rparr>) (CacheFileRead (Parsed demo_stored))
      (createAuthClient\<lparr>au_cacheRead := CacheReading, au_callers := [(0, OnCacheRead)]\<rparr>))
      = [RegisterSecret ''t'', Answered 0 (Inr ''t'')]"
    by (simp add: cache_answered_def read waiting_def after_cache_read_def give_token_def answer_caller_def createAuthClient_def
        is_current_def demo_token_def TOKEN_RENEWAL_MARGIN_MS_def)
  have "auth_step (demo_auth\<lparr>au_now := 2000\<rparr>) (CacheFileRead (Parsed demo_stored))
      (createAuthClient\<lparr>au_cacheRead := CacheReading, au_callers := [(0, OnCacheRead)]\<rparr>)
      = ([RegisterSecret ''t'', Answered 0 (Inr ''t'')], snd (auth_step (demo_auth\<lparr>au_now := 2000\<rparr>)
          (CacheFileRead (Parsed demo_stored)) (createAuthClient\<lparr>au_cacheRead := CacheReading, au_callers := [(0, OnCacheRead)]\<rparr>)))"
    by (subst step [symmetric]) (rule prod.collapse [symmetric])
  from tokens_are_granted_or_current [OF demo_reading [unfolded append_Nil] _ this, of 0 "''t''"] show ?thesis by simp
qed

end
