(* ===== verification/CloudApi.thy ===== *)
theory CloudApi
  imports AuthClient Sigv4 WireTypes
begin

text \<open>
  The vendor REST client of \<open>src/src/cloud/api.ts\<close>. A call is its three waits, for the token, the
  response and the body, and what each of them ends with is an argument: the authentication client, the
  transport and the run-time system's body reader belong to others. A wait that the deadline or the caller cuts short ends with the
  reason of the abort. Each operation is a function to everything the client asked for, in order, and to the result. A body
  the source gives to \<open>JSON.stringify\<close> stands here as the value it encodes, and an address as the base and the
  path that \<open>new URL\<close> is given.
\<close>

section \<open>Routes and requests\<close>

definition COMMAND_DEADLINE_MS :: millis where
  "COMMAND_DEADLINE_MS = 2500"

datatype vendorRoute = RouteDevices | RouteDevice | RouteCommand | RouteAwsCredentials

definition ROUTES :: "vendorRoute \<Rightarrow> string" where
  "ROUTES r = (case r of
      RouteDevices \<Rightarrow> ''GET /devices''
    | RouteDevice \<Rightarrow> ''GET /devices/{deviceId}''
    | RouteCommand \<Rightarrow> ''PUT /devices/{deviceId}/data''
    | RouteAwsCredentials \<Rightarrow> ''GET /credentials/aws'')"

definition DEVICES_PATH :: string where
  "DEVICES_PATH = ''/devices''"

definition CREDENTIALS_PATH :: string where
  "CREDENTIALS_PATH = ''/credentials/aws''"

definition COMMAND_SUFFIX :: string where
  "COMMAND_SUFFIX = ''/data''"

definition JSON_CONTENT_TYPE :: string where
  "JSON_CONTENT_TYPE = ''application/json''"

definition PLUGIN_USER_AGENT :: string where
  "PLUGIN_USER_AGENT = ''homebridge-basement-guardian''"

record cloudApiOptions =
  api_baseUrl :: string
  api_requestTimeoutMs :: millis

record vendorCall =
  vc_route :: string
  vc_path :: string
  vc_method :: string
  vc_deadlineMs :: millis
  vc_body :: "json option"
  vc_accepts :: "json option \<Rightarrow> bool"

record requestInit =
  ri_method :: string
  ri_headers :: "(string \<times> string) list"
  ri_body :: "json option"

datatype apiOutput =
    DeadlineArmed millis
  | TokenAsked
  | RequestSent string string requestInit
  | BodyCancelled
  | BodyRead

text \<open>
  What the waits of one call end with. \<open>vw_body\<close> is \<open>None\<close> when reading the body failed, and \<open>vw_aborted\<close> is
  the reason the deadline's signal holds by then.
\<close>

record vendorWaits =
  vw_token :: "cloudError + string"
  vw_response :: "cloudError + int"
  vw_body :: "json option"
  vw_aborted :: "cloudError option"

definition DOT_PATH_ERROR :: cloudError where
  "DOT_PATH_ERROR = OtherError ''TypeError'' ''Device identifier cannot be used in a request path.''"

definition devicePath :: "string \<Rightarrow> string \<Rightarrow> cloudError + string" where
  "devicePath deviceId suffix =
    (if deviceId = ''.'' \<or> deviceId = ''..'' then Inl DOT_PATH_ERROR
     else Inr (DEVICES_PATH @ ''/'' @ encodeURIComponent deviceId @ suffix))"

definition unreadable :: "string \<Rightarrow> int \<Rightarrow> cloudError" where
  "unreadable route status = CloudRequestError (route @ '' returned a response the plugin cannot read.'') status route"

definition request_failed :: "string \<Rightarrow> int \<Rightarrow> cloudError" where
  "request_failed route status = CloudRequestError (route @ '' failed with HTTP '' @ string_of_int status @ ''.'') status route"

definition readBody :: "vendorWaits \<Rightarrow> string \<Rightarrow> int \<Rightarrow> cloudError + json" where
  "readBody waits route status = (case vw_body waits of
      Some body \<Rightarrow> Inr body
    | None \<Rightarrow> (case vw_aborted waits of Some reason \<Rightarrow> Inl reason | None \<Rightarrow> Inl (unreadable route status)))"

definition narrow :: "vendorCall \<Rightarrow> vendorWaits \<Rightarrow> int \<Rightarrow> apiOutput list \<times> (cloudError + json)" where
  "narrow call waits status =
    (if \<not> response_ok status then ([BodyCancelled], Inl (request_failed (vc_route call) status))
     else ([BodyRead], ebind (readBody waits (vc_route call) status) (\<lambda>body.
       if vc_accepts call (Some body) then Inr body else Inl (unreadable (vc_route call) status))))"

definition requestInit_of :: "string \<Rightarrow> json option \<Rightarrow> string \<Rightarrow> requestInit" where
  "requestInit_of method_name body authorization =
    (let identity = [(''Authorization'', authorization), (''User-Agent'', PLUGIN_USER_AGENT)] in
     case body of
       None \<Rightarrow> \<lparr>ri_method = method_name, ri_headers = identity, ri_body = None\<rparr>
     | Some b \<Rightarrow> \<lparr>ri_method = method_name,
         ri_headers = [(''Authorization'', authorization), (''Content-Type'', JSON_CONTENT_TYPE),
           (''User-Agent'', PLUGIN_USER_AGENT), (''Accept'', JSON_CONTENT_TYPE)],
         ri_body = Some b\<rparr>)"

definition send :: "cloudApiOptions \<Rightarrow> vendorCall \<Rightarrow> vendorWaits \<Rightarrow> apiOutput list \<times> (cloudError + json)" where
  "send options call waits = (case vw_token waits of
      Inl e \<Rightarrow> ([DeadlineArmed (vc_deadlineMs call), TokenAsked], Inl e)
    | Inr idToken \<Rightarrow>
        let sent = [DeadlineArmed (vc_deadlineMs call), TokenAsked,
              RequestSent (api_baseUrl options) (vc_path call)
                (requestInit_of (vc_method call) (vc_body call) (''Bearer '' @ idToken))]
        in case vw_response waits of
             Inl e \<Rightarrow> (sent, Inl e)
           | Inr status \<Rightarrow> (let (outs, result) = narrow call waits status in (sent @ outs, result)))"

section \<open>Operations\<close>

text \<open>The credentials as the caller reads them off an admitted answer.\<close>

definition credentials_of_response :: "json option \<Rightarrow> awsCredentialsResponse option" where
  "credentials_of_response v =
    (let c = prop_of v ''credentials'' in
     case (str_of (prop_of v ''endpoint''), str_of (prop_of v ''clientId''), str_of (prop_of c ''AccessKeyId''),
           str_of (prop_of c ''SecretAccessKey''), str_of (prop_of c ''SessionToken''), str_of (prop_of c ''Expiration'')) of
       (Some endpoint, Some clientId, Some key, Some secret, Some session, Some expiration) \<Rightarrow>
         Some \<lparr>acr_endpoint = endpoint, acr_clientId = clientId,
               acr_credentials = \<lparr>aws_AccessKeyId = key, aws_SecretAccessKey = secret,
                 aws_SessionToken = session, aws_Expiration = expiration\<rparr>\<rparr>
     | _ \<Rightarrow> None)"

text \<open>
  What is done with an admitted body. A copy would give \<open>None\<close> where a field it reads is missing; the
  guards rule it out, as is shown below.
\<close>

definition then_map :: "(json option \<Rightarrow> 'a option) \<Rightarrow> apiOutput list \<times> (cloudError + json)
    \<Rightarrow> apiOutput list \<times> (cloudError + 'a option)" where
  "then_map f answer = (fst answer, ebind (snd answer) (\<lambda>body. Inr (f (Some body))))"

definition devices :: "cloudApiOptions \<Rightarrow> vendorWaits \<Rightarrow> apiOutput list \<times> (cloudError + apiDevice list option)" where
  "devices options waits = then_map devices_of_list_response (send options
    \<lparr>vc_route = ROUTES RouteDevices, vc_path = DEVICES_PATH, vc_method = ''GET'',
     vc_deadlineMs = api_requestTimeoutMs options, vc_body = None, vc_accepts = isWireDeviceListResponse\<rparr> waits)"

definition device :: "cloudApiOptions \<Rightarrow> string \<Rightarrow> vendorWaits \<Rightarrow> apiOutput list \<times> (cloudError + apiDevice option)" where
  "device options deviceId waits = (case devicePath deviceId [] of
      Inl e \<Rightarrow> ([], Inl e)
    | Inr path \<Rightarrow> then_map (\<lambda>body. toApiDevice (prop_of body ''device'')) (send options
        \<lparr>vc_route = ROUTES RouteDevice, vc_path = path, vc_method = ''GET'',
         vc_deadlineMs = api_requestTimeoutMs options, vc_body = None, vc_accepts = isWireDeviceResponse\<rparr> waits))"

definition awsCredentials_call ::
  "cloudApiOptions \<Rightarrow> vendorWaits \<Rightarrow> apiOutput list \<times> (cloudError + awsCredentialsResponse option)" where
  "awsCredentials_call options waits = then_map credentials_of_response (send options
    \<lparr>vc_route = ROUTES RouteAwsCredentials, vc_path = CREDENTIALS_PATH, vc_method = ''GET'',
     vc_deadlineMs = api_requestTimeoutMs options, vc_body = None, vc_accepts = isAwsCredentialsResponse\<rparr> waits)"

definition sendCommand :: "cloudApiOptions \<Rightarrow> string \<Rightarrow> jobj \<Rightarrow> vendorWaits
    \<Rightarrow> apiOutput list \<times> (cloudError + bool option)" where
  "sendCommand options deviceId desiredData waits = (case devicePath deviceId COMMAND_SUFFIX of
      Inl e \<Rightarrow> ([], Inl e)
    | Inr path \<Rightarrow> then_map (\<lambda>body. bool_of (prop_of body ''success'')) (send options
        \<lparr>vc_route = ROUTES RouteCommand, vc_path = path, vc_method = ''PUT'', vc_deadlineMs = COMMAND_DEADLINE_MS,
         vc_body = Some (JObj [(''desiredData'', JObj desiredData)]), vc_accepts = isCommandResult\<rparr> waits))"

section \<open>What a call asks for\<close>

fun request_of :: "apiOutput \<Rightarrow> (string \<times> string \<times> requestInit) option" where
  "request_of (RequestSent base path init) = Some (base, path, init)"
| "request_of _ = None"

fun deadline_of :: "apiOutput \<Rightarrow> millis option" where
  "deadline_of (DeadlineArmed ms) = Some ms"
| "deadline_of _ = None"

definition requests_sent :: "apiOutput list \<Rightarrow> (string \<times> string \<times> requestInit) list" where
  "requests_sent outs = List.map_filter request_of outs"

definition deadlines_armed :: "apiOutput list \<Rightarrow> millis list" where
  "deadlines_armed outs = List.map_filter deadline_of outs"

lemmas api_traces = requests_sent_def deadlines_armed_def map_filter_simps

lemma narrow_trace: "requests_sent (fst (narrow call w status)) = []" "deadlines_armed (fst (narrow call w status)) = []"
  by (simp_all add: narrow_def api_traces)

lemma traces_append:
  "requests_sent (xs @ ys) = requests_sent xs @ requests_sent ys"
  "deadlines_armed (xs @ ys) = deadlines_armed xs @ deadlines_armed ys"
  by (simp_all add: requests_sent_def deadlines_armed_def List.map_filter_def)

lemma send_trace:
  "requests_sent (fst (send options call w)) = (case vw_token w of
      Inl e \<Rightarrow> []
    | Inr idToken \<Rightarrow> [(api_baseUrl options, vc_path call, requestInit_of (vc_method call) (vc_body call) (''Bearer '' @ idToken))])"
  "deadlines_armed (fst (send options call w)) = [vc_deadlineMs call]"
  using narrow_trace [of call w]
  by (simp_all add: send_def api_traces Let_def case_prod_beta traces_append [unfolded api_traces] split: sum.splits)

lemma send_answers:
  "snd (send options call w) = Inr body \<longleftrightarrow>
    (\<exists>t status. vw_token w = Inr t \<and> vw_response w = Inr status \<and> response_ok status
      \<and> vw_body w = Some body \<and> vc_accepts call (Some body))"
  by (auto simp: send_def narrow_def readBody_def Let_def case_prod_beta split: sum.splits option.splits if_splits)

section \<open>Properties\<close>

lemma then_map_parts: "fst (then_map f a) = fst a"
  "snd (then_map f a) = ebind (snd a) (\<lambda>body. Inr (f (Some body)))"
  by (simp_all add: then_map_def)

lemma then_map_answers: "snd (then_map f a) = Inr x \<longleftrightarrow> (\<exists>body. snd a = Inr body \<and> x = f (Some body))"
  by (auto simp: then_map_parts ebind_def split: sum.splits)

lemma credentials_guard: "isAwsCredentialsResponse v \<Longrightarrow> \<exists>c. credentials_of_response v = Some c"
  by (auto simp: isAwsCredentialsResponse_def isAwsCredentials_def hasStringFields_def CREDENTIAL_STRING_FIELDS_def
      CREDENTIALS_RESPONSE_STRING_FIELDS_def credentials_of_response_def reader_guards(1))

text \<open>
  An answer of the client is complete. Whatever the vendor sends and however the waits end, a call that succeeds
  hands on a record with every field present: the guard of each of the four routes admits no
  body in which a field that the copy reads is missing.
\<close>

theorem api_answers_are_complete:
  "snd (devices options w) \<noteq> Inr None \<and> snd (device options deviceId w) \<noteq> Inr None
   \<and> snd (awsCredentials_call options w) \<noteq> Inr None \<and> snd (sendCommand options deviceId desired w) \<noteq> Inr None"
proof (intro conjI)
  show "snd (devices options w) \<noteq> Inr None"
    by (auto simp: devices_def then_map_answers send_answers device_list_guard_exact)
  show "snd (device options deviceId w) \<noteq> Inr None"
    by (auto simp: device_def then_map_answers send_answers isWireDeviceResponse_def wire_device_guard_iff split: sum.splits)
  show "snd (awsCredentials_call options w) \<noteq> Inr None"
    using credentials_guard by (fastforce simp: awsCredentials_call_def then_map_answers send_answers)
  show "snd (sendCommand options deviceId desired w) \<noteq> Inr None"
    by (auto simp: sendCommand_def then_map_answers send_answers isCommandResult_def reader_guards split: sum.splits)
qed

text \<open>
  C33. A command is one bounded attempt. Its deadline is 2.5 seconds whatever the configured timeout; it sends at most one
  request, and that one only after the token was given: a \<open>PUT\<close> to the device's own path that carries the bearer token and
  nothing but the desired fields as its body. No outcome of a wait makes it send again.
\<close>

theorem command_is_one_bounded_attempt:
  assumes "deviceId \<noteq> ''.''" and "deviceId \<noteq> ''..''"
  shows "deadlines_armed (fst (sendCommand options deviceId desired w)) = [2500]
   \<and> requests_sent (fst (sendCommand options deviceId desired w)) = (case vw_token w of
      Inl e \<Rightarrow> []
    | Inr idToken \<Rightarrow> [(api_baseUrl options, ''/devices/'' @ encodeURIComponent deviceId @ ''/data'',
        \<lparr>ri_method = ''PUT'',
         ri_headers = [(''Authorization'', ''Bearer '' @ idToken), (''Content-Type'', ''application/json''),
           (''User-Agent'', ''homebridge-basement-guardian''), (''Accept'', ''application/json'')],
         ri_body = Some (JObj [(''desiredData'', JObj desired)])\<rparr>)])"
  using assms by (simp add: sendCommand_def devicePath_def then_map_parts send_trace requestInit_of_def COMMAND_DEADLINE_MS_def
      DEVICES_PATH_def COMMAND_SUFFIX_def JSON_CONTENT_TYPE_def PLUGIN_USER_AGENT_def split: sum.split)

lemma success_field:
  "isCommandResult (Some body) \<and> Some True = bool_of (prop_of (Some body) ''success'') \<longleftrightarrow>
   prop_of (Some body) ''success'' = Some (JBool True)"
  by (cases "prop_of (Some body) ''success''")
    (auto simp: isCommandResult_def bool_of_def is_bool_def intro: prop_of_no_record split: json.splits)

text \<open>
  A command counts as accepted exactly when the vendor said so: its identifier can stand in a path, a token was given, the
  request was answered with a 2xx status, and the body was read and is an object whose \<open>success\<close> is true. Every other
  outcome, a refusal, a deadline, a gateway's error page or a body of another shape, is not.
\<close>

theorem accepted_exactly_when_the_vendor_said_so:
  "snd (sendCommand options deviceId desired w) = Inr (Some True) \<longleftrightarrow>
    deviceId \<notin> {''.'', ''..''} \<and> (\<exists>t. vw_token w = Inr t)
    \<and> (\<exists>status. vw_response w = Inr status \<and> 200 \<le> status \<and> status \<le> 299)
    \<and> (\<exists>body. vw_body w = Some body \<and> prop_of (Some body) ''success'' = Some (JBool True))"
proof -
  have answered: "snd (sendCommand options deviceId desired w) = Inr (Some True) \<longleftrightarrow>
      deviceId \<notin> {''.'', ''..''} \<and> (\<exists>body t status. vw_token w = Inr t \<and> vw_response w = Inr status \<and> response_ok status
        \<and> vw_body w = Some body \<and> isCommandResult (Some body) \<and> Some True = bool_of (prop_of (Some body) ''success''))"
    by (auto simp: sendCommand_def devicePath_def then_map_answers send_answers)
  show ?thesis unfolding answered using success_field by (auto simp: response_ok_def)
qed

text \<open>The segments a URL parser takes for a step in the hierarchy, percent-encoded spellings included.\<close>

definition DOT_SEGMENTS :: "string list" where
  "DOT_SEGMENTS = [''.'', ''%2e'', ''%2E'', ''..'', ''.%2e'', ''.%2E'', ''%2e.'', ''%2E.'',
     ''%2e%2e'', ''%2e%2E'', ''%2E%2e'', ''%2E%2E'']"

lemma dot_segments_re_encoded:
  "list_all (\<lambda>d. encodeURIComponent (decodeURIComponent d) = d \<longrightarrow> d = ''.'' \<or> d = ''..'') DOT_SEGMENTS"
  by code_simp

lemma encoded_dot_segment:
  assumes "encodeURIComponent s \<in> set DOT_SEGMENTS" shows "s \<in> {''.'', ''..''}"
proof -
  have "decodeURIComponent (encodeURIComponent s) = s" by (rule decoded)
  then have "encodeURIComponent s = ''.'' \<or> encodeURIComponent s = ''..''"
    using assms dot_segments_re_encoded by (auto simp: list_all_iff)
  then show ?thesis using decoded(1) [of s] by auto
qed

definition path_char :: "char \<Rightarrow> bool" where
  "path_char c = (uri_unreserved c \<or> c = CHR ''%'' \<or> c = CHR ''/'')"

lemma encoded_path_chars: "list_all path_char (encodeURIComponent s)" "CHR ''/'' \<notin> set (encodeURIComponent s)"
proof -
  have "\<not> uri_unreserved CHR ''/''" by (simp add: uri_unreserved_def)
  then show "CHR ''/'' \<notin> set (encodeURIComponent s)" using encoded_chars [of s] by auto
  show "list_all path_char (encodeURIComponent s)" using encoded_chars [of s] by (auto simp: path_char_def list_all_iff)
qed

text \<open>
  A device path names one device. Whatever bytes the identifier holds, the path splits at its slashes into the fixed
  segments and one of its own, which decodes to the identifier and is no dot segment in any spelling; no character of the
  path ends it early or is read as another slash.
\<close>

theorem device_path_names_one_device:
  assumes "devicePath deviceId suffix = Inr path" and "suffix \<in> {[], COMMAND_SUFFIX}"
  shows "split_on CHR ''/'' path = [[], ''devices'', encodeURIComponent deviceId] @ (if suffix = [] then [] else [''data''])
   \<and> decodeURIComponent (encodeURIComponent deviceId) = deviceId
   \<and> encodeURIComponent deviceId \<notin> set DOT_SEGMENTS \<and> list_all path_char path"
proof -
  have path: "path = ''/devices'' @ ''/'' @ encodeURIComponent deviceId @ suffix" and "deviceId \<notin> {''.'', ''..''}"
    using assms(1) by (auto simp: devicePath_def DEVICES_PATH_def split: if_splits)
  then have own: "encodeURIComponent deviceId \<notin> set DOT_SEGMENTS" using encoded_dot_segment by blast
  have slash: "path_char CHR ''/''" "list_all path_char ''devices''" "list_all path_char ''data''"
    by code_simp+
  have "split_on CHR ''/'' path = [[], ''devices'', encodeURIComponent deviceId] @ (if suffix = [] then [] else [''data''])"
    using assms(2) encoded_path_chars(2) [of deviceId] unfolding path
    by (auto simp: COMMAND_SUFFIX_def split_on_word split_on_append)
  moreover have "list_all path_char path"
    using assms(2) encoded_path_chars(1) [of deviceId] slash unfolding path by (auto simp: COMMAND_SUFFIX_def)
  ultimately show ?thesis using own decoded(1) by blast
qed

text \<open>
  A failure says nothing the vendor sent. A call fails with the error of one of its waits, with the refusal of the identifier, or
  with one of two fixed messages made of the route's label and the status: never with the address, a header or any
  part of the body.
\<close>

theorem failure_names_only_the_route:
  assumes "snd (send options call w) = Inl e"
  shows "vw_token w = Inl e \<or> vw_response w = Inl e \<or> vw_aborted w = Some e
   \<or> (\<exists>status. vw_response w = Inr status
        \<and> (\<not> response_ok status \<and> e = request_failed (vc_route call) status \<or> response_ok status \<and> e = unreadable (vc_route call) status))"
  using assms by (auto simp: send_def narrow_def readBody_def ebind_def Let_def case_prod_beta
      split: sum.splits option.splits if_splits)

section \<open>Witnesses\<close>

definition sample_waits :: vendorWaits where
  "sample_waits = \<lparr>vw_token = Inr ''tok'', vw_response = Inr 502, vw_body = None, vw_aborted = None\<rparr>"

definition sample_options :: cloudApiOptions where
  "sample_options = \<lparr>api_baseUrl = ''https://vendor'', api_requestTimeoutMs = 30000\<rparr>"

theorem command_is_one_bounded_attempt_witness:
  "deadlines_armed (fst (sendCommand sample_options ''a/b'' [] sample_waits)) = [2500]
   \<and> map (fst \<circ> snd) (requests_sent (fst (sendCommand sample_options ''a/b'' [] sample_waits))) = [''/devices/a%2Fb/data'']"
proof -
  have "encodeURIComponent ''a/b'' = ''a%2Fb''" by code_simp
  then show ?thesis
    using command_is_one_bounded_attempt [of "''a/b''" sample_options "[]" sample_waits] by (simp add: sample_waits_def)
qed

theorem device_path_names_one_device_witness:
  "split_on CHR ''/'' ''/devices/..%2Fx/data'' = [[], ''devices'', ''..%2Fx'', ''data'']"
proof -
  have enc: "encodeURIComponent ''../x'' = ''..%2Fx''" by code_simp
  have "devicePath ''../x'' COMMAND_SUFFIX = Inr ''/devices/..%2Fx/data''"
    by (simp add: devicePath_def enc DEVICES_PATH_def COMMAND_SUFFIX_def)
  from device_path_names_one_device [OF this] show ?thesis by (simp add: enc COMMAND_SUFFIX_def)
qed

theorem failure_names_only_the_route_witness:
  "\<exists>status. vw_response sample_waits = Inr status
    \<and> request_failed (ROUTES RouteDevices) 502 = request_failed (ROUTES RouteDevices) status"
proof -
  define call where "call = \<lparr>vc_route = ROUTES RouteDevices, vc_path = DEVICES_PATH, vc_method = ''GET'',
    vc_deadlineMs = 1, vc_body = None, vc_accepts = isWireDeviceListResponse\<rparr>"
  have "snd (send sample_options call sample_waits) = Inl (request_failed (vc_route call) 502)"
    by (simp add: send_def narrow_def sample_waits_def response_ok_def Let_def)
  from failure_names_only_the_route [OF this] show ?thesis
    by (auto simp: sample_waits_def response_ok_def call_def)
qed

end
