(* ===== verification/Regex.thy ===== *)
theory Regex
  imports Strings
begin

text \<open>
  Regular expressions as the language runs them: a backtracking matcher that tries the choices of an
  alternative in order and takes as many rounds of a repetition as it can, a round that matches nothing not being
  counted. \<open>rx_run r s\<close> lists what is left of \<open>s\<close> after a match at its front, in the order of the search, so that the
  head of the list is the match the language finds. The language of an expression is the reference for a test that
  is anchored at both ends.
\<close>

datatype rx =
    Eps
  | Cls "char \<Rightarrow> bool"
  | Seq rx rx
  | Alt rx rx
  | Star rx

section \<open>The matcher\<close>

function rx_run :: "rx \<Rightarrow> string \<Rightarrow> string list" where
  "rx_run Eps s = [s]"
| "rx_run (Cls p) s = (case s of [] \<Rightarrow> [] | c # t \<Rightarrow> if p c then [t] else [])"
| "rx_run (Seq q r) s = concat (map (rx_run r) (rx_run q s))"
| "rx_run (Alt q r) s = rx_run q s @ rx_run r s"
| "rx_run (Star r) s = concat (map (\<lambda>t. if length t < length s then rx_run (Star r) t else []) (rx_run r s)) @ [s]"
  by pat_completeness auto

termination
  by (relation "measures [\<lambda>(r, s). size r, \<lambda>(r, s). length s]") auto

declare rx_run.simps(5) [simp del]

section \<open>The language\<close>

inductive in_lang :: "rx \<Rightarrow> string \<Rightarrow> bool" where
  lang_eps: "in_lang Eps []"
| lang_cls: "p c \<Longrightarrow> in_lang (Cls p) [c]"
| lang_seq: "in_lang q u \<Longrightarrow> in_lang r v \<Longrightarrow> in_lang (Seq q r) (u @ v)"
| lang_left: "in_lang q u \<Longrightarrow> in_lang (Alt q r) u"
| lang_right: "in_lang r u \<Longrightarrow> in_lang (Alt q r) u"
| lang_stop: "in_lang (Star r) []"
| lang_round: "in_lang r u \<Longrightarrow> in_lang (Star r) v \<Longrightarrow> in_lang (Star r) (u @ v)"

inductive_simps lang_simps [simp]: "in_lang Eps w" "in_lang (Cls p) w" "in_lang (Seq q r) w" "in_lang (Alt q r) w"
inductive_cases lang_star: "in_lang (Star r) w"

lemma run_in_lang: "t \<in> set (rx_run r s) \<Longrightarrow> \<exists>w. s = w @ t \<and> in_lang r w"
proof (induction r s arbitrary: t rule: rx_run.induct)
  case (3 q r s)
  then obtain u where "u \<in> set (rx_run q s)" "t \<in> set (rx_run r u)" by auto
  with 3 show ?case by (metis append.assoc lang_seq)
next
  case (5 r s)
  show ?case
  proof (cases "t = s")
    case False
    with 5 obtain u where u: "u \<in> set (rx_run r s)" "length u < length s" "t \<in> set (rx_run (Star r) u)"
      by (auto simp: rx_run.simps(5) [of r s] split: if_splits)
    with 5 show ?thesis by (metis append.assoc lang_round)
  qed (auto intro: lang_stop)
qed (auto split: list.splits if_splits)

lemma lang_in_run: "in_lang r w \<Longrightarrow> t \<in> set (rx_run r (w @ t))"
proof (induction arbitrary: t rule: in_lang.induct)
  case (lang_seq q u r v)
  then have "v @ t \<in> set (rx_run q (u @ v @ t))" "t \<in> set (rx_run r (v @ t))" by simp_all
  then show ?case by auto
next
  case (lang_round r u v)
  show ?case
  proof (cases "u = []")
    case False
    then have "length (v @ t) < length (u @ v @ t)" by simp
    moreover have "v @ t \<in> set (rx_run r (u @ v @ t))" "t \<in> set (rx_run (Star r) (v @ t))"
      using lang_round by auto
    ultimately show ?thesis by (auto simp: rx_run.simps(5) [of r "u @ v @ t"])
  qed (use lang_round in simp)
next
  case (lang_stop r)
  show ?case by (subst rx_run.simps(5)) simp
qed auto

lemma run_iff_lang: "t \<in> set (rx_run r s) \<longleftrightarrow> (\<exists>w. s = w @ t \<and> in_lang r w)"
  using run_in_lang lang_in_run by blast

lemma run_shortens: "t \<in> set (rx_run r s) \<Longrightarrow> length t \<le> length s"
  using run_in_lang by fastforce

section \<open>Expressions\<close>

definition Opt :: "rx \<Rightarrow> rx" where
  "Opt r = Alt r Eps"

definition Plus :: "rx \<Rightarrow> rx" where
  "Plus r = Seq r (Star r)"

definition Lit :: "char \<Rightarrow> rx" where
  "Lit c = Cls (\<lambda>d. d = c)"

text \<open>\<open>test\<close> of an expression anchored by \<open>^\<close> and \<open>$\<close>.\<close>

definition rx_test :: "rx \<Rightarrow> string \<Rightarrow> bool" where
  "rx_test r s = ([] \<in> set (rx_run r s))"

lemma test_iff_lang: "rx_test r s \<longleftrightarrow> in_lang r s"
  by (simp add: rx_test_def run_iff_lang)

lemma star_step: "in_lang (Star r) w \<longleftrightarrow> w = [] \<or> (\<exists>u v. w = u @ v \<and> in_lang r u \<and> in_lang (Star r) v)"
  by (auto elim: lang_star intro: lang_stop lang_round)

lemma star_cls: "in_lang (Star (Cls p)) w \<longleftrightarrow> list_all p w"
proof (induction w)
  case (Cons c w)
  then show ?case by (subst star_step) (auto simp: append_eq_Cons_conv, metis append_Cons append_Nil)
qed (simp add: lang_stop)

lemma plus_cls: "in_lang (Plus (Cls p)) w \<longleftrightarrow> w \<noteq> [] \<and> list_all p w"
  by (cases w) (auto simp: Plus_def star_cls, metis append_Cons append_Nil)

text \<open>A list of pieces with a separator between them.\<close>

lemma separated:
  assumes "\<And>w. in_lang r w \<Longrightarrow> sep \<notin> set w"
  shows "in_lang (Seq r (Star (Seq (Lit sep) r))) w \<longleftrightarrow> list_all (in_lang r) (split_on sep w)"
proof
  assume "in_lang (Seq r (Star (Seq (Lit sep) r))) w"
  then obtain u v where w: "w = u @ v" "in_lang r u" and v: "in_lang (Star (Seq (Lit sep) r)) v" by auto
  have "in_lang q v \<Longrightarrow> q = Star (Seq (Lit sep) r) \<Longrightarrow>
      \<forall>u. in_lang r u \<longrightarrow> list_all (in_lang r) (split_on sep (u @ v))" for q
  proof (induction rule: in_lang.induct)
    case lang_stop
    then show ?case using assms by (simp add: split_on_word)
  next
    case (lang_round r' x y)
    then show ?case using assms by (auto simp: Lit_def split_on_append)
  qed simp_all
  with v w show "list_all (in_lang r) (split_on sep w)" by blast
next
  have "xs \<noteq> [] \<Longrightarrow> list_all (in_lang r) xs \<Longrightarrow> in_lang (Seq r (Star (Seq (Lit sep) r))) (join_with [sep] xs)" for xs
  proof (induction "[sep]" xs rule: join_with.induct)
    case (2 x)
    then show ?case using lang_stop by force
  next
    case (3 x y xs)
    then obtain u v where "join_with [sep] (y # xs) = u @ v" "in_lang r u" "in_lang (Star (Seq (Lit sep) r)) v" by auto
    then have "in_lang (Star (Seq (Lit sep) r)) ((sep # u) @ v)" by (intro lang_round) (auto simp: Lit_def)
    with 3 \<open>join_with [sep] (y # xs) = u @ v\<close> show ?case by auto
  qed simp
  then show "list_all (in_lang r) (split_on sep w) \<Longrightarrow> in_lang (Seq r (Star (Seq (Lit sep) r))) w"
    using split_on_nonempty join_split by metis
qed

lemma separated_plus:
  assumes "\<And>w. in_lang r w \<Longrightarrow> sep \<notin> set w"
  shows "in_lang (Seq r (Plus (Seq (Lit sep) r))) w \<longleftrightarrow>
    2 \<le> length (split_on sep w) \<and> list_all (in_lang r) (split_on sep w)"
proof
  assume "in_lang (Seq r (Plus (Seq (Lit sep) r))) w"
  then obtain u a b where parts: "w = u @ sep # a @ b" "in_lang r u" "in_lang r a" "in_lang (Star (Seq (Lit sep) r)) b"
    by (auto simp: Plus_def Lit_def)
  define v where "v = a @ b"
  have "w = u @ sep # v" "in_lang r u" "in_lang (Seq r (Star (Seq (Lit sep) r))) v"
    using parts by (auto simp: v_def)
  moreover from this(3) have "list_all (in_lang r) (split_on sep v)" using separated [OF assms] by blast
  ultimately show "2 \<le> length (split_on sep w) \<and> list_all (in_lang r) (split_on sep w)"
    using assms split_on_nonempty [of sep v] by (auto simp: split_on_append Suc_le_eq)
next
  assume pieces: "2 \<le> length (split_on sep w) \<and> list_all (in_lang r) (split_on sep w)"
  then obtain u y ws where ws: "split_on sep w = u # y # ws" by (auto simp: numeral_2_eq_2 Suc_le_length_iff)
  then have w: "w = u @ sep # join_with [sep] (y # ws)" using join_split [of sep w] by simp
  have "split_on sep (join_with [sep] (y # ws)) = y # ws"
    by (rule split_on_join) (use split_on_pieces [of _ sep w] ws in auto)
  then have "in_lang (Seq r (Star (Seq (Lit sep) r))) (join_with [sep] (y # ws))"
    using separated [OF assms] pieces ws by simp
  then obtain a b where rest: "join_with [sep] (y # ws) = a @ b" "in_lang r a" "in_lang (Star (Seq (Lit sep) r)) b"
    by auto
  then have "in_lang (Seq (Lit sep) r) ([sep] @ a)" by (intro lang_seq) (simp_all add: Lit_def)
  then have "in_lang (Plus (Seq (Lit sep) r)) (([sep] @ a) @ b)"
    unfolding Plus_def using rest(3) by (rule lang_seq)
  then have "in_lang (Seq r (Plus (Seq (Lit sep) r))) (u @ ([sep] @ a) @ b)"
    using pieces ws by (intro lang_seq) simp_all
  then show "in_lang (Seq r (Plus (Seq (Lit sep) r))) w" unfolding w rest(1) by simp
qed

end
