(* ===== verification/Redaction.thy ===== *)
theory Redaction
  imports Regex
begin

text \<open>
  The redacting logger, \<open>src/src/logging.ts\<close>: the registered secrets and their roles, the five credential
  patterns with the search that finds their matches, the merging of the covered spans, and the seven ways to
  write a line. What \<open>JSON.stringify\<close> makes of an object parameter is given with the parameter.
\<close>

definition REDACTED :: string where
  "REDACTED = ''[redacted]''"

definition UNSERIALIZABLE :: string where
  "UNSERIALIZABLE = ''[unserializable object]''"

section \<open>Credential patterns\<close>

text \<open>
  A pattern is its first group, which stays in the text, and what follows it. \<open>no_case\<close> is the flag \<open>i\<close>.
\<close>

type_synonym credentialPattern = "rx \<times> rx"

fun literal :: "bool \<Rightarrow> string \<Rightarrow> rx" where
  "literal no_case [] = Eps"
| "literal no_case (c # w) =
    Seq (Cls (\<lambda>d. if no_case then ascii_lower d = ascii_lower c else d = c)) (literal no_case w)"

fun any_of :: "bool \<Rightarrow> string list \<Rightarrow> rx" where
  "any_of no_case [] = Cls (\<lambda>c. False)"
| "any_of no_case (w # ws) = Alt (literal no_case w) (any_of no_case ws)"

definition quote_mark :: char where
  "quote_mark = CHR 0x22"

definition back_slash :: char where
  "back_slash = CHR 0x5C"

definition word_char :: "char \<Rightarrow> bool" where
  "word_char c = (is_letter (ascii_lower c) \<or> is_digit c \<or> c = CHR ''_'')"

definition token_char :: "char \<Rightarrow> bool" where
  "token_char c = (word_char c \<or> c \<in> set ''+/=~-'')"

definition spaces :: rx where
  "spaces = Star (Cls is_space)"

text \<open>A field's name, quoted or not, and its colon or equals sign.\<close>

definition field_label :: "bool \<Rightarrow> string list \<Rightarrow> rx" where
  "field_label no_case names =
    Seq (Opt (Lit quote_mark)) (Seq (any_of no_case names) (Seq (Opt (Lit quote_mark))
      (Seq spaces (Cls (\<lambda>c. c = CHR '':'' \<or> c = CHR ''='')))))"

definition AWS_SESSION_CREDENTIAL_FIELDS :: "string list" where
  "AWS_SESSION_CREDENTIAL_FIELDS = [''AccessKeyId'', ''SecretAccessKey'', ''SessionToken'']"

definition PRESIGNED_URL_PARAMETERS :: "string list" where
  "PRESIGNED_URL_PARAMETERS = [''X-Amz-Credential'', ''X-Amz-Security-Token'', ''X-Amz-Signature'']"

definition AUTHENTICATION_BODY_FIELDS :: "string list" where
  "AUTHENTICATION_BODY_FIELDS = [''password'', ''username'']"

definition AUTHORIZATION_PATTERN :: credentialPattern where
  "AUTHORIZATION_PATTERN =
    (Seq (literal True ''Bearer'') (Plus (Cls is_space)),
     Seq (Cls token_char) (Opt (Seq (Star (Cls (\<lambda>c. token_char c \<or> c = CHR ''.''))) (Cls token_char))))"

definition AWS_SESSION_CREDENTIAL_PATTERN :: credentialPattern where
  "AWS_SESSION_CREDENTIAL_PATTERN =
    (Seq (field_label False AWS_SESSION_CREDENTIAL_FIELDS) (Seq spaces (Opt (Lit quote_mark))),
     Plus (Cls (\<lambda>c. c \<noteq> quote_mark \<and> c \<noteq> CHR '','' \<and> \<not> is_space c \<and> c \<noteq> CHR ''}'')))"

definition PRESIGNED_URL_PATTERN :: credentialPattern where
  "PRESIGNED_URL_PATTERN =
    (Seq (any_of False PRESIGNED_URL_PARAMETERS) (Lit CHR ''=''),
     Plus (Cls (\<lambda>c. c \<noteq> CHR ''&'' \<and> \<not> is_space c \<and> c \<noteq> quote_mark)))"

definition AUTHENTICATION_QUOTED_BODY_PATTERN :: credentialPattern where
  "AUTHENTICATION_QUOTED_BODY_PATTERN =
    (Seq (field_label True AUTHENTICATION_BODY_FIELDS) (Seq spaces (Lit quote_mark)),
     Plus (Alt (Seq (Lit back_slash) (Cls (\<lambda>c. c \<noteq> CHR 0x0A \<and> c \<noteq> CHR 0x0D)))
       (Cls (\<lambda>c. c \<noteq> quote_mark \<and> c \<noteq> back_slash))))"

definition AUTHENTICATION_BODY_PATTERN :: credentialPattern where
  "AUTHENTICATION_BODY_PATTERN =
    (Seq (field_label True AUTHENTICATION_BODY_FIELDS) spaces,
     Seq (Cls (\<lambda>c. c \<noteq> quote_mark \<and> \<not> is_space c)) (Star (Cls (\<lambda>c. True))))"

definition CREDENTIAL_PATTERNS :: "credentialPattern list" where
  "CREDENTIAL_PATTERNS =
    [AUTHORIZATION_PATTERN, AWS_SESSION_CREDENTIAL_PATTERN, PRESIGNED_URL_PATTERN,
     AUTHENTICATION_QUOTED_BODY_PATTERN, AUTHENTICATION_BODY_PATTERN]"

section \<open>Finding what to cover\<close>

text \<open>The matches at the front of a text, in the order of the search: what is left after the group, and after it all.\<close>

definition front_matches :: "credentialPattern \<Rightarrow> string \<Rightarrow> (string \<times> string) list" where
  "front_matches p s = concat (map (\<lambda>t. map (Pair t) (rx_run (snd p) t)) (rx_run (fst p) s))"

text \<open>
  \<open>matchAll\<close>: the places where a match begins, where its group is over, and where it is over. After an empty match
  the search goes on one character later.
\<close>

function match_all :: "credentialPattern \<Rightarrow> nat \<Rightarrow> string \<Rightarrow> (nat \<times> nat \<times> nat) list" where
  "match_all p i s = (case front_matches p s of
      (t, u) # _ \<Rightarrow> (i, i + (length s - length t), i + (length s - length u)) #
        (if length u < length s then match_all p (i + (length s - length u)) u
         else (case s of [] \<Rightarrow> [] | c # s' \<Rightarrow> match_all p (Suc i) s'))
    | [] \<Rightarrow> (case s of [] \<Rightarrow> [] | c # s' \<Rightarrow> match_all p (Suc i) s'))"
  by pat_completeness auto

termination
  by (relation "measure (\<lambda>(p, i, s). length s)") auto

declare match_all.simps [simp del]

definition json_escape_char :: "char \<Rightarrow> string" where
  "json_escape_char c =
    (if c = quote_mark \<or> c = back_slash then [back_slash, c]
     else if c = CHR 0x08 then back_slash # ''b''
     else if c = CHR 0x09 then back_slash # ''t''
     else if c = CHR 0x0A then back_slash # ''n''
     else if c = CHR 0x0C then back_slash # ''f''
     else if c = CHR 0x0D then back_slash # ''r''
     else if (of_char c :: nat) < 32 then back_slash # ''u00'' @ [hex_lower (of_char c div 16), hex_lower (of_char c)]
     else [c])"

text \<open>\<open>JSON.stringify(secret).slice(1, -1)\<close>.\<close>

definition json_escape :: "string \<Rightarrow> string" where
  "json_escape s = concat (map json_escape_char s)"

definition occurrences :: "string \<Rightarrow> string \<Rightarrow> nat list" where
  "occurrences text s = filter (occurs_at text s) [0..<Suc (length text)]"

definition pattern_spans :: "string \<Rightarrow> (nat \<times> nat) list" where
  "pattern_spans text = concat (map (\<lambda>p. map snd (match_all p 0 text)) CREDENTIAL_PATTERNS)"

definition secret_spans :: "string \<Rightarrow> string list \<Rightarrow> (nat \<times> nat) list" where
  "secret_spans text secrets = concat (map (\<lambda>secret. concat (map (\<lambda>form.
      map (\<lambda>i. (i, i + length form)) (occurrences text form)) [secret, json_escape secret])) secrets)"

definition span_before :: "nat \<times> nat \<Rightarrow> nat \<times> nat \<Rightarrow> bool" where
  "span_before l r = (fst l < fst r \<or> fst l = fst r \<and> snd r \<le> snd l)"

text \<open>The loop over the sorted spans; \<open>e\<close> is where the last one ended.\<close>

fun merge_spans :: "string \<Rightarrow> string \<Rightarrow> (nat \<times> nat) list \<Rightarrow> nat \<Rightarrow> string" where
  "merge_spans mark text [] e = drop e text"
| "merge_spans mark text ((a, b) # spans) e =
    (if b \<le> e then merge_spans mark text spans e
     else (if e \<le> a then take (a - e) (drop e text) @ mark else []) @ merge_spans mark text spans b)"

definition redact_with :: "string \<Rightarrow> string \<Rightarrow> string list \<Rightarrow> string" where
  "redact_with mark text secrets =
    merge_spans mark text (sort_by span_before (pattern_spans text @ secret_spans text secrets)) 0"

definition redactText :: "string \<Rightarrow> string list \<Rightarrow> string" where
  "redactText text secrets = redact_with REDACTED text secrets"

section \<open>The logger\<close>

text \<open>
  A parameter is a string, an error with its class and message, an object with what \<open>JSON.stringify\<close> gives for it
  (nothing, when it throws or gives no string), or a value of another type, which passes through.
\<close>

datatype logParameter = TextParam string | ErrorParam string string | ObjectParam "string option" | OtherParam string

definition describeObject :: "string option \<Rightarrow> string" where
  "describeObject description = (case description of Some d \<Rightarrow> d | None \<Rightarrow> UNSERIALIZABLE)"

definition redactParameter :: "string list \<Rightarrow> logParameter \<Rightarrow> logParameter" where
  "redactParameter secrets parameter = (case parameter of
      TextParam s \<Rightarrow> TextParam (redactText s secrets)
    | ErrorParam class_name message \<Rightarrow> TextParam (redactText (class_name @ '': '' @ message) secrets)
    | ObjectParam description \<Rightarrow> TextParam (redactText (describeObject description) secrets)
    | OtherParam v \<Rightarrow> OtherParam v)"

definition redactParameters :: "string list \<Rightarrow> logParameter list \<Rightarrow> logParameter list" where
  "redactParameters secrets parameters = map (redactParameter secrets) parameters"

datatype secretRole = AwsAccessKeyId | AwsSecretAccessKey | AwsSessionToken

record redactingLogger =
  lg_secrets :: "string list"
  lg_roleIndexes :: "(secretRole, nat) jsmap"

definition registerSecret :: "string \<Rightarrow> secretRole option \<Rightarrow> redactingLogger \<Rightarrow> redactingLogger" where
  "registerSecret secret role s =
    (if js_trim secret = [] then s
     else case role of
       None \<Rightarrow> s\<lparr>lg_secrets := lg_secrets s @ [secret]\<rparr>
     | Some r \<Rightarrow> (case jm_get (lg_roleIndexes s) r of
           None \<Rightarrow> s\<lparr>lg_secrets := lg_secrets s @ [secret], lg_roleIndexes := jm_set r (length (lg_secrets s)) (lg_roleIndexes s)\<rparr>
         | Some held \<Rightarrow> s\<lparr>lg_secrets := (lg_secrets s)[held := secret]\<rparr>))"

definition createRedactingLogger :: "string list \<Rightarrow> redactingLogger" where
  "createRedactingLogger secrets = fold (\<lambda>secret. registerSecret secret None) secrets \<lparr>lg_secrets = [], lg_roleIndexes = []\<rparr>"

text \<open>The members of the wrapper, and the call of the delegate each of them makes.\<close>

datatype logMember = Bare | Debug | Error | Info | Success | Warn | LogAt string

record logCall =
  lc_member :: logMember
  lc_message :: string
  lc_parameters :: "logParameter list"

definition write_through :: "redactingLogger \<Rightarrow> logCall \<Rightarrow> logCall" where
  "write_through s call = call\<lparr>lc_message := redactText (lc_message call) (lg_secrets s),
     lc_parameters := redactParameters (lg_secrets s) (lc_parameters call)\<rparr>"

section \<open>What is kept\<close>

definition covered :: "(nat \<times> nat) list \<Rightarrow> nat \<Rightarrow> bool" where
  "covered spans i = list_ex (\<lambda>(a, b). a \<le> i \<and> i < b) spans"

definition kept_from :: "string \<Rightarrow> (nat \<times> nat) list \<Rightarrow> nat \<Rightarrow> string" where
  "kept_from text spans e = map ((!) text) (filter (\<lambda>i. \<not> covered spans i) [e..<length text])"

lemma kept_split:
  assumes "e \<le> m" and "m \<le> length text"
  shows "kept_from text spans e = map ((!) text) (filter (\<lambda>i. \<not> covered spans i) [e..<m]) @ kept_from text spans m"
proof -
  have "[e..<length text] = [e..<m] @ [m..<length text]" using assms by (metis le_Suc_ex upt_add_eq_append)
  then show ?thesis by (simp add: kept_from_def)
qed

lemma kept_cong: "(\<And>i. e \<le> i \<Longrightarrow> covered spans i = covered spans' i) \<Longrightarrow> kept_from text spans e = kept_from text spans' e"
  unfolding kept_from_def by (intro arg_cong [where f = "map _"] filter_cong) auto

lemma nth_range: "m \<le> length text \<Longrightarrow> map ((!) text) [e..<m] = take (m - e) (drop e text)"
  by (intro nth_equalityI) auto

lemma merge_without_mark:
  assumes "sorted_wrt span_before spans" and "\<forall>(a, b) \<in> set spans. a \<le> b \<and> b \<le> length text" and "e \<le> length text"
  shows "merge_spans [] text spans e = kept_from text spans e"
  using assms
proof (induction spans arbitrary: e)
  case Nil
  then show ?case by (simp add: kept_from_def covered_def nth_range)
next
  case (Cons ab spans)
  obtain a b where ab: "ab = (a, b)" by fastforce
  with Cons.prems have bounds: "a \<le> b" "b \<le> length text" and later: "\<And>a' b'. (a', b') \<in> set spans \<Longrightarrow> a \<le> a'"
    by (auto simp: span_before_def)
  have beyond: "kept_from text (ab # spans) x = kept_from text spans x" if "b \<le> x" for x
    using that ab by (intro kept_cong) (auto simp: covered_def)
  have hidden: "filter (\<lambda>i. \<not> covered (ab # spans) i) [x..<b] = []" if "a \<le> x" for x
    using that ab by (auto simp: covered_def filter_empty_conv)
  show ?case
  proof (cases "b \<le> e")
    case True
    then show ?thesis using Cons beyond ab by auto
  next
    case False
    then have tail: "merge_spans [] text spans b = kept_from text (ab # spans) b"
      using Cons beyond [of b] bounds by auto
    show ?thesis
    proof (cases "e \<le> a")
      case True
      have "filter (\<lambda>i. \<not> covered (ab # spans) i) [e..<a] = [e..<a]"
        using later ab by (fastforce simp: covered_def list_ex_iff intro!: filter_True)
      then have "kept_from text (ab # spans) e = take (a - e) (drop e text) @ kept_from text (ab # spans) a"
        using True bounds kept_split [of e a "text"] by (simp add: nth_range)
      moreover have "kept_from text (ab # spans) a = kept_from text (ab # spans) b"
        using bounds hidden [of a] kept_split [of a b "text"] by simp
      ultimately show ?thesis using False True tail ab by simp
    next
      case False
      then have "kept_from text (ab # spans) e = kept_from text (ab # spans) b"
        using bounds hidden [of e] \<open>\<not> b \<le> e\<close> kept_split [of e b "text"] by simp
      then show ?thesis using False \<open>\<not> b \<le> e\<close> tail ab by simp
    qed
  qed
qed

section \<open>What the search finds\<close>

lemma front_match_shortens: "(t, u) \<in> set (front_matches p s) \<Longrightarrow> length u \<le> length t \<and> length t \<le> length s"
  by (auto simp: front_matches_def dest: run_shortens)

lemma match_all_mem:
  assumes "(k, a, b) \<in> set (match_all p i s)"
  shows "(\<exists>t u rest. front_matches p s = (t, u) # rest
        \<and> (k = i \<and> a = i + (length s - length t) \<and> b = i + (length s - length u)
          \<or> length u < length s \<and> (k, a, b) \<in> set (match_all p (i + (length s - length u)) u)))
      \<or> (\<exists>c s'. s = c # s' \<and> (k, a, b) \<in> set (match_all p (Suc i) s'))"
proof (cases "front_matches p s")
  case Nil
  then show ?thesis using assms unfolding match_all.simps [of p i s] by (cases s) auto
next
  case (Cons tu rest)
  then show ?thesis using assms unfolding match_all.simps [of p i s]
    by (cases tu; cases s) (auto split: if_splits)
qed

lemma match_bounds: "(k, a, b) \<in> set (match_all p i s) \<Longrightarrow> i \<le> k \<and> k \<le> a \<and> a \<le> b \<and> b \<le> i + length s"
proof (induction "length s" arbitrary: i s rule: less_induct)
  case less
  from match_all_mem [OF less.prems] show ?case
  proof (elim disjE exE conjE)
    fix t u rest
    assume "front_matches p s = (t, u) # rest"
    then have len: "length u \<le> length t" "length t \<le> length s" using front_match_shortens [of t u p s] by auto
    { assume "k = i" "a = i + (length s - length t)" "b = i + (length s - length u)"
      with len show ?case by auto }
    { assume "length u < length s" "(k, a, b) \<in> set (match_all p (i + (length s - length u)) u)"
      with less.hyps [of u] len show ?case by fastforce }
  next
    fix c s' assume "s = c # s'" "(k, a, b) \<in> set (match_all p (Suc i) s')"
    with less.hyps [of s'] show ?case by fastforce
  qed
qed

lemma front_match_suffix: "(t, u) \<in> set (front_matches p s) \<Longrightarrow> u = drop (length s - length u) s"
  by (auto simp: front_matches_def dest!: run_in_lang)

text \<open>Where a match begins, one is found, or the place lies inside one that is.\<close>

lemma match_all_complete:
  "front_matches p (drop j s) \<noteq> [] \<Longrightarrow> j \<le> length s \<Longrightarrow>
   \<exists>k a b. (k, a, b) \<in> set (match_all p i s) \<and> k \<le> i + j \<and> (i + j < b \<or> k = i + j)"
proof (induction "length s" arbitrary: i j s rule: less_induct)
  case less
  show ?case
  proof (cases "front_matches p s")
    case Nil
    with less.prems obtain c s' j' where s: "s = c # s'" "j = Suc j'" by (cases j; cases s) auto
    with less.prems less.hyps [of s' j' "Suc i"] obtain k a b where
      "(k, a, b) \<in> set (match_all p (Suc i) s')" "k \<le> Suc i + j'" "Suc i + j' < b \<or> k = Suc i + j'" by auto
    moreover from this Nil s have "(k, a, b) \<in> set (match_all p i s)"
      by (simp add: match_all.simps [of p i "c # s'"])
    ultimately show ?thesis using s by auto
  next
    case (Cons tu rest)
    obtain t u where tu: "tu = (t, u)" by fastforce
    with Cons have u: "u = drop (length s - length u) s" "length u \<le> length s"
      using front_match_suffix [of t u p s] front_match_shortens [of t u p s] by auto
    define n where "n = length s - length u"
    then have n: "u = drop n s" "n \<le> length s" "length u < length s \<longleftrightarrow> 0 < n" using u by auto
    have found: "(i, i + (length s - length t), i + n) \<in> set (match_all p i s)"
      by (simp add: n_def match_all.simps [of p i s] Cons tu)
    consider "j < n \<or> j = 0" | "n \<le> j" "length u < length s" | "n = 0" "0 < j"
      using n(3) by force
    then show ?thesis
    proof cases
      case 1
      then have "i \<le> i + j \<and> (i + j < i + n \<or> i = i + j)" by auto
      with found show ?thesis by blast
    next
      case 2
      then have "front_matches p (drop (j - n) u) \<noteq> []" "j - n \<le> length u" "i + n + (j - n) = i + j"
        using less.prems n by auto
      with less.hyps [OF 2(2), of "j - n" "i + n"] obtain k a b where
        "(k, a, b) \<in> set (match_all p (i + n) u)" "k \<le> i + j" "i + j < b \<or> k = i + j" by metis
      moreover from this 2 have "(k, a, b) \<in> set (match_all p i s)"
        by (simp add: n_def match_all.simps [of p i s] Cons tu)
      ultimately show ?thesis using 2 by auto
    next
      case 3
      then obtain c s' j' where s: "s = c # s'" "j = Suc j'" using less.prems by (cases j; cases s) auto
      with less.prems less.hyps [of s' j' "Suc i"] obtain k a b where
        "(k, a, b) \<in> set (match_all p (Suc i) s')" "k \<le> Suc i + j'" "Suc i + j' < b \<or> k = Suc i + j'" by auto
      moreover from this 3 s have "(k, a, b) \<in> set (match_all p i s)"
        using Cons tu n by (simp add: match_all.simps [of p i "c # s'"])
      ultimately show ?thesis using s by auto
    qed
  qed
qed

section \<open>Segments\<close>

fun kept_segments :: "string \<Rightarrow> (nat \<times> nat) list \<Rightarrow> nat \<Rightarrow> string list" where
  "kept_segments text [] e = [drop e text]"
| "kept_segments text ((a, b) # spans) e =
    (if b \<le> e then kept_segments text spans e
     else (if e \<le> a then [take (a - e) (drop e text)] else []) @ kept_segments text spans b)"

lemma segments_nonempty: "kept_segments text spans e \<noteq> []"
  by (induction "text" spans e rule: kept_segments.induct) auto

lemma join_Cons: "xs \<noteq> [] \<Longrightarrow> join_with m (x # xs) = x @ m @ join_with m xs"
  by (cases xs) auto

lemma merge_joins: "merge_spans mark text spans e = join_with mark (kept_segments text spans e)"
  by (induction "text" spans e rule: kept_segments.induct) (simp_all add: join_Cons segments_nonempty)

lemma join_nothing: "join_with [] xs = concat xs"
  by (induction "[] :: string" xs rule: join_with.induct) auto

text \<open>What must not be shown: the inside of a credential, and a secret as it is or as JSON writes it.\<close>

definition hidden :: "string list \<Rightarrow> string \<Rightarrow> nat \<Rightarrow> bool" where
  "hidden secrets text i =
    ((\<exists>p \<in> set CREDENTIAL_PATTERNS. \<exists>(k, a, b) \<in> set (match_all p 0 text). a \<le> i \<and> i < b)
     \<or> (\<exists>secret \<in> set secrets. \<exists>form \<in> {secret, json_escape secret}. \<exists>j. occurs_at text form j \<and> j \<le> i \<and> i < j + length form))"

lemma covered_iff: "covered spans i \<longleftrightarrow> (\<exists>a b. (a, b) \<in> set spans \<and> a \<le> i \<and> i < b)"
  by (auto simp: covered_def list_ex_iff)

lemma in_pattern_spans:
  "(a, b) \<in> set (pattern_spans text) \<longleftrightarrow> (\<exists>p \<in> set CREDENTIAL_PATTERNS. \<exists>k. (k, a, b) \<in> set (match_all p 0 text))"
  unfolding pattern_spans_def set_concat set_map by force

lemma in_occurrences: "i \<in> set (occurrences text s) \<longleftrightarrow> occurs_at text s i"
  by (auto simp: occurrences_def simp del: upt_Suc)

lemma in_secret_spans:
  "(a, b) \<in> set (secret_spans text secrets) \<longleftrightarrow>
    (\<exists>secret \<in> set secrets. \<exists>form \<in> {secret, json_escape secret}. occurs_at text form a \<and> b = a + length form)"
proof -
  have "set (secret_spans text secrets) = (\<Union>secret \<in> set secrets. \<Union>form \<in> {secret, json_escape secret}.
      (\<lambda>i. (i, i + length form)) ` set (occurrences text form))"
    by (simp add: secret_spans_def)
  then show ?thesis by (simp only: UN_iff image_iff in_occurrences prod.inject Bex_def mem_Collect_eq) blast
qed

lemma hidden_spans: "covered (pattern_spans text @ secret_spans text secrets) i \<longleftrightarrow> hidden secrets text i"
  unfolding covered_iff hidden_def set_append Un_iff in_pattern_spans in_secret_spans by blast

section \<open>Registered secrets\<close>

type_synonym registration = "string \<times> secretRole option"

definition registered :: "registration list \<Rightarrow> redactingLogger" where
  "registered ops = fold (\<lambda>(secret, role). registerSecret secret role) ops (createRedactingLogger [])"

definition usable :: "string \<Rightarrow> bool" where
  "usable secret = (\<not> list_all is_space secret)"

text \<open>What was registered without a role, in order, and the latest value of each role.\<close>

definition roleless :: "registration list \<Rightarrow> string list" where
  "roleless ops = map fst (filter (\<lambda>(s, r). r = None \<and> usable s) ops)"

definition latest :: "secretRole \<Rightarrow> registration list \<Rightarrow> string option" where
  "latest r ops = map_option fst (List.find (\<lambda>(s, r'). r' = Some r \<and> usable s) (rev ops))"

definition free_places :: "redactingLogger \<Rightarrow> nat list" where
  "free_places st = filter (\<lambda>k. \<forall>r. jm_get (lg_roleIndexes st) r \<noteq> Some k) [0..<length (lg_secrets st)]"

definition log_inv :: "registration list \<Rightarrow> redactingLogger \<Rightarrow> bool" where
  "log_inv ops st \<longleftrightarrow>
    (\<forall>r. jm_get (lg_roleIndexes st) r = None \<longrightarrow> latest r ops = None)
    \<and> (\<forall>r k. jm_get (lg_roleIndexes st) r = Some k \<longrightarrow>
         k < length (lg_secrets st) \<and> latest r ops = Some (lg_secrets st ! k))
    \<and> (\<forall>r r' k. jm_get (lg_roleIndexes st) r = Some k \<longrightarrow> jm_get (lg_roleIndexes st) r' = Some k \<longrightarrow> r = r')
    \<and> map ((!) (lg_secrets st)) (free_places st) = roleless ops"

lemma held_in_range: "log_inv ops st \<Longrightarrow> jm_get (lg_roleIndexes st) r = Some k \<Longrightarrow> k < length (lg_secrets st)"
  by (auto simp: log_inv_def)

lemma latest_snoc: "latest r (ops @ [(s, role)]) = (if role = Some r \<and> usable s then Some s else latest r ops)"
  by (simp add: latest_def)

lemma roleless_snoc: "roleless (ops @ [(s, role)]) = roleless ops @ (if role = None \<and> usable s then [s] else [])"
  by (simp add: roleless_def)

lemma place_facts:
  assumes "log_inv ops st"
  shows "jm_get (lg_roleIndexes st) r \<noteq> Some (length (lg_secrets st))"
    and "\<forall>k \<in> set (free_places st). k < length (lg_secrets st)"
  using held_in_range [OF assms] by (auto simp: free_places_def)

lemma unblank: "usable secret \<Longrightarrow> js_trim secret \<noteq> []"
  by (simp add: usable_def js_trim_empty)

lemma register_without_role:
  assumes inv: "log_inv ops st" and usable: "usable secret"
  shows "log_inv (ops @ [(secret, None)]) (registerSecret secret None st)"
proof -
  note range = place_facts(1) [OF inv] and places = place_facts(2) [OF inv] and unblank = unblank [OF usable]
  define st' where "st' = registerSecret secret None st"
  have st': "lg_secrets st' = lg_secrets st @ [secret]" "lg_roleIndexes st' = lg_roleIndexes st"
    using unblank by (simp_all add: st'_def registerSecret_def)
  have more: "free_places st' = free_places st @ [length (lg_secrets st)]"
    using range by (simp add: free_places_def st')
  have "map ((!) (lg_secrets st')) (free_places st) = map ((!) (lg_secrets st)) (free_places st)"
    using places by (auto simp: st' nth_append)
  also have "\<dots> = roleless ops" using inv by (simp add: log_inv_def)
  finally have "map ((!) (lg_secrets st')) (free_places st') = roleless (ops @ [(secret, None)])"
    using usable by (simp add: more roleless_snoc st')
  moreover have "jm_get (lg_roleIndexes st') x = Some k \<Longrightarrow>
      k < length (lg_secrets st') \<and> latest x (ops @ [(secret, None)]) = Some (lg_secrets st' ! k)" for x k
    using inv by (simp add: st' log_inv_def latest_snoc nth_append less_SucI)
  ultimately show ?thesis using inv unfolding st'_def [symmetric] log_inv_def st'
    by (simp add: latest_snoc)
qed

lemma register_new_role:
  assumes inv: "log_inv ops st" and usable: "usable secret" and index: "jm_get (lg_roleIndexes st) r = None"
  shows "log_inv (ops @ [(secret, Some r)]) (registerSecret secret (Some r) st)"
proof -
  note range = place_facts(1) [OF inv] and places = place_facts(2) [OF inv] and unblank = unblank [OF usable]
  define st' where "st' = registerSecret secret (Some r) st"
  have st': "lg_secrets st' = lg_secrets st @ [secret]"
    "jm_get (lg_roleIndexes st') = (jm_get (lg_roleIndexes st))(r \<mapsto> length (lg_secrets st))"
    using index unblank by (auto simp: st'_def registerSecret_def)
  have same: "free_places st' = free_places st"
    using index range by (auto simp: free_places_def st' intro!: filter_cong)
  have "map ((!) (lg_secrets st')) (free_places st) = map ((!) (lg_secrets st)) (free_places st)"
    using places by (auto simp: st' nth_append)
  also have "\<dots> = roleless ops" using inv by (simp add: log_inv_def)
  finally have "map ((!) (lg_secrets st')) (free_places st') = roleless (ops @ [(secret, Some r)])"
    by (simp add: same roleless_snoc)
  moreover have "jm_get (lg_roleIndexes st') x = Some k \<Longrightarrow>
      k < length (lg_secrets st') \<and> latest x (ops @ [(secret, Some r)]) = Some (lg_secrets st' ! k)" for x k
    using inv usable by (auto simp: st' log_inv_def latest_snoc nth_append less_SucI split: if_splits)
  moreover have "jm_get (lg_roleIndexes st') x = None \<Longrightarrow> latest x (ops @ [(secret, Some r)]) = None" for x
    using inv by (auto simp: st' log_inv_def latest_snoc split: if_splits)
  moreover have "jm_get (lg_roleIndexes st') x = Some k \<Longrightarrow> jm_get (lg_roleIndexes st') y = Some k \<Longrightarrow> x = y" for x y k
    using inv range by (auto simp: st' log_inv_def split: if_splits)
  ultimately show ?thesis unfolding st'_def [symmetric] log_inv_def by blast
qed

lemma register_held_role:
  assumes inv: "log_inv ops st" and usable: "usable secret" and index: "jm_get (lg_roleIndexes st) r = Some k"
  shows "log_inv (ops @ [(secret, Some r)]) (registerSecret secret (Some r) st)"
proof -
  note range = place_facts(1) [OF inv] and unblank = unblank [OF usable]
  define st' where "st' = registerSecret secret (Some r) st"
  have st': "lg_secrets st' = (lg_secrets st)[k := secret]" "lg_roleIndexes st' = lg_roleIndexes st"
    using index unblank by (auto simp: st'_def registerSecret_def)
  have "k \<notin> set (free_places st)" "k < length (lg_secrets st)"
    using index held_in_range [OF inv] by (auto simp: free_places_def)
  then have "map ((!) (lg_secrets st')) (free_places st') = map ((!) (lg_secrets st)) (free_places st)"
    by (auto simp: st' free_places_def nth_list_update)
  also have "\<dots> = roleless ops" using inv by (simp add: log_inv_def)
  finally have "map ((!) (lg_secrets st')) (free_places st') = roleless (ops @ [(secret, Some r)])"
    by (simp add: roleless_snoc)
  moreover have "jm_get (lg_roleIndexes st') x = Some i \<Longrightarrow>
      i < length (lg_secrets st') \<and> latest x (ops @ [(secret, Some r)]) = Some (lg_secrets st' ! i)" for x i
    using inv usable index by (auto simp: st' log_inv_def latest_snoc nth_list_update)
  ultimately show ?thesis using inv index unfolding st'_def [symmetric] log_inv_def st'
    by (auto simp: latest_snoc)
qed

lemma register_keeps_inv:
  assumes "log_inv ops st"
  shows "log_inv (ops @ [(secret, role)]) (registerSecret secret role st)"
proof (cases "usable secret")
  case False
  then show ?thesis using assms
    by (simp add: registerSecret_def js_trim_empty usable_def log_inv_def latest_snoc roleless_snoc)
next
  case True
  then show ?thesis using assms register_without_role register_new_role register_held_role
    by (cases role; cases "jm_get (lg_roleIndexes st) (the role)") auto
qed

lemma registered_inv: "log_inv ops (registered ops)"
proof (induction ops rule: rev_induct)
  case Nil
  show ?case by (simp add: registered_def createRedactingLogger_def log_inv_def free_places_def latest_def roleless_def)
next
  case (snoc op ops)
  then show ?case using register_keeps_inv [of ops "registered ops" "fst op" "snd op"]
    by (simp add: registered_def case_prod_beta)
qed

lemma held_places: "length (filter (\<lambda>k. \<exists>r. jm_get m r = Some k) [0..<n]) \<le> 3" for m :: "(secretRole, nat) jsmap"
proof -
  have roles: "(UNIV :: secretRole set) = {AwsAccessKeyId, AwsSecretAccessKey, AwsSessionToken}"
    using secretRole.exhaust by auto
  have "set (filter (\<lambda>k. \<exists>r. jm_get m r = Some k) [0..<n]) \<subseteq> (\<lambda>r. the (jm_get m r)) ` UNIV"
  proof
    fix k assume "k \<in> set (filter (\<lambda>k. \<exists>r. jm_get m r = Some k) [0..<n])"
    then obtain r where "jm_get m r = Some k" by auto
    then have "k = the (jm_get m r)" by simp
    then show "k \<in> (\<lambda>r. the (jm_get m r)) ` UNIV" by blast
  qed
  then have "card (set (filter (\<lambda>k. \<exists>r. jm_get m r = Some k) [0..<n])) \<le> card ((\<lambda>r. the (jm_get m r)) ` UNIV)"
    by (intro card_mono) (simp_all add: roles)
  also have "\<dots> \<le> card (UNIV :: secretRole set)" by (intro card_image_le) (simp add: roles)
  also have "\<dots> \<le> 3" unfolding roles by (simp add: card_insert_if)
  finally show ?thesis by (subst (asm) distinct_card) simp_all
qed

text \<open>
  The list of secrets stays bounded over a run of any length and is never out of date: it holds every usable value
  registered without a role and, for each of the three roles, the latest usable value alone, so a rotated credential
  is dropped when its successor is registered and a password never is.
\<close>

theorem registered_secrets_are_current:
  "set (lg_secrets (registered ops)) = set (roleless ops) \<union> {s. \<exists>r. latest r ops = Some s}
   \<and> length (lg_secrets (registered ops)) \<le> length (roleless ops) + 3"
proof -
  define st where "st = registered ops"
  note inv = registered_inv [of ops, folded st_def]
  have free: "set (roleless ops) = (!) (lg_secrets st) ` set (free_places st)"
    using inv unfolding log_inv_def by (metis set_map)
  have "s \<in> set (lg_secrets st) \<longleftrightarrow> s \<in> set (roleless ops) \<or> (\<exists>r. latest r ops = Some s)" for s
  proof
    assume "s \<in> set (lg_secrets st)"
    then obtain k where k: "k < length (lg_secrets st)" "s = lg_secrets st ! k" by (auto simp: in_set_conv_nth)
    show "s \<in> set (roleless ops) \<or> (\<exists>r. latest r ops = Some s)"
    proof (cases "k \<in> set (free_places st)")
      case True
      with k show ?thesis unfolding free by blast
    next
      case False
      with k obtain r where "jm_get (lg_roleIndexes st) r = Some k" by (auto simp: free_places_def)
      with k inv show ?thesis unfolding log_inv_def by blast
    qed
  next
    assume "s \<in> set (roleless ops) \<or> (\<exists>r. latest r ops = Some s)"
    then show "s \<in> set (lg_secrets st)"
    proof
      assume "\<exists>r. latest r ops = Some s"
      then obtain r k where "jm_get (lg_roleIndexes st) r = Some k" "latest r ops = Some s"
        using inv unfolding log_inv_def by (metis option.exhaust option.distinct(1))
      then show ?thesis using inv by (auto simp: log_inv_def)
    qed (use place_facts(2) [OF inv] in \<open>auto simp: free\<close>)
  qed
  moreover have "length (lg_secrets st) \<le> length (roleless ops) + 3"
  proof -
    have "length (lg_secrets st) = length (free_places st)
        + length (filter (\<lambda>k. \<exists>r. jm_get (lg_roleIndexes st) r = Some k) [0..<length (lg_secrets st)])"
      using sum_length_filter_compl [of "\<lambda>k. \<forall>r. jm_get (lg_roleIndexes st) r \<noteq> Some k" "[0..<length (lg_secrets st)]"]
      by (simp add: free_places_def)
    moreover have "length (free_places st) = length (roleless ops)"
      using inv unfolding log_inv_def by (metis length_map)
    ultimately show ?thesis using held_places [of "lg_roleIndexes st" "length (lg_secrets st)"] by linarith
  qed
  ultimately show ?thesis unfolding st_def by auto
qed

section \<open>Redaction\<close>

lemma span_before_order: "span_before x y \<or> span_before y x" "span_before x y \<Longrightarrow> span_before y z \<Longrightarrow> span_before x z"
  by (auto simp: span_before_def)

lemma spans_within:
  "(a, b) \<in> set (pattern_spans text @ secret_spans text secrets) \<Longrightarrow> a \<le> b \<and> b \<le> length text"
  using match_bounds [of _ a b _ 0 "text"] by (auto simp: in_pattern_spans in_secret_spans)

text \<open>
  C24. A redacted text is the rest of the text and nothing else. It is a list of segments with the fixed mark between them;
  put together, the segments are exactly the characters outside every occurrence of a registered secret, as it is
  or as JSON escapes it, overlapping occurrences included, and outside every match of a credential pattern. No character
  of a secret is left over where spans overlap, and no other character is lost.
\<close>

theorem redaction_keeps_exactly_the_rest:
  "\<exists>segments. redactText text secrets = join_with ''[redacted]'' segments
    \<and> concat segments = map ((!) text) (filter (\<lambda>i. \<not> hidden secrets text i) [0..<length text])"
proof -
  define spans where "spans = sort_by span_before (pattern_spans text @ secret_spans text secrets)"
  have "merge_spans [] text spans 0 = kept_from text spans 0"
    unfolding spans_def using spans_within span_before_order
    by (intro merge_without_mark sorted_sort_by) (auto simp: span_before_def simp del: set_append)
  moreover have "covered spans i = hidden secrets text i" for i
    unfolding hidden_spans [symmetric] spans_def covered_iff by simp
  ultimately have "concat (kept_segments text spans 0) = map ((!) text) (filter (\<lambda>i. \<not> hidden secrets text i) [0..<length text])"
    by (simp add: merge_joins join_nothing kept_from_def)
  then show ?thesis
    by (intro exI [of _ "kept_segments text spans 0"]) (simp add: redactText_def redact_with_def merge_joins spans_def REDACTED_def)
qed

text \<open>
  The search misses no credential. Wherever a text contains a group of one of the five patterns with its value
  behind it, a match of that pattern is found that begins there, or one that begins before it and reaches beyond its
  first character.
\<close>

theorem credential_search_is_complete:
  assumes "in_lang (fst p) label" and "in_lang (snd p) value"
  shows "\<exists>k a b. (k, a, b) \<in> set (match_all p 0 (before @ label @ value @ after))
    \<and> k \<le> length before \<and> (length before < b \<or> k = length before)"
proof -
  have "value @ after \<in> set (rx_run (fst p) (label @ value @ after))" "after \<in> set (rx_run (snd p) (value @ after))"
    using assms lang_in_run by auto
  then have "(value @ after, after) \<in> set (front_matches p (label @ value @ after))" by (force simp: front_matches_def)
  then have "front_matches p (label @ value @ after) \<noteq> []" by auto
  then show ?thesis
    using match_all_complete [of p "length before" "before @ label @ value @ after" 0] by auto
qed

theorem credential_search_is_complete_witness:
  "\<exists>k a b. (k, a, b) \<in> set (match_all AUTHORIZATION_PATTERN 0 ''a Bearer tok.'') \<and> k \<le> 2 \<and> (2 < b \<or> k = 2)"
proof -
  have "rx_test (fst AUTHORIZATION_PATTERN) ''Bearer ''" "rx_test (snd AUTHORIZATION_PATTERN) ''tok''"
    by code_simp+
  then have "in_lang (fst AUTHORIZATION_PATTERN) ''Bearer ''" "in_lang (snd AUTHORIZATION_PATTERN) ''tok''"
    by (simp_all add: test_iff_lang)
  from credential_search_is_complete [OF this, of "''a ''" "''.''"] show ?thesis by (simp add: numeral_2_eq_2)
qed

text \<open>The full stop that ends a sentence is no part of a token, and a secret is found in its JSON form too.\<close>

lemma bearer_example: "redactText ''a Bearer a.b. c'' [] = ''a Bearer [redacted]. c''"
  by code_simp

lemma secret_example: "redactText [CHR ''x'', back_slash, quote_mark, CHR ''y''] [[quote_mark]] = ''x'' @ ''[redacted]y''"
  by code_simp

end
