(* ===== verification/StaleMarking.thy ===== *)
theory StaleMarking
  imports Accessory
begin

text \<open>
  The three passes of \<open>src/src/accessories/staleMarking.ts\<close> over an accessory the plugin cannot
  vouch for. A pass walks the services in order, acts on those that carry one characteristic, and
  counts a service it could not prepare without stopping there. What HAP answers, and which of its
  calls throw, are arguments: \<open>testCharacteristic\<close> and \<open>onSet\<close> are asked through \<open>passAnswers\<close>,
  the pushes through \<open>hapAnswers\<close> as in the accessory's own handlers.
\<close>

section \<open>The walk\<close>

record servicePassCounts =
  reached :: nat
  failed :: nat

record passAnswers =
  pa_hap :: hapAnswers
  pa_testThrows :: "serviceKey \<Rightarrow> js_error option"
  pa_onSetThrows :: "serviceKey \<Rightarrow> js_error option"

datatype passOutput =
    PassDid hapCall
  | BoundRefusal serviceKey string

type_synonym 'a pass = "(passOutput, servicePassCounts, 'a) handler"

fun pass_do :: "passAnswers \<Rightarrow> hapCall list \<Rightarrow> unit pass" where
  "pass_do env [] = act_return ()"
| "pass_do env (c # cs) =
    (case ha_throws (pa_hap env) c of
       Some e \<Rightarrow> act_throw e
     | None \<Rightarrow> act_then (act_emit [PassDid c]) (pass_do env cs))"

text \<open>
  One service inside its own \<open>try\<close>: the guard may throw, the act may throw, and only an act that
  returned counts as reached.
\<close>

definition prepare_service ::
  "passAnswers \<Rightarrow> string \<Rightarrow> (serviceKey \<Rightarrow> unit pass) \<Rightarrow> serviceKey \<Rightarrow> unit pass" where
  "prepare_service env guard act service =
    act_bind (act_attempt
      (case pa_testThrows env service of
         Some e \<Rightarrow> act_throw e
       | None \<Rightarrow>
           if ha_tested (pa_hap env) service guard
           then act_then (act service) (act_modify (\<lambda>c. c\<lparr>reached := reached c + 1\<rparr>))
           else act_return ()))
      (\<lambda>e. case e of
             None \<Rightarrow> act_return ()
           | Some _ \<Rightarrow> act_modify (\<lambda>c. c\<lparr>failed := failed c + 1\<rparr>))"

fun services_walk ::
  "passAnswers \<Rightarrow> string \<Rightarrow> (serviceKey \<Rightarrow> unit pass) \<Rightarrow> serviceKey list \<Rightarrow> unit pass" where
  "services_walk env guard act [] = act_return ()"
| "services_walk env guard act (s # ss) =
    act_then (prepare_service env guard act s) (services_walk env guard act ss)"

definition overServicesCarrying ::
  "passAnswers \<Rightarrow> serviceKey list \<Rightarrow> string \<Rightarrow> (serviceKey \<Rightarrow> unit pass)
    \<Rightarrow> passOutput list \<times> servicePassCounts" where
  "overServicesCarrying env services guard act =
    (case services_walk env guard act services \<lparr>reached = 0, failed = 0\<rparr> of
       (os, r, counts) \<Rightarrow> (os, counts))"

section \<open>The passes\<close>

text \<open>The pushes of one service, with the guard's own answer deciding what is declared first.\<close>

definition push_inactive :: "passAnswers \<Rightarrow> serviceKey \<Rightarrow> unit pass" where
  "push_inactive env service =
    pass_do env (publishValue (ha_tested (pa_hap env) service ''StatusActive'')
      (ha_declared (pa_hap env) service ''StatusActive'') service StatusActive ''StatusActive''
      (VBool False))"

definition push_unreadable :: "passAnswers \<Rightarrow> int \<Rightarrow> serviceKey \<Rightarrow> unit pass" where
  "push_unreadable env status service =
    pass_do env (publishPersistentFailure (ha_tested (pa_hap env) service ''StatusActive'')
      (ha_declared (pa_hap env) service ''StatusActive'') service StatusActive ''StatusActive''
      status)"

definition markRestoredServicesStale ::
  "passAnswers \<Rightarrow> int \<Rightarrow> serviceKey list \<Rightarrow> passOutput list \<times> servicePassCounts" where
  "markRestoredServicesStale env communicationFailure services =
    overServicesCarrying env services ''StatusActive'' (\<lambda>service.
      act_bind (act_attempt (push_inactive env service)) (\<lambda>e. case e of
          None \<Rightarrow> act_return ()
        | Some error \<Rightarrow>
            act_then (push_unreadable env communicationFailure service) (act_throw error)))"

definition refuseRestoredControls ::
  "passAnswers \<Rightarrow> string \<Rightarrow> serviceKey list \<Rightarrow> passOutput list \<times> servicePassCounts" where
  "refuseRestoredControls env accessoryName services =
    overServicesCarrying env services ''On'' (\<lambda>service.
      case pa_onSetThrows env service of
        Some e \<Rightarrow> act_throw e
      | None \<Rightarrow> act_emit [BoundRefusal service accessoryName])"

definition markTrustReportsUnreadable ::
  "passAnswers \<Rightarrow> int \<Rightarrow> serviceKey list \<Rightarrow> passOutput list \<times> servicePassCounts" where
  "markTrustReportsUnreadable env status services =
    overServicesCarrying env services ''StatusActive'' (push_unreadable env status)"

section \<open>What a pass makes and counts\<close>

text \<open>
  The walk is the concatenation of the services' own outputs, whatever the counts are, as long as the
  act does not read the counts.
\<close>

definition blind :: "unit pass \<Rightarrow> passOutput list \<Rightarrow> bool \<Rightarrow> bool" where
  "blind m os ok = (\<forall>c. fst (m c) = os \<and> snd (snd (m c)) = c \<and> (\<exists>x. fst (snd (m c)) = x
    \<and> ((\<exists>e. x = Inl e) \<longleftrightarrow> \<not> ok)))"

definition carries :: "passAnswers \<Rightarrow> string \<Rightarrow> serviceKey \<Rightarrow> bool" where
  "carries env guard s = (pa_testThrows env s = None \<and> ha_tested (pa_hap env) s guard)"

lemma prepare_service_blind:
  assumes "blind (act s) os ok"
  shows "prepare_service env guard act s c =
    (if carries env guard s then os else [], Inr (),
     c\<lparr>reached := reached c + (if carries env guard s \<and> ok then 1 else 0),
       failed := failed c
         + (if pa_testThrows env s \<noteq> None \<or> (carries env guard s \<and> \<not> ok) then 1 else 0)\<rparr>)"
proof -
  obtain r where act: "act s c = (os, r, c)" and r: "(\<exists>e. r = Inl e) \<longleftrightarrow> \<not> ok"
    using assms unfolding blind_def by (metis prod.exhaust_sel)
  show ?thesis
    using r
    by (cases ok; cases r; cases "pa_testThrows env s")
      (auto simp: prepare_service_def act_bind_cases act_attempt_cases act_defs carries_def act)
qed

lemma services_walk_blind:
  assumes "\<And>s. blind (act s) (os s) (ok s)"
  shows "services_walk env guard act services c =
    (concat (map (\<lambda>s. if carries env guard s then os s else []) services), Inr (),
     c\<lparr>reached := reached c + length (filter (\<lambda>s. carries env guard s \<and> ok s) services),
       failed := failed c + length (filter (\<lambda>s. pa_testThrows env s \<noteq> None
                                          \<or> (carries env guard s \<and> \<not> ok s)) services)\<rparr>)"
proof (induction services arbitrary: c)
  case Nil
  then show ?case by (simp add: act_defs)
next
  case (Cons s ss)
  show ?case
    by (simp add: act_then_def act_bind_def prepare_service_blind [where act = act and os = "os s" and ok = "ok s" and s = s, OF assms] Cons.IH)
qed

lemma overServicesCarrying_blind:
  assumes "\<And>s. blind (act s) (os s) (ok s)"
  shows "overServicesCarrying env services guard act =
    (concat (map (\<lambda>s. if carries env guard s then os s else []) services),
     \<lparr>reached = length (filter (\<lambda>s. carries env guard s \<and> ok s) services),
      failed = length (filter (\<lambda>s. pa_testThrows env s \<noteq> None
                                 \<or> (carries env guard s \<and> \<not> ok s)) services)\<rparr>)"
  by (simp add: overServicesCarrying_def services_walk_blind [OF assms])


section \<open>The pushes of each pass\<close>

definition throws :: "passAnswers \<Rightarrow> hapCall \<Rightarrow> bool" where
  "throws env c = (ha_throws (pa_hap env) c \<noteq> None)"

definition declares :: "passAnswers \<Rightarrow> serviceKey \<Rightarrow> hapCall list" where
  "declares env s = declareCharacteristic (ha_tested (pa_hap env) s ''StatusActive'')
     (ha_declared (pa_hap env) s ''StatusActive'') s ''StatusActive''"

lemma blind_pass_do:
  "blind (pass_do env cs)
     (map PassDid (takeWhile (\<lambda>c. \<not> throws env c) cs)) (\<forall>c \<in> set cs. \<not> throws env c)"
proof (induction cs)
  case Nil
  then show ?case by (simp add: blind_def act_defs)
next
  case (Cons c cs)
  then show ?case
    by (cases "ha_throws (pa_hap env) c")
      (auto simp: blind_def throws_def act_defs act_bind_cases)
qed


text \<open>
  A service that carries the guard has the characteristic, so nothing is declared and the push is the
  only call.
\<close>

definition inactive_call :: "serviceKey \<Rightarrow> hapCall" where
  "inactive_call s = UpdateCharacteristic s StatusActive (VBool False)"

definition unreadable_call :: "int \<Rightarrow> serviceKey \<Rightarrow> hapCall" where
  "unreadable_call status s = UpdateWithError s StatusActive status"

definition stale_os :: "passAnswers \<Rightarrow> int \<Rightarrow> serviceKey \<Rightarrow> hapCall list" where
  "stale_os env status s =
    (let run = (\<lambda>c. takeWhile (\<lambda>c. \<not> throws env c) (declares env s @ [c]))
     in run (inactive_call s)
        @ (if \<exists>c \<in> set (declares env s @ [inactive_call s]). throws env c
           then run (unreadable_call status s) else []))"

lemma push_inactive_run:
  "push_inactive env s = pass_do env (declares env s @ [inactive_call s])"
  "push_unreadable env status s = pass_do env (declares env s @ [unreadable_call status s])"
  by (simp_all add: push_inactive_def push_unreadable_def publishValue_def publishPersistentFailure_def
      declares_def inactive_call_def unreadable_call_def)

lemma declares_carried: "carries env ''StatusActive'' s \<Longrightarrow> declares env s = []"
  by (simp add: carries_def declares_def declareCharacteristic_def)

lemma blind_push_unreadable:
  "blind (push_unreadable env status s)
     (map PassDid (takeWhile (\<lambda>c. \<not> throws env c) (declares env s @ [unreadable_call status s])))
     (\<forall>c \<in> set (declares env s @ [unreadable_call status s]). \<not> throws env c)"
  unfolding push_inactive_run by (rule blind_pass_do)

lemma blind_stale:
  "blind (act_bind (act_attempt (push_inactive env s)) (\<lambda>e. case e of
            None \<Rightarrow> act_return ()
          | Some error \<Rightarrow> act_then (push_unreadable env status s) (act_throw error)))
     (map PassDid (stale_os env status s))
     (\<forall>c \<in> set (declares env s @ [inactive_call s]). \<not> throws env c)"
  (is "blind ?m _ ?ok")
proof -
  have i: "blind (push_inactive env s)
      (map PassDid (takeWhile (\<lambda>c. \<not> throws env c) (declares env s @ [inactive_call s]))) ?ok"
    unfolding push_inactive_run by (rule blind_pass_do)
  show ?thesis
    unfolding blind_def
  proof (intro allI)
    fix c
    obtain r where ir: "push_inactive env s c
        = (map PassDid (takeWhile (\<lambda>c. \<not> throws env c) (declares env s @ [inactive_call s])), r, c)"
      and r: "(\<exists>e. r = Inl e) \<longleftrightarrow> \<not> ?ok"
      using i unfolding blind_def by (metis prod.exhaust_sel)
    obtain r' where ur: "push_unreadable env status s c
        = (map PassDid (takeWhile (\<lambda>c. \<not> throws env c) (declares env s @ [unreadable_call status s])), r', c)"
      using blind_push_unreadable unfolding blind_def by (metis prod.exhaust_sel)
    have os: "stale_os env status s = takeWhile (\<lambda>c. \<not> throws env c) (declares env s @ [inactive_call s])
        @ (if ?ok then []
           else takeWhile (\<lambda>c. \<not> throws env c) (declares env s @ [unreadable_call status s]))"
      unfolding stale_os_def Let_def by auto
    show "fst (?m c) = map PassDid (stale_os env status s) \<and> snd (snd (?m c)) = c
        \<and> (\<exists>x. fst (snd (?m c)) = x \<and> ((\<exists>e. x = Inl e) \<longleftrightarrow> \<not> ?ok))"
    proof (cases r)
      case (Inl e)
      then have no: "\<not> ?ok" using r by blast
      show ?thesis
        unfolding os if_not_P [OF no]
        by (use no in \<open>cases r'\<close>)
          (simp_all add: act_bind_cases act_attempt_cases act_defs ir ur Inl)
    next
      case (Inr x)
      then have ok: "?ok" using r by blast
      show ?thesis
        using ok by (simp add: act_bind_cases act_attempt_cases act_return_def ir os Inr)
    qed
  qed
qed

section \<open>What the passes leave\<close>

definition trust_reports :: "passAnswers \<Rightarrow> serviceKey list \<Rightarrow> serviceKey list" where
  "trust_reports env services = filter (carries env ''StatusActive'') services"

definition unasked :: "passAnswers \<Rightarrow> serviceKey list \<Rightarrow> serviceKey list" where
  "unasked env services = filter (\<lambda>s. pa_testThrows env s \<noteq> None) services"


definition silent :: "passAnswers \<Rightarrow> int \<Rightarrow> serviceKey \<Rightarrow> bool" where
  "silent env status s = (throws env (inactive_call s) \<and> throws env (unreadable_call status s))"

text \<open>The trust a controller reads: HAP serves the last push that did not throw.\<close>

fun vouches :: "serviceKey \<Rightarrow> bool \<Rightarrow> passOutput list \<Rightarrow> bool" where
  "vouches s held [] = held"
| "vouches s held (PassDid (UpdateCharacteristic s' c v) # os) =
    vouches s (if s' = s \<and> c = StatusActive then v = VBool True else held) os"
| "vouches s held (PassDid (UpdateWithError s' c e) # os) =
    vouches s (if s' = s \<and> c = StatusActive then False else held) os"
| "vouches s held (_ # os) = vouches s held os"

lemma vouches_append: "vouches s held (xs @ ys) = vouches s (vouches s held xs) ys"
  by (induction s held xs rule: vouches.induct) auto

definition stale_pushes :: "passAnswers \<Rightarrow> int \<Rightarrow> serviceKey \<Rightarrow> passOutput list" where
  "stale_pushes env status s =
    (if \<not> throws env (inactive_call s) then [PassDid (inactive_call s)]
     else if \<not> throws env (unreadable_call status s) then [PassDid (unreadable_call status s)]
     else [])"

definition unreadable_pushes :: "passAnswers \<Rightarrow> int \<Rightarrow> serviceKey \<Rightarrow> passOutput list" where
  "unreadable_pushes env status s =
    (if \<not> throws env (unreadable_call status s) then [PassDid (unreadable_call status s)] else [])"

lemma concat_over_filter:
  "(\<And>s. P s \<Longrightarrow> f s = g s) \<Longrightarrow>
    concat (map (\<lambda>s. if P s then f s else []) xs) = concat (map g (filter P xs))"
  by (induction xs) auto

lemma filter_carried:
  "filter (\<lambda>s. carries env g s \<and> P s) xs = filter P (filter (carries env g) xs)"
  by (simp add: conj_commute)

lemma length_failed:
  "length (filter (\<lambda>s. pa_testThrows env s \<noteq> None \<or> (carries env g s \<and> \<not> P s)) xs)
    = length (unasked env xs) + length (filter (\<lambda>s. \<not> P s) (filter (carries env g) xs))"
  by (induction xs) (auto simp: unasked_def carries_def)

lemma stale_pass_form:
  "markRestoredServicesStale env status services =
    (concat (map (stale_pushes env status) (trust_reports env services)),
     \<lparr>reached = length (filter (\<lambda>s. \<not> throws env (inactive_call s)) (trust_reports env services)),
      failed = length (unasked env services)
        + length (filter (\<lambda>s. throws env (inactive_call s)) (trust_reports env services))\<rparr>)"
proof -
  let ?ok = "\<lambda>s. \<forall>c \<in> set (declares env s @ [inactive_call s]). \<not> throws env c"
  have ok: "?ok s = (\<not> throws env (inactive_call s))" if "carries env ''StatusActive'' s" for s
    by (simp add: declares_carried [OF that])
  have os: "concat (map (\<lambda>s. if carries env ''StatusActive'' s
        then map PassDid (stale_os env status s) else []) services)
      = concat (map (stale_pushes env status) (trust_reports env services))"
    unfolding trust_reports_def
    by (rule concat_over_filter)
      (simp add: stale_os_def stale_pushes_def Let_def declares_carried)
  have f: "filter P (trust_reports env services) = filter Q (trust_reports env services)"
    if "\<And>s. carries env ''StatusActive'' s \<Longrightarrow> P s = Q s" for P Q
    using that by (intro filter_cong) (auto simp: trust_reports_def)
  have f1: "filter ?ok (trust_reports env services)
      = filter (\<lambda>s. \<not> throws env (inactive_call s)) (trust_reports env services)"
    by (intro f ok)
  have f2: "filter (\<lambda>s. \<not> ?ok s) (trust_reports env services)
      = filter (\<lambda>s. throws env (inactive_call s)) (trust_reports env services)"
    by (intro f) (use ok in blast)
  show ?thesis
    unfolding markRestoredServicesStale_def
      overServicesCarrying_blind [where ok = ?ok, OF blind_stale] os length_failed filter_carried
      trust_reports_def [symmetric]
    by (simp only: f1 f2)
qed


lemma vouches_other:
  "PassDid (UpdateCharacteristic s StatusActive (VBool True)) \<notin> set os \<Longrightarrow>
    \<not> vouches s False os"
proof (induction os)
  case Nil
  then show ?case by simp
next
  case (Cons p os)
  then have IH: "\<not> vouches s False os" by simp
  show ?case
  proof (cases p)
    case (PassDid c)
    then show ?thesis using IH Cons.prems by (cases c) auto
  next
    case (BoundRefusal t name)
    then show ?thesis using IH by simp
  qed
qed

lemma vouches_withdrawn:
  assumes "set os \<subseteq> {PassDid (inactive_call t) | t. True} \<union> {PassDid (unreadable_call status t) | t. True}"
    and "PassDid (inactive_call s) \<in> set os \<or> PassDid (unreadable_call status s) \<in> set os"
  shows "\<not> vouches s held os"
  using assms
proof (induction os arbitrary: held)
  case Nil
  then show ?case by simp
next
  case (Cons p os)
  show ?case
  proof (cases "p = PassDid (inactive_call s) \<or> p = PassDid (unreadable_call status s)")
    case True
    have "\<not> vouches s False os"
      using Cons.prems(1)
      by (intro vouches_other) (auto simp: inactive_call_def unreadable_call_def)
    then show ?thesis
      using True by (auto simp: inactive_call_def unreadable_call_def)
  next
    case False
    then have "\<not> vouches s h os" for h using Cons by auto
    then show ?thesis
      using Cons.prems(1) by (auto simp: inactive_call_def unreadable_call_def)
  qed
qed

text \<open>
  The restart pass leaves no service vouching for its cached readings: after it, a service that
  carries a trust report reads as inactive or as unreadable, whatever it read before, unless HAP
  refused both the ordinary push and the failure push for that service.
\<close>

theorem restart_pass_leaves_nothing_vouching:
  assumes "s \<in> set services" and "carries env ''StatusActive'' s"
    and "\<not> (throws env (inactive_call s) \<and> throws env (unreadable_call status s))"
  shows "\<not> vouches s held (fst (markRestoredServicesStale env status services))"
proof (rule vouches_withdrawn)
  let ?os = "fst (markRestoredServicesStale env status services)"
  show "set ?os \<subseteq> {PassDid (inactive_call t) | t. True} \<union> {PassDid (unreadable_call status t) | t. True}"
    by (auto simp: stale_pass_form stale_pushes_def split: if_splits)
  have "set (stale_pushes env status s) \<subseteq> set ?os"
    using assms(1,2) by (auto simp: stale_pass_form trust_reports_def)
  then show "PassDid (inactive_call s) \<in> set ?os \<or> PassDid (unreadable_call status s) \<in> set ?os"
    using assms(3) by (auto simp: stale_pushes_def split: if_splits)
qed

definition demo_pass :: passAnswers where
  "demo_pass =
    \<lparr>pa_hap = \<lparr>ha_tested = (\<lambda>s c. fst s = LeakSensor), ha_declared = (\<lambda>s c. True),
       ha_configuredName = (\<lambda>s. None), ha_information = True,
       ha_throws = (\<lambda>c. if c = inactive_call (LeakSensor, ''flood'') then Some (TypeError ''push'') else None),
       ha_persist = None\<rparr>,
     pa_testThrows = (\<lambda>s. None), pa_onSetThrows = (\<lambda>s. None)\<rparr>"

theorem restart_pass_leaves_nothing_vouching_witness:
  "\<not> vouches (LeakSensor, ''flood'') True
      (fst (markRestoredServicesStale demo_pass (- 70402) [(Switch, ''x''), (LeakSensor, ''flood'')]))"
  by (rule restart_pass_leaves_nothing_vouching)
    (simp_all add: demo_pass_def carries_def throws_def unreadable_call_def inactive_call_def)

text \<open>
  Every pass touches exactly the services that carry its guard and counts each of them once: a
  service whose push returned is reached, one whose guard or push threw is failed, and a failed
  service never keeps a later one from being prepared. The credential pass makes one failure push per
  trust report; the control pass arms one refusal per control and touches no sensor.
\<close>

theorem passes_are_exact:
  "markTrustReportsUnreadable env status services =
      (concat (map (unreadable_pushes env status) (trust_reports env services)),
       \<lparr>reached = length (filter (\<lambda>s. \<not> throws env (unreadable_call status s)) (trust_reports env services)),
        failed = length (unasked env services)
          + length (filter (\<lambda>s. throws env (unreadable_call status s)) (trust_reports env services))\<rparr>)
    \<and> refuseRestoredControls env name services =
      (map (\<lambda>s. BoundRefusal s name)
         (filter (\<lambda>s. carries env ''On'' s \<and> pa_onSetThrows env s = None) services),
       \<lparr>reached = length (filter (\<lambda>s. carries env ''On'' s \<and> pa_onSetThrows env s = None) services),
        failed = length (unasked env services)
          + length (filter (\<lambda>s. carries env ''On'' s \<and> pa_onSetThrows env s \<noteq> None) services)\<rparr>)"
proof
  let ?ok = "\<lambda>s. \<forall>c \<in> set (declares env s @ [unreadable_call status s]). \<not> throws env c"
  have ok: "?ok s = (\<not> throws env (unreadable_call status s))" if "carries env ''StatusActive'' s" for s
    by (simp add: declares_carried [OF that])
  have f: "filter P (trust_reports env services) = filter Q (trust_reports env services)"
    if "\<And>s. carries env ''StatusActive'' s \<Longrightarrow> P s = Q s" for P Q
    using that by (intro filter_cong) (auto simp: trust_reports_def)
  have os: "concat (map (\<lambda>s. if carries env ''StatusActive'' s
        then map PassDid (takeWhile (\<lambda>c. \<not> throws env c) (declares env s @ [unreadable_call status s]))
        else []) services)
      = concat (map (unreadable_pushes env status) (trust_reports env services))"
    unfolding trust_reports_def
    by (rule concat_over_filter) (simp add: unreadable_pushes_def declares_carried)
  have f1: "filter ?ok (trust_reports env services)
      = filter (\<lambda>s. \<not> throws env (unreadable_call status s)) (trust_reports env services)"
    by (intro f ok)
  have f2: "filter (\<lambda>s. \<not> ?ok s) (trust_reports env services)
      = filter (\<lambda>s. throws env (unreadable_call status s)) (trust_reports env services)"
    by (intro f) (use ok in blast)
  show "markTrustReportsUnreadable env status services = (concat (map (unreadable_pushes env status) (trust_reports env services)),
       \<lparr>reached = length (filter (\<lambda>s. \<not> throws env (unreadable_call status s)) (trust_reports env services)),
        failed = length (unasked env services)
          + length (filter (\<lambda>s. throws env (unreadable_call status s)) (trust_reports env services))\<rparr>)"
    unfolding markTrustReportsUnreadable_def
      overServicesCarrying_blind [where ok = ?ok, OF blind_push_unreadable] os length_failed filter_carried
      trust_reports_def [symmetric]
    by (simp only: f1 f2)
next
  let ?act = "\<lambda>s. case pa_onSetThrows env s of Some e \<Rightarrow> act_throw e
      | None \<Rightarrow> act_emit [BoundRefusal s name]"
  let ?os = "\<lambda>s. if pa_onSetThrows env s = None then [BoundRefusal s name] else []"
  have b: "blind (?act s) (?os s) (pa_onSetThrows env s = None)" for s
    by (auto simp: blind_def act_defs split: option.splits)
  have os: "concat (map (\<lambda>s. if carries env ''On'' s then ?os s else []) services)
      = map (\<lambda>s. BoundRefusal s name)
          (filter (\<lambda>s. carries env ''On'' s \<and> pa_onSetThrows env s = None) services)"
    by (induction services) auto
  show "refuseRestoredControls env name services = (map (\<lambda>s. BoundRefusal s name)
         (filter (\<lambda>s. carries env ''On'' s \<and> pa_onSetThrows env s = None) services),
       \<lparr>reached = length (filter (\<lambda>s. carries env ''On'' s \<and> pa_onSetThrows env s = None) services),
        failed = length (unasked env services)
          + length (filter (\<lambda>s. carries env ''On'' s \<and> pa_onSetThrows env s \<noteq> None) services)\<rparr>)"
    unfolding refuseRestoredControls_def
      overServicesCarrying_blind [where act = ?act and os = ?os
        and ok = "\<lambda>s. pa_onSetThrows env s = None", OF b] os length_failed
    by simp
qed

end
