(* ===== verification/Config.thy ===== *)
theory Config
  imports Regex ServiceCatalogue CloudErrors
begin

text \<open>
  The account settings, \<open>src/src/config.ts\<close>: the refusals in their order, and the settings an accepted block stands
  for. The block is the JSON object of the configuration file; a field that is missing is \<open>undefined\<close>, and
  \<open>null\<close> is a supplied value. The two address patterns are the expressions of the source, run by the matcher. The bundled
  client identifier is an argument.
\<close>

section \<open>Address patterns\<close>

definition local_char :: "char \<Rightarrow> bool" where
  "local_char c = (is_letter (ascii_lower c) \<or> is_digit c \<or> c \<in> set ''!#$%&*+/?=^_`{|}~-'' \<or> c = CHR 0x27)"

definition alnum :: "char \<Rightarrow> bool" where
  "alnum c = (is_letter (ascii_lower c) \<or> is_digit c)"

definition label_char :: "char \<Rightarrow> bool" where
  "label_char c = (alnum c \<or> c = CHR ''-'')"

definition EMAIL_LOCAL_PART_PATTERN :: rx where
  "EMAIL_LOCAL_PART_PATTERN = Seq (Plus (Cls local_char)) (Star (Seq (Lit CHR ''.'') (Plus (Cls local_char))))"

definition domain_label :: rx where
  "domain_label = Seq (Cls alnum) (Opt (Seq (Star (Cls label_char)) (Cls alnum)))"

definition EMAIL_DOMAIN_PATTERN :: rx where
  "EMAIL_DOMAIN_PATTERN = Seq domain_label (Plus (Seq (Lit CHR ''.'') domain_label))"

definition isEmailAddress :: "string \<Rightarrow> bool" where
  "isEmailAddress email = (case index_of email ''@'' 0 of
      None \<Rightarrow> False
    | Some i \<Rightarrow> 0 < i \<and> rx_test EMAIL_LOCAL_PART_PATTERN (take i email) \<and> rx_test EMAIL_DOMAIN_PATTERN (drop (i + 1) email))"

section \<open>Fields\<close>

definition DEFAULT_NAME :: string where
  "DEFAULT_NAME = ''Basement Guardian''"

record integerBounds =
  ib_field :: string
  ib_unit :: string
  ib_minimum :: int
  ib_maximum :: int
  ib_documentedDefault :: int

definition POLL_INTERVAL_BOUNDS :: integerBounds where
  "POLL_INTERVAL_BOUNDS = \<lparr>ib_field = ''pollInterval'', ib_unit = ''seconds'', ib_minimum = 300, ib_maximum = 3600,
     ib_documentedDefault = 900\<rparr>"

definition POLL_COUNT_BOUNDS :: integerBounds where
  "POLL_COUNT_BOUNDS = \<lparr>ib_field = ''offlineConfirmationPollCount'', ib_unit = ''polls'', ib_minimum = 1, ib_maximum = 8,
     ib_documentedDefault = 2\<rparr>"

record bgConfig =
  bg_name :: string
  bg_email :: string
  bg_password :: string
  bg_clientId :: string
  bg_pollIntervalSeconds :: jsnum
  bg_offlineConfirmationPollCount :: jsnum
  bg_ignoredFaults :: "ServiceKind list"

definition isConfiguredText :: "json option \<Rightarrow> bool" where
  "isConfiguredText v = (case v of Some (JStr s) \<Rightarrow> js_trim s \<noteq> [] | _ \<Rightarrow> False)"

definition integerRefusal :: "json option \<Rightarrow> integerBounds \<Rightarrow> string option" where
  "integerRefusal v bounds =
    (let invalid = Some (ib_field bounds @ '' must be a whole number of '' @ ib_unit bounds @ '' from ''
           @ string_of_int (ib_minimum bounds) @ '' to '' @ string_of_int (ib_maximum bounds)
           @ '', but the supplied value is invalid.'')
     in case v of
          None \<Rightarrow> None
        | Some (JNum n) \<Rightarrow>
            if \<not> num_isInteger n \<or> num_lt n (Fin (of_int (ib_minimum bounds))) \<or> num_lt (Fin (of_int (ib_maximum bounds))) n
            then invalid else None
        | Some _ \<Rightarrow> invalid)"

definition resolveInteger :: "json option \<Rightarrow> integerBounds \<Rightarrow> jsnum" where
  "resolveInteger v bounds = (case v of Some (JNum n) \<Rightarrow> n | _ \<Rightarrow> Fin (of_int (ib_documentedDefault bounds)))"

definition FAULTS_NOT_A_LIST :: string where
  "FAULTS_NOT_A_LIST = ''ignoredFaults must be a list of notification sensor names, but the supplied value is invalid.''"

definition FAULTS_UNKNOWN :: string where
  "FAULTS_UNKNOWN = ''ignoredFaults must name only '' @ join_with '', '' (map slug NOTIFICATION_SERVICE_KINDS)
     @ '', but it contains an invalid entry.''"

definition FAULTS_REPEATED :: string where
  "FAULTS_REPEATED = ''ignoredFaults must be a unique list, but it names one sensor more than once.''"

text \<open>The loop over the entries, with the names met so far.\<close>

fun faults_loop :: "string list \<Rightarrow> json list \<Rightarrow> string option" where
  "faults_loop named [] = None"
| "faults_loop named (entry # rest) =
    (if \<not> isNotificationServiceKind (Some entry) then Some FAULTS_UNKNOWN
     else case entry of
       JStr name \<Rightarrow> if name \<in> set named then Some FAULTS_REPEATED else faults_loop (name # named) rest
     | _ \<Rightarrow> Some FAULTS_UNKNOWN)"

definition ignoredFaultsRefusal :: "json option \<Rightarrow> string option" where
  "ignoredFaultsRefusal v = (case v of
      None \<Rightarrow> None
    | Some (JArr entries) \<Rightarrow> faults_loop [] entries
    | Some _ \<Rightarrow> Some FAULTS_NOT_A_LIST)"

text \<open>The kind an entry of the list names.\<close>

definition kind_named :: "json \<Rightarrow> ServiceKind option" where
  "kind_named entry = (case entry of JStr s \<Rightarrow> List.find (\<lambda>k. slug k = s) NOTIFICATION_SERVICE_KINDS | _ \<Rightarrow> None)"

definition resolveIgnoredFaults :: "json option \<Rightarrow> ServiceKind list" where
  "resolveIgnoredFaults v = (case v of Some (JArr entries) \<Rightarrow> List.map_filter kind_named entries | _ \<Rightarrow> [])"

section \<open>The verdict\<close>

definition first_of :: "string option list \<Rightarrow> string option" where
  "first_of reasons = (case filter (\<lambda>r. r \<noteq> None) reasons of [] \<Rightarrow> None | r # _ \<Rightarrow> r)"

definition field_of :: "jobj \<Rightarrow> string \<Rightarrow> json option" where
  "field_of raw k = prop_of (Some (JObj raw)) k"

definition string_field :: "jobj \<Rightarrow> string \<Rightarrow> string" where
  "string_field raw k = (case field_of raw k of Some (JStr s) \<Rightarrow> s | _ \<Rightarrow> [])"

definition firstRefusal :: "jobj \<Rightarrow> string option" where
  "firstRefusal raw =
    (if field_of raw ''name'' \<noteq> None \<and> \<not> isConfiguredText (field_of raw ''name'')
     then Some ''the platform name must not be empty when it is set.''
     else if \<not> isConfiguredText (field_of raw ''email'') then Some ''the account email is missing.''
     else if \<not> isEmailAddress (string_field raw ''email'') then Some ''the account email must be an email address.''
     else if \<not> isConfiguredText (field_of raw ''password'') then Some ''the account password is missing.''
     else if field_of raw ''clientId'' \<noteq> None \<and> \<not> isConfiguredText (field_of raw ''clientId'')
     then Some ''clientId must not be empty when it is set.''
     else first_of [integerRefusal (field_of raw ''pollInterval'') POLL_INTERVAL_BOUNDS,
            integerRefusal (field_of raw ''offlineConfirmationPollCount'') POLL_COUNT_BOUNDS,
            ignoredFaultsRefusal (field_of raw ''ignoredFaults'')])"

definition validateConfig :: "string \<Rightarrow> jobj \<Rightarrow> string + bgConfig" where
  "validateConfig bundledClientId raw = (case firstRefusal raw of
      Some reason \<Rightarrow> Inl reason
    | None \<Rightarrow> Inr
        \<lparr>bg_name = (if isConfiguredText (field_of raw ''name'') then string_field raw ''name'' else DEFAULT_NAME),
         bg_email = string_field raw ''email'', bg_password = string_field raw ''password'',
         bg_clientId = (if isConfiguredText (field_of raw ''clientId'') then string_field raw ''clientId''
           else bundledClientId),
         bg_pollIntervalSeconds = resolveInteger (field_of raw ''pollInterval'') POLL_INTERVAL_BOUNDS,
         bg_offlineConfirmationPollCount = resolveInteger (field_of raw ''offlineConfirmationPollCount'') POLL_COUNT_BOUNDS,
         bg_ignoredFaults = resolveIgnoredFaults (field_of raw ''ignoredFaults'')\<rparr>)"

section \<open>What an address is\<close>

definition dot_atom :: "string \<Rightarrow> bool" where
  "dot_atom w = (w \<noteq> [] \<and> list_all local_char w)"

definition dns_label :: "string \<Rightarrow> bool" where
  "dns_label w = (w \<noteq> [] \<and> list_all label_char w \<and> hd w \<noteq> CHR ''-'' \<and> last w \<noteq> CHR ''-'')"

definition email_form :: "string \<Rightarrow> bool" where
  "email_form email = (case split_on CHR ''@'' email of
      [local_part, domain] \<Rightarrow> list_all dot_atom (split_on CHR ''.'' local_part)
        \<and> 2 \<le> length (split_on CHR ''.'' domain) \<and> list_all dns_label (split_on CHR ''.'' domain)
    | _ \<Rightarrow> False)"

lemma not_address_marks: "\<not> local_char CHR ''.''" "\<not> label_char CHR ''.''" "\<not> local_char CHR ''@''" "\<not> label_char CHR ''@''"
  "\<not> alnum CHR ''-''"
  by code_simp+

lemma local_pattern: "in_lang EMAIL_LOCAL_PART_PATTERN w \<longleftrightarrow> list_all dot_atom (split_on CHR ''.'' w)"
proof -
  have "in_lang (Plus (Cls local_char)) = dot_atom" by (auto simp: plus_cls dot_atom_def fun_eq_iff)
  moreover have "in_lang (Plus (Cls local_char)) v \<Longrightarrow> CHR ''.'' \<notin> set v" for v
    using not_address_marks by (auto simp: plus_cls list_all_iff)
  ultimately show ?thesis unfolding EMAIL_LOCAL_PART_PATTERN_def by (subst separated) auto
qed

lemma seq_edges:
  "in_lang (Seq (Cls p) r) (c # v) \<longleftrightarrow> p c \<and> in_lang r v"
  "in_lang (Seq r (Cls p)) (v @ [c]) \<longleftrightarrow> p c \<and> in_lang r v"
  by (auto, metis append_Cons append_Nil)

lemma label_pattern: "in_lang domain_label w \<longleftrightarrow> dns_label w"
proof (cases w)
  case (Cons c v)
  have edge: "alnum c \<longleftrightarrow> label_char c \<and> c \<noteq> CHR ''-''" for c
    using not_address_marks by (auto simp: label_char_def)
  show ?thesis
  proof (cases v rule: rev_cases)
    case Nil
    with Cons edge [of c] show ?thesis by (auto simp: domain_label_def Opt_def dns_label_def)
  next
    case (snoc u d)
    with Cons edge [of c] edge [of d] show ?thesis
      by (auto simp: domain_label_def Opt_def dns_label_def star_cls seq_edges simp del: lang_simps(3))
  qed
qed (auto simp: domain_label_def dns_label_def)

lemma domain_pattern:
  "in_lang EMAIL_DOMAIN_PATTERN w \<longleftrightarrow> 2 \<le> length (split_on CHR ''.'' w) \<and> list_all dns_label (split_on CHR ''.'' w)"
proof -
  have "in_lang domain_label v \<Longrightarrow> CHR ''.'' \<notin> set v" for v
    using not_address_marks by (auto simp: label_pattern dns_label_def list_all_iff)
  moreover have "in_lang domain_label = dns_label" by (simp add: label_pattern fun_eq_iff)
  ultimately show ?thesis unfolding EMAIL_DOMAIN_PATTERN_def by (subst separated_plus) auto
qed

lemma index_split:
  "(case index_of s [c] 0 of None \<Rightarrow> split_on c s = [s] \<and> c \<notin> set s
    | Some i \<Rightarrow> c \<notin> set (take i s) \<and> s = take i s @ c # drop (i + 1) s)"
proof (cases "index_of s [c] 0")
  case None
  then have "\<not> occurs_at s [c] i" if "i < Suc (length s)" for i
    using that by (auto simp: index_of_def find_None_iff)
  then have "s ! i \<noteq> c" if "i < length s" for i
    using that by (auto simp: take_Suc_conv_app_nth hd_drop_conv_nth take_Suc)
  then have "c \<notin> set s" by (auto simp: in_set_conv_nth)
  with None show ?thesis by (simp add: split_on_word)
next
  case (Some i)
  then obtain j where j: "j < Suc (length s)" "[0..<Suc (length s)] ! j = i" "occurs_at s [c] i"
    and first: "\<And>k. k < j \<Longrightarrow> \<not> occurs_at s [c] ([0..<Suc (length s)] ! k)"
    unfolding index_of_def find_Some_iff by auto
  then have i: "i = j" "i < length s" "s ! i = c" by (auto simp: take_Suc hd_drop_conv_nth simp del: upt_Suc)
  have "s ! k \<noteq> c" if "k < i" for k
    using that first [of k] i by (auto simp: take_Suc hd_drop_conv_nth simp del: upt_Suc)
  then have "c \<notin> set (take i s)" by (auto simp: in_set_conv_nth)
  with Some i show ?thesis using id_take_nth_drop [OF i(2)] by simp
qed

lemma email_form_checked: "isEmailAddress email \<longleftrightarrow> email_form email"
proof (cases "index_of email ''@'' 0")
  case None
  then have "split_on CHR ''@'' email = [email]" using index_split [of "CHR ''@''" email] by simp
  with None show ?thesis by (simp add: isEmailAddress_def email_form_def)
next
  case (Some i)
  then have parts: "CHR ''@'' \<notin> set (take i email)" "email = take i email @ CHR ''@'' # drop (i + 1) email"
    using index_split [of "CHR ''@''" email] by simp_all
  define l where "l = take i email"
  define d where "d = drop (i + 1) email"
  have split: "split_on CHR ''@'' email = l # split_on CHR ''@'' d"
    using parts unfolding l_def [symmetric] d_def [symmetric] by (metis split_on_append)
  have "0 < i \<longleftrightarrow> l \<noteq> []" using parts by (auto simp: l_def)
  then have code: "isEmailAddress email \<longleftrightarrow> l \<noteq> [] \<and> list_all dot_atom (split_on CHR ''.'' l)
      \<and> 2 \<le> length (split_on CHR ''.'' d) \<and> list_all dns_label (split_on CHR ''.'' d)"
    using Some by (simp add: isEmailAddress_def test_iff_lang local_pattern domain_pattern l_def d_def)
  have clean: "CHR ''@'' \<notin> set d" if "list_all dns_label (split_on CHR ''.'' d)"
  proof -
    have "CHR ''@'' \<notin> set w" if "w \<in> set (split_on CHR ''.'' d)" for w
      using that \<open>list_all dns_label (split_on CHR ''.'' d)\<close> not_address_marks(4)
      by (auto simp: list_all_iff dns_label_def)
    then show ?thesis using split_on_covers [of _ d "CHR ''.''"] by auto
  qed
  have empty: "\<not> list_all dot_atom (split_on CHR ''.'' [])" by (simp add: dot_atom_def)
  show ?thesis
  proof (cases "CHR ''@'' \<in> set d")
    case True
    then have "split_on CHR ''@'' d \<noteq> [x]" for x
      using join_split [of "CHR ''@''" d] split_on_pieces [of x "CHR ''@''" d] by auto
    then have "\<not> email_form email" unfolding email_form_def split by (simp split: list.split)
    with code clean True show ?thesis by blast
  next
    case False
    then show ?thesis using code empty unfolding email_form_def split by (auto simp: split_on_word)
  qed
qed

text \<open>
  C36. The address check accepts exactly the addresses of the documented form: one at sign, before it atoms of the allowed
  characters with single full stops between them, after it at least two labels of letters, digits and hyphens,
  none of them empty or with a hyphen at an edge. The backtracking search of the patterns finds a match on no
  other text and misses none.
\<close>

theorem email_check_exact: "isEmailAddress email \<longleftrightarrow> email_form email"
  by (rule email_form_checked)

section \<open>Accepted settings\<close>

lemma first_of_none: "first_of reasons = None \<longleftrightarrow> list_all (\<lambda>r. r = None) reasons"
  by (induction reasons) (auto simp: first_of_def split: list.splits if_splits)

lemma not_refused:
  "firstRefusal raw = None \<longleftrightarrow>
    (field_of raw ''name'' = None \<or> isConfiguredText (field_of raw ''name'')) \<and> isConfiguredText (field_of raw ''email'')
    \<and> isEmailAddress (string_field raw ''email'') \<and> isConfiguredText (field_of raw ''password'')
    \<and> (field_of raw ''clientId'' = None \<or> isConfiguredText (field_of raw ''clientId''))
    \<and> integerRefusal (field_of raw ''pollInterval'') POLL_INTERVAL_BOUNDS = None
    \<and> integerRefusal (field_of raw ''offlineConfirmationPollCount'') POLL_COUNT_BOUNDS = None
    \<and> ignoredFaultsRefusal (field_of raw ''ignoredFaults'') = None"
  by (auto simp: firstRefusal_def first_of_none)

lemma configured_text: "isConfiguredText v \<longleftrightarrow> (\<exists>s. v = Some (JStr s) \<and> \<not> list_all is_space s)"
  by (auto simp: isConfiguredText_def js_trim_empty split: option.splits json.splits)

lemma integer_accepted:
  assumes "integerRefusal v bounds = None"
  shows "case v of None \<Rightarrow> True
    | Some x \<Rightarrow> \<exists>n. x = JNum n \<and> (\<exists>r. finite_of n = Some (of_int r) \<and> ib_minimum bounds \<le> r \<and> r \<le> ib_maximum bounds)"
proof (cases v)
  case (Some x)
  with assms obtain n where n: "x = JNum n" "num_isInteger n"
    "\<not> num_lt n (Fin (of_int (ib_minimum bounds)))" "\<not> num_lt (Fin (of_int (ib_maximum bounds))) n"
    by (cases x) (auto simp: integerRefusal_def Let_def split: if_splits)
  then obtain q where q: "finite_of n = Some q" "of_int \<lfloor>q\<rfloor> = q"
    by (auto simp: num_isInteger_def split: option.splits)
  then have "ib_minimum bounds \<le> \<lfloor>q\<rfloor>" "\<lfloor>q\<rfloor> \<le> ib_maximum bounds"
    using n(3,4) by (simp_all add: le_floor_iff floor_le_iff)
  with Some n(1) q show ?thesis by auto
qed simp

lemma positive_integer: "finite_of n = Some (of_int r) \<Longrightarrow> 0 < r \<Longrightarrow> n = Fin (of_int r)"
  by (cases n) auto

lemma kind_of_entry: "isNotificationServiceKind (Some entry) \<Longrightarrow>
    \<exists>k \<in> set NOTIFICATION_SERVICE_KINDS. entry = JStr (slug k) \<and> kind_named entry = Some k"
proof -
  assume "isNotificationServiceKind (Some entry)"
  then obtain k where k: "k \<in> set NOTIFICATION_SERVICE_KINDS" "entry = JStr (slug k)"
    by (auto simp: isNotificationServiceKind_def split: json.splits)
  have "List.find (\<lambda>k'. k' = k) xs = (if k \<in> set xs then Some k else None)" for xs by (induction xs) auto
  with k show ?thesis by (auto simp: kind_named_def slug_inject)
qed

lemma faults_accepted:
  "faults_loop named entries = None \<Longrightarrow>
    entries = map (JStr \<circ> slug) (List.map_filter kind_named entries)
    \<and> distinct (List.map_filter kind_named entries)
    \<and> set (List.map_filter kind_named entries) \<subseteq> set NOTIFICATION_SERVICE_KINDS
    \<and> set named \<inter> slug ` set (List.map_filter kind_named entries) = {}"
proof (induction named entries rule: faults_loop.induct)
  case (2 named entry rest)
  then have "isNotificationServiceKind (Some entry)" by (auto split: if_splits)
  then obtain k where k: "k \<in> set NOTIFICATION_SERVICE_KINDS" "entry = JStr (slug k)" "kind_named entry = Some k"
    using kind_of_entry by blast
  with 2(2) have "slug k \<notin> set named" "faults_loop (slug k # named) rest = None"
    using \<open>isNotificationServiceKind (Some entry)\<close> by (auto split: if_splits)
  with 2(1) [of "slug k"] k show ?case
    using \<open>isNotificationServiceKind (Some entry)\<close> by (auto simp: map_filter_simps)
qed (simp add: map_filter_simps)

lemma accepted_settings:
  assumes "validateConfig bundled raw = Inr config"
  shows "firstRefusal raw = None"
    and "config = \<lparr>bg_name = (if isConfiguredText (field_of raw ''name'') then string_field raw ''name'' else DEFAULT_NAME),
         bg_email = string_field raw ''email'', bg_password = string_field raw ''password'',
         bg_clientId = (if isConfiguredText (field_of raw ''clientId'') then string_field raw ''clientId'' else bundled),
         bg_pollIntervalSeconds = resolveInteger (field_of raw ''pollInterval'') POLL_INTERVAL_BOUNDS,
         bg_offlineConfirmationPollCount = resolveInteger (field_of raw ''offlineConfirmationPollCount'') POLL_COUNT_BOUNDS,
         bg_ignoredFaults = resolveIgnoredFaults (field_of raw ''ignoredFaults'')\<rparr>"
  using assms unfolding validateConfig_def
  by (cases "firstRefusal raw"; simp only: option.case sum.inject sum.distinct)+

lemma accepted_fields:
  assumes "validateConfig bundled raw = Inr config"
  shows "bg_name config = (if isConfiguredText (field_of raw ''name'') then string_field raw ''name'' else DEFAULT_NAME)"
    "bg_email config = string_field raw ''email''" "bg_password config = string_field raw ''password''"
    "bg_clientId config = (if isConfiguredText (field_of raw ''clientId'') then string_field raw ''clientId'' else bundled)"
    "bg_pollIntervalSeconds config = resolveInteger (field_of raw ''pollInterval'') POLL_INTERVAL_BOUNDS"
    "bg_offlineConfirmationPollCount config = resolveInteger (field_of raw ''offlineConfirmationPollCount'') POLL_COUNT_BOUNDS"
    "bg_ignoredFaults config = resolveIgnoredFaults (field_of raw ''ignoredFaults'')"
  by (simp_all only: accepted_settings(2) [OF assms] bgConfig.select_convs)

lemma accepted_parts:
  assumes "validateConfig bundled raw = Inr config"
  shows "field_of raw ''name'' = None \<or> isConfiguredText (field_of raw ''name'')" "isConfiguredText (field_of raw ''email'')"
    "isEmailAddress (string_field raw ''email'')" "isConfiguredText (field_of raw ''password'')"
    "field_of raw ''clientId'' = None \<or> isConfiguredText (field_of raw ''clientId'')"
    "integerRefusal (field_of raw ''pollInterval'') POLL_INTERVAL_BOUNDS = None"
    "integerRefusal (field_of raw ''offlineConfirmationPollCount'') POLL_COUNT_BOUNDS = None"
    "ignoredFaultsRefusal (field_of raw ''ignoredFaults'') = None"
  using accepted_settings(1) [OF assms] unfolding not_refused by simp_all

lemma text_supplied: "isConfiguredText (field_of raw k) \<Longrightarrow>
    field_of raw k = Some (JStr (string_field raw k)) \<and> \<not> list_all is_space (string_field raw k)"
  by (auto simp: configured_text string_field_def)

lemma integer_resolved:
  assumes "integerRefusal v bounds = None" and "0 < ib_minimum bounds"
    and "ib_minimum bounds \<le> ib_documentedDefault bounds" and "ib_documentedDefault bounds \<le> ib_maximum bounds"
  shows "(case v of None \<Rightarrow> resolveInteger v bounds = Fin (of_int (ib_documentedDefault bounds))
      | Some x \<Rightarrow> x = JNum (resolveInteger v bounds))
    \<and> (\<exists>n. resolveInteger v bounds = Fin (of_int n) \<and> ib_minimum bounds \<le> n \<and> n \<le> ib_maximum bounds)"
proof (cases v)
  case (Some x)
  with integer_accepted [OF assms(1)] obtain n r where "x = JNum n" "finite_of n = Some (of_int r)"
    "ib_minimum bounds \<le> r" "r \<le> ib_maximum bounds" by auto
  moreover from this have "n = Fin (of_int r)" using positive_integer assms(2) by force
  ultimately show ?thesis using Some by (auto simp: resolveInteger_def)
qed (use assms in \<open>auto simp: resolveInteger_def\<close>)

lemma faults_resolved:
  assumes "ignoredFaultsRefusal v = None"
  shows "(case v of None \<Rightarrow> resolveIgnoredFaults v = [] | Some x \<Rightarrow> x = JArr (map (JStr \<circ> slug) (resolveIgnoredFaults v)))
    \<and> distinct (resolveIgnoredFaults v) \<and> set (resolveIgnoredFaults v) \<subseteq> set NOTIFICATION_SERVICE_KINDS"
proof (cases v)
  case (Some x)
  with assms obtain entries where "x = JArr entries" "faults_loop [] entries = None"
    by (auto simp: ignoredFaultsRefusal_def split: json.splits)
  with faults_accepted [of "[]" entries] Some show ?thesis by (simp add: resolveIgnoredFaults_def)
qed (simp add: resolveIgnoredFaults_def)

lemma bounds_values:
  "ib_minimum POLL_INTERVAL_BOUNDS = 300" "ib_maximum POLL_INTERVAL_BOUNDS = 3600"
  "ib_documentedDefault POLL_INTERVAL_BOUNDS = 900"
  "ib_minimum POLL_COUNT_BOUNDS = 1" "ib_maximum POLL_COUNT_BOUNDS = 8"
  "ib_documentedDefault POLL_COUNT_BOUNDS = 2"
  by (simp_all add: POLL_INTERVAL_BOUNDS_def POLL_COUNT_BOUNDS_def)

lemma poll_interval_bounds:
  "integerRefusal v POLL_INTERVAL_BOUNDS = None \<Longrightarrow>
     (case v of None \<Rightarrow> resolveInteger v POLL_INTERVAL_BOUNDS = Fin 900 | Some x \<Rightarrow> x = JNum (resolveInteger v POLL_INTERVAL_BOUNDS))
     \<and> (\<exists>n. resolveInteger v POLL_INTERVAL_BOUNDS = Fin (of_int n) \<and> 300 \<le> n \<and> n \<le> 3600)"
  by (rule integer_resolved [where bounds = POLL_INTERVAL_BOUNDS, unfolded bounds_values of_int_numeral]) simp_all

lemma poll_count_bounds:
  "integerRefusal v POLL_COUNT_BOUNDS = None \<Longrightarrow>
     (case v of None \<Rightarrow> resolveInteger v POLL_COUNT_BOUNDS = Fin 2 | Some x \<Rightarrow> x = JNum (resolveInteger v POLL_COUNT_BOUNDS))
     \<and> (\<exists>n. resolveInteger v POLL_COUNT_BOUNDS = Fin (of_int n) \<and> 1 \<le> n \<and> n \<le> 8)"
  by (rule integer_resolved [where bounds = POLL_COUNT_BOUNDS, unfolded bounds_values of_int_numeral]) simp_all

text \<open>
  The runtime only ever starts from settings within their bounds. In every accepted block the email has the
  documented form, the password and the name are not blank, the poll interval is a whole number from 300 to 3600 and the
  confirmation count one from 1 to 8, and the ignored sensors are distinct kinds of the removable set.
\<close>

theorem accepted_settings_are_valid:
  assumes "validateConfig bundled raw = Inr config"
  shows "email_form (bg_email config) \<and> \<not> list_all is_space (bg_password config) \<and> \<not> list_all is_space (bg_name config)
   \<and> (\<exists>n. bg_pollIntervalSeconds config = Fin (of_int n) \<and> 300 \<le> n \<and> n \<le> 3600)
   \<and> (\<exists>n. bg_offlineConfirmationPollCount config = Fin (of_int n) \<and> 1 \<le> n \<and> n \<le> 8)
   \<and> distinct (bg_ignoredFaults config) \<and> set (bg_ignoredFaults config) \<subseteq> set NOTIFICATION_SERVICE_KINDS"
proof -
  note parts = accepted_parts [OF assms]
  have name: "\<not> list_all is_space DEFAULT_NAME" by code_simp
  have "email_form (bg_email config)" "\<not> list_all is_space (bg_password config)" "\<not> list_all is_space (bg_name config)"
    using parts(3) text_supplied [OF parts(4)] text_supplied [of raw "''name''"] name
    by (simp_all add: accepted_fields [OF assms] email_form_checked)
  then show ?thesis
    using poll_interval_bounds [OF parts(6)] poll_count_bounds [OF parts(7)] faults_resolved [OF parts(8)]
    unfolding accepted_fields(5-7) [OF assms] by simp
qed

text \<open>
  A supplied value is never replaced, and only a missing one takes the documented default: every setting of an accepted
  block is the value of its field, the name, the client identifier, the interval of 900 seconds, the count of 2 and the empty
  list of ignored sensors standing in for fields that are not there.
\<close>

theorem supplied_settings_are_kept:
  assumes "validateConfig bundled raw = Inr config"
  shows "field_of raw ''email'' = Some (JStr (bg_email config)) \<and> field_of raw ''password'' = Some (JStr (bg_password config))
   \<and> (case field_of raw ''name'' of None \<Rightarrow> bg_name config = ''Basement Guardian'' | Some v \<Rightarrow> v = JStr (bg_name config))
   \<and> (case field_of raw ''clientId'' of None \<Rightarrow> bg_clientId config = bundled | Some v \<Rightarrow> v = JStr (bg_clientId config))
   \<and> (case field_of raw ''pollInterval'' of None \<Rightarrow> bg_pollIntervalSeconds config = Fin 900
      | Some v \<Rightarrow> v = JNum (bg_pollIntervalSeconds config))
   \<and> (case field_of raw ''offlineConfirmationPollCount'' of None \<Rightarrow> bg_offlineConfirmationPollCount config = Fin 2
      | Some v \<Rightarrow> v = JNum (bg_offlineConfirmationPollCount config))
   \<and> (case field_of raw ''ignoredFaults'' of None \<Rightarrow> bg_ignoredFaults config = []
      | Some v \<Rightarrow> v = JArr (map (JStr \<circ> slug) (bg_ignoredFaults config)))"
proof -
  note parts = accepted_parts [OF assms]
  have plain: "case field_of raw k of None \<Rightarrow> (if isConfiguredText (field_of raw k) then string_field raw k else d) = d
      | Some v \<Rightarrow> v = JStr (if isConfiguredText (field_of raw k) then string_field raw k else d)"
    if "field_of raw k = None \<or> isConfiguredText (field_of raw k)" for k d
    using that text_supplied [of raw k] by (auto simp: configured_text)
  show ?thesis
    unfolding accepted_fields [OF assms] DEFAULT_NAME_def [symmetric]
    using text_supplied [OF parts(2)] text_supplied [OF parts(4)] plain [OF parts(1)] plain [OF parts(5)]
      poll_interval_bounds [OF parts(6)] poll_count_bounds [OF parts(7)] faults_resolved [OF parts(8)]
    by (simp only: simp_thms)
qed

definition CONFIG_REFUSALS :: "string list" where
  "CONFIG_REFUSALS =
    [''the platform name must not be empty when it is set.'', ''the account email is missing.'',
     ''the account email must be an email address.'', ''the account password is missing.'',
     ''clientId must not be empty when it is set.'',
     ''pollInterval must be a whole number of seconds from 300 to 3600, but the supplied value is invalid.'',
     ''offlineConfirmationPollCount must be a whole number of polls from 1 to 8, but the supplied value is invalid.'',
     FAULTS_NOT_A_LIST, FAULTS_UNKNOWN, FAULTS_REPEATED]"

lemma integer_messages:
  "Some r = integerRefusal v POLL_INTERVAL_BOUNDS \<longleftrightarrow> integerRefusal v POLL_INTERVAL_BOUNDS \<noteq> None \<and>
     r = ''pollInterval must be a whole number of seconds from 300 to 3600, but the supplied value is invalid.''"
  "Some r = integerRefusal v POLL_COUNT_BOUNDS \<longleftrightarrow> integerRefusal v POLL_COUNT_BOUNDS \<noteq> None \<and>
     r = ''offlineConfirmationPollCount must be a whole number of polls from 1 to 8, but the supplied value is invalid.''"
proof -
  have "string_of_int 300 = ''300''" "string_of_int 3600 = ''3600''" "string_of_int 1 = ''1''" "string_of_int 8 = ''8''"
    by code_simp+
  then show
    "Some r = integerRefusal v POLL_INTERVAL_BOUNDS \<longleftrightarrow> integerRefusal v POLL_INTERVAL_BOUNDS \<noteq> None \<and>
     r = ''pollInterval must be a whole number of seconds from 300 to 3600, but the supplied value is invalid.''"
    "Some r = integerRefusal v POLL_COUNT_BOUNDS \<longleftrightarrow> integerRefusal v POLL_COUNT_BOUNDS \<noteq> None \<and>
     r = ''offlineConfirmationPollCount must be a whole number of polls from 1 to 8, but the supplied value is invalid.''"
    by (auto simp: integerRefusal_def POLL_INTERVAL_BOUNDS_def POLL_COUNT_BOUNDS_def Let_def split: option.splits json.splits)
qed

lemma faults_messages: "Some r = ignoredFaultsRefusal v \<Longrightarrow> r \<in> {FAULTS_NOT_A_LIST, FAULTS_UNKNOWN, FAULTS_REPEATED}"
proof -
  have "faults_loop named entries = Some r \<Longrightarrow> r \<in> {FAULTS_UNKNOWN, FAULTS_REPEATED}" for named entries
    by (induction named entries rule: faults_loop.induct) (auto split: if_splits json.splits)
  then show "Some r = ignoredFaultsRefusal v \<Longrightarrow> r \<in> {FAULTS_NOT_A_LIST, FAULTS_UNKNOWN, FAULTS_REPEATED}"
    by (auto simp: ignoredFaultsRefusal_def split: option.splits json.splits)
qed

text \<open>
  No refusal quotes a supplied value. Whatever the block holds, the reason is one of ten fixed sentences, so a refusal
  logged before any secret is registered cannot carry the account's email or password.
\<close>

theorem refusal_quotes_nothing:
  "(case validateConfig bundled raw of Inl reason \<Rightarrow> reason \<in> set CONFIG_REFUSALS | Inr config \<Rightarrow> True)"
proof -
  have first: "first_of rs = Some r \<Longrightarrow> Some r \<in> set rs" for rs r
    by (induction rs) (auto simp: first_of_def split: if_splits list.splits)
  have "firstRefusal raw = Some r \<Longrightarrow> r \<in> set CONFIG_REFUSALS" for r
    by (auto simp: firstRefusal_def CONFIG_REFUSALS_def integer_messages dest!: first faults_messages split: if_splits)
  then show ?thesis by (auto simp: validateConfig_def split: option.splits)
qed

section \<open>Witnesses\<close>

definition sample_block :: jobj where
  "sample_block = [(''email'', JStr ''a.b@c-d.org''), (''password'', JStr ''pw''), (''pollInterval'', JNum (Fin 600)),
     (''ignoredFaults'', JArr [JStr ''mains-power-lost''])]"

definition sample_settings :: bgConfig where
  "sample_settings = \<lparr>bg_name = ''Basement Guardian'', bg_email = ''a.b@c-d.org'', bg_password = ''pw'', bg_clientId = ''id'',
     bg_pollIntervalSeconds = Fin 600, bg_offlineConfirmationPollCount = Fin 2, bg_ignoredFaults = [MainsPowerLost]\<rparr>"

lemma sample_fields:
  "field_of sample_block ''name'' = None" "field_of sample_block ''email'' = Some (JStr ''a.b@c-d.org'')"
  "field_of sample_block ''password'' = Some (JStr ''pw'')" "field_of sample_block ''clientId'' = None"
  "field_of sample_block ''pollInterval'' = Some (JNum (Fin 600))"
  "field_of sample_block ''offlineConfirmationPollCount'' = None"
  "field_of sample_block ''ignoredFaults'' = Some (JArr [JStr ''mains-power-lost''])"
  by (simp_all add: sample_block_def field_of_def prop_of_def fields_of_def jm_get_def)

lemma sample_accepted_with: "validateConfig bundled sample_block = Inr (sample_settings\<lparr>bg_clientId := bundled\<rparr>)"
proof -
  have "email_form ''a.b@c-d.org''" by code_simp
  moreover have "js_trim ''a.b@c-d.org'' \<noteq> []" "js_trim ''pw'' \<noteq> []" by code_simp+
  moreover have "ignoredFaultsRefusal (Some (JArr [JStr ''mains-power-lost''])) = None" by code_simp
  moreover have "resolveIgnoredFaults (Some (JArr [JStr ''mains-power-lost''])) = [MainsPowerLost]" by code_simp
  ultimately show ?thesis
    by (simp add: validateConfig_def firstRefusal_def sample_fields sample_settings_def isConfiguredText_def string_field_def
        email_form_checked integerRefusal_def resolveInteger_def num_isInteger_def POLL_INTERVAL_BOUNDS_def POLL_COUNT_BOUNDS_def
        DEFAULT_NAME_def first_of_def ignoredFaultsRefusal_def Let_def)
qed

lemma sample_accepted: "validateConfig ''id'' sample_block = Inr sample_settings"
  using sample_accepted_with [of "''id''"] by (simp add: sample_settings_def)

theorem accepted_settings_are_valid_witness:
  "\<exists>n. bg_pollIntervalSeconds sample_settings = Fin (of_int n) \<and> 300 \<le> n \<and> n \<le> 3600"
  using accepted_settings_are_valid [OF sample_accepted] by (simp only: simp_thms)

theorem supplied_settings_are_kept_witness:
  "JNum (Fin 600) = JNum (bg_pollIntervalSeconds sample_settings) \<and> bg_name sample_settings = ''Basement Guardian''"
  using supplied_settings_are_kept [OF sample_accepted] unfolding sample_fields option.case by (simp only: simp_thms)

end
