(* ===== verification/Platform.thy ===== *)
theory Platform
  imports StaleMarking DeviceStore Config
begin

text \<open>
  The composition root, \<open>src/src/platform.ts\<close>: which devices become accessories, what Homebridge is asked to
  register, write and remove, and how the account's trust reaches every accessory. A \<open>PlatformAccessory\<close> is
  an object of Homebridge; it has a number of its own, so that two objects for one UUID stay apart, and the
  plugin's own half of it, the instance of the component \<open>Accessory\<close>, is kept with it. The number of the
  object is also the listener its instance subscribes to the device store with. Which calls of Homebridge throw
  is told by \<open>platformEnv\<close>; an error that goes to the logger as a parameter is described there.
\<close>

section \<open>State\<close>

record platformAccessory =
  pl_uuid :: string
  pl_displayName :: string
  pl_device :: "json option"
  pl_lastVendorName :: "string option"
  pl_stored :: pumpRecordsContext
  pl_services :: "serviceKey list"
  pl_instance :: "accessory option"

record platform =
  pf_accessories :: "(string, nat) jsmap"
  pf_instances :: "(string, nat) jsmap"
  pf_objects :: "(nat, platformAccessory) jsmap"
  pf_nextObject :: nat
  pf_registry :: familyRegistry
  pf_store :: deviceStore
  pf_uncertain :: "string list"
  pf_pending :: "nat list"

record platformEnv =
  pe_uuid :: "string \<Rightarrow> string"
  pe_hap :: "nat \<Rightarrow> hapAnswers"
  pe_pass :: "nat \<Rightarrow> passAnswers"
  pe_persistThrows :: "nat \<Rightarrow> js_error option"
  pe_updateThrows :: "nat \<Rightarrow> js_error option"
  pe_registerThrows :: "string \<Rightarrow> js_error option"
  pe_unregisterThrows :: "string \<Rightarrow> js_error option"
  pe_communicationFailure :: int
  pe_ignoredFaults :: "ServiceKind list"
  pe_offlineConfirmationPollCount :: jsnum

datatype platformOutput =
    PfLog log_line
  | OnAccessory nat accessoryOutput
  | OnServices nat passOutput
  | WriteAsked nat
  | RegisterAsked string
  | Unregistered string

type_synonym 'a pf_act = "(platformOutput, platform, 'a) handler"

definition createPlatform :: platform where
  "createPlatform = \<lparr>pf_accessories = [], pf_instances = [], pf_objects = [], pf_nextObject = 0,
     pf_registry = createFamilyRegistry, pf_store = createDeviceStateStore, pf_uncertain = [], pf_pending = []\<rparr>"

definition pf_log :: "log_line \<Rightarrow> unit pf_act" where
  "pf_log l = act_emit [PfLog l]"

fun error_class :: "js_error \<Rightarrow> string" where
  "error_class (TypeError m) = ''TypeError''"
| "error_class (RangeError m) = ''RangeError''"
| "error_class (PlainError m) = ''Error''"
| "error_class (AggregateError es m) = ''AggregateError''"

section \<open>Objects\<close>

definition set_object :: "nat \<Rightarrow> (platformAccessory \<Rightarrow> platformAccessory) \<Rightarrow> platform \<Rightarrow> platform" where
  "set_object i f s = (case jm_get (pf_objects s) i of
      None \<Rightarrow> s | Some p \<Rightarrow> s\<lparr>pf_objects := jm_set i (f p) (pf_objects s)\<rparr>)"

text \<open>\<open>context.accessories.get(accessory.UUID) !== accessory\<close> is the negation of this.\<close>

definition owns :: "platform \<Rightarrow> nat \<Rightarrow> bool" where
  "owns s i = (case jm_get (pf_objects s) i of
      None \<Rightarrow> False | Some p \<Rightarrow> jm_get (pf_accessories s) (pl_uuid p) = Some i)"

definition instance_of :: "platform \<Rightarrow> nat \<Rightarrow> accessory option" where
  "instance_of s i = (case jm_get (pf_objects s) i of None \<Rightarrow> None | Some p \<Rightarrow> pl_instance p)"

text \<open>
  A handler of the instance, with the persist port the platform built for it: only an accessory the platform owns
  is written, and a write that returned pays what was owed.
\<close>

definition on_instance :: "platformEnv \<Rightarrow> nat \<Rightarrow> (hapAnswers \<Rightarrow> unit act) \<Rightarrow> unit pf_act" where
  "on_instance env i m = (\<lambda>s. case instance_of s i of
      None \<Rightarrow> ([], Inr (), s)
    | Some a \<Rightarrow>
        let answer = (if owns s i then pe_persistThrows env i else None);
            (outs, r, a') = m ((pe_hap env i)\<lparr>ha_persist := answer\<rparr>) a;
            s' = set_object i (\<lambda>p. p\<lparr>pl_instance := Some a', pl_services := acc_carried a'\<rparr>) s
        in (map (OnAccessory i) outs, r,
            if PersistAsked \<in> set outs \<and> owns s i \<and> answer = None
            then s'\<lparr>pf_pending := filter (\<lambda>j. j \<noteq> i) (pf_pending s')\<rparr> else s'))"

definition device_context :: "string \<Rightarrow> string \<Rightarrow> json" where
  "device_context deviceId deviceTypeId = JObj [(''deviceId'', JStr deviceId), (''deviceTypeId'', JStr deviceTypeId)]"

definition createBasementGuardianAccessoryFor :: "platformEnv \<Rightarrow> nat \<Rightarrow> unit pf_act" where
  "createBasementGuardianAccessoryFor env i = (\<lambda>s. case jm_get (pf_objects s) i of
      None \<Rightarrow> ([], Inr (), s)
    | Some p \<Rightarrow>
        (case createBasementGuardianAccessory (map_option (\<lambda>d. JObj [(''device'', d)]) (pl_device p)) (Some (pe_ignoredFaults env))
            (Some (pe_offlineConfirmationPollCount env)) (pl_stored p) (pl_services p) of
           Inl e \<Rightarrow> ([], Inl e, s)
         | Inr (logs, a) \<Rightarrow> (map PfLog logs, Inr (), set_object i (\<lambda>p. p\<lparr>pl_instance := Some a\<rparr>) s)))"

definition subscribeToLiveState :: "nat \<Rightarrow> string \<Rightarrow> platform \<Rightarrow> platform" where
  "subscribeToLiveState i deviceId s = s\<lparr>pf_store := snd (store_subscribe deviceId i (pf_store s))\<rparr>"

text \<open>The instance of a UUID, by the number of the object it belongs to, created the first time.\<close>

definition basementGuardianAccessoryFor :: "platformEnv \<Rightarrow> string \<Rightarrow> nat \<Rightarrow> string \<Rightarrow> nat pf_act" where
  "basementGuardianAccessoryFor env uuid i deviceId =
    act_bind (act_get (\<lambda>s. jm_get (pf_instances s) uuid)) (\<lambda>existing. case existing of
        Some j \<Rightarrow> act_return j
      | None \<Rightarrow> act_then (createBasementGuardianAccessoryFor env i)
          (act_then (act_modify (\<lambda>s. subscribeToLiveState i deviceId (s\<lparr>pf_instances := jm_set uuid i (pf_instances s)\<rparr>)))
            (act_return i)))"

section \<open>Discovery\<close>

fun explainSkippedDevice :: "string \<Rightarrow> FamilyOutcome \<Rightarrow> log_line list" where
  "explainSkippedDevice deviceId (Unsupported t name) =
    [LInfo (''Skipping '' @ deviceId @ '': '' @ name @ '' ('' @ t @ '') is a recognized but unsupported device family.'')]"
| "explainSkippedDevice deviceId (Unknown t) =
    [LInfo (''Skipping '' @ deviceId @ '': '' @ t @ '' is not a recognized device family.'')]"
| "explainSkippedDevice deviceId (Implemented f) = []"

definition resolveVendorName :: "platformAccessory \<Rightarrow> string \<Rightarrow> string \<times> string" where
  "resolveVendorName p vendorName =
    (if pl_lastVendorName p = Some (pl_displayName p) then vendorName else pl_displayName p, vendorName)"

definition services_of :: "platform \<Rightarrow> nat \<Rightarrow> serviceDescriptor list" where
  "services_of s i = (case instance_of s i of None \<Rightarrow> [] | Some a \<Rightarrow> acc_published a)"

text \<open>The \<open>finally\<close> block: the comparison, and the write while one is owed.\<close>

definition settle_persistence :: "platformEnv \<Rightarrow> nat \<Rightarrow> bool \<Rightarrow> unit pf_act" where
  "settle_persistence env i changed =
    act_then (act_modify (\<lambda>s. if changed \<and> i \<notin> set (pf_pending s) then s\<lparr>pf_pending := pf_pending s @ [i]\<rparr> else s))
    (act_bind (act_get (\<lambda>s. i \<in> set (pf_pending s))) (\<lambda>owed.
      if \<not> owed then act_return ()
      else act_then (act_emit [WriteAsked i])
        (case pe_updateThrows env i of
           Some e \<Rightarrow> act_throw e
         | None \<Rightarrow> act_modify (\<lambda>s. s\<lparr>pf_pending := filter (\<lambda>j. j \<noteq> i) (pf_pending s)\<rparr>))))"

definition updateDiscoveredDevice :: "platformEnv \<Rightarrow> string \<Rightarrow> nat \<Rightarrow> platformAccessory \<Rightarrow> deviceSnapshot \<Rightarrow> unit pf_act" where
  "updateDiscoveredDevice env uuid i p snapshot =
    (let (displayName, lastVendorName) = resolveVendorName p (di_name (ds_identity snapshot));
         deviceId = di_deviceId (ds_identity snapshot);
         nextDevice = device_context deviceId (di_deviceTypeId (ds_identity snapshot))
     in act_then (act_modify (set_object i (\<lambda>p. p\<lparr>pl_displayName := displayName, pl_lastVendorName := Some lastVendorName,
            pl_device := Some nextDevice\<rparr>)))
        (act_bind (basementGuardianAccessoryFor env uuid i deviceId) (\<lambda>j.
         act_bind (act_get (\<lambda>s. services_of s j)) (\<lambda>previousServices.
         act_bind (act_get pf_registry) (\<lambda>registry.
         act_bind (act_attempt (on_instance env j (\<lambda>hap. update registry hap snapshot Poll))) (\<lambda>thrown.
         act_bind (act_get (\<lambda>s. services_of s j)) (\<lambda>nextServices.
         act_then (settle_persistence env i
            (\<not> (pl_displayName p = displayName \<and> pl_lastVendorName p = Some lastVendorName
              \<and> isSameValue (pl_device p) (Some nextDevice) \<and> previousServices = nextServices)))
         (case thrown of Some e \<Rightarrow> act_throw e | None \<Rightarrow> act_return ()))))))))"

definition uncertain_message :: "string \<Rightarrow> js_error \<Rightarrow> string" where
  "uncertain_message deviceId e = ''Accessory registration outcome for '' @ deviceId
    @ '' is uncertain because registration threw '' @ error_class e
    @ ''. Restart Homebridge before this device can be registered again.''"

definition new_object :: "platformAccessory \<Rightarrow> nat pf_act" where
  "new_object p = (\<lambda>s. ([], Inr (pf_nextObject s),
     s\<lparr>pf_objects := jm_set (pf_nextObject s) p (pf_objects s), pf_nextObject := pf_nextObject s + 1\<rparr>))"

text \<open>The call of Homebridge, what its return earns, and what its throw leaves undecided.\<close>

definition ask_registration :: "platformEnv \<Rightarrow> string \<Rightarrow> string \<Rightarrow> nat \<Rightarrow> unit pf_act" where
  "ask_registration env uuid deviceId i =
    act_then (act_emit [RegisterAsked uuid])
      (case pe_registerThrows env uuid of
         Some e \<Rightarrow> act_then (act_modify (\<lambda>s. s\<lparr>pf_uncertain := pf_uncertain s @ [uuid]\<rparr>))
           (pf_log (LError (uncertain_message deviceId e)))
       | None \<Rightarrow> act_modify (\<lambda>s. (subscribeToLiveState i deviceId (s\<lparr>pf_instances := jm_set uuid i (pf_instances s)\<rparr>))
           \<lparr>pf_accessories := jm_set uuid i (pf_accessories s)\<rparr>))"

text \<open>A device of an implemented family that has no accessory yet.\<close>

definition register_device :: "platformEnv \<Rightarrow> string \<Rightarrow> string \<Rightarrow> deviceSnapshot \<Rightarrow> unit pf_act" where
  "register_device env uuid deviceId snapshot =
    act_bind (new_object \<lparr>pl_uuid = uuid, pl_displayName = di_name (ds_identity snapshot),
        pl_device = Some (device_context deviceId (di_deviceTypeId (ds_identity snapshot))),
        pl_lastVendorName = Some (di_name (ds_identity snapshot)),
        pl_stored = \<lparr>px_primaryPump = None, px_backupPump = None, px_watermarks = None\<rparr>,
        pl_services = [], pl_instance = None\<rparr>) (\<lambda>i.
    act_then (createBasementGuardianAccessoryFor env i)
    (act_bind (act_get pf_registry) (\<lambda>registry.
     act_then (on_instance env i (\<lambda>hap. update registry hap snapshot Poll))
     (ask_registration env uuid deviceId i))))"

definition dispatchDiscoveredDevice :: "platformEnv \<Rightarrow> string \<Rightarrow> unit pf_act" where
  "dispatchDiscoveredDevice env deviceId = (let uuid = pe_uuid env deviceId in
    act_bind (act_get (\<lambda>s. st_snapshot (pf_store s) deviceId)) (\<lambda>found. case found of
      None \<Rightarrow> act_return ()
    | Some snapshot \<Rightarrow>
        act_bind (act_get (\<lambda>s. jm_get (pf_accessories s) uuid)) (\<lambda>existing. case existing of
          Some i \<Rightarrow> act_bind (act_get (\<lambda>s. jm_get (pf_objects s) i)) (\<lambda>object. case object of
              None \<Rightarrow> act_return ()
            | Some p \<Rightarrow> updateDiscoveredDevice env uuid i p snapshot)
        | None \<Rightarrow>
            act_bind (act_get (\<lambda>s. uuid \<in> set (pf_uncertain s))) (\<lambda>uncertain.
              if uncertain then act_return ()
              else act_bind (act_get pf_registry) (\<lambda>registry.
                let deviceTypeId = di_deviceTypeId (ds_identity snapshot)
                in case registry_lookup registry deviceTypeId of
                     Implemented f \<Rightarrow> register_device env uuid deviceId snapshot
                   | outcome \<Rightarrow> (let (say, registry') = shouldLog deviceId deviceTypeId registry in
                       act_then (act_modify (\<lambda>s. s\<lparr>pf_registry := registry'\<rparr>))
                         (act_emit (if say then map PfLog (explainSkippedDevice deviceId outcome) else []))))))))"

fun registerDiscoveredDevices :: "platformEnv \<Rightarrow> string list \<Rightarrow> unit pf_act" where
  "registerDiscoveredDevices env [] = act_return ()"
| "registerDiscoveredDevices env (deviceId # ids) =
    act_bind (act_attempt (dispatchDiscoveredDevice env deviceId)) (\<lambda>thrown.
    act_then (case thrown of
        None \<Rightarrow> act_return ()
      | Some e \<Rightarrow> pf_log (LError (''Skipping '' @ deviceId @ '' on this inventory; every other device still updates.'')))
      (registerDiscoveredDevices env ids))"

section \<open>Trust\<close>

definition pf_pass :: "nat \<Rightarrow> (serviceKey list \<Rightarrow> passOutput list \<times> servicePassCounts) \<Rightarrow> servicePassCounts pf_act" where
  "pf_pass i pass = (\<lambda>s. case jm_get (pf_objects s) i of
      None \<Rightarrow> ([], Inr \<lparr>reached = 0, failed = 0\<rparr>, s)
    | Some p \<Rightarrow> (let (outs, counts) = pass (pl_services p) in (map (OnServices i) outs, Inr counts, s)))"

definition withdrawAccessoryTrust :: "platformEnv \<Rightarrow> string \<Rightarrow> bool pf_act" where
  "withdrawAccessoryTrust env uuid =
    act_bind (act_get (\<lambda>s. jm_get (pf_accessories s) uuid)) (\<lambda>found. case found of
      None \<Rightarrow> act_return False
    | Some i \<Rightarrow> act_bind (pf_pass i (markRestoredServicesStale (pe_pass env i) (pe_communicationFailure env)))
        (\<lambda>counts. act_return (failed counts = 0)))"

definition publishAccessoryTrust :: "platformEnv \<Rightarrow> string \<Rightarrow> nat \<Rightarrow> string \<Rightarrow> monitoringTrust \<Rightarrow> unit pf_act" where
  "publishAccessoryTrust env uuid i deviceId trust =
    act_bind (act_attempt (on_instance env i (\<lambda>hap. markMonitoring hap trust))) (\<lambda>thrown. case thrown of
      None \<Rightarrow> act_return ()
    | Some e \<Rightarrow> act_bind (withdrawAccessoryTrust env uuid) (\<lambda>withdrawn.
        pf_log (LError (''Unable to publish monitoring trust for '' @ deviceId
          @ (if withdrawn then ''. Its services no longer vouch for their readings.''
             else '', or to withdraw the trust it already reports.'')))))"

text \<open>What the push says of one device: a device it does not name is not vouched for.\<close>

definition trust_of :: "monitoringTrust \<Rightarrow> (string, monitoringTrust) jsmap \<Rightarrow> string \<Rightarrow> monitoringTrust" where
  "trust_of account byDevice deviceId =
    (case jm_get byDevice deviceId of Some trust \<Rightarrow> trust | None \<Rightarrow> account\<lparr>mt_shadowSilent := True\<rparr>)"

fun push_to_instances :: "platformEnv \<Rightarrow> monitoringTrust \<Rightarrow> (string, monitoringTrust) jsmap \<Rightarrow> (string \<times> nat) list \<Rightarrow> unit pf_act" where
  "push_to_instances env account byDevice [] = act_return ()"
| "push_to_instances env account byDevice ((uuid, i) # rest) =
    act_then (act_bind (act_get (\<lambda>s. instance_of s i)) (\<lambda>found. case found of
        None \<Rightarrow> act_return ()
      | Some a \<Rightarrow> publishAccessoryTrust env uuid i (acc_deviceId a) (trust_of account byDevice (acc_deviceId a))))
      (push_to_instances env account byDevice rest)"

text \<open>The pass over every accessory after a refusal of the credentials; its number is the services it reached.\<close>

fun mark_unreadable :: "platformEnv \<Rightarrow> nat list \<Rightarrow> nat pf_act" where
  "mark_unreadable env [] = act_return 0"
| "mark_unreadable env (i # rest) =
    act_bind (pf_pass i (markTrustReportsUnreadable (pe_pass env i) (pe_communicationFailure env))) (\<lambda>counts.
    act_then (if failed counts > 0 then pf_log (LError ''Unable to mark cached monitoring trust unreadable.'') else act_return ())
    (act_bind (mark_unreadable env rest) (\<lambda>marked. act_return (reached counts + marked))))"

definition NOTHING_MARKED :: string where
  "NOTHING_MARKED = ''The vendor refused the account credentials. No accessory shows this, because no cached service reports whether the plugin vouches for it. ''
    @ ''Correct the account email and password in the Homebridge UI (Plugins -> Basement Guardian -> Settings).''"

definition applyMonitoringHealth :: "platformEnv \<Rightarrow> monitoringTrust \<Rightarrow> (string, monitoringTrust) jsmap \<Rightarrow> unit pf_act" where
  "applyMonitoringHealth env account byDevice =
    act_bind (act_get pf_instances) (\<lambda>instances.
    act_then (push_to_instances env account byDevice instances)
    (if \<not> mt_credentialsRejected account then act_return ()
     else act_bind (act_get (\<lambda>s. map snd (pf_accessories s))) (\<lambda>objects.
       act_bind (mark_unreadable env objects) (\<lambda>marked.
       if objects \<noteq> [] \<and> marked = 0 then pf_log (LError NOTHING_MARKED) else act_return ()))))"

section \<open>Removal, restored accessories, launch\<close>

definition removeDiscoveredDevice :: "platformEnv \<Rightarrow> string \<Rightarrow> unit pf_act" where
  "removeDiscoveredDevice env deviceId = (let uuid = pe_uuid env deviceId in
    act_bind (act_get (\<lambda>s. jm_get (pf_accessories s) uuid)) (\<lambda>found. case found of
      None \<Rightarrow> act_return ()
    | Some i \<Rightarrow> (case pe_unregisterThrows env uuid of
        Some e \<Rightarrow> act_throw e
      | None \<Rightarrow> act_then (act_emit [Unregistered uuid])
          (act_modify (\<lambda>s. s\<lparr>pf_accessories := jm_delete uuid (pf_accessories s),
             pf_instances := jm_delete uuid (pf_instances s), pf_store := store_remove deviceId (pf_store s)\<rparr>)))))"

definition configureAccessory :: "platformEnv \<Rightarrow> platformAccessory \<Rightarrow> unit pf_act" where
  "configureAccessory env p =
    act_bind (new_object (p\<lparr>pl_instance := None\<rparr>)) (\<lambda>i.
    act_then (act_modify (\<lambda>s. s\<lparr>pf_accessories := jm_set (pl_uuid p) i (pf_accessories s)\<rparr>))
    (act_bind (pf_pass i (markRestoredServicesStale (pe_pass env i) (pe_communicationFailure env))) (\<lambda>marked.
     act_bind (pf_pass i (refuseRestoredControls (pe_pass env i) (pl_displayName p))) (\<lambda>refusing.
     act_then (if failed marked + failed refusing > 0 then pf_log (LError ''Unable to prepare every restored accessory service.'')
         else act_return ())
       (pf_log (LInfo (''Loading accessory from cache: ('' @ string_of_int (int (reached marked))
          @ '' services no longer vouched for, '' @ string_of_int (int (reached refusing)) @ '' controls refusing presses)'')))))))"

text \<open>A snapshot notification reaches the instance; the store keeps what it throws from spreading.\<close>

definition live_update :: "platformEnv \<Rightarrow> nat \<Rightarrow> deviceSnapshot \<Rightarrow> unit pf_act" where
  "live_update env i next =
    act_bind (act_get pf_registry) (\<lambda>registry.
    act_bind (act_attempt (on_instance env i (\<lambda>hap. update registry hap next Live))) (\<lambda>thrown. act_return ()))"

text \<open>The devices the runtime starts with, read off the restored accessories.\<close>

definition known_device :: "platformAccessory \<Rightarrow> string option" where
  "known_device p = (case prop_of (pl_device p) ''deviceId'' of
      Some (JStr d) \<Rightarrow> if isRecord (pl_device p) \<and> d \<noteq> [] then Some d else None
    | _ \<Rightarrow> None)"

definition knownDeviceIds :: "platform \<Rightarrow> string list" where
  "knownDeviceIds s = js_set (List.map_filter (\<lambda>(uuid, i). Option.bind (jm_get (pf_objects s) i) known_device) (pf_accessories s))"

text \<open>
  The constructor: a refused configuration is one line and nothing else; an accepted one starts with its password
  registered.
\<close>

definition construct_platform :: "string \<Rightarrow> jobj \<Rightarrow> log_line list \<times> (string \<times> bgConfig) option" where
  "construct_platform bundledClientId raw = (case validateConfig bundledClientId raw of
      Inl reason \<Rightarrow> ([LError (''Not starting: '' @ reason
          @ '' Fix it in the Homebridge UI (Plugins -> Basement Guardian -> Settings).'')], None)
    | Inr config \<Rightarrow> ([], Some (bg_password config, config)))"

section \<open>Runs\<close>

datatype platformEvent =
    RestoredAccessory platformAccessory
  | InventoryReported "string list"
  | HealthReported monitoringTrust "(string, monitoringTrust) jsmap"
  | DeviceGone string
  | SnapshotNotified nat deviceSnapshot
  | StoreChanged storeEnv storeOp

fun platform_act :: "platformEnv \<Rightarrow> platformEvent \<Rightarrow> unit pf_act" where
  "platform_act env (RestoredAccessory p) = configureAccessory env p"
| "platform_act env (InventoryReported ids) = registerDiscoveredDevices env ids"
| "platform_act env (HealthReported account byDevice) = applyMonitoringHealth env account byDevice"
| "platform_act env (DeviceGone deviceId) = removeDiscoveredDevice env deviceId"
| "platform_act env (SnapshotNotified i next) = live_update env i next"
| "platform_act env (StoreChanged senv op) = act_modify (\<lambda>s. s\<lparr>pf_store := store_step senv op (pf_store s)\<rparr>)"

fun platform_run :: "(platformEnv \<times> platformEvent) list \<Rightarrow> platform \<Rightarrow> platformOutput list \<times> platform" where
  "platform_run [] s = ([], s)"
| "platform_run ((env, e) # es) s =
    (case platform_act env e s of (outs, r, s1) \<Rightarrow>
      (case platform_run es s1 of (outs', s2) \<Rightarrow> (outs @ outs', s2)))"

end
