(* ===== verification/PlatformProperties.thy ===== *)
theory PlatformProperties
  imports Platform AccessoryProperties
begin

text \<open>
  What the composition root promises: a device is registered with Homebridge once, a change of an accessory is written
  until a write succeeds, a name the owner chose stays, the account's trust reaches every accessory whatever
  HAP answers, and one device's failure costs that device alone.
\<close>

section \<open>Handlers that leave the books alone\<close>

definition books :: "platform \<Rightarrow> (string, nat) jsmap \<times> string list" where
  "books s = (pf_accessories s, pf_uncertain s)"

lemma books_updates [simp]:
  "books (s\<lparr>pf_instances := x\<rparr>) = books s" "books (s\<lparr>pf_store := st\<rparr>) = books s" "books (s\<lparr>pf_registry := r\<rparr>) = books s"
  "books (s\<lparr>pf_pending := ps\<rparr>) = books s" "books (s\<lparr>pf_objects := os\<rparr>) = books s"
  "books (s\<lparr>pf_objects := os, pf_nextObject := n\<rparr>) = books s" "books (set_object i f s) = books s"
  "books (subscribeToLiveState i d s) = books s"
  by (simp_all add: books_def set_object_def subscribeToLiveState_def split: option.split)

named_theorems keeps_books \<open>handlers that leave the accessories and the uncertain registrations alone\<close>

lemma keeps_books_on_instance [keeps_books]: "keeps books (on_instance env i m)"
  by (auto simp: keeps_def on_instance_def Let_def split: option.split prod.split)

lemma keeps_books_create [keeps_books]: "keeps books (createBasementGuardianAccessoryFor env i)"
  by (auto simp: keeps_def createBasementGuardianAccessoryFor_def split: option.split sum.split)

lemma keeps_books_new [keeps_books]: "keeps books (new_object p)"
  by (simp add: keeps_def new_object_def)

lemma keeps_books_pass [keeps_books]: "keeps books (pf_pass i pass)"
  by (simp add: keeps_def pf_pass_def split: option.split prod.split)

lemma keeps_books_log [keeps_books]: "keeps books (pf_log l)"
  by (simp add: pf_log_def)

lemma keeps_books_for [keeps_books]: "keeps books (basementGuardianAccessoryFor env uuid i d)"
  unfolding basementGuardianAccessoryFor_def by (auto intro!: keeps_books)

lemma keeps_books_settle [keeps_books]: "keeps books (settle_persistence env i changed)"
  unfolding settle_persistence_def by (auto intro!: keeps_books)

lemma keeps_books_update [keeps_books]: "keeps books (updateDiscoveredDevice env uuid i p snapshot)"
  unfolding updateDiscoveredDevice_def Let_def by (auto intro!: keeps_books split: option.split)

lemma keeps_books_trust [keeps_books]:
  "keeps books (withdrawAccessoryTrust env uuid)" "keeps books (publishAccessoryTrust env uuid i d trust)"
  unfolding withdrawAccessoryTrust_def publishAccessoryTrust_def by (auto intro!: keeps_books)

lemma keeps_books_push [keeps_books]: "keeps books (push_to_instances env account byDevice xs)"
  by (induction env account byDevice xs rule: push_to_instances.induct) (auto intro!: keeps_books)

lemma keeps_books_mark [keeps_books]: "keeps books (mark_unreadable env xs)"
  by (induction env xs rule: mark_unreadable.induct) (auto intro!: keeps_books)

lemma keeps_books_health [keeps_books]: "keeps books (applyMonitoringHealth env account byDevice)"
  unfolding applyMonitoringHealth_def by (auto intro!: keeps_books)

lemma keeps_books_live [keeps_books]: "keeps books (live_update env i next)"
  unfolding live_update_def by (auto intro!: keeps_books)

section \<open>Registrations and their removals\<close>

fun is_registration :: "platformOutput \<Rightarrow> bool" where
  "is_registration (RegisterAsked u) = True"
| "is_registration (Unregistered u) = True"
| "is_registration _ = False"

abbreviation no_registration :: "platformOutput \<Rightarrow> bool" where
  "no_registration o1 \<equiv> \<not> is_registration o1"

named_theorems emits_none \<open>handlers that neither register nor unregister\<close>

lemma emits_none_instance [emits_none]: "emits no_registration (on_instance env i m)"
  by (auto simp: emits_def on_instance_def Let_def split: option.split prod.split)

lemma emits_none_create [emits_none]: "emits no_registration (createBasementGuardianAccessoryFor env i)"
  by (auto simp: emits_def createBasementGuardianAccessoryFor_def split: option.split sum.split)

lemma emits_none_new [emits_none]: "emits no_registration (new_object p)"
  by (simp add: emits_def new_object_def)

lemma emits_none_pass [emits_none]: "emits no_registration (pf_pass i pass)"
  by (auto simp: emits_def pf_pass_def split: option.split prod.split)

lemma emits_none_log [emits_none]: "emits no_registration (pf_log l)"
  unfolding pf_log_def by auto

lemma emits_none_for [emits_none]: "emits no_registration (basementGuardianAccessoryFor env uuid i d)"
  unfolding basementGuardianAccessoryFor_def by (auto intro!: emits_none)

lemma emits_none_modify [emits_none]: "emits no_registration (act_modify f)"
  by (simp add: emits_def act_modify_def)

lemma emits_none_settle [emits_none]: "emits no_registration (settle_persistence env i changed)"
  unfolding settle_persistence_def by (auto intro!: emits_none)

lemma emits_none_update [emits_none]: "emits no_registration (updateDiscoveredDevice env uuid i p snapshot)"
  unfolding updateDiscoveredDevice_def Let_def by (auto intro!: emits_none split: option.split)

lemma emits_none_trust [emits_none]:
  "emits no_registration (withdrawAccessoryTrust env uuid)" "emits no_registration (publishAccessoryTrust env uuid i d trust)"
  unfolding withdrawAccessoryTrust_def publishAccessoryTrust_def by (auto intro!: emits_none)

lemma emits_none_push [emits_none]: "emits no_registration (push_to_instances env account byDevice xs)"
  by (induction env account byDevice xs rule: push_to_instances.induct) (auto intro!: emits_none)

lemma emits_none_mark [emits_none]: "emits no_registration (mark_unreadable env xs)"
  by (induction env xs rule: mark_unreadable.induct) (auto intro!: emits_none)

lemma emits_none_health [emits_none]: "emits no_registration (applyMonitoringHealth env account byDevice)"
  unfolding applyMonitoringHealth_def by (auto intro!: emits_none)

lemma emits_none_live [emits_none]: "emits no_registration (live_update env i next)"
  unfolding live_update_def by (auto intro!: emits_none)

definition asked :: "string \<Rightarrow> platformOutput list \<Rightarrow> nat" where
  "asked u outs = length (filter (\<lambda>x. x = RegisterAsked u) outs)"

definition gone :: "string \<Rightarrow> platformOutput list \<Rightarrow> nat" where
  "gone u outs = length (filter (\<lambda>x. x = Unregistered u) outs)"

lemma counts_append [simp]: "asked u (xs @ ys) = asked u xs + asked u ys" "gone u (xs @ ys) = gone u xs + gone u ys"
  by (simp_all add: asked_def gone_def)

lemma counts_basic [simp]: "asked u [] = 0" "gone u [] = 0" "asked u (x # xs) = of_bool (x = RegisterAsked u) + asked u xs"
  "gone u (x # xs) = of_bool (x = Unregistered u) + gone u xs"
  by (simp_all add: asked_def gone_def)

lemma counts_none: "\<forall>x \<in> set outs. no_registration x \<Longrightarrow> asked u outs = 0 \<and> gone u outs = 0"
  by (induction outs) auto

lemma counts_logs: "asked u (map PfLog ls) = 0" "gone u (map PfLog ls) = 0"
  by (induction ls) auto

text \<open>Whether the UUID has an accessory, or a registration whose outcome is unknown.\<close>

definition held :: "string \<Rightarrow> platform \<Rightarrow> nat" where
  "held u s = of_bool (jm_get (pf_accessories s) u \<noteq> None \<or> u \<in> set (pf_uncertain s))"

lemma held_books: "books s = books s' \<Longrightarrow> held u s = held u s'"
  by (simp add: books_def held_def)

definition balance_at :: "string \<Rightarrow> 'a pf_act \<Rightarrow> platform \<Rightarrow> bool" where
  "balance_at u m s = (asked u (fst (m s)) + held u s \<le> gone u (fst (m s)) + held u (snd (snd (m s))))"

definition balanced :: "string \<Rightarrow> 'a pf_act \<Rightarrow> bool" where
  "balanced u m = (\<forall>s. balance_at u m s)"

lemma balance_bind:
  assumes "balance_at u m s" and "\<And>x. fst (snd (m s)) = Inr x \<Longrightarrow> balance_at u (k x) (snd (snd (m s)))"
  shows "balance_at u (act_bind m k) s"
  using assms by (cases "fst (snd (m s))") (force simp: act_bind_cases balance_at_def)+

lemma balance_then:
  "balance_at u m s \<Longrightarrow> (\<And>x. fst (snd (m s)) = Inr x \<Longrightarrow> balance_at u k (snd (snd (m s)))) \<Longrightarrow> balance_at u (act_then m k) s"
  unfolding act_then_def by (rule balance_bind)

lemma balanced_calm: "keeps books m \<Longrightarrow> emits no_registration m \<Longrightarrow> balanced u m"
proof -
  assume "keeps books m" "emits no_registration m"
  then have "held u (snd (snd (m s))) = held u s" "asked u (fst (m s)) = 0" for s
    using counts_none [of "fst (m s)" u] keepsD [of books m s] emitsD [of no_registration m _ s]
    by (auto intro: held_books)
  then show ?thesis by (simp add: balanced_def balance_at_def)
qed

lemma balanced_bind [intro!]: "balanced u m \<Longrightarrow> (\<And>x. balanced u (k x)) \<Longrightarrow> balanced u (act_bind m k)"
  by (simp add: balanced_def balance_bind)

lemma balanced_then [intro!]: "balanced u m \<Longrightarrow> balanced u k \<Longrightarrow> balanced u (act_then m k)"
  unfolding act_then_def by (rule balanced_bind)

lemma balanced_attempt [intro!]: "balanced u m \<Longrightarrow> balanced u (act_attempt m)"
  by (simp add: balanced_def balance_at_def act_attempt_cases)

lemma balanced_basic [intro!, simp]: "balanced u (act_return x)" "balanced u (act_throw e)" "balanced u (act_get f)"
  by (simp_all add: balanced_def balance_at_def act_defs)

lemma balanced_modify [intro]: "(\<And>s. held u s \<le> held u (f s)) \<Longrightarrow> balanced u (act_modify f)"
  by (simp add: balanced_def balance_at_def act_defs)

lemma balanced_at: "balanced u m \<Longrightarrow> balance_at u m s"
  by (simp add: balanced_def)

text \<open>The last step of a registration, taken where the UUID has no accessory and no uncertain registration.\<close>

definition unheld :: "string \<Rightarrow> platform \<Rightarrow> bool" where
  "unheld uuid s = (jm_get (pf_accessories s) uuid = None \<and> uuid \<notin> set (pf_uncertain s))"

lemma unheld_books: "books s' = books s \<Longrightarrow> unheld uuid s \<Longrightarrow> unheld uuid s'"
  by (simp add: books_def unheld_def)

lemma register_step_balanced:
  "unheld uuid s \<Longrightarrow> balance_at u (ask_registration env uuid d i) s"
  by (cases "u = uuid"; cases "pe_registerThrows env uuid")
    (auto simp: balance_at_def ask_registration_def act_bind_cases act_defs held_def unheld_def pf_log_def subscribeToLiveState_def)

lemma balance_after:
  assumes "keeps books m" "emits no_registration m" "unheld uuid s"
    and "\<And>x s'. unheld uuid s' \<Longrightarrow> balance_at u (k x) s'"
  shows "balance_at u (act_bind m k) s"
proof (rule balance_bind)
  show "balance_at u m s" by (intro balanced_at balanced_calm assms)
  show "balance_at u (k x) (snd (snd (m s)))" for x
    by (rule assms(4)) (rule unheld_books [OF keepsD [OF assms(1)] assms(3)])
qed

lemma register_balanced:
  "unheld uuid s \<Longrightarrow> balance_at u (register_device env uuid d snapshot) s"
  unfolding register_device_def act_then_def
  by (intro balance_after register_step_balanced keeps_books emits_none keeps_basic emits_basic)

lemma dispatch_unknown: "st_snapshot (pf_store s) d = None \<Longrightarrow>
  dispatchDiscoveredDevice env d s = act_return () s"
  by (simp add: dispatchDiscoveredDevice_def act_run Let_def)

lemma dispatch_lost: "st_snapshot (pf_store s) d = Some snapshot \<Longrightarrow> jm_get (pf_accessories s) (pe_uuid env d) = Some i \<Longrightarrow> jm_get (pf_objects s) i = None \<Longrightarrow>
  dispatchDiscoveredDevice env d s = act_return () s"
  by (simp add: dispatchDiscoveredDevice_def act_run Let_def)

lemma dispatch_known: "st_snapshot (pf_store s) d = Some snapshot \<Longrightarrow> jm_get (pf_accessories s) (pe_uuid env d) = Some i \<Longrightarrow> jm_get (pf_objects s) i = Some p \<Longrightarrow>
  dispatchDiscoveredDevice env d s = updateDiscoveredDevice env (pe_uuid env d) i p snapshot s"
  by (simp add: dispatchDiscoveredDevice_def act_run Let_def)

lemma dispatch_fresh: "st_snapshot (pf_store s) d = Some snapshot \<Longrightarrow> jm_get (pf_accessories s) (pe_uuid env d) = None \<Longrightarrow> 
  dispatchDiscoveredDevice env d s = (if pe_uuid env d \<in> set (pf_uncertain s) then act_return () s
          else case registry_lookup (pf_registry s) (di_deviceTypeId (ds_identity snapshot)) of
            Implemented f \<Rightarrow> register_device env (pe_uuid env d) d snapshot s
          | outcome \<Rightarrow> (let (say, registry') = shouldLog d (di_deviceTypeId (ds_identity snapshot)) (pf_registry s) in
              (if say then map PfLog (explainSkippedDevice d outcome) else [], Inr (), s\<lparr>pf_registry := registry'\<rparr>)))"
  by (simp add: dispatchDiscoveredDevice_def act_run Let_def act_emit_def split: FamilyOutcome.split prod.split)

lemmas dispatch_cases = dispatch_unknown dispatch_lost dispatch_known dispatch_fresh

lemma shouldLog_families: "fr_families (snd (shouldLog d t r)) = fr_families r"
  by (simp add: shouldLog_def)

lemma dispatch_elim:
  assumes "P (act_return () s)"
    and "\<And>i p snapshot. P (updateDiscoveredDevice env (pe_uuid env d) i p snapshot s)"
    and "\<And>snapshot. unheld (pe_uuid env d) s \<Longrightarrow> P (register_device env (pe_uuid env d) d snapshot s)"
    and "\<And>ls r. fr_families r = fr_families (pf_registry s) \<Longrightarrow> P (map PfLog ls, Inr (), s\<lparr>pf_registry := r\<rparr>)"
  shows "P (dispatchDiscoveredDevice env d s)"
proof (cases "st_snapshot (pf_store s) d")
  case snap: (Some snapshot)
  show ?thesis
  proof (cases "jm_get (pf_accessories s) (pe_uuid env d)")
    case (Some i)
    with snap assms(1,2) show ?thesis by (cases "jm_get (pf_objects s) i") (simp_all add: dispatch_cases)
  next
    case None
    have skip: "P (if say then map PfLog ls else [], Inr (), s\<lparr>pf_registry := snd (shouldLog d t (pf_registry s))\<rparr>)" for say ls t
      using assms(4) [of "snd (shouldLog d t (pf_registry s))" ls] assms(4) [of "snd (shouldLog d t (pf_registry s))" "[]"]
      by (simp add: shouldLog_families)
    from None assms(3) have "pe_uuid env d \<notin> set (pf_uncertain s) \<Longrightarrow> P (register_device env (pe_uuid env d) d snapshot s)"
      by (simp add: unheld_def)
    with snap None assms(1) skip show ?thesis
      by (cases "registry_lookup (pf_registry s) (di_deviceTypeId (ds_identity snapshot))")
        (simp_all add: dispatch_cases Let_def case_prod_beta)
  qed
qed (use assms(1) in \<open>simp add: dispatch_cases\<close>)

lemma dispatch_balanced: "balanced u (dispatchDiscoveredDevice env d)"
proof -
  have "balance_at u (dispatchDiscoveredDevice env d) s" for s
    unfolding balance_at_def
  proof (rule dispatch_elim)
    show "asked u (fst (updateDiscoveredDevice env (pe_uuid env d) i p snapshot s)) + held u s
        \<le> gone u (fst (updateDiscoveredDevice env (pe_uuid env d) i p snapshot s))
          + held u (snd (snd (updateDiscoveredDevice env (pe_uuid env d) i p snapshot s)))" for i p snapshot
      using balanced_at [OF balanced_calm [OF keeps_books_update emits_none_update]] unfolding balance_at_def .
    show "asked u (fst (register_device env (pe_uuid env d) d snapshot s)) + held u s
        \<le> gone u (fst (register_device env (pe_uuid env d) d snapshot s))
          + held u (snd (snd (register_device env (pe_uuid env d) d snapshot s)))"
      if "unheld (pe_uuid env d) s" for snapshot
      using register_balanced [OF that] unfolding balance_at_def .
  qed (simp_all add: counts_logs held_def act_return_def)
  then show ?thesis by (simp add: balanced_def)
qed

lemma inventory_balanced: "balanced u (registerDiscoveredDevices env ids)"
proof (induction env ids rule: registerDiscoveredDevices.induct)
  case (2 env d ids)
  have "balanced u (pf_log l)" for l by (intro balanced_calm keeps_books emits_none)
  with 2 show ?case by (auto intro!: dispatch_balanced split: option.split)
qed simp

lemma removal_balanced: "balanced u (removeDiscoveredDevice env d)"
proof -
  have "balance_at u (removeDiscoveredDevice env d) s" for s
    by (cases "jm_get (pf_accessories s) (pe_uuid env d)"; cases "pe_unregisterThrows env (pe_uuid env d)")
      (auto simp: removeDiscoveredDevice_def Let_def act_run balance_at_def act_bind_cases act_defs held_def)
  then show ?thesis by (simp add: balanced_def)
qed

lemma configure_balanced: "balanced u (configureAccessory env p)"
proof -
  have "balanced u (act_modify (\<lambda>s. s\<lparr>pf_accessories := jm_set x i (pf_accessories s)\<rparr>))" for x i
    by (rule balanced_modify) (simp add: held_def)
  moreover have "balanced u (pf_log l)" "balanced u (pf_pass i pass)" "balanced u (new_object q)" for l i pass q
    by (intro balanced_calm keeps_books emits_none)+
  ultimately show ?thesis unfolding configureAccessory_def by auto
qed

lemma step_balanced: "balanced u (platform_act env e)"
proof (cases e)
  case (StoreChanged senv op)
  then show ?thesis by (auto intro!: balanced_modify simp: held_def)
qed (auto intro!: configure_balanced inventory_balanced removal_balanced balanced_calm keeps_books emits_none)

lemma run_balanced: "asked u (fst (platform_run es s)) + held u s \<le> gone u (fst (platform_run es s)) + held u (snd (platform_run es s))"
proof (induction es arbitrary: s)
  case (Cons x es)
  obtain env e where x: "x = (env, e)" by fastforce
  obtain outs r s1 where step: "platform_act env e s = (outs, r, s1)" using prod_cases3 by blast
  have "asked u outs + held u s \<le> gone u outs + held u s1"
    using step_balanced [of u env e] step unfolding balanced_def balance_at_def by (metis fst_conv snd_conv)
  with Cons [of s1] x step show ?case by (simp add: case_prod_beta)
qed simp

lemma weaker: "emits no_registration m \<Longrightarrow> emits (\<lambda>x. x \<noteq> Unregistered u) m"
  by (fastforce simp: emits_def)

lemma emits_no_removal: "emits (\<lambda>x. x \<noteq> Unregistered u) (dispatchDiscoveredDevice env d)"
proof -
  have "\<forall>x \<in> set (fst (dispatchDiscoveredDevice env d s)). x \<noteq> Unregistered u" for s
  proof (rule dispatch_elim)
    show "\<forall>x \<in> set (fst (updateDiscoveredDevice env (pe_uuid env d) i p snapshot s)). x \<noteq> Unregistered u" for i p snapshot
      using weaker [OF emits_none_update] by (simp add: emits_def)
    have "emits (\<lambda>x. x \<noteq> Unregistered u) (register_device env (pe_uuid env d) d snapshot)" for snapshot
    proof -
      have "emits (\<lambda>x. x \<noteq> Unregistered u) (act_emit [RegisterAsked uuid])" for uuid by auto
      moreover have "emits (\<lambda>x. x \<noteq> Unregistered u) (act_modify f)" for f by (rule weaker [OF emits_none_modify])
      moreover have "emits (\<lambda>x. x \<noteq> Unregistered u) (pf_log l)" for l by (rule weaker [OF emits_none_log])
      ultimately have "emits (\<lambda>x. x \<noteq> Unregistered u) (ask_registration env uuid d i)" for uuid i
        unfolding ask_registration_def by (cases "pe_registerThrows env uuid") auto
      then show ?thesis unfolding register_device_def
        by (intro emits_then emits_bind emits_basic weaker [OF emits_none_new] weaker [OF emits_none_create]
            weaker [OF emits_none_instance])
    qed
    then show "\<forall>x \<in> set (fst (register_device env (pe_uuid env d) d snapshot s)). x \<noteq> Unregistered u" for snapshot
      by (simp add: emits_def)
  qed (auto simp: act_return_def)
  then show ?thesis by (simp add: emits_def)
qed

lemma inventory_removes_nothing: "gone u (fst (registerDiscoveredDevices env ids s)) = 0"
proof -
  have "emits (\<lambda>x. x \<noteq> Unregistered u) (registerDiscoveredDevices env ids)"
    by (induction env ids rule: registerDiscoveredDevices.induct)
      (auto intro!: emits_no_removal weaker [OF emits_none_log] split: option.split)
  then show ?thesis by (auto simp: gone_def filter_empty_conv emits_def)
qed

text \<open>The history of a run: each restored accessory by its UUID, and every output, in their order.\<close>

datatype happening = Restored string | Did platformOutput

fun happened :: "platformEvent \<Rightarrow> platformOutput list \<Rightarrow> happening list" where
  "happened (RestoredAccessory p) outs = Restored (pl_uuid p) # map Did outs"
| "happened e outs = map Did outs"

fun history :: "(platformEnv \<times> platformEvent) list \<Rightarrow> platform \<Rightarrow> happening list" where
  "history [] s = []"
| "history ((env, e) # es) s =
    (case platform_act env e s of (outs, r, s1) \<Rightarrow> happened e outs @ history es s1)"

text \<open>Reading a history: whether the UUID is taken, and whether it was asked for only when it was not.\<close>

fun taken :: "string \<Rightarrow> bool \<Rightarrow> happening list \<Rightarrow> bool" where
  "taken u b [] = b"
| "taken u b (h # hs) = taken u (h = Restored u \<or> h = Did (RegisterAsked u) \<or> b \<and> h \<noteq> Did (Unregistered u)) hs"

fun asks_well :: "string \<Rightarrow> bool \<Rightarrow> happening list \<Rightarrow> bool" where
  "asks_well u b [] = True"
| "asks_well u b (h # hs) = ((h = Did (RegisterAsked u) \<longrightarrow> \<not> b) \<and> asks_well u (taken u b [h]) hs)"

lemma reading_append:
  "taken u b (xs @ ys) = taken u (taken u b xs) ys"
  "asks_well u b (xs @ ys) \<longleftrightarrow> asks_well u b xs \<and> asks_well u (taken u b xs) ys"
  by (induction xs arbitrary: b) auto

lemma taken_stays: "Did (Unregistered u) \<notin> set hs \<Longrightarrow> taken u True hs"
  by (induction hs) auto

lemma reading_none:
  "asked u outs = 0 \<Longrightarrow> asks_well u b (map Did outs)"
  "asked u outs = 0 \<Longrightarrow> gone u outs \<noteq> 0 \<Longrightarrow> \<not> taken u b (map Did outs)"
proof -
  show "asked u outs = 0 \<Longrightarrow> asks_well u b (map Did outs)" by (induction outs arbitrary: b) auto
  have free: "asked u outs = 0 \<Longrightarrow> \<not> taken u False (map Did outs)" for outs by (induction outs) auto
  show "asked u outs = 0 \<Longrightarrow> gone u outs \<noteq> 0 \<Longrightarrow> \<not> taken u b (map Did outs)"
    by (induction outs arbitrary: b) (auto simp: free)
qed

lemma reading_asks:
  "gone u outs = 0 \<Longrightarrow> asked u outs + of_bool b \<le> Suc 0 \<Longrightarrow>
    asks_well u b (map Did outs) \<and> (taken u b (map Did outs) \<longleftrightarrow> b \<or> asked u outs \<noteq> 0)"
proof (induction outs arbitrary: b)
  case (Cons x outs)
  then show ?case by (cases b; cases "x = RegisterAsked u") auto
qed simp

lemma removal_asks_nothing: "asked u (fst (removeDiscoveredDevice env d s)) = 0"
  by (cases "jm_get (pf_accessories s) (pe_uuid env d)"; cases "pe_unregisterThrows env (pe_uuid env d)")
    (auto simp: removeDiscoveredDevice_def Let_def act_run act_bind_cases act_defs)

lemma configure_holds: "held (pl_uuid p) (snd (snd (configureAccessory env p s))) = 1"
proof -
  define rest where "rest i = act_bind (pf_pass i (markRestoredServicesStale (pe_pass env i) (pe_communicationFailure env)))
    (\<lambda>marked. act_bind (pf_pass i (refuseRestoredControls (pe_pass env i) (pl_displayName p))) (\<lambda>refusing.
     act_then (if failed marked + failed refusing > 0 then pf_log (LError ''Unable to prepare every restored accessory service.'')
         else act_return ())
       (pf_log (LInfo (''Loading accessory from cache: ('' @ string_of_int (int (reached marked))
          @ '' services no longer vouched for, '' @ string_of_int (int (reached refusing)) @ '' controls refusing presses)'')))))"
    for i
  have run: "configureAccessory env p s = act_bind (new_object (p\<lparr>pl_instance := None\<rparr>)) (\<lambda>i.
      act_then (act_modify (\<lambda>s. s\<lparr>pf_accessories := jm_set (pl_uuid p) i (pf_accessories s)\<rparr>)) (rest i)) s"
    unfolding configureAccessory_def rest_def ..
  have "keeps books (rest i)" for i unfolding rest_def by (auto intro!: keeps_books)
  then have "held u (snd (snd (rest i s'))) = held u s'" for i u s' by (rule held_books [OF keepsD])
  then show ?thesis unfolding run by (simp add: act_bind_cases new_object_def act_run(5)) (simp add: held_def)
qed

text \<open>One step of a run, read from the state it starts in.\<close>

lemma step_reads:
  assumes "platform_act env e s = (outs, r, s1)" and "b \<Longrightarrow> held u s = 1"
  shows "asks_well u b (happened e outs) \<and> (taken u b (happened e outs) \<longrightarrow> held u s1 = 1)"
proof -
  have balance: "asked u outs + held u s \<le> gone u outs + held u s1"
    using step_balanced [of u env e] assms(1) unfolding balanced_def balance_at_def by (metis fst_conv snd_conv)
  have bounds: "held u s \<le> 1" "held u s1 \<le> 1" by (simp_all add: held_def)
  have b: "of_bool b \<le> held u s" using assms(2) by (cases b) simp_all
  have quiet: "asked u outs = 0 \<and> gone u outs = 0" if "emits no_registration (platform_act env e)"
    using counts_none [of outs u] emitsD [OF that, of _ s] assms(1) by simp
  have plain: ?thesis if "happened e outs = map Did outs" "asked u outs = 0 \<or> gone u outs = 0"
  proof (cases "gone u outs = 0")
    case True
    then show ?thesis using that(1) reading_asks [of u outs b] balance bounds b by (cases "held u s") auto
  next
    case False
    then show ?thesis using that reading_none [of u outs b] by simp
  qed
  show ?thesis
  proof (cases e)
    case (RestoredAccessory p)
    have "emits no_registration (configureAccessory env p)"
      unfolding configureAccessory_def by (auto intro!: emits_none)
    then have none: "asked u outs = 0" "gone u outs = 0"
      using quiet RestoredAccessory by simp_all
    have "held u s1 = 1" if "u = pl_uuid p"
      using configure_holds [of p env s] assms(1) RestoredAccessory that by simp
    moreover have "held u s1 = 1" if b using that b balance none bounds by simp
    ultimately show ?thesis
      using RestoredAccessory none reading_asks [of u outs "pl_uuid p = u \<or> b"]
      by (cases b; cases "pl_uuid p = u") auto
  next
    case (InventoryReported ids)
    then show ?thesis using inventory_removes_nothing [of u env ids s] assms(1) by (intro plain) simp_all
  next
    case (DeviceGone d)
    then show ?thesis using removal_asks_nothing [of u env d s] assms(1) by (intro plain) simp_all
  qed (use quiet plain in \<open>simp_all add: emits_none\<close>)
qed

lemma history_reads:
  "(b \<Longrightarrow> held u s = 1) \<Longrightarrow> asks_well u b (history es s)"
proof (induction es arbitrary: b s)
  case (Cons x es)
  obtain env e where x: "x = (env, e)" by fastforce
  obtain outs r s1 where step: "platform_act env e s = (outs, r, s1)" using prod_cases3 by blast
  show ?case using step_reads [OF step Cons.prems] Cons.IH [of "taken u b (happened e outs)" s1]
    by (simp add: x step reading_append)
qed simp

text \<open>
  C23. No device is registered twice. Through every run of inventories, removals, trust pushes, restored accessories
  and live updates, whatever throws, from the moment Homebridge restored an accessory or was asked to register one, whether
  that call returned or threw, it is never asked to register the same UUID before it has unregistered it.
\<close>

theorem no_device_registered_twice:
  assumes "history es createPlatform = before @ first # between @ Did (RegisterAsked uuid) # later"
    and "first \<in> {Restored uuid, Did (RegisterAsked uuid)}"
  shows "Did (Unregistered uuid) \<in> set between"
proof (rule ccontr)
  assume "Did (Unregistered uuid) \<notin> set between"
  then have "taken uuid True between" by (rule taken_stays)
  moreover have "asks_well uuid False (history es createPlatform)" by (rule history_reads) simp
  ultimately show False using assms(2) unfolding assms(1) by (auto simp: reading_append)
qed

section \<open>Trust reaches every accessory\<close>

lemma keeps_id_bind: "keeps acc_deviceId (bindControlRow row k)"
  by (auto simp: bindControlRow_def keeps_def act_return_def Let_def split_beta split: option.splits)

lemma keeps_id_remove: "keeps acc_deviceId (remove_row hap row)"
  by (auto simp: remove_row_def split: prod.splits)

lemma keeps_id_republish_rows: "keeps acc_deviceId (republish_rows hap inp rows)"
  by (induction hap inp rows rule: republish_rows.induct)
    (auto simp: republish_one_def intro!: keeps_id_bind keeps_id_remove split: option.split)

lemma keeps_id_republish: "keeps acc_deviceId (republishPublishedRows hap inp)"
  unfolding republishPublishedRows_def by (auto intro!: keeps_id_republish_rows split: list.split)

lemma marked_identity: "keeps acc_deviceId (markMonitoring hap trust)"
  unfolding markMonitoring_def by (auto intro!: keeps_id_republish)

lemma marked_trust: "acc_monitoring (snd (snd (markMonitoring hap trust a))) = trust"
proof -
  have "acc_monitoring (snd (snd (act_bind (act_lift made) (republishPublishedRows hap) b))) = acc_monitoring b" for made b
    using keepsD [OF monitoring_kept, of hap _ b] by (cases made) (simp_all add: act_run)
  then show ?thesis unfolding markMonitoring_def by (simp add: act_run) (simp add: act_return_def)
qed

text \<open>The answer of the push for the device of an instance, once it has been through.\<close>

definition answered_by :: "monitoringTrust \<Rightarrow> (string, monitoringTrust) jsmap \<Rightarrow> nat \<Rightarrow> platform \<Rightarrow> bool" where
  "answered_by account byDevice i s = (case instance_of s i of
      None \<Rightarrow> True | Some a \<Rightarrow> acc_monitoring a = trust_of account byDevice (acc_deviceId a))"

lemma instance_set: "instance_of (set_object i (\<lambda>p. p\<lparr>pl_instance := Some a', pl_services := v\<rparr>) s) j =
    (if j = i \<and> jm_get (pf_objects s) i \<noteq> None then Some a' else instance_of s j)"
  by (auto simp: instance_of_def set_object_def split: option.split)

lemma instance_pending [simp]: "instance_of (s\<lparr>pf_pending := ps\<rparr>) j = instance_of s j"
  by (simp add: instance_of_def)

lemma on_instance_state:
  assumes "instance_of s i = Some a"
  shows "\<exists>hap. instance_of (snd (snd (on_instance env i m s))) j = (if j = i then Some (snd (snd (m hap a))) else instance_of s j)"
proof -
  have there: "jm_get (pf_objects s) i \<noteq> None" using assms by (auto simp: instance_of_def split: option.splits)
  show ?thesis using assms there
    by (intro exI [of _ "(pe_hap env i)\<lparr>ha_persist := if owns s i then pe_persistThrows env i else None\<rparr>"])
      (simp add: on_instance_def Let_def case_prod_beta instance_set)
qed

lemma instance_objects: "pf_objects s' = pf_objects s \<Longrightarrow> instance_of s' j = instance_of s j"
  by (simp add: instance_of_def)

lemma keeps_objects_pass: "keeps pf_objects (pf_pass i pass)"
  by (simp add: keeps_def pf_pass_def split: option.split prod.split)

lemma keeps_objects_withdraw: "keeps pf_objects (withdrawAccessoryTrust env uuid)"
  unfolding withdrawAccessoryTrust_def by (auto intro!: keeps_objects_pass)

lemma keeps_objects_log: "keeps pf_objects (pf_log l)"
  unfolding pf_log_def by auto

lemma pass_returns: "returns (pf_pass i pass)"
  by (simp add: returns_def pf_pass_def split: option.split prod.split)

text \<open>Whatever comes after the attempt leaves the instances alone.\<close>

lemma after_attempt:
  assumes "\<And>e. keeps pf_objects (k e)"
  shows "instance_of (snd (snd (act_bind (act_attempt m) k s))) j = instance_of (snd (snd (m s))) j"
proof -
  have "pf_objects (snd (snd (act_bind (act_attempt m) k s))) = pf_objects (snd (snd (m s)))"
    using keepsD [OF assms] by (simp add: act_bind_cases act_attempt_cases)
  then show ?thesis by (rule instance_objects)
qed

lemma publish_state:
  assumes "instance_of s i = Some a"
  shows "\<exists>hap. instance_of (snd (snd (publishAccessoryTrust env uuid i d trust s))) j =
    (if j = i then Some (snd (snd (markMonitoring hap trust a))) else instance_of s j)"
proof -
  have "keeps pf_objects (case thrown of None \<Rightarrow> act_return () | Some e \<Rightarrow>
      act_bind (withdrawAccessoryTrust env uuid) (\<lambda>withdrawn. pf_log (LError (f withdrawn))))" for thrown :: "js_error option" and f
    by (auto intro!: keeps_objects_withdraw keeps_objects_log split: option.split)
  then have "instance_of (snd (snd (publishAccessoryTrust env uuid i d trust s))) j =
      instance_of (snd (snd (on_instance env i (\<lambda>hap. markMonitoring hap trust) s))) j"
    unfolding publishAccessoryTrust_def by (intro after_attempt)
  with on_instance_state [OF assms, of env "\<lambda>hap. markMonitoring hap trust" j] show ?thesis by simp
qed

lemma publish_returns: "returns (publishAccessoryTrust env uuid i d trust)"
  unfolding publishAccessoryTrust_def withdrawAccessoryTrust_def pf_log_def
  by (auto intro!: returns_attempt pass_returns split: option.split)

text \<open>One step of the loop over the instances.\<close>

definition pushed :: "platformEnv \<Rightarrow> monitoringTrust \<Rightarrow> (string, monitoringTrust) jsmap \<Rightarrow> string \<Rightarrow> nat \<Rightarrow> platform \<Rightarrow> platform" where
  "pushed env account byDevice uuid i s = (case instance_of s i of None \<Rightarrow> s
      | Some a \<Rightarrow> snd (snd (publishAccessoryTrust env uuid i (acc_deviceId a) (trust_of account byDevice (acc_deviceId a)) s)))"

lemma push_to_instances_step:
  "snd (push_to_instances env account byDevice ((uuid, i) # rest) s) =
    snd (push_to_instances env account byDevice rest (pushed env account byDevice uuid i s))"
proof (cases "instance_of s i")
  case None
  then show ?thesis by (simp add: act_then_def act_run act_bind_cases pushed_def act_defs)
next
  case (Some a)
  then have "fst (snd (publishAccessoryTrust env uuid i (acc_deviceId a) (trust_of account byDevice (acc_deviceId a)) s)) = Inr ()"
    using publish_returns unfolding returns_def by (metis old.unit.exhaust)
  with Some show ?thesis by (simp add: act_then_def act_bind_cases pushed_def act_get_def)
qed

lemma pushed_answers:
  "answered_by account byDevice i (pushed env account byDevice uuid i s)"
  "answered_by account byDevice j s \<Longrightarrow> answered_by account byDevice j (pushed env account byDevice uuid i s)"
proof -
  have step: "answered_by account byDevice j (pushed env account byDevice uuid i s)"
    if "answered_by account byDevice j s \<or> j = i" for j
  proof (cases "instance_of s i")
    case None
    with that show ?thesis by (auto simp: pushed_def answered_by_def)
  next
    case (Some a)
    obtain hap where after: "instance_of (pushed env account byDevice uuid i s) j =
        (if j = i then Some (snd (snd (markMonitoring hap (trust_of account byDevice (acc_deviceId a)) a))) else instance_of s j)"
      using publish_state [OF Some, of env uuid "acc_deviceId a" "trust_of account byDevice (acc_deviceId a)" j]
      unfolding pushed_def Some option.case by blast
    have "acc_deviceId (snd (snd (markMonitoring hap (trust_of account byDevice (acc_deviceId a)) a))) = acc_deviceId a"
      by (rule keepsD [OF marked_identity])
    with after that show ?thesis by (cases "j = i") (simp_all add: answered_by_def marked_trust)
  qed
  show "answered_by account byDevice i (pushed env account byDevice uuid i s)"
    "answered_by account byDevice j s \<Longrightarrow> answered_by account byDevice j (pushed env account byDevice uuid i s)"
    using step by blast+
qed

lemma push_keeps_answers:
  "answered_by account byDevice j s \<Longrightarrow> answered_by account byDevice j (snd (snd (push_to_instances env account byDevice xs s)))"
proof (induction xs arbitrary: s)
  case (Cons x xs)
  then show ?case using pushed_answers(2) [OF Cons.prems] by (cases x) (simp add: push_to_instances_step del: push_to_instances.simps(2))
qed (simp add: act_return_def)

lemma push_answers:
  "(u, i) \<in> set xs \<Longrightarrow> answered_by account byDevice i (snd (snd (push_to_instances env account byDevice xs s)))"
proof (induction xs arbitrary: s)
  case (Cons x xs)
  then show ?case
    by (cases x) (auto simp: push_to_instances_step simp del: push_to_instances.simps(2) intro: push_keeps_answers pushed_answers(1))
qed simp

lemma push_returns: "returns (push_to_instances env account byDevice xs)"
proof (induction xs)
  case (Cons x xs)
  then show ?case by (cases x) (auto intro!: publish_returns split: option.split)
qed simp

lemma mark_unreadable_calm: "returns (mark_unreadable env xs)" "keeps pf_objects (mark_unreadable env xs)"
  by (induction env xs rule: mark_unreadable.induct)
    (auto intro!: pass_returns keeps_objects_pass keeps_objects_log simp: pf_log_def)

lemma health_run:
  "fst (snd (applyMonitoringHealth env account byDevice s)) = Inr ()"
  "(uuid, i) \<in> set (pf_instances s) \<Longrightarrow> answered_by account byDevice i (snd (snd (applyMonitoringHealth env account byDevice s)))"
proof -
  define s1 where "s1 = snd (snd (push_to_instances env account byDevice (pf_instances s) s))"
  define tail where "tail = (if \<not> mt_credentialsRejected account then act_return ()
     else act_bind (act_get (\<lambda>s. map snd (pf_accessories s))) (\<lambda>objects.
       act_bind (mark_unreadable env objects) (\<lambda>marked.
       if objects \<noteq> [] \<and> marked = 0 then pf_log (LError NOTHING_MARKED) else act_return ())))"
  have run: "applyMonitoringHealth env account byDevice s = act_then (push_to_instances env account byDevice (pf_instances s)) tail s"
    by (simp add: applyMonitoringHealth_def act_run tail_def)
  have calm: "returns tail" "keeps pf_objects tail"
    unfolding tail_def pf_log_def by (auto intro!: mark_unreadable_calm)
  have "returns (act_then (push_to_instances env account byDevice (pf_instances s)) tail)"
    using push_returns calm(1) by (rule returns_then)
  then show "fst (snd (applyMonitoringHealth env account byDevice s)) = Inr ()"
    unfolding run returns_def by (metis old.unit.exhaust)
  have "fst (snd (push_to_instances env account byDevice (pf_instances s) s)) = Inr ()"
    using push_returns unfolding returns_def by (metis old.unit.exhaust)
  then have "pf_objects (snd (snd (applyMonitoringHealth env account byDevice s))) = pf_objects s1"
    unfolding run s1_def act_then_def act_bind_cases using keepsD [OF calm(2)] by simp
  then have "answered_by account byDevice i (snd (snd (applyMonitoringHealth env account byDevice s)))
      \<longleftrightarrow> answered_by account byDevice i s1" for i
    by (simp add: answered_by_def instance_of_def)
  then show "(uuid, i) \<in> set (pf_instances s) \<Longrightarrow>
      answered_by account byDevice i (snd (snd (applyMonitoringHealth env account byDevice s)))"
    using push_answers unfolding s1_def by blast
qed

lemmas health_answers = health_run(2)

text \<open>
  The account's trust reaches every accessory. Whatever HAP answers and whichever call throws, the push returns and
  leaves every published instance with the answer for its own device; one that the push does not name has the
  account's facts and a live path that is not vouched for. No accessory's failure keeps the answer from another.
\<close>

theorem trust_reaches_every_accessory:
  "fst (snd (applyMonitoringHealth env account byDevice s)) = Inr ()
   \<and> list_all (\<lambda>(uuid, i). answered_by account byDevice i (snd (snd (applyMonitoringHealth env account byDevice s)))) (pf_instances s)"
  using health_run by (fastforce simp: list_all_iff)

section \<open>Names and writes\<close>

definition naming :: "nat \<Rightarrow> platform \<Rightarrow> (string \<times> string option \<times> json option) option" where
  "naming i s = map_option (\<lambda>p. (pl_displayName p, pl_lastVendorName p, pl_device p)) (jm_get (pf_objects s) i)"

lemma naming_updates [simp]:
  "naming i (s\<lparr>pf_instances := x\<rparr>) = naming i s" "naming i (s\<lparr>pf_store := st\<rparr>) = naming i s"
  "naming i (s\<lparr>pf_pending := ps\<rparr>) = naming i s" "naming i (subscribeToLiveState j d s) = naming i s"
  "naming i (set_object j (\<lambda>p. p\<lparr>pl_instance := a\<rparr>) s) = naming i s"
  "naming i (set_object j (\<lambda>p. p\<lparr>pl_instance := a, pl_services := v\<rparr>) s) = naming i s"
  by (auto simp: naming_def set_object_def subscribeToLiveState_def split: option.split)

lemma naming_on_instance: "keeps (naming i) (on_instance env j m)"
  by (auto simp: keeps_def on_instance_def Let_def split: option.split prod.split)

lemma naming_for: "keeps (naming i) (basementGuardianAccessoryFor env uuid j d)"
proof -
  have "keeps (naming i) (createBasementGuardianAccessoryFor env j)"
    by (auto simp: keeps_def createBasementGuardianAccessoryFor_def split: option.split sum.split)
  then show ?thesis unfolding basementGuardianAccessoryFor_def by auto
qed

lemma naming_settle: "keeps (naming i) (settle_persistence env j changed)"
  unfolding settle_persistence_def by auto

text \<open>
  A name the owner chose stays. When an inventory reports an accessory, its display name becomes the vendor's name exactly
  if it still is the vendor name last adopted, and stays as it is otherwise; the vendor's name and the identity
  are recorded either way, also when the rest of the update or the write throws.
\<close>

theorem custom_names_survive:
  assumes "jm_get (pf_objects s) i = Some p"
  shows "naming i (snd (snd (updateDiscoveredDevice env uuid i p snapshot s))) = Some
    (if pl_lastVendorName p = Some (pl_displayName p) then di_name (ds_identity snapshot) else pl_displayName p,
     Some (di_name (ds_identity snapshot)),
     Some (device_context (di_deviceId (ds_identity snapshot)) (di_deviceTypeId (ds_identity snapshot))))"
  unfolding updateDiscoveredDevice_def resolveVendorName_def Let_def prod.case act_run(5)
proof (rule trans [OF keepsD])
  show "naming i (set_object i (\<lambda>q. q\<lparr>pl_displayName := if pl_lastVendorName p = Some (pl_displayName p)
        then di_name (ds_identity snapshot) else pl_displayName p, pl_lastVendorName := Some (di_name (ds_identity snapshot)),
        pl_device := Some (device_context (di_deviceId (ds_identity snapshot)) (di_deviceTypeId (ds_identity snapshot)))\<rparr>) s) =
      Some (if pl_lastVendorName p = Some (pl_displayName p) then di_name (ds_identity snapshot) else pl_displayName p,
        Some (di_name (ds_identity snapshot)),
        Some (device_context (di_deviceId (ds_identity snapshot)) (di_deviceTypeId (ds_identity snapshot))))"
    using assms by (simp add: naming_def set_object_def)
qed (auto intro!: naming_on_instance naming_for naming_settle split: option.split)

section \<open>What is owed to the cache\<close>

lemma settle_cases:
  "settle_persistence env i changed s =
    (if changed \<or> i \<in> set (pf_pending s)
     then let owed = (if changed \<and> i \<notin> set (pf_pending s) then s\<lparr>pf_pending := pf_pending s @ [i]\<rparr> else s)
       in ([WriteAsked i], case pe_updateThrows env i of Some e \<Rightarrow> Inl e | None \<Rightarrow> Inr (),
           case pe_updateThrows env i of Some e \<Rightarrow> owed
           | None \<Rightarrow> owed\<lparr>pf_pending := filter (\<lambda>j. j \<noteq> i) (pf_pending owed)\<rparr>)
     else ([], Inr (), s))"
  by (auto simp: settle_persistence_def act_run act_then_def act_bind_cases act_defs Let_def split: option.split)

lemma on_instance_pending:
  assumes "on_instance env j m s = (outs, r, s')"
  shows "WriteAsked i \<notin> set outs"
    and "i \<in> set (pf_pending s) \<Longrightarrow> i \<in> set (pf_pending s') \<or> i = j \<and> OnAccessory j PersistAsked \<in> set outs"
    and "i \<in> set (pf_pending s') \<Longrightarrow> i \<in> set (pf_pending s)"
proof -
  have same: "pf_pending (set_object j f s) = pf_pending s" for f by (simp add: set_object_def split: option.split)
  show "WriteAsked i \<notin> set outs"
    "i \<in> set (pf_pending s) \<Longrightarrow> i \<in> set (pf_pending s') \<or> i = j \<and> OnAccessory j PersistAsked \<in> set outs"
    "i \<in> set (pf_pending s') \<Longrightarrow> i \<in> set (pf_pending s)"
    using assms by (auto simp: on_instance_def Let_def same split: option.splits prod.splits if_splits)
qed

lemma attempt_then:
  assumes "m s1 = (outs1, r1, s2)" and "k (case r1 of Inl e \<Rightarrow> Some e | Inr x \<Rightarrow> None) s2 = (outs2, r2, s3)"
  shows "act_bind (act_attempt m) k s1 = (outs1 @ outs2, r2, s3)"
  using assms by (simp add: act_bind_cases act_attempt_cases)

lemma bind_found: "m s = ([], Inr x, s) \<Longrightarrow> act_bind m k s = k x s"
  by (simp add: act_bind_def)

text \<open>
  What Homebridge persists of an accessory: the display name, the vendor name and the identity of its
  context, and the services its instance publishes.
\<close>

definition published_services :: "string \<Rightarrow> platform \<Rightarrow> serviceDescriptor list" where
  "published_services uuid s = (case jm_get (pf_instances s) uuid of None \<Rightarrow> [] | Some j \<Rightarrow> services_of s j)"

definition persisted_differs :: "string \<Rightarrow> nat \<Rightarrow> platform \<Rightarrow> platform \<Rightarrow> bool" where
  "persisted_differs uuid i s s' = (case (jm_get (pf_objects s) i, jm_get (pf_objects s') i) of
      (Some p, Some p') \<Rightarrow>
        pl_displayName p \<noteq> pl_displayName p' \<or> pl_lastVendorName p \<noteq> pl_lastVendorName p'
        \<or> \<not> isSameValue (pl_device p) (pl_device p') \<or> published_services uuid s \<noteq> published_services uuid s'
    | _ \<Rightarrow> False)"

lemma context_identified: "deviceIdOf (map_option (\<lambda>d. JObj [(''device'', d)]) (Some (device_context d t))) = Inr d"
  by (simp add: deviceIdOf_def isDeviceContext_def isRecord_def prop_of_def device_context_def is_str_def jm_get_def)

lemma whole_threshold: "1 \<le> m \<Longrightarrow> \<exists>k. offlineThresholdOf (Some (Fin (of_nat m))) = Inr k"
  by (simp add: offlineThresholdOf_def num_isInteger_def num_lt_def)

text \<open>The instance of a refreshed accessory is there, or it is created with nothing published.\<close>

lemma instance_found:
  assumes "jm_get (pf_objects s) i = Some p" and "pl_device p = Some (device_context d t)"
    and "pe_offlineConfirmationPollCount env = Fin (of_nat m)" and "1 \<le> m"
  obtains logs j s2 where "basementGuardianAccessoryFor env uuid i d' s = (map PfLog logs, Inr j, s2)"
    "pf_pending s2 = pf_pending s" "naming i s2 = naming i s" "jm_get (pf_instances s2) uuid = Some j"
    "services_of s2 j = published_services uuid s"
proof (cases "jm_get (pf_instances s) uuid")
  case (Some j)
  then have "basementGuardianAccessoryFor env uuid i d' s = (map PfLog [], Inr j, s)"
    by (simp add: basementGuardianAccessoryFor_def act_run) (simp add: act_return_def)
  then show ?thesis using Some by (intro that) (simp_all add: published_services_def)
next
  case None
  obtain k where k: "offlineThresholdOf (Some (pe_offlineConfirmationPollCount env)) = Inr k"
    using whole_threshold [OF assms(4)] assms(3) by auto
  obtain logs a where made: "createBasementGuardianAccessory (map_option (\<lambda>d. JObj [(''device'', d)]) (pl_device p))
      (Some (pe_ignoredFaults env)) (Some (pe_offlineConfirmationPollCount env)) (pl_stored p) (pl_services p) = Inr (logs, a)"
    "acc_published a = []"
    unfolding createBasementGuardianAccessory_def assms(2) context_identified k by (simp add: split_beta)
  define s1 where "s1 = set_object i (\<lambda>p. p\<lparr>pl_instance := Some a\<rparr>) s"
  have created: "createBasementGuardianAccessoryFor env i s = (map PfLog logs, Inr (), s1)"
    using assms(1) made by (simp add: createBasementGuardianAccessoryFor_def s1_def)
  define s2 where "s2 = subscribeToLiveState i d' (s1\<lparr>pf_instances := jm_set uuid i (pf_instances s1)\<rparr>)"
  have "basementGuardianAccessoryFor env uuid i d' s = (map PfLog logs, Inr i, s2)"
    using None created
    by (simp add: basementGuardianAccessoryFor_def act_run act_then_def act_bind_cases)
      (simp add: act_defs act_bind_cases s2_def)
  moreover have "pf_pending s2 = pf_pending s" "naming i s2 = naming i s" "jm_get (pf_instances s2) uuid = Some i"
    by (simp_all add: s2_def s1_def) (simp_all add: subscribeToLiveState_def set_object_def split: option.split)
  moreover have "services_of s2 i = published_services uuid s"
    using assms(1) made(2) None
    by (simp add: services_of_def instance_of_def subscribeToLiveState_def s2_def s1_def set_object_def
        published_services_def)
  ultimately show ?thesis by (rule that)
qed

lemma keeps_instances: "keeps pf_instances (on_instance env j m)" "keeps pf_instances (settle_persistence env i changed)"
proof -
  show "keeps pf_instances (on_instance env j m)"
    by (auto simp: keeps_def on_instance_def set_object_def Let_def split: option.split prod.split)
  show "keeps pf_instances (settle_persistence env i changed)" unfolding settle_persistence_def by auto
qed

lemma settle_services: "services_of (snd (snd (settle_persistence env i changed s))) j = services_of s j"
  by (auto simp: settle_cases services_of_def instance_of_def Let_def split: option.split)

lemma update_parts:
  assumes "jm_get (pf_objects s) i = Some p"
    and "pe_offlineConfirmationPollCount env = Fin (of_nat m)" and "1 \<le> m"
    and "updateDiscoveredDevice env uuid i p snapshot s = (outs, r, s')"
  obtains logs j act s1 outs1 r1 s2 outs2 r2 where
    "on_instance env j act s1 = (outs1, r1, s2)" "pf_pending s1 = pf_pending s"
    "settle_persistence env i (persisted_differs uuid i s s') s2 = (outs2, r2, s')"
    "outs = map PfLog logs @ outs1 @ outs2"
proof -
  obtain displayName lastVendorName where names: "resolveVendorName p (di_name (ds_identity snapshot)) = (displayName, lastVendorName)"
    by fastforce
  let ?dev = "device_context (di_deviceId (ds_identity snapshot)) (di_deviceTypeId (ds_identity snapshot))"
  let ?name = "\<lambda>p. p\<lparr>pl_displayName := displayName, pl_lastVendorName := Some lastVendorName, pl_device := Some ?dev\<rparr>"
  define s0 where "s0 = set_object i ?name s"
  have s0: "jm_get (pf_objects s0) i = Some (?name p)" "pf_pending s0 = pf_pending s"
    "published_services uuid s0 = published_services uuid s"
    using assms(1)
    by (auto simp: s0_def set_object_def published_services_def services_of_def instance_of_def split: option.split)
  have named: "pl_device (?name p) = Some ?dev" by simp
  obtain logs j s1 where found: "basementGuardianAccessoryFor env uuid i (di_deviceId (ds_identity snapshot)) s0 = (map PfLog logs, Inr j, s1)"
    "pf_pending s1 = pf_pending s" "naming i s1 = naming i s0" "jm_get (pf_instances s1) uuid = Some j"
    "services_of s1 j = published_services uuid s"
    by (rule instance_found [OF s0(1) named assms(2,3), of uuid "di_deviceId (ds_identity snapshot)"])
      (simp add: s0(2,3) that)
  define act where "act = (\<lambda>hap. update (pf_registry s1) hap snapshot Poll)"
  obtain outs1 r1 s2 where first: "on_instance env j act s1 = (outs1, r1, s2)" using prod_cases3 by blast
  define changed where "changed = (\<not> (pl_displayName p = displayName \<and> pl_lastVendorName p = Some lastVendorName
     \<and> isSameValue (pl_device p) (Some ?dev) \<and> services_of s1 j = services_of s2 j))"
  obtain outs2 r2 s3 where second: "settle_persistence env i changed s2 = (outs2, r2, s3)" using prod_cases3 by blast
  have "\<exists>r. act_then (settle_persistence env i changed) (case x of Some e \<Rightarrow> act_throw e | None \<Rightarrow> act_return ()) s2 = (outs2, r, s3)" for x
    using second by (cases r2; cases x) (simp_all add: act_then_def act_bind_cases act_defs)
  then obtain r' where tail: "act_then (settle_persistence env i changed)
      (case (case r1 of Inl e \<Rightarrow> Some e | Inr x \<Rightarrow> None) of Some e \<Rightarrow> act_throw e | None \<Rightarrow> act_return ()) s2 = (outs2, r', s3)" by blast
  have "act_bind (act_attempt (on_instance env j act)) (\<lambda>thrown. act_bind (act_get (\<lambda>s. services_of s j)) (\<lambda>next.
      act_then (settle_persistence env i (\<not> (pl_displayName p = displayName \<and> pl_lastVendorName p = Some lastVendorName
        \<and> isSameValue (pl_device p) (Some ?dev) \<and> services_of s1 j = next)))
      (case thrown of Some e \<Rightarrow> act_throw e | None \<Rightarrow> act_return ()))) s1 = (outs1 @ outs2, r', s3)"
    by (rule attempt_then [where m = "on_instance env j act", OF first]) (simp only: act_run changed_def [symmetric] tail)
  then have "updateDiscoveredDevice env uuid i p snapshot s = (map PfLog logs @ outs1 @ outs2, r', s3)"
    unfolding updateDiscoveredDevice_def names Let_def prod.case act_run(5) s0_def [symmetric]
    unfolding act_bind_cases [of "basementGuardianAccessoryFor env uuid i (di_deviceId (ds_identity snapshot))"] found(1)
    by (simp only: fst_conv snd_conv sum.case act_run act_def)
  then have out: "outs = map PfLog logs @ outs1 @ outs2" "s3 = s'" using assms(4) by simp_all
  have "naming i s' = naming i s0"
    using keepsD [OF naming_settle, of i env i changed s2] keepsD [OF naming_on_instance, of i env j act s1]
      first second found(3) out(2) by simp
  moreover have "jm_get (pf_instances s') uuid = Some j"
    using keepsD [OF keeps_instances(2), of env i changed s2] keepsD [OF keeps_instances(1), of env j act s1]
      first second found(4) out(2) by simp
  moreover have "services_of s' j = services_of s2 j"
    using settle_services [of env i changed s2 j] second out(2) by simp
  ultimately have "persisted_differs uuid i s s' = changed"
    using assms(1) s0(1) found(5)
    by (auto simp: persisted_differs_def changed_def naming_def published_services_def split: option.splits)
  then have "settle_persistence env i (persisted_differs uuid i s s') s2 = (outs2, r2, s')"
    using second out(2) by simp
  from that [OF first found(2) this out(1)] show ?thesis .
qed

text \<open>
  C28. What was changed is written until a write succeeds. A refresh of an accessory, its first after a restart included,
  that changes anything Homebridge persists of it, the display name, the vendor name, the identity or the set of published
  services, owes Homebridge a write and asks for it, also when the update threw; without a change it asks only
  for a write owed from before; after the refresh a write is owed exactly if the one it asked for threw; and what was owed
  before is asked for again, unless the persist port of the same refresh was asked to write. The configured poll
  count is a whole number of at least one, as the validated configuration has it: the instance of a
  restored accessory is created from it.
\<close>

theorem write_owed_until_it_succeeds:
  assumes "jm_get (pf_objects s) i = Some p"
    and "pe_offlineConfirmationPollCount env = Fin (of_nat m)" and "1 \<le> m"
    and "updateDiscoveredDevice env uuid i p snapshot s = (outs, r, s')"
  shows "(persisted_differs uuid i s s' \<longrightarrow> WriteAsked i \<in> set outs)
   \<and> (WriteAsked i \<in> set outs \<longrightarrow> persisted_differs uuid i s s' \<or> i \<in> set (pf_pending s))
   \<and> (i \<in> set (pf_pending s') \<longleftrightarrow> WriteAsked i \<in> set outs \<and> pe_updateThrows env i \<noteq> None)
   \<and> (i \<in> set (pf_pending s) \<longrightarrow> WriteAsked i \<in> set outs \<or> OnAccessory i PersistAsked \<in> set outs)"
proof -
  obtain logs j act s1 outs1 r1 s2 outs2 r2 where parts:
    "on_instance env j act s1 = (outs1, r1, s2)" "pf_pending s1 = pf_pending s"
    "settle_persistence env i (persisted_differs uuid i s s') s2 = (outs2, r2, s')"
    "outs = map PfLog logs @ outs1 @ outs2"
    by (rule update_parts [OF assms], rule that)
  note pending = on_instance_pending [OF parts(1), of i]
  have settled: "WriteAsked i \<in> set outs2 \<longleftrightarrow> persisted_differs uuid i s s' \<or> i \<in> set (pf_pending s2)"
    "i \<in> set (pf_pending s') \<longleftrightarrow> (persisted_differs uuid i s s' \<or> i \<in> set (pf_pending s2)) \<and> pe_updateThrows env i \<noteq> None"
    using parts(3) by (auto simp: settle_cases Let_def split: if_splits option.splits)
  have asks: "WriteAsked i \<in> set outs \<longleftrightarrow> WriteAsked i \<in> set outs2"
    "OnAccessory i PersistAsked \<in> set outs1 \<Longrightarrow> OnAccessory i PersistAsked \<in> set outs"
    using pending(1) unfolding parts(4) by auto
  have before: "i \<in> set (pf_pending s2) \<Longrightarrow> i \<in> set (pf_pending s)"
    "i \<in> set (pf_pending s) \<Longrightarrow> i \<in> set (pf_pending s2) \<or> OnAccessory i PersistAsked \<in> set outs"
    using pending(2,3) asks(2) unfolding parts(2) by blast+
  show ?thesis unfolding asks(1) settled using before by blast
qed

section \<open>Every device gets its turn\<close>

text \<open>What a dispatch reads and never changes.\<close>

definition reference_data :: "platform \<Rightarrow> (string, deviceSnapshot) jsmap \<times> (string, deviceFamily) jsmap" where
  "reference_data s = (st_snapshots (pf_store s), fr_families (pf_registry s))"

lemma reference_updates [simp]:
  "reference_data (s\<lparr>pf_instances := x\<rparr>) = reference_data s" "reference_data (s\<lparr>pf_pending := ps\<rparr>) = reference_data s"
  "reference_data (s\<lparr>pf_objects := os, pf_nextObject := n\<rparr>) = reference_data s"
  "reference_data (s\<lparr>pf_uncertain := us\<rparr>) = reference_data s" "reference_data (s\<lparr>pf_accessories := as\<rparr>) = reference_data s"
  "reference_data (set_object i f s) = reference_data s" "reference_data (subscribeToLiveState i d s) = reference_data s"
  by (simp_all add: reference_data_def set_object_def subscribeToLiveState_def store_subscribe_def Let_def case_prod_beta
      split: option.split)

named_theorems keeps_reference \<open>handlers that leave the snapshots and the families alone\<close>

lemma keeps_reference_parts [keeps_reference]:
  "keeps reference_data (on_instance env i m)" "keeps reference_data (createBasementGuardianAccessoryFor env i)"
  "keeps reference_data (new_object p)" "keeps reference_data (pf_log l)"
  by (auto simp: keeps_def on_instance_def createBasementGuardianAccessoryFor_def new_object_def pf_log_def act_emit_def Let_def
      split: option.split sum.split prod.split)

lemma keeps_reference_register [keeps_reference]: "keeps reference_data (register_device env uuid d snapshot)"
  unfolding register_device_def ask_registration_def by (auto intro!: keeps_reference split: option.split)

lemma keeps_reference_update [keeps_reference]: "keeps reference_data (updateDiscoveredDevice env uuid i p snapshot)"
  unfolding updateDiscoveredDevice_def settle_persistence_def basementGuardianAccessoryFor_def Let_def
  by (auto intro!: keeps_reference split: option.split)

lemma keeps_reference_dispatch [keeps_reference]: "keeps reference_data (dispatchDiscoveredDevice env d)"
proof -
  have "reference_data (snd (snd (dispatchDiscoveredDevice env d s))) = reference_data s" for s
  proof (rule dispatch_elim)
    show "reference_data (snd (snd (updateDiscoveredDevice env (pe_uuid env d) i p snapshot s))) = reference_data s" for i p snapshot
      by (rule keepsD [OF keeps_reference_update])
    show "reference_data (snd (snd (register_device env (pe_uuid env d) d snapshot s))) = reference_data s" for snapshot
      by (rule keepsD [OF keeps_reference_register])
  qed (simp_all add: reference_data_def act_return_def)
  then show ?thesis by (simp add: keeps_def)
qed

lemma dispatch_holds: "held u s \<le> held u (snd (snd (dispatchDiscoveredDevice env d s)))"
proof -
  have "gone u (fst (dispatchDiscoveredDevice env d s)) = 0"
    using emitsD [OF emits_no_removal, of _ env d s u] by (auto simp: gone_def filter_empty_conv)
  with balanced_at [OF dispatch_balanced, of u env d s] show ?thesis by (simp add: balance_at_def)
qed

lemma held_stays: "held u s = 1 \<Longrightarrow> held u s \<le> held u s' \<Longrightarrow> held u s' = 1"
proof -
  have "held u s' \<le> 1" by (simp add: held_def)
  then show "held u s = 1 \<Longrightarrow> held u s \<le> held u s' \<Longrightarrow> held u s' = 1" by linarith
qed

definition ensures :: "('s \<Rightarrow> bool) \<Rightarrow> ('o, 's, 'a) handler \<Rightarrow> bool" where
  "ensures Q m = (\<forall>s x. fst (snd (m s)) = Inr x \<longrightarrow> Q (snd (snd (m s))))"

lemma ensures_bind: "(\<And>x. ensures Q (k x)) \<Longrightarrow> ensures Q (act_bind m k)"
  by (auto simp: ensures_def act_bind_cases split: sum.splits)

lemma registration_ensured: "ensures (\<lambda>s. held uuid s = 1) (register_device env uuid d snapshot)"
proof -
  have "ensures (\<lambda>s. held uuid s = 1) (ask_registration env uuid d i)" for i
    by (cases "pe_registerThrows env uuid")
      (auto simp: ensures_def ask_registration_def act_then_def act_bind_cases act_defs pf_log_def held_def subscribeToLiveState_def)
  then show ?thesis unfolding register_device_def act_then_def by (intro ensures_bind)
qed

lemma dispatch_decides:
  assumes "st_snapshot (pf_store s) d = Some snapshot"
    and "registry_lookup (pf_registry s) (di_deviceTypeId (ds_identity snapshot)) = Implemented f"
    and "fst (snd (dispatchDiscoveredDevice env d s)) = Inr x"
  shows "held (pe_uuid env d) (snd (snd (dispatchDiscoveredDevice env d s))) = 1"
proof (cases "held (pe_uuid env d) s = 1")
  case True
  then show ?thesis by (rule held_stays) (rule dispatch_holds)
next
  case False
  then have fresh: "jm_get (pf_accessories s) (pe_uuid env d) = None" "pe_uuid env d \<notin> set (pf_uncertain s)"
    unfolding held_def of_bool_eq_1_iff by blast+
  then have "dispatchDiscoveredDevice env d s = register_device env (pe_uuid env d) d snapshot s"
    using assms(1,2) by (simp add: dispatch_cases)
  with assms(3) registration_ensured show ?thesis unfolding ensures_def by metis
qed

definition skip_line :: "string \<Rightarrow> platformOutput" where
  "skip_line d = PfLog (LError (''Skipping '' @ d @ '' on this inventory; every other device still updates.''))"

lemma inventory_step:
  "registerDiscoveredDevices env (d # ids) s =
    (case dispatchDiscoveredDevice env d s of (outs, r, s1) \<Rightarrow>
      (case registerDiscoveredDevices env ids s1 of (outs', r', s2) \<Rightarrow>
        (outs @ (case r of Inl e \<Rightarrow> [skip_line d] | Inr x \<Rightarrow> []) @ outs', r', s2)))"
  by (simp add: act_bind_cases act_attempt_cases act_then_def case_prod_beta pf_log_def act_defs skip_line_def
      split: sum.split)

lemma inventory_holds: "held u s \<le> held u (snd (snd (registerDiscoveredDevices env ids s)))"
proof (induction ids arbitrary: s)
  case (Cons d ids)
  from dispatch_holds [of u s env d] Cons [of "snd (snd (dispatchDiscoveredDevice env d s))"]
  have "held u s \<le> held u (snd (snd (registerDiscoveredDevices env ids (snd (snd (dispatchDiscoveredDevice env d s))))))"
    by (rule le_trans)
  then show ?case by (simp only: inventory_step case_prod_beta fst_conv snd_conv)
qed (simp add: act_return_def)

lemma reference_lookups:
  assumes "reference_data s' = reference_data s"
  shows "st_snapshot (pf_store s') d = st_snapshot (pf_store s) d"
    and "(\<exists>f. registry_lookup (pf_registry s') t = Implemented f) \<longleftrightarrow> (\<exists>f. registry_lookup (pf_registry s) t = Implemented f)"
  using assms by (simp_all add: reference_data_def st_snapshot_def registry_lookup_def split: option.split)

text \<open>
  C29. Every device gets its turn. An inventory never throws; of each device it lists, one of an implemented family whose
  snapshot the store holds has an accessory afterwards, or a registration whose outcome is unknown, or its turn ended with an
  error that was logged under its name. What another device's turn threw makes no difference.
\<close>

theorem every_device_gets_its_turn:
  assumes "d \<in> set ids" and "st_snapshot (pf_store s) d = Some snapshot"
    and "registry_lookup (pf_registry s) (di_deviceTypeId (ds_identity snapshot)) = Implemented f"
  shows "fst (snd (registerDiscoveredDevices env ids s)) = Inr ()
   \<and> (jm_get (pf_accessories (snd (snd (registerDiscoveredDevices env ids s)))) (pe_uuid env d) \<noteq> None
      \<or> pe_uuid env d \<in> set (pf_uncertain (snd (snd (registerDiscoveredDevices env ids s))))
      \<or> skip_line d \<in> set (fst (registerDiscoveredDevices env ids s)))"
proof -
  have returned: "fst (snd (registerDiscoveredDevices env ids s)) = Inr ()" for ids s
    by (induction ids arbitrary: s)
      (simp_all add: inventory_step case_prod_beta act_return_def del: registerDiscoveredDevices.simps(2))
  have turn: "held (pe_uuid env d) (snd (snd (registerDiscoveredDevices env ids s))) = 1
      \<or> skip_line d \<in> set (fst (registerDiscoveredDevices env ids s))"
    if "d \<in> set ids" "st_snapshot (pf_store s) d = Some snapshot"
      "\<exists>f. registry_lookup (pf_registry s) (di_deviceTypeId (ds_identity snapshot)) = Implemented f" for ids s
    using that
  proof (induction ids arbitrary: s)
    case (Cons x ids)
    let ?s1 = "snd (snd (dispatchDiscoveredDevice env x s))"
    have ref: "reference_data ?s1 = reference_data s" by (rule keepsD [OF keeps_reference_dispatch])
    show ?case
    proof (cases "x = d")
      case False
      then show ?thesis using Cons.IH [of ?s1] Cons.prems reference_lookups [OF ref]
        by (auto simp: inventory_step case_prod_beta simp del: registerDiscoveredDevices.simps)
    next
      case True
      show ?thesis
      proof (cases "fst (snd (dispatchDiscoveredDevice env x s))")
        case (Inl e)
        then show ?thesis using True by (simp add: inventory_step case_prod_beta del: registerDiscoveredDevices.simps)
      next
        case (Inr y)
        then have "held (pe_uuid env d) ?s1 = 1" using dispatch_decides Cons.prems True by blast
        then have "held (pe_uuid env d) (snd (snd (registerDiscoveredDevices env ids ?s1))) = 1"
          by (rule held_stays) (rule inventory_holds)
        then show ?thesis by (simp add: inventory_step case_prod_beta del: registerDiscoveredDevices.simps)
      qed
    qed
  qed simp
  show ?thesis using returned turn [of ids s] assms unfolding held_def of_bool_eq_1_iff by blast
qed

section \<open>Removal\<close>

text \<open>
  A removal is all or nothing. Of a device with an accessory, a removal that Homebridge accepts drops the accessory, its
  instance and everything the store holds of it, the live listener included, and touches no other; one that throws
  changes nothing at all; and a device without an accessory is left alone.
\<close>

theorem removal_is_all_or_nothing:
  "(case removeDiscoveredDevice env deviceId s of (outs, r, s') \<Rightarrow>
     if jm_get (pf_accessories s) (pe_uuid env deviceId) = None then outs = [] \<and> r = Inr () \<and> s' = s
     else case pe_unregisterThrows env (pe_uuid env deviceId) of
       Some e \<Rightarrow> outs = [] \<and> r = Inl e \<and> s' = s
     | None \<Rightarrow> outs = [Unregistered (pe_uuid env deviceId)] \<and> r = Inr ()
         \<and> jm_get (pf_accessories s') = (jm_get (pf_accessories s))(pe_uuid env deviceId := None)
         \<and> jm_get (pf_instances s') = (jm_get (pf_instances s))(pe_uuid env deviceId := None)
         \<and> st_snapshot (pf_store s') = (st_snapshot (pf_store s))(deviceId := None)
         \<and> listeners_of (pf_store s') deviceId = []
         \<and> pf_objects s' = pf_objects s \<and> pf_uncertain s' = pf_uncertain s)"
  by (cases "jm_get (pf_accessories s) (pe_uuid env deviceId)"; cases "pe_unregisterThrows env (pe_uuid env deviceId)")
    (auto simp: removeDiscoveredDevice_def Let_def act_run act_bind_cases act_defs store_remove_def st_snapshot_def
      listeners_of_def fun_eq_iff)



section \<open>Witnesses\<close>

definition sample_env :: platformEnv where
  "sample_env = \<lparr>pe_uuid = (\<lambda>d. ''u-'' @ d), pe_hap = (\<lambda>i. quiet_hap), pe_pass = (\<lambda>i. demo_pass), pe_persistThrows = (\<lambda>i. None),
     pe_updateThrows = (\<lambda>i. Some (PlainError ''disk'')), pe_registerThrows = (\<lambda>u. None), pe_unregisterThrows = (\<lambda>u. None),
     pe_communicationFailure = -70402, pe_ignoredFaults = [], pe_offlineConfirmationPollCount = Fin 2\<rparr>"

definition renamed_snapshot :: deviceSnapshot where
  "renamed_snapshot = sample_snapshot\<lparr>ds_identity := (ds_identity sample_snapshot)\<lparr>di_name := ''New'', di_deviceTypeId := ''wayneWaterGemini''\<rparr>\<rparr>"

definition owned_accessory :: platformAccessory where
  "owned_accessory = \<lparr>pl_uuid = ''u-pump'', pl_displayName = ''Mine'', pl_device = None, pl_lastVendorName = Some ''Old'',
     pl_stored = \<lparr>px_primaryPump = None, px_backupPump = None, px_watermarks = None\<rparr>, pl_services = [],
     pl_instance = Some demo_accessory\<rparr>"

definition sample_platform :: platform where
  "sample_platform = createPlatform\<lparr>pf_accessories := [(''u-pump'', 0)], pf_instances := [(''u-pump'', 0)],
     pf_objects := [(0, owned_accessory)], pf_nextObject := 1,
     pf_store := createDeviceStateStore\<lparr>st_snapshots := [(''pump'', renamed_snapshot)]\<rparr>\<rparr>"

theorem custom_names_survive_witness:
  "map_option fst (naming 0 (snd (snd (updateDiscoveredDevice sample_env ''u-pump'' 0 owned_accessory renamed_snapshot sample_platform))))
    = Some ''Mine''"
proof -
  have "jm_get (pf_objects sample_platform) 0 = Some owned_accessory" by (simp add: sample_platform_def jm_get_def)
  from custom_names_survive [OF this] show ?thesis by (simp add: owned_accessory_def)
qed

text \<open>A restored accessory at its first refresh: there is no instance of it yet.\<close>

definition restored_platform :: platform where
  "restored_platform = sample_platform\<lparr>pf_instances := []\<rparr>"

theorem write_owed_until_it_succeeds_witness:
  "0 \<in> set (pf_pending (snd (snd (updateDiscoveredDevice sample_env ''u-pump'' 0 owned_accessory renamed_snapshot restored_platform))))"
proof -
  obtain outs r s' where run:
    "updateDiscoveredDevice sample_env ''u-pump'' 0 owned_accessory renamed_snapshot restored_platform = (outs, r, s')"
    using prod_cases3 by blast
  have here: "jm_get (pf_objects restored_platform) 0 = Some owned_accessory"
    by (simp add: restored_platform_def sample_platform_def jm_get_def)
  have count: "pe_offlineConfirmationPollCount sample_env = Fin (of_nat 2)" by (simp add: sample_env_def)
  note facts = write_owed_until_it_succeeds [OF here count _ run]
  have "naming 0 s' = Some (''Mine'', Some ''New'', Some (device_context ''d1'' ''wayneWaterGemini''))"
    using custom_names_survive [OF here, of sample_env "''u-pump''" renamed_snapshot] run
    by (simp add: owned_accessory_def renamed_snapshot_def sample_snapshot_def)
  then have "persisted_differs ''u-pump'' 0 restored_platform s'"
    using here by (auto simp: persisted_differs_def naming_def owned_accessory_def split: option.splits)
  then have "0 \<in> set (pf_pending s')" using facts by (simp add: sample_env_def)
  then show ?thesis unfolding run by simp
qed

text \<open>A restored accessory that is removed, and whose device comes back.\<close>

definition calm_env :: platformEnv where
  "calm_env = sample_env\<lparr>pe_updateThrows := (\<lambda>i. None)\<rparr>"

definition leaving_run :: "(platformEnv \<times> platformEvent) list" where
  "leaving_run = [(calm_env, RestoredAccessory (owned_accessory\<lparr>pl_uuid := ''u-d1''\<rparr>)), (calm_env, DeviceGone ''d1'')]"

definition back_platform :: platform where
  "back_platform = (let s = snd (platform_run leaving_run createPlatform)
     in s\<lparr>pf_store := store_step demo_env (OpDiscover 7 (demo_device\<lparr>ad_data := sample_data\<rparr>)) (pf_store s)\<rparr>)"

definition returning_run :: "(platformEnv \<times> platformEvent) list" where
  "returning_run = leaving_run @
    [(calm_env, StoreChanged demo_env (OpDiscover 7 (demo_device\<lparr>ad_data := sample_data\<rparr>))),
     (calm_env, InventoryReported [''d1''])]"

definition back_snapshot :: deviceSnapshot where
  "back_snapshot = sample_snapshot\<lparr>ds_deviceTimestamp := Some (Fin 5)\<rparr>"

definition fresh_accessory :: accessory where
  "fresh_accessory = snd (projr (createBasementGuardianAccessory
     (map_option (\<lambda>d. JObj [(''device'', d)]) (Some (device_context ''d1'' ''wayneWaterGemini''))) (Some []) (Some (Fin 2))
     \<lparr>px_primaryPump = None, px_backupPump = None, px_watermarks = None\<rparr> []))"

lemma leaving_history:
  "list_ex (\<lambda>h. h = Restored ''u-d1'') (history leaving_run createPlatform)"
  by code_simp

lemma back_facts:
  "st_snapshot (pf_store back_platform) ''d1'' = Some back_snapshot"
  "pf_accessories back_platform = []" "pf_uncertain back_platform = []" 
  by code_simp+

lemma back_reading: "decode back_snapshot = Inr sample_state" "validate back_snapshot = Valid"
  "di_deviceTypeId (ds_identity back_snapshot) = ''wayneWaterGemini''"
  by code_simp+

lemma fresh_projection:
  "\<not> isl (projectionInputOf (publishing_state quiet_hap Valid sample_state back_snapshot Poll fresh_accessory)
     (Some (domainObject sample_state))
     (control_pending (acc_controls (publishing_state quiet_hap Valid sample_state back_snapshot Poll fresh_accessory))))"
  by code_simp

lemma fresh_created:
  "createBasementGuardianAccessory
     (map_option (\<lambda>d. JObj [(''device'', d)]) (Some (device_context ''d1'' ''wayneWaterGemini''))) (Some []) (Some (Fin 2))
     \<lparr>px_primaryPump = None, px_backupPump = None, px_watermarks = None\<rparr> [] = Inr ([], fresh_accessory)"
  by code_simp

lemma back_registry: "pf_registry back_platform = createFamilyRegistry"
proof -
  have "keeps pf_registry (configureAccessory env p)" for env p
  proof -
    have "keeps pf_registry (new_object p)" "keeps pf_registry (pf_pass i pass)" for p i pass
      by (simp_all add: keeps_def new_object_def pf_pass_def split: option.split prod.split)
    then show ?thesis unfolding configureAccessory_def pf_log_def by auto
  qed
  moreover have "keeps pf_registry (removeDiscoveredDevice env d)" for env d
    unfolding removeDiscoveredDevice_def Let_def by (auto split: option.split)
  ultimately show ?thesis
    by (simp add: back_platform_def leaving_run_def Let_def case_prod_beta keepsD createPlatform_def)
qed

lemma back_update: "fst (snd (update createFamilyRegistry quiet_hap back_snapshot Poll fresh_accessory)) = Inr ()"
proof -
  have "fam_decode geminiFamily back_snapshot = Inr sample_state" "fam_validate geminiFamily back_snapshot = Valid"
    using back_reading by (simp_all add: geminiFamily_def)
  then have "fst (snd (update_resolved quiet_hap geminiFamily back_snapshot Poll fresh_accessory)) = Inr ()"
    using update_resolved_result [of quiet_hap geminiFamily back_snapshot sample_state Poll fresh_accessory]
      fresh_projection
    by (cases "projectionInputOf (publishing_state quiet_hap Valid sample_state back_snapshot Poll fresh_accessory)
        (Some (domainObject sample_state)) (control_pending (acc_controls
          (publishing_state quiet_hap Valid sample_state back_snapshot Poll fresh_accessory)))")
      (simp_all add: accepting_def quiet_hap_def)
  then show ?thesis using back_reading(3) by (simp add: update_def lookup_created)
qed

lemma back_asks: "RegisterAsked ''u-d1'' \<in> set (fst (registerDiscoveredDevices calm_env [''d1''] back_platform))"
proof -
  let ?p = "\<lparr>pl_uuid = ''u-d1'', pl_displayName = ''Pump'', pl_device = Some (device_context ''d1'' ''wayneWaterGemini''),
     pl_lastVendorName = Some ''Pump'', pl_stored = \<lparr>px_primaryPump = None, px_backupPump = None, px_watermarks = None\<rparr>,
     pl_services = [], pl_instance = None\<rparr>"
  define i where "i = pf_nextObject back_platform"
  define s1 where "s1 = back_platform\<lparr>pf_objects := jm_set i ?p (pf_objects back_platform), pf_nextObject := i + 1\<rparr>"
  define s2 where "s2 = set_object i (\<lambda>p. p\<lparr>pl_instance := Some fresh_accessory\<rparr>) s1"
  have names: "di_name (ds_identity back_snapshot) = ''Pump''" by (simp add: back_snapshot_def sample_snapshot_def)
  have env: "pe_uuid calm_env ''d1'' = ''u-d1''" "pe_ignoredFaults calm_env = []"
    "pe_offlineConfirmationPollCount calm_env = Fin 2" "pe_hap calm_env i = quiet_hap" "pe_persistThrows calm_env i = None"
    "pe_registerThrows calm_env u = None" for u
    by (simp_all add: calm_env_def sample_env_def)
  have "new_object ?p back_platform = ([], Inr i, s1)" by (simp add: new_object_def i_def s1_def)
  moreover have "createBasementGuardianAccessoryFor calm_env i s1 = ([], Inr (), s2)"
    using fresh_created by (simp add: createBasementGuardianAccessoryFor_def s1_def s2_def env)
  moreover have "fst (snd (on_instance calm_env i (\<lambda>hap. update (pf_registry s2) hap back_snapshot Poll) s2)) = Inr ()"
  proof -
    have "quiet_hap\<lparr>ha_persist := None\<rparr> = quiet_hap" by (simp add: quiet_hap_def)
    moreover have "instance_of s2 i = Some fresh_accessory" "pf_registry s2 = createFamilyRegistry"
      by (simp_all add: s2_def s1_def set_object_def instance_of_def back_registry)
    ultimately show ?thesis using back_update by (simp add: on_instance_def env Let_def case_prod_beta)
  qed
  ultimately have "RegisterAsked ''u-d1'' \<in> set (fst (register_device calm_env ''u-d1'' ''d1'' back_snapshot back_platform))"
    by (simp add: register_device_def names back_reading(3) act_bind_cases act_then_def act_get_def ask_registration_def act_emit_def)
  moreover have "dispatchDiscoveredDevice calm_env ''d1'' back_platform
      = register_device calm_env ''u-d1'' ''d1'' back_snapshot back_platform"
    using back_facts by (simp add: dispatch_fresh env back_registry back_reading(3) lookup_created jm_get_def)
  ultimately show ?thesis by (simp add: inventory_step case_prod_beta del: registerDiscoveredDevices.simps)
qed

theorem no_device_registered_twice_witness:
  "\<exists>before between later. history returning_run createPlatform
      = before @ Restored ''u-d1'' # between @ Did (RegisterAsked ''u-d1'') # later
    \<and> Did (Unregistered ''u-d1'') \<in> set between"
proof -
  have run: "history (es @ fs) s = history es s @ history fs (snd (platform_run es s))" for es fs s
    by (induction es arbitrary: s) (auto simp: case_prod_beta)
  define asks where "asks = fst (registerDiscoveredDevices calm_env [''d1''] back_platform)"
  have "history returning_run createPlatform = history leaving_run createPlatform @ map Did asks"
    unfolding returning_run_def run
    by (simp add: act_modify_def back_platform_def Let_def asks_def case_prod_beta del: registerDiscoveredDevices.simps)
  moreover obtain before middle where "history leaving_run createPlatform = before @ Restored ''u-d1'' # middle"
    using leaving_history by (auto simp: list_ex_iff dest: split_list)
  moreover obtain more later where "map Did asks = more @ Did (RegisterAsked ''u-d1'') # later"
    using back_asks unfolding asks_def by (metis image_eqI list.set_map split_list)
  ultimately have "history returning_run createPlatform
      = before @ Restored ''u-d1'' # (middle @ more) @ Did (RegisterAsked ''u-d1'') # later" by simp
  with no_device_registered_twice [OF this] show ?thesis by blast
qed

theorem every_device_gets_its_turn_witness:
  "fst (snd (registerDiscoveredDevices sample_env [''other'', ''pump''] sample_platform)) = Inr ()"
proof -
  have "st_snapshot (pf_store sample_platform) ''pump'' = Some renamed_snapshot"
    by (simp add: sample_platform_def st_snapshot_def jm_get_def)
  moreover have "registry_lookup (pf_registry sample_platform) (di_deviceTypeId (ds_identity renamed_snapshot)) = Implemented geminiFamily"
    by (simp add: sample_platform_def createPlatform_def renamed_snapshot_def lookup_created)
  ultimately show ?thesis using every_device_gets_its_turn [of "''pump''" "[''other'', ''pump'']"] by simp
qed

end
