(* ===== verification/CustomTypes.thy ===== *)
theory CustomTypes
  imports AccessoryProperties
begin

text \<open>
  The types the plugin adds to HomeKit: \<open>src/src/accessories/customCharacteristics.ts\<close> and
  \<open>customServices.ts\<close>. The factories are given the HAP namespace; its formats and permissions are
  constructors here, and a class is what its constructor hands to HAP.
\<close>

section \<open>Characteristics\<close>

datatype characteristicFormat = FormatBool | FormatUint8 | FormatUint32 | FormatString

datatype permission = PAIRED_READ | PAIRED_WRITE | NOTIFY

record characteristicDomain =
  dm_minValue :: "nat option"
  dm_maxValue :: "nat option"
  dm_minStep :: "nat option"
  dm_validValues :: "nat list option"

record characteristicDefinition =
  cd_displayName :: string
  cd_uuid :: string
  cd_format :: characteristicFormat
  cd_domain :: characteristicDomain

record characteristicClass =
  cc_displayName :: string
  cc_uuid :: string
  cc_format :: characteristicFormat
  cc_perms :: "permission list"
  cc_domain :: characteristicDomain

definition RAW_WATER_LEVEL_CODE_UUID :: string where
  "RAW_WATER_LEVEL_CODE_UUID = ''f5c6e2da-7a4f-46c0-b02e-b501e90877cf''"

definition PUMP_RUNNING_UUID :: string where
  "PUMP_RUNNING_UUID = ''5b3a4ee5-cb3f-4fd5-ab25-13c886fd0ad6''"

definition PUMP_FAULT_UUID :: string where
  "PUMP_FAULT_UUID = ''c4f90c81-f8a4-43b1-a12f-c3eba16f9bba''"

definition PUMP_FUSE_BLOWN_UUID :: string where
  "PUMP_FUSE_BLOWN_UUID = ''c33321c4-f8c8-4d85-ba22-16a2c282fec2''"

definition WATER_SENSOR_FAULT_REPORTED_UUID :: string where
  "WATER_SENSOR_FAULT_REPORTED_UUID = ''1d73fac4-3921-42e3-8d90-69065ab9c959''"

definition MAINS_POWER_PRESENT_UUID :: string where
  "MAINS_POWER_PRESENT_UUID = ''b014b110-41bb-4dec-a681-4a331455425e''"

definition BATTERY_CHARGING_UUID :: string where
  "BATTERY_CHARGING_UUID = ''bc8b71e7-bbce-4fd7-aa00-fcd451cb451f''"

definition BATTERY_VOLTAGE_LOW_UUID :: string where
  "BATTERY_VOLTAGE_LOW_UUID = ''8278fb37-28fc-4550-a684-73000dcecf53''"

definition BATTERY_HEALTH_CODE_UUID :: string where
  "BATTERY_HEALTH_CODE_UUID = ''89ff0a75-adab-4ec2-9254-446681dd5fa2''"

definition PROTECTION_HOURS_CODE_UUID :: string where
  "PROTECTION_HOURS_CODE_UUID = ''72432447-f7ae-4d5e-b551-7da3538267d0''"

definition CONTROLLER_LINK_PRESENT_UUID :: string where
  "CONTROLLER_LINK_PRESENT_UUID = ''39f9112e-cdad-41f5-9247-f5379b0d6c11''"

definition CONTROLLER_DATA_LAST_TRUSTED_AT_UUID :: string where
  "CONTROLLER_DATA_LAST_TRUSTED_AT_UUID = ''d4d0209b-1472-4a39-8d1b-1c48d94efc7f''"

definition OBSERVATION_STARTED_AT_UUID :: string where
  "OBSERVATION_STARTED_AT_UUID = ''f36376db-47a7-4c59-a76f-6bdc234d5634''"

definition OBSERVED_ACTIVATION_COUNT_UUID :: string where
  "OBSERVED_ACTIVATION_COUNT_UUID = ''88734156-8e55-4697-af69-68e9576d1352''"

definition LAST_OBSERVED_ACTIVATION_AT_UUID :: string where
  "LAST_OBSERVED_ACTIVATION_AT_UUID = ''39226a7e-0b92-4f41-b9a4-a602cdc8cca3''"

definition LAST_ACTIVATION_WAS_TEST_ACTIVITY_UUID :: string where
  "LAST_ACTIVATION_WAS_TEST_ACTIVITY_UUID = ''217042ab-ad7e-481b-8e7e-2510e9ad74d9''"

definition readOnlyPerms :: "permission list" where
  "readOnlyPerms = [PAIRED_READ, NOTIFY]"

definition no_domain :: characteristicDomain where
  "no_domain = \<lparr>dm_minValue = None, dm_maxValue = None, dm_minStep = None, dm_validValues = None\<rparr>"

definition define_characteristic :: "characteristicDefinition \<Rightarrow> characteristicClass" where
  "define_characteristic c = \<lparr>cc_displayName = cd_displayName c, cc_uuid = cd_uuid c, cc_format = cd_format c,
     cc_perms = readOnlyPerms, cc_domain = cd_domain c\<rparr>"

definition plain :: "string \<Rightarrow> string \<Rightarrow> characteristicFormat \<Rightarrow> characteristicClass" where
  "plain displayName uuid format = define_characteristic
    \<lparr>cd_displayName = displayName, cd_uuid = uuid, cd_format = format, cd_domain = no_domain\<rparr>"

definition coded :: "string \<Rightarrow> string \<Rightarrow> characteristicDomain \<Rightarrow> characteristicClass" where
  "coded displayName uuid domain = define_characteristic
    \<lparr>cd_displayName = displayName, cd_uuid = uuid, cd_format = FormatUint8, cd_domain = domain\<rparr>"

definition createCustomCharacteristics :: "(Characteristic, characteristicClass) jsmap" where
  "createCustomCharacteristics =
    [(RawWaterLevelCode, coded ''Raw Water Level Code'' RAW_WATER_LEVEL_CODE_UUID \<lparr>dm_minValue = Some 0, dm_maxValue = Some 31,
        dm_minStep = Some 1, dm_validValues = Some [0, 1, 3, 7, 15, 31]\<rparr>),
     (PumpRunning, plain ''Pump Running'' PUMP_RUNNING_UUID FormatBool),
     (PumpFault, plain ''Pump Fault'' PUMP_FAULT_UUID FormatBool),
     (PumpFuseBlown, plain ''Pump Fuse Blown'' PUMP_FUSE_BLOWN_UUID FormatBool),
     (WaterSensorFaultReported, plain ''Water Sensor Fault Reported'' WATER_SENSOR_FAULT_REPORTED_UUID FormatBool),
     (MainsPowerPresent, plain ''Mains Power Present'' MAINS_POWER_PRESENT_UUID FormatBool),
     (BatteryCharging, plain ''Battery Charging'' BATTERY_CHARGING_UUID FormatBool),
     (BatteryVoltageLow, plain ''Battery Voltage Low'' BATTERY_VOLTAGE_LOW_UUID FormatBool),
     (BatteryHealthCode, coded ''Battery Health Code'' BATTERY_HEALTH_CODE_UUID \<lparr>dm_minValue = None, dm_maxValue = None,
        dm_minStep = None, dm_validValues = Some [1, 2, 4, 8, 16, 32]\<rparr>),
     (ProtectionHoursCode, coded ''Protection Hours Code'' PROTECTION_HOURS_CODE_UUID \<lparr>dm_minValue = None, dm_maxValue = None,
        dm_minStep = None, dm_validValues = Some [1, 2, 4, 8]\<rparr>),
     (ControllerLinkPresent, plain ''Controller Link Present'' CONTROLLER_LINK_PRESENT_UUID FormatBool),
     (ControllerDataLastTrustedAt, plain ''Controller Data Last Trusted At'' CONTROLLER_DATA_LAST_TRUSTED_AT_UUID FormatString),
     (ObservationStartedAt, plain ''Observation Start'' OBSERVATION_STARTED_AT_UUID FormatString),
     (ObservedActivationCount, plain ''Activations Observed Since Observation Start'' OBSERVED_ACTIVATION_COUNT_UUID FormatUint32),
     (LastObservedActivationAt, plain ''Last Observed Activation At'' LAST_OBSERVED_ACTIVATION_AT_UUID FormatString),
     (LastActivationWasTestActivity, plain ''Last Activation Was Self-Test'' LAST_ACTIVATION_WAS_TEST_ACTIVITY_UUID FormatBool)]"

section \<open>Services\<close>

text \<open>\<open>ConfiguredName\<close> is the one declared characteristic no catalogue row projects.\<close>

datatype declaredType = Projected Characteristic | ConfiguredName

record serviceDefinition =
  sv_uuid :: string
  sv_required :: "declaredType list"
  sv_optional :: "declaredType list"

definition SUMP_PIT_SERVICE_UUID :: string where
  "SUMP_PIT_SERVICE_UUID = ''ed31d704-44c8-4f20-9de0-6f29b33ef607''"

definition PUMP_SERVICE_UUID :: string where
  "PUMP_SERVICE_UUID = ''523f059e-deaa-4674-bbb2-980f9f7da7ec''"

definition SUMP_MAINS_POWER_SERVICE_UUID :: string where
  "SUMP_MAINS_POWER_SERVICE_UUID = ''fbb41424-0697-4ebe-ba89-7ba8ea254623''"

definition BACKUP_BATTERY_SERVICE_UUID :: string where
  "BACKUP_BATTERY_SERVICE_UUID = ''eb139c1e-aa1d-4318-bee9-60a338d99686''"

definition sharedCharacteristics :: "declaredType list" where
  "sharedCharacteristics = [Projected StatusActive, Projected StatusFault, ConfiguredName]"

text \<open>The class of a definition constructs its required characteristics and declares the rest optional.\<close>

definition define_service :: "string \<Rightarrow> Characteristic list \<Rightarrow> Characteristic list \<Rightarrow> serviceDefinition" where
  "define_service uuid required optional = \<lparr>sv_uuid = uuid, sv_required = map Projected required,
     sv_optional = map Projected optional @ sharedCharacteristics\<rparr>"

definition createCustomServices :: "(ServiceClass, serviceDefinition) jsmap" where
  "createCustomServices =
    [(SumpPitService, define_service SUMP_PIT_SERVICE_UUID [WaterLevel, RawWaterLevelCode] [WaterSensorFaultReported]),
     (PumpService, define_service PUMP_SERVICE_UUID [PumpRunning] [PumpFault, PumpFuseBlown, ObservationStartedAt,
        ObservedActivationCount, LastObservedActivationAt, LastActivationWasTestActivity]),
     (SumpMainsPowerService, define_service SUMP_MAINS_POWER_SERVICE_UUID [MainsPowerPresent] []),
     (BackupBatteryService, define_service BACKUP_BATTERY_SERVICE_UUID
        [BatteryCharging, BatteryVoltageLow, BatteryHealthCode, ProtectionHoursCode] [])]"

section \<open>Identities\<close>

text \<open>The form of a random UUID, version 4 of RFC 4122, and the base every type of Apple's ends with.\<close>

definition hex_digit :: "char \<Rightarrow> bool" where
  "hex_digit c = (c \<in> set ''0123456789abcdef'')"

definition is_random_uuid :: "string \<Rightarrow> bool" where
  "is_random_uuid u = (length u = 36
    \<and> list_all (\<lambda>i. if i \<in> set [8, 13, 18, 23] then u ! i = CHR ''-'' else hex_digit (u ! i)) [0..<36]
    \<and> u ! 14 = CHR ''4'' \<and> u ! 19 \<in> set ''89ab'')"

definition APPLE_BASE :: string where
  "APPLE_BASE = ''-0000-1000-8000-0026bb765291''"

definition declared_uuids :: "string list" where
  "declared_uuids = map (cc_uuid \<circ> snd) createCustomCharacteristics @ map (sv_uuid \<circ> snd) createCustomServices"

lemmas uuid_defs = RAW_WATER_LEVEL_CODE_UUID_def PUMP_RUNNING_UUID_def PUMP_FAULT_UUID_def PUMP_FUSE_BLOWN_UUID_def WATER_SENSOR_FAULT_REPORTED_UUID_def MAINS_POWER_PRESENT_UUID_def BATTERY_CHARGING_UUID_def BATTERY_VOLTAGE_LOW_UUID_def BATTERY_HEALTH_CODE_UUID_def PROTECTION_HOURS_CODE_UUID_def CONTROLLER_LINK_PRESENT_UUID_def CONTROLLER_DATA_LAST_TRUSTED_AT_UUID_def OBSERVATION_STARTED_AT_UUID_def OBSERVED_ACTIVATION_COUNT_UUID_def LAST_OBSERVED_ACTIVATION_AT_UUID_def LAST_ACTIVATION_WAS_TEST_ACTIVITY_UUID_def SUMP_PIT_SERVICE_UUID_def PUMP_SERVICE_UUID_def SUMP_MAINS_POWER_SERVICE_UUID_def BACKUP_BATTERY_SERVICE_UUID_def

lemmas characteristic_defs = createCustomCharacteristics_def plain_def coded_def define_characteristic_def no_domain_def

lemmas service_defs = createCustomServices_def define_service_def sharedCharacteristics_def

lemma declared_uuids_value: "declared_uuids = [RAW_WATER_LEVEL_CODE_UUID, PUMP_RUNNING_UUID, PUMP_FAULT_UUID, PUMP_FUSE_BLOWN_UUID, WATER_SENSOR_FAULT_REPORTED_UUID, MAINS_POWER_PRESENT_UUID, BATTERY_CHARGING_UUID, BATTERY_VOLTAGE_LOW_UUID, BATTERY_HEALTH_CODE_UUID, PROTECTION_HOURS_CODE_UUID, CONTROLLER_LINK_PRESENT_UUID, CONTROLLER_DATA_LAST_TRUSTED_AT_UUID, OBSERVATION_STARTED_AT_UUID, OBSERVED_ACTIVATION_COUNT_UUID, LAST_OBSERVED_ACTIVATION_AT_UUID, LAST_ACTIVATION_WAS_TEST_ACTIVITY_UUID, SUMP_PIT_SERVICE_UUID, PUMP_SERVICE_UUID, SUMP_MAINS_POWER_SERVICE_UUID, BACKUP_BATTERY_SERVICE_UUID]"
  by (simp add: declared_uuids_def characteristic_defs service_defs)

text \<open>
  Every type the plugin publishes has an identity of its own for good: the sixteen characteristics and four services
  have pairwise different UUIDs, each a well-formed random one outside Apple's base, and no characteristic grants a
  controller the permission to write.
\<close>

theorem published_types_are_distinct_and_read_only:
  "distinct declared_uuids \<and> list_all is_random_uuid declared_uuids
    \<and> list_all (\<lambda>u. drop 8 u \<noteq> APPLE_BASE) declared_uuids
    \<and> list_all (\<lambda>(c, cls). PAIRED_WRITE \<notin> set (cc_perms cls)) createCustomCharacteristics"
proof (intro conjI)
  show "distinct declared_uuids" unfolding declared_uuids_value uuid_defs by code_simp
  show "list_all is_random_uuid declared_uuids" unfolding declared_uuids_value uuid_defs by code_simp
  show "list_all (\<lambda>u. drop 8 u \<noteq> APPLE_BASE) declared_uuids"
    unfolding declared_uuids_value uuid_defs APPLE_BASE_def by code_simp
qed (simp add: characteristic_defs readOnlyPerms_def)

section \<open>Values in their domains\<close>

text \<open>
  What HAP takes for a characteristic without changing it: a whole number within the format and within the
  declared bounds and values, a string of at most 64 characters. Minus zero is zero there.
\<close>

definition natural_of :: "jsnum \<Rightarrow> nat option" where
  "natural_of x = (case x of
      Fin q \<Rightarrow> if 0 \<le> q \<and> of_int \<lfloor>q\<rfloor> = q then Some (nat \<lfloor>q\<rfloor>) else None
    | NegZero \<Rightarrow> Some 0
    | _ \<Rightarrow> None)"

definition in_domain :: "characteristicDomain \<Rightarrow> nat \<Rightarrow> bool" where
  "in_domain d n = ((case dm_minValue d of None \<Rightarrow> True | Some m \<Rightarrow> m \<le> n)
    \<and> (case dm_maxValue d of None \<Rightarrow> True | Some m \<Rightarrow> n \<le> m)
    \<and> (case dm_validValues d of None \<Rightarrow> True | Some vs \<Rightarrow> n \<in> set vs))"

definition format_limit :: "characteristicFormat \<Rightarrow> nat" where
  "format_limit f = (if f = FormatUint8 then 255 else 4294967295)"

definition taken_unchanged :: "characteristicClass \<Rightarrow> CharacteristicValue \<Rightarrow> bool" where
  "taken_unchanged cls v = (case v of
      VBool b \<Rightarrow> cc_format cls = FormatBool
    | VStr s \<Rightarrow> cc_format cls = FormatString \<and> length s \<le> 64
    | VNum x \<Rightarrow> cc_format cls \<in> {FormatUint8, FormatUint32} \<and> (case natural_of x of
        None \<Rightarrow> False | Some n \<Rightarrow> n \<le> format_limit (cc_format cls) \<and> in_domain (cc_domain cls) n)
    | _ \<Rightarrow> False)"

text \<open>
  What is claimed of a value under a type of the plugin's own: it is taken unchanged, except that a
  count above \<open>2^32 - 1\<close> is not.
\<close>

definition safely :: "Characteristic \<Rightarrow> CharacteristicValue \<Rightarrow> bool" where
  "safely c v = (case jm_get createCustomCharacteristics c of
      None \<Rightarrow> True
    | Some cls \<Rightarrow>
        if c = ObservedActivationCount
        then (\<exists>n. v = VNum (Fin (of_nat n)) \<and> (taken_unchanged cls v \<longleftrightarrow> n \<le> 4294967295))
        else taken_unchanged cls v)"

fun safe_candidate :: "candidate \<Rightarrow> bool" where
  "safe_candidate (c, None) = True"
| "safe_candidate (c, Some v) = safely c v"

definition all_safe :: "projectedValue list \<Rightarrow> bool" where
  "all_safe ps = (\<forall>pv \<in> set ps. safely (pv_characteristic pv) (pv_value pv))"

lemma all_safe_published: "list_all safe_candidate cs \<Longrightarrow> all_safe (published cs)"
  by (auto simp: all_safe_def in_published list_all_iff dest!: bspec)

lemmas type_lookup = createCustomCharacteristics_def jm_get_def

lemma standard_safe [simp]:
  "safely LeakDetected v" "safely WaterLevel v" "safely ContactSensorState v" "safely StatusFault v"
  "safely StatusLowBattery v" "safely BatteryLevel v" "safely ChargingState v" "safely On v"
  by (simp_all add: safely_def type_lookup)

lemma flag_safe [simp]:
  "safely PumpRunning (VBool b)" "safely PumpFault (VBool b)" "safely PumpFuseBlown (VBool b)"
  "safely WaterSensorFaultReported (VBool b)" "safely MainsPowerPresent (VBool b)" "safely BatteryCharging (VBool b)"
  "safely BatteryVoltageLow (VBool b)" "safely ControllerLinkPresent (VBool b)" "safely LastActivationWasTestActivity (VBool b)"
  by (simp_all add: safely_def type_lookup taken_unchanged_def plain_def define_characteristic_def)

lemma text_safe [simp]:
  "length s \<le> 64 \<Longrightarrow> safely ControllerDataLastTrustedAt (VStr s)"
  "length s \<le> 64 \<Longrightarrow> safely ObservationStartedAt (VStr s)" "length s \<le> 64 \<Longrightarrow> safely LastObservedActivationAt (VStr s)"
  by (simp_all add: safely_def type_lookup taken_unchanged_def plain_def define_characteristic_def)

lemma count_safe [simp]: "safely ObservedActivationCount (VNum (Fin (of_nat n)))"
proof -
  have "natural_of (Fin (of_nat n)) = Some n" by (simp add: natural_of_def)
  then show ?thesis
    by (simp add: safely_def type_lookup taken_unchanged_def plain_def define_characteristic_def format_limit_def
        in_domain_def no_domain_def)
qed

lemma code_safe:
  "x \<in> {Fin 0, NegZero, Fin 1, Fin 3, Fin 7, Fin 15, Fin 31} \<Longrightarrow> safely RawWaterLevelCode (VNum x)"
  "x \<in> {Fin 1, Fin 2, Fin 4, Fin 8, Fin 16, Fin 32} \<Longrightarrow> safely BatteryHealthCode (VNum x)"
  "x \<in> {Fin 1, Fin 2, Fin 4, Fin 8} \<Longrightarrow> safely ProtectionHoursCode (VNum x)"
  by (auto simp: safely_def type_lookup taken_unchanged_def coded_def define_characteristic_def format_limit_def
      in_domain_def natural_of_def)

lemma option_safe:
  "(\<And>x. v = Some x \<Longrightarrow> safely c (f x)) \<Longrightarrow> safe_candidate (c, map_option f v)"
  "(\<And>x. v = Some x \<Longrightarrow> safely c x) \<Longrightarrow> safe_candidate (c, v)"
  by (cases v; simp)+

text \<open>The three codes of a decoded state.\<close>

lemma health_checked:
  assumes "decode s = Inr d" and "sd_battery d = Some b"
  shows "healthCode b \<in> {Fin 1, Fin 2, Fin 4, Fin 8, Fin 16, Fin 32}"
proof -
  have "TScope BatteryScope \<notin> set (gemini_untrustedScopesOf (ds_data s))"
    using decode_spec [of s] assms unfolding decoded_as_def by auto
  then obtain h where "numberField (ds_data s) ''battery_health'' = Inr h" "num_set_has BATTERY_HEALTH_VALUES h"
    by (auto simp: trusted_iff_checks TELEMETRY_CHECKS_def checks_ok)
  moreover have "jm_get (ds_data s) ''battery_health'' = Some (JNum (healthCode b))"
    using decodeBattery_Inr [OF decode_scope_values(4) [OF assms]] by blast
  ultimately show ?thesis
    by (auto simp: numberField_def num_set_has_def BATTERY_HEALTH_VALUES_def same_value_zero_def split: if_splits)
qed

lemma decoded_codes_safe:
  assumes "decode s = Inr d"
  shows "numberOf (scope_object d WaterScope) ''levelCode'' = Some x \<Longrightarrow> safely RawWaterLevelCode (VNum x)"
    and "numberOf (scope_object d BatteryScope) ''healthCode'' = Some x \<Longrightarrow> safely BatteryHealthCode (VNum x)"
    and "numberOf (scope_object d BatteryScope) ''protectionHoursCode'' = Some x \<Longrightarrow> safely ProtectionHoursCode (VNum x)"
proof -
  show "safely RawWaterLevelCode (VNum x)" if code: "numberOf (scope_object d WaterScope) ''levelCode'' = Some x"
  proof -
    obtain w where w: "sd_water d = Some w" "levelCode w = x" using code by (cases "sd_water d") (auto simp: numberOf_def jm_get_def)
    have "waterLevelPercentage x = Inr (levelPercent w)"
      using decodeWater_Inr [OF decode_scope_values(1) [OF assms w(1)]] w(2) by blast
    then show ?thesis by (intro code_safe(1)) (drule waterLevelPercentage_Inr; auto)
  qed
  show "safely BatteryHealthCode (VNum x)" if code: "numberOf (scope_object d BatteryScope) ''healthCode'' = Some x"
  proof -
    obtain b where b: "sd_battery d = Some b" "healthCode b = x" using code by (cases "sd_battery d") (auto simp: numberOf_def jm_get_def)
    then show ?thesis using health_checked [OF assms b(1)] by (intro code_safe(2)) simp
  qed
  show "safely ProtectionHoursCode (VNum x)" if code: "numberOf (scope_object d BatteryScope) ''protectionHoursCode'' = Some x"
  proof -
    obtain b where b: "sd_battery d = Some b" "protectionHoursCode b = x"
      using code by (cases "sd_battery d") (auto simp: numberOf_def jm_get_def)
    then show ?thesis using decodeBattery_Inr [OF decode_scope_values(4) [OF assms b(1)]] by (intro code_safe(3)) auto
  qed
qed

text \<open>A group a row is given is absent or the decoded one.\<close>

lemma given_group:
  assumes "input_of d inp"
  shows "trustedGroup inp t sc = None \<or> trustedGroup inp t sc = scope_object d sc"
  using assms by (simp add: trustedGroup_def input_of_def decodedGroup_object)

lemma given_code:
  assumes "input_of d inp" and "numberOf (trustedGroup inp t sc) field = Some x"
  shows "numberOf (scope_object d sc) field = Some x"
  using given_group [OF assms(1), of t sc] assms(2) by (auto simp: numberOf_def)

text \<open>The texts of an input: an accessory makes each of them as a time of the language, or empty.\<close>

definition record_fits :: "pumpRecordProjection \<Rightarrow> bool" where
  "record_fits r = (length (prp_observationStartedAt r) \<le> 64 \<and> length (prp_lastActivationAt r) \<le> 64)"

definition records_fit :: "projectionInput \<Rightarrow> bool" where
  "records_fit inp = (list_all record_fits (case pi_primaryPumpRecord inp of None \<Rightarrow> [] | Some r \<Rightarrow> [r])
    \<and> list_all record_fits (case pi_backupPumpRecord inp of None \<Rightarrow> [] | Some r \<Rightarrow> [r])
    \<and> length (pi_controllerDataLastTrustedAt inp) \<le> 64)"

lemma records_fitD:
  "records_fit inp \<Longrightarrow> pi_primaryPumpRecord inp = Some r \<Longrightarrow> record_fits r"
  "records_fit inp \<Longrightarrow> pi_backupPumpRecord inp = Some r \<Longrightarrow> record_fits r"
  "records_fit inp \<Longrightarrow> length (pi_controllerDataLastTrustedAt inp) \<le> 64"
  by (simp_all add: records_fit_def)

lemma iso_length: "toISOString t = Inr s \<Longrightarrow> length s \<le> 27"
  by (auto simp: toISOString_def iso_string_def year_string_def Let_def split: option.splits if_splits prod.splits)

lemma timestamp_length: "isoTimestamp t = Inr s \<Longrightarrow> length s \<le> 64"
  by (auto simp: isoTimestamp_def split: option.splits dest: iso_length)

lemma projection_fits: "projectionInputOf a decoded pending = Inr inp \<Longrightarrow> records_fit inp"
  by (auto simp: projectionInputOf_def recordProjectionOf_def records_fit_def record_fits_def Let_def
      elim!: ebind_eq_InrE dest!: timestamp_length split: if_splits)

lemma record_safe:
  assumes "\<And>r. pf_record f = Some r \<Longrightarrow> record_fits r"
  shows "list_all safe_candidate (recordCandidates f)"
  using assms by (auto simp: recordCandidates_def Let_def record_fits_def intro!: option_safe split: if_splits)

lemma pump_safe:
  assumes "\<And>r. pf_record f = Some r \<Longrightarrow> record_fits r"
  shows "all_safe (pumpValues f)"
  unfolding pumpValues_def using record_safe [OF assms]
  by (intro all_safe_published) (auto intro!: option_safe)

lemma values_safe:
  "all_safe (floodValues a t)" "all_safe (pumpActivityValues a t g)" "all_safe (controlValues a t c g)"
  "all_safe (mainsPowerValues a t)" "all_safe (mainsPowerLostValues a t)" "all_safe (batteryValues a t)"
  "all_safe (offlineValues a)" "all_safe (faultAdapterValues b [])"
  unfolding floodValues_def pumpActivityValues_def controlValues_def mainsPowerValues_def mainsPowerLostValues_def
    batteryValues_def offlineValues_def faultAdapterValues_def Let_def
  by (intro all_safe_published; auto intro!: option_safe)+

lemma coded_rows_safe:
  assumes "decode s = Inr d" and "input_of d inp"
  shows "all_safe (sumpPitLevelValues inp t)" and "all_safe (batteryFactsValues inp t)"
  unfolding sumpPitLevelValues_def batteryFactsValues_def Let_def
  by (intro all_safe_published;
      auto intro!: option_safe dest!: given_code [OF assms(2)] decoded_codes_safe [OF assms(1)])+

lemma link_safe: "records_fit inp \<Longrightarrow> all_safe (controllerLinkValues inp t)"
  unfolding controllerLinkValues_def faultAdapterValues_def Let_def
  by (intro all_safe_published) (auto intro!: option_safe dest: records_fitD(3))

lemma row_safe:
  assumes "decode s = Inr d" and "input_of d inp" and "records_fit inp"
  shows "\<forall>row \<in> set createServiceCatalogue. \<forall>t. all_safe (row_values row inp t)"
proof -
  have "all_safe (primaryPumpValues inp t)" "all_safe (backupPumpValues inp t)" for t
    unfolding primaryPumpValues_def backupPumpValues_def Let_def
    by (rule pump_safe, simp add: records_fitD [OF assms(3)])+
  then show ?thesis
    by (intro catalogue_cases; simp add: row_defs values_safe coded_rows_safe [OF assms(1,2)] link_safe [OF assms(3)])
qed

text \<open>
  C30. HAP changes no value an update reports under a type of the plugin's own, with one exception.
  Whatever snapshot of a Gemini device is taken in, whatever state the accessory is in and whatever HAP
  answers, every value pushed for fifteen of the sixteen characteristics is of the declared format and
  inside the declared domain: the codes the adapter lets through are exactly the ones the types declare
  valid, and every text is a time short enough for HAP. The activation count is a natural number and is
  taken unchanged exactly up to \<open>2^32 - 1\<close>, the largest value of its format; a stored record may hold
  more, because its guard admits every safe integer.
\<close>

theorem reported_values_fit_their_types:
  assumes "di_deviceTypeId (ds_identity s) = ''wayneWaterGemini''"
    and "(k, c, v) \<in> set (updates (fst (update createFamilyRegistry hap s src a)))"
    and "jm_get createCustomCharacteristics c = Some cls"
  shows "if c = ObservedActivationCount
    then (\<exists>n. v = VNum (Fin (of_nat n)) \<and> (taken_unchanged cls v \<longleftrightarrow> n \<le> 4294967295))
    else taken_unchanged cls v"
proof -
  obtain d where d: "decode s = Inr d" using gemini.decode_returns by blast
  define b where "b = publishing_state hap (validate s) d s src a"
  define made where "made = projectionInputOf b (Some (domainObject d)) (control_pending (acc_controls b))"
  have "set (updates (fst (update createFamilyRegistry hap s src a))) \<subseteq>
      (case made of Inl e \<Rightarrow> {} | Inr inp \<Rightarrow> set (all_updates b inp createServiceCatalogue))"
    using runsD(1) [OF update_gemini [OF assms(1) d, of hap src a]] set_mono_prefix
    unfolding made_def b_def updates_def by (fastforce split: sum.splits)
  then obtain inp where inp: "made = Inr inp" "(k, c, v) \<in> set (all_updates b inp createServiceCatalogue)"
    using assms(2) by (cases made) auto
  have "input_of d inp" using input_of_update [OF d] inp(1) unfolding made_def b_def by blast
  moreover have "records_fit inp" using projection_fits inp(1) unfolding made_def by blast
  ultimately have "\<forall>row \<in> set createServiceCatalogue. all_safe (project row inp)"
    using row_safe [OF d] by (auto simp: project_def all_safe_def)
  moreover have "c \<noteq> StatusActive" using assms(3) by (auto simp: type_lookup)
  ultimately have "safely c v" using inp(2) by (auto simp: all_updates_def row_updates_def all_safe_def)
  then show ?thesis using assms(3) by (simp add: safely_def)
qed

section \<open>Declared before written\<close>

definition declares :: "serviceDefinition \<Rightarrow> Characteristic \<Rightarrow> bool" where
  "declares sv c = (Projected c \<in> set (sv_required sv @ sv_optional sv))"

text \<open>
  A service of the plugin's own declares everything its rows write. Each characteristic a row projects is among
  the required or the optional ones of the row's service class, and the class constructs exactly the
  characteristics without which the catalogue never adds it.
\<close>

theorem rows_write_declared_characteristics:
  assumes "row \<in> set createServiceCatalogue"
    and "jm_get createCustomServices (row_serviceClass row) = Some sv"
  shows "list_all (\<lambda>pv. declares sv (pv_characteristic pv)) (project row inp)
    \<and> sv_required sv = map Projected (required_characteristics (row_serviceClass row))"
proof -
  let ?ok = "\<lambda>row. \<forall>sv t. jm_get createCustomServices (row_serviceClass row) = Some sv \<longrightarrow>
    (\<forall>pv \<in> set (row_values row inp t). declares sv (pv_characteristic pv))
    \<and> sv_required sv = map Projected (required_characteristics (row_serviceClass row))"
  have "\<forall>row \<in> set createServiceCatalogue. ?ok row"
    by (rule catalogue_cases;
        auto simp: row_defs service_defs jm_get_def declares_def in_published sumpPitLevelValues_def primaryPumpValues_def
          backupPumpValues_def pumpValues_def recordCandidates_def mainsPowerValues_def batteryFactsValues_def Let_def)
  then show ?thesis using assms by (auto simp: project_def list_all_iff)
qed

section \<open>Witnesses\<close>

definition sample_reading :: projectionInput where
  "sample_reading = \<lparr>pi_decoded = Some (domainObject sample_state), pi_untrustedScopes = [],
     pi_offlineConfirmed = False, pi_controllerDataLastTrustedAt = [], pi_pendingControls = [],
     pi_primaryPumpRecord = None, pi_backupPumpRecord = None\<rparr>"

lemma sample_reading_ok: "input_of sample_state sample_reading"
proof -
  have "scope_decoded sample_state sc" for sc by (cases sc) (simp_all add: sample_state_def)
  then show ?thesis by (simp add: input_of_def sample_reading_def)
qed

definition level_row :: serviceRow where
  "level_row = (simple_row SumpPitLevel ''Sump Pit Level'' WaterScope SumpPitService sumpPitLevelValues)
     \<lparr>row_readScopes := [WaterScope, FaultScope]\<rparr>"

lemma level_row_in: "level_row \<in> set createServiceCatalogue"
  by (simp add: createServiceCatalogue_def waterDefinitions_def level_row_def)

lemma level_row_values: "project level_row sample_reading =
  [\<lparr>pv_characteristic = WaterLevel, pv_value = VNum (Fin 20)\<rparr>, \<lparr>pv_characteristic = RawWaterLevelCode, pv_value = VNum (Fin 1)\<rparr>,
   \<lparr>pv_characteristic = WaterSensorFaultReported, pv_value = VBool False\<rparr>, \<lparr>pv_characteristic = StatusFault, pv_value = NO_FAULT\<rparr>]"
  by code_simp

definition sample_state_after :: accessory where
  "sample_state_after = publishing_state quiet_hap Valid sample_state sample_snapshot Poll demo_accessory"

lemma sample_level_published:
  "case projectionInputOf sample_state_after (Some (domainObject sample_state))
      (control_pending (acc_controls sample_state_after)) of
     Inl e \<Rightarrow> False
   | Inr inp \<Rightarrow> publishes sample_state_after inp level_row
      \<and> (row_key level_row, RawWaterLevelCode, VNum (Fin 1)) \<in> set (row_updates inp level_row)"
  by code_simp

lemma sample_facts: "validate sample_snapshot = Valid" "di_deviceTypeId (ds_identity sample_snapshot) = ''wayneWaterGemini''"
  by code_simp+

lemma sample_reports_its_code:
  "(row_key level_row, RawWaterLevelCode, VNum (Fin 1))
    \<in> set (updates (fst (update createFamilyRegistry quiet_hap sample_snapshot Poll demo_accessory)))"
proof -
  obtain inp where inp: "projectionInputOf sample_state_after (Some (domainObject sample_state))
      (control_pending (acc_controls sample_state_after)) = Inr inp"
    "publishes sample_state_after inp level_row"
    "(row_key level_row, RawWaterLevelCode, VNum (Fin 1)) \<in> set (row_updates inp level_row)"
    using sample_level_published by (auto split: sum.splits)
  have "fam_decode geminiFamily sample_snapshot = Inr sample_state" "fam_validate geminiFamily sample_snapshot = Valid"
    using sample_facts decode_sample by (simp_all add: geminiFamily_def)
  then have "fst (snd (update_resolved quiet_hap geminiFamily sample_snapshot Poll demo_accessory)) = Inr ()"
    using update_resolved_result [of quiet_hap geminiFamily sample_snapshot sample_state Poll demo_accessory] inp(1)
    by (simp add: accepting_def quiet_hap_def sample_state_after_def)
  then have "fst (snd (update createFamilyRegistry quiet_hap sample_snapshot Poll demo_accessory)) = Inr ()"
    using sample_facts(2) by (simp add: update_def lookup_created)
  from runsD(2) [OF update_gemini [OF sample_facts(2) decode_sample] this]
  have "updates (fst (update createFamilyRegistry quiet_hap sample_snapshot Poll demo_accessory))
      = all_updates sample_state_after inp createServiceCatalogue"
    using inp(1) by (simp add: sample_facts updates_def flip: sample_state_after_def)
  then show ?thesis using inp(2,3) level_row_in by (auto simp: all_updates_def)
qed

theorem reported_values_fit_their_types_witness:
  "taken_unchanged (coded ''Raw Water Level Code'' RAW_WATER_LEVEL_CODE_UUID \<lparr>dm_minValue = Some 0, dm_maxValue = Some 31,
     dm_minStep = Some 1, dm_validValues = Some [0, 1, 3, 7, 15, 31]\<rparr>) (VNum (Fin 1))"
proof -
  have "di_deviceTypeId (ds_identity sample_snapshot) = ''wayneWaterGemini''" by (simp add: sample_snapshot_def)
  from reported_values_fit_their_types [OF this sample_reports_its_code] show ?thesis
    by (simp add: type_lookup)
qed

theorem rows_write_declared_characteristics_witness:
  "list_all (declares (define_service SUMP_PIT_SERVICE_UUID [WaterLevel, RawWaterLevelCode] [WaterSensorFaultReported]))
    (map pv_characteristic (project level_row sample_reading))"
proof -
  have "jm_get createCustomServices (row_serviceClass level_row)
      = Some (define_service SUMP_PIT_SERVICE_UUID [WaterLevel, RawWaterLevelCode] [WaterSensorFaultReported])"
    by (simp add: level_row_def simple_row_def createCustomServices_def jm_get_def)
  from rows_write_declared_characteristics [OF level_row_in this, of sample_reading]
  show ?thesis by (simp add: list_all_iff)
qed

end
