(* ===== verification/FileStore.thy ===== *)
theory FileStore
  imports AuthProperties ArrivalAnchors
begin

text \<open>
  How the plugin writes its two files, the anchors of \<open>src/src/runtime/arrivalAnchors.ts\<close> and the token cache of
  \<open>src/src/cloud/auth.ts\<close>: an exclusive write under a temporary name, a rename over the target, and the removal of
  the temporary file when the rename fails. The file system is the entries of a directory; what each of its
  operations does is told by \<open>diskAnswers\<close>, and the state it leaves after each operation is kept, since a
  process can be stopped after any of them. A reader of a file meets the state the last run left.
\<close>

section \<open>A directory\<close>

record fileEntry =
  fe_contents :: string
  fe_mode :: nat

type_synonym directory = "(string, fileEntry) jsmap"

text \<open>A write can be refused, break off after some of its bytes, or be done; the two others are refused or done.\<close>

datatype writeAnswer = WriteRefused js_error | WriteBroke nat js_error | WriteDone

record diskAnswers =
  da_write :: writeAnswer
  da_rename :: "js_error option"
  da_remove :: "js_error option"

definition EEXIST :: js_error where
  "EEXIST = PlainError ''EEXIST: file already exists''"

text \<open>The flag \<open>wx\<close>: an occupied name is refused, and the mode is that of a new file.\<close>

definition writeFile_exclusive :: "diskAnswers \<Rightarrow> nat \<Rightarrow> string \<Rightarrow> string \<Rightarrow> directory \<Rightarrow> js_error option \<times> directory" where
  "writeFile_exclusive disk mode path contents dir =
    (if jm_get dir path \<noteq> None then (Some EEXIST, dir)
     else case da_write disk of
         WriteRefused e \<Rightarrow> (Some e, dir)
       | WriteBroke n e \<Rightarrow> (Some e, jm_set path \<lparr>fe_contents = take n contents, fe_mode = mode\<rparr> dir)
       | WriteDone \<Rightarrow> (None, jm_set path \<lparr>fe_contents = contents, fe_mode = mode\<rparr> dir))"

definition rename_over :: "diskAnswers \<Rightarrow> string \<Rightarrow> string \<Rightarrow> directory \<Rightarrow> js_error option \<times> directory" where
  "rename_over disk source target dir = (case da_rename disk of
      Some e \<Rightarrow> (Some e, dir)
    | None \<Rightarrow> (case jm_get dir source of
        None \<Rightarrow> (Some (PlainError ''ENOENT: no such file''), dir)
      | Some entry \<Rightarrow> (None, jm_set target entry (jm_delete source dir))))"

definition rm_forced :: "diskAnswers \<Rightarrow> string \<Rightarrow> directory \<Rightarrow> js_error option \<times> directory" where
  "rm_forced disk path dir = (case da_remove disk of Some e \<Rightarrow> (Some e, dir) | None \<Rightarrow> (None, jm_delete path dir))"

section \<open>The two writers\<close>

text \<open>What the call throws, and the directory after each of its operations.\<close>

definition store_file :: "diskAnswers \<Rightarrow> nat \<Rightarrow> string \<Rightarrow> string \<Rightarrow> string \<Rightarrow> directory \<Rightarrow> js_error option \<times> directory list" where
  "store_file disk mode temporary target contents dir =
    (case writeFile_exclusive disk mode temporary contents dir of
       (Some e, dir1) \<Rightarrow> (Some e, [dir1])
     | (None, dir1) \<Rightarrow> (case rename_over disk temporary target dir1 of
         (None, dir2) \<Rightarrow> (None, [dir1, dir2])
       | (Some e, dir2) \<Rightarrow> (case rm_forced disk temporary dir2 of
           (Some e', dir3) \<Rightarrow> (Some e', [dir1, dir2, dir3])
         | (None, dir3) \<Rightarrow> (Some e, [dir1, dir2, dir3]))))"

definition OWNER_ONLY_MODE :: nat where
  "OWNER_ONLY_MODE = 384"

definition DEFAULT_MODE :: nat where
  "DEFAULT_MODE = 438"

definition storeCache :: "diskAnswers \<Rightarrow> string \<Rightarrow> string \<Rightarrow> string \<Rightarrow> directory \<Rightarrow> js_error option \<times> directory list" where
  "storeCache disk temporary target contents dir = store_file disk OWNER_ONLY_MODE temporary target contents dir"

definition storeAnchors :: "diskAnswers \<Rightarrow> string \<Rightarrow> string \<Rightarrow> string \<Rightarrow> directory \<Rightarrow> js_error option \<times> directory list" where
  "storeAnchors disk temporary target contents dir = store_file disk DEFAULT_MODE temporary target contents dir"

text \<open>The random suffix and the process id are the caller's; the name is the target's with both.\<close>

definition temporaryPath :: "string \<Rightarrow> string \<Rightarrow> string \<Rightarrow> string" where
  "temporaryPath pid suffix target = target @ ''.'' @ pid @ ''.'' @ suffix @ ''.tmp''"

lemma temporaryPath_apart [simp]: "temporaryPath pid suffix target \<noteq> target" "target \<noteq> temporaryPath pid suffix target"
  by (simp_all add: temporaryPath_def)

section \<open>The token cache and the anchors\<close>

text \<open>
  \<open>JSON.stringify\<close> and \<open>JSON.parse\<close> belong to the language and are arguments. A write never throws: what went
  wrong is one note.
\<close>

definition writeCachedToken :: "authEnv \<Rightarrow> (json \<Rightarrow> string) \<Rightarrow> diskAnswers \<Rightarrow> string \<Rightarrow> string \<Rightarrow> string \<Rightarrow> cachedToken
    \<Rightarrow> directory \<Rightarrow> log_line list \<times> directory list" where
  "writeCachedToken env stringify disk temporary target salt token dir =
    (case storeCache disk temporary target (stringify (cache_payload env salt token)) dir of
       (None, dirs) \<Rightarrow> ([], dirs)
     | (Some e, dirs) \<Rightarrow> ([LDebug CACHE_NOT_WRITTEN], dirs))"

definition write_anchors :: "(json \<Rightarrow> string) \<Rightarrow> diskAnswers \<Rightarrow> string \<Rightarrow> string \<Rightarrow> (string, millis) jsmap
    \<Rightarrow> directory \<Rightarrow> log_line list \<times> directory list" where
  "write_anchors stringify disk temporary target snapshot dir =
    (case storeAnchors disk temporary target (stringify (anchor_json snapshot)) dir of
       (None, dirs) \<Rightarrow> ([], dirs)
     | (Some e, dirs) \<Rightarrow> ([LDebug ANCHORS_NOT_WRITTEN], dirs))"

text \<open>What a start finds under a name.\<close>

definition parseCacheFile :: "(string \<Rightarrow> json option) \<Rightarrow> directory \<Rightarrow> string \<Rightarrow> cacheContents" where
  "parseCacheFile parse dir target = (case jm_get dir target of
      None \<Rightarrow> NoFile
    | Some entry \<Rightarrow> (case parse (fe_contents entry) of None \<Rightarrow> BadFile | Some v \<Rightarrow> Parsed v))"

definition parseAnchorFile :: "(string \<Rightarrow> json option) \<Rightarrow> directory \<Rightarrow> string \<Rightarrow> bool \<times> json option" where
  "parseAnchorFile parse dir target = (case jm_get dir target of
      None \<Rightarrow> (False, None) | Some entry \<Rightarrow> (True, parse (fe_contents entry)))"

section \<open>Whole or not at all\<close>

lemma store_file_states:
  assumes "store_file disk mode temporary target contents dir = (failure, dirs)" and "temporary \<noteq> target"
    and "d \<in> set dirs"
  shows "jm_get d target = jm_get dir target \<or> jm_get d target = Some \<lparr>fe_contents = contents, fe_mode = mode\<rparr>"
    and "path \<noteq> target \<Longrightarrow> path \<noteq> temporary \<Longrightarrow> jm_get d path = jm_get dir path"
  using assms
  by (auto simp: store_file_def writeFile_exclusive_def rename_over_def rm_forced_def
      split: if_splits writeAnswer.splits option.splits)

lemma store_file_last:
  assumes "store_file disk mode temporary target contents dir = (failure, dirs)" and "temporary \<noteq> target"
  shows "dirs \<noteq> []"
    and "failure = None \<longleftrightarrow> jm_get dir temporary = None \<and> da_write disk = WriteDone \<and> da_rename disk = None"
    and "jm_get (last dirs) target = (if failure = None then Some \<lparr>fe_contents = contents, fe_mode = mode\<rparr> else jm_get dir target)"
    and "jm_get dir temporary = None \<Longrightarrow> jm_get (last dirs) temporary \<noteq> None \<longleftrightarrow>
      (\<exists>n e. da_write disk = WriteBroke n e) \<or> da_write disk = WriteDone \<and> da_rename disk \<noteq> None \<and> da_remove disk \<noteq> None"
  using assms
  by (auto simp: store_file_def writeFile_exclusive_def rename_over_def rm_forced_def
      split: if_splits writeAnswer.splits option.splits) (metis+)

text \<open>What a start reads afterwards: the old content or the whole new one.\<close>

lemma store_file_contents:
  assumes "store_file disk mode temporary target contents dir = (failure, dirs)" and "temporary \<noteq> target"
    and "d \<in> set (dir # dirs)"
  shows "map_option fe_contents (jm_get d target) \<in> {map_option fe_contents (jm_get dir target), Some contents}"
    and "d = last dirs \<Longrightarrow> failure = None \<Longrightarrow> map_option fe_contents (jm_get d target) = Some contents"
  using store_file_states(1) [OF assms(1,2)] store_file_last [OF assms(1,2)] assms(3) by fastforce+

lemma cache_read_by_contents:
  "map_option fe_contents (jm_get d target) = map_option fe_contents (jm_get d' target) \<Longrightarrow>
    parseCacheFile parse d target = parseCacheFile parse d' target"
  "map_option fe_contents (jm_get d target) = Some text \<Longrightarrow> parse text = Some v \<Longrightarrow> parseCacheFile parse d target = Parsed v"
  by (cases "jm_get d target"; cases "jm_get d' target"; force simp: parseCacheFile_def)+

lemma anchors_read_by_contents:
  "map_option fe_contents (jm_get d target) = map_option fe_contents (jm_get d' target) \<Longrightarrow>
    parseAnchorFile parse d target = parseAnchorFile parse d' target"
  "map_option fe_contents (jm_get d target) = Some text \<Longrightarrow> parseAnchorFile parse d target = (True, parse text)"
  by (cases "jm_get d target"; cases "jm_get d' target"; force simp: parseAnchorFile_def)+

text \<open>
  C34. An interrupted write of the token cache costs at most one grant. At every moment of a write, whatever the disk refuses
  and wherever the process is stopped, the cache holds what it held before or the whole new file with the owner-only
  mode, and no other file but the temporary one changes. So the next start reads what it would have read before the
  write or the new token, and exactly the new one when the write noted nothing. The temporary file, which carries the
  token as well, outlives the call only when its own write broke off, or when neither the rename nor the removal
  worked.
\<close>

theorem interrupted_write_costs_at_most_a_grant:
  assumes "writeCachedToken env stringify disk (temporaryPath pid suffix target) target salt token dir = (logged, dirs)"
    and "jm_get dir (temporaryPath pid suffix target) = None"
    and "parse (stringify (cache_payload env salt token)) = Some (cache_payload env salt token)"
  shows "list_all (\<lambda>d. jm_get d target \<in> {jm_get dir target,
            Some \<lparr>fe_contents = stringify (cache_payload env salt token), fe_mode = OWNER_ONLY_MODE\<rparr>}
        \<and> readCachedToken env' (parseCacheFile parse d target) \<in> {readCachedToken env' (parseCacheFile parse dir target),
            readCachedToken env' (Parsed (cache_payload env salt token))}
        \<and> (\<forall>path. path = target \<or> path = temporaryPath pid suffix target \<or> jm_get d path = jm_get dir path)) dirs
    \<and> parseCacheFile parse (last dirs) target
        = (if logged = [] then Parsed (cache_payload env salt token) else parseCacheFile parse dir target)
    \<and> (jm_get (last dirs) (temporaryPath pid suffix target) \<noteq> None \<longleftrightarrow> (\<exists>n e. da_write disk = WriteBroke n e)
        \<or> da_write disk = WriteDone \<and> da_rename disk \<noteq> None \<and> da_remove disk \<noteq> None)"
proof -
  let ?payload = "stringify (cache_payload env salt token)"
  let ?temporary = "temporaryPath pid suffix target"
  obtain failure where run: "store_file disk OWNER_ONLY_MODE ?temporary target ?payload dir = (failure, dirs)"
    and logged: "logged = [] \<longleftrightarrow> failure = None"
    using assms(1) by (auto simp: writeCachedToken_def storeCache_def split: prod.splits option.splits)
  note found = store_file_contents [OF run temporaryPath_apart(1)]
  have "list_all (\<lambda>d. jm_get d target \<in> {jm_get dir target, Some \<lparr>fe_contents = ?payload, fe_mode = OWNER_ONLY_MODE\<rparr>}
      \<and> readCachedToken env' (parseCacheFile parse d target) \<in> {readCachedToken env' (parseCacheFile parse dir target),
          readCachedToken env' (Parsed (cache_payload env salt token))}
      \<and> (\<forall>path. path = target \<or> path = ?temporary \<or> jm_get d path = jm_get dir path)) dirs"
    unfolding list_all_iff
  proof (intro ballI conjI allI)
    fix d path assume d: "d \<in> set dirs"
    show "jm_get d target \<in> {jm_get dir target, Some \<lparr>fe_contents = ?payload, fe_mode = OWNER_ONLY_MODE\<rparr>}"
      using store_file_states(1) [OF run temporaryPath_apart(1) d] by blast
    show "path = target \<or> path = ?temporary \<or> jm_get d path = jm_get dir path"
      using store_file_states(2) [OF run temporaryPath_apart(1) d] by blast
    have "map_option fe_contents (jm_get d target) \<in> {map_option fe_contents (jm_get dir target), Some ?payload}"
      using found(1) d by simp
    then show "readCachedToken env' (parseCacheFile parse d target) \<in> {readCachedToken env' (parseCacheFile parse dir target),
        readCachedToken env' (Parsed (cache_payload env salt token))}"
      using cache_read_by_contents(1) [of d target dir parse] cache_read_by_contents(2) [of d target ?payload parse] assms(3) by fastforce
  qed
  moreover have "parseCacheFile parse (last dirs) target
      = (if logged = [] then Parsed (cache_payload env salt token) else parseCacheFile parse dir target)"
  proof (cases "failure = None")
    case True
    then show ?thesis
      using store_file_last(3) [OF run temporaryPath_apart(1)] logged by (auto intro!: cache_read_by_contents(2) assms(3))
  next
    case False
    then show ?thesis
      using store_file_last(3) [OF run temporaryPath_apart(1)] logged by (auto intro!: cache_read_by_contents(1))
  qed
  ultimately show ?thesis using store_file_last(4) [OF run temporaryPath_apart(1) assms(2)] by blast
qed

text \<open>The anchors are written the same way, with the default mode.\<close>

theorem interrupted_anchors_are_the_older_ones:
  assumes "write_anchors stringify disk (temporaryPath pid suffix target) target snapshot dir = (logged, dirs)"
    and "parse (stringify (anchor_json snapshot)) = Some (anchor_json snapshot)"
  shows "list_all (\<lambda>d. parseAnchorFile parse d target
      \<in> {parseAnchorFile parse dir target, (True, Some (anchor_json snapshot))}) dirs"
  unfolding list_all_iff
proof
  fix d assume d: "d \<in> set dirs"
  obtain failure where run: "store_file disk DEFAULT_MODE (temporaryPath pid suffix target) target
      (stringify (anchor_json snapshot)) dir = (failure, dirs)"
    using assms(1) by (auto simp: write_anchors_def storeAnchors_def split: prod.splits option.splits)
  have "map_option fe_contents (jm_get d target)
      \<in> {map_option fe_contents (jm_get dir target), Some (stringify (anchor_json snapshot))}"
    using store_file_contents(1) [OF run temporaryPath_apart(1)] d by simp
  then show "parseAnchorFile parse d target \<in> {parseAnchorFile parse dir target, (True, Some (anchor_json snapshot))}"
    using anchors_read_by_contents(1) [of d target dir parse] anchors_read_by_contents(2) [of d target _ parse] assms(2)
    by fastforce
qed

section \<open>A write that meets a refused rename\<close>

definition demo_directory :: directory where
  "demo_directory = [(''t'', \<lparr>fe_contents = ''old'', fe_mode = 384\<rparr>)]"

definition demo_disk :: diskAnswers where
  "demo_disk = \<lparr>da_write = WriteDone, da_rename = Some EEXIST, da_remove = None\<rparr>"

theorem interrupted_write_costs_at_most_a_grant_witness:
  "\<exists>payload logged dirs. writeCachedToken demo_auth (\<lambda>v. ''new'') demo_disk (temporaryPath ''7'' ''ab'' ''t'') ''t'' ''s''
      \<lparr>ct_idToken = ''T'', ct_expiresAtMs = 9\<rparr> demo_directory = (logged, dirs)
    \<and> parseCacheFile (\<lambda>s. if s = ''new'' then Some payload else None) (last dirs) ''t'' = BadFile
    \<and> jm_get (last dirs) (temporaryPath ''7'' ''ab'' ''t'') = None"
proof -
  let ?token = "\<lparr>ct_idToken = ''T'', ct_expiresAtMs = 9\<rparr>"
  let ?payload = "cache_payload demo_auth ''s'' ?token"
  let ?parse = "\<lambda>s. if s = ''new'' then Some ?payload else None"
  obtain logged dirs where run: "writeCachedToken demo_auth (\<lambda>v. ''new'') demo_disk (temporaryPath ''7'' ''ab'' ''t'') ''t'' ''s''
      ?token demo_directory = (logged, dirs)" by fastforce
  have free: "jm_get demo_directory (temporaryPath ''7'' ''ab'' ''t'') = None"
    by (simp add: demo_directory_def temporaryPath_def jm_get_def)
  have "logged \<noteq> []"
    using run free by (auto simp: writeCachedToken_def storeCache_def store_file_def writeFile_exclusive_def rename_over_def
        rm_forced_def demo_disk_def)
  then have "parseCacheFile ?parse (last dirs) ''t'' = BadFile"
    "jm_get (last dirs) (temporaryPath ''7'' ''ab'' ''t'') = None"
    using interrupted_write_costs_at_most_a_grant [OF run free, of ?parse]
    by (simp_all add: parseCacheFile_def demo_directory_def demo_disk_def jm_get_def)
  with run show ?thesis by blast
qed

end
