(* ===== verification/BrokerTransport.thy ===== *)
theory BrokerTransport
  imports ShadowProperties
begin

text \<open>
  The adapter over the MQTT library, \<open>src/src/cloud/mqttTransport.ts\<close>, at the level of one client and one
  operation: the options a client is opened with, the wait of \<open>within\<close> with its timer, and the end of a client. The library
  is the environment: when it calls back, and whether one of its calls throws, are events. \<open>ShadowClient\<close> uses an
  operation as a promise that one event settles; that it is one is shown here.
\<close>

section \<open>Opening a client\<close>

definition OPERATION_DEADLINE_MS :: millis where
  "OPERATION_DEADLINE_MS = 10000"

record mqttConnectOptions =
  mo_clientId :: string
  mo_protocolVersion :: nat
  mo_reconnectPeriod :: nat
  mo_clean :: bool
  mo_resubscribe :: bool
  mo_transformWsUrl :: "string \<Rightarrow> nat \<Rightarrow> shadowOutput list"
  mo_headers :: "(string \<times> string) list"

text \<open>The signer is given the client and never the address the library hands the hook.\<close>

definition connect_options :: "string \<Rightarrow> string \<Rightarrow> (nat \<Rightarrow> shadowOutput list) \<Rightarrow> mqttConnectOptions" where
  "connect_options clientId userAgent signUrl =
    \<lparr>mo_clientId = clientId, mo_protocolVersion = 4, mo_reconnectPeriod = 0, mo_clean = True, mo_resubscribe = True,
     mo_transformWsUrl = (\<lambda>url client. signUrl client), mo_headers = [(''User-Agent'', userAgent)]\<rparr>"

section \<open>One operation\<close>

datatype withinTimer = TimerArmed | TimerCancelled | TimerElapsed

record withinWait =
  wi_promise :: operation
  wi_timer :: withinTimer

text \<open>
  \<open>begin\<close> runs at once and may throw or call back before it returns; the library may call back later, and more
  than once.
\<close>

datatype withinEvent = Settled "string option" | Elapsed | BeginThrew string

definition within_started :: withinWait where
  "within_started = \<lparr>wi_promise = OpPending, wi_timer = TimerArmed\<rparr>"

fun settle_promise :: "operation \<Rightarrow> operation \<Rightarrow> operation" where
  "settle_promise OpPending outcome = outcome"
| "settle_promise settled outcome = settled"

definition cancel_timer :: "withinTimer \<Rightarrow> withinTimer" where
  "cancel_timer t = (if t = TimerArmed then TimerCancelled else t)"

fun within_event :: "withinEvent \<Rightarrow> withinWait \<Rightarrow> withinWait" where
  "within_event (Settled failure) w = w\<lparr>wi_timer := cancel_timer (wi_timer w),
     wi_promise := settle_promise (wi_promise w) (case failure of None \<Rightarrow> OpResolved | Some e \<Rightarrow> OpRejected e)\<rparr>"
| "within_event Elapsed w = w\<lparr>wi_timer := TimerElapsed,
     wi_promise := settle_promise (wi_promise w) (OpRejected DEADLINE_REFUSAL)\<rparr>"
| "within_event (BeginThrew e) w = w\<lparr>wi_promise := settle_promise (wi_promise w) (OpRejected e)\<rparr>"

text \<open>A cancelled timer does not elapse.\<close>

fun within_enabled :: "withinEvent \<Rightarrow> withinWait \<Rightarrow> bool" where
  "within_enabled Elapsed w = (wi_timer w = TimerArmed)"
| "within_enabled _ w = True"

inductive within_run :: "withinEvent list \<Rightarrow> withinWait \<Rightarrow> bool" where
  within_run_none: "within_run [] within_started"
| within_run_step: "within_run es w \<Longrightarrow> within_enabled e w \<Longrightarrow> within_run (es @ [e]) (within_event e w)"

section \<open>A wait is a promise with a deadline\<close>

fun as_operation :: "withinEvent \<Rightarrow> operationEvent" where
  "as_operation (Settled failure) = Callback failure"
| "as_operation Elapsed = Deadline"
| "as_operation (BeginThrew e) = Callback (Some e)"

lemma settled_promise: "wi_promise (within_event e w) = within_step (wi_promise w) (as_operation e)"
  by (cases e; cases "wi_promise w") (auto split: option.split)

lemma within_promise: "within_run es w \<Longrightarrow> wi_promise w = fold (\<lambda>e p. within_step p (as_operation e)) es OpPending"
  by (induction rule: within_run.induct) (simp_all add: within_started_def settled_promise)

lemma within_step_settled: "op \<noteq> OpPending \<Longrightarrow> within_step op e = op"
  by (cases op) auto

lemma within_fold_settled: "op \<noteq> OpPending \<Longrightarrow> fold (\<lambda>e p. within_step p (as_operation e)) es op = op"
  by (induction es) (simp_all add: within_step_settled)

lemma within_step_settles: "within_step OpPending e \<noteq> OpPending"
  by (cases e rule: operationEvent.exhaust) (auto split: option.split elim: within_step.elims)

lemma within_first: "fold (\<lambda>e p. within_step p (as_operation e)) (e # es) OpPending = within_step OpPending (as_operation e)"
  by (simp add: within_fold_settled within_step_settles)

lemma within_timer:
  "within_run es w \<Longrightarrow> wi_timer w = TimerArmed \<longleftrightarrow> list_all (\<lambda>e. \<exists>x. e = BeginThrew x) es"
proof (induction rule: within_run.induct)
  case (within_run_step es w e)
  then show ?case by (cases e) (auto simp: cancel_timer_def)
qed (simp add: within_started_def)

text \<open>
  No operation is left hanging. In every run of one operation, the promise is settled by the first thing that happens,
  as \<open>within_step\<close> says, and by nothing after it. While nothing has happened the timer is armed, so the deadline
  can still answer; once the library called back or the deadline passed no timer is left that could hold the process open.
  A timer outlives its operation only when the library's own call threw.
\<close>

theorem operation_is_answered_by_its_deadline:
  assumes "within_run es w"
  shows "wi_promise w = (case es of [] \<Rightarrow> OpPending | e # later \<Rightarrow> within_step OpPending (as_operation e))"
    and "wi_timer w = TimerArmed \<longleftrightarrow> list_all (\<lambda>e. \<exists>x. e = BeginThrew x) es"
    and "wi_promise w = OpPending \<Longrightarrow> within_enabled Elapsed w
      \<and> wi_promise (within_event Elapsed w) = OpRejected DEADLINE_REFUSAL"
proof -
  show promise: "wi_promise w = (case es of [] \<Rightarrow> OpPending | e # later \<Rightarrow> within_step OpPending (as_operation e))"
    using within_promise [OF assms] within_first by (simp split: list.split)
  show timer: "wi_timer w = TimerArmed \<longleftrightarrow> list_all (\<lambda>e. \<exists>x. e = BeginThrew x) es" by (rule within_timer [OF assms])
  show "within_enabled Elapsed w \<and> wi_promise (within_event Elapsed w) = OpRejected DEADLINE_REFUSAL"
    if "wi_promise w = OpPending"
  proof -
    have "es = []" using that promise within_step_settles by (cases es) auto
    then show ?thesis using timer that by simp
  qed
qed

end
