(* ===== verification/Plugin.thy ===== *)
theory Plugin
  imports PlatformProperties RuntimeDevices RuntimeReports
begin

text \<open>
  The plugin as its constructor assembles it, lines 671 to 713 of \<open>src/src/platform.ts\<close>: the account runtime
  and the platform over one device store, the platform's callbacks given to the runtime, and the three events of
  Homebridge. A callback of the runtime runs inside a step of the runtime; what it does to the platform is told by the
  outputs of that step, in their order. The answers the runtime gets from its two answering callbacks are computed
  from the platform as the step found it: the inventory callback is the first thing the platform hears
  of a step but for the snapshots of its own accessories, and a removal touches the entry of its own device alone.
\<close>

section \<open>Wiring\<close>

record pluginEnv =
  pn_runtime :: runtimeEnv
  pn_platform :: platformEnv

record plugin =
  pg_runtime :: runtime
  pg_platform :: platform

text \<open>A callback of the platform, as the runtime sees it: what it throws and what it leaves of the store.\<close>

definition callback :: "unit pf_act \<Rightarrow> platform \<Rightarrow> deviceStore \<Rightarrow> js_error option \<times> deviceStore" where
  "callback m s st = (case m (s\<lparr>pf_store := st\<rparr>) of (outs, r, s') \<Rightarrow>
     (case r of Inl e \<Rightarrow> Some e | Inr x \<Rightarrow> None, pf_store s'))"

definition wired :: "pluginEnv \<Rightarrow> platform \<Rightarrow> runtimeEnv" where
  "wired env s = (pn_runtime env)\<lparr>re_registry := pf_registry s,
     re_inventoryListener := (\<lambda>ids. callback (registerDiscoveredDevices (pn_platform env) ids) s),
     re_removalListener := (\<lambda>d. callback (removeDiscoveredDevice (pn_platform env) d) s)\<rparr>"

text \<open>What the platform hears of a step: the callbacks, and the notifications of the store its accessories listen to.\<close>

fun hear :: "platformEnv \<Rightarrow> runtimeOutput \<Rightarrow> unit pf_act" where
  "hear penv (Inventory ids st) =
    act_then (act_modify (\<lambda>s. s\<lparr>pf_store := st\<rparr>)) (registerDiscoveredDevices penv ids)"
| "hear penv (DeviceRemoved d) = removeDiscoveredDevice penv d"
| "hear penv (HealthPushed account byDevice) = applyMonitoringHealth penv account byDevice"
| "hear penv (RtStore (Notified i next previous changed)) = live_update penv i next"
| "hear penv _ = act_return ()"

fun hear_all :: "platformEnv \<Rightarrow> runtimeOutput list \<Rightarrow> unit pf_act" where
  "hear_all penv [] = act_return ()"
| "hear_all penv (x # xs) = act_bind (act_attempt (hear penv x)) (\<lambda>thrown. hear_all penv xs)"

definition plugin_moves :: "pluginEnv \<Rightarrow> runtimeEvent \<Rightarrow> plugin \<Rightarrow> runtimeOutput list \<times> platformOutput list \<times> plugin" where
  "plugin_moves env ev p =
    (case rt_step (wired env (pg_platform p)) ev (pg_runtime p) of (os, s) \<Rightarrow>
      (case hear_all (pn_platform env) os (pg_platform p) of (outs, r, pf) \<Rightarrow>
        (os, outs, \<lparr>pg_runtime = s, pg_platform = pf\<lparr>pf_store := rt_store s\<rparr>\<rparr>)))"

datatype pluginEvent =
    CacheRestored platformAccessory
  | DidFinishLaunching
  | ShutdownAsked
  | RuntimeMoved runtimeEvent

fun plugin_step :: "pluginEnv \<Rightarrow> pluginEvent \<Rightarrow> plugin \<Rightarrow> runtimeOutput list \<times> platformOutput list \<times> plugin" where
  "plugin_step env (CacheRestored a) p =
    (case configureAccessory (pn_platform env) a (pg_platform p) of (outs, r, pf) \<Rightarrow> ([], outs, p\<lparr>pg_platform := pf\<rparr>))"
| "plugin_step env DidFinishLaunching p = plugin_moves env (Started (knownDeviceIds (pg_platform p))) p"
| "plugin_step env ShutdownAsked p = plugin_moves env Stopped p"
| "plugin_step env (RuntimeMoved ev) p = plugin_moves env ev p"

text \<open>The runtime is started and stopped by the events of Homebridge alone.\<close>

fun owners_call :: "runtimeEvent \<Rightarrow> bool" where
  "owners_call (Started ids) = True"
| "owners_call Stopped = True"
| "owners_call _ = False"

fun plugin_enabled :: "plugin \<Rightarrow> pluginEvent \<Rightarrow> bool" where
  "plugin_enabled p (RuntimeMoved ev) = (\<not> owners_call ev \<and> AccountRuntime.enabled (pg_runtime p) ev)"
| "plugin_enabled p _ = True"

definition createPlugin :: "json option \<Rightarrow> plugin" where
  "createPlugin anchorFile = \<lparr>pg_runtime = createAccountRuntime anchorFile, pg_platform = createPlatform\<rparr>"

inductive plugin_reachable :: "plugin \<Rightarrow> bool" where
  plugin_created: "plugin_reachable (createPlugin file)"
| plugin_stepped: "plugin_reachable p \<Longrightarrow> plugin_enabled p e \<Longrightarrow> plugin_step env e p = (os, outs, p') \<Longrightarrow> plugin_reachable p'"

section \<open>What a run keeps\<close>

lemma keeps_store_configure: "keeps pf_store (configureAccessory env a)"
proof -
  have "keeps pf_store (new_object q)" "keeps pf_store (pf_pass i pass)" "keeps pf_store (pf_log l)" for q i pass l
    by (auto simp: keeps_def new_object_def pf_pass_def pf_log_def act_emit_def split: option.split prod.split)
  then show ?thesis unfolding configureAccessory_def by (auto intro!: keeps_branches)
qed

text \<open>One store: the runtime is reachable by steps of its own, and the platform holds the runtime's store.\<close>

lemma plugin_reachable_parts:
  "plugin_reachable p \<Longrightarrow> reachable (pg_runtime p) \<and> pf_store (pg_platform p) = rt_store (pg_runtime p)"
proof (induction rule: plugin_reachable.induct)
  case (plugin_created stored)
  show ?case using reachable_created [of stored] by (simp add: createPlugin_def) (simp add: createAccountRuntime_def createPlatform_def)
next
  case (plugin_stepped p e env os outs p')
  have moved: "reachable (pg_runtime p') \<and> pf_store (pg_platform p') = rt_store (pg_runtime p')"
    if "plugin_moves env ev p = (os, outs, p')" "AccountRuntime.enabled (pg_runtime p) ev" for ev
    using that plugin_stepped.IH reachable_step
    by (fastforce simp: plugin_moves_def split: prod.splits)
  show ?case
  proof (cases e)
    case (CacheRestored a)
    then show ?thesis
      using plugin_stepped.IH plugin_stepped.hyps(3) keepsD [OF keeps_store_configure, of "pn_platform env" a "pg_platform p"]
      by (auto split: prod.splits)
  qed (use plugin_stepped.hyps moved in \<open>auto simp: enabled_def\<close>)
qed

section \<open>Removals\<close>

lemma inventory_no_removal: "emits (\<lambda>x. x \<noteq> Unregistered u) (registerDiscoveredDevices env ids)"
  by (induction env ids rule: registerDiscoveredDevices.induct)
    (auto intro!: emits_no_removal weaker [OF emits_none_log] split: option.split)

lemma hear_removal:
  assumes "Unregistered u \<in> set (fst (hear env x s))"
  shows "\<exists>d. x = DeviceRemoved d \<and> u = pe_uuid env d"
proof (cases "(env, x)" rule: hear.cases)
  case (2 penv d)
  with assms show ?thesis
    by (auto simp: removeDiscoveredDevice_def Let_def act_bind_cases act_then_def act_defs split: option.splits)
next
  case (1 penv ids st)
  have "emits (\<lambda>x. x \<noteq> Unregistered u) (hear penv (Inventory ids st))"
    by (auto intro!: inventory_no_removal)
  from emitsD [OF this] assms 1 show ?thesis by auto
next
  case (3 penv account byDevice)
  from emitsD [OF weaker [OF emits_none_health], of "Unregistered u"] assms 3 show ?thesis by fastforce
next
  case (4 penv i next' previous changed)
  from emitsD [OF weaker [OF emits_none_live], of "Unregistered u"] assms 4 show ?thesis by fastforce
qed (use assms in \<open>simp_all add: act_return_def\<close>)

lemma hear_all_removal:
  "Unregistered u \<in> set (fst (hear_all env xs s)) \<Longrightarrow> \<exists>d. DeviceRemoved d \<in> set xs \<and> u = pe_uuid env d"
proof (induction xs arbitrary: s)
  case (Cons x xs)
  then show ?case
    by (auto simp: act_bind_cases act_attempt_cases dest: hear_removal)
qed (simp add: act_return_def)

lemma inventory_returns: "returns (registerDiscoveredDevices env ids)"
  by (induction env ids rule: registerDiscoveredDevices.induct) (auto intro!: returns_attempt simp: pf_log_def split: option.split)

lemma wired_inventory_accepted: "fst (re_inventoryListener (wired env s) ids st) = None"
proof -
  obtain x where "fst (snd (registerDiscoveredDevices (pn_platform env) ids (s\<lparr>pf_store := st\<rparr>))) = Inr x"
    using inventory_returns unfolding returns_def by blast
  then show ?thesis by (simp add: wired_def callback_def case_prod_beta)
qed

text \<open>
  A run of the plugin with the inventories it has taken in, the latest first: the identifiers of every
  inventory the vendor answered while the plugin was running, whoever asked for it.
\<close>

fun inventories_of :: "pluginEvent \<Rightarrow> plugin \<Rightarrow> string list list" where
  "inventories_of (RuntimeMoved ev) p = inventory_of ev (pg_runtime p)"
| "inventories_of e p = []"

inductive plugin_history :: "string list list \<Rightarrow> plugin \<Rightarrow> bool" where
  history_created: "plugin_history [] (createPlugin file)"
| history_stepped: "plugin_history hist p \<Longrightarrow> plugin_enabled p e \<Longrightarrow> plugin_step env e p = (os, outs, p') \<Longrightarrow>
    plugin_history (inventories_of e p @ hist) p'"

lemma plugin_has_history: "plugin_reachable p \<Longrightarrow> \<exists>hist. plugin_history hist p"
  by (induction rule: plugin_reachable.induct) (blast intro: history_created history_stepped)+

lemma plugin_history_parts:
  "plugin_history hist p \<Longrightarrow> plugin_reachable p \<and> omitted hist (rt_reconciliation (pg_runtime p))"
proof (induction rule: plugin_history.induct)
  case (history_created stored)
  have "omitted [] (rt_reconciliation (createAccountRuntime stored))"
    by (simp add: omitted_def createAccountRuntime_def jm_wf_def jm_get_def)
  then show ?case by (simp add: plugin_created) (simp add: createPlugin_def)
next
  case (history_stepped hist p e env os outs p')
  have moved: "omitted (inventory_of ev (pg_runtime p) @ hist) (rt_reconciliation (pg_runtime p'))"
    if m: "plugin_moves env ev p = (os, outs, p')" for ev
  proof -
    obtain s where step: "rt_step (wired env (pg_platform p)) ev (pg_runtime p) = (os, s)" "pg_runtime p' = s"
      using m by (auto simp: plugin_moves_def split: prod.splits)
    show ?thesis
      using omitted_step [OF conjunct2 [OF history_stepped.IH] step(1) wired_inventory_accepted] step(2) by simp
  qed
  have "plugin_reachable p'" using history_stepped plugin_stepped by blast
  moreover have "omitted (inventories_of e p @ hist) (rt_reconciliation (pg_runtime p'))"
  proof (cases e)
    case (CacheRestored a)
    then show ?thesis using history_stepped by (auto split: prod.splits)
  next
    case DidFinishLaunching
    then show ?thesis using history_stepped.hyps(3) moved [of "Started (knownDeviceIds (pg_platform p))"] by simp
  next
    case ShutdownAsked
    then show ?thesis using history_stepped.hyps(3) moved [of Stopped] by simp
  next
    case (RuntimeMoved ev)
    then show ?thesis using history_stepped.hyps(3) moved [of ev] by simp
  qed
  ultimately show ?case by blast
qed

text \<open>
  C10. An accessory leaves HomeKit only after the final check. In every run of the whole plugin, a step that unregisters a UUID
  is the answer of a final check that was made for a device of that UUID: the last two inventories the plugin took in,
  one right after the other, both omitted the device, and the fresh inventory of the check does not name it either. No
  other event unregisters anything, whatever the vendor answers and whatever HomeKit throws.
\<close>

theorem unregistered_only_after_the_final_check:
  assumes "plugin_history hist p" and "plugin_enabled p e" and "plugin_step env e p = (os, outs, p')"
    and "Unregistered u \<in> set outs"
  shows "\<exists>d caller n ids fresh latest previous earlier.
    e = RuntimeMoved (FinalCheckAnswer caller n ids (Inr fresh))
    \<and> u = pe_uuid (pn_platform env) d \<and> d \<in> set ids \<and> d \<notin> ad_deviceId ` set fresh
    \<and> hist = latest # previous # earlier \<and> d \<notin> set latest \<and> d \<notin> set previous"
proof -
  note parts = plugin_history_parts [OF assms(1)]
  have moved: "\<exists>d caller n ids fresh latest previous earlier. ev = FinalCheckAnswer caller n ids (Inr fresh)
      \<and> u = pe_uuid (pn_platform env) d \<and> d \<in> set ids \<and> d \<notin> ad_deviceId ` set fresh
      \<and> hist = latest # previous # earlier \<and> d \<notin> set latest \<and> d \<notin> set previous"
    if m: "plugin_moves env ev p = (os, outs, p')" and e: "AccountRuntime.enabled (pg_runtime p) ev" for ev
  proof -
    obtain s where step: "rt_step (wired env (pg_platform p)) ev (pg_runtime p) = (os, s)"
      and "outs = fst (hear_all (pn_platform env) os (pg_platform p))"
      using m by (auto simp: plugin_moves_def split: prod.splits)
    then obtain d where d: "DeviceRemoved d \<in> set os" "u = pe_uuid (pn_platform env) d"
      using assms(4) hear_all_removal by blast
    from removal_needs_the_final_check [OF conjunct1 [OF plugin_reachable_parts [OF conjunct1 [OF parts]]] e step d(1)]
    obtain caller n ids fresh where check: "ev = FinalCheckAnswer caller n ids (Inr fresh)" "d \<in> set ids"
      "d \<notin> ad_deviceId ` set fresh" "missed (rt_reconciliation (pg_runtime p)) d" by blast
    then show ?thesis using missed_twice [OF conjunct2 [OF parts]] d(2) by metis
  qed
  show ?thesis
  proof (cases e)
    case (CacheRestored a)
    have "emits no_registration (configureAccessory (pn_platform env) a)"
      unfolding configureAccessory_def by (auto intro!: emits_none)
    from emitsD [OF this, of "Unregistered u" "pg_platform p"] CacheRestored assms(3,4) show ?thesis
      by (auto split: prod.splits)
  next
    case (RuntimeMoved ev)
    then show ?thesis using moved [of ev] assms(2,3) by simp
  qed (use assms(2,3) moved in \<open>fastforce simp: enabled_def\<close>)+
qed

section \<open>A refused account\<close>

lemma hear_all_append: "hear_all env (xs @ ys) = act_then (hear_all env xs) (hear_all env ys)"
proof (induction xs)
  case (Cons x xs)
  show ?case
    unfolding append_Cons hear_all.simps Cons
    by (rule ext) (simp add: act_then_def act_bind_cases act_attempt_cases split: sum.split)
qed (simp add: act_then_def act_bind_def act_return_def fun_eq_iff split: prod.split sum.split)

fun unheard :: "runtimeOutput \<Rightarrow> bool" where
  "unheard (RtLog l) = True"
| "unheard (CloseShadow c) = True"
| "unheard _ = False"

lemma hear_all_unheard: "list_all unheard xs \<Longrightarrow> hear_all env xs s = ([], Inr (), s)"
proof (induction xs)
  case (Cons x xs)
  then have "hear env x s = ([], Inr (), s)" by (cases x) (simp_all add: act_return_def)
  with Cons show ?case by (simp add: act_bind_cases act_attempt_cases)
qed (simp add: act_return_def)

lemma hear_halt:
  "hear_all env (halt_outputs renv rt) s =
    (let account = refused_trust rt; (outs, r, s') = applyMonitoringHealth env account (trusts renv rt account) s
     in (outs, Inr (), s'))"
proof -
  have logs: "list_all unheard (map RtLog ls)" for ls by (simp add: list_all_iff)
  have close: "list_all unheard (case rt_shadow rt of None \<Rightarrow> [] | Some c \<Rightarrow> [CloseShadow c])" by (simp split: option.split)
  show ?thesis
    unfolding halt_outputs_def hear_all_append act_then_def
    by (simp add: act_bind_cases act_attempt_cases hear_all_unheard [OF logs] hear_all_unheard [OF close] act_return_def
        Let_def case_prod_beta)
qed

text \<open>What is pushed on the trust report of one service of one accessory, by either half of the plugin.\<close>

fun on_trust_report :: "serviceKey \<Rightarrow> hapCall \<Rightarrow> bool" where
  "on_trust_report k (UpdateCharacteristic k' c v) = (k' = k \<and> c = StatusActive)"
| "on_trust_report k (UpdateWithError k' c n) = (k' = k \<and> c = StatusActive)"
| "on_trust_report k call = False"

fun trust_push :: "nat \<Rightarrow> serviceKey \<Rightarrow> platformOutput \<Rightarrow> hapCall option" where
  "trust_push i k (OnAccessory j (HapDid call)) = (if j = i \<and> on_trust_report k call then Some call else None)"
| "trust_push i k (OnServices j (PassDid call)) = (if j = i \<and> on_trust_report k call then Some call else None)"
| "trust_push i k out = None"

definition trust_pushes :: "nat \<Rightarrow> serviceKey \<Rightarrow> platformOutput list \<Rightarrow> hapCall list" where
  "trust_pushes i k outs = picked (trust_push i k) outs"

lemma trust_pushes_simps [simp]:
  "trust_pushes i k [] = []" "trust_pushes i k (xs @ ys) = trust_pushes i k xs @ trust_pushes i k ys"
  "trust_pushes i k (PfLog l # outs) = trust_pushes i k outs"
  by (simp_all add: trust_pushes_def)

text \<open>The last thing such a report is given is the error.\<close>

definition ends_in_error :: "int \<Rightarrow> nat \<Rightarrow> serviceKey \<Rightarrow> platformOutput list \<Rightarrow> bool" where
  "ends_in_error status i k outs =
    (trust_pushes i k outs \<noteq> [] \<and> last (trust_pushes i k outs) = UpdateWithError k StatusActive status)"

lemma pass_trust_pushes:
  "set (trust_pushes i k (map (OnServices j) (fst (markTrustReportsUnreadable env status services))))
    = (if j = i \<and> k \<in> set services \<and> pa_testThrows env k = None \<and> ha_tested (pa_hap env) k ''StatusActive''
         \<and> ha_throws (pa_hap env) (UpdateWithError k StatusActive status) = None
       then {UpdateWithError k StatusActive status} else {})"
proof -
  have one: "trust_pushes i k (map (OnServices j) (unreadable_pushes env status k'))
      = (if j = i \<and> k' = k \<and> ha_throws (pa_hap env) (UpdateWithError k StatusActive status) = None
         then [UpdateWithError k StatusActive status] else [])" for k'
    by (auto simp: trust_pushes_def unreadable_pushes_def unreadable_call_def throws_def)
  have "set (trust_pushes i k (map (OnServices j) (concat (map (unreadable_pushes env status) ks))))
      = (if j = i \<and> k \<in> set ks \<and> ha_throws (pa_hap env) (UpdateWithError k StatusActive status) = None
         then {UpdateWithError k StatusActive status} else {})" for ks
    by (induction ks) (auto simp: one)
  then show ?thesis
    using passes_are_exact [of env status services]
    by (auto simp: trust_reports_def carries_def)
qed

lemma mark_unreadable_pushes:
  "set (trust_pushes i k (fst (mark_unreadable env xs s))) \<subseteq> {UpdateWithError k StatusActive (pe_communicationFailure env)}
   \<and> (i \<in> set xs \<longrightarrow> jm_get (pf_objects s) i = Some a \<longrightarrow> k \<in> set (pl_services a) \<longrightarrow>
      pa_testThrows (pe_pass env i) k = None \<longrightarrow> ha_tested (pa_hap (pe_pass env i)) k ''StatusActive'' \<longrightarrow>
      ha_throws (pa_hap (pe_pass env i)) (UpdateWithError k StatusActive (pe_communicationFailure env)) = None \<longrightarrow>
      trust_pushes i k (fst (mark_unreadable env xs s)) \<noteq> [])"
proof (induction xs arbitrary: s)
  case (Cons j xs)
  let ?mark = "markTrustReportsUnreadable (pe_pass env j) (pe_communicationFailure env)"
  let ?pass = "pf_pass j ?mark"
  let ?k = "\<lambda>counts. act_then (if failed counts > 0 then pf_log (LError ''Unable to mark cached monitoring trust unreadable.'') else act_return ())
    (act_bind (mark_unreadable env xs) (\<lambda>marked. act_return (reached counts + marked)))"
  define s1 where "s1 = snd (snd (?pass s))"
  obtain c where c: "fst (snd (?pass s)) = Inr c" using pass_returns unfolding returns_def by blast
  have same: "pf_objects s1 = pf_objects s" unfolding s1_def by (rule keepsD [OF keeps_objects_pass])
  have "trust_pushes i k (fst (mark_unreadable env (j # xs) s))
      = trust_pushes i k (fst (?pass s)) @ trust_pushes i k (fst (?k c s1))"
    using c by (simp add: act_bind_cases s1_def)
  also have "trust_pushes i k (fst (?k c s1)) = trust_pushes i k (fst (mark_unreadable env xs s1))"
    by (auto simp: act_then_def act_bind_cases pf_log_def act_defs split: sum.splits)
  finally have split: "trust_pushes i k (fst (mark_unreadable env (j # xs) s))
      = trust_pushes i k (fst (?pass s)) @ trust_pushes i k (fst (mark_unreadable env xs s1))" .
  have pass: "fst (?pass s) = (case jm_get (pf_objects s) j of None \<Rightarrow> []
      | Some b \<Rightarrow> map (OnServices j) (fst (?mark (pl_services b))))"
    by (simp add: pf_pass_def split: option.split prod.split)
  have only: "set (trust_pushes i k (fst (?pass s))) \<subseteq> {UpdateWithError k StatusActive (pe_communicationFailure env)}"
    using pass_trust_pushes [of i k j "pe_pass env j" "pe_communicationFailure env"]
    by (auto simp: pass split: option.splits if_splits)
  show ?case
  proof (intro conjI impI)
    show "set (trust_pushes i k (fst (mark_unreadable env (j # xs) s)))
        \<subseteq> {UpdateWithError k StatusActive (pe_communicationFailure env)}"
      using only Cons.IH [of s1] unfolding split by simp
    assume i: "i \<in> set (j # xs)" and a: "jm_get (pf_objects s) i = Some a"
      and reports: "k \<in> set (pl_services a)" "pa_testThrows (pe_pass env i) k = None"
        "ha_tested (pa_hap (pe_pass env i)) k ''StatusActive''"
        "ha_throws (pa_hap (pe_pass env i)) (UpdateWithError k StatusActive (pe_communicationFailure env)) = None"
    show "trust_pushes i k (fst (mark_unreadable env (j # xs) s)) \<noteq> []"
    proof (cases "i = j")
      case True
      then have "set (trust_pushes i k (fst (?pass s))) \<noteq> {}"
        using a reports pass_trust_pushes [of i k j "pe_pass env j" "pe_communicationFailure env" "pl_services a"]
        by (simp add: pass)
      then show ?thesis unfolding split by auto
    next
      case False
      then show ?thesis using i a reports Cons.IH [of s1] same unfolding split by simp
    qed
  qed
qed (simp add: act_return_def)

lemma health_marks:
  assumes "mt_credentialsRejected account" and "(uuid, i) \<in> set (pf_accessories s)"
    and "jm_get (pf_objects (snd (snd (applyMonitoringHealth env account byDevice s)))) i = Some a"
    and "k \<in> set (pl_services a)" and "pa_testThrows (pe_pass env i) k = None"
    and "ha_tested (pa_hap (pe_pass env i)) k ''StatusActive''"
    and "ha_throws (pa_hap (pe_pass env i)) (UpdateWithError k StatusActive (pe_communicationFailure env)) = None"
  shows "ends_in_error (pe_communicationFailure env) i k (fst (applyMonitoringHealth env account byDevice s))"
proof -
  let ?push = "push_to_instances env account byDevice (pf_instances s)"
  define s1 where "s1 = snd (snd (?push s))"
  define xs where "xs = map snd (pf_accessories s1)"
  define tail where "tail = (\<lambda>marked :: nat. if xs \<noteq> [] \<and> marked = 0 then pf_log (LError NOTHING_MARKED) else act_return ())"
  have ok: "fst (snd (?push s)) = Inr ()" using push_returns unfolding returns_def by (metis old.unit.exhaust)
  have "books s1 = books s" unfolding s1_def by (rule keepsD [OF keeps_books_push])
  then have i: "i \<in> set xs" using assms(2) by (force simp: books_def xs_def)
  have run: "applyMonitoringHealth env account byDevice s =
      (case act_bind (mark_unreadable env xs) tail s1 of (outs, r) \<Rightarrow> (fst (?push s) @ outs, r))"
    using ok assms(1) unfolding s1_def xs_def tail_def
    by (simp add: applyMonitoringHealth_def act_then_def act_run act_bind_cases act_get_def case_prod_beta)
  have "keeps pf_objects (act_bind (mark_unreadable env xs) tail)"
    unfolding tail_def by (auto intro!: mark_unreadable_calm keeps_objects_log)
  then have "jm_get (pf_objects s1) i = Some a"
    using assms(3) keepsD [of pf_objects "act_bind (mark_unreadable env xs) tail" s1] by (simp add: run case_prod_beta)
  then have marks: "trust_pushes i k (fst (mark_unreadable env xs s1)) \<noteq> []"
      "set (trust_pushes i k (fst (mark_unreadable env xs s1))) \<subseteq> {UpdateWithError k StatusActive (pe_communicationFailure env)}"
    using mark_unreadable_pushes [of i k env xs s1 a] i assms(4-) by blast+
  have "trust_pushes i k (fst (tail marked t)) = []" for marked t
    by (simp add: tail_def pf_log_def act_defs)
  then have "trust_pushes i k (fst (applyMonitoringHealth env account byDevice s))
      = trust_pushes i k (fst (?push s)) @ trust_pushes i k (fst (mark_unreadable env xs s1))"
    unfolding run by (simp add: case_prod_beta act_bind_cases split: sum.split)
  then show ?thesis
    using marks(1) subsetD [OF marks(2) last_in_set [OF marks(1)]] unfolding ends_in_error_def by simp
qed

lemma refused_everywhere: "mt_credentialsRejected (trust_of (refused_trust rt) (trusts renv rt (refused_trust rt)) d)"
proof -
  have "jm_get (map (\<lambda>d. (d, f d)) ds) d = (if d \<in> set ds then Some (f d) else None)" for f :: "string \<Rightarrow> monitoringTrust" and ds
    by (induction ds) (auto simp: jm_get_def)
  then show ?thesis by (simp add: trust_of_def trusts_def refused_trust_def)
qed

text \<open>
  C7. A refused account is visible on every accessory. When the vendor refuses the credentials for good, in whichever request,
  that very step leaves every instance the plugin publishes with the refusal as its trust. It then ends with the error on the
  trust report of every accessory, the ones restored from the cache included: of every service that carries
  \<open>StatusActive\<close>, the last value the step gives it is the communication failure, so nothing the same step pushed
  before, the new trust among it, is what HomeKit reads. What the other services or accessories throw makes no
  difference; a service is excepted only where HAP throws when asked for the characteristic or when given the error
  itself. In the same step the runtime halts, says so in one line and closes its connection.
\<close>

theorem refused_account_reaches_homekit:
  assumes "plugin_reachable p" and "\<not> hasFinished (pg_runtime p)" and "terminal_answer ev"
    and "plugin_step env (RuntimeMoved ev) p = (os, outs, p')"
  shows "os = halt_outputs (wired env (pg_platform p)) (pg_runtime p) \<and> rt_halted (pg_runtime p')
    \<and> list_all (\<lambda>(uuid, i). pred_option (\<lambda>a. mt_credentialsRejected (acc_monitoring a)) (instance_of (pg_platform p') i))
        (pf_instances (pg_platform p))
    \<and> (\<forall>uuid i a k. (uuid, i) \<in> set (pf_accessories (pg_platform p)) \<longrightarrow>
        jm_get (pf_objects (pg_platform p')) i = Some a \<longrightarrow> k \<in> set (pl_services a) \<longrightarrow>
        pa_testThrows (pe_pass (pn_platform env) i) k = None \<longrightarrow>
        ha_tested (pa_hap (pe_pass (pn_platform env) i)) k ''StatusActive'' \<longrightarrow>
        ha_throws (pa_hap (pe_pass (pn_platform env) i))
          (UpdateWithError k StatusActive (pe_communicationFailure (pn_platform env))) = None \<longrightarrow>
        ends_in_error (pe_communicationFailure (pn_platform env)) i k outs)"
proof -
  let ?env = "pn_platform env" and ?rt = "pg_runtime p" and ?pf = "pg_platform p"
  let ?account = "refused_trust ?rt" and ?byDevice = "trusts (wired env ?pf) ?rt (refused_trust ?rt)"
  define health where "health = applyMonitoringHealth ?env ?account ?byDevice ?pf"
  obtain s where step: "rt_step (wired env ?pf) ev ?rt = (os, s)"
    using assms(4) by (auto simp: plugin_moves_def split: prod.splits)
  have halt: "os = halt_outputs (wired env ?pf) ?rt" "rt_halted s"
    using refusal_is_reported_once [OF _ assms(2,3) step] plugin_reachable_parts [OF assms(1)] by blast+
  have "outs = fst health" and p': "p' = \<lparr>pg_runtime = s, pg_platform = (snd (snd health))\<lparr>pf_store := rt_store s\<rparr>\<rparr>"
    using assms(4) step by (auto simp: plugin_moves_def halt(1) hear_halt health_def Let_def split: prod.splits)
  moreover have "pred_option (\<lambda>a. mt_credentialsRejected (acc_monitoring a)) (instance_of (snd (snd health)) i)"
    if "(uuid, i) \<in> set (pf_instances ?pf)" for uuid i
  proof -
    have "answered_by ?account ?byDevice i (snd (snd health))"
      using health_answers that unfolding health_def by blast
    then show ?thesis by (auto simp: answered_by_def refused_everywhere split: option.splits)
  qed
  ultimately show ?thesis
    using halt health_marks [of ?account _ _ ?pf ?env ?byDevice] unfolding health_def
    by (auto simp: list_all_iff instance_of_def refused_trust_def)
qed

section \<open>The answering callbacks\<close>

text \<open>
  The callbacks keep what the runtime relies on. The inventory callback never throws into a poll, and the health callback
  never throws into a report. The removal callback throws exactly what Homebridge threw for an accessory the plugin
  holds, and then leaves the store as it was; a removal Homebridge took has dropped the device from the store.
\<close>

theorem callbacks_keep_their_promises:
  "fst (re_inventoryListener (wired env s) ids st) = None
   \<and> fst (snd (applyMonitoringHealth (pn_platform env) account byDevice s)) = Inr ()
   \<and> (let uuid = pe_uuid (pn_platform env) d in
       re_removalListener (wired env s) d st =
         (if jm_get (pf_accessories s) uuid = None then (None, st)
          else case pe_unregisterThrows (pn_platform env) uuid of
              Some e \<Rightarrow> (Some e, st) | None \<Rightarrow> (None, store_remove d st)))"
proof (intro conjI)
  show "fst (re_inventoryListener (wired env s) ids st) = None" by (rule wired_inventory_accepted)
  show "let uuid = pe_uuid (pn_platform env) d in
       re_removalListener (wired env s) d st =
         (if jm_get (pf_accessories s) uuid = None then (None, st)
          else case pe_unregisterThrows (pn_platform env) uuid of
              Some e \<Rightarrow> (Some e, st) | None \<Rightarrow> (None, store_remove d st))"
    by (auto simp: wired_def callback_def removeDiscoveredDevice_def Let_def act_run act_then_def act_bind_cases act_defs
        split: option.split)
qed (rule health_run)

text \<open>
  C40. A device without an accessory is never let go. When the final check confirms the departure of a device the plugin has
  not published, one of a family it does not support or one whose registration threw, the runtime drops its absence
  count, its arrival stamp and its anchor, but the store keeps its snapshot: it goes on being listed for the shadow
  subscription, and the next message of it that the store takes sets its stamp and its anchor again.
\<close>

theorem unpublished_device_is_never_let_go:
  assumes "jm_get (pf_accessories pf) (pe_uuid (pn_platform env) d) = None" and "d \<notin> set stillPresent"
    and "patch_taken (rt_store s) d patch" and "hasTelemetryReading patch"
  shows "let env' = wired env pf;
      gone = snd (snd (check_removal env' stillPresent d s));
      heard = snd (snd (handleReportedPatch env' d patch gone))
    in watch d gone = ((None, None), None) \<and> rt_store gone = rt_store s
      \<and> fst (watch d heard) = (Some (re_monotonic env'), Some (re_now env'))"
proof -
  define env' where "env' = wired env pf"
  have answer: "re_removalListener env' d st = (None, st)" for st
    using assms(1) by (simp add: env'_def wired_def callback_def removeDiscoveredDevice_def Let_def act_run act_return_def)
  define gone where "gone = post (check_removal env' stillPresent d) s"
  have "removes env' d" by (simp add: removes_def answer)
  then have "watch d gone = ((None, None), None)" unfolding gone_def by (rule watch_check_removal(3) [OF assms(2)])
  moreover have store: "rt_store gone = rt_store s"
    using assms(2) by (simp add: gone_def check_removal_def answer)
  moreover have "fst (watch d (post (handleReportedPatch env' d patch) gone)) = (Some (re_monotonic env'), Some (re_now env'))"
    using assms(3,4) by (auto simp: reported_post store keeps_marks_live_report Let_def split: prod.split)
      (simp_all add: watch_def stamps_recorded)
  ultimately show ?thesis unfolding env'_def [symmetric] Let_def gone_def post_def by blast
qed

section \<open>Runs of the plugin\<close>

text \<open>What is true of a platform state stays true.\<close>

definition preserves :: "(platform \<Rightarrow> bool) \<Rightarrow> 'a pf_act \<Rightarrow> bool" where
  "preserves P m = (\<forall>s. P s \<longrightarrow> P (snd (snd (m s))))"

lemma preserves_rules:
  "preserves P (act_return x)" "preserves P (act_emit os)" "preserves P (act_throw e)" "preserves P (act_get g)"
  "preserves P m \<Longrightarrow> (\<And>x. preserves P (k x)) \<Longrightarrow> preserves P (act_bind m k)"
  "preserves P m' \<Longrightarrow> preserves P n \<Longrightarrow> preserves P (act_then m' n)"
  "preserves P m' \<Longrightarrow> preserves P (act_attempt m')"
  "(\<And>s. P s \<Longrightarrow> P (f s)) \<Longrightarrow> preserves P (act_modify f)"
  by (auto simp: preserves_def act_defs act_bind_cases act_attempt_cases split: sum.splits)

definition has_accessory :: "string \<Rightarrow> platform \<Rightarrow> bool" where
  "has_accessory u s = (jm_get (pf_accessories s) u \<noteq> None)"

lemma books_published: "keeps books m \<Longrightarrow> preserves (has_accessory u) m"
  unfolding preserves_def has_accessory_def keeps_def books_def by (metis prod.inject)

lemma inventory_published: "preserves (has_accessory u) (registerDiscoveredDevices env ids)"
proof (induction env ids rule: registerDiscoveredDevices.induct)
  case (2 env d ids)
  have ask: "preserves (has_accessory u) (ask_registration env uuid d i)" for uuid i
    unfolding ask_registration_def
    by (cases "pe_registerThrows env uuid")
      (auto intro!: preserves_rules books_published [OF keeps_books_log] simp: has_accessory_def subscribeToLiveState_def)
  have register: "preserves (has_accessory u) (register_device env uuid d snapshot)" for uuid snapshot
    unfolding register_device_def
    by (intro preserves_rules ask books_published [OF keeps_books_new] books_published [OF keeps_books_create]
        books_published [OF keeps_books_on_instance])
  have "has_accessory u s \<Longrightarrow> has_accessory u (snd (snd (dispatchDiscoveredDevice env d s)))" for s
    by (rule dispatch_elim)
      (use register books_published [OF keeps_books_update, of u] in \<open>auto simp: preserves_def act_return_def has_accessory_def\<close>)
  then have "preserves (has_accessory u) (dispatchDiscoveredDevice env d)" by (simp add: preserves_def)
  with 2 show ?case by (auto intro!: preserves_rules books_published [OF keeps_books_log] split: option.split)
qed (simp add: preserves_rules)

lemma heard_published: "\<forall>d. x \<noteq> DeviceRemoved d \<Longrightarrow> preserves (has_accessory u) (hear env x)"
  by (cases "(env, x)" rule: hear.cases)
    (auto intro!: preserves_rules inventory_published books_published [OF keeps_books_health] books_published [OF keeps_books_live]
      simp: has_accessory_def)

lemma all_heard_published: "\<forall>d. DeviceRemoved d \<notin> set xs \<Longrightarrow> preserves (has_accessory u) (hear_all env xs)"
  by (induction xs) (auto intro!: preserves_rules heard_published)

text \<open>One step of the runtime that is not the answer of a final check.\<close>

lemma plugin_goes_on:
  assumes "plugin_reachable p" and "has_accessory u (pg_platform p)"
    and "e = RuntimeMoved ev \<and> \<not> owners_call ev \<or> e = DidFinishLaunching \<and> ev = Started (knownDeviceIds (pg_platform p))"
    and "AccountRuntime.enabled (pg_runtime p) ev" and "\<forall>caller n ids fresh. ev \<noteq> FinalCheckAnswer caller n ids fresh"
    and "\<exists>os. rt_step (wired env (pg_platform p)) ev (pg_runtime p) = (os, rt)"
  shows "\<exists>p'. plugin_reachable p' \<and> pg_runtime p' = rt \<and> has_accessory u (pg_platform p')"
proof -
  obtain os where step: "rt_step (wired env (pg_platform p)) ev (pg_runtime p) = (os, rt)" using assms(6) by blast
  obtain outs r pf where heard: "hear_all (pn_platform env) os (pg_platform p) = (outs, r, pf)" using prod_cases3 by blast
  have "\<forall>d. DeviceRemoved d \<notin> set os"
    using removal_needs_the_final_check [OF conjunct1 [OF plugin_reachable_parts [OF assms(1)]] assms(4) step] assms(5) by blast
  then have "has_accessory u pf"
    using all_heard_published [of os u "pn_platform env"] assms(2) heard unfolding preserves_def by (metis snd_conv)
  moreover have "plugin_step env e p = (os, outs, \<lparr>pg_runtime = rt, pg_platform = pf\<lparr>pf_store := rt_store rt\<rparr>\<rparr>)"
    using assms(3) step heard by (auto simp: plugin_moves_def)
  moreover have "plugin_enabled p e" using assms(3,4) by auto
  ultimately show ?thesis using plugin_stepped [OF assms(1)] by (fastforce simp: has_accessory_def)
qed

definition demo_plugin_env :: pluginEnv where
  "demo_plugin_env = \<lparr>pn_runtime = demo_runtime_env, pn_platform = sample_env\<rparr>"

definition cached_accessory :: platformAccessory where
  "cached_accessory = owned_accessory\<lparr>pl_uuid := ''u-d'', pl_device := Some (device_context ''d'' ''wayneWaterGemini'')\<rparr>"

lemma demo_wired_quiet: "quiet_inventory (wired demo_plugin_env s)"
  by (simp add: quiet_inventory_def wired_def callback_def demo_plugin_env_def demo_runtime_env_def act_return_def fun_eq_iff)

lemma cached_known:
  "snd (snd (configureAccessory sample_env cached_accessory createPlatform))
    = createPlatform\<lparr>pf_objects := [(0, cached_accessory\<lparr>pl_instance := None\<rparr>)], pf_nextObject := 1, pf_accessories := [(''u-d'', 0)]\<rparr>"
  by (simp add: configureAccessory_def new_object_def pf_pass_def pf_log_def act_then_def act_bind_cases act_defs case_prod_beta
      cached_accessory_def owned_accessory_def createPlatform_def jm_set_def jm_get_def)

lemma demo_launched:
  "\<exists>p. plugin_reachable p \<and> has_accessory ''u-d'' (pg_platform p)
    \<and> pg_runtime p = demo_at False (createArrivalAnchors None) [(''d'', 0)] [InventoryFetch Launching]"
proof -
  obtain outs r pf where c: "configureAccessory sample_env cached_accessory createPlatform = (outs, r, pf)" using prod_cases3 by blast
  let ?p = "\<lparr>pg_runtime = createAccountRuntime None, pg_platform = pf\<rparr>"
  have pf: "pf = createPlatform\<lparr>pf_objects := [(0, cached_accessory\<lparr>pl_instance := None\<rparr>)], pf_nextObject := 1,
      pf_accessories := [(''u-d'', 0)]\<rparr>"
    using cached_known c by simp
  have ids: "knownDeviceIds pf = [''d'']"
    by (simp add: pf knownDeviceIds_def known_device_def cached_accessory_def device_context_def js_set_def jm_get_def
        List.map_filter_def)
  have "has_accessory ''u-d'' pf" by (simp add: pf has_accessory_def jm_get_def)
  moreover have "plugin_reachable ?p"
    by (rule plugin_stepped [OF plugin_created [of None], of "CacheRestored cached_accessory" demo_plugin_env])
      (simp_all add: createPlugin_def demo_plugin_env_def c)
  ultimately have "\<exists>p. plugin_reachable p \<and> pg_runtime p = demo_at False (createArrivalAnchors None) [] [RestoringAnchors [''d'']]
      \<and> has_accessory ''u-d'' (pg_platform p)"
    by (intro plugin_goes_on [where p = ?p and e = DidFinishLaunching and ev = "Started [''d'']" and env = demo_plugin_env])
      (simp_all add: ids enabled_def demo_opening)
  then obtain p where p: "plugin_reachable p" "has_accessory ''u-d'' (pg_platform p)"
    "pg_runtime p = demo_at False (createArrivalAnchors None) [] [RestoringAnchors [''d'']]" by blast
  have "\<exists>p'. plugin_reachable p' \<and> pg_runtime p' = demo_at False (createArrivalAnchors None) [(''d'', 0)] [InventoryFetch Launching]
      \<and> has_accessory ''u-d'' (pg_platform p')"
    by (rule plugin_goes_on [OF p(1,2), where e = "RuntimeMoved (Restored [''d''] False None)"
          and ev = "Restored [''d''] False None" and env = demo_plugin_env])
      (simp_all add: p(3) enabled_def demo_opening)
  then show ?thesis by blast
qed

lemma demo_checking:
  "\<exists>p a. plugin_reachable p \<and> has_accessory ''u-d'' (pg_platform p)
    \<and> pg_runtime p = demo_at True a [(''d'', 2)] [CredentialsFetch, FinalCheck PollLoop 0 [''d'']]"
proof -
  have goes_on: "\<exists>p'. plugin_reachable p' \<and> pg_runtime p' = rt \<and> has_accessory ''u-d'' (pg_platform p')"
    if "plugin_reachable p" "has_accessory ''u-d'' (pg_platform p)" "\<not> owners_call ev" "AccountRuntime.enabled (pg_runtime p) ev"
      "\<forall>caller n ids fresh. ev \<noteq> FinalCheckAnswer caller n ids fresh"
      "\<exists>os. rt_step (wired demo_plugin_env (pg_platform p)) ev (pg_runtime p) = (os, rt)" for p ev rt
    using that by (intro plugin_goes_on [where e = "RuntimeMoved ev" and env = demo_plugin_env]) auto
  obtain p where p: "plugin_reachable p" "has_accessory ''u-d'' (pg_platform p)"
    "pg_runtime p = demo_at False (createArrivalAnchors None) [(''d'', 0)] [InventoryFetch Launching]"
    using demo_launched by blast
  obtain os a where "rt_step (wired demo_plugin_env (pg_platform p)) (InventoryAnswer Launching (Inr [])) (pg_runtime p)
      = (os, demo_at True a [(''d'', 1)] [Waiting PollWait 300000, CredentialsFetch])"
    unfolding p(3) using demo_launch [OF demo_wired_quiet] by blast
  then obtain q where q: "plugin_reachable q" "has_accessory ''u-d'' (pg_platform q)"
    "pg_runtime q = demo_at True a [(''d'', 1)] [Waiting PollWait 300000, CredentialsFetch]"
    using goes_on [OF p(1,2), of "InventoryAnswer Launching (Inr [])"] by (auto simp: p(3) enabled_def)
  then obtain q' where q': "plugin_reachable q'" "has_accessory ''u-d'' (pg_platform q')"
    "pg_runtime q' = demo_at True a [(''d'', 1)] [CredentialsFetch, InventoryFetch PollLoop]"
    using goes_on [OF q(1,2), of "Fired PollWait 300000"] demo_turn by (auto simp: q(3) enabled_def)
  obtain os' where "rt_step (wired demo_plugin_env (pg_platform q')) (InventoryAnswer PollLoop (Inr [])) (pg_runtime q')
      = (os', demo_at True a [(''d'', 2)] [CredentialsFetch, FinalCheck PollLoop 0 [''d'']])"
    unfolding q'(3) using demo_poll [OF demo_wired_quiet] by blast
  then show ?thesis using goes_on [OF q'(1,2), of "InventoryAnswer PollLoop (Inr [])"] by (auto simp: q'(3) enabled_def)
qed

lemma other_removal_published:
  "\<forall>d. x = DeviceRemoved d \<longrightarrow> pe_uuid env d \<noteq> u \<Longrightarrow> preserves (has_accessory u) (hear env x)"
proof (cases "\<exists>d. x = DeviceRemoved d")
  case True
  assume "\<forall>d. x = DeviceRemoved d \<longrightarrow> pe_uuid env d \<noteq> u"
  with True show ?thesis
    by (auto simp: preserves_def removeDiscoveredDevice_def Let_def act_then_def act_bind_cases act_defs has_accessory_def
        split: option.split)
qed (simp add: heard_published)

lemma heard_removal:
  assumes "pe_unregisterThrows env u = None"
  shows "\<lbrakk>DeviceRemoved d \<in> set xs; pe_uuid env d = u; has_accessory u s\<rbrakk> \<Longrightarrow> Unregistered u \<in> set (fst (hear_all env xs s))"
proof (induction xs arbitrary: s)
  case (Cons x xs)
  show ?case
  proof (cases "\<exists>d'. x = DeviceRemoved d' \<and> pe_uuid env d' = u")
    case True
    then have "Unregistered u \<in> set (fst (hear env x s))"
      using assms Cons.prems(3)
      by (auto simp: removeDiscoveredDevice_def Let_def act_then_def act_bind_cases act_defs has_accessory_def)
    then show ?thesis by (simp add: act_bind_cases act_attempt_cases)
  next
    case False
    then have "has_accessory u (snd (snd (hear env x s)))"
      using other_removal_published [of x env u] Cons.prems(3) unfolding preserves_def by blast
    moreover have "DeviceRemoved d \<in> set xs" using False Cons.prems(1,2) by auto
    ultimately have "Unregistered u \<in> set (fst (hear_all env xs (snd (snd (hear env x s)))))"
      using Cons.IH Cons.prems(2) by blast
    then show ?thesis by (simp add: act_bind_cases act_attempt_cases)
  qed
qed simp

theorem unregistered_only_after_the_final_check_witness:
  "\<exists>p os outs p' hist. plugin_history hist p
    \<and> plugin_step demo_plugin_env (RuntimeMoved (FinalCheckAnswer PollLoop 0 [''d''] (Inr []))) p = (os, outs, p')
    \<and> Unregistered ''u-d'' \<in> set outs \<and> (\<exists>d latest previous earlier. ''u-d'' = pe_uuid sample_env d
      \<and> hist = latest # previous # earlier \<and> d \<notin> set latest \<and> d \<notin> set previous)"
proof -
  let ?e = "RuntimeMoved (FinalCheckAnswer PollLoop 0 [''d''] (Inr []))"
  obtain p a where p: "plugin_reachable p" "has_accessory ''u-d'' (pg_platform p)"
    "pg_runtime p = demo_at True a [(''d'', 2)] [CredentialsFetch, FinalCheck PollLoop 0 [''d'']]" using demo_checking by blast
  obtain hist where hist: "plugin_history hist p" using plugin_has_history [OF p(1)] by blast
  obtain os rt where step: "rt_step (wired demo_plugin_env (pg_platform p)) (FinalCheckAnswer PollLoop 0 [''d''] (Inr []))
      (pg_runtime p) = (os, rt)" by fastforce
  have "DeviceRemoved ''d'' \<in> set os" using demo_removal step unfolding p(3) by (metis fst_conv)
  from heard_removal [OF _ this, of sample_env "''u-d''" "pg_platform p"] p(2)
  have gone: "Unregistered ''u-d'' \<in> set (fst (hear_all sample_env os (pg_platform p)))" by (simp add: sample_env_def)
  obtain outs p' where moved: "plugin_step demo_plugin_env ?e p = (os, outs, p')"
    "outs = fst (hear_all sample_env os (pg_platform p))"
    using step by (simp add: plugin_moves_def demo_plugin_env_def case_prod_beta)
  have "plugin_enabled p ?e" by (simp add: p(3) enabled_def)
  from unregistered_only_after_the_final_check [OF hist this moved(1), of "''u-d''"] gone moved(2)
  have "\<exists>d latest previous earlier. ''u-d'' = pe_uuid sample_env d
      \<and> hist = latest # previous # earlier \<and> d \<notin> set latest \<and> d \<notin> set previous"
    by (auto simp: demo_plugin_env_def)
  then show ?thesis using hist moved gone by blast
qed

theorem refused_account_reaches_homekit_witness:
  "\<exists>p os outs p'. plugin_step demo_plugin_env (RuntimeMoved (InventoryAnswer Launching (Inl (AuthRejectedError [] [])))) p
      = (os, outs, p') \<and> rt_halted (pg_runtime p')"
proof -
  let ?ev = "InventoryAnswer Launching (Inl (AuthRejectedError [] []))"
  obtain p where p: "plugin_reachable p" "has_accessory ''u-d'' (pg_platform p)"
    "pg_runtime p = demo_at False (createArrivalAnchors None) [(''d'', 0)] [InventoryFetch Launching]"
    using demo_launched by blast
  obtain os outs p' where step: "plugin_step demo_plugin_env (RuntimeMoved ?ev) p = (os, outs, p')" using prod_cases3 by blast
  have "\<not> hasFinished (pg_runtime p)" by (simp add: p(3))
  from refused_account_reaches_homekit [OF p(1) this _ step] have "rt_halted (pg_runtime p')" by simp
  with step show ?thesis by blast
qed

theorem unpublished_device_is_never_let_go_witness:
  "fst (watch ''d1'' (snd (snd (handleReportedPatch (wired demo_plugin_env createPlatform) ''d1'' (demo_patch 7)
     (snd (snd (check_removal (wired demo_plugin_env createPlatform) [] ''d1'' demo_silent)))))))
    = (Some 10, Some 1000)"
proof -
  have "jm_get (pf_accessories createPlatform) (pe_uuid (pn_platform demo_plugin_env) ''d1'') = None"
    by (simp add: createPlatform_def jm_get_def)
  moreover have "patch_taken demo_polled ''d1'' (demo_patch 7)" by code_simp
  then have "patch_taken (rt_store demo_silent) ''d1'' (demo_patch 7)" by (simp add: demo_silent_def)
  moreover have "hasTelemetryReading (demo_patch 7)" by (simp add: hasTelemetryReading_def demo_patch_def jm_keys_def)
  ultimately show ?thesis
    using unpublished_device_is_never_let_go [of createPlatform demo_plugin_env "''d1''" "[]" demo_silent "demo_patch 7"]
    by (simp add: Let_def wired_def demo_plugin_env_def demo_runtime_env_def)
qed

end
