(* ===== verification/Assembly.thy ===== *)
theory Assembly
  imports Plugin Config CloudApi ShadowClient AuthProperties
begin

text \<open>
  How the plugin is put together from its configuration: the constructor in \<open>src/src/platform.ts\<close> and
  \<open>createAccountRuntimeFromConfig\<close> of \<open>src/src/runtime/accountRuntime.ts\<close>. What the constructor leaves to the
  process, the clocks, the digest and the answers of HAP and Homebridge, is in \<open>adapters\<close>, which may differ from
  one step to the next; what it takes from the configuration and the bundled constants is fixed. The theorems follow a
  setting and an answer of the vendor through all of the parts.
\<close>

section \<open>Constants and settings\<close>

record protocolConstants =
  pc_apiUrl :: string
  pc_clientId :: string
  pc_auth0Url :: string
  pc_auth0Realm :: string
  pc_awsRegion :: string
  pc_protocol :: string

definition PROTOCOL :: protocolConstants where
  "PROTOCOL = \<lparr>pc_apiUrl = ''https://api.iot8020.com'', pc_clientId = ''6QsGT46CLgeTRGbDDGUwSANLPRA4n5Zs'',
     pc_auth0Url = ''https://connectsense-staging.auth0.com'', pc_auth0Realm = ''wayne-water'',
     pc_awsRegion = ''us-east-1'', pc_protocol = ''wss''\<rparr>"

definition REQUEST_TIMEOUT_MS :: millis where
  "REQUEST_TIMEOUT_MS = 10000"

record adapters =
  wd_now :: millis
  wd_monotonic :: millis
  wd_sha256 :: "string \<Rightarrow> string"
  wd_crypto :: sigCrypto
  wd_dateParse :: "string \<Rightarrow> millis option"
  wd_store :: storeEnv
  wd_platform :: platformEnv

section \<open>The collaborators\<close>

definition auth_of :: "bgConfig \<Rightarrow> adapters \<Rightarrow> authEnv" where
  "auth_of config world = \<lparr>au_now = wd_now world, au_sha256 = wd_sha256 world, au_email = bg_email config,
     au_password = bg_password config, au_clientId = bg_clientId config, au_realm = pc_auth0Realm PROTOCOL\<rparr>"

definition api_of :: cloudApiOptions where
  "api_of = \<lparr>api_baseUrl = pc_apiUrl PROTOCOL, api_requestTimeoutMs = REQUEST_TIMEOUT_MS\<rparr>"

definition signing_of :: "adapters \<Rightarrow> handshakeSigning" where
  "signing_of world = \<lparr>hs_crypto = wd_crypto world, hs_region = pc_awsRegion PROTOCOL, hs_now = Fin (wd_now world)\<rparr>"

text \<open>A setting is a finite number once it was accepted.\<close>

definition millis_of_seconds :: "jsnum \<Rightarrow> millis" where
  "millis_of_seconds x = (case finite_of x of Some r \<Rightarrow> r * 1000 | None \<Rightarrow> 0)"

text \<open>The listeners and the registry are given by the platform; see \<open>wired\<close>.\<close>

definition createAccountRuntimeFromConfig :: "bgConfig \<Rightarrow> adapters \<Rightarrow> runtimeEnv" where
  "createAccountRuntimeFromConfig config world =
    \<lparr>re_now = wd_now world, re_monotonic = wd_monotonic world, re_store = wd_store world,
     re_registry = createFamilyRegistry, re_pollIntervalMs = millis_of_seconds (bg_pollIntervalSeconds config),
     re_rotationLeadMs = ROTATION_LEAD_MS, re_minRotationDelayMs = MIN_ROTATION_DELAY_MS,
     re_maxBackoffMs = MAX_BACKOFF_MS, re_reminderMs = FAILURE_REMINDER_MS, re_dateParse = wd_dateParse world,
     re_inventoryListener = (\<lambda>ids st. (None, st)), re_removalListener = (\<lambda>d st. (None, st))\<rparr>"

definition discoveryContext :: "bgConfig \<Rightarrow> adapters \<Rightarrow> platformEnv" where
  "discoveryContext config world = (wd_platform world)\<lparr>pe_ignoredFaults := bg_ignoredFaults config,
     pe_offlineConfirmationPollCount := bg_offlineConfirmationPollCount config\<rparr>"

definition assemble :: "bgConfig \<Rightarrow> adapters \<Rightarrow> pluginEnv" where
  "assemble config world = \<lparr>pn_runtime = createAccountRuntimeFromConfig config world,
     pn_platform = discoveryContext config world\<rparr>"

text \<open>A plugin whose configuration was refused has no runtime and hears no event.\<close>

definition construct_plugin :: "jobj \<Rightarrow> json option \<Rightarrow> log_line list \<times> (bgConfig \<times> plugin) option" where
  "construct_plugin raw anchorFile = (case construct_platform (pc_clientId PROTOCOL) raw of
      (logs, None) \<Rightarrow> (logs, None)
    | (logs, Some (secret, config)) \<Rightarrow> (logs, Some (config, createPlugin anchorFile)))"

inductive assembled_run :: "bgConfig \<Rightarrow> plugin \<Rightarrow> bool" where
  assembled_start: "construct_plugin raw anchorFile = (logs, Some (config, p)) \<Longrightarrow> assembled_run config p"
| assembled_step: "assembled_run config p \<Longrightarrow> plugin_enabled p e \<Longrightarrow>
    plugin_step (assemble config world) e p = (os, outs, p') \<Longrightarrow> assembled_run config p'"

lemma assembled_reachable: "assembled_run config p \<Longrightarrow> plugin_reachable p"
proof (induction rule: assembled_run.induct)
  case (assembled_start raw stored logs config p)
  then show ?case
    by (auto simp: construct_plugin_def split: prod.splits option.splits intro: plugin_created)
qed (auto intro: plugin_stepped)

text \<open>What the settings of a constructed plugin are.\<close>

lemma assembled_settings:
  assumes "assembled_run config p"
  obtains n where "bg_pollIntervalSeconds config = Fin (of_int n)" "300 \<le> n" "n \<le> 3600"
  using assms
proof (induction arbitrary: thesis rule: assembled_run.induct)
  case (assembled_start raw stored logs config p)
  then have "validateConfig (pc_clientId PROTOCOL) raw = Inr config"
    by (auto simp: construct_plugin_def construct_platform_def split: sum.splits prod.splits)
  from accepted_settings_are_valid [OF this] assembled_start(2) show ?case by blast
qed blast

section \<open>The pace of the loops\<close>

text \<open>
  A wait in the task list fits when its length is one its loop may have asked for, \<open>W\<close>; an armed timer fits when it is
  the first of a wait this step may ask for, \<open>V\<close>. Requests for the inventory may be allowed or not.
\<close>

definition fits :: "(waitKind \<Rightarrow> millis \<Rightarrow> bool) \<Rightarrow> runtimeTask \<Rightarrow> bool" where
  "fits W t = (case t of Waiting k d \<Rightarrow> W k d | _ \<Rightarrow> True)"

definition first_timer :: "millis \<Rightarrow> millis" where
  "first_timer d = (if d > MAX_TIMEOUT_DELAY_MS then MAX_TIMEOUT_DELAY_MS else d)"

definition paced_output :: "bool \<Rightarrow> (waitKind \<Rightarrow> millis \<Rightarrow> bool) \<Rightarrow> runtimeOutput \<Rightarrow> bool" where
  "paced_output fetches V x = (case x of
      ArmTimer k y \<Rightarrow> \<exists>d. V k d \<and> y = first_timer d | FetchInventory \<Rightarrow> fetches | _ \<Rightarrow> True)"

definition paced :: "bool \<Rightarrow> (waitKind \<Rightarrow> millis \<Rightarrow> bool) \<Rightarrow> (waitKind \<Rightarrow> millis \<Rightarrow> bool) \<Rightarrow> (runtimeOutput, runtime, 'a) handler \<Rightarrow> bool" where
  "paced fetches V W m = (\<forall>s. list_all (fits W) (rt_tasks s) \<longrightarrow>
     list_all (paced_output fetches V) (fst (m s)) \<and> list_all (fits W) (rt_tasks (snd (snd (m s)))))"

named_theorems paced_rules

lemma paced_basic [paced_rules]:
  "paced F V W (act_return x)" "paced F V W (act_throw e)" "paced F V W (act_get g)"
  "list_all (paced_output F V) os \<Longrightarrow> paced F V W (act_emit os)"
  "(\<And>s. rt_tasks (h s) = rt_tasks s) \<Longrightarrow> paced F V W (act_modify h)"
  by (simp_all add: paced_def act_defs)

lemma paced_bind [paced_rules]: "paced F V W m \<Longrightarrow> (\<And>x. paced F V W (k x)) \<Longrightarrow> paced F V W (act_bind m k)"
  by (auto simp: paced_def act_bind_cases split: sum.splits)

lemma paced_then [paced_rules]: "paced F V W m \<Longrightarrow> paced F V W k \<Longrightarrow> paced F V W (act_then m k)"
  unfolding act_then_def by (rule paced_bind)

lemma paced_branches [paced_rules]:
  "(c \<Longrightarrow> paced F V W m) \<Longrightarrow> (\<not> c \<Longrightarrow> paced F V W n) \<Longrightarrow> paced F V W (if c then m else n)"
  "(p = None \<Longrightarrow> paced F V W m) \<Longrightarrow> (\<And>x. p = Some x \<Longrightarrow> paced F V W (k x)) \<Longrightarrow>
    paced F V W (case p of None \<Rightarrow> m | Some x \<Rightarrow> k x)"
  "(\<And>x y. q = (x, y) \<Longrightarrow> paced F V W (h x y)) \<Longrightarrow> paced F V W (case q of (x, y) \<Rightarrow> h x y)"
  "(\<And>x y z. r = (x, y, z) \<Longrightarrow> paced F V W (j x y z)) \<Longrightarrow> paced F V W (case r of (x, y, z) \<Rightarrow> j x y z)"
  by (simp_all split: option.splits prod.splits)

lemma paced_logs [simp]:
  "list_all (paced_output F V) (map RtLog ls)" "list_all (paced_output F V) (map RtStore es)"
  by (simp_all add: list_all_iff paced_output_def)

lemma paced_outputs [simp]:
  "paced_output F V (RtLog l)" "paced_output F V (RtStore e)" "paced_output F V RestoreAnchors"
  "paced_output F V PersistAnchors" "paced_output F V FetchCredentials" "paced_output F V (SecretRegistered t role)"
  "paced_output F V (CreateShadow c)" "paced_output F V (StartShadow c ids)" "paced_output F V (CloseShadow c)"
  "paced_output F V (Inventory ids st)" "paced_output F V (DeviceRemoved d)" "paced_output F V (HealthPushed a b)"
  "paced_output F V (SendCommand n d f)" "paced_output F V (CommandAnswered n r)"
  "paced_output F V FetchInventory = F"
  by (simp_all add: paced_output_def)

text \<open>Reporting touches no loop.\<close>

lemma paced_reports [paced_rules]:
  "paced F V W (rt_failure env kind reason)" "paced F V W (rt_success kind)" "paced F V W (pushMonitoringTrust env)"
  "paced F V W (closeQuietly c)"
  unfolding rt_failure_def rt_success_def pushMonitoringTrust_def closeQuietly_def Let_def
  by (auto intro!: paced_rules)

lemma paced_live [paced_rules]: "paced F V W (report_live env m)"
  by (induction env m rule: report_live.induct) (auto intro!: paced_rules)

lemma paced_health [paced_rules]:
  "paced F V W (reportMonitoringHealth env)" "paced F V W (recordPollSuccess env)" "paced F V W (recordPollFailure env e)"
  unfolding reportMonitoringHealth_def recordPollSuccess_def recordPollFailure_def Let_def
  by (auto intro!: paced_rules)

lemma paced_halt [paced_rules]: "paced F V W (haltOnTerminalAuthFailure env e)"
  unfolding haltOnTerminalAuthFailure_def by (auto intro!: paced_rules)

lemma paced_shadow_events [paced_rules]:
  "paced F V W handleShadowConnected" "paced F V W (handleShadowDisconnected env reason)"
  "paced F V W (handleReportedPatch env d patch)" "paced F V W (anchors_landed ok)"
  unfolding handleShadowConnected_def handleShadowDisconnected_def handleReportedPatch_def anchors_landed_def
  by (auto intro!: paced_rules)

lemma paced_tasks [paced_rules]:
  "fits W t \<Longrightarrow> paced F V W (rt_task t)" "paced F V W (wait_ended k)"
  "V k d \<Longrightarrow> W k d \<Longrightarrow> paced F V W (waitFor k d)" "V k d \<Longrightarrow> W k d \<Longrightarrow> paced F V W (waitWhileRunning k d)"
proof -
  show task: "paced F V W (rt_task t)" if "fits W t" for t
    using that by (simp add: rt_task_def paced_def act_defs)
  show ended: "paced F V W (wait_ended k)" by (auto simp: wait_ended_def intro!: paced_rules)
  show wait: "paced F V W (waitFor k d)" if "V k d" "W k d"
    unfolding waitFor_def
    using that by (auto intro!: paced_rules task ended simp: fits_def paced_output_def first_timer_def)
  show "paced F V W (waitWhileRunning k d)" if "V k d" "W k d"
    unfolding waitWhileRunning_def by (auto intro!: paced_rules ended wait that)
qed

text \<open>The waits the loops ask for are all of the given lengths.\<close>

definition loop_waits :: "runtimeEnv \<Rightarrow> (waitKind \<Rightarrow> millis \<Rightarrow> bool) \<Rightarrow> (waitKind \<Rightarrow> millis \<Rightarrow> bool) \<Rightarrow> bool" where
  "loop_waits env V W \<longleftrightarrow> V PollWait (re_pollIntervalMs env) \<and> V CredentialWait (re_minRotationDelayMs env)
    \<and> (\<forall>expiration now. V CredentialWait (rotationDelayMs env expiration now))
    \<and> (\<forall>p. V RetryWait (of_nat (fst (nextDelayMs (re_maxBackoffMs env) p))))
    \<and> (\<forall>k d. V k d \<longrightarrow> W k d)"

lemma paced_loops:
  assumes "loop_waits env V W"
  shows "paced F V W (next_poll env)" "paced F V W (finish_refresh env expiration)" "paced F V W (retry_loop env)"
    "paced F V W (retryShadow env)" "paced F V W refreshCredentials" "F \<Longrightarrow> paced F V W (fetch_inventory caller)"
    "paced F V W (startBackgroundWork env)"
proof -
  note asked = assms [unfolded loop_waits_def]
  show poll: "paced F V W (next_poll env)" unfolding next_poll_def using asked by (auto intro!: paced_rules)
  show "paced F V W (finish_refresh env expiration)" unfolding finish_refresh_def using asked by (auto intro!: paced_rules)
  show loop: "paced F V W (retry_loop env)"
    unfolding retry_loop_def
  proof (intro paced_rules)
    fix s :: runtime and delay retry'
    assume "nextDelayMs (re_maxBackoffMs env) (rt_connectRetry s) = (delay, retry')"
    then have "V RetryWait (of_nat delay)" using asked by (metis fst_conv)
    then show "V RetryWait (of_nat delay)" "W RetryWait (of_nat delay)" using asked by blast+
  qed simp_all
  show "paced F V W (retryShadow env)" unfolding retryShadow_def by (auto intro!: paced_rules loop)
  show fetch: "paced F V W refreshCredentials" unfolding refreshCredentials_def by (auto intro!: paced_rules simp: fits_def)
  show "paced F V W (fetch_inventory caller)" if F
    unfolding fetch_inventory_def using that by (auto intro!: paced_rules simp: fits_def)
  show "paced F V W (startBackgroundWork env)" unfolding startBackgroundWork_def by (auto intro!: paced_rules poll fetch)
qed

lemma paced_attempts:
  assumes "loop_waits env V W"
  shows "paced F V W (attempt_answered env caller refused)" "paced F V W (attemptShadow env caller)"
    "paced F V W (openShadow env caller)" "paced F V W (shadow_started env c ids caller ok)"
proof -
  show answered: "paced F V W (attempt_answered env caller refused)" for refused
    unfolding attempt_answered_def by (cases caller) (auto intro!: paced_rules paced_loops [OF assms])
  show attempt: "paced F V W (attemptShadow env caller)"
    unfolding attemptShadow_def start_client_def Let_def by (auto intro!: paced_rules answered simp: fits_def)
  show "paced F V W (openShadow env caller)" unfolding openShadow_def by (auto intro!: paced_rules answered attempt)
  show "paced F V W (shadow_started env c ids caller ok)"
    unfolding shadow_started_def by (auto intro!: paced_rules answered)
qed

lemma paced_credentials:
  assumes "loop_waits env V W"
  shows "paced F V W (credentials_answered env answer)"
proof (cases answer)
  case (Inl e)
  then show ?thesis
    unfolding credentials_answered_def using assms [unfolded loop_waits_def] by (auto intro!: paced_rules)
next
  case (Inr response)
  then show ?thesis
    unfolding credentials_answered_def
    by (auto intro!: paced_rules paced_loops [OF assms] paced_attempts [OF assms])
qed

lemma paced_devices [paced_rules]: "paced F V W (applyDevices env found)" "paced F V W (finish_removals env still ds)"
proof -
  have admit: "paced F V W (admit_devices env found)"
    by (induction found) (auto intro!: paced_rules)
  have "paced F V W (notify_inventory env ids)" "paced F V W (observe_inventory ids)" "paced F V W (release_silent env)" for ids
    unfolding notify_inventory_def observe_inventory_def release_silent_def by (auto intro!: paced_rules)
  then show "paced F V W (applyDevices env found)"
    unfolding applyDevices_def by (auto intro!: paced_rules admit)
  have "paced F V W (check_removal env still d)" for d
    unfolding check_removal_def by (auto intro!: paced_rules)
  then show "paced F V W (finish_removals env still ds)" by (induction ds) (auto intro!: paced_rules)
qed

text \<open>A throttled launch waits for the time its error names; no other failure asks for a relaunch.\<close>

definition relaunches :: "inventoryCaller \<Rightarrow> cloudError \<Rightarrow> millis option" where
  "relaunches caller e = (case caller of
      Launching \<Rightarrow> (case e of AuthThrottledError m t \<Rightarrow> Some t | _ \<Rightarrow> None) | PollLoop \<Rightarrow> None)"

lemma paced_failed:
  assumes "loop_waits env V W" and "\<And>t. relaunches caller e = Some t \<Longrightarrow> V RelaunchWait t"
  shows "paced F V W (inventory_failed env caller e)"
proof (cases caller)
  case Launching
  then have "V RelaunchWait t \<and> W RelaunchWait t" if "e = AuthThrottledError m t" for m t
    using assms that by (auto simp: relaunches_def loop_waits_def)
  then have "paced F V W (launchFailure env e)"
    unfolding launchFailure_def
    by (cases e) (auto intro!: paced_rules paced_loops [OF assms(1)])
  then show ?thesis using Launching by (simp add: inventory_failed_def)
next
  case PollLoop
  then show ?thesis
    unfolding inventory_failed_def poll_failed_def by (auto intro!: paced_rules paced_loops [OF assms(1)])
qed

lemma no_relaunch: "relaunches caller (js_as_cloud e) = None" "is_terminal err \<Longrightarrow> relaunches caller err = None"
  by (cases e; cases caller; simp add: relaunches_def js_as_cloud_def)
    (cases err; cases caller; simp add: relaunches_def)

lemma paced_inventories:
  assumes "loop_waits env V W"
  shows "paced F V W (inventory_applied env caller n)" "paced F V W (inventory_abandoned env caller)"
proof -
  show abandoned: "paced F V W (inventory_abandoned env caller)" for caller
    unfolding inventory_abandoned_def by (cases caller) (auto intro!: paced_rules paced_loops [OF assms])
  show "paced F V W (inventory_applied env caller n)"
    unfolding inventory_applied_def
    by (cases caller) (auto intro!: paced_rules abandoned paced_loops [OF assms] paced_attempts [OF assms])
qed

text \<open>The \<open>try\<close> around an inventory: what was done before the throw stays done.\<close>

lemma paced_try:
  assumes "paced F V W m" and "\<And>e. paced F V W (h e)" and "\<And>x. paced F V W (k x)"
  shows "paced F V W (\<lambda>s. case m s of (os, Inl e, s') \<Rightarrow> act_then (act_emit os) (h e) s'
    | (os, Inr x, s') \<Rightarrow> act_then (act_emit os) (k x) s')"
  unfolding paced_def
proof (intro allI impI)
  fix s :: runtime assume s: "list_all (fits W) (rt_tasks s)"
  obtain os r s' where run: "m s = (os, r, s')" using prod_cases3 by blast
  have left: "list_all (paced_output F V) os" "list_all (fits W) (rt_tasks s')"
    using assms(1) s run unfolding paced_def by force+
  have "paced F V W (act_then (act_emit os) (h e))" "paced F V W (act_then (act_emit os) (k x))" for e x
    by (intro paced_rules left(1) assms)+
  then show "list_all (paced_output F V) (fst (case m s of (os, Inl e, s') \<Rightarrow> act_then (act_emit os) (h e) s'
      | (os, Inr x, s') \<Rightarrow> act_then (act_emit os) (k x) s'))
    \<and> list_all (fits W) (rt_tasks (snd (snd (case m s of (os, Inl e, s') \<Rightarrow> act_then (act_emit os) (h e) s'
      | (os, Inr x, s') \<Rightarrow> act_then (act_emit os) (k x) s'))))"
    using left(2) unfolding run paced_def by (cases r) simp_all
qed

lemma paced_answers:
  assumes "loop_waits env V W"
  shows "F \<or> isl answer \<Longrightarrow> (\<And>e t. answer = Inl e \<Longrightarrow> relaunches caller e = Some t \<Longrightarrow> V RelaunchWait t) \<Longrightarrow>
      paced F V W (inventory_answered env caller answer)"
    and "paced F V W (final_check_answered env caller n confirmed answer)"
proof -
  show "paced F V W (inventory_answered env caller answer)"
    if fetches: "F \<or> isl answer" and told: "\<And>e t. answer = Inl e \<Longrightarrow> relaunches caller e = Some t \<Longrightarrow> V RelaunchWait t"
  proof (cases answer)
    case (Inl e)
    then show ?thesis using told by (simp add: inventory_answered_def paced_failed [OF assms])
  next
    case (Inr found)
    with fetches have F by simp
    then show ?thesis
      unfolding inventory_answered_def Inr sum.case
      by (intro paced_rules paced_inventories [OF assms] paced_failed [OF assms] paced_try)
        (simp_all add: fits_def no_relaunch)
  qed
  show "paced F V W (final_check_answered env caller n confirmed answer)"
    unfolding final_check_answered_def
    by (cases answer) (auto simp: no_relaunch intro!: paced_rules paced_inventories [OF assms] paced_failed [OF assms])
qed

text \<open>The events a request for the inventory can belong to.\<close>

fun asks_inventory :: "runtimeEvent \<Rightarrow> bool" where
  "asks_inventory (Restored ids present parsed) = True"
| "asks_inventory (Fired k d) = ((k = PollWait \<or> k = RelaunchWait) \<and> d \<le> MAX_TIMEOUT_DELAY_MS)"
| "asks_inventory (InventoryAnswer caller (Inr found)) = True"
| "asks_inventory _ = False"

text \<open>What an event may add to the waits: the time a throttled launch is told, and the rest of a long wait.\<close>

definition allows :: "(waitKind \<Rightarrow> millis \<Rightarrow> bool) \<Rightarrow> runtimeEvent \<Rightarrow> bool" where
  "allows V ev = ((\<forall>caller e t. ev = InventoryAnswer caller (Inl e) \<longrightarrow> relaunches caller e = Some t \<longrightarrow> V RelaunchWait t)
     \<and> (\<forall>k d. ev = Fired k d \<longrightarrow> d > MAX_TIMEOUT_DELAY_MS \<longrightarrow> V k (d - MAX_TIMEOUT_DELAY_MS)))"

lemma paced_handle:
  assumes "loop_waits env V W" and "F \<or> \<not> asks_inventory ev" and "allows V ev"
  shows "paced F V W (rt_handle env ev)"
proof (cases ev)
  case (Fired k d)
  have "paced F V W (loop_turn env k)" if "d \<le> MAX_TIMEOUT_DELAY_MS"
    using assms(2) Fired that
    by (cases k) (auto simp: loop_turn_def intro!: paced_loops [OF assms(1)] paced_attempts [OF assms(1)])
  moreover have "V k (d - MAX_TIMEOUT_DELAY_MS) \<and> W k (d - MAX_TIMEOUT_DELAY_MS)" if "d > MAX_TIMEOUT_DELAY_MS"
    using assms(1,3) Fired that unfolding loop_waits_def allows_def by blast
  ultimately show ?thesis unfolding Fired rt_handle.simps wait_fired_def by (auto intro!: paced_rules)
next
  case (InventoryAnswer caller answer)
  then show ?thesis
    using assms(2,3) by (cases answer) (auto simp: allows_def intro!: paced_answers [OF assms(1)])
next
  case (Restored ids present parsed)
  then show ?thesis
    using assms(2) unfolding Restored rt_handle.simps anchors_restored_def
    by (auto intro!: paced_rules paced_loops [OF assms(1)])
qed (auto simp: runtime_start_def runtime_stop_def command_send_def command_answered_def fits_def
    intro!: paced_rules paced_attempts [OF assms(1)] paced_credentials [OF assms(1)] paced_answers [OF assms(1)])

lemma paced_step:
  assumes "loop_waits env V W" and "F \<or> \<not> asks_inventory ev" and "allows V ev" and "list_all (fits W) (rt_tasks s)"
    and "rt_step env ev s = (os, s')"
  shows "list_all (paced_output F V) os" and "list_all (fits W) (rt_tasks s')"
proof -
  have "paced F V W (rt_handle env ev)" using assms(1-3) by (rule paced_handle)
  moreover have "list_all (fits W) (rt_tasks (take_task ev s))"
    using assms(4) by (auto simp: take_task_def list_all_iff split: option.split dest: notin_set_remove1)
  ultimately show "list_all (paced_output F V) os" "list_all (fits W) (rt_tasks s')"
    using assms(5) by (auto simp: paced_def rt_step_def split: prod.splits)
qed

text \<open>
  A request within the answer of an inventory is the one of the final check, for devices the inventory
  omits; what it will be compared with waits as the latest task.
\<close>

lemma check_request:
  assumes "loop_waits env V W" and "list_all (fits W) (rt_tasks s)"
    and "rt_step env (InventoryAnswer caller (Inr found)) s = (os, s')" and "FetchInventory \<in> set os"
  shows "\<exists>tasks ids. rt_tasks s' = tasks @ [FinalCheck caller (length found) ids] \<and> ids \<noteq> []
    \<and> (\<forall>d \<in> set ids. d \<notin> ad_deviceId ` set found)"
proof -
  let ?s = "take_task (InventoryAnswer caller (Inr found)) s"
  have fit: "list_all (fits W) (rt_tasks ?s)"
    using assms(2) by (auto simp: take_task_def list_all_iff dest: notin_set_remove1)
  have no: "FetchInventory \<notin> set (fst (m t))" if "paced False V W m" "list_all (fits W) (rt_tasks t)"
    for m :: "unit rt_act" and t
  proof
    assume "FetchInventory \<in> set (fst (m t))"
    with that have "paced_output False V FetchInventory" unfolding paced_def list_all_iff by blast
    then show False by simp
  qed
  obtain aos r a where applied: "applyDevices env found ?s = (aos, r, a)" using prod_cases3 by blast
  have "paced False V W (applyDevices env found)" by (rule paced_devices)
  then have a: "FetchInventory \<notin> set aos" "list_all (fits W) (rt_tasks a)"
    using fit applied unfolding paced_def by (force simp: list_all_iff)+
  have step: "os = fst (inventory_answered env caller (Inr found) ?s)" "s' = snd (snd (inventory_answered env caller (Inr found) ?s))"
    using assms(3) by (auto simp: rt_step_def split: prod.splits)
  have live: "\<not> hasFinished ?s"
    using assms(4) no [OF paced_inventories(2) [OF assms(1)] fit] unfolding step
    by (auto simp: inventory_answered_def act_run)
  have after: "inventory_answered env caller (Inr found) ?s = (case r of
      Inl e \<Rightarrow> act_then (act_emit aos) (inventory_failed env caller (js_as_cloud e)) a
    | Inr confirmed \<Rightarrow> act_then (act_emit aos) (if confirmed = [] then inventory_applied env caller (length found)
        else act_then (act_emit [FetchInventory]) (rt_task (FinalCheck caller (length found) confirmed))) a)"
    using live by (cases r) (simp_all add: inventory_answered_def act_run applied)
  have emitted: "act_then (act_emit xs) m t = (xs @ fst (m t), snd (m t))" for xs and m :: "unit rt_act" and t
    by (simp add: act_then_def act_bind_cases act_emit_def)
  show ?thesis
  proof (cases r)
    case (Inl e)
    have "FetchInventory \<notin> set (fst (inventory_failed env caller (js_as_cloud e) a))"
      by (rule no [OF paced_failed [OF assms(1)] a(2)]) (simp add: no_relaunch)
    then show ?thesis
      using assms(4) a(1) unfolding step after by (simp add: Inl emitted)
  next
    case (Inr confirmed)
    have "FetchInventory \<notin> set (fst (inventory_applied env caller n a))" for n
      by (rule no [OF paced_inventories(1) [OF assms(1)] a(2)])
    then have "confirmed \<noteq> []"
      using assms(4) a(1) unfolding step after by (auto simp: Inr emitted)
    moreover from this have "rt_tasks s' = rt_tasks a @ [FinalCheck caller (length found) confirmed]"
      unfolding step after by (simp add: Inr emitted rt_task_def act_modify_def)
    moreover have "confirmed = fst (observe (map ad_deviceId found) (rt_reconciliation ?s))"
      using applyDevices_observes [of found env] applied Inr unfolding observes_def by (metis fst_conv snd_conv)
    then have "\<forall>d \<in> set confirmed. d \<notin> ad_deviceId ` set found"
      by (auto simp: observe_def Let_def)
    ultimately show ?thesis by blast
  qed
qed

text \<open>The lengths of an accepted configuration.\<close>

definition asked_wait :: "millis \<Rightarrow> waitKind \<Rightarrow> millis \<Rightarrow> bool" where
  "asked_wait interval k d = (case k of
      RelaunchWait \<Rightarrow> True | PollWait \<Rightarrow> d = interval | CredentialWait \<Rightarrow> True | RetryWait \<Rightarrow> 500 \<le> d \<and> d \<le> 30000)"

text \<open>The waits one event may ask for.\<close>

definition rest_of :: "runtimeEvent \<Rightarrow> waitKind \<Rightarrow> millis \<Rightarrow> bool" where
  "rest_of ev k d = (case ev of Fired k' d' \<Rightarrow> k' = k \<and> d' > MAX_TIMEOUT_DELAY_MS \<and> d = d' - MAX_TIMEOUT_DELAY_MS | _ \<Rightarrow> False)"

definition told_to_wait :: "runtimeEvent \<Rightarrow> millis \<Rightarrow> bool" where
  "told_to_wait ev d = (case ev of InventoryAnswer caller (Inl e) \<Rightarrow> relaunches caller e = Some d | _ \<Rightarrow> False)"

definition step_wait :: "millis \<Rightarrow> runtimeEvent \<Rightarrow> waitKind \<Rightarrow> millis \<Rightarrow> bool" where
  "step_wait interval ev k d = (case k of
      RelaunchWait \<Rightarrow> told_to_wait ev d \<or> rest_of ev RelaunchWait d
    | PollWait \<Rightarrow> d = interval
    | CredentialWait \<Rightarrow> 30000 \<le> d \<or> rest_of ev CredentialWait d
    | RetryWait \<Rightarrow> 500 \<le> d \<and> d \<le> 30000)"

lemma assembled_waits:
  assumes "bg_pollIntervalSeconds config = Fin (of_int n)" and "n \<le> 3600"
  shows "loop_waits (wired (assemble config world) pf) (step_wait (of_int n * 1000) ev) (asked_wait (of_int n * 1000))"
    and "AccountRuntime.enabled s ev \<Longrightarrow> list_all (fits (asked_wait (of_int n * 1000))) (rt_tasks s) \<Longrightarrow>
      allows (step_wait (of_int n * 1000) ev) ev"
proof -
  let ?env = "wired (assemble config world) pf"
  have env: "re_pollIntervalMs ?env = of_int n * 1000" "re_minRotationDelayMs ?env = 30000" "re_maxBackoffMs ?env = 30000"
    using assms(1)
    by (simp_all add: wired_def assemble_def createAccountRuntimeFromConfig_def millis_of_seconds_def
        MIN_ROTATION_DELAY_MS_def MAX_BACKOFF_MS_def)
  have retry: "500 \<le> fst (nextDelayMs 30000 p) \<and> fst (nextDelayMs 30000 p) \<le> 30000" for p
  proof -
    have "(1::nat) \<le> 2 ^ retry_attempt p" by simp
    then show ?thesis by (simp add: nextDelayMs_def Let_def FIRST_RETRY_DELAY_MS_def)
  qed
  have "step_wait (of_int n * 1000) ev RetryWait (of_nat (fst (nextDelayMs 30000 p)))" for p
    using retry [of p] unfolding step_wait_def waitKind.case by (metis of_nat_le_iff of_nat_numeral)
  moreover have "30000 \<le> rotationDelayMs ?env expiration now" for expiration now
    by (simp add: rotationDelayMs_def env split: option.split)
  ultimately show "loop_waits ?env (step_wait (of_int n * 1000) ev) (asked_wait (of_int n * 1000))"
    unfolding loop_waits_def env by (auto simp: step_wait_def asked_wait_def split: waitKind.splits)
  show "allows (step_wait (of_int n * 1000) ev) ev"
    if "AccountRuntime.enabled s ev" "list_all (fits (asked_wait (of_int n * 1000))) (rt_tasks s)"
  proof -
    have long: "k = RelaunchWait \<or> k = CredentialWait" if "ev = Fired k d" "d > MAX_TIMEOUT_DELAY_MS" for k d
    proof -
      have "asked_wait (of_int n * 1000) k d"
        using \<open>AccountRuntime.enabled s ev\<close> \<open>list_all (fits (asked_wait (of_int n * 1000))) (rt_tasks s)\<close> that(1)
        by (auto simp: enabled_def fits_def list_all_iff)
      moreover have "of_int n * 1000 \<le> (3600000 :: millis)" using assms(2) by simp
      ultimately show ?thesis
        using that(2) by (cases k) (auto simp: asked_wait_def MAX_TIMEOUT_DELAY_MS_def)
    qed
    then show ?thesis by (auto simp: allows_def step_wait_def told_to_wait_def rest_of_def split: waitKind.split)
  qed
qed

section \<open>A plugin keeps its pace\<close>

text \<open>A step of the whole plugin is a step of its runtime, but for a restored accessory.\<close>

lemma plugin_step_runtime:
  assumes "plugin_step env e p = (os, outs, p')" and "plugin_enabled p e"
  shows "(\<exists>a. e = CacheRestored a \<and> os = [] \<and> pg_runtime p' = pg_runtime p)
    \<or> (\<exists>ev. (e = RuntimeMoved ev \<or> owners_call ev) \<and> AccountRuntime.enabled (pg_runtime p) ev
        \<and> rt_step (wired env (pg_platform p)) ev (pg_runtime p) = (os, pg_runtime p'))"
proof (cases e)
  case (CacheRestored a)
  then show ?thesis using assms(1) by (auto split: prod.splits)
next
  case DidFinishLaunching
  then have "rt_step (wired env (pg_platform p)) (Started (knownDeviceIds (pg_platform p))) (pg_runtime p) = (os, pg_runtime p')"
    using assms(1) by (auto simp: plugin_moves_def split: prod.splits)
  then show ?thesis by (intro disjI2 exI [of _ "Started (knownDeviceIds (pg_platform p))"]) (simp add: enabled_def)
next
  case ShutdownAsked
  then have "rt_step (wired env (pg_platform p)) Stopped (pg_runtime p) = (os, pg_runtime p')"
    using assms(1) by (auto simp: plugin_moves_def split: prod.splits)
  then show ?thesis by (intro disjI2 exI [of _ Stopped]) (simp add: enabled_def)
next
  case (RuntimeMoved ev)
  then show ?thesis using assms by (auto simp: plugin_moves_def split: prod.splits)
qed

lemma assembled_tasks:
  assumes "assembled_run config p" and "bg_pollIntervalSeconds config = Fin (of_int n)" and "n \<le> 3600"
  shows "list_all (fits (asked_wait (of_int n * 1000))) (rt_tasks (pg_runtime p))"
  using assms
proof (induction rule: assembled_run.induct)
  case (assembled_start raw stored logs config p)
  then show ?case
    by (auto simp: construct_plugin_def createPlugin_def createAccountRuntime_def split: prod.splits option.splits)
next
  case (assembled_step config p e world os outs p')
  show ?case
    using plugin_step_runtime [OF assembled_step.hyps(3,2)] assembled_step.IH [OF assembled_step.prems]
      paced_step(2) [OF assembled_waits(1) [OF assembled_step.prems] _ assembled_waits(2) [OF assembled_step.prems], where F = True]
    by auto
qed

text \<open>
  What a step may put out: a poll is waited for exactly the configured interval, a renewal of the credentials for half
  a minute at least, a retry of the connection for half a second to half a minute, a relaunch for the time a throttled
  login named; the rest of a wait too long for one timer is waited for once that timer fired. The inventory is asked for
  by a start, at the end of a full poll interval or of the last timer before a relaunch, and once more by an
  inventory that confirmed departures, for the final check of devices it did not name.
\<close>

definition keeps_pace :: "millis \<Rightarrow> pluginEvent \<Rightarrow> plugin \<Rightarrow> runtimeOutput \<Rightarrow> bool" where
  "keeps_pace interval e p' x = (case x of
      ArmTimer PollWait y \<Rightarrow> y = interval
    | ArmTimer RetryWait y \<Rightarrow> 500 \<le> y \<and> y \<le> 30000
    | ArmTimer CredentialWait y \<Rightarrow> 30000 \<le> y \<or> (case e of
          RuntimeMoved (Fired CredentialWait d) \<Rightarrow> d > MAX_TIMEOUT_DELAY_MS \<and> y = first_timer (d - MAX_TIMEOUT_DELAY_MS)
        | _ \<Rightarrow> False)
    | ArmTimer RelaunchWait y \<Rightarrow> (case e of
          RuntimeMoved (InventoryAnswer Launching (Inl (AuthThrottledError m t))) \<Rightarrow> y = first_timer t
        | RuntimeMoved (Fired RelaunchWait d) \<Rightarrow> d > MAX_TIMEOUT_DELAY_MS \<and> y = first_timer (d - MAX_TIMEOUT_DELAY_MS)
        | _ \<Rightarrow> False)
    | FetchInventory \<Rightarrow> (case e of
          RuntimeMoved (Restored ids present parsed) \<Rightarrow> True
        | RuntimeMoved (Fired PollWait d) \<Rightarrow> d = interval
        | RuntimeMoved (Fired RelaunchWait d) \<Rightarrow> d \<le> MAX_TIMEOUT_DELAY_MS
        | RuntimeMoved (InventoryAnswer caller (Inr found)) \<Rightarrow>
            (\<exists>tasks ids. rt_tasks (pg_runtime p') = tasks @ [FinalCheck caller (length found) ids] \<and> ids \<noteq> []
              \<and> (\<forall>d \<in> set ids. d \<notin> ad_deviceId ` set found))
        | _ \<Rightarrow> False)
    | _ \<Rightarrow> True)"

text \<open>
  C14. The plugin keeps the pace its owner configured. In every run of a plugin built from a configuration, every timer the
  poll loop arms is the configured interval, five minutes to an hour, in one piece; the other loops never spin on an
  empty wait: a renewal, a retry and a relaunch wait for what their own rules say. The vendor is asked for the inventory
  only by a start, by the end of such a full poll interval or of the wait a throttled launch was told, or, right after an
  inventory, for the final check of devices that inventory did not name; a successful inventory by itself asks for nothing.
\<close>

theorem polls_keep_the_configured_pace:
  assumes "assembled_run config p" and "plugin_enabled p e"
    and "plugin_step (assemble config world) e p = (os, outs, p')"
  shows "\<exists>n. bg_pollIntervalSeconds config = Fin (of_int n) \<and> 300 \<le> n \<and> n \<le> 3600
    \<and> list_all (keeps_pace (of_int n * 1000) e p') os"
proof -
  obtain n where n: "bg_pollIntervalSeconds config = Fin (of_int n)" "300 \<le> n" "n \<le> 3600"
    using assembled_settings [OF assms(1)] by blast
  have "list_all (keeps_pace (of_int n * 1000) e p') os"
    using plugin_step_runtime [OF assms(3,2)]
  proof (rule disjE)
    assume "\<exists>ev. (e = RuntimeMoved ev \<or> owners_call ev) \<and> AccountRuntime.enabled (pg_runtime p) ev
        \<and> rt_step (wired (assemble config world) (pg_platform p)) ev (pg_runtime p) = (os, pg_runtime p')"
    then obtain ev where ev: "e = RuntimeMoved ev \<or> owners_call ev" "AccountRuntime.enabled (pg_runtime p) ev"
      and step: "rt_step (wired (assemble config world) (pg_platform p)) ev (pg_runtime p) = (os, pg_runtime p')" by blast
    note tasks = assembled_tasks [OF assms(1) n(1,3)]
    let ?V = "step_wait (of_int n * 1000) ev"
    have paced: "list_all (paced_output (asks_inventory ev) ?V) os"
      by (rule paced_step(1) [OF assembled_waits(1) [OF n(1,3)] _ assembled_waits(2) [OF n(1,3) ev(2) tasks] tasks step]) simp
    have fired: "d = of_int n * 1000" if "ev = Fired PollWait d" for d
      using ev(2) tasks that by (auto simp: enabled_def fits_def list_all_iff asked_wait_def)
    have "keeps_pace (of_int n * 1000) e p' x" if x: "x \<in> set os" for x
    proof (cases x)
      case (ArmTimer k y)
      then obtain d where d: "?V k d" "y = first_timer d"
        using paced x by (force simp: list_all_iff paced_output_def)
      have one: "first_timer (of_int n * 1000) = of_int n * 1000" using n(3) by (simp add: first_timer_def MAX_TIMEOUT_DELAY_MS_def)
      show ?thesis
      proof (cases k)
        case RelaunchWait
        then have "told_to_wait ev d \<or> rest_of ev RelaunchWait d" using d(1) by (simp add: step_wait_def)
        then show ?thesis
          using ev(1) d(2) unfolding ArmTimer RelaunchWait keeps_pace_def
          by (auto simp: told_to_wait_def rest_of_def relaunches_def
              split: runtimeEvent.splits sum.splits inventoryCaller.splits cloudError.splits)
      next
        case CredentialWait
        then have "30000 \<le> d \<or> rest_of ev CredentialWait d" using d(1) by (simp add: step_wait_def)
        then show ?thesis
          using ev(1) d(2) unfolding ArmTimer CredentialWait keeps_pace_def
          by (auto simp: rest_of_def first_timer_def MAX_TIMEOUT_DELAY_MS_def split: runtimeEvent.splits)
      next
        case RetryWait
        then show ?thesis using d unfolding ArmTimer keeps_pace_def
          by (simp add: step_wait_def first_timer_def MAX_TIMEOUT_DELAY_MS_def)
      qed (use d one in \<open>simp add: ArmTimer keeps_pace_def step_wait_def\<close>)
    next
      case FetchInventory
      then have "asks_inventory ev" using paced x by (auto simp: list_all_iff)
      then show ?thesis
        using ev(1) fired check_request [OF assembled_waits(1) [OF n(1,3)] tasks] step x
        unfolding FetchInventory keeps_pace_def
        by (cases ev rule: asks_inventory.cases) auto
    qed (simp_all add: keeps_pace_def)
    then show "list_all (keeps_pace (of_int n * 1000) e p') os" by (auto simp: list_all_iff)
  qed auto
  with n show ?thesis by blast
qed

section \<open>What a failed grant does to the launch\<close>

fun armed :: "runtimeOutput \<Rightarrow> (waitKind \<times> millis) option" where
  "armed (ArmTimer k y) = Some (k, y)"
| "armed _ = None"

definition unarmed :: "runtimeOutput \<Rightarrow> bool" where
  "unarmed x = (armed x = None)"

lemma unarmed_outputs [simp]:
  "unarmed (RtLog l)" "unarmed (HealthPushed a b)" "unarmed PersistAnchors" "unarmed (CloseShadow c)"
  "\<forall>x \<in> set (map RtLog ls). unarmed x"
  by (simp_all add: unarmed_def)

lemma unarmed_reports:
  "emits unarmed (rt_failure env kind reason)" "emits unarmed (rt_success kind)"
  "emits unarmed (report_live env m)" "emits unarmed (reportMonitoringHealth env)"
  "emits unarmed (recordPollFailure env e)" "emits unarmed (haltOnTerminalAuthFailure env e)"
proof -
  show failure: "emits unarmed (rt_failure env kind reason)" for kind reason
    unfolding rt_failure_def Let_def by auto
  show success: "emits unarmed (rt_success kind)" for kind
    unfolding rt_success_def Let_def by auto
  show live: "emits unarmed (report_live env m)" for m
    by (induction env m rule: report_live.induct) (auto simp: rt_failure_def rt_success_def Let_def)
  show health: "emits unarmed (reportMonitoringHealth env)"
    unfolding reportMonitoringHealth_def Let_def by (auto intro!: live)
  show "emits unarmed (recordPollFailure env e)"
    unfolding recordPollFailure_def by (auto intro!: failure health)
  show "emits unarmed (haltOnTerminalAuthFailure env e)"
    unfolding haltOnTerminalAuthFailure_def pushMonitoringTrust_def closeQuietly_def Let_def
    by (auto intro!: failure)
qed

lemma runs_unarmed: "emits unarmed m \<Longrightarrow> keeps ctl m \<Longrightarrow> runs armed m s [] (\<lambda>x s'. ctl s' = ctl s)"
proof -
  assume m: "emits unarmed m" "keeps ctl m"
  obtain os r s' where run: "m s = (os, r, s')" using prod_cases3 by blast
  have "\<forall>x \<in> set os. armed x = None" using m(1) run unfolding emits_def unarmed_def by (metis fst_conv)
  then have "picked armed os = []" by (induction os) simp_all
  moreover have "ctl s' = ctl s" using keepsD [OF m(2), of s] run by simp
  ultimately show ?thesis by (cases r) (simp_all add: runs_def run)
qed

lemma runs_wait:
  "\<not> rt_aborted s \<Longrightarrow> runs armed (waitFor k d) s [(k, first_timer d)] (\<lambda>x s'. rt_halted s' = rt_halted s)"
  "\<not> rt_aborted s \<Longrightarrow> \<not> rt_halted s \<Longrightarrow>
    runs armed (waitWhileRunning k d) s [(k, first_timer d)] (\<lambda>x s'. rt_halted s' = rt_halted s)"
  by (simp_all add: waitFor_def waitWhileRunning_def rt_task_def runs_def first_timer_def act_then_def act_bind_cases act_defs)

lemma ctl_parts: "ctl s' = ctl s \<Longrightarrow> rt_halted s' = rt_halted s \<and> rt_aborted s' = rt_aborted s \<and> rt_stopped s' = rt_stopped s"
  by (simp add: ctl_def)

lemma launch_failed_timers:
  assumes "\<not> rt_halted s" and "\<not> rt_stopped s" and "\<not> rt_aborted s"
  shows "runs armed (launchFailure env (AuthThrottledError m t)) s [(RelaunchWait, first_timer t)] (\<lambda>x s'. \<not> rt_halted s')"
    and "runs armed (launchFailure env (CloudRequestError m status route)) s [(PollWait, first_timer (re_pollIntervalMs env))]
      (\<lambda>x s'. \<not> rt_halted s')"
proof -
  have go: "launchFailure env (AuthThrottledError m t) s
      = act_then (rt_failure env AUTHENTICATION THROTTLED) (waitFor RelaunchWait t) s"
    "launchFailure env (CloudRequestError m status route) s
      = act_then (recordPollFailure env (CloudRequestError m status route)) (startBackgroundWork env) s"
    using assms(1,2) by (simp_all add: launchFailure_def hasFinished_def haltOnTerminalAuthFailure_def act_run)
  have "runs armed (act_then (rt_failure env AUTHENTICATION THROTTLED) (waitFor RelaunchWait t)) s
      [(RelaunchWait, first_timer t)] (\<lambda>x s'. \<not> rt_halted s')"
  proof (rule runs_then_quiet [OF runs_unarmed [OF unarmed_reports(1) keeps_rt_failure]])
    fix s' assume "ctl s' = ctl s"
    with assms have "\<not> rt_aborted s'" "\<not> rt_halted s'" using ctl_parts [of s' s] by simp_all
    then show "runs armed (waitFor RelaunchWait t) s' [(RelaunchWait, first_timer t)] (\<lambda>x s'. \<not> rt_halted s')"
      using runs_conseq [OF runs_wait(1) refl] by simp
  qed
  then show "runs armed (launchFailure env (AuthThrottledError m t)) s [(RelaunchWait, first_timer t)] (\<lambda>x s'. \<not> rt_halted s')"
    by (simp add: runs_def go)
  have "runs armed (act_then (recordPollFailure env (CloudRequestError m status route)) (startBackgroundWork env)) s
      [(PollWait, first_timer (re_pollIntervalMs env))] (\<lambda>x s'. \<not> rt_halted s')"
  proof (rule runs_then_quiet [OF runs_unarmed [OF unarmed_reports(5) keeps_recordPoll(2)]])
    fix s' assume "ctl s' = ctl s"
    with assms have s': "\<not> rt_aborted s'" "\<not> rt_halted s'" using ctl_parts [of s' s] by simp_all
    show "runs armed (startBackgroundWork env) s' [(PollWait, first_timer (re_pollIntervalMs env))] (\<lambda>x s'. \<not> rt_halted s')"
      unfolding startBackgroundWork_def next_poll_def
      by (rule runs_then_last [OF runs_wait(2) [OF s']])
        (use s' in \<open>simp add: refreshCredentials_def runs_def rt_task_def act_then_def act_bind_cases act_defs\<close>)
  qed
  then show "runs armed (launchFailure env (CloudRequestError m status route)) s [(PollWait, first_timer (re_pollIntervalMs env))]
      (\<lambda>x s'. \<not> rt_halted s')"
    by (simp add: runs_def go)
qed

lemma launch_failure_returns: "returns (launchFailure env e)"
  unfolding launchFailure_def startBackgroundWork_def refreshCredentials_def
  by (cases e) (auto intro!: runtime_returns)

text \<open>What the token client hands its callers for a response that is not a success.\<close>

definition refused_status :: "int \<Rightarrow> bool" where
  "refused_status status = (400 \<le> status \<and> status < 500 \<and> status \<noteq> 429)"

definition grant_error :: "int \<Rightarrow> json option \<Rightarrow> cloudError" where
  "grant_error status body = (if refused_status status
     then AuthRejectedError (''the vendor rejected the account credentials with HTTP '' @ string_of_int status @ '' (''
       @ readErrorCode body @ '').'') (readErrorCode body)
     else failure_of status body)"

lemma grant_error_reaches_callers:
  assumes "auth_run tr a" and "jm_get (au_callers a) c = Some OnGrant" and "attempt_stage a = Some (ReadingBody status)"
    and "\<not> attempt_aborted a" and "\<not> (200 \<le> status \<and> status \<le> 299)"
    and "auth_step env (BodyArrived body salt) a = (as1, a1)" and "auth_step env' (CacheFileDeleted ok) a1 = (as2, a2)"
  shows "Answered c (Inl (grant_error status body)) \<in> set (as1 @ as2)"
proof (cases "refused_status status")
  case False
  then show ?thesis
    using failed_grant_is_classified [OF assms(1,3,4,5,6)] assms(2) unfolding grant_error_def refused_status_def by auto
next
  case True
  have enabled: "auth_enabled (BodyArrived body salt) a" using assms(3) by simp
  have "a1 = grant_stage (DeletingCache (grant_error status body)) (a\<lparr>au_haltedReason := Some (readErrorCode body)\<rparr>)"
    using assms(3-6) True
    by (auto simp: requestGrant_def response_ok_def grantFailure_def Let_def refused_status_def grant_error_def
        TOO_MANY_ATTEMPTS_def CLIENT_ERROR_def SERVER_ERROR_def)
  then have "attempt_stage a1 = Some (DeletingCache (grant_error status body))" "jm_get (au_callers a1) c = Some OnGrant"
    using assms(2,3) by (auto simp: attempt_stage_def grant_stage_def split: option.splits)
  moreover have "auth_inv {} a1" using run_auth_inv [OF auth_run.snoc [OF assms(1) enabled assms(6)]] .
  ultimately show ?thesis
    using settled_answers [of a1 c "grant_error status body" env'] assms(7) by (auto simp: cache_deleted_def split: prod.splits)
qed

text \<open>
  The answer the runtime gets for its inventory request. A body with a missing field is never handed on; that case,
  shown to be impossible by \<open>api_answers_are_complete\<close>, is an error here.
\<close>

definition inventory_answer :: "vendorWaits \<Rightarrow> cloudError + apiDevice list" where
  "inventory_answer waits = (case snd (devices api_of waits) of
      Inl e \<Rightarrow> Inl e | Inr None \<Rightarrow> Inl NotAnError | Inr (Some found) \<Rightarrow> Inr found)"

lemma inventory_without_token: "inventory_answer (w\<lparr>vw_token := Inl e\<rparr>) = Inl e"
  by (simp add: inventory_answer_def devices_def then_map_def send_def)

lemma halt_arms_nothing: "picked armed (halt_outputs env s) = []"
proof -
  have "\<forall>x \<in> set (halt_outputs env s). armed x = None"
    by (auto simp: halt_outputs_def Let_def split: option.splits)
  then show ?thesis by (induction "halt_outputs env s") (auto simp: picked_def List.map_filter_def)
qed

text \<open>The half of the runtime: the error of the status, and the step that hears it.\<close>

lemma launch_error_decides:
  assumes "assembled_run config p" and "\<not> hasFinished (pg_runtime p)"
    and "plugin_step (assemble config world) (RuntimeMoved (InventoryAnswer Launching (Inl (grant_error status body)))) p
      = (os, outs, p')"
  shows "rt_halted (pg_runtime p') = refused_status status
    \<and> picked armed os = (if refused_status status then []
        else if status = 429 then [(RelaunchWait, 1800000)]
        else [(PollWait, millis_of_seconds (bg_pollIntervalSeconds config))])"
proof -
  let ?rt = "pg_runtime p" and ?env = "wired (assemble config world) (pg_platform p)" and ?e = "grant_error status body"
  let ?ev = "InventoryAnswer Launching (Inl ?e)"
  have reached: "reachable ?rt" using plugin_reachable_parts [OF assembled_reachable [OF assms(1)]] by blast
  have step: "rt_step ?env ?ev ?rt = (os, pg_runtime p')" using assms(3) by (auto simp: plugin_moves_def split: prod.splits)
  show ?thesis
  proof (cases "refused_status status")
    case True
    then have "terminal_answer ?ev" by (simp add: grant_error_def)
    from refusal_is_reported_once [OF reached assms(2) this step] True show ?thesis by (simp add: halt_arms_nothing)
  next
    case False
    let ?s = "take_task ?ev ?rt"
    have s: "\<not> rt_halted ?s" "\<not> rt_stopped ?s" "\<not> rt_aborted ?s"
      using assms(2) reachable_inv [OF reached] by (auto simp: take_task_def hasFinished_def in_step_def)
    obtain n where n: "bg_pollIntervalSeconds config = Fin (of_int n)" "n \<le> 3600"
      using assembled_settings [OF assms(1)] by blast
    have interval: "first_timer (re_pollIntervalMs ?env) = millis_of_seconds (bg_pollIntervalSeconds config)"
      using n by (simp add: wired_def assemble_def createAccountRuntimeFromConfig_def millis_of_seconds_def first_timer_def
          MAX_TIMEOUT_DELAY_MS_def)
    have handled: "(os, pg_runtime p') = (fst (launchFailure ?env ?e ?s), post (launchFailure ?env ?e) ?s)"
      using step by (auto simp: rt_step_def inventory_answered_def inventory_failed_def post_def split: prod.splits)
    have returned: "\<exists>x. fst (snd (launchFailure ?env ?e ?s)) = Inr x"
      using launch_failure_returns unfolding returns_def by blast
    show ?thesis
      using launch_failed_timers [OF s, of ?env, THEN runsD(2)] returned False handled interval
      unfolding grant_error_def failure_of_def post_def
      by (auto simp: first_timer_def MAX_TIMEOUT_DELAY_MS_def)
  qed
qed

text \<open>
  C13. The vendor's answer to the first login decides how the plugin goes on. When the grant a launch waits for ends in a
  response that is no success, the launch's own inventory request is handed the error of that status, and the step that
  hears it does one of three things: a refusal halts the plugin, which waits for nothing any more; a 429 waits the half
  hour the token client names and launches again; any other status leaves it polling at the configured interval. Here
  the token client, the REST client, the runtime and the platform are taken together, built from one accepted
  configuration.
\<close>

theorem first_login_decides_the_launch:
  assumes "assembled_run config p" and "InventoryFetch Launching \<in> set (rt_tasks (pg_runtime p))"
    and "\<not> hasFinished (pg_runtime p)"
    and "auth_run tr a" and "jm_get (au_callers a) c = Some OnGrant" and "attempt_stage a = Some (ReadingBody status)"
    and "\<not> attempt_aborted a" and "\<not> (200 \<le> status \<and> status \<le> 299)"
    and "auth_step (auth_of config world) (BodyArrived body salt) a = (as1, a1)"
    and "auth_step (auth_of config world') (CacheFileDeleted ok) a1 = (as2, a2)"
  shows "\<exists>e os outs p'. Answered c (Inl e) \<in> set (as1 @ as2)
    \<and> plugin_step (assemble config world'') (RuntimeMoved (InventoryAnswer Launching (inventory_answer (w\<lparr>vw_token := Inl e\<rparr>)))) p
        = (os, outs, p')
    \<and> rt_halted (pg_runtime p') = refused_status status
    \<and> picked armed os = (if refused_status status then []
        else if status = 429 then [(RelaunchWait, 1800000)]
        else [(PollWait, millis_of_seconds (bg_pollIntervalSeconds config))])"
proof -
  let ?e = "grant_error status body"
  have "Answered c (Inl ?e) \<in> set (as1 @ as2)" by (rule grant_error_reaches_callers [OF assms(4-10)])
  moreover obtain os outs p' where step: "plugin_step (assemble config world'')
      (RuntimeMoved (InventoryAnswer Launching (Inl ?e))) p = (os, outs, p')" using prod_cases3 by blast
  moreover note launch_error_decides [OF assms(1,3) step]
  ultimately show ?thesis unfolding inventory_without_token by blast
qed

section \<open>A plugin to try things on\<close>

definition demo_adapters :: adapters where
  "demo_adapters = \<lparr>wd_now = 1000, wd_monotonic = 10, wd_sha256 = id, wd_crypto = \<lparr>sg_sha256 = id, sg_hmac = (\<lambda>k t. t)\<rparr>,
     wd_dateParse = (\<lambda>d. None), wd_store = demo_env, wd_platform = sample_env\<rparr>"

definition demo_config :: bgConfig where
  "demo_config = sample_settings\<lparr>bg_clientId := pc_clientId PROTOCOL\<rparr>"

lemma demo_constructed: "construct_plugin sample_block None = ([], Some (demo_config, createPlugin None))"
  using sample_accepted_with [of "pc_clientId PROTOCOL"]
  by (simp add: construct_plugin_def construct_platform_def demo_config_def)

abbreviation demo_runtime :: "runtimeTask list \<Rightarrow> runtime" where
  "demo_runtime tasks \<equiv> demo_at False (createArrivalAnchors None) [] tasks"

lemma demo_moves:
  "rt_step env (Started []) (createAccountRuntime None) = ([RestoreAnchors], demo_runtime [RestoringAnchors []])"
  "rt_step env (Restored [] False None) (demo_runtime [RestoringAnchors []]) = ([FetchInventory], demo_runtime [InventoryFetch Launching])"
  by (simp_all add: run_defs runtime_start_def anchors_restored_def anchor_restore_def readAnchorFile_def hasFinished_def
      fetch_inventory_def rt_task_def demo_at_def createAccountRuntime_def createMonitoringHealth_def)

lemma demo_fetches:
  "\<exists>p. assembled_run demo_config p \<and> pg_runtime p = demo_runtime [InventoryFetch Launching]"
proof -
  let ?env = "assemble demo_config demo_adapters"
  have start: "assembled_run demo_config (createPlugin None)" by (rule assembled_start [OF demo_constructed])
  obtain os outs p where p: "plugin_step ?env DidFinishLaunching (createPlugin None) = (os, outs, p)" using prod_cases3 by blast
  have first: "assembled_run demo_config p" by (rule assembled_step [OF start _ p]) simp
  have ids: "knownDeviceIds createPlatform = []"
    by (simp add: createPlatform_def knownDeviceIds_def List.map_filter_def js_set_def)
  have rt: "pg_runtime p = demo_runtime [RestoringAnchors []]"
    using p demo_moves(1) [of "wired ?env (pg_platform (createPlugin None))"]
    by (auto simp: plugin_moves_def ids createPlugin_def split: prod.splits)
  obtain os' outs' p' where p': "plugin_step ?env (RuntimeMoved (Restored [] False None)) p = (os', outs', p')"
    using prod_cases3 by blast
  have "assembled_run demo_config p'" by (rule assembled_step [OF first _ p']) (simp add: rt enabled_def demo_at_def)
  moreover have "pg_runtime p' = demo_runtime [InventoryFetch Launching]"
    using p' demo_moves(2) [of "wired ?env (pg_platform p)"] by (auto simp: plugin_moves_def rt split: prod.splits)
  ultimately show ?thesis by blast
qed

definition demo_waits :: vendorWaits where
  "demo_waits = \<lparr>vw_token = Inl NotAnError, vw_response = Inl NotAnError, vw_body = None, vw_aborted = None\<rparr>"

lemma demo_caller:
  "jm_get (au_callers (demo_waiting (ReadingBody status))) 0 = Some OnGrant"
  "attempt_stage (demo_waiting (ReadingBody status)) = Some (ReadingBody status)"
  "\<not> attempt_aborted (demo_waiting (ReadingBody status))"
  by (simp_all add: demo_waiting_def attempt_stage_def attempt_aborted_def jm_get_def)

theorem first_login_decides_the_launch_witness:
  "\<exists>p e os outs p'. plugin_step (assemble demo_config demo_adapters) (RuntimeMoved (InventoryAnswer Launching
      (inventory_answer (demo_waits\<lparr>vw_token := Inl e\<rparr>)))) p = (os, outs, p')
    \<and> rt_halted (pg_runtime p') = False \<and> picked armed os = [(PollWait, 600000)]"
proof -
  obtain p where p: "assembled_run demo_config p" "pg_runtime p = demo_runtime [InventoryFetch Launching]"
    using demo_fetches by blast
  have fetching: "InventoryFetch Launching \<in> set (rt_tasks (pg_runtime p))" "\<not> hasFinished (pg_runtime p)"
    by (simp_all add: p(2) demo_at_def hasFinished_def createAccountRuntime_def)
  have "\<not> (200 \<le> (500::int) \<and> (500::int) \<le> 299)" by simp
  note decided = first_login_decides_the_launch [OF p(1) fetching demo_response [of 500] demo_caller this
      prod.collapse [symmetric] prod.collapse [symmetric]]
  obtain e os outs p' where run: "plugin_step (assemble demo_config demo_adapters) (RuntimeMoved (InventoryAnswer Launching
        (inventory_answer (demo_waits\<lparr>vw_token := Inl e\<rparr>)))) p = (os, outs, p')"
    "rt_halted (pg_runtime p') = refused_status 500"
    "picked armed os = (if refused_status 500 then [] else if 500 = (429::int) then [(RelaunchWait, 1800000)]
        else [(PollWait, millis_of_seconds (bg_pollIntervalSeconds demo_config))])"
    using decided [of demo_adapters None "''s''" demo_adapters True demo_adapters demo_waits] by blast
  have "refused_status 500 = False" "millis_of_seconds (bg_pollIntervalSeconds demo_config) = 600000"
    by (simp_all add: refused_status_def demo_config_def sample_settings_def millis_of_seconds_def)
  with run(2,3) have "rt_halted (pg_runtime p') = False" "picked armed os = [(PollWait, 600000)]" by simp_all
  with run(1) show ?thesis by blast
qed

theorem polls_keep_the_configured_pace_witness:
  "\<exists>p os outs p'. plugin_step (assemble demo_config demo_adapters) (RuntimeMoved (InventoryAnswer Launching
      (Inl (grant_error 500 None)))) p = (os, outs, p')
    \<and> list_all (keeps_pace 600000 (RuntimeMoved (InventoryAnswer Launching (Inl (grant_error 500 None)))) p') os
    \<and> ArmTimer PollWait 600000 \<in> set os"
proof -
  let ?e = "RuntimeMoved (InventoryAnswer Launching (Inl (grant_error 500 None)))"
  obtain p where p: "assembled_run demo_config p" "pg_runtime p = demo_runtime [InventoryFetch Launching]"
    using demo_fetches by blast
  obtain os outs p' where step: "plugin_step (assemble demo_config demo_adapters) ?e p = (os, outs, p')"
    using prod_cases3 by blast
  have "plugin_enabled p ?e" "\<not> hasFinished (pg_runtime p)"
    by (simp_all add: p(2) enabled_def demo_at_def hasFinished_def createAccountRuntime_def)
  from polls_keep_the_configured_pace [OF p(1) this(1) step] launch_error_decides [OF p(1) this(2) step]
  have "list_all (keeps_pace 600000 ?e p') os" "picked armed os = [(PollWait, 600000)]"
    by (auto simp: demo_config_def sample_settings_def refused_status_def millis_of_seconds_def)
  moreover from this(2) have "ArmTimer PollWait 600000 \<in> set os"
    using in_picked [of "(PollWait, 600000)" armed os] by (auto elim!: armed.elims)
  ultimately show ?thesis using step by blast
qed

end
