(* ===== verification/Spec2Isabelle.thy ===== *)
theory Spec2Isabelle
  imports Registry DeviceStore Reconciliation FailureLog RetryPolicy ArrivalAnchors MonitoringHealth
    PumpRecords ServiceCatalogue Controls Distrust AccessoryProperties
    RuntimeDevices ShadowProperties AuthProperties CloudApi Redaction PlatformProperties
    CustomTypes FileStore BrokerTransport Assembly
begin

text \<open>
  A model of the Homebridge plugin for Basement Guardian sump pumps (\<open>src/src\<close>, TypeScript).

  \<^bold>\<open>The program.\<close> One account runtime polls the vendor's REST service for the inventory and
  listens to the vendor's device shadows. Both feed one canonical store, which keeps a snapshot per device
  and tells its listeners what changed. A listener per device is the accessory: it asks the device family
  whether the snapshot can be believed, works out which groups of values it cannot vouch for, and publishes
  the rows of a service catalogue to HomeKit through the HAP service objects. Pump activations are counted
  from what was watched and persisted in the accessory context; a control switch turns a HomeKit write into
  one command and waits for the device to confirm it. Monitoring health turns failed polls and missed
  heartbeats into lost trust, and absence reconciliation, with a final check, decides when an accessory goes.
  Under the runtime, a token client and a REST client talk to the vendor, and a shadow client keeps one signed
  MQTT connection. Over it, the platform checks the configuration, registers accessories with Homebridge and
  hands each inventory and each trust report to them; everything it writes passes a redacting logger.

  \<^bold>\<open>Foundations.\<close> \<open>Prelude\<close>: the JavaScript run-time library the source uses (Map in insertion
  order, Set, and the generic lemmas on them), with the locale of a finite map and its interpretation.
  \<open>JsValue\<close>: JSON values and doubles (finite values as rationals, infinities, negative zero, not-a-number) with the
  strict equality of the language. \<open>IsoDate\<close>: \<open>toISOString\<close> with its RangeError.
  \<open>Strings\<close> and \<open>Regex\<close>: the string functions and the regular expressions the source uses, with a
  backtracking matcher proved to accept exactly the language of its pattern.
  \<open>Handlers\<close>: event handlers as state transformers that emit outputs and may throw; what was done
  before a throw stays done.

  \<^bold>\<open>Theories and sources.\<close>
  \<^item> \<open>WireTypes\<close>: \<open>cloud/types.ts\<close>. The guards that narrow an untrusted response are exact for the
    documented shape.
  \<^item> \<open>CloudErrors\<close>: \<open>cloud/errors.ts\<close>. The error classes and which of them are terminal.
  \<^item> \<open>DeviceModel\<close>, \<open>WaterLevel\<close>, \<open>Gemini\<close>, \<open>Registry\<close>: \<open>device/family.ts\<close>,
    \<open>health.ts\<close>, \<open>waterLevel.ts\<close>, \<open>gemini.ts\<close>, \<open>registry.ts\<close>, \<open>halo.ts\<close>. A family is
    a record of functions; the laws its clients rely on (decoding never throws on a snapshot, a violation
    drops its scope) are a locale, interpreted on the Gemini adapter.
  \<^item> \<open>DeviceStore\<close>: \<open>device/state.ts\<close>. Snapshots, the version watermark, the silence fence, and the
    listeners called by each operation. A listener's own throw is an argument of the operation.
  \<^item> \<open>Reconciliation\<close>, \<open>FailureLog\<close>, \<open>RetryPolicy\<close>, \<open>ArrivalAnchors\<close>,
    \<open>MonitoringHealth\<close>: \<open>accessories/reconciliation.ts\<close> and the files of the same names under
    \<open>runtime/\<close>. Each is its own state and its operations; the retry policy is a transition system.
  \<^item> \<open>PumpRecords\<close>: \<open>accessories/pumpRecords.ts\<close>, \<open>persistence/accessoryContext.ts\<close>. The stored
    record, its validation at restart, and every rule of one observation, refined to a counter of runs.
  \<^item> \<open>ServiceCatalogue\<close>: \<open>accessories/serviceCatalogue.ts\<close>, \<open>services.ts\<close>. The rows, their
    trust rules and values, and the calls made on HAP. \<open>CustomTypes\<close>: \<open>customCharacteristics.ts\<close>,
    \<open>customServices.ts\<close>. The types the plugin declares, and that every reported value fits its type.
  \<^item> \<open>Controls\<close>: \<open>accessories/controls.ts\<close>, \<open>alarmMute.ts\<close>, \<open>runtime/commandPort.ts\<close>.
    Presses, answers, windows and reports as events of one binder.
  \<^item> \<open>Distrust\<close>, \<open>Accessory\<close>: \<open>accessories/basementGuardian.ts\<close>; \<open>Publication\<close> and
    \<open>AccessoryProperties\<close> hold what one accessory publishes, over one snapshot and over runs of its
    handlers. \<open>StaleMarking\<close>: \<open>accessories/staleMarking.ts\<close>, the passes over cached accessories.
  \<^item> \<open>AuthClient\<close>, \<open>AuthProperties\<close>: \<open>cloud/auth.ts\<close>. Callers, the one shared grant attempt, the
    token cache and the failures of a grant as events of one client.
  \<^item> \<open>Sigv4\<close>, \<open>CloudApi\<close>: \<open>cloud/sigv4.ts\<close>, \<open>cloud/api.ts\<close>. The signed address, and the four
    routes with what each sends, its deadline and how its answer is narrowed.
  \<^item> \<open>ShadowClient\<close>, \<open>ShadowProperties\<close>: \<open>cloud/shadow.ts\<close>, \<open>cloud/mqttTransport.ts\<close>. Every
    connection the client ever opened, the operations outstanding on it, and the retry wait. \<open>BrokerTransport\<close>: one
    operation of the transport with its timer, and the options a client is opened with.
  \<^item> \<open>Config\<close>: \<open>config.ts\<close>. \<open>Redaction\<close>: \<open>logging.ts\<close>.
  \<^item> \<open>Platform\<close>, \<open>PlatformProperties\<close>: \<open>platform.ts\<close>. The Homebridge side: which accessories
    exist, which are registered, and what is still to be written to the accessory cache.
  \<^item> \<open>AccountRuntime\<close>: \<open>runtime/accountRuntime.ts\<close>. \<open>RuntimeLifecycle\<close> states the runtime's
    life as a small abstract machine, and \<open>RuntimeProperties\<close> proves that every step of the runtime is a
    step of it; \<open>RuntimeReports\<close> and \<open>RuntimeDevices\<close> follow what the steps report and remove.
  \<^item> \<open>FileStore\<close>: how \<open>storeCache\<close> of \<open>cloud/auth.ts\<close> and \<open>storeAnchors\<close> of
    \<open>runtime/arrivalAnchors.ts\<close> write their files, with a directory as the state and each answer of the disk an
    argument; what the next start reads is told through \<open>AuthClient\<close> and \<open>ArrivalAnchors\<close>.
  \<^item> \<open>Plugin\<close>: the constructor of \<open>platform.ts\<close>, lines 671 to 713. Runtime and platform over one
    store, the callbacks of the one answered by the other, and the events of Homebridge.
  \<^item> \<open>Assembly\<close>: the rest of that constructor, \<open>createAccountRuntimeFromConfig\<close> of
    \<open>runtime/accountRuntime.ts\<close> and the constants of \<open>protocol.ts\<close>. A plugin built from an accepted
    configuration, with the token client and the REST client beside it.

  \<^bold>\<open>What the lemmas show.\<close> From a snapshot to HomeKit: a flood, or its absence, is published exactly when
  the water group can be believed, and equals what the device reported; a doubtful group never reaches a
  published value; only the listed scopes and reasons are untrusted. Over time: a watermark never goes
  back, telemetry passes to the polls after silence, one run of the pump is one count, whenever its
  timestamp arrives and also across a restart, an anchor file read back is the one written. Over the runtime: a loop's next attempt is always
  pending, nothing starts after a halt or a stop, a terminal refusal is reported once, a device is removed only when
  two inventories and the final check miss it, every wait ends on time. Towards the vendor: every caller
  of the token client gets one answer, at most one grant is outstanding, which later callers join or whose end they wait
  for, a refusal is final, and a token comes from a response or from the account's own cache file; the reports of the
  shadow client follow its link, a closed client leaves no socket, a message reaches the device its topic names; a
  command is one attempt with a bounded deadline, and the signed address decodes to what was signed. Towards
  Homebridge: an accessory that exists is never offered again, one device's failure costs no other device its turn, a
  changed field is written and a write that failed stays owed, lost trust reaches every accessory, and HAP
  changes no value reported under a type of the plugin's own. Settings are accepted exactly in their documented
  ranges, a log line keeps all of its text except the secrets, and an interrupted write of a file leaves the old content or
  the whole new one. Over the whole plugin: an accessory is unregistered only by a final check that missed its device
  after two inventories in a row had, a refused account's error is the last thing the step of the refusal pushes on every
  service that carries it, and the callbacks keep what the runtime
  relies on. From the configuration on: polls keep the configured pace, an inventory by itself asks for no other, no loop spins, and the status of the first
  login decides between a halt, a wait of half an hour and polling. Two theorems of \<open>AccessoryProperties\<close>, \<open>pending_retry_drops_a_healthy_link\<close> of
  \<open>ShadowProperties\<close>, \<open>unpublished_device_is_never_let_go\<close> of \<open>Plugin\<close> and the last clause of
  \<open>interrupted_write_costs_at_most_a_grant\<close> of \<open>FileStore\<close> show behaviour that contradicts the comments of
  the source.

  \<^bold>\<open>How the runtime is cut.\<close> The source's asynchronous functions run between two suspensions without
  interruption, so a step of \<open>AccountRuntime\<close> runs from one outside answer (an HTTP response, a timer, a
  shadow message, a call of the platform) to the next suspension. What is suspended is a multiset of tasks in
  the state; an event may answer any task that is pending, in any order. A step reads the clock once. The
  platform's listeners, the retry policy's jitter, the vendor's answers and the shadow client are
  arguments of it. \<open>Plugin\<close> gives it the platform's own callbacks; that the health callback does not throw, which
  the model of the runtime takes for granted, is proved there.

  \<^bold>\<open>Bounds.\<close> Times are rational milliseconds; counts saturate where the source's doubles do
  (\<open>js_incr\<close>). A wait is cut into timers of at most \<open>MAX_TIMEOUT_DELAY_MS\<close>, and its turns are counted exactly
  rather than bounded by fuel. No definition uses fuel.

  \<^bold>\<open>Not modelled.\<close> The HTTP agent (\<open>cloud/httpDispatcher.ts\<close>), the MQTT library, HAP, Homebridge and
  the file system: their answers are arguments. The entry point, clocks and timers. The states of the token
  client and of the shadow client are models of their own beside the runtime's: \<open>Assembly\<close> joins the
  failures of the token client to the launch, and otherwise the events each names stand for the other. The error objects that some log calls pass on are left out
  of those calls; \<open>Redaction\<close> describes what becomes of them. Object freezing has no counterpart, since HOL
  values do not change.
\<close>

end
